(* ===== verification/LkPrelude.thy ===== *)
theory LkPrelude
  imports Main "HOL-Library.Word" "HOL-Library.AList"
begin

text \<open>
  Shared vocabulary of the development: the machine types of the Rust sources, the
  results of fallible and panicking code, the small facts on lists, maps and
  association lists that the components share, and the interface of a deterministic
  machine whose steps keep an invariant.

  \<^item> A Rust \<open>String\<close> or \<open>&str\<close> is a HOL \<^typ>\<open>string\<close>: its characters are the bytes of
    the UTF-8 encoding, so \<open>length\<close> is \<open>str::len\<close>. A \<open>Vec<u8>\<close> or \<open>&[u8]\<close> is a
    list of 8-bit words.
  \<^item> \<open>u32\<close>, \<open>u64\<close> are words and wrap as release builds do; the length of a buffer
    that lives in memory (\<open>usize\<close>) is a natural number.
  \<^item> A \<open>Result<T, E>\<close> is \<open>E + T\<close> with \<open>Inl\<close> for \<open>Err\<close>.
\<close>

unbundle bit_operations_syntax

section \<open>Machine types\<close>

type_synonym byte = "8 word"
type_synonym u32 = "32 word"
type_synonym u64 = "64 word"

definition as_bytes :: "string \<Rightarrow> byte list" where
  "as_bytes s = map of_char s"

definition of_bytes :: "byte list \<Rightarrow> string" where
  "of_bytes bs = map (\<lambda>b. char_of (uint b)) bs"

lemma length_as_bytes [simp]: "length (as_bytes s) = length s"
  by (simp add: as_bytes_def)

lemma as_bytes_append [simp]: "as_bytes (s @ t) = as_bytes s @ as_bytes t"
  by (simp add: as_bytes_def)

lemma char_of_of_char_byte: "char_of (uint (of_char c :: byte)) = c"
proof -
  have "uint (of_char c :: byte) = of_char c"
    by (cases c) (simp add: of_char_def uint_word_of_int)
  then show ?thesis by simp
qed

lemma of_char_word: "(of_char c :: byte) = word_of_int (of_char c)"
  by (cases c) (simp add: of_char_def)

lemma of_char_char_of_byte: "of_char (char_of (uint (b :: byte))) = b"
proof -
  have "uint b mod 256 = uint b" using uint_bounded [of b] by simp
  then show ?thesis by (simp add: of_char_word)
qed

lemma of_bytes_as_bytes [simp]: "of_bytes (as_bytes s) = s"
  by (simp add: of_bytes_def as_bytes_def o_def char_of_of_char_byte)

lemma as_bytes_of_bytes [simp]: "as_bytes (of_bytes bs) = bs"
  by (simp add: of_bytes_def as_bytes_def o_def of_char_char_of_byte)

lemma as_bytes_inject [simp]: "as_bytes s = as_bytes t \<longleftrightarrow> s = t"
  by (metis of_bytes_as_bytes)

lemma of_bytes_append [simp]: "of_bytes (a @ b) = of_bytes a @ of_bytes b"
  by (simp add: of_bytes_def)

section \<open>Hash maps\<close>

text \<open>
  A \<open>HashMap\<close> whose entries the code iterates over is an association list with distinct
  keys (its order stands for the unspecified iteration order): \<open>get\<close> is \<^const>\<open>map_of\<close>,
  \<open>insert\<close> is \<^const>\<open>AList.update\<close>, \<open>remove\<close> is \<^const>\<open>AList.delete\<close>. The interface
  \<open>keyed_table\<close> holds the laws that the tables of pending requests, open streams and
  participants rely on.
\<close>

type_synonym ('k, 'v) hmap = "('k \<times> 'v) list"

definition hm_wf :: "('k, 'v) hmap \<Rightarrow> bool" where
  "hm_wf m \<longleftrightarrow> distinct (map fst m)"

definition hm_values :: "('k, 'v) hmap \<Rightarrow> 'v list" where
  "hm_values m = map snd m"

definition hm_keys :: "('k, 'v) hmap \<Rightarrow> 'k list" where
  "hm_keys m = map fst m"

locale keyed_table =
  fixes lookup :: "'t \<Rightarrow> 'k \<Rightarrow> 'v option"
    and insert :: "'k \<Rightarrow> 'v \<Rightarrow> 't \<Rightarrow> 't"
    and remove :: "'k \<Rightarrow> 't \<Rightarrow> 't"
    and wf :: "'t \<Rightarrow> bool"
  assumes lookup_insert: "lookup (insert k v t) = (lookup t)(k \<mapsto> v)"
    and lookup_remove: "lookup (remove k t) = (lookup t)(k := None)"
    and wf_insert: "wf t \<Longrightarrow> wf (insert k v t)"
    and wf_remove: "wf t \<Longrightarrow> wf (remove k t)"
begin

lemma remove_once: "lookup (remove k t) k = None"
  by (simp add: lookup_remove)

lemma insert_other: "k' \<noteq> k \<Longrightarrow> lookup (insert k v t) k' = lookup t k'"
  by (simp add: lookup_insert)

lemma remove_other: "k' \<noteq> k \<Longrightarrow> lookup (remove k t) k' = lookup t k'"
  by (simp add: lookup_remove)

lemma remove_insert: "lookup t k = None \<Longrightarrow> lookup (remove k (insert k v t)) = lookup t"
  by (auto simp: lookup_remove lookup_insert)

lemma dom_insert: "dom (lookup (insert k v t)) = {k} \<union> dom (lookup t)"
  by (auto simp: lookup_insert)

lemma dom_remove: "dom (lookup (remove k t)) = dom (lookup t) - {k}"
  by (auto simp: lookup_remove)

end

interpretation hm: keyed_table map_of AList.update AList.delete hm_wf
  by unfold_locales
    (auto simp: update_conv' delete_conv' hm_wf_def distinct_update distinct_delete)

lemmas hm_simps = hm.lookup_insert hm.lookup_remove hm.remove_once

lemma hm_wf_Nil [simp]: "hm_wf []"
  by (simp add: hm_wf_def)

lemma hm_wf_lookup: "hm_wf m \<Longrightarrow> (k, v) \<in> set m \<longleftrightarrow> map_of m k = Some v"
  by (auto simp: hm_wf_def)

lemma hm_wf_filter: "hm_wf m \<Longrightarrow> hm_wf (filter P m)"
  by (auto simp: hm_wf_def distinct_map_filter)

lemma map_of_filter_entries:
  "hm_wf m \<Longrightarrow> map_of (filter (\<lambda>(k, v). P v) m) k =
     (case map_of m k of None \<Rightarrow> None | Some v \<Rightarrow> if P v then Some v else None)"
proof (induction m)
  case (Cons e m)
  obtain a b where e: "e = (a, b)" by (cases e)
  have "map_of (filter (\<lambda>(k, v). P v) m) a = None" if "a = k"
    using Cons.prems e by (auto simp: hm_wf_def map_of_eq_None_iff)
  then show ?case using Cons e by (auto simp: hm_wf_def split: option.splits)
qed simp

section \<open>Machines whose steps keep an invariant\<close>

text \<open>
  A handler of the code is a function from its input and the state to the state. What every
  step keeps, every run keeps.
\<close>

locale kept_by =
  fixes step :: "'e \<Rightarrow> 's \<Rightarrow> 's"
    and inv :: "'s \<Rightarrow> bool"
  assumes step_inv: "inv s \<Longrightarrow> inv (step e s)"
begin

lemma run_inv: "inv s \<Longrightarrow> inv (fold step es s)"
  by (induction es arbitrary: s) (auto intro: step_inv)

lemma prefix_inv: "inv s \<Longrightarrow> inv (fold step (take n es) s)"
  by (rule run_inv)

end

text \<open>
  The same for a relation between the state before and after, on good states and for admissible
  inputs: a run of admissible inputs stays in the relation.
\<close>

locale related_by =
  fixes step :: "'e \<Rightarrow> 's \<Rightarrow> 's"
    and admissible :: "'e \<Rightarrow> bool"
    and good :: "'s \<Rightarrow> bool"
    and rel :: "'s \<Rightarrow> 's \<Rightarrow> bool"
  assumes rel_refl: "good s \<Longrightarrow> rel s s"
    and rel_trans: "rel s s' \<Longrightarrow> rel s' s'' \<Longrightarrow> rel s s''"
    and rel_good: "rel s s' \<Longrightarrow> good s'"
    and step_rel: "good s \<Longrightarrow> admissible e \<Longrightarrow> rel s (step e s)"
begin

lemma run_rel: "good s \<Longrightarrow> list_all admissible es \<Longrightarrow> rel s (fold step es s)"
proof (induction es arbitrary: s)
  case Nil
  then show ?case by (simp add: rel_refl)
next
  case (Cons e es)
  then have "rel s (step e s)" by (simp add: step_rel)
  with Cons show ?case by (auto intro: rel_trans rel_good)
qed

lemma run_good: "good s \<Longrightarrow> list_all admissible es \<Longrightarrow> good (fold step es s)"
  using run_rel rel_good by blast

end

end
