(* ===== verification/Utf8.thy ===== *)
theory Utf8
  imports LkPrelude
begin

text \<open>
  The part of \<open>core::str\<close> the repository relies on: which byte sequences are UTF-8
  (\<open>String::from_utf8\<close>), and the split of a string into the encodings of its characters
  (\<open>str::chars\<close>). A character is represented by its encoding, one to four bytes.
  The byte ranges are the well-formedness table of the Unicode standard, which is the
  one the Rust standard library implements.
\<close>

section \<open>One encoded character\<close>

definition cont_byte :: "byte \<Rightarrow> bool" where
  "cont_byte b \<longleftrightarrow> 0x80 \<le> b \<and> b \<le> 0xBF"

definition second_byte_ok :: "byte \<Rightarrow> byte \<Rightarrow> bool" where
  "second_byte_ok b0 b1 =
     (if b0 = 0xE0 then 0xA0 \<le> b1 \<and> b1 \<le> 0xBF
      else if b0 = 0xED then 0x80 \<le> b1 \<and> b1 \<le> 0x9F
      else if b0 = 0xF0 then 0x90 \<le> b1 \<and> b1 \<le> 0xBF
      else if b0 = 0xF4 then 0x80 \<le> b1 \<and> b1 \<le> 0x8F
      else cont_byte b1)"

definition utf8_width :: "byte list \<Rightarrow> nat option" where
  "utf8_width bs =
     (case bs of
        [] \<Rightarrow> None
      | b0 # r \<Rightarrow>
          if b0 < 0x80 then Some 1
          else if 0xC2 \<le> b0 \<and> b0 \<le> 0xDF then
            (case r of b1 # _ \<Rightarrow> if cont_byte b1 then Some 2 else None | [] \<Rightarrow> None)
          else if 0xE0 \<le> b0 \<and> b0 \<le> 0xEF then
            (case r of
               b1 # b2 # _ \<Rightarrow> if second_byte_ok b0 b1 \<and> cont_byte b2 then Some 3 else None
             | _ \<Rightarrow> None)
          else if 0xF0 \<le> b0 \<and> b0 \<le> 0xF4 then
            (case r of
               b1 # b2 # b3 # _ \<Rightarrow>
                 if second_byte_ok b0 b1 \<and> cont_byte b2 \<and> cont_byte b3 then Some 4 else None
             | _ \<Rightarrow> None)
          else None)"

lemma second_byte_ok_cont: "second_byte_ok b0 b1 \<Longrightarrow> cont_byte b1"
  by (auto simp: second_byte_ok_def cont_byte_def word_le_nat_alt split: if_splits)

lemma utf8_width_Nil [simp]: "utf8_width [] = None"
  by (simp add: utf8_width_def)

lemma utf8_width_1: "b0 < 0x80 \<Longrightarrow> utf8_width (b0 # r) = Some 1"
  by (simp add: utf8_width_def)

lemma utf8_width_2:
  "0xC2 \<le> b0 \<Longrightarrow> b0 \<le> 0xDF \<Longrightarrow> cont_byte b1 \<Longrightarrow> utf8_width (b0 # b1 # r) = Some 2"
  by (simp add: utf8_width_def word_le_nat_alt word_less_nat_alt)

lemma utf8_width_3:
  "0xE0 \<le> b0 \<Longrightarrow> b0 \<le> 0xEF \<Longrightarrow> second_byte_ok b0 b1 \<Longrightarrow> cont_byte b2 \<Longrightarrow>
   utf8_width (b0 # b1 # b2 # r) = Some 3"
  by (simp add: utf8_width_def word_le_nat_alt word_less_nat_alt)

lemma utf8_width_4:
  "0xF0 \<le> b0 \<Longrightarrow> b0 \<le> 0xF4 \<Longrightarrow> second_byte_ok b0 b1 \<Longrightarrow> cont_byte b2 \<Longrightarrow> cont_byte b3 \<Longrightarrow>
   utf8_width (b0 # b1 # b2 # b3 # r) = Some 4"
  by (simp add: utf8_width_def word_le_nat_alt word_less_nat_alt)

lemma utf8_width_cases:
  assumes "utf8_width bs = Some n"
  obtains (one) b0 r where "bs = b0 # r" "b0 < 0x80" "n = 1"
  | (two) b0 b1 r where "bs = b0 # b1 # r" "0xC2 \<le> b0" "b0 \<le> 0xDF" "cont_byte b1" "n = 2"
  | (three) b0 b1 b2 r where "bs = b0 # b1 # b2 # r" "0xE0 \<le> b0" "b0 \<le> 0xEF"
      "second_byte_ok b0 b1" "cont_byte b2" "n = 3"
  | (four) b0 b1 b2 b3 r where "bs = b0 # b1 # b2 # b3 # r" "0xF0 \<le> b0" "b0 \<le> 0xF4"
      "second_byte_ok b0 b1" "cont_byte b2" "cont_byte b3" "n = 4"
  using assms unfolding utf8_width_def by (simp split: list.splits if_splits)

lemma utf8_width_bounds: "utf8_width bs = Some n \<Longrightarrow> 1 \<le> n \<and> n \<le> 4 \<and> n \<le> length bs"
  by (erule utf8_width_cases) simp_all

lemma utf8_width_append: "utf8_width c = Some n \<Longrightarrow> utf8_width (c @ r) = Some n"
  by (erule utf8_width_cases) (simp_all add: utf8_width_1 utf8_width_2 utf8_width_3 utf8_width_4)

lemma utf8_width_take: "utf8_width bs = Some n \<Longrightarrow> utf8_width (take n bs) = Some n"
  by (erule utf8_width_cases)
    (simp_all add: utf8_width_1 [where r = "[]"] utf8_width_2 utf8_width_3 utf8_width_4)

lemma utf8_width_hd: "utf8_width bs = Some n \<Longrightarrow> \<not> cont_byte (hd bs)"
  by (erule utf8_width_cases)
    (simp_all add: cont_byte_def word_le_nat_alt word_less_nat_alt)

lemma utf8_width_tail:
  assumes "utf8_width bs = Some n" "0 < i" "i < n"
  shows "cont_byte (bs ! i)"
proof -
  from assms utf8_width_bounds have "i = 1 \<or> i = 2 \<or> i = 3" by fastforce
  with assms show ?thesis
    by (elim utf8_width_cases) (auto simp: numeral_eq_Suc dest: second_byte_ok_cont)
qed

definition is_char :: "byte list \<Rightarrow> bool" where
  "is_char c \<longleftrightarrow> utf8_width c = Some (length c)"

lemma is_char_bounds: "is_char c \<Longrightarrow> c \<noteq> [] \<and> length c \<le> 4"
  by (auto simp: is_char_def dest: utf8_width_bounds)

section \<open>Strings as sequences of characters\<close>

function utf8_chars :: "byte list \<Rightarrow> byte list list option" where
  "utf8_chars bs =
     (if bs = [] then Some []
      else case utf8_width bs of
             None \<Rightarrow> None
           | Some n \<Rightarrow> map_option ((#) (take n bs)) (utf8_chars (drop n bs)))"
  by pat_completeness auto
termination
  by (relation "measure length") (auto dest!: utf8_width_bounds)

declare utf8_chars.simps [simp del]

definition valid_utf8 :: "byte list \<Rightarrow> bool" where
  "valid_utf8 bs \<longleftrightarrow> utf8_chars bs \<noteq> None"

definition from_utf8 :: "byte list \<Rightarrow> string option" where
  "from_utf8 bs = (if valid_utf8 bs then Some (of_bytes bs) else None)"

lemma utf8_chars_Nil [simp]: "utf8_chars [] = Some []"
  by (simp add: utf8_chars.simps)

lemma utf8_chars_char:
  assumes "is_char c"
  shows "utf8_chars (c @ r) = map_option ((#) c) (utf8_chars r)"
proof -
  from assms have w: "utf8_width (c @ r) = Some (length c)" and "c \<noteq> []"
    by (auto simp: is_char_def dest: is_char_bounds utf8_width_append utf8_width_bounds)
  then show ?thesis by (subst utf8_chars.simps) simp
qed

lemma utf8_chars_concat:
  "utf8_chars bs = Some cs \<Longrightarrow> concat cs = bs \<and> list_all is_char cs"
proof (induction bs arbitrary: cs rule: utf8_chars.induct)
  case (1 bs)
  show ?case
  proof (cases "bs = []")
    case True
    with "1.prems" show ?thesis by simp
  next
    case False
    with "1.prems" obtain n cs' where n: "utf8_width bs = Some n"
      and cs': "utf8_chars (drop n bs) = Some cs'" and cs: "cs = take n bs # cs'"
      by (subst (asm) utf8_chars.simps) (auto split: option.splits)
    from "1.IH" [OF False n] cs' have "concat cs' = drop n bs \<and> list_all is_char cs'" by blast
    moreover from n have "is_char (take n bs)"
      using utf8_width_take [OF n] utf8_width_bounds [OF n] by (simp add: is_char_def min_def)
    ultimately show ?thesis by (simp add: cs)
  qed
qed

lemma utf8_chars_of_concat: "list_all is_char cs \<Longrightarrow> utf8_chars (concat cs) = Some cs"
  by (induction cs) (auto simp: utf8_chars_char)

lemma valid_utf8_iff: "valid_utf8 bs \<longleftrightarrow> (\<exists>cs. list_all is_char cs \<and> bs = concat cs)"
  unfolding valid_utf8_def using utf8_chars_concat utf8_chars_of_concat by fastforce

lemma valid_utf8E:
  assumes "valid_utf8 bs"
  obtains cs where "list_all is_char cs" "bs = concat cs"
  using assms by (auto simp: valid_utf8_iff)

lemma valid_utf8_Nil [simp]: "valid_utf8 []"
  by (simp add: valid_utf8_def)

lemma valid_utf8_concat: "list_all is_char cs \<Longrightarrow> valid_utf8 (concat cs)"
  by (auto simp: valid_utf8_iff)

lemma valid_utf8_append:
  assumes "valid_utf8 a" "valid_utf8 b"
  shows "valid_utf8 (a @ b)"
proof -
  from assms obtain cs ds where "list_all is_char (cs @ ds)" "a @ b = concat (cs @ ds)"
    by (auto elim!: valid_utf8E)
  then show ?thesis by (simp only: valid_utf8_concat)
qed

lemma valid_utf8_concat_all: "list_all valid_utf8 xs \<Longrightarrow> valid_utf8 (concat xs)"
  by (induction xs) (auto intro: valid_utf8_append)

text \<open>Every position of a string is at most three bytes after the start of its character.\<close>

lemma char_start_near:
  "list_all is_char cs \<Longrightarrow> i < length (concat cs) \<Longrightarrow>
   \<exists>j \<le> i. i < j + 4 \<and> \<not> cont_byte (concat cs ! j)"
proof (induction cs arbitrary: i)
  case Nil
  then show ?case by simp
next
  case (Cons c cs)
  then have c: "is_char c" by simp
  show ?case
  proof (cases "i < length c")
    case True
    have "\<not> cont_byte (concat (c # cs) ! 0)"
      using c is_char_bounds [OF c] by (auto simp: is_char_def nth_append hd_conv_nth dest!: utf8_width_hd)
    moreover have "i < 4" using True is_char_bounds [OF c] by simp
    ultimately show ?thesis by (intro exI [of _ 0]) auto
  next
    case False
    then have "\<exists>j \<le> i - length c. i - length c < j + 4 \<and> \<not> cont_byte (concat cs ! j)"
      using Cons.prems by (intro Cons.IH) auto
    then obtain j where "j \<le> i - length c" "i - length c < j + 4" "\<not> cont_byte (concat cs ! j)"
      by blast
    then show ?thesis using False by (intro exI [of _ "length c + j"]) (auto simp: nth_append)
  qed
qed

text \<open>A cut in front of a byte that starts a character leaves two valid strings.\<close>

lemma cut_at_char_start:
  "list_all is_char cs \<Longrightarrow> k < length (concat cs) \<Longrightarrow> \<not> cont_byte (concat cs ! k) \<Longrightarrow>
   \<exists>ds es. cs = ds @ es \<and> concat ds = take k (concat cs) \<and> concat es = drop k (concat cs)"
proof (induction cs arbitrary: k)
  case Nil
  then show ?case by simp
next
  case (Cons c cs)
  then have c: "is_char c" by simp
  show ?case
  proof (cases "k < length c")
    case True
    have "k = 0"
    proof (rule ccontr)
      assume "k \<noteq> 0"
      with True c have "cont_byte (c ! k)" by (auto simp: is_char_def dest: utf8_width_tail)
      with True Cons.prems show False by (simp add: nth_append)
    qed
    then show ?thesis by (intro exI [of _ "[]"] exI [of _ "c # cs"]) simp
  next
    case False
    then have "\<exists>ds es. cs = ds @ es \<and> concat ds = take (k - length c) (concat cs)
        \<and> concat es = drop (k - length c) (concat cs)"
      using Cons.prems by (intro Cons.IH) (auto simp: nth_append)
    then obtain ds es where d: "cs = ds @ es" and 1: "concat ds = take (k - length c) (concat cs)"
      and 2: "concat es = drop (k - length c) (concat cs)" by blast
    have "c # cs = (c # ds) @ es" using d by simp
    moreover have "concat (c # ds) = take k (concat (c # cs))" using 1 False by simp
    moreover have "concat es = drop k (concat (c # cs))" using 2 False by simp
    ultimately show ?thesis by blast
  qed
qed

lemma valid_utf8_cut:
  assumes "valid_utf8 bs" "k < length bs" "\<not> cont_byte (bs ! k)"
  shows "valid_utf8 (take k bs) \<and> valid_utf8 (drop k bs)"
proof -
  from assms(1) obtain cs where cs: "list_all is_char cs" "bs = concat cs" by (rule valid_utf8E)
  have "\<exists>ds es. cs = ds @ es \<and> concat ds = take k bs \<and> concat es = drop k bs"
    using cut_at_char_start [of cs k] assms(2,3) cs by simp
  then obtain ds es where "cs = ds @ es" "concat ds = take k bs" "concat es = drop k bs"
    by blast
  with cs(1) have "list_all is_char ds" "list_all is_char es" by simp_all
  then have "valid_utf8 (concat ds)" "valid_utf8 (concat es)" by (simp_all only: valid_utf8_concat)
  with \<open>concat ds = take k bs\<close> \<open>concat es = drop k bs\<close> show ?thesis by simp
qed

end
