(* ===== verification/Utf8Chunk.thy ===== *)
theory Utf8Chunk
  imports Utf8
begin

text \<open>
  \<open>livekit/src/room/utils/utf8_chunk.rs\<close>: the iterator that cuts the bytes of a text into
  chunks no longer than a bound without splitting a character, and \<open>slice::chunks\<close>, which
  the byte streams use. The interface \<open>chunker\<close> is what the stream writers rely on: the
  chunks of a valid input exist, concatenate to the input, are not empty and respect the
  bound; \<open>text_chunker\<close> adds that each chunk of a text is itself a text.
\<close>

section \<open>Interfaces\<close>

locale chunker =
  fixes chunk :: "byte list \<Rightarrow> byte list list option"
    and ok :: "byte list \<Rightarrow> bool"
    and bound :: nat
  assumes returns: "ok bs \<Longrightarrow> \<exists>css. chunk bs = Some css"
    and concat_chunk: "ok bs \<Longrightarrow> chunk bs = Some css \<Longrightarrow> concat css = bs"
    and chunk_nonempty: "ok bs \<Longrightarrow> chunk bs = Some css \<Longrightarrow> c \<in> set css \<Longrightarrow> c \<noteq> []"
    and chunk_bound: "ok bs \<Longrightarrow> chunk bs = Some css \<Longrightarrow> c \<in> set css \<Longrightarrow> length c \<le> bound"
begin

lemma sum_lengths: "ok bs \<Longrightarrow> chunk bs = Some css \<Longrightarrow> sum_list (map length css) = length bs"
  by (metis concat_chunk length_concat)

lemma count_le: "ok bs \<Longrightarrow> chunk bs = Some css \<Longrightarrow> length css \<le> length bs"
proof -
  assume a: "ok bs" "chunk bs = Some css"
  then have "\<forall>c \<in> set css. 1 \<le> length c"
    using chunk_nonempty by (metis One_nat_def Suc_leI length_greater_0_conv)
  then have "length css \<le> sum_list (map length css)"
    by (induction css) auto
  with sum_lengths [OF a] show ?thesis by simp
qed

lemma chunk_Nil: "ok [] \<Longrightarrow> chunk [] = Some css \<Longrightarrow> css = []"
  using count_le by fastforce

end

locale text_chunker = chunker +
  assumes chunk_valid: "ok bs \<Longrightarrow> chunk bs = Some css \<Longrightarrow> c \<in> set css \<Longrightarrow> valid_utf8 c"

section \<open>slice::chunks\<close>

text \<open>\<open>bytes.chunks(n)\<close> of the standard library; it panics on \<open>n = 0\<close>, which no caller passes.\<close>

function chunks :: "nat \<Rightarrow> 'a list \<Rightarrow> 'a list list" where
  "chunks n xs = (if xs = [] \<or> n = 0 then [] else take n xs # chunks n (drop n xs))"
  by pat_completeness auto
termination
  by (relation "measure (\<lambda>(n, xs). length xs)") auto

declare chunks.simps [simp del]

lemma chunks_Nil [simp]: "chunks n [] = []"
  by (simp add: chunks.simps)

lemma concat_chunks: "0 < n \<Longrightarrow> concat (chunks n xs) = xs"
  by (induction n xs rule: chunks.induct) (subst chunks.simps, auto)

lemma chunks_pieces: "c \<in> set (chunks n xs) \<Longrightarrow> c \<noteq> [] \<and> length c \<le> n"
  by (induction n xs rule: chunks.induct) (subst (asm) (2) chunks.simps, auto split: if_splits)

section \<open>The UTF-8 aware iterator\<close>

text \<open>\<open>Utf8AwareChunks\<close>; \<open>new\<close> panics (\<open>None\<close>) on a chunk size below four.\<close>

record utf8_chunks =
  uc_bytes :: "byte list"
  uc_chunk_size :: nat

definition utf8_chunks_new :: "byte list \<Rightarrow> nat \<Rightarrow> utf8_chunks option" where
  "utf8_chunks_new bytes chunk_size =
     (if chunk_size < 4 then None
      else Some \<lparr>uc_bytes = bytes, uc_chunk_size = chunk_size\<rparr>)"

text \<open>The inner loop: walk back from \<open>k\<close> to the first byte that is not a continuation byte.\<close>

fun scan_back :: "byte list \<Rightarrow> nat \<Rightarrow> nat" where
  "scan_back bytes 0 = 0"
| "scan_back bytes (Suc k) =
     (if (bytes ! Suc k) AND 0xc0 \<noteq> 0x80 then Suc k else scan_back bytes k)"

definition utf8_chunks_next :: "utf8_chunks \<Rightarrow> byte list option \<times> utf8_chunks" where
  "utf8_chunks_next it =
     (if uc_bytes it = [] then (None, it)
      else if length (uc_bytes it) \<le> uc_chunk_size it then
        (Some (uc_bytes it), it\<lparr>uc_bytes := []\<rparr>)
      else
        let k = scan_back (uc_bytes it) (uc_chunk_size it) in
        (Some (take k (uc_bytes it)), it\<lparr>uc_bytes := drop k (uc_bytes it)\<rparr>))"

text \<open>
  Running the iterator to the end (\<open>for chunk in ...\<close>, \<open>collect\<close>). Nothing in the type
  makes it end, so not returning is \<open>None\<close>.
\<close>

partial_function (option) utf8_chunks_collect :: "utf8_chunks \<Rightarrow> byte list list option" where
  "utf8_chunks_collect it =
     (case utf8_chunks_next it of
        (None, it') \<Rightarrow> Some []
      | (Some c, it') \<Rightarrow>
          Option.bind (utf8_chunks_collect it') (\<lambda>cs. Some (c # cs)))"

definition utf8_aware_chunks :: "nat \<Rightarrow> byte list \<Rightarrow> byte list list option" where
  "utf8_aware_chunks chunk_size bytes =
     Option.bind (utf8_chunks_new bytes chunk_size) utf8_chunks_collect"

subsection \<open>Lemmas\<close>

text \<open>The bit test of the source is the continuation-byte range: checked on all 256 bytes.\<close>

lemma byte_cases: "\<exists>n < 256. b = (of_nat n :: byte)"
  using unsigned_less [of b] by (intro exI [of _ "unat b"]) simp

lemma cont_bits_all:
  "list_all (\<lambda>n. ((of_nat n :: byte) AND 0xc0 = 0x80) = cont_byte (of_nat n)) [0..<256]"
  by code_simp

lemma cont_bits: "(b AND 0xc0 = 0x80) = cont_byte b"
  using byte_cases [of b] cont_bits_all by (auto simp: list_all_iff)

lemma scan_back_le: "scan_back bs k \<le> k"
  by (induction bs k rule: scan_back.induct) auto

lemma scan_back_start: "0 < scan_back bs k \<Longrightarrow> \<not> cont_byte (bs ! scan_back bs k)"
  by (induction bs k rule: scan_back.induct) (auto simp: cont_bits)

lemma scan_back_ge: "j \<le> k \<Longrightarrow> 0 < j \<Longrightarrow> \<not> cont_byte (bs ! j) \<Longrightarrow> j \<le> scan_back bs k"
  by (induction bs k rule: scan_back.induct) (auto simp: cont_bits le_Suc_eq)

lemma next_progress:
  assumes "valid_utf8 bs" "4 \<le> n" "n < length bs"
  shows "0 < scan_back bs n \<and> \<not> cont_byte (bs ! scan_back bs n)"
proof -
  from assms(1) obtain cs where "list_all is_char cs" "bs = concat cs" by (rule valid_utf8E)
  with assms(3) char_start_near [of cs n] obtain j where
    "j \<le> n" "n < j + 4" "\<not> cont_byte (bs ! j)" by blast
  with assms(2) scan_back_ge [of j n bs] have "0 < scan_back bs n" by simp
  then show ?thesis using scan_back_start by blast
qed

lemma collect_valid:
  assumes "valid_utf8 bs" "4 \<le> n"
  shows "\<exists>cs. utf8_chunks_collect \<lparr>uc_bytes = bs, uc_chunk_size = n\<rparr> = Some cs
    \<and> concat cs = bs \<and> (\<forall>c \<in> set cs. c \<noteq> [] \<and> length c \<le> n \<and> valid_utf8 c)"
  using assms
proof (induction "length bs" arbitrary: bs rule: less_induct)
  case less
  consider (empty) "bs = []" | (last) "bs \<noteq> []" "length bs \<le> n" | (more) "n < length bs"
    by fastforce
  then show ?case
  proof cases
    case empty
    then show ?thesis
      by (subst utf8_chunks_collect.simps) (simp add: utf8_chunks_next_def)
  next
    case last
    have "utf8_chunks_collect \<lparr>uc_bytes = [], uc_chunk_size = n\<rparr> = Some []"
      by (subst utf8_chunks_collect.simps) (simp add: utf8_chunks_next_def)
    with last less.prems show ?thesis
      by (subst utf8_chunks_collect.simps) (simp add: utf8_chunks_next_def)
  next
    case more
    define k where "k = scan_back bs n"
    have k: "0 < k" "k \<le> n" "k < length bs" "\<not> cont_byte (bs ! k)"
      using next_progress [OF less.prems more] scan_back_le [of bs n] more by (auto simp: k_def)
    have v: "valid_utf8 (take k bs)" "valid_utf8 (drop k bs)"
      using valid_utf8_cut [OF less.prems(1) k(3,4)] by simp_all
    have "length (drop k bs) < length bs" using k by simp
    from less.hyps [OF this v(2) less.prems(2)] obtain cs where
      cs: "utf8_chunks_collect \<lparr>uc_bytes = drop k bs, uc_chunk_size = n\<rparr> = Some cs"
        "concat cs = drop k bs" "\<forall>c \<in> set cs. c \<noteq> [] \<and> length c \<le> n \<and> valid_utf8 c"
      by blast
    have "utf8_chunks_collect \<lparr>uc_bytes = bs, uc_chunk_size = n\<rparr> = Some (take k bs # cs)"
      using more cs(1)
      by (subst utf8_chunks_collect.simps) (auto simp: utf8_chunks_next_def k_def Let_def)
    with cs v k more show ?thesis by auto
  qed
qed

interpretation byte_chunks: chunker "\<lambda>bs. Some (chunks (Suc n) bs)" "\<lambda>_. True" "Suc n" for n
  by unfold_locales (auto simp: concat_chunks dest: chunks_pieces)

interpretation text_chunks: text_chunker "utf8_aware_chunks (4 + n)" valid_utf8 "4 + n" for n
proof unfold_locales
  fix bs css c
  assume v: "valid_utf8 bs"
  then show "\<exists>css. utf8_aware_chunks (4 + n) bs = Some css"
    using collect_valid [of bs "4 + n"] by (auto simp: utf8_aware_chunks_def utf8_chunks_new_def)
  assume "utf8_aware_chunks (4 + n) bs = Some css"
  with v have *: "concat css = bs" "\<forall>c \<in> set css. c \<noteq> [] \<and> length c \<le> 4 + n \<and> valid_utf8 c"
    using collect_valid [of bs "4 + n"] by (auto simp: utf8_aware_chunks_def utf8_chunks_new_def)
  from *(1) show "concat css = bs" .
  assume "c \<in> set css"
  with *(2) show "c \<noteq> []" "length c \<le> 4 + n" "valid_utf8 c" by auto
qed

text \<open>
  On raw bytes the iterator need not end: a run of continuation bytes longer than the chunk
  size is answered with the empty chunk and an unchanged state, for ever.
\<close>

definition stuck :: "utf8_chunks \<Rightarrow> bool" where
  "stuck it \<longleftrightarrow> uc_chunk_size it < length (uc_bytes it) \<and>
     (\<forall>i \<le> uc_chunk_size it. 0 < i \<longrightarrow> cont_byte (uc_bytes it ! i))"

lemma scan_back_stuck: "\<forall>i \<le> k. 0 < i \<longrightarrow> cont_byte (bs ! i) \<Longrightarrow> scan_back bs k = 0"
  by (induction bs k rule: scan_back.induct) (auto simp: cont_bits)

lemma stuck_next: "stuck it \<Longrightarrow> utf8_chunks_next it = (Some [], it)"
  by (cases it) (auto simp: stuck_def utf8_chunks_next_def scan_back_stuck)

lemma stuck_collect: "stuck it \<Longrightarrow> utf8_chunks_collect it = None"
proof (rule ccontr)
  assume s: "stuck it" and "utf8_chunks_collect it \<noteq> None"
  then obtain r where r: "utf8_chunks_collect it = Some r" by blast
  have "\<not> stuck it"
  proof (rule utf8_chunks_collect.raw_induct [where P = "\<lambda>it r. \<not> stuck it", OF _ r])
    fix f it r
    assume IH: "\<And>it r. f it = Some r \<Longrightarrow> \<not> stuck it"
      and eq: "(case utf8_chunks_next it of
          (None, it') \<Rightarrow> Some []
        | (Some c, it') \<Rightarrow> Option.bind (f it') (\<lambda>cs. Some (c # cs))) = Some r"
    show "\<not> stuck it"
      using eq IH by (auto simp: stuck_next split: Option.bind_splits)
  qed
  with s show False by simp
qed

section \<open>Properties\<close>

text \<open>
  C40. For every text and every chunk size of at least four, the UTF-8 aware iterator ends;
  its chunks are not empty, are no longer than the chunk size, are each valid UTF-8, and
  concatenate to the text.
\<close>

theorem utf8_chunks_correct:
  assumes "valid_utf8 bs" and "4 \<le> n"
  shows "\<exists>cs. utf8_aware_chunks n bs = Some cs \<and> concat cs = bs \<and>
    (\<forall>c \<in> set cs. c \<noteq> [] \<and> length c \<le> n \<and> valid_utf8 c)"
proof -
  from assms(2) obtain m where "n = 4 + m" by (metis le_Suc_ex)
  moreover obtain cs where "utf8_aware_chunks (4 + m) bs = Some cs"
    using text_chunks.returns [OF assms(1)] by blast
  ultimately show ?thesis
    using assms(1) text_chunks.concat_chunk text_chunks.chunk_nonempty text_chunks.chunk_bound
      text_chunks.chunk_valid by metis
qed

lemma wave_valid: "valid_utf8 [0x6F, 0x20, 0xF0, 0x9F, 0x91, 0x8B]"
proof -
  have "list_all is_char [[0x6F], [0x20], [0xF0, 0x9F, 0x91, 0x8B]]"
    by (simp add: is_char_def utf8_width_def second_byte_ok_def cont_byte_def)
  from valid_utf8_concat [OF this] show ?thesis by simp
qed

theorem utf8_chunks_correct_witness:
  "\<exists>cs. utf8_aware_chunks 4 [0x6F, 0x20, 0xF0, 0x9F, 0x91, 0x8B] = Some cs \<and>
    concat cs = [0x6F, 0x20, 0xF0, 0x9F, 0x91, 0x8B] \<and>
    (\<forall>c \<in> set cs. c \<noteq> [] \<and> length c \<le> 4 \<and> valid_utf8 c)"
  using utf8_chunks_correct [OF wave_valid, of 4] by simp

text \<open>
  The guarantee needs valid UTF-8: on a byte slice whose first chunk-size-plus-one bytes
  hold no character start after the first, the iterator yields the empty chunk without
  advancing, and running it to the end never returns.
\<close>

theorem utf8_chunks_raw_bytes_diverge:
  assumes "4 \<le> n" and "n < length bs" and "\<forall>i \<le> n. 0 < i \<longrightarrow> cont_byte (bs ! i)"
  shows "utf8_chunks_next \<lparr>uc_bytes = bs, uc_chunk_size = n\<rparr>
      = (Some [], \<lparr>uc_bytes = bs, uc_chunk_size = n\<rparr>)
    \<and> utf8_aware_chunks n bs = None"
  using assms stuck_next [of "\<lparr>uc_bytes = bs, uc_chunk_size = n\<rparr>"]
    stuck_collect [of "\<lparr>uc_bytes = bs, uc_chunk_size = n\<rparr>"]
  by (simp add: stuck_def utf8_aware_chunks_def utf8_chunks_new_def)

theorem utf8_chunks_raw_bytes_diverge_witness:
  "utf8_aware_chunks 4 (replicate 5 0x80) = None"
proof -
  have "\<forall>i \<le> 4. 0 < i \<longrightarrow> cont_byte (replicate 5 0x80 ! i)"
    by (auto simp: cont_byte_def)
  from utf8_chunks_raw_bytes_diverge [OF _ _ this] show ?thesis by simp
qed

end
