(* ===== verification/TxQueue.thy ===== *)
theory TxQueue
  imports LkPrelude
begin

text \<open>
  \<open>livekit/src/room/utils/tx_queue.rs\<close>: the queue of sent packets kept for a retry. It
  carries the running total of its items' sizes next to the items. \<open>TxQueueItem\<close> is the
  size function of the items, an argument here. Item sizes are lengths of buffers that are
  all in memory together, so the \<open>usize\<close> total is a natural number.

  The interface \<open>sized_fifo\<close> states what the data channel task relies on.
\<close>

section \<open>Model\<close>

record 'a tx_queue =
  tq_inner :: "'a list"
  tq_buffered_size :: nat

definition tx_new :: "'a tx_queue" where
  "tx_new = \<lparr>tq_inner = [], tq_buffered_size = 0\<rparr>"

definition tx_len :: "'a tx_queue \<Rightarrow> nat" where
  "tx_len q = length (tq_inner q)"

definition tx_buffered_size :: "'a tx_queue \<Rightarrow> nat" where
  "tx_buffered_size q = tq_buffered_size q"

definition tx_peek :: "'a tx_queue \<Rightarrow> 'a option" where
  "tx_peek q = (case tq_inner q of [] \<Rightarrow> None | x # _ \<Rightarrow> Some x)"

definition tx_enqueue :: "('a \<Rightarrow> nat) \<Rightarrow> 'a \<Rightarrow> 'a tx_queue \<Rightarrow> 'a tx_queue" where
  "tx_enqueue size_of item q =
     (let size = size_of item in
      q\<lparr>tq_inner := tq_inner q @ [item], tq_buffered_size := tq_buffered_size q + size\<rparr>)"

definition tx_dequeue :: "('a \<Rightarrow> nat) \<Rightarrow> 'a tx_queue \<Rightarrow> 'a option \<times> 'a tx_queue" where
  "tx_dequeue size_of q =
     (case tq_inner q of
        [] \<Rightarrow> (None, q)
      | item # rest \<Rightarrow>
          (Some item,
           q\<lparr>tq_inner := rest, tq_buffered_size := tq_buffered_size q - size_of item\<rparr>))"

text \<open>
  \<open>while self.buffered_size > target \{ self.dequeue() \}\<close>: the loop does not look at what
  \<open>dequeue\<close> returns, so not ending is \<open>None\<close>.
\<close>

partial_function (option) tx_trim :: "('a \<Rightarrow> nat) \<Rightarrow> nat \<Rightarrow> 'a tx_queue \<Rightarrow> 'a tx_queue option" where
  "tx_trim size_of target_buffer_size q =
     (if tq_buffered_size q > target_buffer_size
      then tx_trim size_of target_buffer_size (snd (tx_dequeue size_of q))
      else Some q)"

text \<open>\<open>impl TxQueueItem for Vec<u8>\<close>.\<close>

definition vec_buffered_size :: "byte list \<Rightarrow> nat" where
  "vec_buffered_size v = length v"

section \<open>Interface\<close>

locale sized_fifo =
  fixes empty :: "'q"
    and enq :: "'a \<Rightarrow> 'q \<Rightarrow> 'q"
    and deq :: "'q \<Rightarrow> 'a option \<times> 'q"
    and peek :: "'q \<Rightarrow> 'a option"
    and total :: "'q \<Rightarrow> nat"
    and items :: "'q \<Rightarrow> 'a list"
    and inv :: "'q \<Rightarrow> bool"
    and weight :: "'a \<Rightarrow> nat"
  assumes items_empty: "items empty = []"
    and inv_empty: "inv empty"
    and items_enq: "items (enq x q) = items q @ [x]"
    and inv_enq: "inv q \<Longrightarrow> inv (enq x q)"
    and items_deq: "items (snd (deq q)) = tl (items q)"
    and inv_deq: "inv q \<Longrightarrow> inv (snd (deq q))"
    and fst_deq: "fst (deq q) = (case items q of [] \<Rightarrow> None | x # _ \<Rightarrow> Some x)"
    and peek_items: "peek q = fst (deq q)"
    and total_items: "inv q \<Longrightarrow> total q = sum_list (map weight (items q))"
begin

definition enq_all :: "'a list \<Rightarrow> 'q \<Rightarrow> 'q" where
  "enq_all xs q = fold enq xs q"

fun drain :: "nat \<Rightarrow> 'q \<Rightarrow> 'a list" where
  "drain 0 q = []"
| "drain (Suc n) q = (case deq q of (None, _) \<Rightarrow> [] | (Some x, q') \<Rightarrow> x # drain n q')"

lemma items_enq_all: "items (enq_all xs q) = items q @ xs"
  by (induction xs arbitrary: q) (auto simp: enq_all_def items_enq)

lemma inv_enq_all: "inv q \<Longrightarrow> inv (enq_all xs q)"
  by (induction xs arbitrary: q) (auto simp: enq_all_def inv_enq)

lemma drain_items: "length (items q) \<le> n \<Longrightarrow> drain n q = items q"
proof (induction n q rule: drain.induct)
  case (2 n q)
  show ?case
  proof (cases "items q")
    case Nil
    then have "fst (deq q) = None" by (simp add: fst_deq)
    then show ?thesis using Nil by (auto split: prod.splits)
  next
    case (Cons x xs)
    then have "deq q = (Some x, snd (deq q))" by (simp add: prod_eq_iff fst_deq)
    moreover have "items (snd (deq q)) = xs" using Cons items_deq [of q] by simp
    ultimately show ?thesis using "2.IH" "2.prems" Cons
      by (metis (no_types, lifting) Suc_le_mono case_prod_conv drain.simps(2) length_Cons
          option.simps(5))
  qed
qed simp

lemma fifo: "drain (length (items q) + length xs) (enq_all xs q) = items q @ xs"
  by (simp add: drain_items items_enq_all)

lemma total_enq: "inv q \<Longrightarrow> total (enq x q) = total q + weight x"
  by (simp add: total_items inv_enq items_enq)

lemma total_empty: "total empty = 0"
  by (simp add: total_items inv_empty items_empty)

end

section \<open>The queue implements the interface\<close>

definition tx_wf :: "('a \<Rightarrow> nat) \<Rightarrow> 'a tx_queue \<Rightarrow> bool" where
  "tx_wf size_of q \<longleftrightarrow> tq_buffered_size q = sum_list (map size_of (tq_inner q))"

lemma tx_wfD: "tx_wf f q \<Longrightarrow> tq_buffered_size q = sum_list (map f (tq_inner q))"
  by (simp add: tx_wf_def)

lemma tx_wf_new [simp]: "tx_wf f tx_new"
  by (simp add: tx_wf_def tx_new_def)

lemma tx_wf_enqueue [simp]: "tx_wf f q \<Longrightarrow> tx_wf f (tx_enqueue f x q)"
  by (simp add: tx_wf_def tx_enqueue_def Let_def)

lemma tx_wf_dequeue [simp]: "tx_wf f q \<Longrightarrow> tx_wf f (snd (tx_dequeue f q))"
  by (auto simp: tx_wf_def tx_dequeue_def split: list.splits)

lemma tx_inner_enqueue [simp]: "tq_inner (tx_enqueue f x q) = tq_inner q @ [x]"
  by (simp add: tx_enqueue_def Let_def)

lemma tx_inner_dequeue [simp]: "tq_inner (snd (tx_dequeue f q)) = tl (tq_inner q)"
  by (auto simp: tx_dequeue_def split: list.splits)

lemma tx_fst_dequeue: "fst (tx_dequeue f q) = (case tq_inner q of [] \<Rightarrow> None | x # _ \<Rightarrow> Some x)"
  by (auto simp: tx_dequeue_def split: list.splits)

lemma tx_inner_new [simp]: "tq_inner tx_new = []"
  by (simp add: tx_new_def)

interpretation txq: sized_fifo tx_new "tx_enqueue f" "tx_dequeue f" tx_peek tx_buffered_size
  tq_inner "tx_wf f" f for f
  by unfold_locales
    (auto simp: tx_fst_dequeue tx_peek_def tx_buffered_size_def tx_wfD split: list.splits)

section \<open>Trimming\<close>

text \<open>What trimming is for: the shortest suffix reached from the front that fits.\<close>

fun drop_to :: "('a \<Rightarrow> nat) \<Rightarrow> nat \<Rightarrow> 'a list \<Rightarrow> 'a list" where
  "drop_to f n [] = []"
| "drop_to f n (x # xs) = (if sum_list (map f (x # xs)) > n then drop_to f n xs else x # xs)"

lemma drop_to_sum: "sum_list (map f (drop_to f n xs)) \<le> n"
  by (induction xs) auto

lemma drop_to_suffix: "\<exists>ys. xs = ys @ drop_to f n xs"
proof (induction xs)
  case (Cons x xs)
  then obtain ys where "xs = ys @ drop_to f n xs" by blast
  then have "x # xs = (x # ys) @ drop_to f n xs" by simp
  then show ?case by (metis append_Nil drop_to.simps(2))
qed simp

lemma drop_to_maximal:
  "xs = ys @ [y] @ drop_to f n xs \<Longrightarrow> sum_list (map f (y # drop_to f n xs)) > n"
proof (induction xs arbitrary: ys)
  case (Cons x xs)
  show ?case
  proof (cases "sum_list (map f (x # xs)) > n")
    case False
    with Cons.prems show ?thesis by simp
  next
    case True
    show ?thesis
    proof (cases ys)
      case Nil
      with Cons.prems True have "x = y" "xs = drop_to f n xs" by auto
      with True show ?thesis by (metis drop_to.simps(2))
    next
      case (Cons z zs)
      have "drop_to f n (x # xs) = drop_to f n xs" using True by simp
      with Cons.prems Cons have "xs = zs @ [y] @ drop_to f n xs" by (simp del: drop_to.simps)
      from Cons.IH [OF this] True show ?thesis by simp
    qed
  qed
qed simp

lemma tx_trim_wf:
  "tx_wf f q \<Longrightarrow> tx_trim f n q =
     Some \<lparr>tq_inner = drop_to f n (tq_inner q),
           tq_buffered_size = sum_list (map f (drop_to f n (tq_inner q)))\<rparr>"
proof (induction "tq_inner q" arbitrary: q)
  case Nil
  then show ?case
    by (cases q, subst tx_trim.simps) (simp add: tx_wf_def)
next
  case (Cons x xs)
  let ?q = "snd (tx_dequeue f q)"
  have eq: "tq_inner ?q = xs" and wf: "tx_wf f ?q"
    using Cons.hyps(2) [symmetric] Cons.prems by simp_all
  have size: "tq_buffered_size q = sum_list (map f (x # xs))"
    using Cons.prems Cons.hyps(2) by (simp add: tx_wf_def)
  show ?case
  proof (cases "sum_list (map f (x # xs)) > n")
    case True
    have "tx_trim f n q = tx_trim f n ?q"
      using True size by (subst tx_trim.simps) simp
    then show ?thesis
      using Cons.hyps(1) [OF eq [symmetric] wf] True Cons.hyps(2) [symmetric] eq by simp
  next
    case False
    then show ?thesis
      using size Cons.hyps(2) [symmetric] by (cases q, subst tx_trim.simps) simp
  qed
qed

section \<open>Properties\<close>

text \<open>
  \<open>TxQueue::trim\<close> ends on every queue whose running total agrees with its items (every
  queue the operations build), leaves the total at or below the target, and removes nothing
  but a prefix of the items, no longer than needed.
\<close>

theorem tx_trim_correct:
  assumes "tx_wf size_of q"
  shows "\<exists>q' dropped. tx_trim size_of target q = Some q' \<and> tx_wf size_of q' \<and>
    tx_buffered_size q' \<le> target \<and> tq_inner q = dropped @ tq_inner q' \<and>
    (\<forall>ys y. dropped = ys @ [y] \<longrightarrow> size_of y + tx_buffered_size q' > target)"
proof -
  obtain dropped where d: "tq_inner q = dropped @ drop_to size_of target (tq_inner q)"
    using drop_to_suffix by blast
  have "\<forall>ys y. dropped = ys @ [y] \<longrightarrow>
    size_of y + sum_list (map size_of (drop_to size_of target (tq_inner q))) > target"
  proof (intro allI impI)
    fix ys y
    assume "dropped = ys @ [y]"
    with d have "tq_inner q = ys @ [y] @ drop_to size_of target (tq_inner q)" by simp
    from drop_to_maximal [OF this]
    show "size_of y + sum_list (map size_of (drop_to size_of target (tq_inner q))) > target"
      by simp
  qed
  with d tx_trim_wf [OF assms, of target] drop_to_sum [of size_of target "tq_inner q"]
  show ?thesis by (auto simp: tx_wf_def tx_buffered_size_def)
qed

theorem tx_trim_correct_witness:
  "\<exists>q' dropped. tx_trim vec_buffered_size 1
      \<lparr>tq_inner = [[0xFF, 0xFA], [0x0F, 0xFC, 0xAF], [0xAA]], tq_buffered_size = 6\<rparr> = Some q' \<and>
    tx_wf vec_buffered_size q' \<and> tx_buffered_size q' \<le> 1 \<and>
    [[0xFF, 0xFA], [0x0F, 0xFC, 0xAF], [0xAA]] = dropped @ tq_inner q' \<and>
    (\<forall>ys y. dropped = ys @ [y] \<longrightarrow> vec_buffered_size y + tx_buffered_size q' > 1)"
  using tx_trim_correct [of vec_buffered_size
      "\<lparr>tq_inner = [[0xFF, 0xFA], [0x0F, 0xFC, 0xAF], [0xAA]], tq_buffered_size = 6\<rparr>" 1]
  by (simp add: tx_wf_def vec_buffered_size_def)

end
