(* ===== verification/TtlMap.thy ===== *)
theory TtlMap
  imports LkPrelude
begin

text \<open>
  \<open>livekit/src/room/utils/ttl_map.rs\<close>: a hash map whose entries expire. A \<open>SystemTime\<close> is
  an integer number of nanoseconds. Every operation that calls \<open>SystemTime::now\<close> takes the
  reading as an argument; \<open>set\<close> may read the clock twice (itself and in \<open>cleanup\<close>).
  \<open>ttl.div_f64(2.0)\<close> is half the duration: exact for the whole-second durations the
  repository uses.
\<close>

section \<open>Model\<close>

record 'v ttl_entry =
  te_value :: 'v
  te_expires_at :: int

record ('k, 'v) ttl_map =
  tm_inner :: "('k, 'v ttl_entry) hmap"
  tm_last_cleanup :: int
  tm_ttl :: int

definition ttl_new :: "int \<Rightarrow> int \<Rightarrow> ('k, 'v) ttl_map" where
  "ttl_new now ttl = \<lparr>tm_inner = [], tm_last_cleanup = now, tm_ttl = ttl\<rparr>"

definition ttl_cleanup :: "int \<Rightarrow> ('k, 'v) ttl_map \<Rightarrow> ('k, 'v) ttl_map" where
  "ttl_cleanup now m =
     m\<lparr>tm_inner := filter (\<lambda>(k, entry). te_expires_at entry \<ge> now) (tm_inner m),
       tm_last_cleanup := now\<rparr>"

definition ttl_len :: "int \<Rightarrow> ('k, 'v) ttl_map \<Rightarrow> nat \<times> ('k, 'v) ttl_map" where
  "ttl_len now m = (let m' = ttl_cleanup now m in (length (tm_inner m'), m'))"

definition ttl_iter :: "int \<Rightarrow> ('k, 'v) ttl_map \<Rightarrow> ('k \<times> 'v) list \<times> ('k, 'v) ttl_map" where
  "ttl_iter now m =
     (let m' = ttl_cleanup now m in (map (\<lambda>(k, entry). (k, te_value entry)) (tm_inner m'), m'))"

definition ttl_get :: "int \<Rightarrow> 'k \<Rightarrow> ('k, 'v) ttl_map \<Rightarrow> 'v option \<times> ('k, 'v) ttl_map" where
  "ttl_get now k m =
     (case map_of (tm_inner m) k of
        None \<Rightarrow> (None, m)
      | Some entry \<Rightarrow>
          if te_expires_at entry < now
          then (None, m\<lparr>tm_inner := AList.delete k (tm_inner m)\<rparr>)
          else (Some (te_value entry), m))"

definition ttl_set ::
    "int \<Rightarrow> int \<Rightarrow> 'k \<Rightarrow> 'v option \<Rightarrow> ('k, 'v) ttl_map \<Rightarrow> ('k, 'v) ttl_map" where
  "ttl_set now now' k v m =
     (if now < tm_last_cleanup m then m \<comment> \<open>system clock anomaly\<close>
      else
        let elapsed = now - tm_last_cleanup m;
            half_ttl = tm_ttl m div 2;
            m' = (if elapsed > half_ttl then ttl_cleanup now' m else m)
        in case v of
             None \<Rightarrow> m'\<lparr>tm_inner := AList.delete k (tm_inner m')\<rparr>
           | Some value \<Rightarrow>
               m'\<lparr>tm_inner := AList.update k
                   \<lparr>te_value = value, te_expires_at = now + tm_ttl m\<rparr> (tm_inner m')\<rparr>)"

section \<open>The abstract map at a time\<close>

text \<open>What the map holds at time \<open>t\<close>: the entries that have not expired by then.\<close>

definition ttl_view :: "int \<Rightarrow> ('k, 'v) ttl_map \<Rightarrow> 'k \<Rightarrow> 'v option" where
  "ttl_view t m k =
     (case map_of (tm_inner m) k of
        None \<Rightarrow> None
      | Some entry \<Rightarrow> if te_expires_at entry < t then None else Some (te_value entry))"

definition ttl_wf :: "('k, 'v) ttl_map \<Rightarrow> bool" where
  "ttl_wf m \<longleftrightarrow> hm_wf (tm_inner m)"

lemma ttl_wf_cleanup: "ttl_wf m \<Longrightarrow> ttl_wf (ttl_cleanup now m)"
  by (simp add: ttl_wf_def ttl_cleanup_def hm_wf_filter)

lemma ttl_wf_get: "ttl_wf m \<Longrightarrow> ttl_wf (snd (ttl_get now k m))"
  by (auto simp: ttl_wf_def ttl_get_def intro: hm.wf_remove split: option.splits)

lemma ttl_wf_set: "ttl_wf m \<Longrightarrow> ttl_wf (ttl_set now now' k v m)"
  using ttl_wf_cleanup [of m now']
  by (auto simp: ttl_wf_def ttl_set_def Let_def intro: hm.wf_remove hm.wf_insert split: option.splits)

lemma ttl_view_cleanup:
  "ttl_wf m \<Longrightarrow> now \<le> t \<Longrightarrow> ttl_view t (ttl_cleanup now m) = ttl_view t m"
  by (rule ext)
    (auto simp: ttl_view_def ttl_cleanup_def ttl_wf_def map_of_filter_entries split: option.splits)

lemma ttl_view_get:
  "ttl_wf m \<Longrightarrow> now \<le> t \<Longrightarrow> ttl_view t (snd (ttl_get now k m)) = ttl_view t m"
  by (rule ext) (auto simp: ttl_view_def ttl_get_def hm_simps split: option.splits)

lemma ttl_view_set:
  assumes "ttl_wf m" "tm_last_cleanup m \<le> now" "now' \<le> t"
  shows "ttl_view t (ttl_set now now' k v m) =
    (ttl_view t m)(k := (case v of None \<Rightarrow> None
       | Some x \<Rightarrow> if now + tm_ttl m < t then None else Some x))"
  using ttl_view_cleanup [OF assms(1,3)] assms(2)
  by (auto simp: fun_eq_iff ttl_set_def Let_def ttl_view_def hm_simps split: option.splits)

text \<open>A run of the map: the operations of the code with their clock readings.\<close>

datatype (plugins only: code size) ('k, 'v) ttl_op =
    TtlGet int 'k
  | TtlSet int int 'k "'v option"
  | TtlLen int

fun ttl_step :: "('k, 'v) ttl_op \<Rightarrow> ('k, 'v) ttl_map \<Rightarrow> ('k, 'v) ttl_map" where
  "ttl_step (TtlGet now k) m = snd (ttl_get now k m)"
| "ttl_step (TtlSet now now' k v) m = ttl_set now now' k v m"
| "ttl_step (TtlLen now) m = snd (ttl_len now m)"

interpretation ttl: kept_by ttl_step ttl_wf
proof
  fix s :: "('a, 'b) ttl_map" and e
  assume "ttl_wf s"
  then show "ttl_wf (ttl_step e s)"
    by (cases e) (auto simp: ttl_len_def Let_def ttl_wf_get ttl_wf_set ttl_wf_cleanup)
qed

lemma ttl_len_live:
  assumes "ttl_wf m"
  shows "fst (ttl_len now m) = card {k. ttl_view now m k \<noteq> None}"
proof -
  let ?xs = "tm_inner (ttl_cleanup now m)"
  have d: "distinct (map fst ?xs)"
    using ttl_wf_cleanup [OF assms] by (simp add: ttl_wf_def hm_wf_def)
  have "ttl_view now m k \<noteq> None \<longleftrightarrow> map_of ?xs k \<noteq> None" for k
    using assms by (auto simp: ttl_view_def ttl_cleanup_def ttl_wf_def map_of_filter_entries
        split: option.splits)
  then have "{k. ttl_view now m k \<noteq> None} = fst ` set ?xs"
    by (auto simp: map_of_eq_None_iff)
  then show ?thesis using distinct_card [OF d] by (simp add: ttl_len_def Let_def)
qed

section \<open>Properties\<close>

text \<open>
  As long as the clock has not moved back behind the last cleanup, \<open>TtlMap\<close> implements a
  map of live entries: at every later time, a stored key is live until its time to live has
  passed, a key set to nothing is gone, and no other live entry is touched, whether or not
  the operation ran a cleanup.
\<close>

theorem ttl_set_refines:
  assumes "ttl_wf m" and "tm_last_cleanup m \<le> now" and "now' \<le> t"
  shows "ttl_view t (ttl_set now now' k v m) k =
      (case v of None \<Rightarrow> None | Some x \<Rightarrow> if now + tm_ttl m < t then None else Some x)
    \<and> (\<forall>k'. k' \<noteq> k \<longrightarrow> ttl_view t (ttl_set now now' k v m) k' = ttl_view t m k')"
  by (simp add: ttl_view_set [OF assms])

theorem ttl_set_refines_witness:
  "ttl_view 105 (ttl_set 100 101 ''PA_a'' (Some (7 :: nat)) (ttl_new 0 30)) ''PA_a'' = Some 7"
  using ttl_set_refines [of "ttl_new 0 30" 100 101 105 "''PA_a''" "Some (7 :: nat)"]
  by (simp add: ttl_new_def ttl_wf_def)

text \<open>
  After any sequence of operations on a fresh map, \<open>get\<close> answers exactly the live value
  of the key, \<open>len\<close> is the number of live keys, and neither changes what is live later.
\<close>

theorem ttl_reads_live:
  assumes "m = fold ttl_step ops (ttl_new start ttl)" and "now \<le> t"
  shows "fst (ttl_get now k m) = ttl_view now m k
    \<and> fst (ttl_len now m) = card {k. ttl_view now m k \<noteq> None}
    \<and> ttl_view t (snd (ttl_get now k m)) = ttl_view t m
    \<and> ttl_view t (snd (ttl_len now m)) = ttl_view t m"
proof (intro conjI)
  have wf: "ttl_wf m"
    unfolding assms(1) by (rule ttl.run_inv) (simp add: ttl_wf_def ttl_new_def)
  show "fst (ttl_get now k m) = ttl_view now m k"
    by (auto simp: ttl_get_def ttl_view_def split: option.splits)
  show "ttl_view t (snd (ttl_get now k m)) = ttl_view t m"
    by (rule ttl_view_get [OF wf assms(2)])
  show "ttl_view t (snd (ttl_len now m)) = ttl_view t m"
    by (simp add: ttl_len_def Let_def ttl_view_cleanup [OF wf assms(2)])
  show "fst (ttl_len now m) = card {k. ttl_view now m k \<noteq> None}"
    by (rule ttl_len_live [OF wf])
qed

theorem ttl_reads_live_witness:
  "fst (ttl_get 105 (1 :: nat) (fold ttl_step [TtlSet 100 101 1 (Some True)] (ttl_new 0 30)))
    = Some True"
  using ttl_reads_live [of "fold ttl_step [TtlSet 100 101 1 (Some True)] (ttl_new 0 30)"
      "[TtlSet 100 101 1 (Some True)]" 0 30 105 105 "1 :: nat"]
  by (simp add: ttl_view_def ttl_set_def ttl_new_def ttl_cleanup_def)

text \<open>
  When the clock reads earlier than the last cleanup, \<open>set\<close> drops the update: the map
  keeps the previous value of the key.
\<close>

theorem ttl_set_clock_anomaly:
  "now < tm_last_cleanup m \<Longrightarrow> ttl_set now now' k v m = m"
  by (simp add: ttl_set_def)

theorem ttl_set_clock_anomaly_witness:
  "ttl_set 5 5 (0 :: nat) (Some True) (ttl_new 10 30) = ttl_new 10 30"
  by (rule ttl_set_clock_anomaly) (simp add: ttl_new_def)

end
