(* ===== verification/RoomUtils.thy ===== *)
theory RoomUtils
  imports LkPrelude
begin

text \<open>
  The small utilities of \<open>livekit/src/room\<close>: the identifier types of \<open>id.rs\<close> with their
  prefix checks, \<open>calculate_changed_attributes\<close> of \<open>utils/mod.rs\<close>, and the cell of
  \<open>utils/take_cell.rs\<close> whose value can be taken once, by whichever holder comes first.
\<close>

section \<open>Identifiers\<close>

type_synonym participant_sid = string
type_synonym participant_identity = string
type_synonym track_sid = string
type_synonym room_sid = string

definition starts_with :: "string \<Rightarrow> string \<Rightarrow> bool" where
  "starts_with p s \<longleftrightarrow> take (length p) s = p"

definition ROOM_PREFIX :: string where "ROOM_PREFIX = ''RM_''"
definition PARTICIPANT_PREFIX :: string where "PARTICIPANT_PREFIX = ''PA_''"
definition TRACK_PREFIX :: string where "TRACK_PREFIX = ''TR_''"

text \<open>\<open>impl_from_prefix!\<close>: \<open>TryFrom<String>\<close>, giving the string back on failure.\<close>

definition try_from_prefix :: "string \<Rightarrow> string \<Rightarrow> string + string" where
  "try_from_prefix p value = (if starts_with p value then Inr value else Inl value)"

definition room_sid_try_from :: "string \<Rightarrow> string + room_sid" where
  "room_sid_try_from = try_from_prefix ROOM_PREFIX"

definition participant_sid_try_from :: "string \<Rightarrow> string + participant_sid" where
  "participant_sid_try_from = try_from_prefix PARTICIPANT_PREFIX"

definition track_sid_try_from :: "string \<Rightarrow> string + track_sid" where
  "track_sid_try_from = try_from_prefix TRACK_PREFIX"

text \<open>\<open>result.ok()\<close>.\<close>

fun ok :: "'e + 'a \<Rightarrow> 'a option" where
  "ok (Inl e) = None"
| "ok (Inr x) = Some x"

lemma starts_with_append: "starts_with p s \<longleftrightarrow> (\<exists>r. s = p @ r)"
  unfolding starts_with_def by (metis append_eq_conv_conj append_take_drop_id)

lemma participant_sid_ok:
  "ok (participant_sid_try_from s) = (if starts_with PARTICIPANT_PREFIX s then Some s else None)"
  by (simp add: participant_sid_try_from_def try_from_prefix_def)

lemma track_sid_ok:
  "ok (track_sid_try_from s) = (if starts_with TRACK_PREFIX s then Some s else None)"
  by (simp add: track_sid_try_from_def try_from_prefix_def)

lemma room_sid_ok:
  "ok (room_sid_try_from s) = (if starts_with ROOM_PREFIX s then Some s else None)"
  by (simp add: room_sid_try_from_def try_from_prefix_def)

lemmas sid_ok = participant_sid_ok track_sid_ok room_sid_ok

section \<open>Changed attributes\<close>

definition changed_step ::
    "(string, string) hmap \<Rightarrow> (string, string) hmap \<Rightarrow> string \<Rightarrow>
     (string, string) hmap \<Rightarrow> (string, string) hmap" where
  "changed_step old_attributes new_attributes key changed =
     (let old_value = map_of old_attributes key; new_value = map_of new_attributes key in
      if old_value \<noteq> new_value then
        (case new_value of
           Some new_value \<Rightarrow> AList.update key new_value changed
         | None \<Rightarrow> AList.update key [] changed)
      else changed)"

definition calculate_changed_attributes ::
    "(string, string) hmap \<Rightarrow> (string, string) hmap \<Rightarrow> (string, string) hmap" where
  "calculate_changed_attributes old_attributes new_attributes =
     (let all_keys = hm_keys old_attributes @ hm_keys new_attributes in
      fold (changed_step old_attributes new_attributes) all_keys [])"

lemma changed_fold:
  "map_of (fold (changed_step old new) ks acc) k =
     (if k \<in> set ks \<and> map_of old k \<noteq> map_of new k
      then Some (case map_of new k of Some v \<Rightarrow> v | None \<Rightarrow> []) else map_of acc k)"
  by (induction ks arbitrary: acc)
    (auto simp: changed_step_def Let_def hm_simps split: option.splits)

lemma lookup_key: "map_of m k \<noteq> None \<Longrightarrow> k \<in> set (hm_keys m)"
  by (force simp: hm_keys_def dest: map_of_SomeD)

lemma changed_attributes_lookup:
  "map_of (calculate_changed_attributes old new) k =
     (if map_of old k = map_of new k then None
      else Some (case map_of new k of Some v \<Rightarrow> v | None \<Rightarrow> []))"
proof (cases "map_of old k = map_of new k")
  case False
  then have "map_of old k \<noteq> None \<or> map_of new k \<noteq> None" by auto
  then have "k \<in> set (hm_keys old @ hm_keys new)" 
    using lookup_key [of old k] lookup_key [of new k] by auto
  with False show ?thesis by (auto simp: calculate_changed_attributes_def Let_def changed_fold)
qed (simp add: calculate_changed_attributes_def Let_def changed_fold)

lemma changed_attributes_empty_iff:
  "calculate_changed_attributes old new = [] \<longleftrightarrow> map_of old = map_of new"
proof
  assume "calculate_changed_attributes old new = []"
  then have "map_of (calculate_changed_attributes old new) k = None" for k by simp
  then have "map_of old k = map_of new k" for k
    by (metis changed_attributes_lookup option.distinct(1))
  then show "map_of old = map_of new" by blast
next
  assume "map_of old = map_of new"
  then have "map_of (calculate_changed_attributes old new) = Map.empty"
    by (intro ext) (simp add: changed_attributes_lookup)
  then show "calculate_changed_attributes old new = []" by (simp only: map_of_eq_empty_iff)
qed

section \<open>A cell that is taken once\<close>

text \<open>
  The operations of \<open>TakeCell\<close> on the shared value. \<open>take_if_raw\<close> reads under the read lock,
  releases it, and then calls \<open>take\<close>, which locks again: two steps that other holders of the
  cell may come between.
\<close>

definition take_cell_new :: "'a \<Rightarrow> 'a option" where
  "take_cell_new value = Some value"

definition take_cell_take :: "'a option \<Rightarrow> 'a option \<times> 'a option" where
  "take_cell_take cell = (cell, None)"

definition take_cell_matches :: "('a \<Rightarrow> bool) \<Rightarrow> 'a option \<Rightarrow> bool" where
  "take_cell_matches predicate cell = (case cell of None \<Rightarrow> False | Some v \<Rightarrow> predicate v)"

definition take_if_raw :: "('a \<Rightarrow> bool) \<Rightarrow> 'a option \<Rightarrow> 'a option \<times> 'a option" where
  "take_if_raw predicate cell =
     (if take_cell_matches predicate cell then take_cell_take cell else (None, cell))"

definition take_cell_is_taken :: "'a option \<Rightarrow> bool" where
  "take_cell_is_taken cell = (cell = None)"

datatype (plugins only: code size) 'a holder = Waiting | Matched | Returned "'a option"

record 'a cell_sys =
  cs_cell :: "'a option"
  cs_holder :: "nat \<Rightarrow> 'a holder"

text \<open>The steps of any number of holders, holder \<open>i\<close> with predicate \<open>p i\<close>.\<close>

inductive cell_step :: "(nat \<Rightarrow> 'a \<Rightarrow> bool) \<Rightarrow> 'a cell_sys \<Rightarrow> 'a cell_sys \<Rightarrow> bool" for p where
  check_ok: "cs_holder s i = Waiting \<Longrightarrow> take_cell_matches (p i) (cs_cell s) \<Longrightarrow>
     cell_step p s (s\<lparr>cs_holder := (cs_holder s)(i := Matched)\<rparr>)"
| check_fails: "cs_holder s i = Waiting \<Longrightarrow> \<not> take_cell_matches (p i) (cs_cell s) \<Longrightarrow>
     cell_step p s (s\<lparr>cs_holder := (cs_holder s)(i := Returned None)\<rparr>)"
| take_matched: "cs_holder s i = Matched \<Longrightarrow> take_cell_take (cs_cell s) = (r, c) \<Longrightarrow>
     cell_step p s \<lparr>cs_cell = c, cs_holder = (cs_holder s)(i := Returned r)\<rparr>"
| take_plain: "cs_holder s i = Waiting \<Longrightarrow> take_cell_take (cs_cell s) = (r, c) \<Longrightarrow>
     cell_step p s \<lparr>cs_cell = c, cs_holder = (cs_holder s)(i := Returned r)\<rparr>"

inductive cell_reachable :: "(nat \<Rightarrow> 'a \<Rightarrow> bool) \<Rightarrow> 'a \<Rightarrow> 'a cell_sys \<Rightarrow> bool" for p v where
  start: "cell_reachable p v \<lparr>cs_cell = take_cell_new v, cs_holder = (\<lambda>_. Waiting)\<rparr>"
| step: "cell_reachable p v s \<Longrightarrow> cell_step p s t \<Longrightarrow> cell_reachable p v t"

definition cell_inv :: "'a \<Rightarrow> 'a cell_sys \<Rightarrow> bool" where
  "cell_inv v s \<longleftrightarrow>
     cs_cell s = Some v \<and> (\<forall>j x. cs_holder s j \<noteq> Returned (Some x)) \<or>
     cs_cell s = None \<and> (\<exists>i. \<forall>j x. cs_holder s j = Returned (Some x) \<longleftrightarrow> j = i \<and> x = v)"

lemma cell_inv_taken:
  "cell_inv v s \<Longrightarrow> cs_holder s j = Returned (Some x) \<Longrightarrow> cs_cell s = None"
  by (auto simp: cell_inv_def)

lemma cell_inv_waits:
  assumes "cell_inv v s" "\<And>x. cs_holder s i \<noteq> Returned x" "h \<noteq> Returned (Some v)"
    "\<And>x. h = Returned (Some x) \<Longrightarrow> x = v"
  shows "cell_inv v (s\<lparr>cs_holder := (cs_holder s)(i := h)\<rparr>)"
  using assms unfolding cell_inv_def by (elim disjE) (auto, metis)

lemma cell_inv_takes:
  assumes "cell_inv v s" "\<And>x. cs_holder s i \<noteq> Returned x"
  shows "cell_inv v \<lparr>cs_cell = None, cs_holder = (cs_holder s)(i := Returned (cs_cell s))\<rparr>"
proof (cases "cs_cell s")
  case None
  with assms(1) obtain k where k: "\<forall>j x. cs_holder s j = Returned (Some x) \<longleftrightarrow> j = k \<and> x = v"
    by (auto simp: cell_inv_def)
  with assms(2) [of "Some v"] have "i \<noteq> k" by blast
  with k None show ?thesis by (auto simp: cell_inv_def intro!: exI [of _ k])
next
  case (Some w)
  with assms(1) show ?thesis by (auto simp: cell_inv_def intro!: exI [of _ i])
qed

lemma cell_step_inv: "cell_step p s t \<Longrightarrow> cell_inv v s \<Longrightarrow> cell_inv v t"
proof (induction rule: cell_step.induct)
  case (check_ok s i)
  then show ?case by (intro cell_inv_waits) auto
next
  case (check_fails s i)
  then show ?case by (intro cell_inv_waits) auto
next
  case (take_matched s i r c)
  then show ?case using cell_inv_takes [of v s i] by (simp add: take_cell_take_def)
next
  case (take_plain s i r c)
  then show ?case using cell_inv_takes [of v s i] by (simp add: take_cell_take_def)
qed

lemma cell_reachable_inv: "cell_reachable p v s \<Longrightarrow> cell_inv v s"
proof (induction rule: cell_reachable.induct)
  case start
  show ?case by (simp add: cell_inv_def take_cell_new_def)
next
  case (step s t)
  then show ?case by (blast intro: cell_step_inv)
qed

section \<open>Properties\<close>

text \<open>
  \<open>calculate_changed_attributes\<close> reports exactly the keys whose value differs between the
  two maps, with the new value, and with the empty string for a key that is gone; it is
  empty precisely when the maps agree.
\<close>

theorem changed_attributes_correct:
  "(\<forall>k. map_of (calculate_changed_attributes old new) k =
     (if map_of old k = map_of new k then None
      else Some (case map_of new k of Some v \<Rightarrow> v | None \<Rightarrow> [])))
   \<and> (length (calculate_changed_attributes old new) = 0) = (map_of old = map_of new)"
  by (simp add: changed_attributes_lookup changed_attributes_empty_iff)

text \<open>
  However the holders of a \<open>TakeCell\<close> interleave their checks and takes, at most one of
  them is given the value, it is the value the cell was made with, and the cell reads as
  taken exactly when somebody has it.
\<close>

theorem take_cell_exclusive:
  assumes "cell_reachable p v s"
  shows "(\<forall>i j x y. cs_holder s i = Returned (Some x) \<longrightarrow> cs_holder s j = Returned (Some y)
      \<longrightarrow> i = j \<and> x = v)
    \<and> take_cell_is_taken (cs_cell s) = (\<exists>i. cs_holder s i = Returned (Some v))"
  using cell_reachable_inv [OF assms] unfolding cell_inv_def take_cell_is_taken_def
  by (elim disjE conjE exE) auto

lemma take_cell_run:
  "cell_reachable (\<lambda>_ _. True) v
    \<lparr>cs_cell = None, cs_holder = (\<lambda>_. Waiting)(0 := Returned (Some v))\<rparr>"
proof -
  let ?s = "\<lparr>cs_cell = take_cell_new v, cs_holder = \<lambda>_. Waiting\<rparr>"
  have "cell_step (\<lambda>_ _. True) ?s
      \<lparr>cs_cell = None, cs_holder = (cs_holder ?s)(0 := Returned (Some v))\<rparr>"
    by (rule cell_step.take_plain) (simp_all add: take_cell_take_def take_cell_new_def)
  then have "cell_reachable (\<lambda>_ _. True) v
      \<lparr>cs_cell = None, cs_holder = (cs_holder ?s)(0 := Returned (Some v))\<rparr>"
    by (rule cell_reachable.step [OF cell_reachable.start])
  then show ?thesis by simp
qed

theorem take_cell_exclusive_witness:
  "take_cell_is_taken (cs_cell
    \<lparr>cs_cell = None, cs_holder = (\<lambda>_. Waiting)(0 := Returned (Some (3 :: nat)))\<rparr>)"
  using take_cell_exclusive [OF take_cell_run [of 3]] by (metis fun_upd_same select_convs(2))

end
