(* ===== verification/Proto.thy ===== *)
theory Proto
  imports RoomUtils
begin

text \<open>
  The protocol messages the modelled components exchange (the structures of
  \<open>livekit-protocol/src/livekit.rs\<close>, field by field) and the conversions of
  \<open>livekit/src/proto.rs\<close> between them and the types of the SDK. A field of enumeration type
  is an \<open>i32\<close> on the wire (an \<^typ>\<open>int\<close> here); its getter falls back to the default
  variant on an unknown number, as \<open>prost\<close> documents. An \<open>i64\<close> time stamp is an
  \<^typ>\<open>int\<close>. Messages that no modelled handler looks into are tokens.
\<close>

section \<open>Data stream messages\<close>

datatype (plugins only: code size) operation_type = Create | Update | Delete | Reaction

record proto_text_header =
  pth_operation_type :: int
  pth_version :: int
  pth_reply_to_stream_id :: string
  pth_attached_stream_ids :: "string list"
  pth_generated :: bool

record proto_byte_header =
  pbh_name :: string

datatype (plugins only: code size) content_header = TextHeader proto_text_header | ByteHeader proto_byte_header

record proto_header =
  ph_stream_id :: string
  ph_timestamp :: int
  ph_topic :: string
  ph_mime_type :: string
  ph_total_length :: "u64 option"
  ph_encryption_type :: int
  ph_attributes :: "(string, string) hmap"
  ph_content_header :: "content_header option"

record proto_chunk =
  pc_stream_id :: string
  pc_chunk_index :: u64
  pc_content :: "byte list"
  pc_version :: int
  pc_iv :: "byte list option"

record proto_trailer =
  pt_stream_id :: string
  pt_reason :: string
  pt_attributes :: "(string, string) hmap"

section \<open>Data packets\<close>

record user_packet =
  up_participant_sid :: string
  up_participant_identity :: string
  up_payload :: "byte list"
  up_destination_sids :: "string list"
  up_destination_identities :: "string list"
  up_topic :: "string option"
  up_id :: "string option"
  up_start_time :: "u64 option"
  up_end_time :: "u64 option"
  up_nonce :: "byte list"

record sip_dtmf =
  sd_code :: u32
  sd_digit :: string

record transcription_segment =
  ts_id :: string
  ts_text :: string
  ts_start_time :: u64
  ts_end_time :: u64
  ts_final :: bool
  ts_language :: string

record proto_transcription =
  ptr_transcribed_participant_identity :: string
  ptr_track_id :: string
  ptr_segments :: "transcription_segment list"

record proto_chat_message =
  pcm_id :: string
  pcm_timestamp :: int
  pcm_edit_timestamp :: "int option"
  pcm_message :: string
  pcm_deleted :: bool
  pcm_generated :: bool

record proto_rpc_request =
  prq_id :: string
  prq_method :: string
  prq_payload :: string
  prq_response_timeout_ms :: u32
  prq_version :: u32

record proto_rpc_ack =
  pra_request_id :: string

record proto_rpc_error =
  pre_code :: u32
  pre_message :: string
  pre_data :: string

datatype (plugins only: code size) rpc_response_value = RpcPayload string | RpcErr proto_rpc_error

record proto_rpc_response =
  prs_request_id :: string
  prs_value :: "rpc_response_value option"

datatype (plugins only: code size) packet_value =
    User user_packet
  | Speaker
  | SipDtmf sip_dtmf
  | TranscriptionValue proto_transcription
  | Metrics
  | ChatMessageValue proto_chat_message
  | RpcRequestValue proto_rpc_request
  | RpcAckValue proto_rpc_ack
  | RpcResponseValue proto_rpc_response
  | StreamHeader proto_header
  | StreamChunk proto_chunk
  | StreamTrailer proto_trailer
  | EncryptedPacket

record data_packet =
  dp_kind :: int
  dp_participant_identity :: string
  dp_destination_identities :: "string list"
  dp_sequence :: u32
  dp_participant_sid :: string
  dp_value :: "packet_value option"

definition default_packet :: data_packet where
  "default_packet = \<lparr>dp_kind = 0, dp_participant_identity = [], dp_destination_identities = [],
     dp_sequence = 0, dp_participant_sid = [], dp_value = None\<rparr>"

text \<open>\<open>data_packet::Kind\<close> on the wire and the SDK's own \<open>DataPacketKind\<close>.\<close>

datatype (plugins only: code size) proto_packet_kind = ProtoReliable | ProtoLossy

fun proto_kind_number :: "proto_packet_kind \<Rightarrow> int" where
  "proto_kind_number ProtoReliable = 0"
| "proto_kind_number ProtoLossy = 1"

datatype (plugins only: code size) data_packet_kind = Lossy | Reliable

fun data_packet_kind_number :: "data_packet_kind \<Rightarrow> int" where
  "data_packet_kind_number Lossy = 0"
| "data_packet_kind_number Reliable = 1"

fun proto_kind_from :: "data_packet_kind \<Rightarrow> proto_packet_kind" where
  "proto_kind_from Lossy = ProtoLossy"
| "proto_kind_from Reliable = ProtoReliable"

fun data_packet_kind_from :: "proto_packet_kind \<Rightarrow> data_packet_kind" where
  "data_packet_kind_from ProtoLossy = Lossy"
| "data_packet_kind_from ProtoReliable = Reliable"

section \<open>Enumerations of the signalling protocol\<close>

datatype (plugins only: code size) disconnect_reason =
    UnknownReason | ClientInitiated | DuplicateIdentity | ServerShutdown | ParticipantRemoved
  | RoomDeleted | StateMismatch | JoinFailure | Migration | SignalClose | RoomClosed
  | UserUnavailable | UserRejected | SipTrunkFailure | ConnectionTimeout | MediaFailure

datatype (plugins only: code size) leave_action = ActDisconnect | ActResume | ActReconnect

datatype (plugins only: code size) connection_quality = Excellent | Good | Poor | Lost

datatype (plugins only: code size) participant_kind = Standard | Ingress | Egress | Sip | Agent

datatype (plugins only: code size) track_kind = Audio | Video

datatype (plugins only: code size) proto_track_type = ProtoAudio | ProtoVideo | ProtoData

datatype (plugins only: code size) track_source = UnknownSource | Camera | Microphone | Screenshare | ScreenshareAudio

fun track_kind_try_from :: "proto_track_type \<Rightarrow> string + track_kind" where
  "track_kind_try_from ProtoAudio = Inr Audio"
| "track_kind_try_from ProtoVideo = Inr Video"
| "track_kind_try_from ProtoData = Inl ''data tracks are not implemented yet''"

fun track_type_from :: "track_kind \<Rightarrow> proto_track_type" where
  "track_type_from Audio = ProtoAudio"
| "track_type_from Video = ProtoVideo"

section \<open>Chat messages and track permissions\<close>

record chat_message =
  cm_id :: string
  cm_message :: string
  cm_timestamp :: int
  cm_edit_timestamp :: "int option"
  cm_deleted :: "bool option"
  cm_generated :: "bool option"

definition chat_message_from_proto :: "proto_chat_message \<Rightarrow> chat_message" where
  "chat_message_from_proto m =
     \<lparr>cm_id = pcm_id m, cm_message = pcm_message m, cm_timestamp = pcm_timestamp m,
      cm_edit_timestamp = pcm_edit_timestamp m, cm_deleted = Some (pcm_deleted m),
      cm_generated = Some (pcm_generated m)\<rparr>"

definition unwrap_or :: "'a \<Rightarrow> 'a option \<Rightarrow> 'a" where
  "unwrap_or d x = (case x of None \<Rightarrow> d | Some v \<Rightarrow> v)"

lemma unwrap_or_simps [simp]: "unwrap_or d None = d" "unwrap_or d (Some v) = v"
  by (simp_all add: unwrap_or_def)

definition chat_message_to_proto :: "chat_message \<Rightarrow> proto_chat_message" where
  "chat_message_to_proto m =
     \<lparr>pcm_id = cm_id m, pcm_timestamp = cm_timestamp m, pcm_edit_timestamp = cm_edit_timestamp m,
      pcm_message = cm_message m, pcm_deleted = unwrap_or False (cm_deleted m),
      pcm_generated = unwrap_or False (cm_generated m)\<rparr>"

record participant_track_permission =
  ptp_participant_identity :: participant_identity
  ptp_allow_all :: bool
  ptp_allowed_track_sids :: "track_sid list"

record track_permission =
  tp_participant_sid :: string
  tp_all_tracks :: bool
  tp_track_sids :: "string list"
  tp_participant_identity :: string

definition track_permission_from :: "participant_track_permission \<Rightarrow> track_permission" where
  "track_permission_from perm =
     \<lparr>tp_participant_sid = [], tp_all_tracks = ptp_allow_all perm,
      tp_track_sids = ptp_allowed_track_sids perm,
      tp_participant_identity = ptp_participant_identity perm\<rparr>"

text \<open>The way back unwraps each track sid: \<open>None\<close> is the panic on one without its prefix.\<close>

fun unwrap_all :: "('e + 'a) list \<Rightarrow> 'a list option" where
  "unwrap_all [] = Some []"
| "unwrap_all (Inl e # xs) = None"
| "unwrap_all (Inr x # xs) = map_option ((#) x) (unwrap_all xs)"

definition participant_track_permission_from ::
    "track_permission \<Rightarrow> participant_track_permission option" where
  "participant_track_permission_from perm =
     map_option (\<lambda>sids. \<lparr>ptp_participant_identity = tp_participant_identity perm,
         ptp_allow_all = tp_all_tracks perm, ptp_allowed_track_sids = sids\<rparr>)
       (unwrap_all (map track_sid_try_from (tp_track_sids perm)))"

lemma unwrap_all_sids:
  "\<forall>s \<in> set sids. starts_with TRACK_PREFIX s \<Longrightarrow>
   unwrap_all (map track_sid_try_from sids) = Some sids"
  by (induction sids) (auto simp: track_sid_try_from_def try_from_prefix_def)

section \<open>Properties\<close>

text \<open>
  Protocol conversions round-trip: a chat message read from the wire and written back is
  unchanged, a track permission whose track sids carry their prefix survives the way to the
  protocol and back without a panic, and the two packet kind conversions are inverse.
\<close>

theorem proto_conversions_roundtrip:
  assumes "\<forall>s \<in> set (ptp_allowed_track_sids perm). starts_with TRACK_PREFIX s"
  shows "participant_track_permission_from (track_permission_from perm) = Some perm
    \<and> chat_message_to_proto (chat_message_from_proto m) = m
    \<and> data_packet_kind_from (proto_kind_from k) = k"
  using unwrap_all_sids [OF assms]
  by (cases k) (simp_all add: participant_track_permission_from_def track_permission_from_def
      chat_message_to_proto_def chat_message_from_proto_def)

theorem proto_conversions_roundtrip_witness:
  "participant_track_permission_from (track_permission_from
     \<lparr>ptp_participant_identity = ''bob'', ptp_allow_all = False,
      ptp_allowed_track_sids = [''TR_1'']\<rparr>)
   = Some \<lparr>ptp_participant_identity = ''bob'', ptp_allow_all = False,
      ptp_allowed_track_sids = [''TR_1'']\<rparr>"
  using proto_conversions_roundtrip [of "\<lparr>ptp_participant_identity = ''bob'',
      ptp_allow_all = False, ptp_allowed_track_sids = [''TR_1'']\<rparr>"]
  by (simp add: starts_with_def TRACK_PREFIX_def)

end
