(* ===== verification/DataStream.thy ===== *)
theory DataStream
  imports Proto Utf8
begin

text \<open>
  \<open>livekit/src/room/data_stream/mod.rs\<close>: the errors, the progress counters and the stream
  information shared by the two directions of a data stream, and the reading of a header
  packet. \<open>chrono\<close> is outside the repository: its conversion of a millisecond time stamp
  (which may refuse one out of range) and the current time are arguments.
\<close>

section \<open>Model\<close>

datatype (plugins only: code size) stream_error =
    AlreadyClosed
  | AbnormalEnd string
  | Utf8Error "byte list"
  | InvalidHeader
  | MissedChunk
  | LengthExceeded
  | Incomplete
  | SendFailed
  | IoError string
  | InternalError

type_synonym 'a stream_result = "stream_error + 'a"

record stream_progress =
  sp_chunk_index :: u64
  sp_bytes_processed :: u64
  sp_bytes_total :: "u64 option"

definition progress_start :: "u64 option \<Rightarrow> stream_progress" where
  "progress_start bytes_total =
     \<lparr>sp_chunk_index = 0, sp_bytes_processed = 0, sp_bytes_total = bytes_total\<rparr>"

record byte_stream_info =
  bsi_id :: string
  bsi_topic :: string
  bsi_timestamp :: int
  bsi_total_length :: "u64 option"
  bsi_attributes :: "(string, string) hmap"
  bsi_mime_type :: string
  bsi_name :: string

record text_stream_info =
  tsi_id :: string
  tsi_topic :: string
  tsi_timestamp :: int
  tsi_total_length :: "u64 option"
  tsi_attributes :: "(string, string) hmap"
  tsi_mime_type :: string
  tsi_operation_type :: operation_type
  tsi_version :: int
  tsi_reply_to_stream_id :: "string option"
  tsi_attached_stream_ids :: "string list"
  tsi_generated :: bool

datatype (plugins only: code size) any_stream_info = ByteInfo byte_stream_info | TextInfo text_stream_info

text \<open>\<open>chrono\<close>: time stamp conversion and the current time.\<close>

record clock =
  from_timestamp_millis :: "int \<Rightarrow> int option"
  utc_now :: int

definition stream_time :: "clock \<Rightarrow> int \<Rightarrow> int" where
  "stream_time clk ts = unwrap_or (utc_now clk) (from_timestamp_millis clk ts)"

definition operation_type_of :: "int \<Rightarrow> operation_type" where
  "operation_type_of n =
     (if n = 1 then Update else if n = 2 then Delete else if n = 3 then Reaction else Create)"

fun operation_type_number :: "operation_type \<Rightarrow> int" where
  "operation_type_number Create = 0"
| "operation_type_number Update = 1"
| "operation_type_number Delete = 2"
| "operation_type_number Reaction = 3"

definition byte_info_from_headers ::
    "clock \<Rightarrow> proto_header \<Rightarrow> proto_byte_header \<Rightarrow> byte_stream_info" where
  "byte_info_from_headers clk header byte_header =
     \<lparr>bsi_id = ph_stream_id header,
      bsi_topic = ph_topic header,
      bsi_timestamp = stream_time clk (ph_timestamp header),
      bsi_total_length = ph_total_length header,
      bsi_attributes = ph_attributes header,
      bsi_mime_type = ph_mime_type header,
      bsi_name = pbh_name byte_header\<rparr>"

definition text_info_from_headers ::
    "clock \<Rightarrow> proto_header \<Rightarrow> proto_text_header \<Rightarrow> text_stream_info" where
  "text_info_from_headers clk header text_header =
     \<lparr>tsi_id = ph_stream_id header,
      tsi_topic = ph_topic header,
      tsi_timestamp = stream_time clk (ph_timestamp header),
      tsi_total_length = ph_total_length header,
      tsi_attributes = ph_attributes header,
      tsi_mime_type = ph_mime_type header,
      tsi_operation_type = operation_type_of (pth_operation_type text_header),
      tsi_version = pth_version text_header,
      tsi_reply_to_stream_id =
        (if pth_reply_to_stream_id text_header \<noteq> []
         then Some (pth_reply_to_stream_id text_header) else None),
      tsi_attached_stream_ids = pth_attached_stream_ids text_header,
      tsi_generated = pth_generated text_header\<rparr>"

definition any_stream_info_try_from :: "clock \<Rightarrow> proto_header \<Rightarrow> any_stream_info stream_result" where
  "any_stream_info_try_from clk header =
     (case ph_content_header header of
        None \<Rightarrow> Inl InvalidHeader
      | Some content_header \<Rightarrow>
          let header = header\<lparr>ph_content_header := None\<rparr> in
          Inr (case content_header of
                 ByteHeader byte_header \<Rightarrow> ByteInfo (byte_info_from_headers clk header byte_header)
               | TextHeader text_header \<Rightarrow> TextInfo (text_info_from_headers clk header text_header)))"

fun any_info_id :: "any_stream_info \<Rightarrow> string" where
  "any_info_id (ByteInfo i) = bsi_id i"
| "any_info_id (TextInfo i) = tsi_id i"

fun any_info_total_length :: "any_stream_info \<Rightarrow> u64 option" where
  "any_info_total_length (ByteInfo i) = bsi_total_length i"
| "any_info_total_length (TextInfo i) = tsi_total_length i"

section \<open>Lemmas\<close>

lemma operation_type_roundtrip [simp]: "operation_type_of (operation_type_number t) = t"
  by (cases t) (simp_all add: operation_type_of_def)

lemma any_info_from_header:
  "any_stream_info_try_from clk h = Inr info \<Longrightarrow>
   any_info_id info = ph_stream_id h \<and> any_info_total_length info = ph_total_length h"
  by (auto simp: any_stream_info_try_from_def Let_def byte_info_from_headers_def text_info_from_headers_def
      split: option.splits content_header.splits)

lemma any_info_header_error:
  "any_stream_info_try_from clk h = Inl e \<longleftrightarrow> ph_content_header h = None \<and> e = InvalidHeader"
  by (auto simp: any_stream_info_try_from_def Let_def split: option.splits)

end
