(* ===== verification/IncomingStream.thy ===== *)
theory IncomingStream
  imports DataStream
begin

text \<open>
  \<open>livekit/src/room/data_stream/incoming.rs\<close>: the manager that routes the chunk and trailer
  packets of open streams to their readers, and the readers.

  Each stream has an unbounded \<open>tokio\<close> channel, which is outside the repository. A channel is
  a number; the model keeps what the manager sent on it (\<open>im_sent\<close>) and whether the manager
  has dropped its sender (\<open>im_dropped\<close>). A send fails exactly when the receiver is gone,
  which is decided by the reader and is an argument (\<open>alive\<close>) of the operations that send. A
  reader is given the items its channel yields up to the end of the channel.
\<close>

section \<open>The manager\<close>

record descriptor =
  de_progress :: stream_progress
  de_chunk_tx :: nat

record incoming_manager =
  im_open_streams :: "string \<rightharpoonup> descriptor"
  im_open_tx :: "((any_stream_info \<times> nat) \<times> string) list"
  im_sent :: "nat \<Rightarrow> byte list stream_result list"
  im_dropped :: "nat list"
  im_next :: nat

definition incoming_new :: incoming_manager where
  "incoming_new = \<lparr>im_open_streams = Map.empty, im_open_tx = [], im_sent = (\<lambda>_. []),
     im_dropped = [], im_next = 0\<rparr>"

text \<open>\<open>chunk_tx.send(item)\<close>: the new manager and whether the send succeeded.\<close>

definition chunk_send ::
    "(nat \<Rightarrow> bool) \<Rightarrow> nat \<Rightarrow> byte list stream_result \<Rightarrow> incoming_manager \<Rightarrow> bool \<times> incoming_manager" where
  "chunk_send alive c item m =
     (if alive c then (True, m\<lparr>im_sent := (im_sent m)(c := im_sent m c @ [item])\<rparr>) else (False, m))"

text \<open>\<open>AnyStreamReader::from\<close>: a new channel; the reader is the info with the channel.\<close>

definition any_reader_from ::
    "any_stream_info \<Rightarrow> incoming_manager \<Rightarrow> (any_stream_info \<times> nat) \<times> nat \<times> incoming_manager" where
  "any_reader_from info m = ((info, im_next m), im_next m, m\<lparr>im_next := Suc (im_next m)\<rparr>)"

definition close_stream :: "string \<Rightarrow> incoming_manager \<Rightarrow> incoming_manager" where
  "close_stream i m =
     (case im_open_streams m i of
        None \<Rightarrow> m
      | Some d \<Rightarrow> m\<lparr>im_open_streams := (im_open_streams m)(i := None),
                     im_dropped := de_chunk_tx d # im_dropped m\<rparr>)"

definition close_stream_with_error ::
    "(nat \<Rightarrow> bool) \<Rightarrow> string \<Rightarrow> stream_error \<Rightarrow> incoming_manager \<Rightarrow> incoming_manager" where
  "close_stream_with_error alive i error m =
     (case im_open_streams m i of
        None \<Rightarrow> m
      | Some d \<Rightarrow>
          let m' = m\<lparr>im_open_streams := (im_open_streams m)(i := None)\<rparr>;
              m'' = snd (chunk_send alive (de_chunk_tx d) (Inl error) m')
          in m''\<lparr>im_dropped := de_chunk_tx d # im_dropped m''\<rparr>)"

definition yield_chunk ::
    "(nat \<Rightarrow> bool) \<Rightarrow> string \<Rightarrow> byte list \<Rightarrow> incoming_manager \<Rightarrow> incoming_manager" where
  "yield_chunk alive i chunk m =
     (case im_open_streams m i of
        None \<Rightarrow> m
      | Some d \<Rightarrow>
          (case chunk_send alive (de_chunk_tx d) (Inr chunk) m of
             (True, m') \<Rightarrow> m'
           | (False, m') \<Rightarrow> close_stream i m'))"

definition handle_header ::
    "clock \<Rightarrow> proto_header \<Rightarrow> string \<Rightarrow> incoming_manager \<Rightarrow> incoming_manager" where
  "handle_header clk header identity m =
     (case any_stream_info_try_from clk header of
        Inl _ \<Rightarrow> m
      | Inr info \<Rightarrow>
          let i = any_info_id info; bytes_total = any_info_total_length info in
          if im_open_streams m i \<noteq> None then m
          else
            let (reader, chunk_tx, m') = any_reader_from info m;
                m'' = m'\<lparr>im_open_tx := im_open_tx m' @ [(reader, identity)]\<rparr>;
                descriptor = \<lparr>de_progress = progress_start bytes_total, de_chunk_tx = chunk_tx\<rparr>
            in m''\<lparr>im_open_streams := (im_open_streams m'')(i \<mapsto> descriptor)\<rparr>)"

definition over_total :: "stream_progress \<Rightarrow> bool" where
  "over_total p =
     (case sp_bytes_total p of Some bound \<Rightarrow> sp_bytes_processed p > bound | None \<Rightarrow> False)"

definition reached_total :: "stream_progress \<Rightarrow> bool" where
  "reached_total p =
     (case sp_bytes_total p of Some bound \<Rightarrow> sp_bytes_processed p \<ge> bound | None \<Rightarrow> True)"

definition handle_chunk :: "(nat \<Rightarrow> bool) \<Rightarrow> proto_chunk \<Rightarrow> incoming_manager \<Rightarrow> incoming_manager" where
  "handle_chunk alive chunk m =
     (let i = pc_stream_id chunk in
      case im_open_streams m i of
        None \<Rightarrow> m
      | Some d \<Rightarrow>
          if sp_chunk_index (de_progress d) \<noteq> pc_chunk_index chunk
          then close_stream_with_error alive i MissedChunk m
          else
            let p = (de_progress d)
                  \<lparr>sp_chunk_index := sp_chunk_index (de_progress d) + 1,
                   sp_bytes_processed := sp_bytes_processed (de_progress d)
                     + of_nat (length (pc_content chunk))\<rparr>;
                m' = m\<lparr>im_open_streams := (im_open_streams m)(i \<mapsto> d\<lparr>de_progress := p\<rparr>)\<rparr>
            in if over_total p then close_stream_with_error alive i LengthExceeded m'
               else yield_chunk alive i (pc_content chunk) m')"

definition handle_trailer ::
    "(nat \<Rightarrow> bool) \<Rightarrow> proto_trailer \<Rightarrow> incoming_manager \<Rightarrow> incoming_manager" where
  "handle_trailer alive trailer m =
     (let i = pt_stream_id trailer in
      case im_open_streams m i of
        None \<Rightarrow> m
      | Some d \<Rightarrow>
          if \<not> reached_total (de_progress d)
          then close_stream_with_error alive i Incomplete m
          else if pt_reason trailer \<noteq> []
          then close_stream_with_error alive i (AbnormalEnd (pt_reason trailer)) m
          else close_stream i m)"

section \<open>The readers\<close>

text \<open>\<open>ByteStreamReader::read_all\<close> on the items of its channel.\<close>

fun byte_read_all_loop :: "byte list \<Rightarrow> byte list stream_result list \<Rightarrow> byte list stream_result" where
  "byte_read_all_loop buffer [] = Inr buffer"
| "byte_read_all_loop buffer (Inr bytes # rest) = byte_read_all_loop (buffer @ bytes) rest"
| "byte_read_all_loop buffer (Inl e # rest) = Inl e"

definition byte_read_all :: "byte list stream_result list \<Rightarrow> byte list stream_result" where
  "byte_read_all items = byte_read_all_loop [] items"

text \<open>
  \<open>TextStreamReader::poll_next\<close> on one item: the item of the reader, and whether it closed
  its channel.
\<close>

definition text_poll :: "byte list stream_result \<Rightarrow> string stream_result \<times> bool" where
  "text_poll item =
     (case item of
        Inr chunk \<Rightarrow>
          (case from_utf8 chunk of
             Some content \<Rightarrow> (Inr content, False)
           | None \<Rightarrow> (Inl (Utf8Error chunk), True))
      | Inl e \<Rightarrow> (Inl e, False))"

fun text_read_all_loop :: "string \<Rightarrow> byte list stream_result list \<Rightarrow> string stream_result" where
  "text_read_all_loop result [] = Inr result"
| "text_read_all_loop result (item # rest) =
     (case fst (text_poll item) of
        Inr text \<Rightarrow> text_read_all_loop (result @ text) rest
      | Inl e \<Rightarrow> Inl e)"

definition text_read_all :: "byte list stream_result list \<Rightarrow> string stream_result" where
  "text_read_all items = text_read_all_loop [] items"

lemma byte_read_all_ok: "byte_read_all_loop buf (map Inr cs) = Inr (buf @ concat cs)"
  by (induction cs arbitrary: buf) auto

lemma byte_read_all_error: "byte_read_all_loop buf (map Inr cs @ [Inl e]) = Inl e"
  by (induction cs arbitrary: buf) auto

lemma text_read_all_ok:
  "list_all valid_utf8 cs \<Longrightarrow>
   text_read_all_loop r (map Inr cs) = Inr (r @ of_bytes (concat cs))"
  by (induction cs arbitrary: r) (auto simp: text_poll_def from_utf8_def of_bytes_def)

section \<open>Invariant\<close>

text \<open>
  What an open stream has sent is exactly its chunks so far, no more than announced, and the
  progress counts them; every channel holds chunks and then at most one error.
\<close>

definition stream_ok :: "incoming_manager \<Rightarrow> descriptor \<Rightarrow> bool" where
  "stream_ok m d \<longleftrightarrow>
     de_chunk_tx d < im_next m \<and> de_chunk_tx d \<notin> set (im_dropped m) \<and>
     (\<exists>cs. im_sent m (de_chunk_tx d) = map Inr cs \<and>
        sp_chunk_index (de_progress d) = of_nat (length cs) \<and>
        sp_bytes_processed (de_progress d) = of_nat (length (concat cs))) \<and>
     \<not> over_total (de_progress d)"

definition log_ok :: "byte list stream_result list \<Rightarrow> bool" where
  "log_ok l \<longleftrightarrow> (\<exists>cs. l = map Inr cs \<or> (\<exists>e. l = map Inr cs @ [Inl e]))"

definition incoming_inv :: "incoming_manager \<Rightarrow> bool" where
  "incoming_inv m \<longleftrightarrow>
     (\<forall>i d. im_open_streams m i = Some d \<longrightarrow> stream_ok m d) \<and>
     (\<forall>i j d e. im_open_streams m i = Some d \<longrightarrow> im_open_streams m j = Some e \<longrightarrow>
        de_chunk_tx d = de_chunk_tx e \<longrightarrow> i = j) \<and>
     (\<forall>c \<ge> im_next m. im_sent m c = []) \<and>
     (\<forall>c \<in> set (im_dropped m). c < im_next m) \<and>
     (\<forall>c. log_ok (im_sent m c))"

lemma incoming_inv_stream: "incoming_inv m \<Longrightarrow> im_open_streams m i = Some d \<Longrightarrow> stream_ok m d"
  by (auto simp: incoming_inv_def)

lemma incoming_inv_chan:
  "incoming_inv m \<Longrightarrow> im_open_streams m i = Some d \<Longrightarrow> im_open_streams m j = Some e \<Longrightarrow>
   i \<noteq> j \<Longrightarrow> de_chunk_tx e \<noteq> de_chunk_tx d"
  unfolding incoming_inv_def by blast

lemma log_ok_snoc: "log_ok (map Inr cs @ [x])"
  unfolding log_ok_def
proof (cases x)
  case (Inl e)
  then show "\<exists>ds. map Inr cs @ [x] = map Inr ds \<or> (\<exists>e. map Inr cs @ [x] = map Inr ds @ [Inl e])"
    by blast
next
  case (Inr b)
  then have "map Inr cs @ [x] = map Inr (cs @ [b])" by simp
  then show "\<exists>ds. map Inr cs @ [x] = map Inr ds \<or> (\<exists>e. map Inr cs @ [x] = map Inr ds @ [Inl e])"
    by blast
qed

lemma incoming_inv_new: "incoming_inv incoming_new"
  by (auto simp: incoming_inv_def incoming_new_def log_ok_def)

text \<open>Closing a stream keeps the invariant, with or without a last item on its channel.\<close>

definition close_with :: "byte list stream_result list \<Rightarrow> string \<Rightarrow> descriptor \<Rightarrow> incoming_manager \<Rightarrow> incoming_manager" where
  "close_with fin i d m =
     m\<lparr>im_open_streams := (im_open_streams m)(i := None),
       im_sent := (im_sent m)(de_chunk_tx d := im_sent m (de_chunk_tx d) @ fin),
       im_dropped := de_chunk_tx d # im_dropped m\<rparr>"

lemma close_stream_with:
  "im_open_streams m i = Some d \<Longrightarrow> close_stream i m = close_with [] i d m"
  by (simp add: close_stream_def close_with_def)

lemma close_stream_with_error_with:
  "im_open_streams m i = Some d \<Longrightarrow> close_stream_with_error alive i e m =
     close_with (if alive (de_chunk_tx d) then [Inl e] else []) i d m"
  by (simp add: close_stream_with_error_def close_with_def chunk_send_def Let_def)

lemma close_with_inv:
  assumes inv: "incoming_inv m" and d: "im_open_streams m i = Some d"
    and l: "fin = [] \<or> fin = [Inl e]"
  shows "incoming_inv (close_with fin i d m)"
proof -
  from incoming_inv_stream [OF inv d] obtain cs where
    cs: "im_sent m (de_chunk_tx d) = map Inr cs" and lt: "de_chunk_tx d < im_next m"
    by (auto simp: stream_ok_def)
  have log: "log_ok (im_sent m (de_chunk_tx d) @ fin)"
    using l cs log_ok_snoc [of cs "Inl e"] by (auto simp: log_ok_def)
  have "stream_ok (close_with fin i d m) e'" if "im_open_streams m j = Some e'" "j \<noteq> i" for j e'
    using incoming_inv_stream [OF inv that(1)] incoming_inv_chan [OF inv d that(1)] that(2)
    by (simp add: stream_ok_def close_with_def)
  then show ?thesis
    using inv log lt unfolding incoming_inv_def close_with_def by (auto split: if_splits)
qed

lemma close_stream_inv: "incoming_inv m \<Longrightarrow> incoming_inv (close_stream i m)"
  by (cases "im_open_streams m i")
    (auto simp: close_stream_with close_with_inv, simp add: close_stream_def)

lemma close_stream_with_error_inv:
  "incoming_inv m \<Longrightarrow> incoming_inv (close_stream_with_error alive i e m)"
  by (cases "im_open_streams m i")
    (auto simp: close_stream_with_error_with close_with_inv, simp add: close_stream_with_error_def)

lemma handle_header_inv:
  assumes inv: "incoming_inv m"
  shows "incoming_inv (handle_header clk header identity m)"
proof -
  have keep: "stream_ok (m\<lparr>im_next := Suc (im_next m), im_open_tx := t, im_open_streams := o'\<rparr>) d"
    if "im_open_streams m i = Some d" for i d t o'
    using incoming_inv_stream [OF inv that] by (auto simp: stream_ok_def)
  have fresh: "de_chunk_tx d \<noteq> im_next m" if "im_open_streams m i = Some d" for i d
    using incoming_inv_stream [OF inv that] by (auto simp: stream_ok_def)
  have new: "stream_ok (m\<lparr>im_next := Suc (im_next m), im_open_tx := t, im_open_streams := o'\<rparr>)
      \<lparr>de_progress = progress_start tot, de_chunk_tx = im_next m\<rparr>" for t o' tot
    using inv by (auto simp: stream_ok_def incoming_inv_def progress_start_def over_total_def
        split: option.splits)
  show ?thesis
    unfolding handle_header_def any_reader_from_def Let_def
    using inv keep fresh new
    by (auto simp: incoming_inv_def split: sum.splits if_splits) (metis less_SucI)+
qed

text \<open>The three outcomes of a chunk for an open stream, in terms of one accepted chunk.\<close>

definition progress_add :: "nat \<Rightarrow> stream_progress \<Rightarrow> stream_progress" where
  "progress_add n p = p\<lparr>sp_chunk_index := sp_chunk_index p + 1,
     sp_bytes_processed := sp_bytes_processed p + of_nat n\<rparr>"

definition accept_chunk :: "byte list \<Rightarrow> string \<Rightarrow> descriptor \<Rightarrow> incoming_manager \<Rightarrow> incoming_manager" where
  "accept_chunk content i d m =
     m\<lparr>im_open_streams := (im_open_streams m)
         (i \<mapsto> d\<lparr>de_progress := progress_add (length content) (de_progress d)\<rparr>),
       im_sent := (im_sent m)(de_chunk_tx d := im_sent m (de_chunk_tx d) @ [Inr content])\<rparr>"

lemma handle_chunk_open:
  assumes "im_open_streams m (pc_stream_id chunk) = Some d"
  shows "handle_chunk alive chunk m =
    (let i = pc_stream_id chunk; c = de_chunk_tx d;
         p = progress_add (length (pc_content chunk)) (de_progress d) in
     if sp_chunk_index (de_progress d) \<noteq> pc_chunk_index chunk
     then close_with (if alive c then [Inl MissedChunk] else []) i d m
     else if over_total p
     then close_with (if alive c then [Inl LengthExceeded] else []) i d m
     else if alive c then accept_chunk (pc_content chunk) i d m
     else close_with [] i d m)"
  using assms
  by (simp add: handle_chunk_def Let_def close_stream_with_error_with progress_add_def
      yield_chunk_def chunk_send_def close_with_def accept_chunk_def close_stream_def)

lemma handle_trailer_open:
  assumes "im_open_streams m (pt_stream_id trailer) = Some d"
  shows "handle_trailer alive trailer m =
    close_with
      (if \<not> reached_total (de_progress d)
       then (if alive (de_chunk_tx d) then [Inl Incomplete] else [])
       else if pt_reason trailer \<noteq> []
       then (if alive (de_chunk_tx d) then [Inl (AbnormalEnd (pt_reason trailer))] else [])
       else [])
      (pt_stream_id trailer) d m"
  using assms
  by (simp add: handle_trailer_def Let_def close_stream_with_error_with close_stream_with)

lemma accept_chunk_inv:
  assumes inv: "incoming_inv m" and d: "im_open_streams m i = Some d"
    and fits: "\<not> over_total (progress_add (length content) (de_progress d))"
  shows "incoming_inv (accept_chunk content i d m)"
proof -
  from incoming_inv_stream [OF inv d] obtain cs where
    cs: "im_sent m (de_chunk_tx d) = map Inr cs"
      "sp_chunk_index (de_progress d) = of_nat (length cs)"
      "sp_bytes_processed (de_progress d) = of_nat (length (concat cs))"
    and lt: "de_chunk_tx d < im_next m" "de_chunk_tx d \<notin> set (im_dropped m)"
    by (auto simp: stream_ok_def)
  have new: "stream_ok (accept_chunk content i d m)
      (d\<lparr>de_progress := progress_add (length content) (de_progress d)\<rparr>)"
    using cs lt fits
    by (auto simp: stream_ok_def accept_chunk_def progress_add_def intro!: exI [of _ "cs @ [content]"])
  have old: "stream_ok (accept_chunk content i d m) e" if "im_open_streams m j = Some e" "j \<noteq> i" for j e
    using incoming_inv_stream [OF inv that(1)] incoming_inv_chan [OF inv d that(1)] that(2)
    by (simp add: stream_ok_def accept_chunk_def)
  have log: "log_ok (im_sent m (de_chunk_tx d) @ [Inr content])"
    using cs(1) log_ok_snoc by simp
  let ?m = "accept_chunk content i d m"
  have open_cases: "e = d\<lparr>de_progress := progress_add (length content) (de_progress d)\<rparr> \<and> j = i
      \<or> im_open_streams m j = Some e \<and> j \<noteq> i" if "im_open_streams ?m j = Some e" for j e
    using that by (auto simp: accept_chunk_def split: if_splits)
  have chan: "\<exists>e'. im_open_streams m j = Some e' \<and> de_chunk_tx e' = de_chunk_tx e"
    if "im_open_streams ?m j = Some e" for j e
    using open_cases [OF that] d by auto
  show ?thesis
    unfolding incoming_inv_def
  proof (intro conjI allI impI ballI)
    fix j e assume "im_open_streams ?m j = Some e"
    with open_cases new old show "stream_ok ?m e" by blast
  next
    fix j k e f
    assume j: "im_open_streams ?m j = Some e" and k: "im_open_streams ?m k = Some f"
      and eq: "de_chunk_tx e = de_chunk_tx f"
    obtain e' f' where "im_open_streams m j = Some e'" "im_open_streams m k = Some f'"
      "de_chunk_tx e' = de_chunk_tx f'"
      using chan [OF j] chan [OF k] eq by auto
    then show "j = k" using incoming_inv_chan [OF inv] by blast
  next
    fix c assume "im_next ?m \<le> c"
    with inv lt show "im_sent ?m c = []" by (auto simp: incoming_inv_def accept_chunk_def)
  next
    fix c assume "c \<in> set (im_dropped ?m)"
    with inv show "c < im_next ?m" by (auto simp: incoming_inv_def accept_chunk_def)
  next
    fix c show "log_ok (im_sent ?m c)"
      using inv log by (auto simp: incoming_inv_def accept_chunk_def)
  qed
qed

lemma handle_chunk_inv: "incoming_inv m \<Longrightarrow> incoming_inv (handle_chunk alive chunk m)"
  by (cases "im_open_streams m (pc_stream_id chunk)")
    (auto simp: handle_chunk_open Let_def close_with_inv accept_chunk_inv,
     simp add: handle_chunk_def)

lemma handle_trailer_inv: "incoming_inv m \<Longrightarrow> incoming_inv (handle_trailer alive trailer m)"
  by (cases "im_open_streams m (pt_stream_id trailer)")
    (auto simp: handle_trailer_open close_with_inv, simp add: handle_trailer_def)

text \<open>A run of the manager: the packets of all streams in the order they arrive.\<close>

datatype (plugins only: code size) incoming_event =
    OnHeader clock proto_header string
  | OnChunk "nat \<Rightarrow> bool" proto_chunk
  | OnTrailer "nat \<Rightarrow> bool" proto_trailer

fun incoming_step :: "incoming_event \<Rightarrow> incoming_manager \<Rightarrow> incoming_manager" where
  "incoming_step (OnHeader clk header identity) m = handle_header clk header identity m"
| "incoming_step (OnChunk alive chunk) m = handle_chunk alive chunk m"
| "incoming_step (OnTrailer alive trailer) m = handle_trailer alive trailer m"

interpretation incoming: kept_by incoming_step incoming_inv
proof
  fix s e
  assume "incoming_inv s"
  then show "incoming_inv (incoming_step e s)"
    by (cases e) (auto intro: handle_header_inv handle_chunk_inv handle_trailer_inv)
qed

lemma incoming_run_inv: "incoming_inv (fold incoming_step es incoming_new)"
  by (rule incoming.run_inv [OF incoming_inv_new])

fun event_stream :: "incoming_event \<Rightarrow> string" where
  "event_stream (OnHeader clk header identity) = ph_stream_id header"
| "event_stream (OnChunk alive chunk) = pc_stream_id chunk"
| "event_stream (OnTrailer alive trailer) = pt_stream_id trailer"

text \<open>A step of one stream leaves the descriptor and the channel of every other one alone.\<close>

lemma incoming_step_other:
  assumes inv: "incoming_inv m" and d: "im_open_streams m i = Some d" and ne: "event_stream e \<noteq> i"
  shows "im_open_streams (incoming_step e m) i = Some d
    \<and> im_sent (incoming_step e m) (de_chunk_tx d) = im_sent m (de_chunk_tx d)"
proof (cases e)
  case (OnHeader clk header identity)
  with d ne show ?thesis
    by (auto simp: handle_header_def any_reader_from_def Let_def dest: any_info_from_header
        split: sum.splits)
next
  case (OnChunk alive chunk)
  with d ne incoming_inv_chan [OF inv _ d] show ?thesis
    by (cases "im_open_streams m (pc_stream_id chunk)")
      (auto simp: handle_chunk_open Let_def close_with_def accept_chunk_def, simp_all add: handle_chunk_def)
next
  case (OnTrailer alive trailer)
  with d ne incoming_inv_chan [OF inv _ d] show ?thesis
    by (cases "im_open_streams m (pt_stream_id trailer)")
      (auto simp: handle_trailer_open close_with_def, simp_all add: handle_trailer_def)
qed

lemma incoming_run_other:
  assumes "incoming_inv m" "im_open_streams m i = Some d" "\<forall>e \<in> set es. event_stream e \<noteq> i"
  shows "im_open_streams (fold incoming_step es m) i = Some d
    \<and> im_sent (fold incoming_step es m) (de_chunk_tx d) = im_sent m (de_chunk_tx d)"
  using assms
proof (induction es arbitrary: m)
  case (Cons e es)
  then show ?case
    using incoming_step_other [of m i d e] incoming.step_inv [of m e]
    by (simp del: incoming_step.simps event_stream.simps)
qed simp

section \<open>Properties\<close>

text \<open>
  C7. Whatever packets arrive, in whatever order and for whatever streams: what is sent to a
  reader is a sequence of chunks with at most one error, which comes last; what an open
  stream has received never exceeds its announced length; and a sender that was dropped
  belongs to no open stream.
\<close>

theorem incoming_channels_well_formed:
  assumes "m = fold incoming_step es incoming_new"
  shows "(\<exists>cs. im_sent m c = map Inr cs \<or> (\<exists>e. im_sent m c = map Inr cs @ [Inl e]))
    \<and> (im_open_streams m i = Some d \<longrightarrow>
        de_chunk_tx d \<notin> set (im_dropped m) \<and> \<not> over_total (de_progress d) \<and>
        (\<exists>cs. im_sent m (de_chunk_tx d) = map Inr cs \<and>
          sp_bytes_processed (de_progress d) = of_nat (length (concat cs))))"
  using incoming_run_inv [of es] assms unfolding incoming_inv_def log_ok_def stream_ok_def by blast

text \<open>
  C38. Streams do not interfere: while packets of other streams are handled, in any number,
  the progress of an open stream and what its reader was sent stay as they are.
\<close>

theorem incoming_streams_isolated:
  assumes "m = fold incoming_step es incoming_new" and "im_open_streams m i = Some d"
    and "\<forall>e \<in> set fs. event_stream e \<noteq> i"
  shows "im_open_streams (fold incoming_step fs m) i = Some d
    \<and> im_sent (fold incoming_step fs m) (de_chunk_tx d) = im_sent m (de_chunk_tx d)"
  using incoming_run_other [OF _ assms(2,3)] incoming_run_inv [of es] assms(1) by simp

definition example_header :: "string \<Rightarrow> u64 option \<Rightarrow> proto_header" where
  "example_header i n = \<lparr>ph_stream_id = i, ph_timestamp = 0, ph_topic = ''t'', ph_mime_type = [],
     ph_total_length = n, ph_encryption_type = 0, ph_attributes = [],
     ph_content_header = Some (ByteHeader \<lparr>pbh_name = ''f''\<rparr>)\<rparr>"

definition example_clock :: clock where
  "example_clock = \<lparr>from_timestamp_millis = Some, utc_now = 0\<rparr>"

lemmas incoming_eval = handle_header_def any_stream_info_try_from_def any_reader_from_def
  incoming_new_def progress_start_def byte_info_from_headers_def example_header_def Let_def

text \<open>A stream of five bytes was opened, and its first chunk has brought two of them.\<close>

definition example_chunk :: proto_chunk where
  "example_chunk = \<lparr>pc_stream_id = ''a'', pc_chunk_index = 0, pc_content = [1, 2], pc_version = 0, pc_iv = None\<rparr>"

definition example_open :: incoming_manager where
  "example_open = fold incoming_step [OnHeader example_clock (example_header ''a'' (Some 5)) ''bob'',
     OnChunk (\<lambda>_. True) example_chunk] incoming_new"

lemma example_open_descriptor: "\<exists>d. im_open_streams example_open ''a'' = Some d \<and> de_chunk_tx d = 0"
  by (simp add: example_open_def incoming_eval example_chunk_def handle_chunk_def yield_chunk_def chunk_send_def
      over_total_def)

theorem incoming_channels_well_formed_witness:
  "\<exists>d. im_open_streams example_open ''a'' = Some d \<and> im_sent example_open 0 = [Inr [1, 2]]
     \<and> 0 \<notin> set (im_dropped example_open) \<and> \<not> over_total (de_progress d)
     \<and> sp_bytes_processed (de_progress d) = 2"
proof -
  obtain d where d: "im_open_streams example_open ''a'' = Some d" "de_chunk_tx d = 0"
    using example_open_descriptor by blast
  have "im_sent example_open 0 = [Inr [1, 2]]"
    by (simp add: example_open_def incoming_eval example_chunk_def handle_chunk_def yield_chunk_def chunk_send_def
      over_total_def)
  with incoming_channels_well_formed [OF example_open_def, of 0 "''a''" d] d show ?thesis
    by auto
qed

theorem incoming_streams_isolated_witness:
  "im_sent (fold incoming_step [OnHeader example_clock (example_header ''b'' None) ''bob'']
     (fold incoming_step [OnHeader example_clock (example_header ''a'' None) ''bob''] incoming_new)) 0 = []"
  using incoming_streams_isolated [OF refl, of
      "[OnHeader example_clock (example_header ''a'' None) ''bob'']" "''a''"
      "\<lparr>de_progress = progress_start None, de_chunk_tx = 0\<rparr>"
      "[OnHeader example_clock (example_header ''b'' None) ''bob'']"]
  by (simp add: incoming_eval)

text \<open>
  The answer to a chunk of an open stream, on every branch: a chunk whose index is not
  the expected one closes the stream and tells the reader that a chunk was missed; a chunk
  that goes past the announced length closes it with that error; any other chunk is passed on
  and counted, or closes the stream when the reader is gone.
\<close>

theorem handle_chunk_branches:
  assumes "im_open_streams m (pc_stream_id chunk) = Some d"
  shows "(sp_chunk_index (de_progress d) \<noteq> pc_chunk_index chunk \<longrightarrow>
      im_open_streams (handle_chunk alive chunk m) (pc_stream_id chunk) = None \<and>
      im_sent (handle_chunk alive chunk m) (de_chunk_tx d) = im_sent m (de_chunk_tx d) @
        (if alive (de_chunk_tx d) then [Inl MissedChunk] else []))
    \<and> (sp_chunk_index (de_progress d) = pc_chunk_index chunk \<longrightarrow>
        over_total (progress_add (length (pc_content chunk)) (de_progress d)) \<longrightarrow>
      im_open_streams (handle_chunk alive chunk m) (pc_stream_id chunk) = None \<and>
      im_sent (handle_chunk alive chunk m) (de_chunk_tx d) = im_sent m (de_chunk_tx d) @
        (if alive (de_chunk_tx d) then [Inl LengthExceeded] else []))
    \<and> (sp_chunk_index (de_progress d) = pc_chunk_index chunk \<longrightarrow>
        \<not> over_total (progress_add (length (pc_content chunk)) (de_progress d)) \<longrightarrow>
      im_open_streams (handle_chunk alive chunk m) (pc_stream_id chunk) =
        (if alive (de_chunk_tx d)
         then Some (d\<lparr>de_progress := progress_add (length (pc_content chunk)) (de_progress d)\<rparr>)
         else None) \<and>
      im_sent (handle_chunk alive chunk m) (de_chunk_tx d) = im_sent m (de_chunk_tx d) @
        (if alive (de_chunk_tx d) then [Inr (pc_content chunk)] else []))"
  by (simp add: handle_chunk_open [OF assms] Let_def close_with_def accept_chunk_def)

theorem handle_chunk_branches_witness:
  "im_sent (handle_chunk (\<lambda>_. True)
      \<lparr>pc_stream_id = ''a'', pc_chunk_index = 1, pc_content = [7], pc_version = 0, pc_iv = None\<rparr>
      (handle_header example_clock (example_header ''a'' None) ''bob'' incoming_new)) 0
    = [Inl MissedChunk]"
  using handle_chunk_branches [of
      "handle_header example_clock (example_header ''a'' None) ''bob'' incoming_new"
      "\<lparr>pc_stream_id = ''a'', pc_chunk_index = 1, pc_content = [7], pc_version = 0, pc_iv = None\<rparr>"
      "\<lparr>de_progress = progress_start None, de_chunk_tx = 0\<rparr>" "\<lambda>_. True"]
  by (simp add: incoming_eval)

text \<open>
  C37. A trailer can end a stream without an error only when the reader has been sent the
  whole of it: in every run, after a trailer with an empty reason, an open stream that
  announced its length either ends with the error that it is incomplete or has been sent
  chunks that add up to the announced length.
\<close>

theorem trailer_complete:
  assumes "m = fold incoming_step es incoming_new"
    and "im_open_streams m (pt_stream_id trailer) = Some d"
    and "sp_bytes_total (de_progress d) = Some n" and "alive (de_chunk_tx d)"
    and "pt_reason trailer = []"
  shows "\<exists>cs. im_sent (handle_trailer alive trailer m) (de_chunk_tx d) = map Inr cs @ [Inl Incomplete]
    \<or> im_sent (handle_trailer alive trailer m) (de_chunk_tx d) = map Inr cs
      \<and> of_nat (length (concat cs)) = n"
proof -
  have "stream_ok m d"
    using incoming_inv_stream [OF incoming_run_inv] assms(1,2) by blast
  then obtain cs where "im_sent m (de_chunk_tx d) = map Inr cs"
    "sp_bytes_processed (de_progress d) = of_nat (length (concat cs))" "\<not> over_total (de_progress d)"
    by (auto simp: stream_ok_def)
  then show ?thesis
    using assms(3-5)
    by (intro exI [of _ cs]) (auto simp: handle_trailer_open [OF assms(2)] close_with_def
        reached_total_def over_total_def)
qed

theorem trailer_complete_witness:
  "\<exists>cs. im_sent (handle_trailer (\<lambda>_. True) \<lparr>pt_stream_id = ''a'', pt_reason = [], pt_attributes = []\<rparr>
      (fold incoming_step [OnHeader example_clock (example_header ''a'' (Some 3)) ''bob''] incoming_new)) 0
      = map Inr cs @ [Inl Incomplete]
    \<or> im_sent (handle_trailer (\<lambda>_. True) \<lparr>pt_stream_id = ''a'', pt_reason = [], pt_attributes = []\<rparr>
      (fold incoming_step [OnHeader example_clock (example_header ''a'' (Some 3)) ''bob''] incoming_new)) 0
      = map Inr cs \<and> of_nat (length (concat cs)) = (3 :: u64)"
  using trailer_complete [OF refl, of
      "[OnHeader example_clock (example_header ''a'' (Some 3)) ''bob'']"
      "\<lparr>pt_stream_id = ''a'', pt_reason = [], pt_attributes = []\<rparr>"
      "\<lparr>de_progress = progress_start (Some 3), de_chunk_tx = 0\<rparr>" 3 "\<lambda>_. True"]
  by (simp add: incoming_eval)

end
