(* ===== verification/OutgoingStream.thy ===== *)
theory OutgoingStream
  imports DataStream Utf8Chunk
begin

text \<open>
  \<open>livekit/src/room/data_stream/outgoing.rs\<close>: the writers of data streams and the manager
  that opens them. Packets go through a request channel (\<open>bmrng\<close>, outside the repository):
  sending one waits for the answer of the task that publishes it. The channel is an argument
  \<open>send\<close> that maps a packet and the state of the channel to the reply and the next state.
  The random stream id and the clock are arguments as well.
\<close>

section \<open>The packet channel\<close>

datatype (plugins only: code size) send_reply = Sent | RequestChannelClosed | EngineErr string

type_synonym 'c packet_channel = "data_packet \<Rightarrow> 'c \<Rightarrow> send_reply \<times> 'c"

definition send_packet :: "'c packet_channel \<Rightarrow> data_packet \<Rightarrow> 'c \<Rightarrow> unit stream_result \<times> 'c" where
  "send_packet send packet c =
     (case send packet c of
        (Sent, c') \<Rightarrow> (Inr (), c')
      | (RequestChannelClosed, c') \<Rightarrow> (Inl InternalError, c')
      | (EngineErr _, c') \<Rightarrow> (Inl SendFailed, c'))"

section \<open>The raw stream\<close>

definition CHUNK_SIZE :: nat where "CHUNK_SIZE = 15000"
definition BYTE_MIME_TYPE :: string where "BYTE_MIME_TYPE = ''application/octet-stream''"
definition TEXT_MIME_TYPE :: string where "TEXT_MIME_TYPE = ''text/plain''"

record raw_stream =
  rs_id :: string
  rs_progress :: stream_progress
  rs_is_closed :: bool

definition create_header_packet :: "proto_header \<Rightarrow> participant_identity list \<Rightarrow> data_packet" where
  "create_header_packet header destination_identities =
     default_packet\<lparr>dp_kind := proto_kind_number ProtoReliable, dp_participant_identity := [],
       dp_destination_identities := destination_identities,
       dp_value := Some (StreamHeader header)\<rparr>"

definition create_chunk_packet :: "string \<Rightarrow> u64 \<Rightarrow> byte list \<Rightarrow> data_packet" where
  "create_chunk_packet i chunk_index content =
     default_packet\<lparr>dp_kind := proto_kind_number ProtoReliable, dp_participant_identity := [],
       dp_value := Some (StreamChunk \<lparr>pc_stream_id = i, pc_chunk_index = chunk_index,
         pc_content = content, pc_version = 0, pc_iv = None\<rparr>)\<rparr>"

definition create_trailer_packet :: "string \<Rightarrow> string option \<Rightarrow> data_packet" where
  "create_trailer_packet i reason =
     default_packet\<lparr>dp_kind := proto_kind_number ProtoReliable, dp_participant_identity := [],
       dp_value := Some (StreamTrailer \<lparr>pt_stream_id = i, pt_reason = unwrap_or [] reason,
         pt_attributes = []\<rparr>)\<rparr>"

definition raw_open ::
    "'c packet_channel \<Rightarrow> proto_header \<Rightarrow> participant_identity list \<Rightarrow> 'c \<Rightarrow>
     raw_stream stream_result \<times> 'c" where
  "raw_open send header destination_identities c =
     (case send_packet send (create_header_packet header destination_identities) c of
        (Inl e, c') \<Rightarrow> (Inl e, c')
      | (Inr _, c') \<Rightarrow>
          (Inr \<lparr>rs_id = ph_stream_id header, rs_progress = progress_start (ph_total_length header),
                rs_is_closed = False\<rparr>, c'))"

definition write_chunk ::
    "'c packet_channel \<Rightarrow> byte list \<Rightarrow> raw_stream \<Rightarrow> 'c \<Rightarrow> unit stream_result \<times> raw_stream \<times> 'c" where
  "write_chunk send bytes s c =
     (case send_packet send
             (create_chunk_packet (rs_id s) (sp_chunk_index (rs_progress s)) bytes) c of
        (Inl e, c') \<Rightarrow> (Inl e, s, c')
      | (Inr _, c') \<Rightarrow>
          (Inr (), s\<lparr>rs_progress := (rs_progress s)
             \<lparr>sp_bytes_processed := sp_bytes_processed (rs_progress s) + of_nat (length bytes),
              sp_chunk_index := sp_chunk_index (rs_progress s) + 1\<rparr>\<rparr>, c'))"

definition raw_close ::
    "'c packet_channel \<Rightarrow> string option \<Rightarrow> raw_stream \<Rightarrow> 'c \<Rightarrow>
     unit stream_result \<times> raw_stream \<times> 'c" where
  "raw_close send reason s c =
     (if rs_is_closed s then (Inl AlreadyClosed, s, c)
      else
        case send_packet send (create_trailer_packet (rs_id s) reason) c of
          (Inl e, c') \<Rightarrow> (Inl e, s, c')
        | (Inr _, c') \<Rightarrow> (Inr (), s\<lparr>rs_is_closed := True\<rparr>, c'))"

text \<open>\<open>Drop\<close>: a stream that was not closed sends its trailer from a task of its own.\<close>

definition raw_drop :: "'c packet_channel \<Rightarrow> raw_stream \<Rightarrow> 'c \<Rightarrow> 'c" where
  "raw_drop send s c =
     (if rs_is_closed s then c
      else snd (send_packet send (create_trailer_packet (rs_id s) None) c))"

section \<open>The writers\<close>

text \<open>The loop of both \<open>write\<close> methods: chunks in order up to the first error.\<close>

fun write_chunks ::
    "'c packet_channel \<Rightarrow> byte list list \<Rightarrow> raw_stream \<Rightarrow> 'c \<Rightarrow>
     unit stream_result \<times> raw_stream \<times> 'c" where
  "write_chunks send [] s c = (Inr (), s, c)"
| "write_chunks send (chunk # rest) s c =
     (case write_chunk send chunk s c of
        (Inl e, s', c') \<Rightarrow> (Inl e, s', c')
      | (Inr _, s', c') \<Rightarrow> write_chunks send rest s' c')"

definition byte_write ::
    "'c packet_channel \<Rightarrow> byte list \<Rightarrow> raw_stream \<Rightarrow> 'c \<Rightarrow>
     unit stream_result \<times> raw_stream \<times> 'c" where
  "byte_write send bytes s c = write_chunks send (chunks CHUNK_SIZE bytes) s c"

text \<open>\<open>None\<close> when the iterator over the text does not end.\<close>

definition text_write ::
    "'c packet_channel \<Rightarrow> string \<Rightarrow> raw_stream \<Rightarrow> 'c \<Rightarrow>
     (unit stream_result \<times> raw_stream \<times> 'c) option" where
  "text_write send txt s c =
     map_option (\<lambda>css. write_chunks send css s c) (utf8_aware_chunks CHUNK_SIZE (as_bytes txt))"

text \<open>
  \<open>write_file_contents\<close> on what the file system answers: the result of opening the file, and
  the results of the successive reads into the 8 KB buffer, up to the empty one.
\<close>

record file_io =
  fi_metadata_len :: "string + u64"
  fi_file_name :: "string option"
  fi_open :: "string + unit"
  fi_reads :: "(string + byte list) list"

fun write_file_loop ::
    "'c packet_channel \<Rightarrow> (string + byte list) list \<Rightarrow> raw_stream \<Rightarrow> 'c \<Rightarrow>
     unit stream_result \<times> raw_stream \<times> 'c" where
  "write_file_loop send [] s c = (Inr (), s, c)"
| "write_file_loop send (Inl e # rest) s c = (Inl (IoError e), s, c)"
| "write_file_loop send (Inr block # rest) s c =
     (if block = [] then (Inr (), s, c)
      else
        case write_chunk send block s c of
          (Inl e, s', c') \<Rightarrow> (Inl e, s', c')
        | (Inr _, s', c') \<Rightarrow> write_file_loop send rest s' c')"

definition write_file_contents ::
    "'c packet_channel \<Rightarrow> file_io \<Rightarrow> raw_stream \<Rightarrow> 'c \<Rightarrow>
     unit stream_result \<times> raw_stream \<times> 'c" where
  "write_file_contents send file s c =
     (case fi_open file of
        Inl e \<Rightarrow> (Inl (IoError e), s, c)
      | Inr _ \<Rightarrow> write_file_loop send (fi_reads file) s c)"

section \<open>The manager\<close>

record stream_byte_options =
  sbo_topic :: string
  sbo_attributes :: "(string, string) hmap"
  sbo_destination_identities :: "participant_identity list"
  sbo_id :: "string option"
  sbo_mime_type :: "string option"
  sbo_name :: "string option"
  sbo_total_length :: "u64 option"

record stream_text_options =
  sto_topic :: string
  sto_attributes :: "(string, string) hmap"
  sto_destination_identities :: "participant_identity list"
  sto_id :: "string option"
  sto_operation_type :: "operation_type option"
  sto_version :: "int option"
  sto_reply_to_stream_id :: "string option"
  sto_attached_stream_ids :: "string list"
  sto_generated :: "bool option"

definition text_header_of :: "stream_text_options \<Rightarrow> proto_text_header" where
  "text_header_of options =
     \<lparr>pth_operation_type = operation_type_number (unwrap_or Create (sto_operation_type options)),
      pth_version = unwrap_or 0 (sto_version options),
      pth_reply_to_stream_id = unwrap_or [] (sto_reply_to_stream_id options),
      pth_attached_stream_ids = sto_attached_stream_ids options,
      pth_generated = unwrap_or False (sto_generated options)\<rparr>"

definition text_stream_header ::
    "clock \<Rightarrow> string \<Rightarrow> stream_text_options \<Rightarrow> u64 option \<Rightarrow> proto_header" where
  "text_stream_header clk uuid options len =
     \<lparr>ph_stream_id = unwrap_or uuid (sto_id options),
      ph_timestamp = utc_now clk,
      ph_topic = sto_topic options,
      ph_mime_type = TEXT_MIME_TYPE,
      ph_total_length = len,
      ph_encryption_type = 0,
      ph_attributes = sto_attributes options,
      ph_content_header = Some (TextHeader (text_header_of options))\<rparr>"

definition byte_stream_header ::
    "clock \<Rightarrow> string \<Rightarrow> stream_byte_options \<Rightarrow> string \<Rightarrow> u64 option \<Rightarrow> proto_header" where
  "byte_stream_header clk uuid options name len =
     \<lparr>ph_stream_id = unwrap_or uuid (sbo_id options),
      ph_timestamp = utc_now clk,
      ph_topic = sbo_topic options,
      ph_mime_type = unwrap_or BYTE_MIME_TYPE (sbo_mime_type options),
      ph_total_length = len,
      ph_encryption_type = 0,
      ph_attributes = sbo_attributes options,
      ph_content_header = Some (ByteHeader \<lparr>pbh_name = name\<rparr>)\<rparr>"

text \<open>\<open>stream_text\<close> and \<open>stream_bytes\<close>: the writer is the information with the raw stream.\<close>

definition stream_text ::
    "'c packet_channel \<Rightarrow> clock \<Rightarrow> string \<Rightarrow> stream_text_options \<Rightarrow> 'c \<Rightarrow>
     (text_stream_info \<times> raw_stream) stream_result \<times> 'c" where
  "stream_text send clk uuid options c =
     (let header = text_stream_header clk uuid options None;
          info = text_info_from_headers clk header (text_header_of options)
      in case raw_open send header (sto_destination_identities options) c of
           (Inl e, c') \<Rightarrow> (Inl e, c')
         | (Inr s, c') \<Rightarrow> (Inr (info, s), c'))"

definition stream_bytes ::
    "'c packet_channel \<Rightarrow> clock \<Rightarrow> string \<Rightarrow> stream_byte_options \<Rightarrow> 'c \<Rightarrow>
     (byte_stream_info \<times> raw_stream) stream_result \<times> 'c" where
  "stream_bytes send clk uuid options c =
     (let name = unwrap_or [] (sbo_name options);
          header = byte_stream_header clk uuid options name (sbo_total_length options);
          info = byte_info_from_headers clk header \<lparr>pbh_name = name\<rparr>
      in case raw_open send header (sbo_destination_identities options) c of
           (Inl e, c') \<Rightarrow> (Inl e, c')
         | (Inr s, c') \<Rightarrow> (Inr (info, s), c'))"

text \<open>
  The common end of the three one-shot methods: the result of the write is checked, the
  writer is closed, and the raw stream is dropped on the way out of each path.
\<close>

definition finish_stream ::
    "'c packet_channel \<Rightarrow> 'i \<Rightarrow> unit stream_result \<times> raw_stream \<times> 'c \<Rightarrow> 'i stream_result \<times> 'c" where
  "finish_stream send info w =
     (case w of
        (Inl e, s, c) \<Rightarrow> (Inl e, raw_drop send s c)
      | (Inr _, s, c) \<Rightarrow>
          (case raw_close send None s c of
             (Inl e, s', c') \<Rightarrow> (Inl e, raw_drop send s' c')
           | (Inr _, s', c') \<Rightarrow> (Inr info, raw_drop send s' c')))"

definition send_text ::
    "'c packet_channel \<Rightarrow> clock \<Rightarrow> string \<Rightarrow> string \<Rightarrow> stream_text_options \<Rightarrow> 'c \<Rightarrow>
     (text_stream_info stream_result \<times> 'c) option" where
  "send_text send clk uuid txt options c =
     (let header = text_stream_header clk uuid options (Some (of_nat (length txt)));
          info = text_info_from_headers clk header (text_header_of options)
      in case raw_open send header (sto_destination_identities options) c of
           (Inl e, c') \<Rightarrow> Some (Inl e, c')
         | (Inr s, c') \<Rightarrow> map_option (finish_stream send info) (text_write send txt s c'))"

definition send_bytes ::
    "'c packet_channel \<Rightarrow> clock \<Rightarrow> string \<Rightarrow> byte list \<Rightarrow> stream_byte_options \<Rightarrow> 'c \<Rightarrow>
     byte_stream_info stream_result \<times> 'c" where
  "send_bytes send clk uuid bytes options c =
     (let name = unwrap_or [] (sbo_name options);
          header = byte_stream_header clk uuid options name (Some (of_nat (length bytes)));
          info = byte_info_from_headers clk header \<lparr>pbh_name = name\<rparr>
      in case raw_open send header (sbo_destination_identities options) c of
           (Inl e, c') \<Rightarrow> (Inl e, c')
         | (Inr s, c') \<Rightarrow> finish_stream send info (byte_write send bytes s c'))"

definition send_file ::
    "'c packet_channel \<Rightarrow> clock \<Rightarrow> string \<Rightarrow> file_io \<Rightarrow> stream_byte_options \<Rightarrow> 'c \<Rightarrow>
     byte_stream_info stream_result \<times> 'c" where
  "send_file send clk uuid file options c =
     (case fi_metadata_len file of
        Inl e \<Rightarrow> (Inl (IoError e), c)
      | Inr file_size \<Rightarrow>
          let name = unwrap_or [] (fi_file_name file);
              header = byte_stream_header clk uuid options name (Some file_size);
              info = byte_info_from_headers clk header \<lparr>pbh_name = name\<rparr>
          in case raw_open send header (sbo_destination_identities options) c of
               (Inl e, c') \<Rightarrow> (Inl e, c')
             | (Inr s, c') \<Rightarrow> finish_stream send info (write_file_contents send file s c'))"

section \<open>Lemmas\<close>

text \<open>The channel that accepts every packet and keeps what it was given.\<close>

definition log_channel :: "data_packet list packet_channel" where
  "log_channel p ps = (Sent, ps @ [p])"

fun chunk_packets :: "string \<Rightarrow> u64 \<Rightarrow> byte list list \<Rightarrow> data_packet list" where
  "chunk_packets i k [] = []"
| "chunk_packets i k (cs # css) = create_chunk_packet i k cs # chunk_packets i (k + 1) css"

definition advance :: "byte list list \<Rightarrow> stream_progress \<Rightarrow> stream_progress" where
  "advance css p = p\<lparr>sp_bytes_processed := sp_bytes_processed p + of_nat (length (concat css)),
     sp_chunk_index := sp_chunk_index p + of_nat (length css)\<rparr>"

lemma advance_Nil [simp]: "advance [] p = p"
  by (simp add: advance_def)

lemma advance_Cons:
  "advance (cs # css) p = advance css (p\<lparr>sp_bytes_processed := sp_bytes_processed p + of_nat (length cs),
     sp_chunk_index := sp_chunk_index p + 1\<rparr>)"
  by (simp add: advance_def add_ac)

lemma chunk_packets_count [simp]: "length (chunk_packets i k css) = length css"
  by (induction css arbitrary: k) auto

lemma send_packet_log [simp]: "send_packet log_channel p ps = (Inr (), ps @ [p])"
  by (simp add: send_packet_def log_channel_def)

lemma send_packet_snd: "snd (send_packet send p c) = snd (send p c)"
  by (simp add: send_packet_def split: prod.splits send_reply.splits)

lemma write_chunk_cases:
  "write_chunk send bytes s c =
     (case send_packet send (create_chunk_packet (rs_id s) (sp_chunk_index (rs_progress s)) bytes) c of
        (Inl e, c') \<Rightarrow> (Inl e, s, c')
      | (Inr _, c') \<Rightarrow> (Inr (), s\<lparr>rs_progress := advance [bytes] (rs_progress s)\<rparr>, c'))"
  by (simp add: write_chunk_def advance_def split: prod.splits sum.splits)

lemma write_chunks_log:
  "write_chunks log_channel css s ps =
     (Inr (), s\<lparr>rs_progress := advance css (rs_progress s)\<rparr>,
      ps @ chunk_packets (rs_id s) (sp_chunk_index (rs_progress s)) css)"
proof (induction css arbitrary: s ps)
  case (Cons cs css)
  have "sp_chunk_index (advance [cs] p) = sp_chunk_index p + 1" for p
    by (simp add: advance_def)
  moreover have "advance css (advance [cs] p) = advance (cs # css) p" for p
    by (simp add: advance_Cons)
  ultimately show ?case using Cons by (simp add: write_chunk_cases)
qed simp

lemma finish_stream_log:
  "\<not> rs_is_closed s \<Longrightarrow> finish_stream log_channel info (Inr (), s, ps)
     = (Inr info, ps @ [create_trailer_packet (rs_id s) None])"
  by (simp add: finish_stream_def raw_close_def raw_drop_def)

lemma raw_open_log:
  "raw_open log_channel h ds ps =
     (Inr \<lparr>rs_id = ph_stream_id h, rs_progress = progress_start (ph_total_length h),
        rs_is_closed = False\<rparr>, ps @ [create_header_packet h ds])"
  by (simp add: raw_open_def)

text \<open>The packets of a whole stream.\<close>

definition stream_packets ::
    "proto_header \<Rightarrow> participant_identity list \<Rightarrow> byte list list \<Rightarrow> data_packet list" where
  "stream_packets h ds css =
     create_header_packet h ds # chunk_packets (ph_stream_id h) 0 css
       @ [create_trailer_packet (ph_stream_id h) None]"

lemma one_shot_log:
  "finish_stream log_channel info (write_chunks log_channel css
     \<lparr>rs_id = ph_stream_id h, rs_progress = progress_start (ph_total_length h), rs_is_closed = False\<rparr>
     (ps @ [create_header_packet h ds])) = (Inr info, ps @ stream_packets h ds css)"
  by (simp add: write_chunks_log finish_stream_log stream_packets_def progress_start_def)

lemma send_bytes_log:
  "send_bytes log_channel clk uuid bytes options ps =
     (let h = byte_stream_header clk uuid options (unwrap_or [] (sbo_name options))
            (Some (of_nat (length bytes)))
      in (Inr (byte_info_from_headers clk h \<lparr>pbh_name = unwrap_or [] (sbo_name options)\<rparr>),
          ps @ stream_packets h (sbo_destination_identities options) (chunks CHUNK_SIZE bytes)))"
  by (simp add: send_bytes_def byte_write_def raw_open_log one_shot_log Let_def)

lemma send_text_log:
  "utf8_aware_chunks CHUNK_SIZE (as_bytes txt) = Some css \<Longrightarrow>
   send_text log_channel clk uuid txt options ps =
     (let h = text_stream_header clk uuid options (Some (of_nat (length txt)))
      in Some (Inr (text_info_from_headers clk h (text_header_of options)),
          ps @ stream_packets h (sto_destination_identities options) css))"
  by (simp add: send_text_def text_write_def raw_open_log one_shot_log Let_def)

text \<open>How the writers cut their input, from the interfaces of the two chunkers.\<close>

lemma CHUNK_SIZE_Suc: "CHUNK_SIZE = Suc 14999"
  and CHUNK_SIZE_4: "CHUNK_SIZE = 4 + 14996"
  by (simp_all add: CHUNK_SIZE_def)

lemmas byte_cut = byte_chunks.concat_chunk [where n = 14999, folded CHUNK_SIZE_Suc]
  byte_chunks.chunk_bound [where n = 14999, folded CHUNK_SIZE_Suc]
  byte_chunks.chunk_nonempty [where n = 14999, folded CHUNK_SIZE_Suc]

lemmas text_cut = text_chunks.returns [where n = 14996, folded CHUNK_SIZE_4]
  text_chunks.concat_chunk [where n = 14996, folded CHUNK_SIZE_4]
  text_chunks.chunk_bound [where n = 14996, folded CHUNK_SIZE_4]
  text_chunks.chunk_nonempty [where n = 14996, folded CHUNK_SIZE_4]
  text_chunks.chunk_valid [where n = 14996, folded CHUNK_SIZE_4]

section \<open>Properties\<close>

text \<open>
  The progress of a writer is what was accepted: for every behaviour of the packet channel
  a write sends a prefix of the chunks in order, each with the next index, stops at the first
  one that fails, and then its index and byte count are exactly those of the accepted prefix.
\<close>

theorem write_chunks_progress:
  "\<exists>k \<le> length css. \<exists>r s' c'. write_chunks send css s c = (r, s', c')
    \<and> (r = Inr () \<longleftrightarrow> k = length css)
    \<and> s' = s\<lparr>rs_progress := advance (take k css) (rs_progress s)\<rparr>
    \<and> c' = fold (\<lambda>p c. snd (send p c))
        (take (Suc k) (chunk_packets (rs_id s) (sp_chunk_index (rs_progress s)) css)) c"
proof (induction css arbitrary: s c)
  case (Cons cs css)
  let ?p = "create_chunk_packet (rs_id s) (sp_chunk_index (rs_progress s)) cs"
  obtain r c1 where sp: "send_packet send ?p c = (r, c1)" by (cases "send_packet send ?p c")
  then have c1: "c1 = snd (send ?p c)"
    by (auto simp: send_packet_def split: prod.splits send_reply.splits)
  show ?case
  proof (cases r)
    case (Inl e)
    with sp c1 show ?thesis by (intro exI [of _ 0]) (simp add: write_chunk_cases)
  next
    case (Inr u)
    let ?s = "s\<lparr>rs_progress := advance [cs] (rs_progress s)\<rparr>"
    have idx: "sp_chunk_index (advance [cs] p) = sp_chunk_index p + 1" for p
      by (simp add: advance_def)
    from Cons.IH [of ?s c1] obtain k r' s' c' where
      k: "k \<le> length css" "write_chunks send css ?s c1 = (r', s', c')"
        "(r' = Inr ()) = (k = length css)"
        "s' = ?s\<lparr>rs_progress := advance (take k css) (rs_progress ?s)\<rparr>"
        "c' = fold (\<lambda>p c. snd (send p c))
           (take (Suc k) (chunk_packets (rs_id ?s) (sp_chunk_index (rs_progress ?s)) css)) c1"
      by blast
    with sp Inr c1 show ?thesis
      by (intro exI [of _ "Suc k"]) (simp add: write_chunk_cases idx, simp add: advance_Cons)
  qed
qed simp

text \<open>
  A stream is closed once: when closing succeeds its trailer was the packet sent, closing
  again fails with \<open>AlreadyClosed\<close> and sends nothing, and dropping it sends nothing; when
  closing fails the stream stays open, and dropping it sends a trailer.
\<close>

theorem close_once:
  assumes "\<not> rs_is_closed s"
    and "raw_close send reason s c = (r, s', c')"
  shows "c' = snd (send (create_trailer_packet (rs_id s) reason) c)
    \<and> (r = Inr () \<longrightarrow>
        raw_close send reason' s' c' = (Inl AlreadyClosed, s', c') \<and> raw_drop send s' c' = c')
    \<and> (r \<noteq> Inr () \<longrightarrow> s' = s \<and>
        raw_drop send s' c' = snd (send (create_trailer_packet (rs_id s) None) c'))"
proof -
  obtain q where q: "send_packet send (create_trailer_packet (rs_id s) reason) c = (q, c')"
    using assms by (auto simp: raw_close_def split: prod.splits sum.splits)
  then have c': "c' = snd (send (create_trailer_packet (rs_id s) reason) c)"
    by (metis send_packet_snd snd_conv)
  show ?thesis
    using assms q c' [symmetric]
    by (cases q) (auto simp: raw_close_def raw_drop_def send_packet_snd)
qed

theorem close_once_witness:
  "raw_drop log_channel \<lparr>rs_id = ''a'', rs_progress = progress_start None, rs_is_closed = True\<rparr>
     [create_trailer_packet ''a'' None] = [create_trailer_packet ''a'' None]"
  using close_once [of "\<lparr>rs_id = ''a'', rs_progress = progress_start None, rs_is_closed = False\<rparr>"
      log_channel None "[]" "Inr ()"
      "\<lparr>rs_id = ''a'', rs_progress = progress_start None, rs_is_closed = True\<rparr>"
      "[create_trailer_packet ''a'' None]" None]
  by (simp add: raw_close_def log_channel_def)

end
