(* ===== verification/StreamRoundtrip.thy ===== *)
theory StreamRoundtrip
  imports IncomingStream OutgoingStream
begin

text \<open>
  The two directions of a data stream put together: the packets a one-shot send publishes,
  delivered to the manager of the receiving room (\<open>emit_incoming_packet\<close> of
  \<open>rtc_session.rs\<close> and the \<open>handle_data_stream_*\<close> methods of \<open>room/mod.rs\<close>) in the midst of
  the packets of any other streams.
\<close>

section \<open>Delivery\<close>

text \<open>The handler call a received packet leads to, with every reader still there.\<close>

definition deliver :: "clock \<Rightarrow> string \<Rightarrow> data_packet \<Rightarrow> incoming_event list" where
  "deliver clk identity p =
     (case dp_value p of
        Some (StreamHeader header) \<Rightarrow> [OnHeader clk header identity]
      | Some (StreamChunk chunk) \<Rightarrow> [OnChunk (\<lambda>_. True) chunk]
      | Some (StreamTrailer trailer) \<Rightarrow> [OnTrailer (\<lambda>_. True) trailer]
      | _ \<Rightarrow> [])"

definition deliver_all :: "clock \<Rightarrow> string \<Rightarrow> data_packet list \<Rightarrow> incoming_event list" where
  "deliver_all clk identity ps = concat (map (deliver clk identity) ps)"

text \<open>The packets of stream \<open>i\<close> in a run of the receiver.\<close>

definition of_stream :: "string \<Rightarrow> incoming_event list \<Rightarrow> incoming_event list" where
  "of_stream i es = filter (\<lambda>e. event_stream e = i) es"

fun chunk_events :: "string \<Rightarrow> u64 \<Rightarrow> byte list list \<Rightarrow> incoming_event list" where
  "chunk_events i k [] = []"
| "chunk_events i k (cs # css) = OnChunk (\<lambda>_. True) \<lparr>pc_stream_id = i, pc_chunk_index = k,
     pc_content = cs, pc_version = 0, pc_iv = None\<rparr> # chunk_events i (k + 1) css"

definition trailer_event :: "string \<Rightarrow> incoming_event" where
  "trailer_event i = OnTrailer (\<lambda>_. True) \<lparr>pt_stream_id = i, pt_reason = [], pt_attributes = []\<rparr>"

section \<open>Lemmas\<close>

lemma deliver_chunks: "deliver_all clk identity (chunk_packets i k css) = chunk_events i k css"
  by (induction css arbitrary: k)
    (auto simp: deliver_all_def deliver_def create_chunk_packet_def default_packet_def)

lemma deliver_stream:
  "deliver_all clk identity (stream_packets h ds css) =
     OnHeader clk h identity # chunk_events (ph_stream_id h) 0 css @ [trailer_event (ph_stream_id h)]"
  using deliver_chunks [of clk identity "ph_stream_id h" 0 css]
  by (simp add: deliver_all_def stream_packets_def deliver_def create_header_packet_def
      create_trailer_packet_def trailer_event_def)

lemma of_stream_split:
  "of_stream i es = x # xs \<Longrightarrow>
   \<exists>us vs. es = us @ x # vs \<and> (\<forall>u \<in> set us. event_stream u \<noteq> i) \<and> of_stream i vs = xs"
  by (auto simp: of_stream_def filter_eq_Cons_iff)

text \<open>A closed channel and the readers handed out stay as they are.\<close>

lemma step_dropped:
  assumes inv: "incoming_inv m" and c: "c \<in> set (im_dropped m)"
  shows "c \<in> set (im_dropped (incoming_step e m))
    \<and> im_sent (incoming_step e m) c = im_sent m c"
proof (cases e)
  case (OnHeader clk header identity)
  with c show ?thesis
    by (auto simp: handle_header_def any_reader_from_def Let_def split: sum.splits)
next
  case (OnChunk alive chunk)
  with c incoming_inv_stream [OF inv] show ?thesis
    by (cases "im_open_streams m (pc_stream_id chunk)")
      (auto simp: handle_chunk_open Let_def close_with_def accept_chunk_def stream_ok_def,
       simp_all add: handle_chunk_def)
next
  case (OnTrailer alive trailer)
  with c incoming_inv_stream [OF inv] show ?thesis
    by (cases "im_open_streams m (pt_stream_id trailer)")
      (auto simp: handle_trailer_open close_with_def stream_ok_def, simp_all add: handle_trailer_def)
qed

lemma run_dropped:
  "incoming_inv m \<Longrightarrow> c \<in> set (im_dropped m) \<Longrightarrow>
   c \<in> set (im_dropped (fold incoming_step es m))
     \<and> im_sent (fold incoming_step es m) c = im_sent m c"
proof (induction es arbitrary: m)
  case (Cons e es)
  then show ?case using step_dropped [OF Cons.prems, of e] incoming.step_inv [of m e] by simp
qed simp

lemma step_readers: "set (im_open_tx m) \<subseteq> set (im_open_tx (incoming_step e m))"
proof (cases e)
  case (OnHeader clk header identity)
  then show ?thesis
    by (auto simp: handle_header_def any_reader_from_def Let_def split: sum.splits)
next
  case (OnChunk alive chunk)
  then show ?thesis
    by (cases "im_open_streams m (pc_stream_id chunk)")
      (auto simp: handle_chunk_open Let_def close_with_def accept_chunk_def, simp_all add: handle_chunk_def)
next
  case (OnTrailer alive trailer)
  then show ?thesis
    by (cases "im_open_streams m (pt_stream_id trailer)")
      (auto simp: handle_trailer_open close_with_def, simp_all add: handle_trailer_def)
qed

lemma run_readers: "set (im_open_tx m) \<subseteq> set (im_open_tx (fold incoming_step es m))"
  by (induction es arbitrary: m) (auto dest: subsetD [OF step_readers])

text \<open>Packets of other streams do not open this one.\<close>

lemma step_unopened:
  assumes "im_open_streams m i = None" "event_stream e \<noteq> i"
  shows "im_open_streams (incoming_step e m) i = None"
proof (cases e)
  case (OnHeader clk header identity)
  with assms show ?thesis
    by (auto simp: handle_header_def any_reader_from_def Let_def dest: any_info_from_header
        split: sum.splits)
next
  case (OnChunk alive chunk)
  with assms show ?thesis
    by (cases "im_open_streams m (pc_stream_id chunk)")
      (auto simp: handle_chunk_open Let_def close_with_def accept_chunk_def, simp_all add: handle_chunk_def)
next
  case (OnTrailer alive trailer)
  with assms show ?thesis
    by (cases "im_open_streams m (pt_stream_id trailer)")
      (auto simp: handle_trailer_open close_with_def, simp_all add: handle_trailer_def)
qed

lemma run_unopened:
  "im_open_streams m i = None \<Longrightarrow> \<forall>e \<in> set es. event_stream e \<noteq> i \<Longrightarrow>
   im_open_streams (fold incoming_step es m) i = None"
  by (induction es arbitrary: m) (auto simp: step_unopened simp del: incoming_step.simps)

text \<open>
  The chunks and the trailer of a stream, among the packets of others: the reader's channel
  ends with exactly these chunks and is closed.
\<close>

definition receiving :: "incoming_manager \<Rightarrow> string \<Rightarrow> nat \<Rightarrow> nat \<Rightarrow> byte list list \<Rightarrow> bool" where
  "receiving m i c n cs \<longleftrightarrow>
     (\<exists>d. im_open_streams m i = Some d \<and> de_chunk_tx d = c \<and>
        im_sent m c = map Inr cs \<and>
        sp_bytes_total (de_progress d) = Some (of_nat n) \<and>
        sp_chunk_index (de_progress d) = of_nat (length cs) \<and>
        sp_bytes_processed (de_progress d) = of_nat (length (concat cs)))"

lemma receiving_other:
  assumes "incoming_inv m" "receiving m i c n cs" "\<forall>e \<in> set es. event_stream e \<noteq> i"
  shows "receiving (fold incoming_step es m) i c n cs"
  using assms incoming_run_other [OF assms(1) _ assms(3)] unfolding receiving_def by metis

lemma word_le_of_nat: "a \<le> b \<Longrightarrow> b < 2 ^ 64 \<Longrightarrow> (of_nat a :: u64) \<le> of_nat b"
  by (simp add: word_le_nat_alt unat_of_nat)

lemma receiving_chunk:
  assumes "receiving m i c n cs" "n < 2 ^ 64" "length (concat (cs @ [b])) \<le> n"
  shows "receiving (incoming_step (OnChunk (\<lambda>_. True) \<lparr>pc_stream_id = i,
     pc_chunk_index = of_nat (length cs), pc_content = b, pc_version = 0, pc_iv = None\<rparr>) m)
     i c n (cs @ [b])"
proof -
  from assms(1) obtain d where d: "im_open_streams m i = Some d" "de_chunk_tx d = c"
    "im_sent m c = map Inr cs" "sp_bytes_total (de_progress d) = Some (of_nat n)"
    "sp_chunk_index (de_progress d) = of_nat (length cs)"
    "sp_bytes_processed (de_progress d) = of_nat (length (concat cs))"
    by (auto simp: receiving_def)
  have "(of_nat (length (concat cs)) :: u64) + of_nat (length b) \<le> of_nat n"
    using word_le_of_nat [OF assms(3,2)] by simp
  then have "\<not> over_total (progress_add (length b) (de_progress d))"
    using d by (simp add: over_total_def progress_add_def not_less)
  with d show ?thesis
    by (simp add: handle_chunk_open Let_def receiving_def accept_chunk_def progress_add_def add_ac)
qed

lemma receiving_trailer:
  assumes "receiving m i c (length (concat cs)) cs"
  shows "im_sent (incoming_step (trailer_event i) m) c = map Inr cs
    \<and> c \<in> set (im_dropped (incoming_step (trailer_event i) m))"
  using assms
  by (auto simp: receiving_def trailer_event_def handle_trailer_open close_with_def reached_total_def)

lemma receive_rest:
  assumes "incoming_inv m" "receiving m i c n cs" "n = length (concat (cs @ css))" "n < 2 ^ 64"
    and "of_stream i es = chunk_events i (of_nat (length cs)) css @ [trailer_event i]"
  shows "im_sent (fold incoming_step es m) c = map Inr (cs @ css)
    \<and> c \<in> set (im_dropped (fold incoming_step es m))"
  using assms
proof (induction css arbitrary: m cs es)
  case Nil
  from of_stream_split Nil.prems(5) obtain us vs where
    es: "es = us @ trailer_event i # vs" "\<forall>u \<in> set us. event_stream u \<noteq> i" by fastforce
  let ?m = "fold incoming_step us m"
  have inv: "incoming_inv ?m" "incoming_inv (incoming_step (trailer_event i) ?m)"
    using incoming.run_inv [OF Nil.prems(1)] incoming.step_inv by blast+
  have "receiving ?m i c (length (concat cs)) cs"
    using receiving_other [OF Nil.prems(1,2) es(2)] Nil.prems(3) by simp
  from receiving_trailer [OF this] run_dropped [OF inv(2)] show ?case by (simp add: es(1))
next
  case (Cons b css)
  let ?e = "OnChunk (\<lambda>_. True) \<lparr>pc_stream_id = i, pc_chunk_index = of_nat (length cs),
    pc_content = b, pc_version = 0, pc_iv = None\<rparr>"
  from of_stream_split Cons.prems(5) obtain us vs where
    es: "es = us @ ?e # vs" "\<forall>u \<in> set us. event_stream u \<noteq> i"
    and vs: "of_stream i vs = chunk_events i (of_nat (length (cs @ [b]))) css @ [trailer_event i]"
    by (fastforce simp: add.commute)
  let ?m = "fold incoming_step us m"
  have inv: "incoming_inv (incoming_step ?e ?m)"
    using incoming.run_inv [OF Cons.prems(1)] incoming.step_inv by blast
  have "receiving ?m i c n cs" by (rule receiving_other [OF Cons.prems(1,2) es(2)])
  from receiving_chunk [OF this Cons.prems(4), of b]
  have "receiving (incoming_step ?e ?m) i c n (cs @ [b])" using Cons.prems(3) by simp
  from Cons.IH [OF inv this _ Cons.prems(4) vs] Cons.prems(3) show ?case by (simp add: es(1))
qed

lemma receive_stream:
  assumes m: "incoming_inv m" "im_open_streams m (ph_stream_id h) = None"
    and h: "any_stream_info_try_from clk h = Inr info" "ph_total_length h = Some (of_nat n)"
    and n: "n = length (concat css)" "n < 2 ^ 64"
    and es: "of_stream (ph_stream_id h) es = deliver_all clk identity (stream_packets h ds css)"
  shows "\<exists>c. ((info, c), identity) \<in> set (im_open_tx (fold incoming_step es m))
    \<and> im_sent (fold incoming_step es m) c = map Inr css
    \<and> c \<in> set (im_dropped (fold incoming_step es m))"
proof -
  let ?i = "ph_stream_id h"
  let ?e = "OnHeader clk h identity"
  from of_stream_split es [unfolded deliver_stream] obtain us vs where
    es': "es = us @ ?e # vs" "\<forall>u \<in> set us. event_stream u \<noteq> ?i"
    and vs: "of_stream ?i vs = chunk_events ?i (of_nat (length ([] :: byte list list))) css @ [trailer_event ?i]"
    by fastforce
  let ?m = "fold incoming_step us m"
  let ?c = "im_next ?m"
  have inv: "incoming_inv ?m" "incoming_inv (incoming_step ?e ?m)"
    using incoming.run_inv [OF m(1)] incoming.step_inv by blast+
  have unopened: "im_open_streams ?m ?i = None" by (rule run_unopened [OF m(2) es'(2)])
  have info: "any_info_id info = ?i" "any_info_total_length info = Some (of_nat n)"
    using any_info_from_header [OF h(1)] h(2) by simp_all
  have empty: "im_sent ?m ?c = []" using inv(1) by (simp add: incoming_inv_def)
  have step: "receiving (incoming_step ?e ?m) ?i ?c n []
      \<and> ((info, ?c), identity) \<in> set (im_open_tx (incoming_step ?e ?m))"
    using unopened h(1) info empty
    by (simp add: handle_header_def any_reader_from_def Let_def receiving_def progress_start_def)
  then show ?thesis
    using receive_rest [OF inv(2) _ _ n(2) vs] n(1) run_readers [of "incoming_step ?e ?m" vs]
    by (intro exI [of _ ?c]) (auto simp: es'(1))
qed

section \<open>Properties\<close>

text \<open>
  C1. Bytes sent are bytes read: when the packets of \<open>send_bytes\<close> reach a receiver in order,
  among any packets of other streams, the application is handed a reader with the information
  the sender returned, its channel is closed, and \<open>read_all\<close> on it yields exactly the bytes.
\<close>

theorem send_bytes_roundtrip:
  assumes "send_bytes log_channel clk uuid bytes options [] = (Inr info, packets)"
    and "length bytes < 2 ^ 64"
    and "m = fold incoming_step before incoming_new" and "im_open_streams m (bsi_id info) = None"
    and "of_stream (bsi_id info) es = deliver_all clk identity packets"
  shows "\<exists>c. ((ByteInfo info, c), identity) \<in> set (im_open_tx (fold incoming_step es m))
    \<and> byte_read_all (im_sent (fold incoming_step es m) c) = Inr bytes
    \<and> c \<in> set (im_dropped (fold incoming_step es m))"
proof -
  let ?name = "unwrap_or [] (sbo_name options)"
  let ?h = "byte_stream_header clk uuid options ?name (Some (of_nat (length bytes)))"
  let ?css = "chunks CHUNK_SIZE bytes"
  have cut: "concat ?css = bytes" using byte_cut(1) by simp
  have sent: "info = byte_info_from_headers clk ?h \<lparr>pbh_name = ?name\<rparr>"
    "packets = stream_packets ?h (sbo_destination_identities options) ?css"
    using assms(1) by (simp_all add: send_bytes_log Let_def)
  have info: "any_stream_info_try_from clk ?h = Inr (ByteInfo info)" "ph_stream_id ?h = bsi_id info"
    "ph_total_length ?h = Some (of_nat (length bytes))"
    by (simp_all add: sent any_stream_info_try_from_def byte_stream_header_def
        byte_info_from_headers_def)
  have inv: "incoming_inv m" using assms(3) incoming_run_inv by simp
  from receive_stream [OF inv _ info(1,3) _ assms(2), of ?css es identity] assms(4,5) cut
  show ?thesis
    by (fastforce simp: info(2) sent(2) byte_read_all_def byte_read_all_ok)
qed

definition example_options :: stream_byte_options where
  "example_options = \<lparr>sbo_topic = ''t'', sbo_attributes = [], sbo_destination_identities = [],
     sbo_id = Some ''a'', sbo_mime_type = None, sbo_name = None, sbo_total_length = None\<rparr>"

definition example_text_options :: stream_text_options where
  "example_text_options = \<lparr>sto_topic = ''t'', sto_attributes = [], sto_destination_identities = [],
     sto_id = Some ''a'', sto_operation_type = None, sto_version = None,
     sto_reply_to_stream_id = None, sto_attached_stream_ids = [], sto_generated = None\<rparr>"

lemma of_stream_all: "\<forall>e \<in> set es. event_stream e = i \<Longrightarrow> of_stream i es = es"
  by (simp add: of_stream_def)

lemma deliver_stream_ids:
  "e \<in> set (deliver_all clk identity (stream_packets h ds css)) \<Longrightarrow> event_stream e = ph_stream_id h"
proof -
  have "e \<in> set (chunk_events i k css) \<Longrightarrow> event_stream e = i" for i k
    by (induction css arbitrary: k) auto
  then show "e \<in> set (deliver_all clk identity (stream_packets h ds css)) \<Longrightarrow>
      event_stream e = ph_stream_id h"
    unfolding deliver_stream by (auto simp: trailer_event_def)
qed

theorem send_bytes_roundtrip_witness:
  "\<exists>packets c. send_bytes log_channel example_clock ''u'' [1, 2, 3] example_options [] =
      (Inr (byte_info_from_headers example_clock (byte_stream_header example_clock ''u''
         example_options [] (Some 3)) \<lparr>pbh_name = []\<rparr>), packets)
    \<and> byte_read_all (im_sent (fold incoming_step (deliver_all example_clock ''bob'' packets)
        incoming_new) c) = Inr [1, 2, 3]"
proof -
  let ?h = "byte_stream_header example_clock ''u'' example_options [] (Some 3)"
  let ?info = "byte_info_from_headers example_clock ?h \<lparr>pbh_name = []\<rparr>"
  let ?ps = "stream_packets ?h [] (chunks CHUNK_SIZE [1, 2, 3])"
  have sent: "send_bytes log_channel example_clock ''u'' [1, 2, 3] example_options [] = (Inr ?info, ?ps)"
    by (simp add: send_bytes_log Let_def) (simp add: example_options_def)
  have i: "bsi_id ?info = ph_stream_id ?h" by (simp add: byte_info_from_headers_def)
  have "of_stream (bsi_id ?info) (deliver_all example_clock ''bob'' ?ps)
      = deliver_all example_clock ''bob'' ?ps"
    unfolding i using deliver_stream_ids by (intro of_stream_all) blast
  from send_bytes_roundtrip [OF sent _ _ _ this, of incoming_new "[]"] sent
  show ?thesis by (auto simp: incoming_new_def)
qed

text \<open>
  C2. Text sent is text read: \<open>send_text\<close> of a valid text returns, and when its packets reach a
  receiver in order, among any packets of other streams, every chunk decodes on its own and
  \<open>read_all\<close> yields exactly the text.
\<close>

theorem send_text_roundtrip:
  assumes "valid_utf8 (as_bytes txt)" and "length txt < 2 ^ 64"
    and "m = fold incoming_step before incoming_new"
    and "im_open_streams m (unwrap_or uuid (sto_id options)) = None"
  shows "\<exists>info packets. send_text log_channel clk uuid txt options [] = Some (Inr info, packets)
    \<and> (\<forall>es. of_stream (unwrap_or uuid (sto_id options)) es = deliver_all clk identity packets \<longrightarrow>
        (\<exists>c. ((TextInfo info, c), identity) \<in> set (im_open_tx (fold incoming_step es m))
          \<and> text_read_all (im_sent (fold incoming_step es m) c) = Inr txt
          \<and> c \<in> set (im_dropped (fold incoming_step es m))))"
proof -
  let ?h = "text_stream_header clk uuid options (Some (of_nat (length txt)))"
  let ?info = "text_info_from_headers clk ?h (text_header_of options)"
  obtain css where css: "utf8_aware_chunks CHUNK_SIZE (as_bytes txt) = Some css"
    using text_cut(1) [OF assms(1)] by blast
  have cut: "concat css = as_bytes txt" "list_all valid_utf8 css"
    using text_cut(2,5) [OF assms(1) css] by (auto simp: list_all_iff)
  have info: "any_stream_info_try_from clk ?h = Inr (TextInfo ?info)"
    "ph_stream_id ?h = unwrap_or uuid (sto_id options)"
    "ph_total_length ?h = Some (of_nat (length txt))"
    by (simp_all add: any_stream_info_try_from_def text_stream_header_def text_info_from_headers_def)
  have inv: "incoming_inv m" using assms(3) incoming_run_inv by simp
  have n: "length txt = length (concat css)" by (simp add: cut(1))
  have rd: "text_read_all (map Inr css) = Inr txt"
    using text_read_all_ok [OF cut(2), of "[]"] by (simp add: text_read_all_def cut(1))
  have "\<exists>c. ((TextInfo ?info, c), identity) \<in> set (im_open_tx (fold incoming_step es m))
      \<and> text_read_all (im_sent (fold incoming_step es m) c) = Inr txt
      \<and> c \<in> set (im_dropped (fold incoming_step es m))"
    if "of_stream (ph_stream_id ?h) es = deliver_all clk identity
        (stream_packets ?h (sto_destination_identities options) css)" for es
    using receive_stream [OF inv _ info(1,3) n assms(2) that] assms(4) info(2) rd by fastforce
  then show ?thesis
    using send_text_log [OF css, of clk uuid options "[]"] by (simp add: Let_def info(2))
qed

theorem send_text_roundtrip_witness:
  "\<exists>info packets. send_text log_channel example_clock ''u'' ''hi'' example_text_options []
     = Some (Inr info, packets)"
proof -
  have "list_all is_char [[0x68], [0x69]]" by (simp add: is_char_def utf8_width_def)
  from valid_utf8_concat [OF this] have "valid_utf8 (as_bytes ''hi'')"
    by (simp add: as_bytes_def of_char_def)
  from send_text_roundtrip [OF this, of incoming_new "[]" "''u''" example_text_options] show ?thesis
    by (fastforce simp: incoming_new_def)
qed

text \<open>
  Closing does not guard the writes, and the loss is silent: after a writer has closed its
  stream a clone of it can still write, the write succeeds and the chunk is published after the
  trailer, and a receiver that has handled the trailer ignores it.
\<close>

theorem late_chunk_lost:
  assumes "raw_close send reason s c = (Inr (), s', c')"
    and "fst (send (create_chunk_packet (rs_id s) (sp_chunk_index (rs_progress s)) bytes) c') = Sent"
    and "incoming_inv m"
    and "p = create_chunk_packet (rs_id s) (sp_chunk_index (rs_progress s)) bytes"
  shows "fst (write_chunk send bytes s' c') = Inr ()
    \<and> snd (snd (write_chunk send bytes s' c')) = snd (send p c')
    \<and> fold incoming_step (trailer_event (rs_id s) # deliver_all clk identity [p]) m
      = incoming_step (trailer_event (rs_id s)) m"
proof -
  have s': "rs_id s' = rs_id s" "rs_progress s' = rs_progress s"
    using assms(1) by (auto simp: raw_close_def split: if_splits prod.splits sum.splits)
  have sp: "send_packet send p c' = (Inr (), snd (send p c'))"
    using assms(2,4) by (auto simp: send_packet_def split: prod.splits)
  have closed: "im_open_streams (incoming_step (trailer_event (rs_id s)) m) (rs_id s) = None"
    by (cases "im_open_streams m (rs_id s)")
      (auto simp: trailer_event_def handle_trailer_open close_with_def, simp_all add: handle_trailer_def)
  have "handle_chunk alive \<lparr>pc_stream_id = rs_id s, pc_chunk_index = k, pc_content = bytes,
      pc_version = 0, pc_iv = None\<rparr> (incoming_step (trailer_event (rs_id s)) m)
    = incoming_step (trailer_event (rs_id s)) m" for alive k
    using closed by (simp add: handle_chunk_def)
  then show ?thesis
    using sp assms(4)
    by (simp add: write_chunk_cases s' deliver_all_def deliver_def create_chunk_packet_def default_packet_def)
qed

theorem late_chunk_lost_witness:
  "fst (write_chunk log_channel [7]
      \<lparr>rs_id = ''a'', rs_progress = progress_start None, rs_is_closed = True\<rparr>
      [create_trailer_packet ''a'' None]) = Inr ()"
  using late_chunk_lost [of log_channel None
      "\<lparr>rs_id = ''a'', rs_progress = progress_start None, rs_is_closed = False\<rparr>" "[]"
      "\<lparr>rs_id = ''a'', rs_progress = progress_start None, rs_is_closed = True\<rparr>"
      "[create_trailer_packet ''a'' None]" "[7]" incoming_new _ example_clock "''bob''", OF _ _ _ refl]
  by (simp add: raw_close_def log_channel_def incoming_inv_new)

end
