(* ===== verification/Rpc.thy ===== *)
theory Rpc
  imports Proto Utf8
begin

text \<open>
  Remote procedure calls between participants: the errors of
  \<open>livekit/src/room/participant/rpc.rs\<close> and the RPC part of
  \<open>livekit/src/room/participant/local_participant.rs\<close>.

  A call in progress (\<open>perform_rpc\<close>) is a process with a phase and the two \<open>oneshot\<close> channels it
  waits on; the ack and response tables map a request id to the call that owns the sender.
  Network events, timers and calls interleave freely: each is one step on the shared state.
  Random ids, the answer of the engine to a publish, the \<open>semver\<close> comparison and the user's
  method handlers are arguments. A \<open>Duration\<close> is its number of milliseconds.
\<close>

section \<open>Errors\<close>

record rpc_error =
  re_code :: u32
  re_message :: string
  re_data :: "string option"

definition MAX_MESSAGE_BYTES :: nat where "MAX_MESSAGE_BYTES = 256"
definition MAX_DATA_BYTES :: nat where "MAX_DATA_BYTES = 15360"
definition MAX_PAYLOAD_BYTES :: nat where "MAX_PAYLOAD_BYTES = 15360"

text \<open>The characters of a string; a \<open>&str\<close> is always valid UTF-8.\<close>

definition str_chars :: "string \<Rightarrow> string list" where
  "str_chars s = map of_bytes (unwrap_or [] (utf8_chars (as_bytes s)))"

fun truncate_loop :: "nat \<Rightarrow> string \<Rightarrow> string list \<Rightarrow> string" where
  "truncate_loop max_bytes result [] = result"
| "truncate_loop max_bytes result (c # cs) =
     (if max_bytes < length (result @ c) then result
      else truncate_loop max_bytes (result @ c) cs)"

definition truncate_bytes :: "string \<Rightarrow> nat \<Rightarrow> string" where
  "truncate_bytes s max_bytes =
     (if length s \<le> max_bytes then s else truncate_loop max_bytes [] (str_chars s))"

definition rpc_error_new :: "u32 \<Rightarrow> string \<Rightarrow> string option \<Rightarrow> rpc_error" where
  "rpc_error_new code message data =
     \<lparr>re_code = code,
      re_message = truncate_bytes message MAX_MESSAGE_BYTES,
      re_data = map_option (\<lambda>d. truncate_bytes d MAX_DATA_BYTES) data\<rparr>"

definition rpc_error_from_proto :: "proto_rpc_error \<Rightarrow> rpc_error" where
  "rpc_error_from_proto p = rpc_error_new (pre_code p) (pre_message p) (Some (pre_data p))"

definition rpc_error_to_proto :: "rpc_error \<Rightarrow> proto_rpc_error" where
  "rpc_error_to_proto e =
     \<lparr>pre_code = re_code e, pre_message = re_message e, pre_data = unwrap_or [] (re_data e)\<rparr>"

datatype (plugins only: code size) rpc_error_code =
    ApplicationError | RpcConnectionTimeout | ResponseTimeout | RecipientDisconnected
  | ResponsePayloadTooLarge | RpcSendFailed | UnsupportedMethod | RecipientNotFound
  | RequestPayloadTooLarge | UnsupportedServer | UnsupportedVersion

fun rpc_error_number :: "rpc_error_code \<Rightarrow> u32" where
  "rpc_error_number ApplicationError = 1500"
| "rpc_error_number RpcConnectionTimeout = 1501"
| "rpc_error_number ResponseTimeout = 1502"
| "rpc_error_number RecipientDisconnected = 1503"
| "rpc_error_number ResponsePayloadTooLarge = 1504"
| "rpc_error_number RpcSendFailed = 1505"
| "rpc_error_number UnsupportedMethod = 1400"
| "rpc_error_number RecipientNotFound = 1401"
| "rpc_error_number RequestPayloadTooLarge = 1402"
| "rpc_error_number UnsupportedServer = 1403"
| "rpc_error_number UnsupportedVersion = 1404"

fun rpc_error_message :: "rpc_error_code \<Rightarrow> string" where
  "rpc_error_message ApplicationError = ''Application error in method handler''"
| "rpc_error_message RpcConnectionTimeout = ''Connection timeout''"
| "rpc_error_message ResponseTimeout = ''Response timeout''"
| "rpc_error_message RecipientDisconnected = ''Recipient disconnected''"
| "rpc_error_message ResponsePayloadTooLarge = ''Response payload too large''"
| "rpc_error_message RpcSendFailed = ''Failed to send''"
| "rpc_error_message UnsupportedMethod = ''Method not supported at destination''"
| "rpc_error_message RecipientNotFound = ''Recipient not found''"
| "rpc_error_message RequestPayloadTooLarge = ''Request payload too large''"
| "rpc_error_message UnsupportedServer = ''RPC not supported by server''"
| "rpc_error_message UnsupportedVersion = ''Unsupported RPC version''"

definition built_in :: "rpc_error_code \<Rightarrow> string option \<Rightarrow> rpc_error" where
  "built_in code data = rpc_error_new (rpc_error_number code) (rpc_error_message code) data"

section \<open>State\<close>

record perform_rpc_data =
  pd_destination_identity :: string
  pd_method :: string
  pd_payload :: string
  pd_response_timeout :: nat

record rpc_invocation =
  ri_request_id :: string
  ri_caller_identity :: participant_identity
  ri_payload :: string
  ri_response_timeout :: nat

text \<open>A method handler run in a task of its own: \<open>None\<close> when the task panics.\<close>

type_synonym rpc_handler = "rpc_invocation \<Rightarrow> (rpc_error + string) option"

datatype (plugins only: code size) 'a oneshot = NoValue | Val 'a | SenderDropped

datatype (plugins only: code size) rpc_phase =
    Publishing
  | AwaitAck
  | AwaitResponse
  | Finished "rpc_error + string"

record rpc_call =
  rc_response_timeout :: nat
  rc_phase :: rpc_phase
  rc_ack :: "unit oneshot"
  rc_response :: "(rpc_error + string) oneshot"

record rpc_state =
  rp_pending_acks :: "string \<rightharpoonup> string"
  rp_pending_responses :: "string \<rightharpoonup> string"
  rp_handlers :: "string \<rightharpoonup> rpc_handler"
  rp_calls :: "string \<rightharpoonup> rpc_call"

definition rpc_new :: rpc_state where
  "rpc_new = \<lparr>rp_pending_acks = Map.empty, rp_pending_responses = Map.empty,
     rp_handlers = Map.empty, rp_calls = Map.empty\<rparr>"

definition update_call :: "string \<Rightarrow> (rpc_call \<Rightarrow> rpc_call) \<Rightarrow> rpc_state \<Rightarrow> rpc_state" where
  "update_call i f st = st\<lparr>rp_calls := (rp_calls st)(i := map_option f (rp_calls st i))\<rparr>"

section \<open>The caller\<close>

text \<open>
  The checks before a request is sent. \<open>older\<close> compares a version with 1.8.0 and is \<open>None\<close> on one
  that does not parse, where the code unwraps and panics.
\<close>

definition perform_rpc_checks ::
    "(string \<Rightarrow> bool option) \<Rightarrow> string option \<Rightarrow> perform_rpc_data \<Rightarrow> (rpc_error + unit) option" where
  "perform_rpc_checks older server_version data =
     (if MAX_PAYLOAD_BYTES < length (pd_payload data)
      then Some (Inl (built_in RequestPayloadTooLarge None))
      else case server_version of
        None \<Rightarrow> Some (Inr ())
      | Some v \<Rightarrow>
          if v = [] then Some (Inr ())
          else map_option (\<lambda>old. if old then Inl (built_in UnsupportedServer None) else Inr ()) (older v))"

definition rpc_request_packet :: "string \<Rightarrow> perform_rpc_data \<Rightarrow> data_packet" where
  "rpc_request_packet i data =
     default_packet\<lparr>dp_value := Some (RpcRequestValue \<lparr>prq_id = i, prq_method = pd_method data,
         prq_payload = pd_payload data,
         prq_response_timeout_ms = of_nat (pd_response_timeout data), prq_version = 1\<rparr>),
       dp_destination_identities := [pd_destination_identity data]\<rparr>"

text \<open>
  \<open>perform_rpc\<close> up to the publish of its request: a rejected call is finished; the other one has a
  fresh id and waits for the publish.
\<close>

definition perform_rpc ::
    "(string \<Rightarrow> bool option) \<Rightarrow> string option \<Rightarrow> string \<Rightarrow> perform_rpc_data \<Rightarrow> rpc_state \<Rightarrow>
     (rpc_state \<times> data_packet list) option" where
  "perform_rpc older server_version i data st =
     map_option (\<lambda>checked.
       let call = \<lparr>rc_response_timeout = pd_response_timeout data,
             rc_phase = (case checked of Inl e \<Rightarrow> Finished (Inl e) | Inr _ \<Rightarrow> Publishing),
             rc_ack = NoValue, rc_response = NoValue\<rparr>
       in (st\<lparr>rp_calls := (rp_calls st)(i \<mapsto> call)\<rparr>,
           case checked of Inl e \<Rightarrow> [] | Inr _ \<Rightarrow> [rpc_request_packet i data]))
     (perform_rpc_checks older server_version data)"

definition finish_call :: "string \<Rightarrow> rpc_error + string \<Rightarrow> rpc_state \<Rightarrow> rpc_state" where
  "finish_call i r st = update_call i (\<lambda>c. c\<lparr>rc_phase := Finished r\<rparr>) st"

definition request_published :: "string \<Rightarrow> string + unit \<Rightarrow> rpc_state \<Rightarrow> rpc_state" where
  "request_published i result st =
     (case result of
        Inr _ \<Rightarrow>
          update_call i (\<lambda>c. c\<lparr>rc_phase := AwaitAck\<rparr>)
            (st\<lparr>rp_pending_acks := (rp_pending_acks st)(i \<mapsto> i),
                rp_pending_responses := (rp_pending_responses st)(i \<mapsto> i)\<rparr>)
      | Inl e \<Rightarrow> finish_call i (Inl (built_in RpcSendFailed (Some e))) st)"

definition ack_wait_elapsed :: "string \<Rightarrow> rpc_state \<Rightarrow> rpc_state" where
  "ack_wait_elapsed i st =
     finish_call i (Inl (built_in RpcConnectionTimeout None))
       (st\<lparr>rp_pending_acks := (rp_pending_acks st)(i := None),
           rp_pending_responses := (rp_pending_responses st)(i := None)\<rparr>)"

definition ack_wait_done :: "string \<Rightarrow> rpc_state \<Rightarrow> rpc_state" where
  "ack_wait_done i st = update_call i (\<lambda>c. c\<lparr>rc_phase := AwaitResponse\<rparr>) st"

definition response_wait_elapsed :: "string \<Rightarrow> rpc_state \<Rightarrow> rpc_state" where
  "response_wait_elapsed i st =
     finish_call i (Inl (built_in ResponseTimeout None))
       (st\<lparr>rp_pending_responses := (rp_pending_responses st)(i := None)\<rparr>)"

definition response_wait_done :: "string \<Rightarrow> (rpc_error + string) oneshot \<Rightarrow> rpc_state \<Rightarrow> rpc_state" where
  "response_wait_done i response st =
     (case response of
        NoValue \<Rightarrow> st
      | SenderDropped \<Rightarrow> finish_call i (Inl (built_in RecipientDisconnected None)) st
      | Val (Inl e) \<Rightarrow> finish_call i (Inl e) st
      | Val (Inr payload) \<Rightarrow> finish_call i (Inr payload) st)"

text \<open>
  What a timer or a ready channel does to a waiting call. \<open>tokio::time::timeout\<close> polls the channel
  before the timer, so it elapses only on a channel that is not ready.
\<close>

datatype (plugins only: code size) wake = Timer | Ready

definition wake_call :: "string \<Rightarrow> wake \<Rightarrow> rpc_state \<Rightarrow> rpc_state" where
  "wake_call i w st =
     (case rp_calls st i of
        None \<Rightarrow> st
      | Some c \<Rightarrow>
          (case rc_phase c of
             AwaitAck \<Rightarrow>
               (if rc_ack c = NoValue
                then (case w of Timer \<Rightarrow> ack_wait_elapsed i st | Ready \<Rightarrow> st)
                else ack_wait_done i st)
           | AwaitResponse \<Rightarrow>
               (if rc_response c = NoValue
                then (case w of Timer \<Rightarrow> response_wait_elapsed i st | Ready \<Rightarrow> st)
                else response_wait_done i (rc_response c) st)
           | _ \<Rightarrow> st))"

section \<open>Incoming acks and responses\<close>

definition handle_incoming_rpc_ack :: "string \<Rightarrow> rpc_state \<Rightarrow> rpc_state" where
  "handle_incoming_rpc_ack request_id st =
     (case rp_pending_acks st request_id of
        Some tx \<Rightarrow>
          update_call tx (\<lambda>c. c\<lparr>rc_ack := Val ()\<rparr>)
            (st\<lparr>rp_pending_acks := (rp_pending_acks st)(request_id := None)\<rparr>)
      | None \<Rightarrow> st)"

definition response_result :: "string option \<Rightarrow> proto_rpc_error option \<Rightarrow> rpc_error + string" where
  "response_result payload error =
     (case error of
        Some e \<Rightarrow> Inl (rpc_error_from_proto e)
      | None \<Rightarrow> Inr (unwrap_or [] payload))"

definition handle_incoming_rpc_response ::
    "string \<Rightarrow> string option \<Rightarrow> proto_rpc_error option \<Rightarrow> rpc_state \<Rightarrow> rpc_state" where
  "handle_incoming_rpc_response request_id payload error st =
     (case rp_pending_responses st request_id of
        Some tx \<Rightarrow>
          update_call tx (\<lambda>c. c\<lparr>rc_response := Val (response_result payload error)\<rparr>)
            (st\<lparr>rp_pending_responses := (rp_pending_responses st)(request_id := None)\<rparr>)
      | None \<Rightarrow> st)"

definition register_rpc_method :: "string \<Rightarrow> rpc_handler \<Rightarrow> rpc_state \<Rightarrow> rpc_state" where
  "register_rpc_method method handler st = st\<lparr>rp_handlers := (rp_handlers st)(method \<mapsto> handler)\<rparr>"

definition unregister_rpc_method :: "string \<Rightarrow> rpc_state \<Rightarrow> rpc_state" where
  "unregister_rpc_method method st = st\<lparr>rp_handlers := (rp_handlers st)(method := None)\<rparr>"

section \<open>Incoming requests\<close>

definition rpc_ack_packet :: "string \<Rightarrow> string \<Rightarrow> data_packet" where
  "rpc_ack_packet destination_identity request_id =
     default_packet\<lparr>dp_value := Some (RpcAckValue \<lparr>pra_request_id = request_id\<rparr>),
       dp_destination_identities := [destination_identity]\<rparr>"

text \<open>\<open>publish_rpc_response\<close>: \<open>None\<close> is the unwrap of a payload that is not there.\<close>

definition rpc_response_packet ::
    "string \<Rightarrow> string \<Rightarrow> string option \<Rightarrow> proto_rpc_error option \<Rightarrow> data_packet option" where
  "rpc_response_packet destination_identity request_id payload error =
     map_option (\<lambda>value. default_packet
         \<lparr>dp_value := Some (RpcResponseValue \<lparr>prs_request_id = request_id, prs_value = Some value\<rparr>),
          dp_destination_identities := [destination_identity]\<rparr>)
       (case error of Some e \<Rightarrow> Some (RpcErr e) | None \<Rightarrow> map_option RpcPayload payload)"

definition invoke_handler ::
    "rpc_state \<Rightarrow> participant_identity \<Rightarrow> string \<Rightarrow> string \<Rightarrow> string \<Rightarrow> nat \<Rightarrow> u32 \<Rightarrow>
     rpc_error + string" where
  "invoke_handler st caller_identity request_id method payload response_timeout version =
     (if version \<noteq> 1 then Inl (built_in UnsupportedVersion None)
      else case rp_handlers st method of
        Some handler \<Rightarrow>
          (case handler \<lparr>ri_request_id = request_id, ri_caller_identity = caller_identity,
                 ri_payload = payload, ri_response_timeout = response_timeout\<rparr> of
             Some result \<Rightarrow> result
           | None \<Rightarrow> Inl (built_in ApplicationError None))
      | None \<Rightarrow> Inl (built_in UnsupportedMethod None))"

definition limit_response :: "rpc_error + string \<Rightarrow> string option \<times> rpc_error option" where
  "limit_response response =
     (case response of
        Inr response_payload \<Rightarrow>
          if length response_payload \<le> MAX_PAYLOAD_BYTES then (Some response_payload, None)
          else (None, Some (built_in ResponsePayloadTooLarge None))
      | Inl e \<Rightarrow> (None, Some e))"

text \<open>
  The handler of a request publishes an ack and then the response; a publish that fails is logged
  and changes nothing. The result is the packets it tries to publish, in order.
\<close>

definition handle_incoming_rpc_request ::
    "rpc_state \<Rightarrow> participant_identity \<Rightarrow> string \<Rightarrow> string \<Rightarrow> string \<Rightarrow> nat \<Rightarrow> u32 \<Rightarrow>
     data_packet list option" where
  "handle_incoming_rpc_request st caller_identity request_id method payload response_timeout version =
     (let response = invoke_handler st caller_identity request_id method payload response_timeout version;
          (payload', error) = limit_response response
      in map_option (\<lambda>packet. [rpc_ack_packet caller_identity request_id, packet])
           (rpc_response_packet caller_identity request_id payload'
             (map_option rpc_error_to_proto error)))"

section \<open>Runs\<close>

datatype (plugins only: code size) rpc_event =
    Perform "string \<Rightarrow> bool option" "string option" string perform_rpc_data
  | Published string "string + unit"
  | Wake string wake
  | IncomingAck string
  | IncomingResponse string "string option" "proto_rpc_error option"
  | Register string rpc_handler
  | Unregister string

definition published_step :: "string \<Rightarrow> string + unit \<Rightarrow> rpc_state \<Rightarrow> rpc_state" where
  "published_step i result st =
     (case rp_calls st i of
        Some c \<Rightarrow> if rc_phase c = Publishing then request_published i result st else st
      | None \<Rightarrow> st)"

fun rpc_step :: "rpc_event \<Rightarrow> rpc_state \<Rightarrow> rpc_state" where
  "rpc_step (Perform older v i data) st =
     (case perform_rpc older v i data st of None \<Rightarrow> st | Some (st', _) \<Rightarrow> st')"
| "rpc_step (Published i result) st = published_step i result st"
| "rpc_step (Wake i w) st = wake_call i w st"
| "rpc_step (IncomingAck i) st = handle_incoming_rpc_ack i st"
| "rpc_step (IncomingResponse i p e) st = handle_incoming_rpc_response i p e st"
| "rpc_step (Register m h) st = register_rpc_method m h st"
| "rpc_step (Unregister m) st = unregister_rpc_method m st"

fun performed :: "rpc_event list \<Rightarrow> string list" where
  "performed [] = []"
| "performed (Perform older v i data # es) = i # performed es"
| "performed (_ # es) = performed es"

section \<open>Lemmas\<close>

subsection \<open>Truncation\<close>

lemma truncate_loop_prefix:
  "length result \<le> n \<Longrightarrow>
   \<exists>k \<le> length cs. truncate_loop n result cs = result @ concat (take k cs)
     \<and> length (truncate_loop n result cs) \<le> n
     \<and> (k < length cs \<longrightarrow> n < length (truncate_loop n result cs @ cs ! k))"
proof (induction cs arbitrary: result)
  case (Cons c cs)
  show ?case
  proof (cases "n < length (result @ c)")
    case True
    with Cons.prems show ?thesis by (intro exI [of _ 0]) simp
  next
    case False
    then have "length (result @ c) \<le> n" by simp
    from Cons.IH [OF this] obtain k where
      "k \<le> length cs" "truncate_loop n (result @ c) cs = (result @ c) @ concat (take k cs)"
      "length (truncate_loop n (result @ c) cs) \<le> n"
      "k < length cs \<longrightarrow> n < length (truncate_loop n (result @ c) cs @ cs ! k)" by blast
    with False show ?thesis by (intro exI [of _ "Suc k"]) simp
  qed
qed simp

lemma str_chars_concat:
  assumes "valid_utf8 (as_bytes s)"
  shows "concat (str_chars s) = s \<and> (\<forall>c \<in> set (str_chars s). is_char (as_bytes c))"
proof -
  from assms obtain cs where cs: "utf8_chars (as_bytes s) = Some cs"
    by (auto simp: valid_utf8_def)
  have "concat (map of_bytes xs) = of_bytes (concat xs)" for xs
    by (induction xs) (auto simp: of_bytes_def)
  then show ?thesis
    using utf8_chars_concat [OF cs] cs by (auto simp: str_chars_def list_all_iff)
qed

lemma truncate_bytes_le:
  "length (truncate_bytes s n) \<le> n"
  using truncate_loop_prefix [of "[]" n "str_chars s"] by (auto simp: truncate_bytes_def)

lemma truncate_bytes_short [simp]: "length s \<le> n \<Longrightarrow> truncate_bytes s n = s"
  by (simp add: truncate_bytes_def)

subsection \<open>Invariant of the pending tables\<close>

text \<open>
  What the two tables and the channels of a call say in each phase, in a run that has handled the
  events \<open>es\<close>.
\<close>

definition answered :: "rpc_event list \<Rightarrow> string \<Rightarrow> rpc_error + string \<Rightarrow> bool" where
  "answered es i r \<longleftrightarrow> (\<exists>p e. IncomingResponse i p e \<in> set es \<and> r = response_result p e)"

definition response_ok :: "rpc_event list \<Rightarrow> rpc_state \<Rightarrow> string \<Rightarrow> rpc_call \<Rightarrow> bool" where
  "response_ok es st i c \<longleftrightarrow>
     rc_response c = NoValue \<and> rp_pending_responses st i = Some i
     \<or> (\<exists>r. rc_response c = Val r \<and> rp_pending_responses st i = None \<and> answered es i r)"

definition local_failure :: "rpc_error \<Rightarrow> bool" where
  "local_failure e \<longleftrightarrow> (\<exists>code data. e = built_in code data \<and> code \<noteq> RecipientDisconnected)"

definition result_ok :: "rpc_event list \<Rightarrow> string \<Rightarrow> rpc_error + string \<Rightarrow> bool" where
  "result_ok es i r \<longleftrightarrow>
     (\<exists>e. r = Inl e \<and> local_failure e) \<or> (IncomingAck i \<in> set es \<and> answered es i r)"

definition call_ok :: "rpc_event list \<Rightarrow> rpc_state \<Rightarrow> string \<Rightarrow> rpc_call \<Rightarrow> bool" where
  "call_ok es st i c \<longleftrightarrow>
     (case rc_phase c of
        Publishing \<Rightarrow> rc_ack c = NoValue \<and> rc_response c = NoValue
          \<and> rp_pending_acks st i = None \<and> rp_pending_responses st i = None
      | AwaitAck \<Rightarrow>
          (rc_ack c = NoValue \<and> rp_pending_acks st i = Some i
           \<or> rc_ack c = Val () \<and> rp_pending_acks st i = None \<and> IncomingAck i \<in> set es)
          \<and> response_ok es st i c
      | AwaitResponse \<Rightarrow> rp_pending_acks st i = None \<and> IncomingAck i \<in> set es
          \<and> response_ok es st i c
      | Finished r \<Rightarrow> rp_pending_acks st i = None \<and> rp_pending_responses st i = None
          \<and> result_ok es i r)"

definition id_ok :: "rpc_event list \<Rightarrow> rpc_state \<Rightarrow> string \<Rightarrow> bool" where
  "id_ok es st i \<longleftrightarrow>
     (case rp_calls st i of
        None \<Rightarrow> rp_pending_acks st i = None \<and> rp_pending_responses st i = None
      | Some c \<Rightarrow> call_ok es st i c)"

lemma event_mono:
  "answered es i r \<Longrightarrow> answered (es @ fs) i r"
  "response_ok es st i c \<Longrightarrow> response_ok (es @ fs) st i c"
  "result_ok es i r \<Longrightarrow> result_ok (es @ fs) i r"
  by (auto simp: answered_def response_ok_def result_ok_def)

lemma call_ok_mono: "call_ok es st i c \<Longrightarrow> call_ok (es @ fs) st i c"
  by (auto simp: call_ok_def event_mono split: rpc_phase.splits)

lemma id_ok_mono: "id_ok es st i \<Longrightarrow> id_ok (es @ fs) st i"
  by (auto simp: id_ok_def call_ok_mono split: option.splits)

text \<open>Only the parts of the state under the id matter.\<close>

lemma id_ok_frame:
  assumes "id_ok es st i" "rp_calls st' i = rp_calls st i"
    "rp_pending_acks st' i = rp_pending_acks st i"
    "rp_pending_responses st' i = rp_pending_responses st i"
  shows "id_ok es st' i"
  using assms unfolding id_ok_def call_ok_def response_ok_def
  by (simp split: option.splits rpc_phase.splits)

fun event_id :: "rpc_event \<Rightarrow> string option" where
  "event_id (Perform older v i data) = Some i"
| "event_id (Published i result) = Some i"
| "event_id (Wake i w) = Some i"
| "event_id (IncomingAck i) = Some i"
| "event_id (IncomingResponse i p e) = Some i"
| "event_id (Register m h) = None"
| "event_id (Unregister m) = None"

lemma built_in_local: "code \<noteq> RecipientDisconnected \<Longrightarrow> local_failure (built_in code data)"
  by (auto simp: local_failure_def)

lemma result_ok_local: "code \<noteq> RecipientDisconnected \<Longrightarrow> result_ok es i (Inl (built_in code data))"
  by (simp add: result_ok_def built_in_local)

lemma checks_local:
  "perform_rpc_checks older v data = Some (Inl e) \<Longrightarrow> local_failure e"
  by (auto simp: perform_rpc_checks_def built_in_local split: if_splits option.splits)

lemma step_id_perform:
  assumes "id_ok es st i" "rp_calls st i = None"
  shows "id_ok (es @ [Perform older v i data]) (rpc_step (Perform older v i data) st) i"
  using assms checks_local [of older v data]
  by (auto simp: perform_rpc_def Let_def id_ok_def call_ok_def result_ok_def
      split: option.splits sum.splits)

lemma step_id_published:
  assumes "id_ok es st i"
  shows "id_ok (es @ [Published i result]) (rpc_step (Published i result) st) i"
  using assms id_ok_mono [OF assms, of "[Published i result]"]
  by (auto simp: published_step_def request_published_def finish_call_def update_call_def
      id_ok_def call_ok_def response_ok_def result_ok_local split: option.splits sum.splits)

lemma step_id_wake:
  assumes "id_ok es st i"
  shows "id_ok (es @ [Wake i w]) (rpc_step (Wake i w) st) i"
proof (cases "rp_calls st i")
  case None
  with id_ok_mono [OF assms] show ?thesis by (simp add: wake_call_def)
next
  case (Some c)
  have ok: "call_ok (es @ [Wake i w]) st i c"
    using id_ok_mono [OF assms, of "[Wake i w]"] Some by (simp add: id_ok_def)
  show ?thesis
  proof (cases "rc_phase c")
    case AwaitAck
    with Some ok show ?thesis
      by (cases w) (auto simp: wake_call_def ack_wait_elapsed_def ack_wait_done_def finish_call_def
          update_call_def id_ok_def call_ok_def response_ok_def result_ok_local)
  next
    case AwaitResponse
    with Some ok show ?thesis
      by (cases w) (auto simp: wake_call_def response_wait_elapsed_def response_wait_done_def
          finish_call_def update_call_def id_ok_def call_ok_def response_ok_def result_ok_local
          result_ok_def built_in_local split: sum.splits)
  qed (use Some ok in \<open>auto simp: wake_call_def id_ok_def\<close>)
qed

lemma step_id_ack:
  assumes "id_ok es st i"
  shows "id_ok (es @ [IncomingAck i]) (rpc_step (IncomingAck i) st) i"
proof -
  have ok: "id_ok (es @ [IncomingAck i]) st i" by (rule id_ok_mono [OF assms])
  then show ?thesis
    by (auto simp: handle_incoming_rpc_ack_def update_call_def id_ok_def call_ok_def response_ok_def
        split: option.splits rpc_phase.splits)
qed

lemma step_id_response:
  assumes "id_ok es st i"
  shows "id_ok (es @ [IncomingResponse i p e]) (rpc_step (IncomingResponse i p e) st) i"
proof -
  have ok: "id_ok (es @ [IncomingResponse i p e]) st i" by (rule id_ok_mono [OF assms])
  moreover have "answered (es @ [IncomingResponse i p e]) i (response_result p e)"
    by (auto simp: answered_def)
  ultimately show ?thesis
    by (auto simp: handle_incoming_rpc_response_def update_call_def id_ok_def call_ok_def
        response_ok_def split: option.splits rpc_phase.splits)
qed

text \<open>A step of one id does not touch another.\<close>

lemma step_other:
  assumes "event_id e \<noteq> Some i" "\<forall>j. id_ok es st j"
  shows "rp_calls (rpc_step e st) i = rp_calls st i
    \<and> rp_pending_acks (rpc_step e st) i = rp_pending_acks st i
    \<and> rp_pending_responses (rpc_step e st) i = rp_pending_responses st i"
proof -
  have keys: "rp_pending_acks st j = Some k \<Longrightarrow> k = j"
    "rp_pending_responses st j = Some k \<Longrightarrow> k = j" for j k
    using assms(2) [THEN spec, of j]
    by (auto simp: id_ok_def call_ok_def response_ok_def split: option.splits rpc_phase.splits)
  show ?thesis
    using assms(1) keys
    by (cases e) (auto simp: perform_rpc_def Let_def published_step_def request_published_def
        wake_call_def ack_wait_elapsed_def ack_wait_done_def response_wait_elapsed_def
        response_wait_done_def finish_call_def update_call_def handle_incoming_rpc_ack_def
        handle_incoming_rpc_response_def register_rpc_method_def unregister_rpc_method_def
        split: option.splits sum.splits rpc_phase.splits oneshot.splits wake.splits)
qed

lemma performed_append [simp]: "performed (es @ fs) = performed es @ performed fs"
  by (induction es rule: performed.induct) auto

lemma step_calls: "rp_calls (rpc_step e st) i \<noteq> None \<Longrightarrow>
   rp_calls st i \<noteq> None \<or> i \<in> set (performed [e])"
  by (cases e) (auto simp: perform_rpc_def Let_def published_step_def request_published_def
      wake_call_def ack_wait_elapsed_def ack_wait_done_def response_wait_elapsed_def
      response_wait_done_def finish_call_def update_call_def handle_incoming_rpc_ack_def
      handle_incoming_rpc_response_def register_rpc_method_def unregister_rpc_method_def
      split: option.splits sum.splits rpc_phase.splits oneshot.splits wake.splits if_splits)

definition rpc_run :: "rpc_event list \<Rightarrow> rpc_state" where
  "rpc_run es = fold rpc_step es rpc_new"

lemma rpc_run_snoc [simp]: "rpc_run (es @ [e]) = rpc_step e (rpc_run es)"
  by (simp add: rpc_run_def)

lemma rpc_run_calls: "rp_calls (rpc_run es) i \<noteq> None \<Longrightarrow> i \<in> set (performed es)"
proof (induction es rule: rev_induct)
  case (snoc e es)
  then show ?case using step_calls [of e "rpc_run es" i] by auto
qed (simp add: rpc_run_def rpc_new_def)

lemma rpc_run_ok: "distinct (performed es) \<Longrightarrow> id_ok es (rpc_run es) i"
proof (induction es arbitrary: i rule: rev_induct)
  case Nil
  show ?case by (simp add: rpc_run_def rpc_new_def id_ok_def)
next
  case (snoc e es i)
  have ok: "id_ok es (rpc_run es) j" for j using snoc by simp
  show ?case
  proof (cases "event_id e = Some i")
    case True
    have new: "rp_calls (rpc_run es) i = None" if "i \<in> set (performed [e])"
      using rpc_run_calls [of es i] snoc.prems that by auto
    show ?thesis
      using True ok [of i] new
      by (cases e) (auto simp del: rpc_step.simps intro: step_id_perform step_id_published
          step_id_wake step_id_ack step_id_response)
  next
    case False
    then show ?thesis
      using step_other [OF False] ok
      by (intro id_ok_frame [OF id_ok_mono [OF ok [of i]]]) auto
  qed
qed

text \<open>What the two packets of a request handler are to the caller.\<close>

definition rpc_deliver :: "data_packet \<Rightarrow> rpc_event list" where
  "rpc_deliver p =
     (case dp_value p of
        Some (RpcAckValue a) \<Rightarrow> [IncomingAck (pra_request_id a)]
      | Some (RpcResponseValue r) \<Rightarrow>
          (case prs_value r of
             None \<Rightarrow> [IncomingResponse (prs_request_id r) None None]
           | Some (RpcPayload payload) \<Rightarrow> [IncomingResponse (prs_request_id r) (Some payload) None]
           | Some (RpcErr e) \<Rightarrow> [IncomingResponse (prs_request_id r) None (Some e)])
      | _ \<Rightarrow> [])"

text \<open>The value a request is answered with.\<close>

definition answer_value :: "rpc_error + string \<Rightarrow> rpc_response_value" where
  "answer_value response =
     (case response of
        Inr p \<Rightarrow> if length p \<le> MAX_PAYLOAD_BYTES then RpcPayload p
               else RpcErr (rpc_error_to_proto (built_in ResponsePayloadTooLarge None))
      | Inl e \<Rightarrow> RpcErr (rpc_error_to_proto e))"

definition answer_packet :: "string \<Rightarrow> string \<Rightarrow> rpc_response_value \<Rightarrow> data_packet" where
  "answer_packet destination i v =
     default_packet\<lparr>dp_value := Some (RpcResponseValue \<lparr>prs_request_id = i, prs_value = Some v\<rparr>),
       dp_destination_identities := [destination]\<rparr>"

lemma handle_request_packets:
  "handle_incoming_rpc_request st caller i m p t v =
     Some [rpc_ack_packet caller i,
       answer_packet caller i (answer_value (invoke_handler st caller i m p t v))]"
  by (auto simp: handle_incoming_rpc_request_def limit_response_def rpc_response_packet_def
      answer_packet_def answer_value_def Let_def split: sum.splits)

lemma error_roundtrip:
  "rpc_error_from_proto (rpc_error_to_proto (rpc_error_new code message (Some data)))
     = rpc_error_new code message (Some data)"
  by (simp add: rpc_error_from_proto_def rpc_error_to_proto_def rpc_error_new_def truncate_bytes_le)

definition caller_result :: "rpc_response_value \<Rightarrow> rpc_error + string" where
  "caller_result v =
     (case v of RpcPayload p \<Rightarrow> Inr p | RpcErr e \<Rightarrow> Inl (rpc_error_from_proto e))"

lemma deliver_answer:
  assumes "rp_calls st i = Some c" "rc_phase c = AwaitAck" "rc_ack c = NoValue"
    "rc_response c = NoValue" "rp_pending_acks st i = Some i" "rp_pending_responses st i = Some i"
  shows "\<exists>c'. rp_calls (fold rpc_step (concat (map rpc_deliver
      [rpc_ack_packet caller i, answer_packet caller i v]) @ [Wake i Ready, Wake i Ready]) st) i
      = Some c' \<and> rc_phase c' = Finished (caller_result v)"
  using assms
  by (cases v) (simp_all add: rpc_deliver_def rpc_ack_packet_def answer_packet_def
      default_packet_def handle_incoming_rpc_ack_def handle_incoming_rpc_response_def update_call_def
      wake_call_def ack_wait_done_def response_wait_done_def finish_call_def response_result_def
      caller_result_def)

section \<open>Properties\<close>

text \<open>
  \<open>truncate_bytes\<close> never exceeds its bound, never splits a character, yields a prefix of the
  text, and is maximal: when it drops anything, the next character would not have fitted.
\<close>

theorem truncate_bytes_correct:
  assumes "valid_utf8 (as_bytes s)"
  shows "length (truncate_bytes s n) \<le> n \<and> valid_utf8 (as_bytes (truncate_bytes s n))
    \<and> (\<exists>k. truncate_bytes s n = concat (take k (str_chars s))
        \<and> (truncate_bytes s n \<noteq> s \<longrightarrow>
            k < length (str_chars s) \<and> n < length (truncate_bytes s n @ str_chars s ! k)))"
proof -
  let ?cs = "str_chars s"
  from str_chars_concat [OF assms] have s: "concat ?cs = s" "\<forall>c \<in> set ?cs. is_char (as_bytes c)"
    by simp_all
  obtain k where k: "k \<le> length ?cs" "truncate_bytes s n = concat (take k ?cs)"
    "truncate_bytes s n \<noteq> s \<longrightarrow> k < length ?cs \<and> n < length (truncate_bytes s n @ ?cs ! k)"
  proof (cases "length s \<le> n")
    case True
    then show thesis using that [of "length ?cs"] s(1) by simp
  next
    case False
    with truncate_loop_prefix [of "[]" n ?cs] obtain k where
      "k \<le> length ?cs" "truncate_bytes s n = concat (take k ?cs)"
      "k < length ?cs \<longrightarrow> n < length (truncate_bytes s n @ ?cs ! k)"
      by (auto simp: truncate_bytes_def)
    then show thesis using that [of k] s(1) by (metis le_neq_implies_less take_all_iff)
  qed
  have cat: "as_bytes (concat xs) = concat (map as_bytes xs)" for xs
    by (induction xs) (auto simp: as_bytes_def)
  have "valid_utf8 (as_bytes (truncate_bytes s n))"
    unfolding k(2) cat using s(2)
    by (intro valid_utf8_concat) (auto simp: list_all_iff dest: in_set_takeD)
  then show ?thesis using k truncate_bytes_le by blast
qed

theorem truncate_bytes_correct_witness:
  "length (truncate_bytes ''abc'' 2) \<le> 2 \<and> valid_utf8 (as_bytes (truncate_bytes ''abc'' 2))"
proof -
  have "list_all is_char [[0x61], [0x62], [0x63]]" by (simp add: is_char_def utf8_width_def)
  from valid_utf8_concat [OF this] have "valid_utf8 (as_bytes ''abc'')"
    by (simp add: as_bytes_def of_char_def)
  from truncate_bytes_correct [OF this, of 2] show ?thesis by simp
qed

text \<open>
  C9. The result of a call is its own: with fresh request ids, whatever the interleaving of
  calls, timers, acks and responses, a finished call has left no entry in either pending table,
  and its result is an error made locally or what a response to its own id said, after an ack for
  it; the error that the recipient disconnected is never made locally.
\<close>

theorem rpc_results_own:
  assumes "distinct (performed es)" and "rp_calls (rpc_run es) i = Some c"
    and "rc_phase c = Finished r"
  shows "rp_pending_acks (rpc_run es) i = None \<and> rp_pending_responses (rpc_run es) i = None
    \<and> ((\<exists>code data. r = Inl (built_in code data) \<and> code \<noteq> RecipientDisconnected)
        \<or> (IncomingAck i \<in> set es
            \<and> (\<exists>p e. IncomingResponse i p e \<in> set es \<and> r = response_result p e)))"
  using rpc_run_ok [OF assms(1), of i] assms(2,3)
  by (auto simp: id_ok_def call_ok_def result_ok_def local_failure_def answered_def)

definition example_call :: perform_rpc_data where
  "example_call = \<lparr>pd_destination_identity = ''bob'', pd_method = ''m'', pd_payload = ''p'',
     pd_response_timeout = 10000\<rparr>"

lemmas rpc_eval = rpc_run_def rpc_new_def perform_rpc_def perform_rpc_checks_def example_call_def
  MAX_PAYLOAD_BYTES_def published_step_def request_published_def update_call_def wake_call_def
  ack_wait_elapsed_def ack_wait_done_def response_wait_elapsed_def response_wait_done_def
  finish_call_def handle_incoming_rpc_ack_def handle_incoming_rpc_response_def response_result_def
  Let_def

theorem rpc_results_own_witness:
  "rp_pending_responses (rpc_run [Perform (\<lambda>_. None) None ''r'' example_call,
     Published ''r'' (Inr ()), IncomingAck ''r'', IncomingResponse ''r'' (Some ''ok'') None,
     Wake ''r'' Ready, Wake ''r'' Ready]) ''r'' = None"
  using rpc_results_own [of "[Perform (\<lambda>_. None) None ''r'' example_call,
     Published ''r'' (Inr ()), IncomingAck ''r'', IncomingResponse ''r'' (Some ''ok'') None,
     Wake ''r'' Ready, Wake ''r'' Ready]" "''r''"
     "\<lparr>rc_response_timeout = 10000, rc_phase = Finished (Inr ''ok''), rc_ack = Val (),
       rc_response = Val (Inr ''ok'')\<rparr>" "Inr ''ok''"]
  by (simp add: rpc_eval)

text \<open>
  An ack can come too early: the pending tables are filled only after the publish returned,
  so an ack handled before that is dropped; the state is as if it had not come, and unless a second
  ack arrives the call fails with a local error even when the recipient answers it.
\<close>

theorem early_ack_lost:
  assumes "distinct (performed (es @ fs))"
    and "rp_calls (rpc_run es) i = Some c" and "rc_phase c = Publishing"
    and "IncomingAck i \<notin> set (es @ fs)"
  shows "rpc_run (es @ IncomingAck i # fs) = rpc_run (es @ fs)
    \<and> (\<forall>c' r. rp_calls (rpc_run (es @ IncomingAck i # fs)) i = Some c' \<longrightarrow> rc_phase c' = Finished r \<longrightarrow>
        (\<exists>code data. r = Inl (built_in code data)))"
proof -
  have "distinct (performed es)" using assms(1) by simp
  from rpc_run_ok [OF this, of i] assms(2,3) have "rp_pending_acks (rpc_run es) i = None"
    by (simp add: id_ok_def call_ok_def)
  then have eq: "rpc_run (es @ IncomingAck i # fs) = rpc_run (es @ fs)"
    by (simp add: rpc_run_def handle_incoming_rpc_ack_def)
  have "\<exists>code data. r = Inl (built_in code data)"
    if "rp_calls (rpc_run (es @ fs)) i = Some c'" "rc_phase c' = Finished r" for c' r
    using rpc_run_ok [OF assms(1), of i] that assms(4)
    by (auto simp: id_ok_def call_ok_def result_ok_def local_failure_def)
  with eq show ?thesis by simp
qed

theorem early_ack_lost_witness:
  "\<exists>code data. map_option rc_phase (rp_calls (rpc_run ([Perform (\<lambda>_. None) None ''r'' example_call]
      @ IncomingAck ''r'' # [Published ''r'' (Inr ()), IncomingResponse ''r'' (Some ''ok'') None,
        Wake ''r'' Timer])) ''r'') = Some (Finished (Inl (built_in code data)))"
proof -
  let ?es = "[Perform (\<lambda>_. None) None ''r'' example_call]"
  let ?fs = "[Published ''r'' (Inr ()), IncomingResponse ''r'' (Some ''ok'') None, Wake ''r'' Timer]"
  have "rp_calls (rpc_run ?es) ''r'' = Some \<lparr>rc_response_timeout = 10000, rc_phase = Publishing,
      rc_ack = NoValue, rc_response = NoValue\<rparr>" by (simp add: rpc_eval)
  from early_ack_lost [OF _ this, of ?fs] have
    eq: "rpc_run (?es @ IncomingAck ''r'' # ?fs) = rpc_run (?es @ ?fs)" by simp
  show ?thesis unfolding eq by (intro exI) (simp add: rpc_eval)
qed

text \<open>
  A request is always answered, with an ack and then one response, both to the caller and for
  its request id: an unsupported version, an unknown method, a panicking handler and an oversized
  result are answered with their errors, an error of the handler is passed on, and a payload that
  is sent is within the limit.
\<close>

theorem rpc_request_answered:
  "\<exists>v. handle_incoming_rpc_request st caller i method payload timeout version
      = Some [rpc_ack_packet caller i, answer_packet caller i v]
    \<and> v = (if version \<noteq> 1 then RpcErr (rpc_error_to_proto (built_in UnsupportedVersion None))
        else case rp_handlers st method of
          None \<Rightarrow> RpcErr (rpc_error_to_proto (built_in UnsupportedMethod None))
        | Some handler \<Rightarrow>
            (case handler \<lparr>ri_request_id = i, ri_caller_identity = caller, ri_payload = payload,
                ri_response_timeout = timeout\<rparr> of
               None \<Rightarrow> RpcErr (rpc_error_to_proto (built_in ApplicationError None))
             | Some (Inl e) \<Rightarrow> RpcErr (rpc_error_to_proto e)
             | Some (Inr p) \<Rightarrow>
                 if MAX_PAYLOAD_BYTES < length p
                 then RpcErr (rpc_error_to_proto (built_in ResponsePayloadTooLarge None))
                 else RpcPayload p))"
  by (auto simp: handle_request_packets answer_value_def invoke_handler_def
      split: option.splits sum.splits)

text \<open>
  C3. A call goes round undisturbed: a call that passes its checks (payload and version) publishes a
  request; when the publishing is done, the packets the recipient's handler publishes for it come back in
  their order, and the call wakes up, it finishes with the payload the method returned, of at most
  \<open>MAX_PAYLOAD_BYTES\<close>, or with the error it made by \<open>RpcError::new\<close> with data, unchanged. Nothing is
  claimed for other orders; \<open>early_ack_lost\<close> is one in which the call fails.
\<close>

theorem rpc_call_roundtrip:
  assumes "distinct (performed es)" and "i \<notin> set (performed es)"
    and "perform_rpc_checks older v data = Some (Inr ())"
    and "rp_handlers callee (pd_method data) = Some handler"
    and "handler \<lparr>ri_request_id = i, ri_caller_identity = caller, ri_payload = pd_payload data,
        ri_response_timeout = unat (of_nat (pd_response_timeout data) :: u32)\<rparr> = Some result"
    and "(\<exists>p. result = Inr p \<and> length p \<le> MAX_PAYLOAD_BYTES)
      \<or> (\<exists>code m d. result = Inl (rpc_error_new code m (Some d)))"
  shows "\<exists>st' request q packets c. perform_rpc older v i data (rpc_run es) = Some (st', [request])
    \<and> dp_value request = Some (RpcRequestValue q)
    \<and> handle_incoming_rpc_request callee caller (prq_id q) (prq_method q) (prq_payload q)
        (unat (prq_response_timeout_ms q)) (prq_version q) = Some packets
    \<and> rp_calls (fold rpc_step ([Published i (Inr ())] @ concat (map rpc_deliver packets)
        @ [Wake i Ready, Wake i Ready]) st') i = Some c
    \<and> rc_phase c = Finished result"
proof -
  obtain st' where st': "perform_rpc older v i data (rpc_run es) = Some (st', [rpc_request_packet i data])"
    "st' = rpc_step (Perform older v i data) (rpc_run es)"
    using assms(3) by (simp add: perform_rpc_def Let_def)
  let ?st = "rpc_step (Published i (Inr ())) st'"
  obtain c where c: "rp_calls ?st i = Some c" "rc_phase c = AwaitAck" "rc_ack c = NoValue"
    "rc_response c = NoValue" "rp_pending_acks ?st i = Some i" "rp_pending_responses ?st i = Some i"
    using st'(1) assms(3)
    by (auto simp: perform_rpc_def Let_def published_step_def request_published_def update_call_def)
  have "caller_result (answer_value result) = result"
    using assms(6) error_roundtrip by (auto simp: caller_result_def answer_value_def)
  moreover have "invoke_handler callee caller i (pd_method data) (pd_payload data)
      (unat (of_nat (pd_response_timeout data) :: u32)) 1 = result"
    using assms(4,5) by (simp add: invoke_handler_def)
  ultimately show ?thesis
    using deliver_answer [OF c, of caller "answer_value result"] st'(1)
    by (auto simp: rpc_request_packet_def handle_request_packets)
qed

theorem rpc_call_roundtrip_witness:
  "\<exists>st' request. perform_rpc (\<lambda>_. None) None ''r'' example_call (rpc_run []) = Some (st', [request])"
  using rpc_call_roundtrip [of "[]" "''r''" "\<lambda>_. None" None example_call
      "rpc_new\<lparr>rp_handlers := [''m'' \<mapsto> (\<lambda>_. Some (Inr ''ok''))]\<rparr>" "\<lambda>_. Some (Inr ''ok'')" "''bob''" "Inr ''ok''"]
  by (auto simp: perform_rpc_checks_def example_call_def MAX_PAYLOAD_BYTES_def)

end
