(* ===== verification/DataChannel.thy ===== *)
theory DataChannel
  imports Proto TxQueue TtlMap "HOL-Library.Multiset"
begin

text \<open>
  The data channel task of a session (\<open>livekit/src/rtc_engine/rtc_session.rs\<close>): it numbers
  reliable packets, sends the queued ones while the buffer of the channel is at or below the low
  threshold, answers the publisher of each packet, and keeps sent reliable packets for a retry
  after a reconnect.

  The WebRTC data channel and the \<open>prost\<close> encoder are outside the repository: \<open>dc_env\<close> holds the
  encoding and the result of the n-th call of \<open>send\<close>. The task both reads \<open>dc_events\<close> and writes to
  it (\<open>dc_emitter\<close>), so the channel is part of the state. \<open>dt_wire\<close> and \<open>dt_completed\<close> record what
  was handed to the data channels and what the publishers were answered.
\<close>

section \<open>Model\<close>

record encoded_packet =
  ep_data :: "byte list"
  ep_sequence :: u32

definition ep_size :: "encoded_packet \<Rightarrow> nat" where
  "ep_size p = length (ep_data p)"

record publish_data_request =
  pr_encoded_packet :: encoded_packet
  pr_completion_tx :: "nat option"

datatype (plugins only: code size) dc_event_detail =
    PublishPacket data_packet nat
  | PublishData publish_data_request
  | BufferedAmountChange u64
  | RetryFrom u32

record dc_event =
  de_kind :: data_packet_kind
  de_detail :: dc_event_detail

record dc_env =
  env_encode :: "data_packet \<Rightarrow> byte list"
  env_send :: "nat \<Rightarrow> data_packet_kind \<Rightarrow> byte list \<Rightarrow> string + unit"

record dc_output =
  do_wire :: "(data_packet_kind \<times> encoded_packet) list"
  do_completed :: "(nat \<times> (string + unit)) list"

record dc_state =
  dt_lossy_buffered_amount :: u64
  dt_reliable_buffered_amount :: u64
  dt_lossy_queue :: "publish_data_request list"
  dt_reliable_queue :: "publish_data_request list"
  dt_retry_queue :: "encoded_packet tx_queue"
  dt_lossy_threshold :: u64
  dt_reliable_threshold :: u64
  dt_next_packet_sequence :: u32
  dt_events :: "dc_event list"
  dt_out :: dc_output

definition INITIAL_BUFFERED_AMOUNT_LOW_THRESHOLD :: u64 where
  "INITIAL_BUFFERED_AMOUNT_LOW_THRESHOLD = 2 * 1024 * 1024"

definition dc_start :: dc_state where
  "dc_start = \<lparr>dt_lossy_buffered_amount = 0, dt_reliable_buffered_amount = 0,
     dt_lossy_queue = [], dt_reliable_queue = [], dt_retry_queue = tx_new,
     dt_lossy_threshold = INITIAL_BUFFERED_AMOUNT_LOW_THRESHOLD,
     dt_reliable_threshold = INITIAL_BUFFERED_AMOUNT_LOW_THRESHOLD,
     dt_next_packet_sequence = 1, dt_events = [], dt_out = \<lparr>do_wire = [], do_completed = []\<rparr>\<rparr>"

text \<open>\<open>dc_emitter.send(ev)\<close>; the task is running, so its receiver is there.\<close>

definition dc_emit :: "dc_event \<Rightarrow> dc_state \<Rightarrow> dc_state" where
  "dc_emit ev st = st\<lparr>dt_events := dt_events st @ [ev]\<rparr>"

definition encode_packet :: "dc_env \<Rightarrow> data_packet \<Rightarrow> encoded_packet" where
  "encode_packet env packet = \<lparr>ep_data = env_encode env packet, ep_sequence = dp_sequence packet\<rparr>"

text \<open>One round of the loop of \<open>_send_until_threshold\<close>: a packet goes to the channel.\<close>

definition send_request ::
    "dc_env \<Rightarrow> data_packet_kind \<Rightarrow> publish_data_request \<Rightarrow> dc_output \<Rightarrow> dc_output" where
  "send_request env kind request out =
     (let result = env_send env (length (do_wire out)) kind (ep_data (pr_encoded_packet request));
          out' = out\<lparr>do_wire := do_wire out @ [(kind, pr_encoded_packet request)]\<rparr>
      in case pr_completion_tx request of
           Some completion_tx \<Rightarrow>
             out'\<lparr>do_completed := do_completed out' @ [(completion_tx, result)]\<rparr>
         | None \<Rightarrow> out')"

fun send_until_threshold ::
    "dc_env \<Rightarrow> data_packet_kind \<Rightarrow> u64 \<Rightarrow> u64 \<Rightarrow> publish_data_request list \<Rightarrow>
     encoded_packet tx_queue \<Rightarrow> dc_output \<Rightarrow>
     u64 \<times> publish_data_request list \<times> encoded_packet tx_queue \<times> dc_output" where
  "send_until_threshold env kind threshold buffered_amount [] retry_queue out =
     (buffered_amount, [], retry_queue, out)"
| "send_until_threshold env kind threshold buffered_amount (request # rest) retry_queue out =
     (if buffered_amount \<le> threshold then
        send_until_threshold env kind threshold
          (buffered_amount + of_nat (length (ep_data (pr_encoded_packet request)))) rest
          (if kind = Reliable then tx_enqueue ep_size (pr_encoded_packet request) retry_queue
           else retry_queue)
          (send_request env kind request out)
      else (buffered_amount, request # rest, retry_queue, out))"

definition send_lossy :: "dc_env \<Rightarrow> dc_state \<Rightarrow> dc_state" where
  "send_lossy env st =
     (let (b, q, r, out) = send_until_threshold env Lossy (dt_lossy_threshold st)
            (dt_lossy_buffered_amount st) (dt_lossy_queue st) (dt_retry_queue st) (dt_out st)
      in st\<lparr>dt_lossy_buffered_amount := b, dt_lossy_queue := q, dt_retry_queue := r, dt_out := out\<rparr>)"

definition send_reliable :: "dc_env \<Rightarrow> dc_state \<Rightarrow> dc_state" where
  "send_reliable env st =
     (let (b, q, r, out) = send_until_threshold env Reliable (dt_reliable_threshold st)
            (dt_reliable_buffered_amount st) (dt_reliable_queue st) (dt_retry_queue st) (dt_out st)
      in st\<lparr>dt_reliable_buffered_amount := b, dt_reliable_queue := q, dt_retry_queue := r, dt_out := out\<rparr>)"

text \<open>
  \<open>_enqueue_for_retry_from\<close>: the check of the first packet only logs; the loop empties the queue.
\<close>

function retry_loop :: "u32 \<Rightarrow> encoded_packet tx_queue \<Rightarrow> dc_event list \<times> encoded_packet tx_queue" where
  "retry_loop last_sequence q =
     (case tx_dequeue ep_size q of
        (None, q') \<Rightarrow> ([], q')
      | (Some p, q') \<Rightarrow>
          (let (evs, q'') = retry_loop last_sequence q' in
           if ep_sequence p \<le> last_sequence then (evs, q'')
           else (\<lparr>de_kind = Reliable, de_detail = PublishData
                   \<lparr>pr_encoded_packet = p, pr_completion_tx = None\<rparr>\<rparr> # evs, q'')))"
  by pat_completeness auto
termination
  by (relation "measure (\<lambda>(_, q). length (tq_inner q))")
    (auto simp: tx_dequeue_def split: list.splits)

declare retry_loop.simps [simp del]

definition enqueue_for_retry_from :: "u32 \<Rightarrow> dc_state \<Rightarrow> dc_state" where
  "enqueue_for_retry_from last_sequence st =
     (let (evs, q) = retry_loop last_sequence (dt_retry_queue st)
      in st\<lparr>dt_retry_queue := q, dt_events := dt_events st @ evs\<rparr>)"

text \<open>
  One event of \<open>data_channel_task\<close>. \<open>None\<close> is the failed assertion on the kind of a retry, or a
  trim that does not return.
\<close>

definition dc_handle :: "dc_env \<Rightarrow> dc_event \<Rightarrow> dc_state \<Rightarrow> dc_state option" where
  "dc_handle env event st =
     (case de_detail event of
        PublishPacket packet completion_tx \<Rightarrow>
          (let (packet, st) =
             (if de_kind event = Reliable
              then (packet\<lparr>dp_sequence := dt_next_packet_sequence st\<rparr>,
                    st\<lparr>dt_next_packet_sequence := dt_next_packet_sequence st + 1\<rparr>)
              else (packet, st))
           in Some (dc_emit \<lparr>de_kind = de_kind event, de_detail = PublishData
                \<lparr>pr_encoded_packet = encode_packet env packet,
                 pr_completion_tx = Some completion_tx\<rparr>\<rparr> st))
      | PublishData request \<Rightarrow>
          (case de_kind event of
             Lossy \<Rightarrow> Some (send_lossy env (st\<lparr>dt_lossy_queue := dt_lossy_queue st @ [request]\<rparr>))
           | Reliable \<Rightarrow>
               Some (send_reliable env (st\<lparr>dt_reliable_queue := dt_reliable_queue st @ [request]\<rparr>)))
      | BufferedAmountChange sent \<Rightarrow>
          (case de_kind event of
             Lossy \<Rightarrow>
               Some (send_lossy env (st\<lparr>dt_lossy_buffered_amount :=
                 (if dt_lossy_buffered_amount st < sent then 0
                  else dt_lossy_buffered_amount st - sent)\<rparr>))
           | Reliable \<Rightarrow>
               (let st' = send_reliable env (st\<lparr>dt_reliable_buffered_amount :=
                  (if dt_reliable_buffered_amount st < sent then 0
                   else dt_reliable_buffered_amount st - sent)\<rparr>)
                in map_option (\<lambda>q. st'\<lparr>dt_retry_queue := q\<rparr>)
                     (tx_trim ep_size (unat sent) (dt_retry_queue st'))))
      | RetryFrom last_sequence \<Rightarrow>
          (if de_kind event = Reliable then Some (enqueue_for_retry_from last_sequence st)
           else None))"

text \<open>
  A run of the task: events from outside (publishers, the channel's callbacks, the restart of the
  session), turns of the loop, and changes of the thresholds, in any order.
\<close>

datatype (plugins only: code size) dc_action =
    Emit dc_event
  | Turn
  | SetThreshold data_packet_kind u64

definition set_threshold :: "data_packet_kind \<Rightarrow> u64 \<Rightarrow> dc_state \<Rightarrow> dc_state" where
  "set_threshold kind threshold st =
     (case kind of
        Lossy \<Rightarrow> st\<lparr>dt_lossy_threshold := threshold\<rparr>
      | Reliable \<Rightarrow> st\<lparr>dt_reliable_threshold := threshold\<rparr>)"

definition dc_turn :: "dc_env \<Rightarrow> dc_state \<Rightarrow> dc_state option" where
  "dc_turn env st =
     (case dt_events st of
        [] \<Rightarrow> Some st
      | ev # rest \<Rightarrow> dc_handle env ev (st\<lparr>dt_events := rest\<rparr>))"

fun dc_act :: "dc_env \<Rightarrow> dc_action \<Rightarrow> dc_state \<Rightarrow> dc_state option" where
  "dc_act env (Emit ev) st = Some (dc_emit ev st)"
| "dc_act env Turn st = dc_turn env st"
| "dc_act env (SetThreshold kind t) st = Some (set_threshold kind t st)"

fun dc_run :: "dc_env \<Rightarrow> dc_action list \<Rightarrow> dc_state \<Rightarrow> dc_state option" where
  "dc_run env [] st = Some st"
| "dc_run env (a # as) st = Option.bind (dc_act env a st) (dc_run env as)"

section \<open>The receive state of reliable packets\<close>

text \<open>
  \<open>update_packet_rx_state\<close> and \<open>data_channel_receive_states\<close>; \<open>now\<close> is the reading of the clock
  for the look-up and for both readings of the update.
\<close>

definition update_packet_rx_state ::
    "int \<Rightarrow> data_packet \<Rightarrow> (string, u32) ttl_map \<Rightarrow> (string, u32) ttl_map" where
  "update_packet_rx_state now packet rx_state =
     (if dp_sequence packet \<le> 0 \<or> dp_participant_sid packet = [] then rx_state
      else
        let (known, rx_state') = ttl_get now (dp_participant_sid packet) rx_state in
        case known of
          Some last_sequence \<Rightarrow>
            if dp_sequence packet \<le> last_sequence then rx_state'
            else ttl_set now now (dp_participant_sid packet) (Some (dp_sequence packet)) rx_state'
        | None \<Rightarrow>
            ttl_set now now (dp_participant_sid packet) (Some (dp_sequence packet)) rx_state')"

definition data_channel_receive_states ::
    "int \<Rightarrow> (string, u32) ttl_map \<Rightarrow> (string \<times> u32) list \<times> (string, u32) ttl_map" where
  "data_channel_receive_states now rx_state = ttl_iter now rx_state"

section \<open>Publishing\<close>

record session_participant_info =
  spi_sid :: string
  spi_identity :: string

text \<open>
  \<open>publish_data\<close> once the publisher is connected: the packet gets the local identity unless it is
  raw, and is handed to the task with a new completion channel.
\<close>

definition publish_data ::
    "session_participant_info \<Rightarrow> data_packet \<Rightarrow> data_packet_kind \<Rightarrow> bool \<Rightarrow> nat \<Rightarrow> dc_event" where
  "publish_data info packet kind is_raw_packet completion_tx =
     (let packet = (if is_raw_packet then packet
        else packet\<lparr>dp_participant_identity := spi_identity info,
               dp_participant_sid := spi_sid info\<rparr>)
      in \<lparr>de_kind = kind, de_detail = PublishPacket packet completion_tx\<rparr>)"

section \<open>Lemmas\<close>

definition tokens :: "publish_data_request list \<Rightarrow> nat list" where
  "tokens q = concat (map (\<lambda>r. case pr_completion_tx r of None \<Rightarrow> [] | Some c \<Rightarrow> [c]) q)"

lemma tokens_simps [simp]:
  "tokens [] = []"
  "tokens (r # q) = (case pr_completion_tx r of None \<Rightarrow> [] | Some c \<Rightarrow> [c]) @ tokens q"
  "tokens (q @ q') = tokens q @ tokens q'"
  by (simp_all add: tokens_def)

definition wire_of :: "data_packet_kind \<Rightarrow> dc_output \<Rightarrow> encoded_packet list" where
  "wire_of kind out = map snd (filter (\<lambda>(k, _). k = kind) (do_wire out))"

lemma send_request_out:
  "do_wire (send_request env kind r out) = do_wire out @ [(kind, pr_encoded_packet r)]"
  "map fst (do_completed (send_request env kind r out)) = map fst (do_completed out) @ tokens [r]"
  by (simp_all add: send_request_def Let_def split: option.splits)

text \<open>What a round of sending does: a prefix of the queue goes out, in order.\<close>

lemma send_until_threshold_spec:
  assumes "send_until_threshold env kind t b q r out = (b', q', r', out')"
  shows "\<exists>sent. q = sent @ q'
    \<and> do_wire out' = do_wire out @ map (\<lambda>x. (kind, pr_encoded_packet x)) sent
    \<and> map fst (do_completed out') = map fst (do_completed out) @ tokens sent
    \<and> tq_inner r' = tq_inner r @ (if kind = Reliable then map pr_encoded_packet sent else [])
    \<and> (tx_wf ep_size r \<longrightarrow> tx_wf ep_size r')
    \<and> (q' = [] \<or> t < b')"
  using assms
proof (induction q arbitrary: b r out)
  case Nil
  then show ?case by (intro exI [of _ "[]"]) auto
next
  case (Cons x q)
  show ?case
  proof (cases "b \<le> t")
    case False
    with Cons.prems show ?thesis by (intro exI [of _ "[]"]) auto
  next
    case True
    let ?r = "if kind = Reliable then tx_enqueue ep_size (pr_encoded_packet x) r else r"
    from Cons.IH [of "b + of_nat (length (ep_data (pr_encoded_packet x)))" ?r "send_request env kind x out"]
      True Cons.prems
    obtain sent where s: "q = sent @ q'"
      "do_wire out' = do_wire (send_request env kind x out) @ map (\<lambda>x. (kind, pr_encoded_packet x)) sent"
      "map fst (do_completed out') = map fst (do_completed (send_request env kind x out)) @ tokens sent"
      "tq_inner r' = tq_inner ?r @ (if kind = Reliable then map pr_encoded_packet sent else [])"
      "tx_wf ep_size ?r \<longrightarrow> tx_wf ep_size r'" "q' = [] \<or> t < b'"
      by auto
    then show ?thesis
      by (intro exI [of _ "x # sent"]) (auto simp: send_request_out)
  qed
qed

lemma send_reliable_spec:
  "\<exists>sent. dt_reliable_queue st = sent @ dt_reliable_queue (send_reliable env st)
    \<and> do_wire (dt_out (send_reliable env st)) =
       do_wire (dt_out st) @ map (\<lambda>x. (Reliable, pr_encoded_packet x)) sent
    \<and> map fst (do_completed (dt_out (send_reliable env st))) =
       map fst (do_completed (dt_out st)) @ tokens sent
    \<and> tq_inner (dt_retry_queue (send_reliable env st)) = tq_inner (dt_retry_queue st) @ map pr_encoded_packet sent
    \<and> (tx_wf ep_size (dt_retry_queue st) \<longrightarrow> tx_wf ep_size (dt_retry_queue (send_reliable env st)))
    \<and> (dt_reliable_queue (send_reliable env st) = []
       \<or> dt_reliable_threshold st < dt_reliable_buffered_amount (send_reliable env st))"
proof -
  obtain b q r out where e: "send_until_threshold env Reliable (dt_reliable_threshold st)
      (dt_reliable_buffered_amount st) (dt_reliable_queue st) (dt_retry_queue st) (dt_out st)
    = (b, q, r, out)" by (metis prod_cases4)
  from send_until_threshold_spec [OF e] e show ?thesis by (auto simp: send_reliable_def)
qed

lemma send_lossy_spec:
  "\<exists>sent. dt_lossy_queue st = sent @ dt_lossy_queue (send_lossy env st)
    \<and> do_wire (dt_out (send_lossy env st)) =
       do_wire (dt_out st) @ map (\<lambda>x. (Lossy, pr_encoded_packet x)) sent
    \<and> map fst (do_completed (dt_out (send_lossy env st))) =
       map fst (do_completed (dt_out st)) @ tokens sent
    \<and> tq_inner (dt_retry_queue (send_lossy env st)) = tq_inner (dt_retry_queue st)
    \<and> (tx_wf ep_size (dt_retry_queue st) \<longrightarrow> tx_wf ep_size (dt_retry_queue (send_lossy env st)))
    \<and> (dt_lossy_queue (send_lossy env st) = []
       \<or> dt_lossy_threshold st < dt_lossy_buffered_amount (send_lossy env st))"
proof -
  obtain b q r out where e: "send_until_threshold env Lossy (dt_lossy_threshold st)
      (dt_lossy_buffered_amount st) (dt_lossy_queue st) (dt_retry_queue st) (dt_out st)
    = (b, q, r, out)" by (metis prod_cases4)
  from send_until_threshold_spec [OF e] e show ?thesis by (auto simp: send_lossy_def)
qed

text \<open>The fields a round of sending leaves alone.\<close>

lemma send_reliable_frame [simp]:
  "dt_events (send_reliable env st) = dt_events st"
  "dt_next_packet_sequence (send_reliable env st) = dt_next_packet_sequence st"
  "dt_lossy_queue (send_reliable env st) = dt_lossy_queue st"
  "dt_lossy_buffered_amount (send_reliable env st) = dt_lossy_buffered_amount st"
  "dt_lossy_threshold (send_reliable env st) = dt_lossy_threshold st"
  "dt_reliable_threshold (send_reliable env st) = dt_reliable_threshold st"
  by (simp_all add: send_reliable_def split: prod.splits)

lemma send_lossy_frame [simp]:
  "dt_events (send_lossy env st) = dt_events st"
  "dt_next_packet_sequence (send_lossy env st) = dt_next_packet_sequence st"
  "dt_reliable_queue (send_lossy env st) = dt_reliable_queue st"
  "dt_reliable_buffered_amount (send_lossy env st) = dt_reliable_buffered_amount st"
  "dt_lossy_threshold (send_lossy env st) = dt_lossy_threshold st"
  "dt_reliable_threshold (send_lossy env st) = dt_reliable_threshold st"
  by (simp_all add: send_lossy_def split: prod.splits)

text \<open>The retry loop empties the queue and re-emits what is newer, in order.\<close>

definition retry_event :: "encoded_packet \<Rightarrow> dc_event" where
  "retry_event p = \<lparr>de_kind = Reliable, de_detail = PublishData
     \<lparr>pr_encoded_packet = p, pr_completion_tx = None\<rparr>\<rparr>"

lemma retry_loop_spec:
  "fst (retry_loop l q) = map retry_event (filter (\<lambda>p. l < ep_sequence p) (tq_inner q))
    \<and> tq_inner (snd (retry_loop l q)) = []
    \<and> (tx_wf ep_size q \<longrightarrow> tx_wf ep_size (snd (retry_loop l q)))"
proof (induction l q rule: retry_loop.induct)
  case (1 l q)
  show ?case
  proof (cases "tq_inner q")
    case Nil
    then have "tx_dequeue ep_size q = (None, q)" by (simp add: tx_dequeue_def)
    then have "retry_loop l q = ([], q)" unfolding retry_loop.simps [of l q] by simp
    with Nil show ?thesis by simp
  next
    case (Cons p ps)
    obtain q' where d: "tx_dequeue ep_size q = (Some p, q')"
      using Cons by (simp add: tx_dequeue_def)
    then have i: "tq_inner q' = ps" and w: "tx_wf ep_size q \<longrightarrow> tx_wf ep_size q'"
      using tx_inner_dequeue [of ep_size q] tx_wf_dequeue [of ep_size q] Cons by auto
    from "1.IH" [OF d [symmetric] refl] i
    have IH: "fst (retry_loop l q') = map retry_event (filter (\<lambda>p. l < ep_sequence p) ps)"
      "tq_inner (snd (retry_loop l q')) = []"
      "tx_wf ep_size q' \<longrightarrow> tx_wf ep_size (snd (retry_loop l q'))" by simp_all
    obtain evs q'' where r: "retry_loop l q' = (evs, q'')" by (cases "retry_loop l q'")
    have "retry_loop l q =
        (if ep_sequence p \<le> l then (evs, q'') else (retry_event p # evs, q''))"
      unfolding retry_loop.simps [of l q] by (simp add: d r retry_event_def)
    then show ?thesis using IH Cons r w by auto
  qed
qed

subsection \<open>Runs\<close>

text \<open>The running total of the retry queue is right in every run, so its trims return.\<close>

lemma handle_retry_wf:
  assumes "tx_wf ep_size (dt_retry_queue st)" "dc_handle env ev st = Some st'"
  shows "tx_wf ep_size (dt_retry_queue st')"
proof -
  have s: "tx_wf ep_size (dt_retry_queue s) \<Longrightarrow> tx_wf ep_size (dt_retry_queue (send_reliable env s))"
    "tx_wf ep_size (dt_retry_queue s) \<Longrightarrow> tx_wf ep_size (dt_retry_queue (send_lossy env s))" for s
    using send_reliable_spec [of s env] send_lossy_spec [of s env] by blast+
  have trim: "tx_wf ep_size q'" if "tx_trim ep_size n q = Some q'" "tx_wf ep_size q" for n q q'
    using tx_trim_wf [OF that(2), of n] that(1) by (auto simp: tx_wf_def)
  show ?thesis
    using assms s trim retry_loop_spec [of _ "dt_retry_queue st"]
    by (auto simp: dc_handle_def dc_emit_def enqueue_for_retry_from_def Let_def
        split: dc_event_detail.splits data_packet_kind.splits if_splits prod.splits)
      (smt (verit) snd_conv)
qed

text \<open>
  The reliable packets in flight: on the wire, queued, encoded in the event channel, and waiting
  there for their number.
\<close>

fun numbered :: "dc_env \<Rightarrow> u32 \<Rightarrow> data_packet list \<Rightarrow> encoded_packet list" where
  "numbered env k [] = []"
| "numbered env k (p # ps) = encode_packet env (p\<lparr>dp_sequence := k\<rparr>) # numbered env (k + 1) ps"

definition event_data :: "dc_event \<Rightarrow> encoded_packet list" where
  "event_data ev =
     (case de_detail ev of
        PublishData r \<Rightarrow> if de_kind ev = Reliable then [pr_encoded_packet r] else []
      | _ \<Rightarrow> [])"

definition event_packet :: "dc_event \<Rightarrow> data_packet list" where
  "event_packet ev =
     (case de_detail ev of
        PublishPacket p _ \<Rightarrow> if de_kind ev = Reliable then [p] else []
      | _ \<Rightarrow> [])"

definition reliable_flow :: "dc_env \<Rightarrow> dc_state \<Rightarrow> encoded_packet list" where
  "reliable_flow env st =
     wire_of Reliable (dt_out st) @ map pr_encoded_packet (dt_reliable_queue st)
       @ concat (map event_data (dt_events st))
       @ numbered env (dt_next_packet_sequence st) (concat (map event_packet (dt_events st)))"

definition outside :: "dc_event \<Rightarrow> bool" where
  "outside ev \<longleftrightarrow> (case de_detail ev of PublishPacket _ _ \<Rightarrow> True | BufferedAmountChange _ \<Rightarrow> True
     | _ \<Rightarrow> False)"

definition no_retry :: "dc_event \<Rightarrow> bool" where
  "no_retry ev \<longleftrightarrow> (\<forall>l. de_detail ev \<noteq> RetryFrom l)"

fun published :: "dc_action list \<Rightarrow> data_packet list" where
  "published [] = []"
| "published (Emit ev # as) = event_packet ev @ published as"
| "published (_ # as) = published as"

lemma numbered_append: "numbered env k (ps @ qs) = numbered env k ps @ numbered env (k + of_nat (length ps)) qs"
  by (induction ps arbitrary: k) (auto simp: add_ac)

lemma wire_of_reliable [simp]:
  "map snd (filter (\<lambda>(k, _). k = Reliable) (map (\<lambda>x. (Reliable, f x)) xs)) = map f xs"
  "filter (\<lambda>(k, _). k = Reliable) (map (\<lambda>x. (Lossy, f x)) xs) = []"
  by (induction xs) auto

lemma flow_send_reliable: "reliable_flow env (send_reliable env st) = reliable_flow env st"
proof -
  obtain sent where "dt_reliable_queue st = sent @ dt_reliable_queue (send_reliable env st)"
    "do_wire (dt_out (send_reliable env st)) =
       do_wire (dt_out st) @ map (\<lambda>x. (Reliable, pr_encoded_packet x)) sent"
    using send_reliable_spec [of st env] by metis
  moreover from this(1) have "map pr_encoded_packet (dt_reliable_queue st) =
      map pr_encoded_packet sent @ map pr_encoded_packet (dt_reliable_queue (send_reliable env st))"
    by (metis map_append)
  ultimately show ?thesis by (simp add: reliable_flow_def wire_of_def)
qed

lemma flow_send_lossy: "reliable_flow env (send_lossy env st) = reliable_flow env st"
proof -
  obtain sent :: "publish_data_request list" where "do_wire (dt_out (send_lossy env st)) =
       do_wire (dt_out st) @ map (\<lambda>x. (Lossy, pr_encoded_packet x)) sent"
    using send_lossy_spec [of st env] by (elim exE conjE) (rule that)
  then show ?thesis by (simp add: reliable_flow_def wire_of_def)
qed

lemma reliable_flow_cong:
  "dt_out st = dt_out st' \<Longrightarrow> dt_reliable_queue st = dt_reliable_queue st' \<Longrightarrow>
   dt_events st = dt_events st' \<Longrightarrow> dt_next_packet_sequence st = dt_next_packet_sequence st' \<Longrightarrow>
   reliable_flow env st = reliable_flow env st'"
  by (simp add: reliable_flow_def)

definition flow_inv :: "dc_env \<Rightarrow> data_packet list \<Rightarrow> dc_state \<Rightarrow> bool" where
  "flow_inv env ps st \<longleftrightarrow>
     reliable_flow env st = numbered env 1 ps
     \<and> dt_next_packet_sequence st + of_nat (length (concat (map event_packet (dt_events st))))
       = 1 + of_nat (length ps)
     \<and> list_all no_retry (dt_events st)"

lemma flow_turn:
  assumes "flow_inv env ps st" "dc_turn env st = Some st'"
  shows "flow_inv env ps st'"
proof (cases "dt_events st")
  case Nil
  with assms show ?thesis by (simp add: dc_turn_def)
next
  case (Cons ev rest)
  let ?st = "st\<lparr>dt_events := rest\<rparr>"
  have h: "dc_handle env ev ?st = Some st'" using assms(2) Cons by (simp add: dc_turn_def)
  have ev: "no_retry ev" "list_all no_retry rest" using assms(1) Cons by (simp_all add: flow_inv_def)
  show ?thesis
  proof (cases "de_detail ev")
    case (PublishPacket p c)
    with h assms(1) Cons ev show ?thesis
      by (cases "de_kind ev")
        (auto simp: dc_handle_def dc_emit_def flow_inv_def reliable_flow_def event_data_def
          event_packet_def no_retry_def Let_def add_ac)
  next
    case (PublishData r)
    show ?thesis
    proof (cases "de_kind ev")
      case Lossy
      with PublishData h have "st' = send_lossy env (?st\<lparr>dt_lossy_queue := dt_lossy_queue st @ [r]\<rparr>)"
        by (simp add: dc_handle_def)
      with assms(1) Cons ev PublishData Lossy show ?thesis
        by (simp add: flow_inv_def flow_send_lossy)
          (simp add: reliable_flow_def event_data_def event_packet_def)
    next
      case Reliable
      with PublishData h have
        "st' = send_reliable env (?st\<lparr>dt_reliable_queue := dt_reliable_queue st @ [r]\<rparr>)"
        by (simp add: dc_handle_def)
      with assms(1) Cons ev PublishData Reliable show ?thesis
        by (simp add: flow_inv_def flow_send_reliable)
          (simp add: reliable_flow_def event_data_def event_packet_def)
    qed
  next
    case (BufferedAmountChange n)
    have skip: "event_data ev = []" "event_packet ev = []"
      using BufferedAmountChange by (simp_all add: event_data_def event_packet_def)
    have base: "flow_inv env ps (?st\<lparr>dt_lossy_buffered_amount := b\<rparr>)"
      "flow_inv env ps (?st\<lparr>dt_reliable_buffered_amount := b\<rparr>)" for b
      using assms(1) Cons ev skip by (simp_all add: flow_inv_def reliable_flow_def)
    have keep: "flow_inv env ps (send_reliable env s)" "flow_inv env ps (send_lossy env s)"
      "flow_inv env ps (s\<lparr>dt_retry_queue := q\<rparr>)" if "flow_inv env ps s" for s q
      using that by (simp_all add: flow_inv_def flow_send_reliable flow_send_lossy
          reliable_flow_cong [of "s\<lparr>dt_retry_queue := q\<rparr>" s])
    show ?thesis
      using h BufferedAmountChange base keep
      by (auto simp: dc_handle_def Let_def split: data_packet_kind.splits)
  next
    case (RetryFrom l)
    with ev(1) show ?thesis by (simp add: no_retry_def)
  qed
qed

lemma flow_act:
  assumes "flow_inv env ps st" "dc_act env a st = Some st'" "\<forall>ev. a = Emit ev \<longrightarrow> outside ev"
  shows "flow_inv env (ps @ published [a]) st'"
proof (cases a)
  case (Emit ev)
  then have o: "outside ev" using assms(3) by simp
  then have e: "event_data ev = []" "no_retry ev"
    by (auto simp: outside_def event_data_def no_retry_def split: dc_event_detail.splits)
  have st': "st' = dc_emit ev st" using assms(2) Emit by simp
  have "numbered env (dt_next_packet_sequence st) (concat (map event_packet (dt_events st)) @ event_packet ev)
      = numbered env (dt_next_packet_sequence st) (concat (map event_packet (dt_events st)))
        @ numbered env (1 + of_nat (length ps)) (event_packet ev)"
    using assms(1) by (simp add: numbered_append flow_inv_def)
  moreover have "numbered env 1 (ps @ event_packet ev)
      = numbered env 1 ps @ numbered env (1 + of_nat (length ps)) (event_packet ev)"
    by (rule numbered_append)
  ultimately show ?thesis
    using assms(1) e Emit st'
    by (auto simp: flow_inv_def reliable_flow_def dc_emit_def add_ac)
next
  case Turn
  with assms flow_turn show ?thesis by simp
next
  case (SetThreshold kind th)
  with assms show ?thesis
    by (cases kind) (auto simp: flow_inv_def set_threshold_def reliable_flow_def)
qed

lemma published_Cons: "published (a # as) = published [a] @ published as"
  by (cases a) auto

lemma flow_run:
  "flow_inv env ps st \<Longrightarrow> dc_run env as st = Some st' \<Longrightarrow>
   \<forall>ev. Emit ev \<in> set as \<longrightarrow> outside ev \<Longrightarrow> flow_inv env (ps @ published as) st'"
proof (induction as arbitrary: ps st)
  case (Cons a as)
  from Cons.prems(2) obtain st1 where s: "dc_act env a st = Some st1" "dc_run env as st1 = Some st'"
    by (auto split: Option.bind_splits)
  have "flow_inv env (ps @ published [a]) st1"
    using flow_act [OF Cons.prems(1) s(1)] Cons.prems(3) by auto
  from Cons.IH [OF this s(2)] Cons.prems(3) show ?case by (simp add: published_Cons [of a as])
qed simp

text \<open>Completion tokens: where each one is.\<close>

definition event_token :: "dc_event \<Rightarrow> nat list" where
  "event_token ev =
     (case de_detail ev of
        PublishPacket _ c \<Rightarrow> [c]
      | PublishData r \<Rightarrow> tokens [r]
      | _ \<Rightarrow> [])"

definition all_tokens :: "dc_state \<Rightarrow> nat multiset" where
  "all_tokens st = mset (map fst (do_completed (dt_out st)))
     + mset (tokens (dt_lossy_queue st)) + mset (tokens (dt_reliable_queue st))
     + mset (concat (map event_token (dt_events st)))"

lemma tokens_send_reliable: "all_tokens (send_reliable env st) = all_tokens st"
proof -
  obtain sent where "dt_reliable_queue st = sent @ dt_reliable_queue (send_reliable env st)"
    "map fst (do_completed (dt_out (send_reliable env st))) =
       map fst (do_completed (dt_out st)) @ tokens sent" using send_reliable_spec [of st env] by metis
  then have "mset (tokens (dt_reliable_queue st)) =
      mset (tokens sent) + mset (tokens (dt_reliable_queue (send_reliable env st)))"
    by (metis mset_append tokens_simps(3))
  with \<open>map fst (do_completed (dt_out (send_reliable env st))) = _\<close>
  show ?thesis by (simp add: all_tokens_def)
qed

lemma tokens_send_lossy: "all_tokens (send_lossy env st) = all_tokens st"
proof -
  obtain sent where "dt_lossy_queue st = sent @ dt_lossy_queue (send_lossy env st)"
    "map fst (do_completed (dt_out (send_lossy env st))) =
       map fst (do_completed (dt_out st)) @ tokens sent" using send_lossy_spec [of st env] by metis
  then have "mset (tokens (dt_lossy_queue st)) =
      mset (tokens sent) + mset (tokens (dt_lossy_queue (send_lossy env st)))"
    by (metis mset_append tokens_simps(3))
  with \<open>map fst (do_completed (dt_out (send_lossy env st))) = _\<close>
  show ?thesis by (simp add: all_tokens_def)
qed

lemma retry_event_token: "concat (map event_token (map retry_event ps)) = []"
  by (induction ps) (auto simp: event_token_def retry_event_def)

lemma tokens_turn:
  assumes "dc_turn env st = Some st'"
  shows "all_tokens st' = all_tokens st"
proof (cases "dt_events st")
  case Nil
  with assms show ?thesis by (simp add: dc_turn_def)
next
  case (Cons ev rest)
  let ?st = "st\<lparr>dt_events := rest\<rparr>"
  have h: "dc_handle env ev ?st = Some st'" using assms Cons by (simp add: dc_turn_def)
  have fields: "all_tokens (s\<lparr>dt_retry_queue := q\<rparr>) = all_tokens s"
    "all_tokens (s\<lparr>dt_lossy_buffered_amount := b\<rparr>) = all_tokens s"
    "all_tokens (s\<lparr>dt_reliable_buffered_amount := b\<rparr>) = all_tokens s" for s q b
    by (simp_all add: all_tokens_def)
  have head: "all_tokens st = mset (event_token ev) + all_tokens ?st"
    using Cons by (simp add: all_tokens_def)
  have retry: "all_tokens (enqueue_for_retry_from l ?st) = all_tokens ?st" for l
    using retry_loop_spec [of l "dt_retry_queue st"] retry_event_token
    by (auto simp: enqueue_for_retry_from_def all_tokens_def split: prod.splits)
  show ?thesis
  proof (cases "de_detail ev")
    case (PublishPacket p c)
    with h head show ?thesis
      by (auto simp: dc_handle_def Let_def dc_emit_def all_tokens_def event_token_def split: if_splits)
  next
    case (PublishData r)
    have "all_tokens (?st\<lparr>dt_lossy_queue := dt_lossy_queue st @ [r]\<rparr>) = all_tokens st"
      "all_tokens (?st\<lparr>dt_reliable_queue := dt_reliable_queue st @ [r]\<rparr>) = all_tokens st"
      unfolding head using PublishData by (simp_all add: all_tokens_def event_token_def)
    with h PublishData show ?thesis
      by (cases "de_kind ev") (auto simp: dc_handle_def tokens_send_reliable tokens_send_lossy)
  next
    case (BufferedAmountChange n)
    with h head show ?thesis
      by (cases "de_kind ev")
        (auto simp: dc_handle_def Let_def fields tokens_send_reliable tokens_send_lossy event_token_def)
  next
    case (RetryFrom l)
    with h head retry show ?thesis by (auto simp: dc_handle_def event_token_def split: if_splits)
  qed
qed

fun issued :: "dc_action list \<Rightarrow> nat list" where
  "issued [] = []"
| "issued (Emit ev # as) = event_token ev @ issued as"
| "issued (_ # as) = issued as"

lemma tokens_run:
  "dc_run env as st = Some st' \<Longrightarrow> all_tokens st' = all_tokens st + mset (issued as)"
proof (induction as arbitrary: st)
  case (Cons a as)
  from Cons.prems obtain st1 where s: "dc_act env a st = Some st1" "dc_run env as st1 = Some st'"
    by (auto split: Option.bind_splits)
  have "all_tokens st1 + mset (issued as) = all_tokens st + mset (issued (a # as))"
  proof (cases a)
    case (Emit ev)
    with s(1) show ?thesis by (auto simp: dc_emit_def all_tokens_def)
  next
    case Turn
    with s(1) tokens_turn show ?thesis by simp
  next
    case (SetThreshold kind th)
    with s(1) show ?thesis by (cases kind) (auto simp: set_threshold_def all_tokens_def)
  qed
  with Cons.IH [OF s(2)] show ?case by simp
qed simp

lemma run_retry_wf:
  "dc_run env as st = Some st' \<Longrightarrow> tx_wf ep_size (dt_retry_queue st) \<Longrightarrow>
   tx_wf ep_size (dt_retry_queue st')"
proof (induction as arbitrary: st)
  case (Cons a as)
  from Cons.prems(1) obtain st1 where s: "dc_act env a st = Some st1" "dc_run env as st1 = Some st'"
    by (auto split: Option.bind_splits)
  have "tx_wf ep_size (dt_retry_queue st1)"
  proof (cases a)
    case Turn
    with s(1) Cons.prems(2) handle_retry_wf show ?thesis
      by (auto simp: dc_turn_def split: list.splits) (metis dc_state.select_convs(5) dc_state.surjective dc_state.update_convs(9))
  next
    case (SetThreshold kind th)
    with s(1) Cons.prems(2) show ?thesis by (cases kind) (auto simp: set_threshold_def)
  qed (use s(1) Cons.prems(2) in \<open>auto simp: dc_emit_def\<close>)
  from Cons.IH [OF s(2) this] show ?case .
qed simp

section \<open>Properties\<close>

text \<open>
  C4. Reliable packets go out once each, in the order they were published, numbered 1, 2, 3, ...:
  in every run of the task without a retry of sent packets (the only events from outside are published
  packets, buffer reports and threshold changes, on either channel), the published packets so numbered
  are those handed to the reliable channel, then those in its queue, then those encoded whose send event
  is still in the channel, then those whose publish event is, which get the next numbers.
\<close>

theorem reliable_packets_in_order:
  assumes "dc_run env as dc_start = Some st"
    and "\<forall>ev. Emit ev \<in> set as \<longrightarrow> outside ev"
  shows "numbered env 1 (published as) = wire_of Reliable (dt_out st)
    @ map pr_encoded_packet (dt_reliable_queue st) @ concat (map event_data (dt_events st))
    @ numbered env (dt_next_packet_sequence st) (concat (map event_packet (dt_events st)))"
proof -
  have "flow_inv env [] dc_start"
    by (simp add: flow_inv_def reliable_flow_def dc_start_def wire_of_def)
  from flow_run [OF this assms] have "reliable_flow env st = numbered env 1 (published as)"
    by (simp add: flow_inv_def)
  then show ?thesis by (simp add: reliable_flow_def)
qed

definition example_env :: dc_env where
  "example_env = \<lparr>env_encode = (\<lambda>p. [ucast (dp_sequence p), 0]),
     env_send = (\<lambda>_ _ _. Inr ())\<rparr>"

definition publish_event :: "nat \<Rightarrow> dc_event" where
  "publish_event c = \<lparr>de_kind = Reliable, de_detail = PublishPacket default_packet c\<rparr>"

lemma example_run:
  "dc_run example_env [Emit (publish_event 7), Turn, Turn, Emit (publish_event 8), Turn, Turn] dc_start
   = Some (dc_start\<lparr>dt_reliable_buffered_amount := 4, dt_next_packet_sequence := 3,
       dt_retry_queue := \<lparr>tq_inner = [\<lparr>ep_data = [1, 0], ep_sequence = 1\<rparr>,
          \<lparr>ep_data = [2, 0], ep_sequence = 2\<rparr>], tq_buffered_size = 4\<rparr>,
       dt_out := \<lparr>do_wire = [(Reliable, \<lparr>ep_data = [1, 0], ep_sequence = 1\<rparr>),
          (Reliable, \<lparr>ep_data = [2, 0], ep_sequence = 2\<rparr>)],
          do_completed = [(7, Inr ()), (8, Inr ())]\<rparr>\<rparr>)"
  by (simp add: dc_start_def publish_event_def dc_emit_def dc_turn_def dc_handle_def send_reliable_def
      encode_packet_def example_env_def default_packet_def send_request_def tx_new_def tx_enqueue_def
      ep_size_def Let_def INITIAL_BUFFERED_AMOUNT_LOW_THRESHOLD_def)

theorem reliable_packets_in_order_witness:
  "numbered example_env 1 [default_packet, default_packet]
     = [\<lparr>ep_data = [1, 0], ep_sequence = 1\<rparr>, \<lparr>ep_data = [2, 0], ep_sequence = 2\<rparr>]"
  using reliable_packets_in_order [OF example_run]
  by (auto simp: publish_event_def outside_def event_packet_def wire_of_def dc_start_def)

text \<open>
  C27. Every publisher is answered once: whatever the events, retries included, the requests that
  were answered, queued or still in the event channel are exactly those issued, with multiplicity;
  so one issued once is never answered twice, and it is answered when the queues are empty.
\<close>

theorem publishers_answered_once:
  assumes "dc_run env as dc_start = Some st"
  shows "mset (map fst (do_completed (dt_out st)))
      + mset (tokens (dt_lossy_queue st)) + mset (tokens (dt_reliable_queue st))
      + mset (concat (map event_token (dt_events st))) = mset (issued as)
    \<and> (distinct (issued as) \<longrightarrow> distinct (map fst (do_completed (dt_out st))))"
proof -
  have eq: "all_tokens st = mset (issued as)"
    using tokens_run [OF assms] by (simp add: all_tokens_def dc_start_def)
  have "distinct (map fst (do_completed (dt_out st)))" if "distinct (issued as)"
  proof -
    have "mset (map fst (do_completed (dt_out st)) @ tokens (dt_lossy_queue st)
        @ tokens (dt_reliable_queue st) @ concat (map event_token (dt_events st))) = mset (issued as)"
      unfolding eq [symmetric] by (simp add: all_tokens_def add.assoc)
    from mset_eq_imp_distinct_iff [OF this] that show ?thesis by simp
  qed
  with eq show ?thesis by (simp add: all_tokens_def)
qed

theorem publishers_answered_once_witness:
  "distinct (map fst [(7 :: nat, Inr () :: string + unit), (8, Inr ())])"
  using publishers_answered_once [OF example_run]
  by (simp add: publish_event_def event_token_def)

text \<open>
  A retry resends exactly what the server has not seen: it empties the retry queue and emits
  again, in order and without a second answer to anyone, the kept packets with a sequence number
  above the last one received.
\<close>

theorem retry_resends_newer:
  assumes "dc_handle env \<lparr>de_kind = Reliable, de_detail = RetryFrom l\<rparr> st = Some st'"
  shows "dt_events st' = dt_events st @
      map retry_event (filter (\<lambda>p. l < ep_sequence p) (tq_inner (dt_retry_queue st)))
    \<and> tq_inner (dt_retry_queue st') = []
    \<and> st' = st\<lparr>dt_events := dt_events st', dt_retry_queue := dt_retry_queue st'\<rparr>"
  using assms retry_loop_spec [of l "dt_retry_queue st"]
  by (auto simp: dc_handle_def enqueue_for_retry_from_def split: prod.splits)

theorem retry_resends_newer_witness:
  "tq_inner (dt_retry_queue (enqueue_for_retry_from 0 dc_start)) = []"
  using retry_resends_newer [of example_env 0 dc_start "enqueue_for_retry_from 0 dc_start"]
  by (simp add: dc_handle_def)

text \<open>
  The retry queue is trimmed to the wrong size: after a report that \<open>sent\<close> bytes left the
  buffer it is cut down to \<open>sent\<close> bytes, not to the bytes still buffered. When each kept packet is
  larger than the report, all of them are forgotten although the channel still buffers their bytes,
  and a retry resends nothing.
\<close>

theorem retry_trim_forgets_unsent:
  assumes "tx_wf ep_size (dt_retry_queue st)" and "dt_reliable_queue st = []"
    and "sent \<le> dt_reliable_buffered_amount st"
    and "\<forall>p \<in> set (tq_inner (dt_retry_queue st)). unat sent < ep_size p"
  shows "\<exists>st'. dc_handle env \<lparr>de_kind = Reliable, de_detail = BufferedAmountChange sent\<rparr> st = Some st'
    \<and> dt_reliable_buffered_amount st' = dt_reliable_buffered_amount st - sent
    \<and> tq_inner (dt_retry_queue st') = []
    \<and> dt_events (enqueue_for_retry_from l st') = dt_events st"
proof -
  let ?s = "st\<lparr>dt_reliable_buffered_amount := dt_reliable_buffered_amount st - sent\<rparr>"
  have s: "send_reliable env ?s = ?s" by (simp add: send_reliable_def assms(2))
  have drop: "drop_to ep_size n ps = []" if "\<forall>p \<in> set ps. n < ep_size p" for n ps
    using that by (induction ps) auto
  have t: "tx_trim ep_size (unat sent) (dt_retry_queue st) = Some \<lparr>tq_inner = [], tq_buffered_size = 0\<rparr>"
    using tx_trim_wf [OF assms(1), of "unat sent"] drop [OF assms(4)] by simp
  have "dc_handle env \<lparr>de_kind = Reliable, de_detail = BufferedAmountChange sent\<rparr> st
      = Some (?s\<lparr>dt_retry_queue := \<lparr>tq_inner = [], tq_buffered_size = 0\<rparr>\<rparr>)"
    using assms(3) s t by (simp add: dc_handle_def not_less [symmetric])
  then show ?thesis
    using retry_loop_spec [of l "\<lparr>tq_inner = [], tq_buffered_size = 0\<rparr> :: encoded_packet tx_queue"]
    by (auto simp: enqueue_for_retry_from_def split: prod.splits)
qed

theorem retry_trim_forgets_unsent_witness:
  "\<exists>st st'. dc_run example_env [Emit (publish_event 7), Turn, Turn, Emit (publish_event 8), Turn, Turn]
      dc_start = Some st
    \<and> dc_handle example_env \<lparr>de_kind = Reliable, de_detail = BufferedAmountChange 1\<rparr> st = Some st'
    \<and> dt_reliable_buffered_amount st' = 3 \<and> tq_inner (dt_retry_queue st') = []"
proof -
  let ?st = "dc_start\<lparr>dt_reliable_buffered_amount := 4, dt_next_packet_sequence := 3,
       dt_retry_queue := \<lparr>tq_inner = [\<lparr>ep_data = [1, 0], ep_sequence = 1\<rparr>,
          \<lparr>ep_data = [2, 0], ep_sequence = 2\<rparr>], tq_buffered_size = 4\<rparr>,
       dt_out := \<lparr>do_wire = [(Reliable, \<lparr>ep_data = [1, 0], ep_sequence = 1\<rparr>),
          (Reliable, \<lparr>ep_data = [2, 0], ep_sequence = 2\<rparr>)],
          do_completed = [(7, Inr ()), (8, Inr ())]\<rparr>\<rparr>"
  have "tx_wf ep_size (dt_retry_queue ?st)"
    using run_retry_wf [OF example_run] by (simp add: dc_start_def)
  from retry_trim_forgets_unsent [OF this, of 1 example_env 0]
  obtain st' where "dc_handle example_env \<lparr>de_kind = Reliable, de_detail = BufferedAmountChange 1\<rparr> ?st
      = Some st'" "dt_reliable_buffered_amount st' = 3" "tq_inner (dt_retry_queue st') = []"
    by (auto simp: dc_start_def ep_size_def)
  then show ?thesis using example_run by blast
qed

text \<open>
  The receive state of a publisher only grows: after a reliable packet with a sequence number
  and a publisher, the state of that publisher is the larger of the number and what was known and
  has not expired, and nothing changes for any other publisher.
\<close>

theorem rx_state_monotone:
  assumes "ttl_wf rx" and "tm_last_cleanup rx \<le> now" and "0 \<le> tm_ttl rx"
    and "0 < dp_sequence p" and "dp_participant_sid p \<noteq> []"
  shows "ttl_view now (update_packet_rx_state now p rx) = (ttl_view now rx)
    (dp_participant_sid p \<mapsto> (case ttl_view now rx (dp_participant_sid p) of
       None \<Rightarrow> dp_sequence p | Some s \<Rightarrow> max s (dp_sequence p)))"
proof -
  let ?k = "dp_participant_sid p"
  have "fst (ttl_get now ?k rx) = ttl_view now rx ?k"
    by (auto simp: ttl_get_def ttl_view_def split: option.splits)
  then obtain rx' where get: "ttl_get now ?k rx = (ttl_view now rx ?k, rx')"
    by (metis prod.collapse)
  have "tm_last_cleanup (snd (ttl_get now ?k rx)) = tm_last_cleanup rx"
    "tm_ttl (snd (ttl_get now ?k rx)) = tm_ttl rx"
    by (auto simp: ttl_get_def split: option.splits)
  then have rx: "ttl_view now rx' = ttl_view now rx" "ttl_wf rx'" "tm_last_cleanup rx' = tm_last_cleanup rx"
    "tm_ttl rx' = tm_ttl rx"
    using ttl_view_get [OF assms(1), of now now ?k] ttl_wf_get [OF assms(1), of now ?k] get
    by simp_all
  have set: "ttl_view now (ttl_set now now ?k (Some (dp_sequence p)) rx')
      = (ttl_view now rx)(?k \<mapsto> dp_sequence p)"
    using ttl_view_set [OF rx(2), of now now now ?k "Some (dp_sequence p)"] assms(2,3) rx by simp
  have "\<not> dp_sequence p \<le> 0" using assms(4) by simp
  then show ?thesis
    using set rx(1) assms(5)
    by (auto simp: update_packet_rx_state_def get Let_def max_def fun_eq_iff split: option.splits)
qed

theorem rx_state_monotone_witness:
  "ttl_view 5 (update_packet_rx_state 5 (default_packet\<lparr>dp_sequence := 3, dp_participant_sid := ''PA_1''\<rparr>)
     (ttl_new 0 30)) ''PA_1'' = Some 3"
proof -
  let ?rx = "ttl_new 0 30 :: (string, u32) ttl_map"
  let ?p = "default_packet\<lparr>dp_sequence := 3, dp_participant_sid := ''PA_1''\<rparr>"
  have view: "ttl_view 5 ?rx k = None" for k by (simp add: ttl_new_def ttl_view_def)
  have "ttl_wf ?rx" "tm_last_cleanup ?rx \<le> 5" "0 \<le> tm_ttl ?rx"
    "0 < dp_sequence ?p" "dp_participant_sid ?p \<noteq> []"
    by (simp_all add: ttl_new_def ttl_wf_def)
  from rx_state_monotone [OF this] show ?thesis by (simp add: view)
qed

end
