(* ===== verification/PeerTransport.thy ===== *)
theory PeerTransport
  imports Proto
begin

text \<open>
  \<open>livekit/src/rtc_engine/peer_transport.rs\<close>: the wrapper of a peer connection that buffers ICE
  candidates until there is a remote description and defers a second offer until the first is
  answered.

  The peer connection is libwebrtc's, outside the repository: \<open>pc_ops\<close> holds its operations on a
  state of any type. The transport's own state is behind an async mutex held across awaits, so the
  calls on one transport run one after the other; a call that locks the mutex while its own caller
  holds it waits for itself. That is the outcome \<open>Blocked\<close>, in which the mutex stays locked.
\<close>

section \<open>Model\<close>

datatype (plugins only: code size) engine_error =
    SignalErr string
  | RtcErr string
  | ConnectionErr string
  | InternalErr string

datatype (plugins only: code size) signaling_state =
    Stable | HaveLocalOffer | HaveLocalPrAnswer | HaveRemoteOffer | HaveRemotePrAnswer | SignalingClosed

type_synonym session_description = string
type_synonym ice_candidate = string

record 'p pc_ops =
  pc_signaling_state :: "'p \<Rightarrow> signaling_state"
  pc_current_remote_description :: "'p \<Rightarrow> session_description option"
  pc_add_ice_candidate :: "ice_candidate \<Rightarrow> 'p \<Rightarrow> (string + unit) \<times> 'p"
  pc_set_remote_description :: "session_description \<Rightarrow> 'p \<Rightarrow> (string + unit) \<times> 'p"
  pc_set_local_description :: "session_description \<Rightarrow> 'p \<Rightarrow> (string + unit) \<times> 'p"
  pc_create_offer :: "bool \<Rightarrow> 'p \<Rightarrow> (string + session_description) \<times> 'p"
  pc_create_answer :: "'p \<Rightarrow> (string + session_description) \<times> 'p"

record 'p transport =
  tr_pc :: 'p
  tr_locked :: bool
  tr_pending_candidates :: "ice_candidate list"
  tr_renegotiate :: bool
  tr_restarting_ice :: bool
  tr_has_handler :: bool
  tr_offers :: "session_description list"

datatype (plugins only: code size) 'a outcome = Returned "engine_error + 'a" | Blocked

definition transport_new :: "'p \<Rightarrow> 'p transport" where
  "transport_new pc = \<lparr>tr_pc = pc, tr_locked = False, tr_pending_candidates = [],
     tr_renegotiate = False, tr_restarting_ice = False, tr_has_handler = False, tr_offers = []\<rparr>"

definition on_offer :: "bool \<Rightarrow> 'p transport \<Rightarrow> 'p transport" where
  "on_offer handler t = t\<lparr>tr_has_handler := handler\<rparr>"

text \<open>The mutex: \<open>with_lock\<close> runs a body between locking and the drop of the guard.\<close>

definition with_lock ::
    "('p transport \<Rightarrow> 'a outcome \<times> 'p transport) \<Rightarrow> 'p transport \<Rightarrow> 'a outcome \<times> 'p transport" where
  "with_lock body t =
     (if tr_locked t then (Blocked, t)
      else case body (t\<lparr>tr_locked := True\<rparr>) of
        (Blocked, t') \<Rightarrow> (Blocked, t')
      | (Returned r, t') \<Rightarrow> (Returned r, t'\<lparr>tr_locked := False\<rparr>))"

definition pc_call ::
    "('p \<Rightarrow> (string + 'a) \<times> 'p) \<Rightarrow> 'p transport \<Rightarrow> (engine_error + 'a) \<times> 'p transport" where
  "pc_call f t =
     (case f (tr_pc t) of
        (Inl e, pc) \<Rightarrow> (Inl (RtcErr e), t\<lparr>tr_pc := pc\<rparr>)
      | (Inr x, pc) \<Rightarrow> (Inr x, t\<lparr>tr_pc := pc\<rparr>))"

definition add_ice_candidate ::
    "'p pc_ops \<Rightarrow> ice_candidate \<Rightarrow> 'p transport \<Rightarrow> unit outcome \<times> 'p transport" where
  "add_ice_candidate ops ice_candidate =
     with_lock (\<lambda>t.
       if pc_current_remote_description ops (tr_pc t) \<noteq> None \<and> \<not> tr_restarting_ice t
       then case pc_call (pc_add_ice_candidate ops ice_candidate) t of (r, t') \<Rightarrow> (Returned r, t')
       else (Returned (Inr ()),
             t\<lparr>tr_pending_candidates := tr_pending_candidates t @ [ice_candidate]\<rparr>))"

text \<open>
  The tail of \<open>create_and_send_offer\<close>: a new offer becomes the local description and goes to the
  handler.
\<close>

definition send_offer ::
    "'p pc_ops \<Rightarrow> bool \<Rightarrow> 'p transport \<Rightarrow> unit outcome \<times> 'p transport" where
  "send_offer ops ice_restart t =
     (case pc_call (pc_create_offer ops ice_restart) t of
        (Inl e, t') \<Rightarrow> (Returned (Inl e), t')
      | (Inr offer, t') \<Rightarrow>
          (case pc_call (pc_set_local_description ops offer) t' of
             (Inl e, t'') \<Rightarrow> (Returned (Inl e), t'')
           | (Inr _, t'') \<Rightarrow>
               (Returned (Inr ()),
                if tr_has_handler t'' then t''\<lparr>tr_offers := tr_offers t'' @ [offer]\<rparr> else t'')))"

definition create_and_send_offer ::
    "'p pc_ops \<Rightarrow> bool \<Rightarrow> 'p transport \<Rightarrow> unit outcome \<times> 'p transport" where
  "create_and_send_offer ops ice_restart =
     with_lock (\<lambda>t.
       let t = (if ice_restart then t\<lparr>tr_restarting_ice := True\<rparr> else t) in
       if pc_signaling_state ops (tr_pc t) = HaveLocalOffer then
         (case pc_current_remote_description ops (tr_pc t) of
            Some remote_sdp \<Rightarrow>
              if ice_restart then
                (case pc_call (pc_set_remote_description ops remote_sdp) t of
                   (Inl e, t') \<Rightarrow> (Returned (Inl e), t')
                 | (Inr _, t') \<Rightarrow> send_offer ops ice_restart t')
              else (Returned (Inr ()), t\<lparr>tr_renegotiate := True\<rparr>)
          | None \<Rightarrow> (Returned (Inr ()), t\<lparr>tr_renegotiate := True\<rparr>))
       else if pc_signaling_state ops (tr_pc t) = SignalingClosed then (Returned (Inr ()), t)
       else send_offer ops ice_restart t)"

text \<open>
  The loop over \<open>pending_candidates.drain(..)\<close>: an early return drops the drain, which removes the
  candidates that were not reached as well.
\<close>

fun drain_candidates ::
    "'p pc_ops \<Rightarrow> ice_candidate list \<Rightarrow> 'p transport \<Rightarrow> (engine_error + unit) \<times> 'p transport" where
  "drain_candidates ops [] t = (Inr (), t\<lparr>tr_pending_candidates := []\<rparr>)"
| "drain_candidates ops (ic # rest) t =
     (case pc_call (pc_add_ice_candidate ops ic) t of
        (Inl e, t') \<Rightarrow> (Inl e, t'\<lparr>tr_pending_candidates := []\<rparr>)
      | (Inr _, t') \<Rightarrow> drain_candidates ops rest t')"

definition set_remote_description ::
    "'p pc_ops \<Rightarrow> session_description \<Rightarrow> 'p transport \<Rightarrow> unit outcome \<times> 'p transport" where
  "set_remote_description ops remote_description =
     with_lock (\<lambda>t.
       case pc_call (pc_set_remote_description ops remote_description) t of
         (Inl e, t') \<Rightarrow> (Returned (Inl e), t')
       | (Inr _, t') \<Rightarrow>
           (case drain_candidates ops (tr_pending_candidates t') t' of
              (Inl e, t'') \<Rightarrow> (Returned (Inl e), t'')
            | (Inr _, t'') \<Rightarrow>
                let t'' = t''\<lparr>tr_restarting_ice := False\<rparr> in
                if tr_renegotiate t''
                then create_and_send_offer ops False (t''\<lparr>tr_renegotiate := False\<rparr>)
                else (Returned (Inr ()), t'')))"

definition create_anwser ::
    "'p pc_ops \<Rightarrow> session_description \<Rightarrow> 'p transport \<Rightarrow> session_description outcome \<times> 'p transport" where
  "create_anwser ops offer t =
     (case set_remote_description ops offer t of
        (Blocked, t') \<Rightarrow> (Blocked, t')
      | (Returned (Inl e), t') \<Rightarrow> (Returned (Inl e), t')
      | (Returned (Inr _), t') \<Rightarrow>
          (case pc_call (pc_create_answer ops) t' of
             (Inl e, t'') \<Rightarrow> (Returned (Inl e), t'')
           | (Inr answer, t'') \<Rightarrow>
               (case pc_call (pc_set_local_description ops answer) t'' of
                  (Inl e, t3) \<Rightarrow> (Returned (Inl e), t3)
                | (Inr _, t3) \<Rightarrow> (Returned (Inr answer), t3))))"

section \<open>Lemmas\<close>

lemma locked_blocks:
  "tr_locked t \<Longrightarrow> add_ice_candidate ops ic t = (Blocked, t)
    \<and> set_remote_description ops sd t = (Blocked, t) \<and> create_and_send_offer ops r t = (Blocked, t)
    \<and> create_anwser ops sd t = (Blocked, t)"
  by (simp add: add_ice_candidate_def set_remote_description_def create_and_send_offer_def
      create_anwser_def with_lock_def)

text \<open>A peer connection on which candidates and the remote description are accepted.\<close>

definition accepts :: "'p pc_ops \<Rightarrow> bool" where
  "accepts ops \<longleftrightarrow> (\<forall>ic pc. fst (pc_add_ice_candidate ops ic pc) = Inr ())
     \<and> (\<forall>sd pc. fst (pc_set_remote_description ops sd pc) = Inr ())"

definition add_all :: "'p pc_ops \<Rightarrow> ice_candidate list \<Rightarrow> 'p \<Rightarrow> 'p" where
  "add_all ops ics pc = fold (\<lambda>ic pc. snd (pc_add_ice_candidate ops ic pc)) ics pc"

lemma pc_call_accepts:
  assumes "accepts ops"
  shows "pc_call (pc_add_ice_candidate ops ic) t = (Inr (), t\<lparr>tr_pc := snd (pc_add_ice_candidate ops ic (tr_pc t))\<rparr>)"
    and "pc_call (pc_set_remote_description ops sd) t =
      (Inr (), t\<lparr>tr_pc := snd (pc_set_remote_description ops sd (tr_pc t))\<rparr>)"
  using assms by (auto simp: accepts_def pc_call_def split: prod.splits sum.splits) (metis fst_conv sum.distinct(1))+

lemma drain_accepts:
  "accepts ops \<Longrightarrow> drain_candidates ops ics t =
     (Inr (), t\<lparr>tr_pc := add_all ops ics (tr_pc t), tr_pending_candidates := []\<rparr>)"
  by (induction ics arbitrary: t) (simp_all add: pc_call_accepts add_all_def)

lemma deferred_offer:
  "\<not> tr_locked t \<Longrightarrow> pc_signaling_state ops (tr_pc t) = HaveLocalOffer \<Longrightarrow>
   create_and_send_offer ops False t = (Returned (Inr ()), t\<lparr>tr_renegotiate := True\<rparr>)"
  by (cases t) (auto simp: create_and_send_offer_def with_lock_def split: option.splits)

lemma renegotiating_answer_blocks:
  "accepts ops \<Longrightarrow> \<not> tr_locked t \<Longrightarrow> tr_renegotiate t \<Longrightarrow> set_remote_description ops sd t = (r, t') \<Longrightarrow>
   r = Blocked \<and> tr_locked t' \<and> tr_offers t' = tr_offers t"
  by (cases t) (auto simp: set_remote_description_def with_lock_def pc_call_accepts drain_accepts
      create_and_send_offer_def)

section \<open>Properties\<close>

text \<open>
  ICE candidates are never handed to a peer connection without a remote description or in an
  ICE restart: they are kept in order, and the next remote description hands over all of them,
  in order, before anything newer, and ends the restart.
\<close>

theorem candidates_buffered:
  assumes "accepts ops" and "\<not> tr_locked t" and "\<not> tr_renegotiate t"
    and "\<forall>ic pc. pc_current_remote_description ops (snd (pc_add_ice_candidate ops ic pc))
      = pc_current_remote_description ops pc"
    and "pc_current_remote_description ops (tr_pc t) = None \<or> tr_restarting_ice t"
  shows "fold (\<lambda>ic t. snd (add_ice_candidate ops ic t)) ics t
      = t\<lparr>tr_pending_candidates := tr_pending_candidates t @ ics\<rparr>
    \<and> set_remote_description ops sd (fold (\<lambda>ic t. snd (add_ice_candidate ops ic t)) ics t)
      = (Returned (Inr ()), t\<lparr>tr_pc := add_all ops (tr_pending_candidates t @ ics)
           (snd (pc_set_remote_description ops sd (tr_pc t))),
         tr_pending_candidates := [], tr_restarting_ice := False\<rparr>)"
proof -
  have one: "snd (add_ice_candidate ops ic (t\<lparr>tr_pending_candidates := p\<rparr>))
      = t\<lparr>tr_pending_candidates := p @ [ic]\<rparr>" for ic p
    using assms(2,5) by (cases t) (auto simp: add_ice_candidate_def with_lock_def)
  have "fold (\<lambda>ic t. snd (add_ice_candidate ops ic t)) ics (t\<lparr>tr_pending_candidates := p\<rparr>)
      = t\<lparr>tr_pending_candidates := p @ ics\<rparr>" for p
    by (induction ics arbitrary: p) (simp_all add: one)
  from this [of "tr_pending_candidates t"]
  have fold: "fold (\<lambda>ic t. snd (add_ice_candidate ops ic t)) ics t
      = t\<lparr>tr_pending_candidates := tr_pending_candidates t @ ics\<rparr>" by simp
  show ?thesis
    unfolding fold using assms(1-3)
    by (cases t) (simp add: set_remote_description_def with_lock_def pc_call_accepts drain_accepts)
qed

text \<open>
  A deferred renegotiation deadlocks the transport: when an offer is asked for while another
  is unanswered, it is only marked; the answer then makes \<open>set_remote_description\<close> create the
  offer while it holds the mutex that creating an offer locks, so it never returns, no offer
  is sent, and every later call on the transport waits for ever as well.
\<close>

theorem renegotiation_deadlocks:
  assumes "accepts ops" and "\<not> tr_locked t"
    and "pc_signaling_state ops (tr_pc t) = HaveLocalOffer"
    and "snd (create_and_send_offer ops False t) = t1"
    and "set_remote_description ops answer t1 = (r, t2)"
  shows "fst (create_and_send_offer ops False t) = Returned (Inr ())
    \<and> r = Blocked \<and> tr_offers t2 = tr_offers t
    \<and> add_ice_candidate ops ic t2 = (Blocked, t2)
    \<and> set_remote_description ops sd t2 = (Blocked, t2)
    \<and> create_and_send_offer ops restart t2 = (Blocked, t2)"
proof -
  note offer = deferred_offer [OF assms(2,3)]
  with assms(4) have t1: "t1 = t\<lparr>tr_renegotiate := True\<rparr>" by simp
  then have "r = Blocked \<and> tr_locked t2 \<and> tr_offers t2 = tr_offers t"
    using renegotiating_answer_blocks [OF assms(1) _ _ assms(5)] assms(2) by simp
  with offer locked_blocks [of t2 ops] show ?thesis by simp
qed

text \<open>A peer connection that follows the offer/answer exchange, for the witnesses.\<close>

record example_pc =
  ex_state :: signaling_state
  ex_remote :: "session_description option"
  ex_candidates :: "ice_candidate list"

definition example_ops :: "example_pc pc_ops" where
  "example_ops = \<lparr>pc_signaling_state = ex_state, pc_current_remote_description = ex_remote,
     pc_add_ice_candidate = (\<lambda>ic pc. (Inr (), pc\<lparr>ex_candidates := ex_candidates pc @ [ic]\<rparr>)),
     pc_set_remote_description = (\<lambda>sd pc. (Inr (), pc\<lparr>ex_remote := Some sd, ex_state := Stable\<rparr>)),
     pc_set_local_description = (\<lambda>sd pc. (Inr (), pc\<lparr>ex_state := HaveLocalOffer\<rparr>)),
     pc_create_offer = (\<lambda>_ pc. (Inr ''offer'', pc)),
     pc_create_answer = (\<lambda>pc. (Inr ''answer'', pc))\<rparr>"

definition example_transport :: "example_pc transport" where
  "example_transport = on_offer True
     (transport_new \<lparr>ex_state = Stable, ex_remote = None, ex_candidates = []\<rparr>)"

lemma example_accepts: "accepts example_ops"
  by (simp add: accepts_def example_ops_def)

theorem candidates_buffered_witness:
  "ex_candidates (tr_pc (snd (set_remote_description example_ops ''answer''
     (fold (\<lambda>ic t. snd (add_ice_candidate example_ops ic t)) [''a'', ''b''] example_transport))))
   = [''a'', ''b'']"
proof -
  have h: "\<not> tr_locked example_transport" "\<not> tr_renegotiate example_transport"
    "\<forall>ic pc. pc_current_remote_description example_ops (snd (pc_add_ice_candidate example_ops ic pc))
      = pc_current_remote_description example_ops pc"
    "pc_current_remote_description example_ops (tr_pc example_transport) = None
      \<or> tr_restarting_ice example_transport"
    by (simp_all add: example_ops_def example_transport_def on_offer_def transport_new_def)
  show ?thesis
    unfolding conjunct2 [OF candidates_buffered [OF example_accepts h, of _ "''answer''"]]
    by (simp add: example_ops_def example_transport_def on_offer_def transport_new_def add_all_def)
qed

theorem renegotiation_deadlocks_witness:
  "fst (set_remote_description example_ops ''answer''
     (snd (create_and_send_offer example_ops False
       (snd (create_and_send_offer example_ops False example_transport))))) = Blocked"
proof -
  let ?t = "snd (create_and_send_offer example_ops False example_transport)"
  have t: "\<not> tr_locked ?t" "pc_signaling_state example_ops (tr_pc ?t) = HaveLocalOffer"
    by (simp_all add: create_and_send_offer_def with_lock_def example_ops_def example_transport_def
        on_offer_def transport_new_def send_offer_def pc_call_def)
  show ?thesis
    using renegotiation_deadlocks [OF example_accepts t refl, of "''answer''"] by (metis prod.collapse)
qed

end
