(* ===== verification/Negotiation.thy ===== *)
theory Negotiation
  imports PeerTransport
begin

text \<open>
  The negotiation queue of \<open>livekit/src/rtc_engine/rtc_session.rs\<close> (\<open>NegotiationQueue\<close>,
  \<open>publisher_negotiation_needed\<close>, \<open>queue_negotiation\<close>, \<open>execute_negotiation_with_retry\<close>, and the
  part of \<open>on_signal_event\<close> that wakes the task): a request for a new publisher offer starts a task,
  or marks the running one for another round.

  The queue is shared by any number of callers, the spawned tasks and the signal handler without a common
  lock, so each atomic access is a step of its own and the steps interleave freely. \<open>nq_permit\<close> is
  the permit of the \<open>tokio\<close> \<open>Notify\<close>: \<open>notify_one\<close> stores it, \<open>notified\<close> takes it. \<open>nq_tasks\<close> lists
  every task that was ever spawned, so nothing in the model keeps two from running at a time.
\<close>

section \<open>Model\<close>

datatype (plugins only: code size) negotiation_state = Idle | InProgress | PendingRetry

text \<open>Where a task is; \<open>nq_offers\<close> counts the calls of \<open>create_and_send_offer\<close> that
  succeeded, on the way from \<open>Offering\<close> to \<open>Waiting\<close>.\<close>

datatype (plugins only: code size) task_point = LoopTop | Offering | Waiting | RoundDone | Leaving | Exited

record negotiation_queue =
  nq_state :: negotiation_state
  nq_permit :: bool
  nq_task_running :: bool
  nq_waiting_for_answer :: bool
  nq_tasks :: "task_point list"
  nq_markers :: nat
  nq_queuers :: nat
  nq_offers :: nat

definition nq_new :: negotiation_queue where
  "nq_new = \<lparr>nq_state = Idle, nq_permit = False, nq_task_running = False,
     nq_waiting_for_answer = False, nq_tasks = [], nq_markers = 0, nq_queuers = 0, nq_offers = 0\<rparr>"

text \<open>
  \<open>publisher_negotiation_needed\<close> (fast publish): it reads the flag, and only then locks the state;
  \<open>nq_markers\<close> and \<open>nq_queuers\<close> count the callers in between on its two branches.
\<close>

definition negotiation_needed :: "negotiation_queue \<Rightarrow> negotiation_queue" where
  "negotiation_needed q =
     (if nq_waiting_for_answer q then q\<lparr>nq_markers := Suc (nq_markers q)\<rparr>
      else q\<lparr>nq_queuers := Suc (nq_queuers q)\<rparr>)"

definition mark_for_retry :: "negotiation_queue \<Rightarrow> negotiation_queue" where
  "mark_for_retry q = q\<lparr>nq_markers := nq_markers q - 1, nq_state := PendingRetry\<rparr>"

definition queue_negotiation :: "negotiation_queue \<Rightarrow> negotiation_queue" where
  "queue_negotiation q =
     (let q = q\<lparr>nq_queuers := nq_queuers q - 1\<rparr> in
      case nq_state q of
        Idle \<Rightarrow>
          if nq_task_running q then q\<lparr>nq_task_running := True, nq_state := PendingRetry\<rparr>
          else q\<lparr>nq_task_running := True, nq_state := InProgress, nq_tasks := nq_tasks q @ [LoopTop]\<rparr>
      | InProgress \<Rightarrow> q\<lparr>nq_state := PendingRetry\<rparr>
      | PendingRetry \<Rightarrow> q)"

text \<open>The steps of \<open>execute_negotiation_with_retry\<close> and of the task around it, for the task \<open>i\<close>.\<close>

definition move_task :: "nat \<Rightarrow> task_point \<Rightarrow> negotiation_queue \<Rightarrow> negotiation_queue" where
  "move_task i p q = q\<lparr>nq_tasks := (nq_tasks q)[i := p]\<rparr>"

definition start_round :: "nat \<Rightarrow> negotiation_queue \<Rightarrow> negotiation_queue" where
  "start_round i q = move_task i Offering (q\<lparr>nq_waiting_for_answer := True\<rparr>)"

definition offer_done :: "nat \<Rightarrow> bool \<Rightarrow> negotiation_queue \<Rightarrow> negotiation_queue" where
  "offer_done i success q =
     (if success then move_task i Waiting (q\<lparr>nq_offers := Suc (nq_offers q)\<rparr>)
      else move_task i RoundDone (q\<lparr>nq_waiting_for_answer := False\<rparr>))"

definition answer_notified :: "nat \<Rightarrow> negotiation_queue \<Rightarrow> negotiation_queue" where
  "answer_notified i q = move_task i RoundDone (q\<lparr>nq_permit := False\<rparr>)"

definition answer_timeout :: "nat \<Rightarrow> negotiation_queue \<Rightarrow> negotiation_queue" where
  "answer_timeout i q = move_task i RoundDone (q\<lparr>nq_waiting_for_answer := False\<rparr>)"

definition finish_round :: "nat \<Rightarrow> negotiation_queue \<Rightarrow> negotiation_queue" where
  "finish_round i q =
     (case nq_state q of
        PendingRetry \<Rightarrow> move_task i LoopTop (q\<lparr>nq_state := InProgress\<rparr>)
      | _ \<Rightarrow> move_task i Leaving (q\<lparr>nq_state := Idle\<rparr>))"

definition task_exit :: "nat \<Rightarrow> negotiation_queue \<Rightarrow> negotiation_queue" where
  "task_exit i q = move_task i Exited (q\<lparr>nq_task_running := False\<rparr>)"

text \<open>The signal handler after it has set the answer.\<close>

definition answer_received :: "negotiation_queue \<Rightarrow> negotiation_queue" where
  "answer_received q =
     (if nq_waiting_for_answer q
      then q\<lparr>nq_waiting_for_answer := False, nq_permit := True\<rparr> else q)"

definition at :: "negotiation_queue \<Rightarrow> nat \<Rightarrow> task_point \<Rightarrow> bool" where
  "at q i p \<longleftrightarrow> i < length (nq_tasks q) \<and> nq_tasks q ! i = p"

inductive nq_step :: "negotiation_queue \<Rightarrow> negotiation_queue \<Rightarrow> bool" where
  needed: "nq_step q (negotiation_needed q)"
| mark: "0 < nq_markers q \<Longrightarrow> nq_step q (mark_for_retry q)"
| queue: "0 < nq_queuers q \<Longrightarrow> nq_step q (queue_negotiation q)"
| start: "at q i LoopTop \<Longrightarrow> nq_step q (start_round i q)"
| offer: "at q i Offering \<Longrightarrow> nq_step q (offer_done i success q)"
| notified: "at q i Waiting \<Longrightarrow> nq_permit q \<Longrightarrow> nq_step q (answer_notified i q)"
| timeout: "at q i Waiting \<Longrightarrow> nq_step q (answer_timeout i q)"
| finish: "at q i RoundDone \<Longrightarrow> nq_step q (finish_round i q)"
| exit: "at q i Leaving \<Longrightarrow> nq_step q (task_exit i q)"
| answer: "nq_step q (answer_received q)"

inductive_cases nq_stepE: "nq_step q q'"

definition nq_reach :: "negotiation_queue \<Rightarrow> bool" where
  "nq_reach q \<longleftrightarrow> nq_step\<^sup>*\<^sup>* nq_new q"

lemma nq_reach_step: "nq_reach q \<Longrightarrow> nq_step q q' \<Longrightarrow> nq_reach q'"
  unfolding nq_reach_def by (rule rtranclp.rtrancl_into_rtrancl)

lemmas nq_defs = negotiation_needed_def mark_for_retry_def queue_negotiation_def start_round_def
  offer_done_def answer_notified_def answer_timeout_def finish_round_def task_exit_def
  answer_received_def move_task_def

section \<open>Lemmas\<close>

text \<open>The tasks that still run, and those of them in their loop.\<close>

definition live :: "negotiation_queue \<Rightarrow> task_point list" where
  "live q = filter (\<lambda>p. p \<noteq> Exited) (nq_tasks q)"

definition active :: "task_point \<Rightarrow> bool" where
  "active p \<longleftrightarrow> p \<noteq> Exited \<and> p \<noteq> Leaving"

text \<open>There is at most one, and the flags say where it is.\<close>

definition nq_inv :: "negotiation_queue \<Rightarrow> bool" where
  "nq_inv q \<longleftrightarrow>
     (if nq_task_running q
      then \<exists>p. live q = [p] \<and> (active p \<longrightarrow> nq_state q \<noteq> Idle) \<and> (nq_state q = InProgress \<longrightarrow> active p)
      else live q = [] \<and> nq_state q \<noteq> InProgress)"

lemma filter_update:
  "i < length xs \<Longrightarrow> P (xs ! i) \<Longrightarrow> filter P xs = [p] \<Longrightarrow>
     xs ! i = p \<and> filter P (xs[i := r]) = (if P r then [r] else [])"
proof -
  assume i: "i < length xs" "P (xs ! i)" and p: "filter P xs = [p]"
  have xs: "filter P xs = filter P (take i xs) @ xs ! i # filter P (drop (Suc i) xs)"
    using i by (subst id_take_nth_drop [OF i(1)]) simp
  with p have "filter P (take i xs) = []" "filter P (drop (Suc i) xs) = []" "xs ! i = p"
    by (auto simp: append_eq_Cons_conv Cons_eq_append_conv)
  then show ?thesis using i(1) by (simp add: upd_conv_take_nth_drop)
qed

text \<open>A task that is not gone is the only one, and moves alone.\<close>

lemma at_live:
  assumes "at q i p" and "p \<noteq> Exited" and "nq_inv q"
  shows "nq_task_running q" and "live q = [p]"
    and "live (move_task i r q) = (if r = Exited then [] else [r])"
proof -
  have i: "i < length (nq_tasks q)" "nq_tasks q ! i = p" using assms(1) by (simp_all add: at_def)
  then have "p \<in> set (live q)" using assms(2) nth_mem [OF i(1)] by (simp add: live_def)
  then show run: "nq_task_running q" using assms(3) by (auto simp: nq_inv_def split: if_splits)
  then obtain p' where p': "live q = [p']" using assms(3) by (auto simp: nq_inv_def)
  then show "live q = [p]" "live (move_task i r q) = (if r = Exited then [] else [r])"
    using filter_update [of i "nq_tasks q" "\<lambda>p. p \<noteq> Exited" p' r] i assms(2)
    by (simp_all add: live_def move_task_def)
qed

lemma live_fields [simp]:
  "live (q\<lparr>nq_state := st\<rparr>) = live q" "live (q\<lparr>nq_permit := b\<rparr>) = live q"
  "live (q\<lparr>nq_task_running := b\<rparr>) = live q" "live (q\<lparr>nq_waiting_for_answer := b\<rparr>) = live q"
  "live (q\<lparr>nq_markers := n\<rparr>) = live q" "live (q\<lparr>nq_queuers := n\<rparr>) = live q" "live (q\<lparr>nq_offers := n\<rparr>) = live q"
  by (simp_all add: live_def)

lemma live_state:
  "live (move_task i r (q\<lparr>nq_state := st\<rparr>)) = live (move_task i r q)"
  "live (move_task i r (q\<lparr>nq_task_running := b\<rparr>)) = live (move_task i r q)"
  "nq_state (move_task i r q) = nq_state q" "nq_task_running (move_task i r q) = nq_task_running q"
  by (simp_all add: live_def move_task_def)

lemma live_spawn: "nq_tasks q' = nq_tasks q @ [LoopTop] \<Longrightarrow> live q' = live q @ [LoopTop]"
  by (simp add: live_def)

lemma nq_inv_move:
  assumes "at q i p" and "p \<noteq> Exited" and "nq_inv q" and "active p" and "active r"
    and "nq_state q' = nq_state q" and "nq_task_running q' = nq_task_running q" and "nq_tasks q' = (nq_tasks q)[i := r]"
  shows "nq_inv q'"
proof -
  have "live q' = live (move_task i r q)" using assms(8) by (simp add: live_def move_task_def)
  then have "live q' = [r]" using at_live(3) [OF assms(1-3), of r] assms(5) by (auto simp: active_def)
  moreover have "nq_state q \<noteq> Idle" using at_live [OF assms(1-3)] assms(3,4) by (auto simp: nq_inv_def)
  moreover have "nq_task_running q'" using at_live(1) [OF assms(1-3)] assms(7) by simp
  ultimately show ?thesis using assms(5,6) by (simp add: nq_inv_def)
qed

text \<open>A step that moves no task keeps the invariant when it keeps the state or marks it.\<close>

lemma nq_inv_mark:
  assumes "nq_inv q" and "nq_tasks q' = nq_tasks q" and "nq_task_running q' = nq_task_running q"
    and "nq_state q' = nq_state q \<or> nq_state q' = PendingRetry"
  shows "nq_inv q'"
proof -
  have "live q' = live q" using assms(2) by (simp add: live_def)
  moreover have "nq_state q' \<noteq> Idle" if "nq_state q \<noteq> Idle" using that assms(4) by auto
  moreover have "nq_state q = InProgress" if "nq_state q' = InProgress" using that assms(4) by auto
  ultimately show ?thesis using assms(1,3) unfolding nq_inv_def by (cases "nq_task_running q") auto
qed

lemma nq_inv_step: "nq_step q q' \<Longrightarrow> nq_inv q \<Longrightarrow> nq_inv q'"
proof (induction rule: nq_step.induct)
  case (queue q)
  show ?case
  proof (cases "nq_state q = Idle \<and> \<not> nq_task_running q")
    case True
    then have "live (queue_negotiation q) = live q @ [LoopTop]"
      by (intro live_spawn) (simp add: queue_negotiation_def Let_def)
    with True queue show ?thesis by (simp add: nq_inv_def queue_negotiation_def Let_def active_def)
  next
    case False
    then show ?thesis
      by (intro nq_inv_mark [OF queue(2)]; cases "nq_state q"; simp add: queue_negotiation_def Let_def)
  qed
next
  case (start q i)
  show ?case by (rule nq_inv_move [OF start.hyps _ start.prems, where r = Offering])
      (simp_all add: nq_defs active_def)
next
  case (offer q i success)
  show ?case
    by (rule nq_inv_move [OF offer.hyps _ offer.prems, where r = "if success then Waiting else RoundDone"])
      (simp_all add: nq_defs active_def)
next
  case (notified q i)
  show ?case by (rule nq_inv_move [OF notified.hyps(1) _ notified.prems, where r = RoundDone])
      (simp_all add: nq_defs active_def)
next
  case (timeout q i)
  show ?case by (rule nq_inv_move [OF timeout.hyps _ timeout.prems, where r = RoundDone])
      (simp_all add: nq_defs active_def)
next
  case (finish q i)
  then have "nq_task_running q" and "\<And>r. live (move_task i r q) = (if r = Exited then [] else [r])"
    using at_live [of q i RoundDone] by simp_all
  then show ?case
    by (cases "nq_state q") (auto simp: nq_inv_def finish_round_def active_def live_state)
next
  case (exit q i)
  then have "live q = [Leaving]" and "live (move_task i Exited q) = []" and "nq_task_running q"
    using at_live [of q i Leaving] by simp_all
  with exit show ?case by (auto simp: nq_inv_def task_exit_def active_def live_state)
next
  case (answer q)
  show ?case by (rule nq_inv_mark [OF answer]) (simp_all add: answer_received_def)
next
  case (needed q)
  show ?case by (rule nq_inv_mark [OF needed]) (simp_all add: negotiation_needed_def)
next
  case (mark q)
  show ?case by (rule nq_inv_mark [OF mark(2)]) (simp_all add: mark_for_retry_def)
qed

lemma nq_inv_reach: "nq_reach q \<Longrightarrow> nq_inv q"
  unfolding nq_reach_def
proof (induction rule: rtranclp_induct)
  case base
  show ?case by (simp add: nq_inv_def nq_new_def live_def)
next
  case (step y z)
  then show ?case by (blast intro: nq_inv_step)
qed

text \<open>A marked queue without a task is never served again.\<close>

definition abandoned :: "negotiation_queue \<Rightarrow> bool" where
  "abandoned q \<longleftrightarrow> nq_state q = PendingRetry \<and> live q = []"

lemma abandoned_step:
  assumes "nq_step q q'" and "abandoned q"
  shows "abandoned q' \<and> nq_offers q' = nq_offers q"
proof -
  have none: "\<not> at q i p" if "p \<noteq> Exited" for i p
    using assms(2) that by (auto simp: abandoned_def live_def at_def filter_empty_conv)
  from assms(1) none show ?thesis
    by cases (use assms(2) in \<open>auto simp: abandoned_def negotiation_needed_def mark_for_retry_def
        queue_negotiation_def answer_received_def Let_def\<close>)
qed

lemma abandoned_steps:
  "nq_step\<^sup>*\<^sup>* q q' \<Longrightarrow> abandoned q \<Longrightarrow> abandoned q' \<and> nq_offers q' = nq_offers q"
  by (induction rule: rtranclp_induct) (auto dest: abandoned_step)

section \<open>Properties\<close>

text \<open>
  C30. Whatever the interleaving, at most one of the spawned negotiation tasks still runs, and the running
  flag is set exactly while there is one. A state \<open>InProgress\<close> has a task in its loop; while a task is in
  its loop, a request is not lost: it marks the queue, and a mark that is there when a round ends makes the
  task do another round. Only a request between the last round and the end of the task is not served
  (\<open>negotiation_abandoned\<close>).
\<close>

theorem negotiation_single_task:
  assumes "nq_reach q"
  shows "length (live q) \<le> 1 \<and> (nq_task_running q \<longleftrightarrow> live q \<noteq> [])
    \<and> (nq_state q = InProgress \<longrightarrow> (\<exists>p \<in> set (live q). active p))
    \<and> (at q i p \<longrightarrow> active p \<longrightarrow> nq_state q \<noteq> Idle
        \<and> nq_state (mark_for_retry q) = PendingRetry \<and> nq_state (queue_negotiation q) = PendingRetry
        \<and> nq_tasks (queue_negotiation q) = nq_tasks q)
    \<and> (at q i RoundDone \<longrightarrow> nq_state q = PendingRetry \<longrightarrow> at (finish_round i q) i LoopTop)"
proof -
  have inv: "nq_inv q" by (rule nq_inv_reach [OF assms])
  have busy: "nq_state q \<noteq> Idle" if "at q i p" "active p"
    using that inv at_live(2) [OF that(1) _ inv] at_live(1) [OF that(1) _ inv]
    by (auto simp: nq_inv_def active_def)
  show ?thesis
    using inv busy
    by (auto simp: nq_inv_def mark_for_retry_def queue_negotiation_def finish_round_def move_task_def at_def
        Let_def split: if_splits negotiation_state.splits)
qed

text \<open>A task waits for the answer to its offer, and another request has been marked.\<close>

definition busy_queue :: negotiation_queue where
  "busy_queue = mark_for_retry (negotiation_needed
     (offer_done 0 True (start_round 0 (queue_negotiation (negotiation_needed nq_new)))))"

lemma queue_reach: "nq_reach (queue_negotiation (negotiation_needed nq_new))"
proof -
  have "nq_reach nq_new" by (simp add: nq_reach_def)
  then show ?thesis by (intro nq_reach_step [OF _ queue] nq_reach_step [OF _ needed]) (auto simp: nq_defs nq_new_def)
qed

lemma offered_reach: "nq_reach (offer_done 0 True (start_round 0 (queue_negotiation (negotiation_needed nq_new))))"
  using nq_reach_step [OF nq_reach_step [OF queue_reach start] offer, of 0 0 True]
  by (simp add: nq_defs nq_new_def at_def)

lemma busy_queue_reach: "nq_reach busy_queue"
  unfolding busy_queue_def
  by (rule nq_reach_step [OF nq_reach_step [OF offered_reach needed] mark]) (simp add: nq_defs nq_new_def)

theorem negotiation_single_task_witness:
  "length (live busy_queue) \<le> 1 \<and> live busy_queue = [Waiting]
   \<and> nq_tasks (queue_negotiation busy_queue) = nq_tasks busy_queue"
  using negotiation_single_task [OF busy_queue_reach, of 0 Waiting]
  by (simp add: busy_queue_def nq_defs nq_new_def at_def live_def active_def)

text \<open>
  A request can be lost for good: when it comes after the last round has set the state to idle
  and before the task has cleared its running flag, it only marks the state; the task then goes away,
  and from then on every request finds the mark and starts nothing, so no offer is ever sent again.
\<close>

theorem negotiation_abandoned:
  assumes "nq_reach q" and "at q i Leaving" and "nq_state q = Idle" and "0 < nq_queuers q"
    and "nq_step\<^sup>*\<^sup>* (task_exit i (queue_negotiation q)) q'"
  shows "nq_reach (task_exit i (queue_negotiation q))
    \<and> nq_state q' = PendingRetry \<and> live q' = [] \<and> nq_offers q' = nq_offers q"
proof -
  have inv: "nq_inv q" by (rule nq_inv_reach [OF assms(1)])
  have r: "nq_task_running q" using at_live(1) [OF assms(2) _ inv] by simp
  have q1: "queue_negotiation q = q\<lparr>nq_queuers := nq_queuers q - 1, nq_state := PendingRetry\<rparr>"
    using assms(3) r by (simp add: queue_negotiation_def Let_def)
  have s1: "nq_reach (queue_negotiation q)" using nq_reach_step [OF assms(1) queue [OF assms(4)]] .
  have "at (queue_negotiation q) i Leaving" using assms(2) by (simp add: q1 at_def)
  then have s2: "nq_reach (task_exit i (queue_negotiation q))" by (rule nq_reach_step [OF s1 exit])
  have "live (task_exit i (queue_negotiation q)) = []"
    using at_live(3) [OF assms(2) _ inv, of Exited] by (simp add: q1 task_exit_def move_task_def live_def)
  then have "abandoned (task_exit i (queue_negotiation q))"
    by (simp add: q1 abandoned_def task_exit_def move_task_def)
  from abandoned_steps [OF assms(5) this] s2 show ?thesis
    by (simp add: q1 abandoned_def task_exit_def move_task_def)
qed

text \<open>The first task has had its answer and is about to leave; a request has read the flag.\<close>

definition leaving_queue :: negotiation_queue where
  "leaving_queue = negotiation_needed (finish_round 0 (answer_notified 0 (answer_received
     (offer_done 0 True (start_round 0 (queue_negotiation (negotiation_needed nq_new)))))))"

lemma leaving_queue_reach: "nq_reach leaving_queue"
proof -
  let ?b = "answer_received (offer_done 0 True (start_round 0 (queue_negotiation (negotiation_needed nq_new))))"
  have "nq_reach ?b" by (rule nq_reach_step [OF offered_reach answer])
  then have "nq_reach (answer_notified 0 ?b)"
    by (rule nq_reach_step [OF _ notified]) (simp_all add: nq_defs nq_new_def at_def)
  then have "nq_reach (finish_round 0 (answer_notified 0 ?b))"
    by (rule nq_reach_step [OF _ finish]) (simp add: nq_defs nq_new_def at_def)
  then show ?thesis unfolding leaving_queue_def by (rule nq_reach_step [OF _ needed])
qed

theorem negotiation_abandoned_witness:
  "nq_reach (task_exit 0 (queue_negotiation leaving_queue))
    \<and> nq_state (task_exit 0 (queue_negotiation leaving_queue)) = PendingRetry"
  using negotiation_abandoned [OF leaving_queue_reach _ _ _ rtranclp.rtrancl_refl, of 0]
  by (simp add: leaving_queue_def nq_defs nq_new_def at_def)

end
