(* ===== verification/Signal.thy ===== *)
theory Signal
  imports Proto PeerTransport
begin

text \<open>
  The messages between the layers of the SDK: the participant, track and room descriptions of the
  signalling protocol, the events a session emits to the engine (\<open>SessionEvent\<close> of
  \<open>rtc_session.rs\<close>) and those the engine emits to the room (\<open>EngineEvent\<close> of
  \<open>rtc_engine/mod.rs\<close>). Media objects of libwebrtc are tokens with the parts the code reads.

  A field of enumeration type that the code only reads through its getter is given as what the
  getter returns, the default variant for an unknown number.

  An \<open>f32\<close> audio level is \<open>NaN\<close> or a finite number, given as its multiple of the smallest
  positive \<open>f32\<close>; that is all its comparison looks at.
\<close>

section \<open>Descriptions\<close>

datatype (plugins only: code size) encryption_type = NoEncryption | Gcm | CustomEncryption

record proto_track_info =
  pti_sid :: string
  pti_type :: proto_track_type
  pti_name :: string
  pti_muted :: bool
  pti_width :: u32
  pti_height :: u32
  pti_simulcast :: bool
  pti_source :: track_source
  pti_mime_type :: string
  pti_encryption :: encryption_type
  pti_audio_features :: "nat list"

definition STATE_DISCONNECTED :: int where "STATE_DISCONNECTED = 3"

record proto_participant_info =
  ppi_sid :: string
  ppi_identity :: string
  ppi_state :: int
  ppi_tracks :: "proto_track_info list"
  ppi_metadata :: string
  ppi_name :: string
  ppi_kind :: participant_kind
  ppi_attributes :: "(string, string) hmap"
  ppi_disconnect_reason :: disconnect_reason

record proto_room =
  prm_sid :: string
  prm_name :: string
  prm_empty_timeout :: u32
  prm_departure_timeout :: u32
  prm_max_participants :: u32
  prm_creation_time :: int
  prm_creation_time_ms :: int
  prm_metadata :: string
  prm_num_participants :: u32
  prm_num_publishers :: u32
  prm_active_recording :: bool

datatype (plugins only: code size) f32 = NaN | Num int

text \<open>\<open>PartialOrd\<close>: no comparison with \<open>NaN\<close> holds.\<close>

instantiation f32 :: ord
begin

fun less_eq_f32 :: "f32 \<Rightarrow> f32 \<Rightarrow> bool" where
  "less_eq_f32 (Num a) (Num b) = (a \<le> b)"
| "less_eq_f32 _ _ = False"

fun less_f32 :: "f32 \<Rightarrow> f32 \<Rightarrow> bool" where
  "less_f32 (Num a) (Num b) = (a < b)"
| "less_f32 _ _ = False"

instance ..

end

record speaker_info =
  spk_sid :: string
  spk_level :: f32
  spk_active :: bool

record connection_quality_info =
  cqi_participant_sid :: string
  cqi_quality :: connection_quality

record join_response =
  jr_room :: "proto_room option"
  jr_participant :: "proto_participant_info option"
  jr_other_participants :: "proto_participant_info list"

record reconnect_response =
  rr_last_message_seq :: u32

record room_moved_response =
  rmr_room :: "proto_room option"
  rmr_token :: string
  rmr_participant :: "proto_participant_info option"
  rmr_other_participants :: "proto_participant_info list"

record media_track =
  mt_id :: string
  mt_kind :: track_kind

record media_stream =
  ms_id :: string

section \<open>Session events\<close>

datatype (plugins only: code size) session_event =
    SeParticipantUpdate "proto_participant_info list"
  | SeData "participant_sid option" "participant_identity option" "byte list" "string option"
      data_packet_kind
  | SeChatMessage participant_identity chat_message
  | SeTranscription participant_identity string "transcription_segment list"
  | SeSipDTMF "participant_identity option" u32 "string option"
  | SeRpcRequest "participant_identity option" string string string nat u32
  | SeRpcResponse string "string option" "proto_rpc_error option"
  | SeRpcAck string
  | SeMediaTrack media_track media_stream nat
  | SeSpeakersChanged "speaker_info list"
  | SeConnectionQuality "connection_quality_info list"
  | SeRoomUpdate proto_room
  | SeRoomMoved room_moved_response
  | SeLocalTrackSubscribed string
  | SeClose string disconnect_reason leave_action bool
  | SeDataStreamHeader proto_header string
  | SeDataStreamChunk proto_chunk string
  | SeDataStreamTrailer proto_trailer string
  | SeThresholdChanged data_packet_kind u64
  | SeRefreshToken string string

section \<open>Engine events\<close>

datatype (plugins only: code size) engine_event =
    EeParticipantUpdate "proto_participant_info list"
  | EeMediaTrack media_track media_stream nat
  | EeData "participant_sid option" "participant_identity option" "byte list" "string option"
      data_packet_kind
  | EeChatMessage participant_identity chat_message
  | EeTranscription participant_identity string "transcription_segment list"
  | EeSipDTMF "participant_identity option" u32 "string option"
  | EeRpcRequest "participant_identity option" string string string nat u32
  | EeRpcResponse string "string option" "proto_rpc_error option"
  | EeRpcAck string
  | EeSpeakersChanged "speaker_info list"
  | EeConnectionQuality "connection_quality_info list"
  | EeRoomUpdate proto_room
  | EeRoomMoved room_moved_response
  | EeResuming
  | EeResumed
  | EeSignalResumed reconnect_response
  | EeRestarting
  | EeRestarted
  | EeSignalRestarted join_response
  | EeDisconnected disconnect_reason
  | EeLocalTrackSubscribed string
  | EeDataStreamHeader proto_header string
  | EeDataStreamChunk proto_chunk string
  | EeDataStreamTrailer proto_trailer string
  | EeThresholdChanged data_packet_kind u64
  | EeRefreshToken string string

end
