(* ===== verification/Engine.thy ===== *)
theory Engine
  imports Signal
begin

text \<open>
  \<open>livekit/src/rtc_engine/mod.rs\<close>: the engine forwards the events of the current session to the
  room, and recovers a lost connection: it tries to resume the session, falls back to a new
  session, up to ten attempts, and closes when all fail.

  Sessions are numbers. The fallible operations of a session (connecting, restarting the signal
  connection, waiting for the peer connections) are outside this component: their results are
  taken one after the other from \<open>eg_results\<close>. At every \<open>await\<close> other tasks may run: what they do
  there is the head of \<open>eg_schedule\<close>, a list of calls of \<open>close\<close> and \<open>reconnection_needed\<close>. The tasks
  that the engine spawns wait in \<open>eg_spawned\<close> until \<open>engine_turn\<close> runs one of them.
\<close>

section \<open>State\<close>

definition RECONNECT_ATTEMPTS :: nat where "RECONNECT_ATTEMPTS = 10"

text \<open>What another task does at an await.\<close>

datatype (plugins only: code size) engine_call =
    CallClose disconnect_reason
  | CallReconnectionNeeded bool bool

text \<open>What the engine spawns: a reset of the interval, the reconnection, a close.\<close>

datatype (plugins only: code size) engine_spawned =
    SpawnedReset
  | SpawnedReconnection
  | SpawnedClose disconnect_reason

datatype (plugins only: code size) session_result =
    ConnectResult "engine_error + join_response"
  | RestartResult "engine_error + reconnect_response"
  | PublisherResult "engine_error + unit"
  | WaitResult "engine_error + unit"

record engine =
  eg_session :: nat
  eg_closed :: bool
  eg_reconnecting :: bool
  eg_can_reconnect :: bool
  eg_full_reconnect :: bool
  eg_engine_task :: "nat option"
  eg_out :: "engine_event list"
  eg_closed_sessions :: "nat list"
  eg_next_session :: nat
  eg_interval_resets :: nat
  eg_spawned :: "engine_spawned list"
  eg_schedule :: "engine_call list list"
  eg_results :: "session_result list"

text \<open>The engine right after \<open>connect\<close>.\<close>

definition engine_start :: "engine_call list list \<Rightarrow> session_result list \<Rightarrow> engine" where
  "engine_start schedule results =
     \<lparr>eg_session = 0, eg_closed = False, eg_reconnecting = False, eg_can_reconnect = True,
      eg_full_reconnect = False, eg_engine_task = Some 0, eg_out = [], eg_closed_sessions = [],
      eg_next_session = 1, eg_interval_resets = 0, eg_spawned = [],
      eg_schedule = schedule, eg_results = results\<rparr>"

definition engine_send :: "engine_event \<Rightarrow> engine \<Rightarrow> engine" where
  "engine_send ev e = e\<lparr>eg_out := eg_out e @ [ev]\<rparr>"

section \<open>Connecting\<close>

text \<open>
  \<open>EngineInner::connect\<close>: one attempt and up to \<open>join_retries\<close> more; the results of the attempts
  are an argument. The last error is returned; with no attempt at all the code would panic, which
  \<open>0..(max_retries + 1)\<close> excludes (unless \<open>max_retries\<close> is the largest \<open>u32\<close>, and the sum wraps).
\<close>

fun connect_loop :: "nat \<Rightarrow> (engine_error + 'a) list \<Rightarrow> engine_error option \<Rightarrow> (engine_error + 'a) option" where
  "connect_loop 0 results last_error = map_option Inl last_error"
| "connect_loop (Suc n) [] last_error = None"
| "connect_loop (Suc n) (Inr r # results) last_error = Some (Inr r)"
| "connect_loop (Suc n) (Inl e # results) last_error = connect_loop n results (Some e)"

definition engine_connect :: "u32 \<Rightarrow> (engine_error + 'a) list \<Rightarrow> (engine_error + 'a) option" where
  "engine_connect max_retries results = connect_loop (unat (max_retries + 1)) results None"

section \<open>Closing\<close>

text \<open>
  \<open>close\<close>: it marks the engine closed, takes the engine task, and only when there is one closes
  the session, ends the task and tells the room.
\<close>

definition engine_close :: "disconnect_reason \<Rightarrow> engine \<Rightarrow> engine" where
  "engine_close reason e =
     (let e = e\<lparr>eg_closed := True\<rparr> in
      case eg_engine_task e of
        Some task \<Rightarrow>
          engine_send (EeDisconnected reason)
            (e\<lparr>eg_engine_task := None, eg_closed_sessions := eg_session e # eg_closed_sessions e\<rparr>)
      | None \<Rightarrow> e)"

text \<open>\<open>wait_reconnection\<close> once the reconnection lock is free.\<close>

definition wait_reconnection :: "engine \<Rightarrow> engine_error + nat" where
  "wait_reconnection e =
     (if eg_closed e then Inl (ConnectionErr ''engine is closed'') else Inr (eg_session e))"

section \<open>Reconnecting\<close>

definition engine_spawn :: "engine_spawned \<Rightarrow> engine \<Rightarrow> engine" where
  "engine_spawn task e = e\<lparr>eg_spawned := eg_spawned e @ [task]\<rparr>"

definition reconnection_needed :: "bool \<Rightarrow> bool \<Rightarrow> engine \<Rightarrow> engine" where
  "reconnection_needed retry_now full_reconnect e =
     (if \<not> eg_can_reconnect e then e
      else if eg_reconnecting e then
        let e = e\<lparr>eg_full_reconnect := full_reconnect\<rparr>
        in if retry_now then engine_spawn SpawnedReset e else e
      else engine_spawn SpawnedReconnection
        (e\<lparr>eg_reconnecting := True, eg_full_reconnect := full_reconnect\<rparr>))"

fun engine_call_step :: "engine_call \<Rightarrow> engine \<Rightarrow> engine" where
  "engine_call_step (CallClose reason) e = engine_close reason e"
| "engine_call_step (CallReconnectionNeeded now full) e = reconnection_needed now full e"

definition await :: "engine \<Rightarrow> engine" where
  "await e =
     (case eg_schedule e of
        [] \<Rightarrow> e
      | calls # rest \<Rightarrow> fold engine_call_step calls (e\<lparr>eg_schedule := rest\<rparr>))"

text \<open>An operation of a session: other tasks run, then its result is there.\<close>

definition no_result :: engine_error where "no_result = ConnectionErr ''no result''"

definition next_connect :: "engine \<Rightarrow> (engine_error + join_response) \<times> engine" where
  "next_connect e =
     (let e = await e in
      case eg_results e of
        ConnectResult r # rest \<Rightarrow> (r, e\<lparr>eg_results := rest\<rparr>)
      | _ \<Rightarrow> (Inl no_result, e))"

definition next_restart :: "engine \<Rightarrow> (engine_error + reconnect_response) \<times> engine" where
  "next_restart e =
     (let e = await e in
      case eg_results e of
        RestartResult r # rest \<Rightarrow> (r, e\<lparr>eg_results := rest\<rparr>)
      | _ \<Rightarrow> (Inl no_result, e))"

definition next_publisher :: "engine \<Rightarrow> (engine_error + unit) \<times> engine" where
  "next_publisher e =
     (let e = await e in
      case eg_results e of
        PublisherResult r # rest \<Rightarrow> (r, e\<lparr>eg_results := rest\<rparr>)
      | _ \<Rightarrow> (Inl no_result, e))"

definition next_wait :: "engine \<Rightarrow> (engine_error + unit) \<times> engine" where
  "next_wait e =
     (let e = await e in
      case eg_results e of
        WaitResult r # rest \<Rightarrow> (r, e\<lparr>eg_results := rest\<rparr>)
      | _ \<Rightarrow> (Inl no_result, e))"

text \<open>An event with a \<open>oneshot\<close> channel: the engine waits for the room's answer.\<close>

definition notify_room :: "engine_event \<Rightarrow> engine \<Rightarrow> engine" where
  "notify_room ev e = await (engine_send ev e)"

definition take_and_close_session :: "engine \<Rightarrow> engine" where
  "take_and_close_session e =
     (case eg_engine_task e of
        None \<Rightarrow> e
      | Some _ \<Rightarrow> await (e\<lparr>eg_engine_task := None,
                            eg_closed_sessions := eg_session e # eg_closed_sessions e\<rparr>))"

definition try_restart_connection :: "engine \<Rightarrow> (engine_error + unit) \<times> engine" where
  "try_restart_connection e =
     (case next_connect (take_and_close_session e) of
        (Inl err, e) \<Rightarrow> (Inl err, e)
      | (Inr join_response, e) \<Rightarrow>
          let new_session = eg_next_session e;
              e = notify_room (EeSignalRestarted join_response) (e\<lparr>eg_next_session := Suc new_session\<rparr>)
          in case next_wait e of
               (Inl err, e) \<Rightarrow> (Inl err, e)
             | (Inr _, e) \<Rightarrow>
                 (Inr (), e\<lparr>eg_session := new_session, eg_engine_task := Some new_session\<rparr>))"

definition try_resume_connection :: "engine \<Rightarrow> (engine_error + unit) \<times> engine" where
  "try_resume_connection e =
     (case next_restart e of
        (Inl err, e) \<Rightarrow> (Inl err, e)
      | (Inr reconnect_response, e) \<Rightarrow>
          (case next_publisher (notify_room (EeSignalResumed reconnect_response) e) of
             (Inl err, e) \<Rightarrow> (Inl err, e)
           | (Inr _, e) \<Rightarrow> next_wait e))"

fun is_signal_err :: "engine_error \<Rightarrow> bool" where
  "is_signal_err (SignalErr _) = True"
| "is_signal_err _ = False"

definition attempt :: "nat \<Rightarrow> engine \<Rightarrow> (engine_error + bool) \<times> engine" where
  "attempt i e =
     (if eg_closed e then (Inl (ConnectionErr ''attempt canncelled, engine is closed''), e)
      else if eg_full_reconnect e then
        let e = (if i = 0 then notify_room EeRestarting e else e) in
        case try_restart_connection e of
          (Inl _, e) \<Rightarrow> (Inr False, e)
        | (Inr _, e) \<Rightarrow> (Inr True, notify_room EeRestarted e)
      else
        let e = (if i = 0 then notify_room EeResuming e else e) in
        case try_resume_connection e of
          (Inl err, e) \<Rightarrow> (Inr False, if is_signal_err err then e else e\<lparr>eg_full_reconnect := True\<rparr>)
        | (Inr _, e) \<Rightarrow> (Inr True, notify_room EeResumed e))"

text \<open>
  The loop of \<open>reconnect_task\<close> from attempt \<open>i\<close> with \<open>n\<close> attempts left; between attempts it waits
  for a tick of the interval.
\<close>

fun reconnect_loop :: "nat \<Rightarrow> nat \<Rightarrow> engine \<Rightarrow> (engine_error + unit) \<times> engine" where
  "reconnect_loop i 0 e = (Inl (ConnectionErr ''failed to reconnect after 10''), e)"
| "reconnect_loop i (Suc n) e =
     (case attempt i e of
        (Inl err, e) \<Rightarrow> (Inl err, e)
      | (Inr True, e) \<Rightarrow> (Inr (), e)
      | (Inr False, e) \<Rightarrow> reconnect_loop (Suc i) n (await e))"

definition reconnect_task :: "engine \<Rightarrow> (engine_error + unit) \<times> engine" where
  "reconnect_task e = reconnect_loop 0 RECONNECT_ATTEMPTS e"

text \<open>The task that \<open>reconnection_needed\<close> spawns, once it has the reconnection lock.\<close>

definition reconnection :: "engine \<Rightarrow> engine" where
  "reconnection e =
     (let (res, e) = reconnect_task e;
          e = (case res of Inl _ \<Rightarrow> engine_close UnknownReason e | Inr _ \<Rightarrow> e)
      in e\<lparr>eg_reconnecting := False\<rparr>)"

text \<open>A spawned task runs; one waits for nothing but the locks, and one reconnection holds its lock to the end.\<close>

fun engine_spawned_run :: "engine_spawned \<Rightarrow> engine \<Rightarrow> engine" where
  "engine_spawned_run SpawnedReset e = e\<lparr>eg_interval_resets := Suc (eg_interval_resets e)\<rparr>"
| "engine_spawned_run SpawnedReconnection e = reconnection e"
| "engine_spawned_run (SpawnedClose reason) e = engine_close reason e"

definition engine_turn :: "nat \<Rightarrow> engine \<Rightarrow> engine" where
  "engine_turn k e =
     (if k < length (eg_spawned e)
      then engine_spawned_run (eg_spawned e ! k)
        (e\<lparr>eg_spawned := take k (eg_spawned e) @ drop (Suc k) (eg_spawned e)\<rparr>)
      else e)"

section \<open>Session events\<close>

definition on_session_event :: "session_event \<Rightarrow> engine \<Rightarrow> engine" where
  "on_session_event ev e =
     (case ev of
        SeClose source reason action retry_now \<Rightarrow>
          (case action of
             ActResume \<Rightarrow> reconnection_needed retry_now False e
           | ActReconnect \<Rightarrow> reconnection_needed retry_now True e
           | ActDisconnect \<Rightarrow> engine_spawn (SpawnedClose reason) (e\<lparr>eg_can_reconnect := False\<rparr>))
      | SeData sid identity payload topic kind \<Rightarrow> engine_send (EeData sid identity payload topic kind) e
      | SeChatMessage identity message \<Rightarrow> engine_send (EeChatMessage identity message) e
      | SeSipDTMF identity code digit \<Rightarrow> engine_send (EeSipDTMF identity code digit) e
      | SeTranscription identity track_sid segments \<Rightarrow>
          engine_send (EeTranscription identity track_sid segments) e
      | SeRpcRequest caller i method payload timeout version \<Rightarrow>
          engine_send (EeRpcRequest caller i method payload timeout version) e
      | SeRpcResponse i payload error \<Rightarrow> engine_send (EeRpcResponse i payload error) e
      | SeRpcAck i \<Rightarrow> engine_send (EeRpcAck i) e
      | SeMediaTrack track stream transceiver \<Rightarrow> engine_send (EeMediaTrack track stream transceiver) e
      | SeParticipantUpdate updates \<Rightarrow> engine_send (EeParticipantUpdate updates) e
      | SeSpeakersChanged speakers \<Rightarrow> engine_send (EeSpeakersChanged speakers) e
      | SeConnectionQuality updates \<Rightarrow> engine_send (EeConnectionQuality updates) e
      | SeRoomUpdate room \<Rightarrow> engine_send (EeRoomUpdate room) e
      | SeRoomMoved moved \<Rightarrow> engine_send (EeRoomMoved moved) e
      | SeLocalTrackSubscribed sid \<Rightarrow> engine_send (EeLocalTrackSubscribed sid) e
      | SeDataStreamHeader header identity \<Rightarrow> engine_send (EeDataStreamHeader header identity) e
      | SeDataStreamChunk chunk identity \<Rightarrow> engine_send (EeDataStreamChunk chunk identity) e
      | SeDataStreamTrailer trailer identity \<Rightarrow> engine_send (EeDataStreamTrailer trailer identity) e
      | SeThresholdChanged kind threshold \<Rightarrow> engine_send (EeThresholdChanged kind threshold) e
      | SeRefreshToken url token \<Rightarrow> engine_send (EeRefreshToken url token) e)"

section \<open>Lemmas\<close>

text \<open>
  A session that closes makes the engine spawn one reconnection: it runs from the state with the flag, and
  no event spawns another before it is done.
\<close>

lemma close_event_recovers:
  assumes "eg_can_reconnect e" and "\<not> eg_reconnecting e" and "eg_spawned e = []"
  shows "engine_turn 0 (on_session_event (SeClose source reason ActReconnect retry_now) e)
      = reconnection (e\<lparr>eg_reconnecting := True, eg_full_reconnect := True\<rparr>)"
    and "engine_turn 0 (on_session_event (SeClose source reason ActResume retry_now) e)
      = reconnection (e\<lparr>eg_reconnecting := True, eg_full_reconnect := False\<rparr>)"
  using assms by (cases e, simp add: on_session_event_def reconnection_needed_def engine_turn_def engine_spawn_def)+

lemma reconnecting_spawns_none:
  assumes "eg_reconnecting e"
  shows "filter (\<lambda>task. task = SpawnedReconnection) (eg_spawned (on_session_event ev e))
    = filter (\<lambda>task. task = SpawnedReconnection) (eg_spawned e)"
  using assms by (cases ev) (auto simp: on_session_event_def reconnection_needed_def engine_spawn_def engine_send_def
      Let_def split: leave_action.splits)

text \<open>Everything the engine does only adds events; what it never adds in a resume.\<close>

definition extends :: "(engine_event \<Rightarrow> bool) \<Rightarrow> engine \<Rightarrow> engine \<Rightarrow> bool" where
  "extends P e e' \<longleftrightarrow> (\<exists>evs. eg_out e' = eg_out e @ evs \<and> list_all P evs)"

lemma extends_refl [simp]: "extends P e e"
  by (auto simp: extends_def)

lemma extends_trans: "extends P e e' \<Longrightarrow> extends P e' e'' \<Longrightarrow> extends P e e''"
  by (auto simp: extends_def)

lemma extends_send: "P ev \<Longrightarrow> extends P e (engine_send ev e)"
  by (auto simp: extends_def engine_send_def)

lemma extends_same: "eg_out e' = eg_out e \<Longrightarrow> extends P e e'"
  by (auto simp: extends_def)

definition quiet :: "(engine_event \<Rightarrow> bool) \<Rightarrow> bool" where
  "quiet P \<longleftrightarrow> (\<forall>r. P (EeDisconnected r))"

lemma extends_call: "quiet P \<Longrightarrow> extends P e (engine_call_step c e)"
  by (cases c) (auto simp: extends_def quiet_def engine_close_def engine_send_def Let_def
      reconnection_needed_def engine_spawn_def split: option.splits)

lemma extends_await: "quiet P \<Longrightarrow> extends P e (await e)"
proof -
  assume q: "quiet P"
  have "extends P e (fold engine_call_step cs e)" for cs e
    by (induction cs arbitrary: e) (auto intro: extends_trans [OF extends_call [OF q]])
  moreover have "extends P e (e\<lparr>eg_schedule := s\<rparr>)" for s by (rule extends_same) simp
  ultimately show ?thesis
    by (auto simp: await_def intro: extends_trans split: list.splits)
qed

lemma extends_next:
  assumes "quiet P"
  shows "extends P e (snd (next_connect e))" "extends P e (snd (next_restart e))"
    "extends P e (snd (next_publisher e))" "extends P e (snd (next_wait e))"
proof -
  have r: "extends P e (await e\<lparr>eg_results := r\<rparr>)" for r
    using extends_await [OF assms, of e] by (rule extends_trans) (rule extends_same, simp)
  show "extends P e (snd (next_connect e))" "extends P e (snd (next_restart e))"
    "extends P e (snd (next_publisher e))" "extends P e (snd (next_wait e))"
    using r extends_await [OF assms, of e]
    by (auto simp: next_connect_def next_restart_def next_publisher_def next_wait_def Let_def
        split: list.splits session_result.splits)
qed

lemma extends_notify: "quiet P \<Longrightarrow> P ev \<Longrightarrow> extends P e (notify_room ev e)"
  unfolding notify_room_def by (rule extends_trans [OF extends_send extends_await])

lemma extends_take: "quiet P \<Longrightarrow> extends P e (take_and_close_session e)"
  by (auto simp: take_and_close_session_def split: option.splits
      intro!: extends_trans [OF extends_same extends_await])

lemma extends_restart:
  assumes "quiet P" "\<forall>j. P (EeSignalRestarted j)"
  shows "extends P e (snd (try_restart_connection e))"
proof -
  obtain r e1 where c: "next_connect (take_and_close_session e) = (r, e1)"
    by (cases "next_connect (take_and_close_session e)")
  have e1: "extends P e e1"
    using extends_trans [OF extends_take [OF assms(1)] extends_next(1) [OF assms(1)]] c by (metis snd_conv)
  show ?thesis
  proof (cases r)
    case (Inl err)
    with c e1 show ?thesis by (simp add: try_restart_connection_def)
  next
    case (Inr j)
    let ?e2 = "notify_room (EeSignalRestarted j) (e1\<lparr>eg_next_session := Suc (eg_next_session e1)\<rparr>)"
    obtain w e3 where w: "next_wait ?e2 = (w, e3)" by (cases "next_wait ?e2")
    have "extends P e1 ?e2"
      by (rule extends_trans [OF extends_same extends_notify]) (simp_all add: assms)
    then have "extends P e e3"
      using e1 extends_next(4) [OF assms(1), of ?e2] w by (metis extends_trans snd_conv)
    with c Inr w show ?thesis
      by (cases w) (auto simp: try_restart_connection_def Let_def
          intro: extends_trans [OF _ extends_same])
  qed
qed

lemma extends_resume:
  assumes "quiet P" "\<forall>j. P (EeSignalResumed j)"
  shows "extends P e (snd (try_resume_connection e))"
proof -
  obtain r e1 where c: "next_restart e = (r, e1)" by (cases "next_restart e")
  have e1: "extends P e e1" using extends_next(2) [OF assms(1), of e] c by simp
  show ?thesis
  proof (cases r)
    case (Inl err)
    with c e1 show ?thesis by (simp add: try_resume_connection_def)
  next
    case (Inr j)
    let ?e2 = "notify_room (EeSignalResumed j) e1"
    obtain w e3 where w: "next_publisher ?e2 = (w, e3)" by (cases "next_publisher ?e2")
    have "extends P e1 ?e2" by (rule extends_notify) (simp_all add: assms)
    then have e3: "extends P e e3"
      using e1 extends_next(3) [OF assms(1), of ?e2] w by (metis extends_trans snd_conv)
    with c Inr w extends_next(4) [OF assms(1), of e3] show ?thesis
      by (cases w) (auto simp: try_resume_connection_def intro: extends_trans)
  qed
qed

definition no_restarting :: "engine_event \<Rightarrow> bool" where
  "no_restarting ev \<longleftrightarrow> ev \<noteq> EeRestarting"

lemma no_restarting_quiet: "quiet no_restarting"
  by (simp add: quiet_def no_restarting_def)

lemma attempt_no_restarting:
  assumes "0 < i \<or> \<not> eg_full_reconnect e"
  shows "extends no_restarting e (snd (attempt i e))"
proof -
  have n: "extends no_restarting e (notify_room ev e)" if "ev \<noteq> EeRestarting" for ev e
    using extends_notify [OF no_restarting_quiet] that by (simp add: no_restarting_def)
  have rs: "extends no_restarting e (snd (try_restart_connection e))"
    "extends no_restarting e (snd (try_resume_connection e))" for e
    using extends_restart [OF no_restarting_quiet] extends_resume [OF no_restarting_quiet]
    by (simp_all add: no_restarting_def)
  consider "eg_closed e" | "\<not> eg_closed e" "eg_full_reconnect e" "0 < i"
    | "\<not> eg_closed e" "\<not> eg_full_reconnect e" using assms by blast
  then show ?thesis
  proof cases
    case 1
    then show ?thesis by (simp add: attempt_def)
  next
    case 2
    obtain r e1 where r: "try_restart_connection e = (r, e1)" by (cases "try_restart_connection e")
    with rs(1) [of e] n [of EeRestarted e1] 2 show ?thesis
      by (cases r) (auto simp: attempt_def Let_def intro: extends_trans)
  next
    case 3
    let ?e = "if i = 0 then notify_room EeResuming e else e"
    obtain r e1 where r: "try_resume_connection ?e = (r, e1)" by (cases "try_resume_connection ?e")
    have "extends no_restarting e ?e" using n [of EeResuming e] by simp
    then have e1: "extends no_restarting e e1" using rs(2) [of ?e] r by (metis extends_trans snd_conv)
    have "extends no_restarting e1 (e1\<lparr>eg_full_reconnect := True\<rparr>)" by (rule extends_same) simp
    with 3 r e1 n [of EeResumed e1] show ?thesis
      by (cases r) (auto simp: attempt_def Let_def intro: extends_trans)
  qed
qed

lemma loop_no_restarting:
  "0 < i \<or> \<not> eg_full_reconnect e \<Longrightarrow> extends no_restarting e (snd (reconnect_loop i n e))"
proof (induction n arbitrary: i e)
  case (Suc n)
  obtain r e1 where a: "attempt i e = (r, e1)" by (cases "attempt i e")
  have e1: "extends no_restarting e e1" using attempt_no_restarting [OF Suc.prems] a by simp
  have next_attempt: "extends no_restarting e (snd (reconnect_loop (Suc i) n (await e1)))"
    using e1 extends_await [OF no_restarting_quiet, of e1] Suc.IH [of "Suc i" "await e1"]
    by (meson extends_trans zero_less_Suc)
  show ?case
  proof (cases r)
    case (Inr b)
    with a e1 next_attempt show ?thesis by (cases b) auto
  qed (use a e1 in auto)
qed simp

text \<open>Undisturbed attempts.\<close>

lemma await_idle [simp]: "eg_schedule e = [] \<Longrightarrow> await e = e"
  by (simp add: await_def)

lemmas engine_eval = try_restart_connection_def try_resume_connection_def attempt_def
  next_connect_def next_restart_def next_publisher_def next_wait_def notify_room_def
  take_and_close_session_def engine_send_def Let_def

lemma failing_restarts:
  "eg_schedule e = [] \<Longrightarrow> eg_full_reconnect e \<Longrightarrow> \<not> eg_closed e \<Longrightarrow> eg_engine_task e = None \<Longrightarrow>
   eg_results e = map (\<lambda>err. ConnectResult (Inl err)) errs @ rest \<Longrightarrow> 0 < i \<Longrightarrow>
   reconnect_loop i (length errs) e =
     (Inl (ConnectionErr ''failed to reconnect after 10''), e\<lparr>eg_results := rest\<rparr>)"
proof (induction errs arbitrary: i e)
  case Nil
  then show ?case by (cases e) simp
next
  case (Cons err errs)
  let ?e = "e\<lparr>eg_results := map (\<lambda>err. ConnectResult (Inl err)) errs @ rest\<rparr>"
  have "attempt i e = (Inr False, ?e)"
    using Cons.prems by (simp add: engine_eval)
  with Cons.prems Cons.IH [of ?e "Suc i"] show ?case by simp
qed

lemma first_failing_restart:
  assumes "eg_schedule e = []" "eg_full_reconnect e" "\<not> eg_closed e" "eg_engine_task e = Some t"
    "eg_results e = ConnectResult (Inl err) # rest"
  shows "attempt 0 e = (Inr False, e\<lparr>eg_out := eg_out e @ [EeRestarting], eg_engine_task := None,
    eg_closed_sessions := eg_session e # eg_closed_sessions e, eg_results := rest\<rparr>)"
  using assms by (simp add: engine_eval)

lemma reconnect_task_unfold:
  "reconnect_task e =
     (case attempt 0 e of
        (Inl err, e) \<Rightarrow> (Inl err, e)
      | (Inr True, e) \<Rightarrow> (Inr (), e)
      | (Inr False, e) \<Rightarrow> reconnect_loop (Suc 0) 9 (await e))"
proof -
  have ten: "RECONNECT_ATTEMPTS = Suc 9" by (simp add: RECONNECT_ATTEMPTS_def)
  show ?thesis unfolding reconnect_task_def ten reconnect_loop.simps by (rule refl)
qed

lemma resume_run:
  assumes "\<not> eg_closed e" "\<not> eg_full_reconnect e" "eg_schedule e = []"
    and "eg_results e = [RestartResult (Inr rr), PublisherResult (Inr ()), WaitResult (Inr ())]"
  shows "reconnect_task e = (Inr (), e\<lparr>eg_out := eg_out e @ [EeResuming, EeSignalResumed rr, EeResumed],
    eg_results := []\<rparr>)"
  using assms by (simp add: reconnect_task_unfold engine_eval)

lemma fallback_run:
  assumes "\<not> eg_closed e" "\<not> eg_full_reconnect e" "eg_schedule e = []"
    and "eg_engine_task e = Some (eg_session e)"
    and "eg_results e = [RestartResult (Inl err), ConnectResult (Inr jr), WaitResult (Inr ())]"
    and "\<not> is_signal_err err"
  shows "reconnect_task e = (Inr (), e\<lparr>eg_out := eg_out e @ [EeResuming, EeSignalRestarted jr, EeRestarted],
    eg_session := eg_next_session e, eg_engine_task := Some (eg_next_session e),
    eg_next_session := Suc (eg_next_session e),
    eg_closed_sessions := eg_session e # eg_closed_sessions e,
    eg_full_reconnect := True, eg_results := []\<rparr>)"
  using assms by (simp add: reconnect_task_unfold numeral_nat engine_eval)

lemma restart_run:
  assumes "\<not> eg_closed e" "eg_full_reconnect e" "eg_schedule e = []" "eg_engine_task e = Some t"
    and "eg_results e = [ConnectResult (Inr jr), WaitResult (Inr ())]"
  shows "eg_out (snd (reconnect_task e)) = eg_out e @ [EeRestarting, EeSignalRestarted jr, EeRestarted]"
  using assms by (simp add: reconnect_task_unfold engine_eval)

section \<open>Properties\<close>

text \<open>
  Connecting makes one attempt and at most \<open>join_retries\<close> more: it returns the first session
  that connects, and the last error when none does; with the largest number of retries the bound
  overflows to no attempt at all and there is no error to return, where the code panics.
\<close>

theorem connect_retries:
  assumes "n = unat (max_retries + 1)" and "n \<le> length results"
  shows "(max_retries \<noteq> - 1 \<longrightarrow> n = Suc (unat max_retries) \<and>
      engine_connect max_retries results =
        Some (case filter (\<lambda>r. \<exists>x. r = Inr x) (take n results) of
            [] \<Rightarrow> results ! (n - 1) | r # _ \<Rightarrow> r))
    \<and> (max_retries = - 1 \<longrightarrow> engine_connect max_retries results = None)"
proof -
  have loop: "connect_loop n results l = (case filter (\<lambda>r. \<exists>x. r = Inr x) (take n results) of
      [] \<Rightarrow> if n = 0 then map_option Inl l else Some (results ! (n - 1)) | r # _ \<Rightarrow> Some r)"
    if "n \<le> length results" for n l and results :: "(engine_error + 'a) list"
    using that
  proof (induction n results l rule: connect_loop.induct)
    case (4 n e results l)
    then show ?case by (cases n) (auto split: list.splits)
  qed auto
  have "n = Suc (unat max_retries)" if "max_retries \<noteq> - 1"
    using that assms(1) by (metis add.commute add_eq_0_iff2 unatSuc)
  then show ?thesis
    using loop [OF assms(2), of None] assms(1) by (auto simp: engine_connect_def split: list.splits)
qed

theorem connect_retries_witness:
  "engine_connect 1 [Inl (RtcErr ''x''), Inr (7 :: nat)] = Some (Inr 7)"
  using connect_retries [of 2 1 "[Inl (RtcErr ''x''), Inr (7 :: nat)]"] by simp

text \<open>
  An undisturbed recovery: a resume that succeeds keeps the session and tells the room
  \<open>Resuming\<close>, \<open>SignalResumed\<close>, \<open>Resumed\<close>; one that fails otherwise than in the signalling is
  followed by a new session, which replaces the old one after its peer connections are up, and the
  room is told \<open>Resuming\<close>, \<open>SignalRestarted\<close>, \<open>Restarted\<close>.
\<close>

theorem recovery_paths:
  assumes "\<not> eg_closed e" and "\<not> eg_full_reconnect e" and "eg_schedule e = []"
    and "eg_engine_task e = Some (eg_session e)"
  shows "(eg_results e = [RestartResult (Inr rr), PublisherResult (Inr ()), WaitResult (Inr ())] \<longrightarrow>
      reconnect_task e = (Inr (), e\<lparr>eg_out := eg_out e @ [EeResuming, EeSignalResumed rr, EeResumed],
        eg_results := []\<rparr>))
    \<and> (eg_results e = [RestartResult (Inl err), ConnectResult (Inr jr), WaitResult (Inr ())] \<longrightarrow>
      \<not> is_signal_err err \<longrightarrow>
      reconnect_task e = (Inr (), e\<lparr>eg_out := eg_out e @ [EeResuming, EeSignalRestarted jr, EeRestarted],
        eg_session := eg_next_session e, eg_engine_task := Some (eg_next_session e),
        eg_next_session := Suc (eg_next_session e),
        eg_closed_sessions := eg_session e # eg_closed_sessions e,
        eg_full_reconnect := True, eg_results := []\<rparr>))"
  using assms resume_run fallback_run by auto

theorem recovery_paths_witness:
  "eg_out (snd (reconnect_task (engine_start []
      [RestartResult (Inr \<lparr>rr_last_message_seq = 3\<rparr>), PublisherResult (Inr ()), WaitResult (Inr ())])))
   = [EeResuming, EeSignalResumed \<lparr>rr_last_message_seq = 3\<rparr>, EeResumed]"
  using recovery_paths [of "engine_start []
      [RestartResult (Inr \<lparr>rr_last_message_seq = 3\<rparr>), PublisherResult (Inr ()), WaitResult (Inr ())]"
      "\<lparr>rr_last_message_seq = 3\<rparr>"]
  by (simp add: engine_start_def)

text \<open>
  The room is not told that a fallback restarts the session: whatever the results and
  whatever other tasks do meanwhile, a recovery whose first attempt is a resume never emits
  \<open>Restarting\<close>, the event on which the room drops the participants of the old session.
\<close>

theorem fallback_without_restarting:
  assumes "\<not> eg_full_reconnect e"
  shows "\<exists>evs. eg_out (snd (reconnect_task e)) = eg_out e @ evs \<and> EeRestarting \<notin> set evs"
  using loop_no_restarting [of 0 e RECONNECT_ATTEMPTS] assms
  by (auto simp: reconnect_task_def extends_def no_restarting_def list_all_iff)

theorem fallback_without_restarting_witness:
  "\<exists>evs. eg_out (snd (reconnect_task (engine_start [] [RestartResult (Inl (RtcErr ''x''))]))) = evs
    \<and> EeRestarting \<notin> set evs"
  using fallback_without_restarting [of "engine_start [] [RestartResult (Inl (RtcErr ''x''))]"]
  by (simp add: engine_start_def)

text \<open>
  A recovery that gives up does not tell the room: when every attempt of a full reconnect
  fails to connect, the engine ends closed, but the task was taken by the first attempt, so
  neither the close at the end nor any later one emits \<open>Disconnected\<close>.
\<close>

theorem failed_restart_is_silent:
  assumes "\<not> eg_closed e" and "eg_full_reconnect e" and "eg_schedule e = []"
    and "eg_engine_task e = Some t" and "eg_results e = map (\<lambda>err. ConnectResult (Inl err)) errs"
    and "length errs = RECONNECT_ATTEMPTS"
  shows "eg_closed (reconnection e) \<and> \<not> eg_reconnecting (reconnection e)
    \<and> eg_out (reconnection e) = eg_out e @ [EeRestarting]
    \<and> engine_close reason (reconnection e) = reconnection e"
proof -
  obtain err rest where errs: "errs = err # rest" "length rest = 9"
    using assms(6) by (cases errs) (auto simp: RECONNECT_ATTEMPTS_def)
  let ?e = "e\<lparr>eg_out := eg_out e @ [EeRestarting], eg_engine_task := None,
    eg_closed_sessions := eg_session e # eg_closed_sessions e,
    eg_results := map (\<lambda>err. ConnectResult (Inl err)) rest\<rparr>"
  have a: "attempt 0 e = (Inr False, ?e)"
    using first_failing_restart [OF assms(3,2,1,4)] assms(5) errs(1) by simp
  have "reconnect_loop (Suc 0) 9 ?e =
      (Inl (ConnectionErr ''failed to reconnect after 10''), ?e\<lparr>eg_results := []\<rparr>)"
    using failing_restarts [of ?e rest "[]" "Suc 0"] assms(1-3) errs(2) by simp
  then have "reconnect_task e =
      (Inl (ConnectionErr ''failed to reconnect after 10''), ?e\<lparr>eg_results := []\<rparr>)"
    using a assms(3) by (simp add: reconnect_task_unfold)
  then show ?thesis by (simp add: reconnection_def engine_close_def Let_def)
qed

theorem failed_restart_is_silent_witness:
  "\<exists>e. eg_out (reconnection e) = [EeRestarting] \<and> eg_closed (reconnection e)"
proof -
  let ?e = "(engine_start [] (map (\<lambda>err. ConnectResult (Inl err)) (replicate 10 (RtcErr ''x''))))
    \<lparr>eg_full_reconnect := True\<rparr>"
  have "\<not> eg_closed ?e" "eg_full_reconnect ?e" "eg_schedule ?e = []" "eg_engine_task ?e = Some 0"
    "eg_results ?e = map (\<lambda>err. ConnectResult (Inl err)) (replicate 10 (RtcErr ''x''))"
    "length (replicate 10 (RtcErr ''x'')) = RECONNECT_ATTEMPTS"
    by (simp_all add: engine_start_def RECONNECT_ATTEMPTS_def)
  from failed_restart_is_silent [OF this] have
    "eg_closed (reconnection ?e) \<and> eg_out (reconnection ?e) = eg_out ?e @ [EeRestarting]" by blast
  moreover have "eg_out ?e = []" by (simp add: engine_start_def)
  ultimately show ?thesis by (metis append_Nil)
qed

text \<open>
  A close can be overtaken by a recovery: a close while the new session waits for its peer
  connections finds no task to end, and the recovery then installs the session all the same: the
  engine is closed, refuses every operation, and keeps a running session that nothing closes.
\<close>

theorem close_overtaken:
  assumes "\<not> eg_closed e" and "eg_full_reconnect e" and "eg_engine_task e = Some (eg_session e)"
    and "eg_schedule e = [[], [], [], [], [CallClose reason]]"
    and "eg_results e = [ConnectResult (Inr jr), WaitResult (Inr ())]"
    and "eg_next_session e \<notin> set (eg_closed_sessions e)" and "eg_session e \<noteq> eg_next_session e"
  shows "eg_closed (reconnection e) \<and> eg_engine_task (reconnection e) = Some (eg_next_session e)
    \<and> eg_next_session e \<notin> set (eg_closed_sessions (reconnection e))
    \<and> wait_reconnection (reconnection e) = Inl (ConnectionErr ''engine is closed'')
    \<and> eg_out (reconnection e) = eg_out e @ [EeRestarting, EeSignalRestarted jr, EeRestarted]"
proof -
  let ?e = "e\<lparr>eg_out := eg_out e @ [EeRestarting, EeSignalRestarted jr, EeRestarted], eg_closed := True,
    eg_session := eg_next_session e, eg_engine_task := Some (eg_next_session e),
    eg_next_session := Suc (eg_next_session e),
    eg_closed_sessions := eg_session e # eg_closed_sessions e, eg_schedule := [], eg_results := []\<rparr>"
  have "attempt 0 e = (Inr True, ?e)"
    using assms(1-5) by (simp add: engine_eval await_def engine_close_def)
  then have "reconnect_task e = (Inr (), ?e)"
    by (simp add: reconnect_task_unfold)
  then show ?thesis
    using assms(6,7) by (simp add: reconnection_def wait_reconnection_def Let_def)
qed

theorem close_overtaken_witness:
  "\<exists>e. eg_closed (reconnection e) \<and> eg_engine_task (reconnection e) = Some 1"
proof -
  let ?jr = "\<lparr>jr_room = None, jr_participant = None, jr_other_participants = []\<rparr>"
  let ?e = "(engine_start [[], [], [], [], [CallClose ClientInitiated]]
    [ConnectResult (Inr ?jr), WaitResult (Inr ())])\<lparr>eg_full_reconnect := True\<rparr>"
  show ?thesis
    using close_overtaken [of ?e ClientInitiated ?jr]
    by (intro exI [of _ ?e]) (simp add: engine_start_def)
qed

end
