(* ===== verification/Session.thy ===== *)
theory Session
  imports Signal DataChannel Negotiation Rpc
begin

text \<open>
  A session (\<open>SessionInner\<close> and \<open>RtcSession\<close> of \<open>livekit/src/rtc_engine/rtc_session.rs\<close>): the
  handlers of the messages of the signalling connection and of the events of WebRTC, the
  publication of tracks, and the end of the session. The data channel task and the negotiation
  queue of the same file are in the theories \<open>DataChannel\<close> and \<open>Negotiation\<close>.

  What is outside the repository is a parameter: \<open>session_env\<close> holds the peer connections'
  operations, the parsers of session descriptions and ICE candidates, the JSON form of a candidate
  and the \<open>prost\<close> decoder of a data packet. What the session sends to the server, to the engine and
  to the data channel task is recorded in order in \<open>ss_signals\<close>, \<open>ss_events\<close> and \<open>ss_dc_events\<close>.
\<close>

section \<open>Messages and state\<close>

datatype (plugins only: code size) signal_target = Publisher | Subscriber

record track_published_response =
  tpr_cid :: string
  tpr_track :: "proto_track_info option"

record request_response =
  rqr_request_id :: u32
  rqr_reason :: int
  rqr_message :: string

text \<open>The messages of the server; \<open>SmOther\<close> are those no handler looks at.\<close>

datatype (plugins only: code size) signal_message =
    SmAnswer string string
  | SmOffer string string
  | SmTrickle string signal_target
  | SmLeave disconnect_reason leave_action
  | SmUpdate "proto_participant_info list"
  | SmSpeakersChanged "speaker_info list"
  | SmConnectionQuality "connection_quality_info list"
  | SmTrackPublished track_published_response
  | SmRoomUpdate "proto_room option"
  | SmRoomMoved room_moved_response
  | SmTrackSubscribed string
  | SmRequestResponse request_response
  | SmRefreshToken string
  | SmJoin join_response
  | SmReconnect reconnect_response
  | SmPongResp int
  | SmOther

text \<open>\<open>SigClose\<close> carries the debug form of the reason the connection was closed for.\<close>

datatype (plugins only: code size) signal_event = SigMessage signal_message | SigClose string

text \<open>An \<open>AddTrackRequest\<close>; the session itself reads only its \<open>cid\<close>.\<close>

record add_track_request =
  atr_cid :: string
  atr_name :: string
  atr_type :: proto_track_type
  atr_source :: track_source
  atr_muted :: bool

datatype (plugins only: code size) scenario =
    SpeakerUpdate int
  | NodeFailureScenario bool
  | MigrationScenario bool
  | ServerLeaveScenario bool
  | SwitchCandidateProtocol int

text \<open>
  The requests to the server. \<open>RqSyncState\<close> stands for the sync state, whose contents only the room knows;
  \<open>RqOther\<close> for those the layers above compose (subscriptions, settings, permissions, metadata).
\<close>

datatype (plugins only: code size) signal_request =
    RqOffer string string
  | RqAnswer string string
  | RqTrickle string signal_target
  | RqAddTrack add_track_request
  | RqMute string bool
  | RqLeave disconnect_reason leave_action
  | RqSimulate scenario
  | RqSyncState
  | RqPing int int
  | RqOther string

datatype (plugins only: code size) peer_connection_state =
    PcNew | PcConnecting | PcConnected | PcDisconnected | PcFailed | PcClosed

text \<open>A data channel is a token with its label.\<close>

record data_channel_ref =
  dcr_id :: nat
  dcr_label :: string

record candidate_json =
  cj_sdp_mid :: string
  cj_sdp_m_line_index :: int
  cj_candidate :: string

datatype (plugins only: code size) rtc_event =
    RtcIceCandidate candidate_json signal_target
  | RtcConnectionChange peer_connection_state signal_target
  | RtcDataChannel data_channel_ref signal_target
  | RtcOffer session_description signal_target
  | RtcTrack "media_stream list" media_track nat signal_target
  | RtcData "byte list" bool data_packet_kind
  | RtcBufferedAmountChange u64 u64 data_packet_kind

record 'p session_env =
  se_pc :: "'p pc_ops"
  se_parse_description :: "string \<Rightarrow> string \<Rightarrow> session_description option"
  se_candidate_of_json :: "string \<Rightarrow> ice_candidate option"
  se_candidate_to_json :: "candidate_json \<Rightarrow> string"
  se_decode :: "byte list \<Rightarrow> string + data_packet"

text \<open>A call of \<open>add_track\<close>: its receiver and, once it has returned, its result.\<close>

record track_call =
  tc_cid :: string
  tc_rx :: "proto_track_info oneshot"
  tc_result :: "(engine_error + proto_track_info) option"

record 'p session =
  ss_publisher :: "'p transport"
  ss_subscriber :: "'p transport"
  ss_negotiation :: negotiation_queue
  ss_fast_publish :: bool
  ss_has_published :: bool
  ss_closed :: bool
  ss_pending_tracks :: "string \<rightharpoonup> nat"
  ss_track_calls :: "track_call list"
  ss_pending_requests :: "u32 \<rightharpoonup> nat"
  ss_request_calls :: "request_response oneshot list"
  ss_rx_state :: "(string, u32) ttl_map"
  ss_lossy_dc :: data_channel_ref
  ss_reliable_dc :: data_channel_ref
  ss_sub_lossy_dc :: "data_channel_ref option"
  ss_sub_reliable_dc :: "data_channel_ref option"
  ss_lossy_threshold :: u64
  ss_reliable_threshold :: u64
  ss_participant_info :: session_participant_info
  ss_url :: string
  ss_debounce_calls :: nat
  ss_signal_client_closed :: bool
  ss_dc_task :: bool
  ss_handle :: bool
  ss_signal_stuck :: bool
  ss_events :: "session_event list"
  ss_signals :: "signal_request list"
  ss_dc_events :: "dc_event list"

definition LOSSY_DC_LABEL :: string where "LOSSY_DC_LABEL = ''_lossy''"
definition RELIABLE_DC_LABEL :: string where "RELIABLE_DC_LABEL = ''_reliable''"
definition RELIABLE_RECEIVED_STATE_TTL :: int where "RELIABLE_RECEIVED_STATE_TTL = 30"

text \<open>\<open>ParticipantIdentity\<close> has \<open>From<String>\<close>, so the fallible conversion never fails.\<close>

definition identity_try_from :: "string \<Rightarrow> participant_identity option" where
  "identity_try_from s = Some s"

definition info_from_join :: "join_response \<Rightarrow> session_participant_info option" where
  "info_from_join join_response =
     (case jr_participant join_response of
        None \<Rightarrow> None
      | Some info \<Rightarrow>
          (case ok (participant_sid_try_from (ppi_sid info)) of
             None \<Rightarrow> None
           | Some sid \<Rightarrow>
               map_option (\<lambda>identity. \<lparr>spi_sid = sid, spi_identity = identity\<rparr>)
                 (identity_try_from (ppi_identity info))))"

text \<open>The state that \<open>RtcSession::connect\<close> builds from the join response.\<close>

definition session_new ::
    "join_response \<Rightarrow> bool \<Rightarrow> string \<Rightarrow> int \<Rightarrow> 'p \<Rightarrow> 'p \<Rightarrow> engine_error + 'p session" where
  "session_new join_response fast_publish url now publisher_pc subscriber_pc =
     (case info_from_join join_response of
        None \<Rightarrow> Inl (InternalErr ''Join response missing participant info'')
      | Some participant_info \<Rightarrow> Inr
          \<lparr>ss_publisher = on_offer True (transport_new publisher_pc),
           ss_subscriber = on_offer True (transport_new subscriber_pc),
           ss_negotiation = nq_new, ss_fast_publish = fast_publish, ss_has_published = False,
           ss_closed = False, ss_pending_tracks = Map.empty, ss_track_calls = [],
           ss_pending_requests = Map.empty, ss_request_calls = [],
           ss_rx_state = ttl_new now RELIABLE_RECEIVED_STATE_TTL,
           ss_lossy_dc = \<lparr>dcr_id = 0, dcr_label = LOSSY_DC_LABEL\<rparr>,
           ss_reliable_dc = \<lparr>dcr_id = 1, dcr_label = RELIABLE_DC_LABEL\<rparr>,
           ss_sub_lossy_dc = None, ss_sub_reliable_dc = None,
           ss_lossy_threshold = INITIAL_BUFFERED_AMOUNT_LOW_THRESHOLD,
           ss_reliable_threshold = INITIAL_BUFFERED_AMOUNT_LOW_THRESHOLD,
           ss_participant_info = participant_info, ss_url = url,
           ss_debounce_calls = 0, ss_signal_client_closed = False, ss_dc_task = True,
           ss_handle = True, ss_signal_stuck = False,
           ss_events = [], ss_signals = [], ss_dc_events = []\<rparr>)"

definition session_emit :: "session_event \<Rightarrow> 'p session \<Rightarrow> 'p session" where
  "session_emit ev s = s\<lparr>ss_events := ss_events s @ [ev]\<rparr>"

definition session_signal :: "signal_request \<Rightarrow> 'p session \<Rightarrow> 'p session" where
  "session_signal rq s = s\<lparr>ss_signals := ss_signals s @ [rq]\<rparr>"

text \<open>The channel to the data channel task; sending fails once the task is gone.\<close>

definition dc_send :: "dc_event \<Rightarrow> 'p session \<Rightarrow> 'p session" where
  "dc_send ev s = (if ss_dc_task s then s\<lparr>ss_dc_events := ss_dc_events s @ [ev]\<rparr> else s)"

section \<open>Signal messages\<close>

text \<open>How a handler ends: normally, with an error (which is logged), in a panic of its own task,
  or never, waiting for a mutex.\<close>

datatype (plugins only: code size) handler_end = HandlerOk | HandlerErr engine_error | HandlerPanic | HandlerBlocked

definition on_session_disconnected ::
    "string \<Rightarrow> disconnect_reason \<Rightarrow> leave_action \<Rightarrow> bool \<Rightarrow> 'p session \<Rightarrow> 'p session" where
  "on_session_disconnected source reason action retry_now =
     session_emit (SeClose source reason action retry_now)"

text \<open>The sender of a oneshot channel is used or dropped.\<close>

definition track_tx :: "nat \<Rightarrow> proto_track_info oneshot \<Rightarrow> 'p session \<Rightarrow> 'p session" where
  "track_tx n v s =
     s\<lparr>ss_track_calls := (ss_track_calls s)[n := (ss_track_calls s ! n)\<lparr>tc_rx := v\<rparr>]\<rparr>"

definition request_tx :: "nat \<Rightarrow> request_response oneshot \<Rightarrow> 'p session \<Rightarrow> 'p session" where
  "request_tx n v s = s\<lparr>ss_request_calls := (ss_request_calls s)[n := v]\<rparr>"

definition on_answer ::
    "'p session_env \<Rightarrow> string \<Rightarrow> string \<Rightarrow> 'p session \<Rightarrow> handler_end \<times> 'p session" where
  "on_answer env ty sdp s =
     (case se_parse_description env ty sdp of
        None \<Rightarrow> (HandlerPanic, s)
      | Some answer \<Rightarrow>
          (case set_remote_description (se_pc env) answer (ss_publisher s) of
             (Blocked, t) \<Rightarrow> (HandlerBlocked, s\<lparr>ss_publisher := t\<rparr>)
           | (Returned (Inl e), t) \<Rightarrow> (HandlerErr e, s\<lparr>ss_publisher := t\<rparr>)
           | (Returned (Inr _), t) \<Rightarrow>
               (HandlerOk, s\<lparr>ss_publisher := t,
                  ss_negotiation := (if ss_fast_publish s then answer_received (ss_negotiation s)
                    else ss_negotiation s)\<rparr>)))"

definition on_subscriber_offer ::
    "'p session_env \<Rightarrow> string \<Rightarrow> string \<Rightarrow> 'p session \<Rightarrow> handler_end \<times> 'p session" where
  "on_subscriber_offer env ty sdp s =
     (case se_parse_description env ty sdp of
        None \<Rightarrow> (HandlerPanic, s)
      | Some offer \<Rightarrow>
          (case create_anwser (se_pc env) offer (ss_subscriber s) of
             (Blocked, t) \<Rightarrow> (HandlerBlocked, s\<lparr>ss_subscriber := t\<rparr>)
           | (Returned (Inl e), t) \<Rightarrow> (HandlerErr e, s\<lparr>ss_subscriber := t\<rparr>)
           | (Returned (Inr answer), t) \<Rightarrow>
               (HandlerOk, session_signal (RqAnswer ''answer'' answer) (s\<lparr>ss_subscriber := t\<rparr>))))"

definition on_trickle ::
    "'p session_env \<Rightarrow> string \<Rightarrow> signal_target \<Rightarrow> 'p session \<Rightarrow> handler_end \<times> 'p session" where
  "on_trickle env candidate_init target s =
     (case se_candidate_of_json env candidate_init of
        None \<Rightarrow> (HandlerPanic, s)
      | Some ice_candidate \<Rightarrow>
          (case add_ice_candidate (se_pc env) ice_candidate
                  (if target = Publisher then ss_publisher s else ss_subscriber s) of
             (res, t) \<Rightarrow>
               ((case res of Blocked \<Rightarrow> HandlerBlocked | Returned (Inl e) \<Rightarrow> HandlerErr e
                   | Returned (Inr _) \<Rightarrow> HandlerOk),
                if target = Publisher then s\<lparr>ss_publisher := t\<rparr> else s\<lparr>ss_subscriber := t\<rparr>)))"

definition on_track_published ::
    "track_published_response \<Rightarrow> 'p session \<Rightarrow> handler_end \<times> 'p session" where
  "on_track_published publish_res s =
     (case ss_pending_tracks s (tpr_cid publish_res) of
        None \<Rightarrow> (HandlerOk, s)
      | Some tx \<Rightarrow>
          let s = s\<lparr>ss_pending_tracks := (ss_pending_tracks s)(tpr_cid publish_res := None)\<rparr> in
          case tpr_track publish_res of
            Some track \<Rightarrow> (HandlerOk, track_tx tx (Val track) s)
          | None \<Rightarrow> (HandlerPanic, track_tx tx SenderDropped s))"

definition on_request_response :: "request_response \<Rightarrow> 'p session \<Rightarrow> handler_end \<times> 'p session" where
  "on_request_response response s =
     (case ss_pending_requests s (rqr_request_id response) of
        None \<Rightarrow> (HandlerOk, s)
      | Some tx \<Rightarrow> (HandlerOk, request_tx tx (Val response)
          (s\<lparr>ss_pending_requests := (ss_pending_requests s)(rqr_request_id response := None)\<rparr>)))"

definition on_signal_event ::
    "'p session_env \<Rightarrow> signal_message \<Rightarrow> 'p session \<Rightarrow> handler_end \<times> 'p session" where
  "on_signal_event env event s =
     (case event of
        SmAnswer ty sdp \<Rightarrow> on_answer env ty sdp s
      | SmOffer ty sdp \<Rightarrow> on_subscriber_offer env ty sdp s
      | SmTrickle candidate_init target \<Rightarrow> on_trickle env candidate_init target s
      | SmLeave reason action \<Rightarrow>
          (HandlerOk, on_session_disconnected ''server request to leave'' reason action True s)
      | SmUpdate updates \<Rightarrow> (HandlerOk, session_emit (SeParticipantUpdate updates) s)
      | SmSpeakersChanged speakers \<Rightarrow> (HandlerOk, session_emit (SeSpeakersChanged speakers) s)
      | SmConnectionQuality updates \<Rightarrow> (HandlerOk, session_emit (SeConnectionQuality updates) s)
      | SmTrackPublished publish_res \<Rightarrow> on_track_published publish_res s
      | SmRoomUpdate None \<Rightarrow> (HandlerPanic, s)
      | SmRoomUpdate (Some room) \<Rightarrow> (HandlerOk, session_emit (SeRoomUpdate room) s)
      | SmRoomMoved moved \<Rightarrow> (HandlerOk, session_emit (SeRoomMoved moved) s)
      | SmTrackSubscribed sid \<Rightarrow> (HandlerOk, session_emit (SeLocalTrackSubscribed sid) s)
      | SmRequestResponse response \<Rightarrow> on_request_response response s
      | SmRefreshToken token \<Rightarrow> (HandlerOk, session_emit (SeRefreshToken (ss_url s) token) s)
      | SmJoin _ \<Rightarrow> (HandlerOk, s)
      | SmReconnect _ \<Rightarrow> (HandlerOk, s)
      | SmPongResp _ \<Rightarrow> (HandlerOk, s)
      | SmOther \<Rightarrow> (HandlerOk, s))"

text \<open>
  A turn of \<open>signal_task\<close>: the handler runs in a task of its own, for which the loop waits even
  after the warning that it takes too long; an error or a panic there is no obstacle.
\<close>

definition signal_turn :: "'p session_env \<Rightarrow> signal_event \<Rightarrow> 'p session \<Rightarrow> 'p session" where
  "signal_turn env ev s =
     (if ss_signal_stuck s then s
      else case ev of
        SigMessage m \<Rightarrow>
          (case on_signal_event env m s of
             (HandlerBlocked, s) \<Rightarrow> s\<lparr>ss_signal_stuck := True\<rparr>
           | (_, s) \<Rightarrow> s)
      | SigClose reason \<Rightarrow>
          if ss_closed s then s
          else on_session_disconnected (''signal client closed: '' @ reason) UnknownReason ActResume
            False s)"

section \<open>Data packets\<close>

text \<open>The event for a decoded packet, or \<open>None\<close> for the values that are not forwarded.\<close>

definition incoming_packet_event ::
    "data_packet_kind \<Rightarrow> data_packet \<Rightarrow> packet_value \<Rightarrow> session_event option" where
  "incoming_packet_event kind packet value =
     (let participant_sid = ok (participant_sid_try_from (dp_participant_sid packet));
          participant_identity = identity_try_from (dp_participant_identity packet);
          stream_identity = (case participant_identity of None \<Rightarrow> [] | Some identity \<Rightarrow> identity)
      in case value of
        User user \<Rightarrow>
          let participant_sid = (case participant_sid of
                  Some sid \<Rightarrow> Some sid
                | None \<Rightarrow> ok (participant_sid_try_from (up_participant_sid user)));
              participant_identity = (case participant_identity of
                  Some identity \<Rightarrow> Some identity
                | None \<Rightarrow> identity_try_from (up_participant_identity user))
          in Some (SeData participant_sid participant_identity (up_payload user) (up_topic user) kind)
      | SipDtmf dtmf \<Rightarrow>
          Some (SeSipDTMF participant_identity (sd_code dtmf)
            (if sd_digit dtmf = [] then None else Some (sd_digit dtmf)))
      | TranscriptionValue transcription \<Rightarrow>
          Some (SeTranscription (ptr_transcribed_participant_identity transcription)
            (ptr_track_id transcription) (ptr_segments transcription))
      | RpcRequestValue rq \<Rightarrow>
          Some (SeRpcRequest participant_identity (prq_id rq) (prq_method rq) (prq_payload rq)
            (unat (prq_response_timeout_ms rq)) (prq_version rq))
      | RpcResponseValue rs \<Rightarrow>
          let (payload, error) = (case prs_value rs of
              None \<Rightarrow> (None, None)
            | Some (RpcPayload payload) \<Rightarrow> (Some payload, None)
            | Some (RpcErr err) \<Rightarrow> (None, Some err))
          in Some (SeRpcResponse (prs_request_id rs) payload error)
      | RpcAckValue ack \<Rightarrow> Some (SeRpcAck (pra_request_id ack))
      | ChatMessageValue message \<Rightarrow>
          Some (SeChatMessage (unwrap_or [] participant_identity) (chat_message_from_proto message))
      | StreamHeader header \<Rightarrow> Some (SeDataStreamHeader header stream_identity)
      | StreamChunk chunk \<Rightarrow> Some (SeDataStreamChunk chunk stream_identity)
      | StreamTrailer trailer \<Rightarrow> Some (SeDataStreamTrailer trailer stream_identity)
      | _ \<Rightarrow> None)"

definition emit_incoming_packet ::
    "data_packet_kind \<Rightarrow> data_packet \<Rightarrow> packet_value \<Rightarrow> 'p session \<Rightarrow> 'p session" where
  "emit_incoming_packet kind packet value s =
     (case incoming_packet_event kind packet value of
        None \<Rightarrow> s
      | Some ev \<Rightarrow> session_emit ev s)"

section \<open>Events of WebRTC\<close>

definition on_data ::
    "'p session_env \<Rightarrow> int \<Rightarrow> byte list \<Rightarrow> bool \<Rightarrow> data_packet_kind \<Rightarrow> 'p session \<Rightarrow>
     handler_end \<times> 'p session" where
  "on_data env now data binary kind s =
     (if \<not> binary then (HandlerErr (InternalErr ''text messages aren't supported''), s)
      else case se_decode env data of
        Inl err \<Rightarrow> (HandlerErr (InternalErr (''failed to decode data packet: '' @ err)), s)
      | Inr packet \<Rightarrow>
          let s = (if kind = Reliable
                   then s\<lparr>ss_rx_state := update_packet_rx_state now packet (ss_rx_state s)\<rparr> else s)
          in (HandlerOk, case dp_value packet of
                None \<Rightarrow> s
              | Some value \<Rightarrow> emit_incoming_packet kind (packet\<lparr>dp_value := None\<rparr>) value s))"

definition on_rtc_event ::
    "'p session_env \<Rightarrow> int \<Rightarrow> rtc_event \<Rightarrow> 'p session \<Rightarrow> handler_end \<times> 'p session" where
  "on_rtc_event env now event s =
     (case event of
        RtcIceCandidate ice_candidate target \<Rightarrow>
          (HandlerOk, session_signal (RqTrickle (se_candidate_to_json env ice_candidate) target) s)
      | RtcConnectionChange state target \<Rightarrow>
          (HandlerOk, if state = PcFailed
             then on_session_disconnected ''pc_state failed'' UnknownReason ActResume False s else s)
      | RtcDataChannel data_channel target \<Rightarrow>
          (HandlerOk, if target = Subscriber
             then if dcr_label data_channel = LOSSY_DC_LABEL
                  then s\<lparr>ss_sub_lossy_dc := Some data_channel\<rparr>
                  else if dcr_label data_channel = RELIABLE_DC_LABEL
                  then s\<lparr>ss_sub_reliable_dc := Some data_channel\<rparr> else s
             else s)
      | RtcOffer offer target \<Rightarrow> (HandlerOk, session_signal (RqOffer ''offer'' offer) s)
      | RtcTrack streams track transceiver target \<Rightarrow>
          (HandlerOk, case streams of
             stream # _ \<Rightarrow> session_emit (SeMediaTrack track stream transceiver) s
           | [] \<Rightarrow> s)
      | RtcData data binary kind \<Rightarrow> on_data env now data binary kind s
      | RtcBufferedAmountChange sent amount kind \<Rightarrow>
          (HandlerOk, dc_send \<lparr>de_kind = kind, de_detail = BufferedAmountChange sent\<rparr> s))"


section \<open>Publishing tracks\<close>

text \<open>
  \<open>add_track\<close> up to its \<open>select!\<close>, in which it then waits. A wait is over when the receiver has a
  value, or when the timer has elapsed, whichever \<open>select!\<close> looks at first; a receiver whose sender
  is gone only disables its branch.
\<close>

definition add_track :: "add_track_request \<Rightarrow> 'p session \<Rightarrow> 'p session" where
  "add_track req s =
     (if ss_pending_tracks s (atr_cid req) \<noteq> None then
        s\<lparr>ss_track_calls := ss_track_calls s @
            [\<lparr>tc_cid = atr_cid req, tc_rx = SenderDropped,
              tc_result = Some (Inl (InternalErr ''track already published''))\<rparr>]\<rparr>
      else
        session_signal (RqAddTrack req)
          (s\<lparr>ss_pending_tracks := (ss_pending_tracks s)(atr_cid req \<mapsto> length (ss_track_calls s)),
             ss_track_calls := ss_track_calls s @
               [\<lparr>tc_cid = atr_cid req, tc_rx = NoValue, tc_result = None\<rparr>]\<rparr>))"

definition finish_track_call ::
    "nat \<Rightarrow> engine_error + proto_track_info \<Rightarrow> 'p session \<Rightarrow> 'p session" where
  "finish_track_call n r s =
     s\<lparr>ss_track_calls := (ss_track_calls s)[n := (ss_track_calls s ! n)\<lparr>tc_result := Some r\<rparr>]\<rparr>"

text \<open>\<open>pending_tracks.remove(cid)\<close> where the sender is not used: it is dropped.\<close>

definition remove_pending_track :: "string \<Rightarrow> 'p session \<Rightarrow> 'p session" where
  "remove_pending_track cid s =
     (case ss_pending_tracks s cid of
        None \<Rightarrow> s
      | Some tx \<Rightarrow>
          track_tx tx SenderDropped (s\<lparr>ss_pending_tracks := (ss_pending_tracks s)(cid := None)\<rparr>))"

definition track_call_ready :: "nat \<Rightarrow> 'p session \<Rightarrow> 'p session" where
  "track_call_ready n s =
     (if n < length (ss_track_calls s) \<and> tc_result (ss_track_calls s ! n) = None then
        case tc_rx (ss_track_calls s ! n) of
          Val info \<Rightarrow> finish_track_call n (Inr info) s
        | _ \<Rightarrow> s
      else s)"

definition track_call_elapsed :: "nat \<Rightarrow> 'p session \<Rightarrow> 'p session" where
  "track_call_elapsed n s =
     (if n < length (ss_track_calls s) \<and> tc_result (ss_track_calls s ! n) = None then
        finish_track_call n
          (Inl (InternalErr ''track publication timed out, no response received from the server''))
          (remove_pending_track (tc_cid (ss_track_calls s ! n)) s)
      else s)"

text \<open>
  \<open>remove_track\<close>: the sender's track and the result of the peer connection's own \<open>remove_track\<close>
  are given.
\<close>

definition remove_track ::
    "media_track option \<Rightarrow> string + unit \<Rightarrow> 'p session \<Rightarrow> (engine_error + unit) \<times> 'p session" where
  "remove_track track removed s =
     (let s = (case track of None \<Rightarrow> s | Some t \<Rightarrow> remove_pending_track (mt_id t) s) in
      (case removed of Inl e \<Rightarrow> Inl (RtcErr e) | Inr _ \<Rightarrow> Inr (), s))"

definition mute_track :: "string \<Rightarrow> bool \<Rightarrow> 'p session \<Rightarrow> (engine_error + unit) \<times> 'p session" where
  "mute_track sid muted s = (Inr (), session_signal (RqMute sid muted) s)"

text \<open>
  The codec preferences of a video sender. \<open>to_lowercase\<close> is written out for the ASCII letters, on
  which the comparison with the codec names depends.
\<close>

record rtc_codec =
  cd_mime_type :: string
  cd_sdp_fmtp_line :: "string option"

definition lower_char :: "char \<Rightarrow> char" where
  "lower_char c =
     (let n = of_char c :: nat in if 65 \<le> n \<and> n \<le> 90 then char_of (n + 32) else c)"

fun str_contains :: "string \<Rightarrow> string \<Rightarrow> bool" where
  "str_contains [] pat = (pat = [])"
| "str_contains (c # cs) pat = (take (length pat) (c # cs) = pat \<or> str_contains cs pat)"

datatype (plugins only: code size) video_codec = VP8 | H264 | VP9 | AV1

fun video_codec_str :: "video_codec \<Rightarrow> string" where
  "video_codec_str VP8 = ''vp8''"
| "video_codec_str H264 = ''h264''"
| "video_codec_str VP9 = ''vp9''"
| "video_codec_str AV1 = ''av1''"

fun match_codecs ::
    "video_codec \<Rightarrow> rtc_codec list \<Rightarrow> rtc_codec list \<times> rtc_codec list \<times> rtc_codec list" where
  "match_codecs video_codec [] = ([], [], [])"
| "match_codecs video_codec (codec # codecs) =
     (let (matched, partial_matched, unmatched) = match_codecs video_codec codecs in
      if map lower_char (cd_mime_type codec) = ''video/'' @ video_codec_str video_codec then
        (case cd_sdp_fmtp_line codec of
           Some sdp_fmtp_line \<Rightarrow>
             if str_contains sdp_fmtp_line ''profile-level-id=42e01f''
             then (codec # matched, partial_matched, unmatched)
             else (matched, codec # partial_matched, unmatched)
         | None \<Rightarrow> (matched, codec # partial_matched, unmatched))
      else (matched, partial_matched, codec # unmatched))"

definition codec_preferences :: "video_codec \<Rightarrow> rtc_codec list \<Rightarrow> rtc_codec list" where
  "codec_preferences video_codec codecs =
     (case match_codecs video_codec codecs of (matched, partial_matched, _) \<Rightarrow> matched @ partial_matched)"

text \<open>
  \<open>create_sender\<close>: \<open>added\<close> is the result of \<open>add_transceiver\<close>, \<open>set_preferences\<close> that of
  \<open>set_codec_preferences\<close> on the codecs it is given.
\<close>

definition create_sender ::
    "track_kind \<Rightarrow> video_codec \<Rightarrow> rtc_codec list \<Rightarrow> string + nat \<Rightarrow> (rtc_codec list \<Rightarrow> string + unit) \<Rightarrow>
     engine_error + nat" where
  "create_sender kind video_codec capabilities added set_preferences =
     (case added of
        Inl e \<Rightarrow> Inl (RtcErr e)
      | Inr transceiver \<Rightarrow>
          if kind = Video then
            (case set_preferences (codec_preferences video_codec capabilities) of
               Inl e \<Rightarrow> Inl (RtcErr e)
             | Inr _ \<Rightarrow> Inr transceiver)
          else Inr transceiver)"

section \<open>Publishing data\<close>

definition data_channel ::
    "signal_target \<Rightarrow> data_packet_kind \<Rightarrow> 'p session \<Rightarrow> data_channel_ref option" where
  "data_channel target kind s =
     (if target = Publisher then
        if kind = Reliable then Some (ss_reliable_dc s) else Some (ss_lossy_dc s)
      else
        if kind = Reliable then ss_sub_reliable_dc s else ss_sub_lossy_dc s)"

definition publisher_negotiation_needed :: "'p session \<Rightarrow> 'p session" where
  "publisher_negotiation_needed s =
     (let s = s\<lparr>ss_has_published := True\<rparr> in
      if ss_fast_publish s then s\<lparr>ss_negotiation := negotiation_needed (ss_negotiation s)\<rparr>
      else s\<lparr>ss_debounce_calls := Suc (ss_debounce_calls s)\<rparr>)"

text \<open>
  The polling loops: what a loop sees of the connections at each of its polls, 50 ms apart, up to
  the timeout of 15 s.
\<close>

record connection_poll =
  cp_publisher_connected :: bool
  cp_subscriber_connected :: bool
  cp_has_published :: bool
  cp_dc_open :: bool
  cp_closed :: bool

fun wait_connected ::
    "(connection_poll \<Rightarrow> bool) \<Rightarrow> engine_error \<Rightarrow> connection_poll list \<Rightarrow> engine_error + unit" where
  "wait_connected ready timeout [] = Inl timeout"
| "wait_connected ready timeout (poll # polls) =
     (if ready poll then Inr ()
      else if cp_closed poll then Inl (ConnectionErr ''closed'')
      else wait_connected ready timeout polls)"

definition wait_pc_connection :: "connection_poll list \<Rightarrow> engine_error + unit" where
  "wait_pc_connection =
     wait_connected
       (\<lambda>poll. cp_subscriber_connected poll \<and> (cp_has_published poll \<longrightarrow> cp_publisher_connected poll))
       (ConnectionErr ''wait_pc_connection timed out'')"

definition ensure_publisher_connected ::
    "bool \<Rightarrow> connection_poll list \<Rightarrow> 'p session \<Rightarrow> (engine_error + unit) \<times> 'p session" where
  "ensure_publisher_connected dc_open polls s =
     (let s = (if ss_has_published s then s else publisher_negotiation_needed s) in
      if dc_open then (Inr (), s)
      else (wait_connected (\<lambda>poll. cp_publisher_connected poll \<and> cp_dc_open poll)
              (ConnectionErr ''could not establish publisher connection: timeout'') polls, s))"

text \<open>\<open>publish_data\<close> up to the wait for its completion.\<close>

definition session_publish_data ::
    "bool \<Rightarrow> connection_poll list \<Rightarrow> data_packet \<Rightarrow> data_packet_kind \<Rightarrow> bool \<Rightarrow> nat \<Rightarrow> 'p session \<Rightarrow>
     (engine_error + unit) \<times> 'p session" where
  "session_publish_data dc_open polls packet kind is_raw_packet completion_tx s =
     (case ensure_publisher_connected dc_open polls s of
        (Inl e, s) \<Rightarrow> (Inl e, s)
      | (Inr _, s) \<Rightarrow>
          if ss_dc_task s then
            (Inr (), dc_send (publish_data (ss_participant_info s) packet kind is_raw_packet
               completion_tx) s)
          else (Inl (InternalErr ''Failed to enqueue publish packet request''), s))"

definition session_set_threshold :: "u64 \<Rightarrow> data_packet_kind \<Rightarrow> 'p session \<Rightarrow> 'p session" where
  "session_set_threshold threshold kind s =
     session_emit (SeThresholdChanged kind threshold)
       (case kind of
          Lossy \<Rightarrow> s\<lparr>ss_lossy_threshold := threshold\<rparr>
        | Reliable \<Rightarrow> s\<lparr>ss_reliable_threshold := threshold\<rparr>)"

text \<open>
  \<open>get_response\<close> up to its wait: a second call with the same id drops the sender of the first,
  whose unwrap then panics.
\<close>

definition get_response :: "u32 \<Rightarrow> 'p session \<Rightarrow> nat \<times> 'p session" where
  "get_response request_id s =
     (let rx = length (ss_request_calls s);
          s = (case ss_pending_requests s request_id of
                 None \<Rightarrow> s | Some tx \<Rightarrow> request_tx tx SenderDropped s)
      in (rx, s\<lparr>ss_pending_requests := (ss_pending_requests s)(request_id \<mapsto> rx),
                ss_request_calls := ss_request_calls s @ [NoValue]\<rparr>))"


section \<open>Recovery\<close>

text \<open>The configuration of the peer connections from a join or a reconnect response.\<close>

record ice_server =
  is_urls :: "string list"
  is_username :: string
  is_password :: string

datatype (plugins only: code size) client_config_setting = ConfigUnset | ConfigDisabled | ConfigEnabled

datatype (plugins only: code size) ice_transports_type = RelayTransports | NoHostTransports | AllTransports

record rtc_configuration =
  rc_ice_servers :: "ice_server list"
  rc_ice_transport_type :: ice_transports_type

definition make_rtc_config ::
    "ice_server list \<Rightarrow> client_config_setting option \<Rightarrow> rtc_configuration \<Rightarrow> rtc_configuration" where
  "make_rtc_config value_ice_servers force_relay config =
     (let config = (if rc_ice_servers config = []
          then config\<lparr>rc_ice_servers := value_ice_servers\<rparr> else config) in
      if force_relay = Some ConfigEnabled then config\<lparr>rc_ice_transport_type := RelayTransports\<rparr>
      else config)"

text \<open>
  \<open>restart\<close>: the results of the signalling connection's own restart and of the two
  \<open>set_configuration\<close> are given.
\<close>

definition session_restart ::
    "engine_error + reconnect_response \<Rightarrow> string + unit \<Rightarrow> string + unit \<Rightarrow> 'p session \<Rightarrow>
     (engine_error + reconnect_response) \<times> 'p session" where
  "session_restart signal_result publisher_config subscriber_config s =
     (case signal_result of
        Inl e \<Rightarrow> (Inl e, s)
      | Inr reconnect_response \<Rightarrow>
          (case publisher_config of
             Inl e \<Rightarrow> (Inl (RtcErr e), s)
           | Inr _ \<Rightarrow>
               (case subscriber_config of
                  Inl e \<Rightarrow> (Inl (RtcErr e), s)
                | Inr _ \<Rightarrow>
                    (Inr reconnect_response,
                     dc_send \<lparr>de_kind = Reliable,
                       de_detail = RetryFrom (rr_last_message_seq reconnect_response)\<rparr> s))))"

definition restart_publisher :: "'p session_env \<Rightarrow> 'p session \<Rightarrow> unit outcome \<times> 'p session" where
  "restart_publisher env s =
     (if ss_has_published s then
        (case create_and_send_offer (se_pc env) True (ss_publisher s) of
           (r, t) \<Rightarrow> (r, s\<lparr>ss_publisher := t\<rparr>))
      else (Returned (Inr ()), s))"

datatype (plugins only: code size) simulate_scenario =
    SimSignalReconnect | SimSpeaker | SimNodeFailure | SimServerLeave | SimMigration
  | SimForceTcp | SimForceTls

definition simulate_leave :: "'p session_env \<Rightarrow> 'p session \<Rightarrow> handler_end \<times> 'p session" where
  "simulate_leave env = on_signal_event env (SmLeave ClientInitiated ActReconnect)"

definition session_simulate_scenario ::
    "'p session_env \<Rightarrow> simulate_scenario \<Rightarrow> 'p session \<Rightarrow> handler_end \<times> 'p session" where
  "session_simulate_scenario env scenario s =
     (case scenario of
        SimSignalReconnect \<Rightarrow> (HandlerOk, s\<lparr>ss_signal_client_closed := True\<rparr>)
      | SimSpeaker \<Rightarrow> (HandlerOk, session_signal (RqSimulate (SpeakerUpdate 3)) s)
      | SimNodeFailure \<Rightarrow> (HandlerOk, session_signal (RqSimulate (NodeFailureScenario True)) s)
      | SimServerLeave \<Rightarrow> (HandlerOk, session_signal (RqSimulate (ServerLeaveScenario True)) s)
      | SimMigration \<Rightarrow> (HandlerOk, session_signal (RqSimulate (MigrationScenario True)) s)
      | SimForceTcp \<Rightarrow>
          simulate_leave env (session_signal (RqSimulate (SwitchCandidateProtocol 1)) s)
      | SimForceTls \<Rightarrow>
          simulate_leave env (session_signal (RqSimulate (SwitchCandidateProtocol 2)) s))"

section \<open>Closing\<close>

text \<open>\<open>SessionInner::close\<close>; the transports' own \<open>close\<close> is the peer connection's.\<close>

definition session_inner_close :: "'p session \<Rightarrow> 'p session" where
  "session_inner_close s =
     (session_signal (RqLeave ClientInitiated ActDisconnect) (s\<lparr>ss_closed := True\<rparr>))
       \<lparr>ss_signal_client_closed := True\<rparr>"

text \<open>
  \<open>RtcSession::close\<close> waits for the tasks it has told to stop; a signal task that waits for a
  mutex does not stop, and then the close does not return.
\<close>

definition session_close :: "'p session \<Rightarrow> unit outcome \<times> 'p session" where
  "session_close s =
     (if ss_handle s then
        (let s = s\<lparr>ss_handle := False, ss_dc_task := False\<rparr> in
         if ss_signal_stuck s then (Blocked, s) else (Returned (Inr ()), session_inner_close s))
      else (Returned (Inr ()), session_inner_close s))"


section \<open>Runs\<close>

text \<open>What can happen to a session, one step at a time: each of its handlers and operations.\<close>

datatype (plugins only: code size) session_action =
    DoSignal signal_event
  | DoRtc int rtc_event
  | DoAddTrack add_track_request
  | DoTrackReady nat
  | DoTrackElapsed nat
  | DoRemoveTrack "media_track option" "string + unit"
  | DoMuteTrack string bool
  | DoPublishData bool "connection_poll list" data_packet data_packet_kind bool nat
  | DoSetThreshold u64 data_packet_kind
  | DoGetResponse u32
  | DoNegotiate
  | DoRestart "engine_error + reconnect_response" "string + unit" "string + unit"
  | DoRestartPublisher
  | DoSimulate simulate_scenario
  | DoClose

fun session_step :: "'p session_env \<Rightarrow> session_action \<Rightarrow> 'p session \<Rightarrow> 'p session" where
  "session_step env (DoSignal ev) s = signal_turn env ev s"
| "session_step env (DoRtc now ev) s = snd (on_rtc_event env now ev s)"
| "session_step env (DoAddTrack req) s = add_track req s"
| "session_step env (DoTrackReady n) s = track_call_ready n s"
| "session_step env (DoTrackElapsed n) s = track_call_elapsed n s"
| "session_step env (DoRemoveTrack track removed) s = snd (remove_track track removed s)"
| "session_step env (DoMuteTrack sid muted) s = snd (mute_track sid muted s)"
| "session_step env (DoPublishData dc_open polls packet kind raw tx) s =
     snd (session_publish_data dc_open polls packet kind raw tx s)"
| "session_step env (DoSetThreshold threshold kind) s = session_set_threshold threshold kind s"
| "session_step env (DoGetResponse request_id) s = snd (get_response request_id s)"
| "session_step env DoNegotiate s = publisher_negotiation_needed s"
| "session_step env (DoRestart res pub sub) s = snd (session_restart res pub sub s)"
| "session_step env DoRestartPublisher s = snd (restart_publisher env s)"
| "session_step env (DoSimulate scenario) s = snd (session_simulate_scenario env scenario s)"
| "session_step env DoClose s = snd (session_close s)"

section \<open>Lemmas\<close>

lemma emit_frame [simp]:
  "ss_track_calls (session_emit ev s) = ss_track_calls s"
  "ss_pending_tracks (session_emit ev s) = ss_pending_tracks s"
  "ss_events (session_emit ev s) = ss_events s @ [ev]"
  "ss_signals (session_emit ev s) = ss_signals s"
  by (simp_all add: session_emit_def)

lemma signal_frame [simp]:
  "ss_track_calls (session_signal rq s) = ss_track_calls s"
  "ss_pending_tracks (session_signal rq s) = ss_pending_tracks s"
  "ss_events (session_signal rq s) = ss_events s"
  by (simp_all add: session_signal_def)

lemma incoming_data_event:
  "se_decode env data = Inr packet \<Longrightarrow> dp_value packet = Some value \<Longrightarrow>
   incoming_packet_event kind (packet\<lparr>dp_value := None\<rparr>) value = Some ev \<Longrightarrow>
   fst (on_rtc_event env now (RtcData data True kind) s) = HandlerOk
   \<and> ss_events (snd (on_rtc_event env now (RtcData data True kind) s)) = ss_events s @ [ev]"
  by (simp add: on_rtc_event_def on_data_def emit_incoming_packet_def session_emit_def Let_def)

lemma stuck_turns: "ss_signal_stuck s \<Longrightarrow> fold (signal_turn env) evs s = s"
  by (induction evs) (simp_all add: signal_turn_def)

text \<open>What a session knows about its calls of \<open>add_track\<close>; \<open>msgs\<close> are the messages so far.\<close>

definition track_published_msg :: "string \<Rightarrow> proto_track_info \<Rightarrow> session_action" where
  "track_published_msg cid info =
     DoSignal (SigMessage (SmTrackPublished \<lparr>tpr_cid = cid, tpr_track = Some info\<rparr>))"

definition track_call_ok :: "session_action set \<Rightarrow> track_call \<Rightarrow> bool" where
  "track_call_ok acts c \<longleftrightarrow>
     (\<forall>info. tc_rx c = Val info \<longrightarrow> track_published_msg (tc_cid c) info \<in> acts)
     \<and> (\<forall>info. tc_result c = Some (Inr info) \<longrightarrow> tc_rx c = Val info)
     \<and> (tc_result c \<noteq> Some (Inl (InternalErr ''track publication cancelled'')))"

definition waits :: "track_call \<Rightarrow> bool" where
  "waits c \<longleftrightarrow> tc_result c = None \<and> tc_rx c = NoValue"

text \<open>The entries of the table are exactly the calls that wait for an answer.\<close>

definition track_table_ok :: "(string \<rightharpoonup> nat) \<Rightarrow> track_call list \<Rightarrow> bool" where
  "track_table_ok pending calls \<longleftrightarrow>
     (\<forall>cid n. pending cid = Some n \<longleftrightarrow> n < length calls \<and> tc_cid (calls ! n) = cid \<and> waits (calls ! n))"

definition track_inv :: "session_action set \<Rightarrow> 'p session \<Rightarrow> bool" where
  "track_inv acts s \<longleftrightarrow> list_all (track_call_ok acts) (ss_track_calls s)
     \<and> track_table_ok (ss_pending_tracks s) (ss_track_calls s)"

lemma track_call_ok_mono: "track_call_ok acts c \<Longrightarrow> acts \<subseteq> acts' \<Longrightarrow> track_call_ok acts' c"
  by (auto simp: track_call_ok_def)

lemma track_inv_mono: "track_inv acts s \<Longrightarrow> acts \<subseteq> acts' \<Longrightarrow> track_inv acts' s"
  by (auto simp: track_inv_def list_all_iff intro: track_call_ok_mono)

lemma track_inv_cong:
  "track_inv acts s \<Longrightarrow> ss_track_calls s' = ss_track_calls s \<Longrightarrow>
   ss_pending_tracks s' = ss_pending_tracks s \<Longrightarrow> track_inv acts s'"
  by (simp add: track_inv_def)

lemma table_okD:
  "track_table_ok pending calls \<Longrightarrow>
   pending cid = Some n \<longleftrightarrow> n < length calls \<and> tc_cid (calls ! n) = cid \<and> waits (calls ! n)"
  by (simp add: track_table_ok_def)

lemma table_ok_remove:
  assumes ok: "track_table_ok pending calls" and n: "pending cid = Some n" and c: "\<not> waits c"
  shows "track_table_ok (pending(cid := None)) (calls[n := c])"
  unfolding track_table_ok_def
proof (intro allI)
  fix cid' m
  show "(pending(cid := None)) cid' = Some m \<longleftrightarrow> m < length (calls[n := c])
    \<and> tc_cid (calls[n := c] ! m) = cid' \<and> waits (calls[n := c] ! m)"
  proof (cases "m = n")
    case True
    with table_okD [OF ok, of cid n] table_okD [OF ok, of cid' n] n c show ?thesis by auto
  next
    case False
    with table_okD [OF ok, of cid' m] n show ?thesis by auto
  qed
qed

lemma table_ok_update:
  assumes ok: "track_table_ok pending calls" and n: "\<not> waits (calls ! n)" and c: "\<not> waits c"
  shows "track_table_ok pending (calls[n := c])"
  unfolding track_table_ok_def
proof (intro allI)
  fix cid m
  show "pending cid = Some m \<longleftrightarrow> m < length (calls[n := c])
    \<and> tc_cid (calls[n := c] ! m) = cid \<and> waits (calls[n := c] ! m)"
    using table_okD [OF ok, of cid m] n c by (cases "m = n") auto
qed

lemma table_ok_append:
  assumes ok: "track_table_ok pending calls" and c: "\<not> waits c"
  shows "track_table_ok pending (calls @ [c])"
  unfolding track_table_ok_def
proof (intro allI)
  fix cid m
  show "pending cid = Some m \<longleftrightarrow> m < length (calls @ [c])
    \<and> tc_cid ((calls @ [c]) ! m) = cid \<and> waits ((calls @ [c]) ! m)"
    using table_okD [OF ok, of cid m] c
    by (cases "m < length calls") (auto simp: nth_append less_Suc_eq)
qed

lemma table_ok_insert:
  assumes ok: "track_table_ok pending calls" and free: "pending cid = None"
    and c: "waits c" "tc_cid c = cid"
  shows "track_table_ok (pending(cid \<mapsto> length calls)) (calls @ [c])"
  unfolding track_table_ok_def
proof (intro allI)
  fix cid' m
  consider "m < length calls" | "m = length calls" | "length calls < m" by linarith
  then show "(pending(cid \<mapsto> length calls)) cid' = Some m \<longleftrightarrow> m < length (calls @ [c])
    \<and> tc_cid ((calls @ [c]) ! m) = cid' \<and> waits ((calls @ [c]) ! m)"
    using table_okD [OF ok, of cid' m] free c by cases (auto simp: nth_append)
qed

lemma track_inv_remove:
  assumes "track_inv acts s" and "ss_pending_tracks s cid = Some n" and "v \<noteq> NoValue"
    and "\<And>info. v = Val info \<Longrightarrow> track_published_msg cid info \<in> acts"
  shows "track_inv acts (track_tx n v (s\<lparr>ss_pending_tracks := (ss_pending_tracks s)(cid := None)\<rparr>))"
proof -
  let ?c = "(ss_track_calls s ! n)\<lparr>tc_rx := v\<rparr>"
  have n: "n < length (ss_track_calls s)" "tc_cid (ss_track_calls s ! n) = cid"
    "waits (ss_track_calls s ! n)"
    using assms(1,2) table_okD by (auto simp: track_inv_def)
  have "track_call_ok acts ?c"
    using n assms(3,4) by (auto simp: track_call_ok_def waits_def)
  moreover have "track_table_ok ((ss_pending_tracks s)(cid := None)) ((ss_track_calls s)[n := ?c])"
    using assms(1-3) by (intro table_ok_remove) (auto simp: track_inv_def waits_def)
  ultimately show ?thesis
    using assms(1) set_update_subset_insert [of "ss_track_calls s" n ?c]
    by (auto simp: track_inv_def track_tx_def list_all_iff)
qed

lemma track_inv_finish:
  assumes "track_inv acts s" and "n < length (ss_track_calls s)" and "\<not> waits (ss_track_calls s ! n)"
    and "\<And>info. r = Inr info \<Longrightarrow> tc_rx (ss_track_calls s ! n) = Val info"
    and "r \<noteq> Inl (InternalErr ''track publication cancelled'')"
  shows "track_inv acts (finish_track_call n r s)"
proof -
  let ?c = "(ss_track_calls s ! n)\<lparr>tc_result := Some r\<rparr>"
  have "track_call_ok acts (ss_track_calls s ! n)"
    using assms(1,2) by (auto simp: track_inv_def list_all_iff)
  then have "track_call_ok acts ?c"
    using assms(4,5) by (auto simp: track_call_ok_def)
  moreover have "track_table_ok (ss_pending_tracks s) ((ss_track_calls s)[n := ?c])"
    using assms(1,3) by (intro table_ok_update) (auto simp: track_inv_def waits_def)
  ultimately show ?thesis
    using assms(1) set_update_subset_insert [of "ss_track_calls s" n ?c]
    by (auto simp: track_inv_def finish_track_call_def list_all_iff)
qed

lemma track_inv_pending:
  "track_inv acts s \<Longrightarrow> track_inv acts (remove_pending_track cid s)"
  by (auto simp: remove_pending_track_def intro: track_inv_remove split: option.splits)

lemma elapsed_not_waiting:
  assumes "track_inv acts s" and "n < length (ss_track_calls s)"
  shows "\<not> waits (ss_track_calls (remove_pending_track (tc_cid (ss_track_calls s ! n)) s) ! n)"
proof (cases "waits (ss_track_calls s ! n)")
  case True
  with assms have "ss_pending_tracks s (tc_cid (ss_track_calls s ! n)) = Some n"
    using table_okD by (auto simp: track_inv_def)
  with assms(2) show ?thesis by (simp add: remove_pending_track_def track_tx_def waits_def)
next
  case False
  then show ?thesis
    using assms(2)
    by (cases "ss_pending_tracks s (tc_cid (ss_track_calls s ! n)) = Some n")
      (auto simp: remove_pending_track_def track_tx_def waits_def nth_list_update
        split: option.splits if_splits)
qed

lemma remove_pending_length [simp]:
  "length (ss_track_calls (remove_pending_track cid s)) = length (ss_track_calls s)"
  by (auto simp: remove_pending_track_def track_tx_def split: option.splits)

lemma track_inv_elapsed: "track_inv acts s \<Longrightarrow> track_inv acts (track_call_elapsed n s)"
  by (auto simp: track_call_elapsed_def intro!: track_inv_finish track_inv_pending
      dest: elapsed_not_waiting)

lemma track_inv_ready: "track_inv acts s \<Longrightarrow> track_inv acts (track_call_ready n s)"
  by (auto simp: track_call_ready_def waits_def intro!: track_inv_finish split: oneshot.splits)

lemma track_inv_add: "track_inv acts s \<Longrightarrow> track_inv acts (add_track req s)"
  by (auto simp: track_inv_def add_track_def track_call_ok_def waits_def
      intro: table_ok_append table_ok_insert [where cid = "atr_cid req"])

lemma track_inv_published:
  "track_inv acts s \<Longrightarrow> DoSignal (SigMessage (SmTrackPublished res)) \<in> acts \<Longrightarrow>
   track_inv acts (snd (on_track_published res s))"
  by (cases res) (auto simp: on_track_published_def track_published_msg_def Let_def
      intro!: track_inv_remove split: option.splits)

lemma other_messages_keep_tracks:
  "(\<forall>res. m \<noteq> SmTrackPublished res) \<Longrightarrow>
   ss_track_calls (snd (on_signal_event env m s)) = ss_track_calls s
   \<and> ss_pending_tracks (snd (on_signal_event env m s)) = ss_pending_tracks s"
  by (auto simp: on_signal_event_def on_answer_def on_subscriber_offer_def on_trickle_def
      on_session_disconnected_def on_request_response_def request_tx_def
      split: signal_message.splits option.splits outcome.splits sum.splits prod.splits)

lemma rtc_events_keep_tracks:
  "ss_track_calls (snd (on_rtc_event env now ev s)) = ss_track_calls s
   \<and> ss_pending_tracks (snd (on_rtc_event env now ev s)) = ss_pending_tracks s"
  by (auto simp: on_rtc_event_def on_data_def on_session_disconnected_def dc_send_def Let_def
      emit_incoming_packet_def split: rtc_event.splits list.splits sum.splits option.splits)

lemma track_inv_turn:
  assumes "track_inv acts s" and "DoSignal ev \<in> acts"
  shows "track_inv acts (signal_turn env ev s)"
proof (cases "ss_signal_stuck s")
  case False
  show ?thesis
  proof (cases ev)
    case (SigMessage m)
    have "track_inv acts (snd (on_signal_event env m s))"
    proof (cases "\<exists>res. m = SmTrackPublished res")
      case True
      with assms SigMessage show ?thesis
        by (auto simp: on_signal_event_def intro: track_inv_published)
    next
      case False
      with assms(1) other_messages_keep_tracks [of m env s] show ?thesis
        by (auto intro: track_inv_cong)
    qed
    then show ?thesis
      using SigMessage False
      by (auto simp: signal_turn_def track_inv_def split: handler_end.splits prod.splits)
  next
    case (SigClose reason)
    with assms(1) False show ?thesis
      by (auto simp: signal_turn_def on_session_disconnected_def intro: track_inv_cong)
  qed
qed (use assms in \<open>simp add: signal_turn_def\<close>)

lemma other_steps_keep_tracks:
  "act \<in> {DoMuteTrack sid muted, DoPublishData dc_open polls packet kind raw tx,
      DoSetThreshold threshold kind, DoGetResponse request_id, DoNegotiate, DoRestart res pub sub,
      DoRestartPublisher, DoClose} \<Longrightarrow>
   ss_track_calls (session_step env act s) = ss_track_calls s
   \<and> ss_pending_tracks (session_step env act s) = ss_pending_tracks s"
  by (auto simp: mute_track_def session_publish_data_def ensure_publisher_connected_def dc_send_def
      publisher_negotiation_needed_def session_set_threshold_def get_response_def request_tx_def
      session_restart_def restart_publisher_def session_close_def session_inner_close_def Let_def
      split: option.splits sum.splits prod.splits data_packet_kind.splits)

lemma simulate_keeps_tracks:
  "ss_track_calls (snd (session_simulate_scenario env scenario s)) = ss_track_calls s
   \<and> ss_pending_tracks (snd (session_simulate_scenario env scenario s)) = ss_pending_tracks s"
  by (cases scenario) (simp_all add: session_simulate_scenario_def simulate_leave_def
      on_signal_event_def on_session_disconnected_def)

lemma track_inv_step:
  assumes "track_inv acts s"
  shows "track_inv (insert act acts) (session_step env act s)"
proof -
  have i: "track_inv (insert act acts) s" using assms by (rule track_inv_mono) auto
  show ?thesis
  proof (cases act)
    case (DoSignal ev)
    with i show ?thesis by (auto intro: track_inv_turn)
  next
    case (DoRtc now ev)
    with i rtc_events_keep_tracks [of env now ev s] show ?thesis by (auto intro: track_inv_cong)
  next
    case (DoRemoveTrack track removed)
    with i show ?thesis
      by (auto simp: remove_track_def Let_def intro: track_inv_pending split: option.splits)
  next
    case (DoSimulate scenario)
    with i simulate_keeps_tracks [of env scenario s] show ?thesis by (auto intro: track_inv_cong)
  qed (use i other_steps_keep_tracks [of act, where env = env and s = s] in
      \<open>auto intro: track_inv_add track_inv_ready track_inv_elapsed track_inv_cong\<close>)
qed

lemma track_inv_run: "track_inv acts s \<Longrightarrow> track_inv (acts \<union> set as) (fold (session_step env) as s)"
proof (induction as arbitrary: acts s)
  case (Cons a as)
  from Cons.IH [OF track_inv_step [OF Cons.prems, of a]] show ?case by simp
qed simp

lemma track_inv_new:
  "session_new join_response fast_publish url now pub sub = Inr s \<Longrightarrow> track_inv {} s"
  by (auto simp: session_new_def track_inv_def track_table_ok_def split: option.splits)

section \<open>Properties\<close>

text \<open>A session on the example peer connection, for the witnesses.\<close>

definition example_session_env :: "data_packet \<Rightarrow> example_pc session_env" where
  "example_session_env packet = \<lparr>se_pc = example_ops, se_parse_description = (\<lambda>ty sdp. Some sdp),
     se_candidate_of_json = Some, se_candidate_to_json = cj_candidate,
     se_decode = (\<lambda>data. Inr packet)\<rparr>"

definition example_join :: join_response where
  "example_join = \<lparr>jr_room = None, jr_participant = Some \<lparr>ppi_sid = ''PA_1'', ppi_identity = ''me'',
       ppi_state = 0, ppi_tracks = [], ppi_metadata = [], ppi_name = [], ppi_kind = Standard,
       ppi_attributes = [], ppi_disconnect_reason = UnknownReason\<rparr>,
     jr_other_participants = []\<rparr>"

definition example_session :: "signaling_state \<Rightarrow> example_pc session" where
  "example_session state =
     (case session_new example_join False ''url'' 0
        \<lparr>ex_state = state, ex_remote = None, ex_candidates = []\<rparr>
        \<lparr>ex_state = Stable, ex_remote = None, ex_candidates = []\<rparr> of
        Inr s \<Rightarrow> s)"

lemma example_join_sid [simp]: "ok (participant_sid_try_from ''PA_1'') = Some ''PA_1''"
  by (simp add: participant_sid_ok starts_with_def PARTICIPANT_PREFIX_def)

lemma example_session_new:
  "session_new example_join False ''url'' 0 \<lparr>ex_state = state, ex_remote = None, ex_candidates = []\<rparr>
     \<lparr>ex_state = Stable, ex_remote = None, ex_candidates = []\<rparr> = Inr (example_session state)"
  by (simp add: example_session_def session_new_def info_from_join_def example_join_def
      identity_try_from_def)

lemmas example_session_eval = example_session_def session_new_def info_from_join_def
  example_join_def identity_try_from_def

text \<open>
  Every packet that arrives on a data channel is forwarded, also one that the receive state
  knows as a duplicate: the same reliable packet received any number of times is emitted as many
  times. The participant identity of a user packet is always that of the packet itself, even when
  it is empty: the identity in the user value, meant as the fallback, is never looked at.
\<close>

theorem incoming_data_emitted:
  assumes "se_decode env data = Inr packet" and "dp_value packet = Some value"
    and "incoming_packet_event kind (packet\<lparr>dp_value := None\<rparr>) value = Some ev"
  shows "ss_events (fold (\<lambda>now s. snd (on_rtc_event env now (RtcData data True kind) s)) readings s)
      = ss_events s @ replicate (length readings) ev
    \<and> (\<forall>user. value = User user \<longrightarrow>
        (\<exists>sid. ev = SeData sid (Some (dp_participant_identity packet)) (up_payload user)
          (up_topic user) kind))"
proof
  show "ss_events (fold (\<lambda>now s. snd (on_rtc_event env now (RtcData data True kind) s)) readings s)
      = ss_events s @ replicate (length readings) ev"
  proof (induction readings arbitrary: s)
    case (Cons now readings)
    with incoming_data_event [OF assms, of now s] show ?case by simp
  qed simp
  show "\<forall>user. value = User user \<longrightarrow>
      (\<exists>sid. ev = SeData sid (Some (dp_participant_identity packet)) (up_payload user)
        (up_topic user) kind)"
    using assms(3) by (auto simp: incoming_packet_event_def identity_try_from_def Let_def)
qed

theorem incoming_data_emitted_witness:
  "ss_events (fold (\<lambda>now s. snd (on_rtc_event (example_session_env (default_packet
        \<lparr>dp_sequence := 3, dp_participant_sid := ''PA_2'', dp_value := Some (RpcAckValue \<lparr>pra_request_id = ''r''\<rparr>)\<rparr>))
      now (RtcData [1] True Reliable) s)) [1, 2] (example_session Stable))
   = [SeRpcAck ''r'', SeRpcAck ''r'']"
proof -
  let ?p = "default_packet\<lparr>dp_sequence := 3, dp_participant_sid := ''PA_2'',
    dp_value := Some (RpcAckValue \<lparr>pra_request_id = ''r''\<rparr>)\<rparr>"
  let ?v = "RpcAckValue \<lparr>pra_request_id = ''r''\<rparr>"
  have h: "se_decode (example_session_env ?p) [1] = Inr ?p" "dp_value ?p = Some ?v"
    "incoming_packet_event Reliable (?p\<lparr>dp_value := None\<rparr>) ?v = Some (SeRpcAck ''r'')"
    by (simp_all add: example_session_env_def incoming_packet_event_def)
  have "ss_events (example_session Stable) = []" by (simp add: example_session_eval)
  with incoming_data_emitted [OF h, of "[1, 2]" "example_session Stable"] show ?thesis
    by (simp add: numeral_2_eq_2)
qed

text \<open>
  An answer that arrives while a renegotiation is deferred stops the session: the handler of the
  answer waits for ever for the mutex it holds, the signal task waits for the handler, so none of
  the later messages of the server is handled, and closing the session does not return either:
  no leave message is sent.
\<close>

theorem answer_stops_signalling:
  assumes "accepts (se_pc env)" and "\<not> tr_locked (ss_publisher s)"
    and "pc_signaling_state (se_pc env) (tr_pc (ss_publisher s)) = HaveLocalOffer"
    and "se_parse_description env ty sdp = Some answer" and "\<not> ss_signal_stuck s" and "ss_handle s"
    and "snd (create_and_send_offer (se_pc env) False (ss_publisher s)) = deferred"
    and "fold (signal_turn env) (SigMessage (SmAnswer ty sdp) # later) (s\<lparr>ss_publisher := deferred\<rparr>) = s'"
  shows "ss_events s' = ss_events s \<and> ss_signals s' = ss_signals s \<and> ss_track_calls s' = ss_track_calls s
    \<and> tr_offers (ss_publisher s') = tr_offers (ss_publisher s)
    \<and> fst (session_close s') = Blocked \<and> ss_signals (snd (session_close s')) = ss_signals s"
proof -
  have d: "\<not> tr_locked deferred" "tr_renegotiate deferred" "tr_offers deferred = tr_offers (ss_publisher s)"
    using deferred_offer [OF assms(2,3)] assms(2,7) by auto
  obtain r t where srd: "set_remote_description (se_pc env) answer deferred = (r, t)"
    by (cases "set_remote_description (se_pc env) answer deferred")
  have b: "r = Blocked" "tr_offers t = tr_offers deferred"
    using renegotiating_answer_blocks [OF assms(1) d(1,2) srd] by auto
  let ?s = "s\<lparr>ss_publisher := t, ss_signal_stuck := True\<rparr>"
  have "signal_turn env (SigMessage (SmAnswer ty sdp)) (s\<lparr>ss_publisher := deferred\<rparr>) = ?s"
    using assms(4,5) srd b(1) by (simp add: signal_turn_def on_signal_event_def on_answer_def)
  with assms(8) have "s' = ?s" by (simp add: stuck_turns)
  then show ?thesis
    using b(2) d(3) assms(6) by (simp add: session_close_def Let_def)
qed

theorem answer_stops_signalling_witness:
  "\<exists>s. ss_events s = [] \<and> fst (session_close (fold (signal_turn (example_session_env default_packet))
     [SigMessage (SmAnswer ''answer'' ''sdp''), SigMessage (SmTrackSubscribed ''TR_1'')] s)) = Blocked"
proof -
  let ?env = "example_session_env default_packet"
  let ?s = "example_session HaveLocalOffer"
  have h: "accepts (se_pc ?env)" "\<not> tr_locked (ss_publisher ?s)"
    "pc_signaling_state (se_pc ?env) (tr_pc (ss_publisher ?s)) = HaveLocalOffer"
    "se_parse_description ?env ''answer'' ''sdp'' = Some ''sdp''" "\<not> ss_signal_stuck ?s" "ss_handle ?s"
    "ss_events ?s = []"
    using example_accepts by (simp_all add: example_session_env_def example_session_eval on_offer_def
        transport_new_def)
      (simp add: example_ops_def)
  let ?d = "snd (create_and_send_offer (se_pc ?env) False (ss_publisher ?s))"
  from answer_stops_signalling
      [where later = "[SigMessage (SmTrackSubscribed ''TR_1'')]", OF h(1-6) refl refl]
  have "fst (session_close (fold (signal_turn ?env) [SigMessage (SmAnswer ''answer'' ''sdp''),
      SigMessage (SmTrackSubscribed ''TR_1'')] (?s\<lparr>ss_publisher := ?d\<rparr>))) = Blocked" by blast
  moreover have "ss_events (?s\<lparr>ss_publisher := ?d\<rparr>) = []" using h(7) by simp
  ultimately show ?thesis by blast
qed

text \<open>
  C33. Every call of \<open>add_track\<close> gets its own answer: in every run of a new session a call that
  returned a track returned one that the server published for its own \<open>cid\<close>; a call that waits
  without an answer is the entry of its \<open>cid\<close>, so the next answer for it arrives, and a finished
  call has none left. The error for a cancelled publication never occurs: a removed track lets
  its call run into the timeout.
\<close>

theorem track_publications_own:
  assumes "session_new join_response fast_publish url now pub sub = Inr s\<^sub>0"
    and "s = fold (session_step env) acts s\<^sub>0" and "n < length (ss_track_calls s)"
    and "c = ss_track_calls s ! n"
  shows "(\<forall>info. tc_result c = Some (Inr info) \<longrightarrow>
        DoSignal (SigMessage (SmTrackPublished \<lparr>tpr_cid = tc_cid c, tpr_track = Some info\<rparr>)) \<in> set acts)
    \<and> (tc_result c = None \<and> tc_rx c = NoValue \<longleftrightarrow> ss_pending_tracks s (tc_cid c) = Some n)
    \<and> tc_result c \<noteq> Some (Inl (InternalErr ''track publication cancelled''))"
proof -
  have inv: "track_inv (set acts) s"
    using track_inv_run [OF track_inv_new [OF assms(1)], of acts env] assms(2) by simp
  then have "track_call_ok (set acts) c"
    using assms(3,4) by (auto simp: track_inv_def list_all_iff)
  moreover have "ss_pending_tracks s (tc_cid c) = Some n \<longleftrightarrow> waits c"
    using inv table_okD [of "ss_pending_tracks s" "ss_track_calls s" "tc_cid c" n] assms(3,4)
    by (auto simp: track_inv_def)
  ultimately show ?thesis
    by (auto simp: track_call_ok_def track_published_msg_def waits_def)
qed

theorem track_publications_own_witness:
  "\<exists>acts c. ss_track_calls (fold (session_step (example_session_env default_packet)) acts
       (example_session Stable)) = [c]
     \<and> tc_result c = None \<and> tc_rx c = NoValue"
proof -
  let ?req = "\<lparr>atr_cid = ''c'', atr_name = [], atr_type = ProtoAudio, atr_source = Microphone,
    atr_muted = False\<rparr>"
  let ?acts = "[DoAddTrack ?req]"
  let ?s = "fold (session_step (example_session_env default_packet)) ?acts (example_session Stable)"
  have calls: "ss_track_calls ?s = [\<lparr>tc_cid = ''c'', tc_rx = NoValue, tc_result = None\<rparr>]"
    and pending: "ss_pending_tracks ?s ''c'' = Some 0"
    by (simp_all add: add_track_def session_signal_def example_session_eval)
  from track_publications_own [where n = 0 and acts = ?acts
      and env = "example_session_env default_packet", OF example_session_new refl _ refl, of Stable]
  have "tc_result (ss_track_calls ?s ! 0) = None \<and> tc_rx (ss_track_calls ?s ! 0) = NoValue"
    using calls pending by (simp del: fold.simps)
  with calls show ?thesis by (metis nth_Cons_0)
qed

end
