(* ===== verification/SignalClient.thy ===== *)
theory SignalClient
  imports Session "HOL-Library.Multiset"
begin

text \<open>
  The signalling connection (\<open>livekit-api/src/signal_client/mod.rs\<close>, \<open>signal_stream.rs\<close> and
  \<open>region.rs\<close>): the client keeps a web socket stream, a queue of the messages that could not be sent,
  and restarts the stream when the session resumes.

  A call of \<open>send\<close> is a process of its own that the scheduler advances from one lock to the next; so
  is a restart. The stream's lock is written by a restart for the whole time it connects, the queue's
  lock is held by a sender that flushes. What happened to a message that was not sent is recorded in
  \<open>sc_lost\<close>. The web socket itself, the parser of URLs and the HTTP client are parameters.
\<close>

section \<open>Errors\<close>

datatype (plugins only: code size) signal_error =
    WsError string
  | UrlParse string
  | ClientStatus nat string
  | ServerStatus nat string
  | ProtoParse string
  | TimeoutErr string
  | SendError
  | RegionError string

section \<open>Addresses\<close>

text \<open>A parsed URL: the parts the code reads and changes; the path of \<open>/\<close> is \<open>[]\<close>, as a push replaces its empty segment.\<close>

record url =
  url_scheme :: string
  url_host :: "string option"
  url_path :: "string list"
  url_query :: "(string \<times> string) list"

record signal_options =
  so_auto_subscribe :: bool
  so_adaptive_stream :: bool
  so_sdk :: string
  so_sdk_version :: "string option"

definition PROTOCOL_VERSION :: string where "PROTOCOL_VERSION = ''16''"

definition get_livekit_url ::
    "(string \<Rightarrow> string + url) \<Rightarrow> string \<Rightarrow> string \<Rightarrow> signal_options \<Rightarrow> signal_error + url" where
  "get_livekit_url parse u token options =
     (case parse u of
        Inl err \<Rightarrow> Inl (UrlParse err)
      | Inr lk_url \<Rightarrow>
          if url_host lk_url = None then Inl (UrlParse ''missing host or scheme'')
          else
            let scheme = url_scheme lk_url;
                switched = (if scheme = ''https'' then Some ''wss''
                  else if scheme = ''http'' then Some ''ws''
                  else if scheme \<noteq> ''wss'' \<and> scheme \<noteq> ''ws'' then None else Some scheme)
            in case switched of
                 None \<Rightarrow> Inl (UrlParse (''unsupported scheme: '' @ scheme))
               | Some scheme \<Rightarrow> Inr (lk_url
                   \<lparr>url_scheme := scheme, url_path := url_path lk_url @ [''rtc''],
                    url_query := url_query lk_url @
                      [(''sdk'', so_sdk options), (''protocol'', PROTOCOL_VERSION),
                       (''access_token'', token),
                       (''auto_subscribe'', if so_auto_subscribe options then ''1'' else ''0''),
                       (''adaptive_stream'', if so_adaptive_stream options then ''1'' else ''0'')] @
                      (case so_sdk_version options of
                         None \<Rightarrow> [] | Some sdk_version \<Rightarrow> [(''version'', sdk_version)])\<rparr>))"

definition ends_with :: "string \<Rightarrow> string \<Rightarrow> bool" where
  "ends_with suffix s \<longleftrightarrow> suffix = drop (length s - length suffix) s"

definition is_cloud_url :: "(string \<Rightarrow> string + url) \<Rightarrow> string \<Rightarrow> signal_error + bool" where
  "is_cloud_url parse u =
     (case parse u of
        Inl err \<Rightarrow> Inl (UrlParse err)
      | Inr parsed \<Rightarrow>
          (case url_host parsed of
             None \<Rightarrow> Inl (UrlParse ''invalid hostname'')
           | Some host \<Rightarrow> Inr (ends_with ''.livekit.cloud'' host \<or> ends_with ''.livekit.run'' host)))"

definition region_endpoint :: "(string \<Rightarrow> string + url) \<Rightarrow> string \<Rightarrow> signal_error + url" where
  "region_endpoint parse u =
     (case parse u of
        Inl err \<Rightarrow> Inl (UrlParse err)
      | Inr parsed \<Rightarrow> Inr (parsed
          \<lparr>url_scheme := (if url_scheme parsed = ''wss'' then ''https''
             else if url_scheme parsed = ''ws'' then ''http'' else url_scheme parsed),
           url_path := [''settings'', ''regions'']\<rparr>))"

text \<open>
  \<open>fetch_region_urls\<close>: the answer of the region service is its status with its text, and its urls.
\<close>

record region_answer =
  ra_status :: nat
  ra_text :: string
  ra_urls :: "string + string list"

definition fetch_region_urls ::
    "(string \<Rightarrow> string + url) \<Rightarrow> (url \<Rightarrow> string + region_answer) \<Rightarrow> string \<Rightarrow> signal_error + string list" where
  "fetch_region_urls parse http u =
     (case is_cloud_url parse u of
        Inl err \<Rightarrow> Inl err
      | Inr False \<Rightarrow> Inr []
      | Inr True \<Rightarrow>
          (case region_endpoint parse u of
             Inl err \<Rightarrow> Inl err
           | Inr endpoint \<Rightarrow>
               (case http endpoint of
                  Inl err \<Rightarrow> Inl (RegionError err)
                | Inr answer \<Rightarrow>
                    if \<not> (200 \<le> ra_status answer \<and> ra_status answer < 300)
                    then Inl (ClientStatus (ra_status answer) (ra_text answer))
                    else (case ra_urls answer of
                            Inl err \<Rightarrow> Inl (RegionError err) | Inr urls \<Rightarrow> Inr urls))))"

section \<open>Connecting\<close>

text \<open>
  \<open>get_join_response\<close> and \<open>get_reconnect_response\<close>: the first event that matches; those before it are
  gone. \<open>None\<close> in the list of events is the timeout.
\<close>

fun get_async_message :: "('m \<Rightarrow> 'r option) \<Rightarrow> string \<Rightarrow> 'm option list \<Rightarrow> (signal_error + 'r) \<times> 'm option list" where
  "get_async_message match ty [] = (Inl (WsError ''connection closed''), [])"
| "get_async_message match ty (None # events) =
     (Inl (TimeoutErr (''failed to receive '' @ ty)), events)"
| "get_async_message match ty (Some event # events) =
     (case match event of
        Some r \<Rightarrow> (Inr r, events)
      | None \<Rightarrow> get_async_message match ty events)"

text \<open>\<open>validate\<close>: what the server says of an address over HTTP, its status and its text.\<close>

definition validate :: "(url \<Rightarrow> (nat \<times> string) option) \<Rightarrow> url \<Rightarrow> signal_error + unit" where
  "validate http_get ws_url =
     (let ws_url = ws_url
            \<lparr>url_scheme := (if url_scheme ws_url = ''wss'' then ''https'' else ''http''),
             url_path := url_path ws_url @ [''rtc'', ''validate'']\<rparr>
      in case http_get ws_url of
           None \<Rightarrow> Inr ()
         | Some (status, body) \<Rightarrow>
             if 400 \<le> status \<and> status < 500 then Inl (ClientStatus status body)
             else if 500 \<le> status \<and> status < 600 then Inl (ServerStatus status body)
             else Inr ())"

text \<open>
  \<open>SignalInner::connect\<close> to one address: \<open>open_stream\<close> opens the web socket and gives the events that
  come from it, up to the first that is not there in time.
\<close>

definition inner_connect ::
    "(string \<Rightarrow> string + url) \<Rightarrow> (url \<Rightarrow> signal_error + 'm option list) \<Rightarrow> ('m \<Rightarrow> 'j option) \<Rightarrow>
     (url \<Rightarrow> (nat \<times> string) option) \<Rightarrow> string \<Rightarrow> string \<Rightarrow> signal_options \<Rightarrow>
     signal_error + ('j \<times> 'm option list)" where
  "inner_connect parse open_stream match_join http_get u token options =
     (case get_livekit_url parse u token options of
        Inl err \<Rightarrow> Inl err
      | Inr lk_url \<Rightarrow>
          (case open_stream lk_url of
             Inl err \<Rightarrow> (case validate http_get lk_url of Inl verr \<Rightarrow> Inl verr | Inr _ \<Rightarrow> Inl err)
           | Inr events \<Rightarrow>
               (case get_async_message match_join ''JoinResponse'' events of
                  (Inl err, _) \<Rightarrow> Inl err
                | (Inr join_response, events) \<Rightarrow> Inr (join_response, events))))"

fun try_regions :: "(string \<Rightarrow> signal_error + 'j) \<Rightarrow> signal_error \<Rightarrow> string list \<Rightarrow> signal_error + (string \<times> 'j)" where
  "try_regions connect last_err [] = Inl last_err"
| "try_regions connect last_err (u # urls) =
     (case connect u of
        Inr join_response \<Rightarrow> Inr (u, join_response)
      | Inl err \<Rightarrow> try_regions connect err urls)"

definition signal_connect ::
    "(string \<Rightarrow> signal_error + 'j) \<Rightarrow> (string \<Rightarrow> signal_error + string list) \<Rightarrow> string \<Rightarrow>
     signal_error + (string \<times> 'j)" where
  "signal_connect connect regions u =
     (case connect u of
        Inr join_response \<Rightarrow> Inr (u, join_response)
      | Inl err \<Rightarrow>
          (case regions u of
             Inl err \<Rightarrow> Inl err
           | Inr urls \<Rightarrow> try_regions connect err urls))"

section \<open>The stream\<close>

text \<open>
  The write task from its \<open>n\<close>-th write on; \<open>ws n\<close> is the result of that write. A signal is answered with
  the result of its write, an error ends the task, and the channels of the signals that come after
  its end are dropped.
\<close>

datatype (plugins only: code size) internal_message =
    ImSignal signal_request
  | ImPong "byte list"
  | ImClose

datatype (plugins only: code size) ws_frame = WsBinary signal_request | WsPong "byte list"

datatype (plugins only: code size) send_answer = Answered "signal_error + unit" | Dropped

fun dropped_signals :: "internal_message list \<Rightarrow> (signal_request \<times> send_answer) list" where
  "dropped_signals [] = []"
| "dropped_signals (ImSignal signal # msgs) = (signal, Dropped) # dropped_signals msgs"
| "dropped_signals (_ # msgs) = dropped_signals msgs"

fun write_task :: "(nat \<Rightarrow> string + unit) \<Rightarrow> nat \<Rightarrow> internal_message list \<Rightarrow>
    ws_frame list \<times> (signal_request \<times> send_answer) list" where
  "write_task ws n [] = ([], [])"
| "write_task ws n (ImClose # msgs) = ([], dropped_signals msgs)"
| "write_task ws n (ImPong ping_data # msgs) =
     (case write_task ws (Suc n) msgs of
        (frames, answers) \<Rightarrow>
          (case ws n of Inr _ \<Rightarrow> (WsPong ping_data # frames, answers) | Inl err \<Rightarrow> (frames, answers)))"
| "write_task ws n (ImSignal signal # msgs) =
     (case ws n of
        Inl err \<Rightarrow> ([], (signal, Answered (Inl (WsError err))) # dropped_signals msgs)
      | Inr _ \<Rightarrow>
          (case write_task ws (Suc n) msgs of
             (frames, answers) \<Rightarrow> (WsBinary signal # frames, (signal, Answered (Inr ())) # answers)))"

text \<open>\<open>SignalStream::send\<close> on the answer of the write task.\<close>

fun stream_send :: "send_answer \<Rightarrow> signal_error + unit" where
  "stream_send (Answered r) = r"
| "stream_send Dropped = Inl SendError"

text \<open>
  The read task: what comes from the web socket, the messages it hands on, and what it sends to the write
  task. \<open>None\<close> is its panic on a message it cannot decode.
\<close>

datatype (plugins only: code size) 'm ws_incoming =
    InBinary "string + 'm option"
  | InPing "byte list"
  | InClose
  | InFrame
  | InOther

fun read_task :: "'m ws_incoming list \<Rightarrow> ('m list \<times> internal_message list) option" where
  "read_task [] = Some ([], [ImClose])"
| "read_task (InBinary (Inl err) # ins) = None"
| "read_task (InBinary (Inr None) # ins) = read_task ins"
| "read_task (InBinary (Inr (Some m)) # ins) =
     map_option (\<lambda>(ms, internal). (m # ms, internal)) (read_task ins)"
| "read_task (InPing ping_data # ins) =
     map_option (\<lambda>(ms, internal). (ms, ImPong ping_data # internal)) (read_task ins)"
| "read_task (InFrame # ins) = read_task ins"
| "read_task (InClose # ins) = Some ([], [ImClose])"
| "read_task (InOther # ins) = Some ([], [ImClose])"

section \<open>The signal task\<close>

text \<open>
  \<open>signal_task\<close> sits between the stream and the session: it keeps the token and the round-trip time,
  pings, and ends when the stream does or when nothing came for the ping timeout. Each input has the
  reading of the monotonic clock, \<open>TaskMessage\<close> and \<open>TaskTick\<close> also that of the system clock.
\<close>

datatype (plugins only: code size) task_input =
    TaskMessage int int signal_message
  | TaskStreamEnd
  | TaskTick int
  | TaskTimer int

record signal_task =
  st_timeout :: int
  st_token :: string
  st_rtt :: int
  st_deadline :: int
  st_emitted :: "signal_event list"
  st_pings :: "signal_request list"
  st_ended :: bool

definition signal_task_start :: "int \<Rightarrow> string \<Rightarrow> int \<Rightarrow> signal_task" where
  "signal_task_start timeout token now =
     \<lparr>st_timeout = timeout, st_token = token, st_rtt = 0, st_deadline = now + timeout, st_emitted = [],
      st_pings = [], st_ended = False\<rparr>"

definition signal_task_step :: "task_input \<Rightarrow> signal_task \<Rightarrow> signal_task" where
  "signal_task_step input st =
     (if st_ended st then st
      else case input of
        TaskMessage now system_now signal \<Rightarrow>
          st\<lparr>st_token := (case signal of SmRefreshToken token \<Rightarrow> token | _ \<Rightarrow> st_token st),
             st_rtt := (case signal of SmPongResp last_ping_timestamp \<Rightarrow> system_now - last_ping_timestamp
               | _ \<Rightarrow> st_rtt st),
             st_deadline := now + st_timeout st,
             st_emitted := st_emitted st @ [SigMessage signal]\<rparr>
      | TaskStreamEnd \<Rightarrow>
          st\<lparr>st_emitted := st_emitted st @ [SigClose ''stream closed''], st_ended := True\<rparr>
      | TaskTick system_now \<Rightarrow> st\<lparr>st_pings := st_pings st @ [RqPing system_now (st_rtt st)]\<rparr>
      | TaskTimer now \<Rightarrow>
          if st_deadline st \<le> now
          then st\<lparr>st_emitted := st_emitted st @ [SigClose ''ping timeout''], st_ended := True\<rparr>
          else st)"

section \<open>Sending and restarting\<close>

text \<open>Not every signal should be sent after a reconnection.\<close>

fun is_queuable :: "signal_request \<Rightarrow> bool" where
  "is_queuable RqSyncState = False"
| "is_queuable (RqTrickle _ _) = False"
| "is_queuable (RqOffer _ _) = False"
| "is_queuable (RqAnswer _ _) = False"
| "is_queuable (RqSimulate _) = False"
| "is_queuable (RqLeave _ _) = False"
| "is_queuable _ = True"

text \<open>
  A call of \<open>send\<close>: before it has read the flag, before it may queue, before it may flush, waiting for
  the stream with the queue in its hand, before it may write, and at its end.
\<close>

datatype (plugins only: code size) send_phase = SendStart | SendQueue | SendFlush | SendDrain | SendWrite | SendDone

record send_call =
  cl_signal :: signal_request
  cl_phase :: send_phase

text \<open>
  A restart: closing the old stream, connecting with the stream's lock, before it may flush, flushing,
  and before the flag goes back.
\<close>

datatype (plugins only: code size) restart_phase = RestartIdle | RestartClosed | RestartConnecting | RestartFlush | RestartDrain | RestartFlushed

text \<open>Who holds the queue.\<close>

datatype (plugins only: code size) queue_holder = HeldByCall nat | HeldByRestart

record signal_client =
  sc_stream :: "nat option"
  sc_next_stream :: nat
  sc_reconnecting :: bool
  sc_queue :: "signal_request list"
  sc_holder :: "queue_holder option"
  sc_calls :: "send_call list"
  sc_restart :: restart_phase
  sc_sent :: "(nat \<times> signal_request) list"
  sc_lost :: "signal_request list"

definition signal_client_new :: signal_client where
  "signal_client_new =
     \<lparr>sc_stream = Some 0, sc_next_stream = 1, sc_reconnecting = False, sc_queue = [], sc_holder = None,
      sc_calls = [], sc_restart = RestartIdle, sc_sent = [], sc_lost = []\<rparr>"

text \<open>The stream's lock is written while a restart connects.\<close>

definition stream_locked :: "signal_client \<Rightarrow> bool" where
  "stream_locked c \<longleftrightarrow> sc_restart c = RestartConnecting"

definition set_phase :: "nat \<Rightarrow> send_phase \<Rightarrow> signal_client \<Rightarrow> signal_client" where
  "set_phase i ph c = c\<lparr>sc_calls := (sc_calls c)[i := (sc_calls c ! i)\<lparr>cl_phase := ph\<rparr>]\<rparr>"

definition queue_message :: "signal_request \<Rightarrow> signal_client \<Rightarrow> signal_client" where
  "queue_message signal c =
     (if is_queuable signal then c\<lparr>sc_queue := sc_queue c @ [signal]\<rparr>
      else c\<lparr>sc_lost := sc_lost c @ [signal]\<rparr>)"

text \<open>The drain of \<open>flush_queue\<close>; \<open>res\<close> says which writes succeed. A signal whose write fails is lost.\<close>

fun drain_queue :: "bool list \<Rightarrow> nat \<Rightarrow> signal_request list \<Rightarrow> signal_client \<Rightarrow> signal_client" where
  "drain_queue res stream [] c = c"
| "drain_queue [] stream (signal # signals) c =
     drain_queue [] stream signals (c\<lparr>sc_lost := sc_lost c @ [signal]\<rparr>)"
| "drain_queue (written # res) stream (signal # signals) c =
     drain_queue res stream signals
       (if written then c\<lparr>sc_sent := sc_sent c @ [(stream, signal)]\<rparr>
        else c\<lparr>sc_lost := sc_lost c @ [signal]\<rparr>)"

definition flush_drain :: "bool list \<Rightarrow> signal_client \<Rightarrow> signal_client" where
  "flush_drain res c =
     (case sc_stream c of
        None \<Rightarrow> c\<lparr>sc_holder := None\<rparr>
      | Some stream \<Rightarrow> (drain_queue res stream (sc_queue c) c)\<lparr>sc_queue := [], sc_holder := None\<rparr>)"

text \<open>
  What a scheduled step does: a new call of \<open>send\<close>, the next step of a call with the results of its writes,
  and the steps of a restart and of a close.
\<close>

datatype (plugins only: code size) write_result = WriteOk | WriteWsErr | WriteGone

datatype (plugins only: code size) client_action =
    ActSend signal_request
  | ActAdvance nat "bool list" write_result
  | ActRestart
  | ActLock
  | ActConnected bool
  | ActFlush "bool list"
  | ActRestarted
  | ActClose

definition send_step :: "nat \<Rightarrow> bool list \<Rightarrow> write_result \<Rightarrow> signal_client \<Rightarrow> signal_client" where
  "send_step i res r c =
     (let signal = cl_signal (sc_calls c ! i) in
      case cl_phase (sc_calls c ! i) of
        SendStart \<Rightarrow> set_phase i (if sc_reconnecting c then SendQueue else SendFlush) c
      | SendQueue \<Rightarrow>
          if sc_holder c = None then set_phase i SendDone (queue_message signal c) else c
      | SendFlush \<Rightarrow>
          if sc_holder c \<noteq> None then c
          else if sc_queue c = [] then set_phase i SendWrite c
          else set_phase i SendDrain (c\<lparr>sc_holder := Some (HeldByCall i)\<rparr>)
      | SendDrain \<Rightarrow>
          if stream_locked c then c else set_phase i SendWrite (flush_drain res c)
      | SendWrite \<Rightarrow>
          if stream_locked c then c
          else (case sc_stream c of
                  None \<Rightarrow> set_phase i SendDone (c\<lparr>sc_lost := sc_lost c @ [signal]\<rparr>)
                | Some stream \<Rightarrow>
                    (case r of
                       WriteOk \<Rightarrow> set_phase i SendDone (c\<lparr>sc_sent := sc_sent c @ [(stream, signal)]\<rparr>)
                     | WriteWsErr \<Rightarrow> set_phase i SendDone (c\<lparr>sc_lost := sc_lost c @ [signal]\<rparr>)
                     | WriteGone \<Rightarrow> set_phase i SendQueue c))
      | SendDone \<Rightarrow> c)"

fun client_step :: "client_action \<Rightarrow> signal_client \<Rightarrow> signal_client" where
  "client_step (ActSend signal) c =
     c\<lparr>sc_calls := sc_calls c @ [\<lparr>cl_signal = signal, cl_phase = SendStart\<rparr>]\<rparr>"
| "client_step (ActAdvance i res r) c = (if i < length (sc_calls c) then send_step i res r c else c)"
| "client_step ActRestart c =
     (if sc_restart c = RestartIdle then c\<lparr>sc_stream := None, sc_restart := RestartClosed\<rparr> else c)"
| "client_step ActLock c =
     (if sc_restart c = RestartClosed
      then c\<lparr>sc_restart := RestartConnecting, sc_reconnecting := True\<rparr> else c)"
| "client_step (ActConnected connected) c =
     (if sc_restart c = RestartConnecting then
        if connected then c\<lparr>sc_stream := Some (sc_next_stream c), sc_next_stream := Suc (sc_next_stream c),
                     sc_restart := RestartFlush\<rparr>
        else c\<lparr>sc_restart := RestartIdle, sc_reconnecting := False\<rparr>
      else c)"
| "client_step (ActFlush res) c =
     (case sc_restart c of
        RestartFlush \<Rightarrow>
          if sc_holder c \<noteq> None then c
          else if sc_queue c = [] then c\<lparr>sc_restart := RestartFlushed\<rparr>
          else c\<lparr>sc_holder := Some HeldByRestart, sc_restart := RestartDrain\<rparr>
      | RestartDrain \<Rightarrow> (flush_drain res c)\<lparr>sc_restart := RestartFlushed\<rparr>
      | _ \<Rightarrow> c)"
| "client_step ActRestarted c =
     (if sc_restart c = RestartFlushed then c\<lparr>sc_restart := RestartIdle, sc_reconnecting := False\<rparr> else c)"
| "client_step ActClose c = (if stream_locked c then c else c\<lparr>sc_stream := None\<rparr>)"

section \<open>Lemmas\<close>

text \<open>What finished calls have sent, as a multiset: it is in one of three places.\<close>

definition finished :: "send_call list \<Rightarrow> signal_request multiset" where
  "finished calls = image_mset cl_signal (filter_mset (\<lambda>c. cl_phase c = SendDone) (mset calls))"

definition accounted :: "signal_client \<Rightarrow> bool" where
  "accounted c \<longleftrightarrow> finished (sc_calls c) = mset (map snd (sc_sent c)) + mset (sc_queue c) + mset (sc_lost c)
     \<and> list_all is_queuable (sc_queue c)"

lemma finished_update:
  "i < length calls \<Longrightarrow> cl_phase (calls ! i) \<noteq> SendDone \<Longrightarrow>
   finished (calls[i := (calls ! i)\<lparr>cl_phase := ph\<rparr>]) =
     (if ph = SendDone then add_mset (cl_signal (calls ! i)) (finished calls) else finished calls)"
  by (simp add: finished_def mset_update filter_diff_mset)

lemma finished_append: "finished (calls @ [\<lparr>cl_signal = signal, cl_phase = SendStart\<rparr>]) = finished calls"
  by (simp add: finished_def)

lemma drain_queue_fields [simp]:
  "sc_calls (drain_queue res stream signals c) = sc_calls c"
  "sc_queue (drain_queue res stream signals c) = sc_queue c"
  "sc_restart (drain_queue res stream signals c) = sc_restart c"
  "sc_holder (drain_queue res stream signals c) = sc_holder c"
  "sc_stream (drain_queue res stream signals c) = sc_stream c"
  by (induction res stream signals c rule: drain_queue.induct) simp_all

lemma drain_queue_places:
  "mset (map snd (sc_sent (drain_queue res stream signals c))) + mset (sc_lost (drain_queue res stream signals c)) =
     mset (map snd (sc_sent c)) + mset (sc_lost c) + mset signals"
  by (induction res stream signals c rule: drain_queue.induct) simp_all

lemma drain_queue_all:
  "length signals \<le> length res \<Longrightarrow> list_all id res \<Longrightarrow>
   drain_queue res stream signals c = c\<lparr>sc_sent := sc_sent c @ map (Pair stream) signals\<rparr>"
  by (induction res stream signals c rule: drain_queue.induct) simp_all

lemma flush_fields [simp]:
  "sc_calls (flush_drain res c) = sc_calls c"
  "sc_restart (flush_drain res c) = sc_restart c"
  "sc_holder (flush_drain res c) = None"
  by (simp_all add: flush_drain_def split: option.split)

lemma flush_accounted: "accounted c \<Longrightarrow> accounted (flush_drain res c)"
  using drain_queue_places [of res _ "sc_queue c" c]
  by (auto simp: accounted_def flush_drain_def ac_simps split: option.split)

lemma accounted_cong:
  "accounted c \<Longrightarrow> sc_calls c' = sc_calls c \<Longrightarrow> sc_sent c' = sc_sent c \<Longrightarrow> sc_queue c' = sc_queue c \<Longrightarrow>
   sc_lost c' = sc_lost c \<Longrightarrow> accounted c'"
  by (simp add: accounted_def)

lemma accounted_phase:
  "accounted c \<Longrightarrow> i < length (sc_calls c) \<Longrightarrow> cl_phase (sc_calls c ! i) \<noteq> SendDone \<Longrightarrow> ph \<noteq> SendDone \<Longrightarrow>
   accounted (set_phase i ph c)"
  by (simp add: accounted_def set_phase_def finished_update)

lemma accounted_done:
  assumes "accounted c" and "i < length (sc_calls c)" and "cl_phase (sc_calls c ! i) \<noteq> SendDone"
    and "signal = cl_signal (sc_calls c ! i)"
  shows "accounted (set_phase i SendDone (queue_message signal c))"
    and "accounted (set_phase i SendDone (c\<lparr>sc_lost := sc_lost c @ [signal]\<rparr>))"
    and "accounted (set_phase i SendDone (c\<lparr>sc_sent := sc_sent c @ [(stream, signal)]\<rparr>))"
  using assms by (simp_all add: accounted_def set_phase_def queue_message_def finished_update)

lemma send_step_accounted:
  assumes ok: "accounted c" and i: "i < length (sc_calls c)"
  shows "accounted (send_step i res r c)"
proof (cases "cl_phase (sc_calls c ! i)")
  case SendFlush
  have "accounted (c\<lparr>sc_holder := h\<rparr>)" for h by (rule accounted_cong [OF ok]) simp_all
  with assms SendFlush accounted_phase [of _ i] show ?thesis by (auto simp: send_step_def Let_def)
next
  case SendDrain
  with assms flush_accounted [OF ok, of res] show ?thesis
    by (auto simp: send_step_def Let_def intro!: accounted_phase)
next
  case SendWrite
  with assms accounted_done [OF ok i _ refl] show ?thesis
    by (auto simp: send_step_def Let_def intro!: accounted_phase split: option.split write_result.split)
next
  case SendDone
  with ok show ?thesis by (simp add: send_step_def)
qed (use assms accounted_done [OF ok i _ refl] in \<open>auto simp: send_step_def Let_def intro!: accounted_phase\<close>)

lemma step_accounted: "accounted c \<Longrightarrow> accounted (client_step a c)"
proof (cases a)
  case (ActSend signal)
  moreover assume "accounted c"
  ultimately show ?thesis by (simp add: accounted_def finished_append)
next
  case (ActAdvance i res r)
  moreover assume "accounted c"
  ultimately show ?thesis by (simp add: send_step_accounted)
next
  case (ActFlush res)
  moreover assume "accounted c"
  moreover from this flush_accounted [of c res] have "accounted ((flush_drain res c)\<lparr>sc_restart := RestartFlushed\<rparr>)"
    by (simp add: accounted_def)
  ultimately show ?thesis by (auto simp: accounted_def split: restart_phase.split)
qed (auto simp: accounted_def)

text \<open>Whoever drains the queue holds it, and nobody else does.\<close>

definition holder_ok :: "signal_client \<Rightarrow> bool" where
  "holder_ok c \<longleftrightarrow>
     (\<forall>i. (i < length (sc_calls c) \<and> cl_phase (sc_calls c ! i) = SendDrain) = (sc_holder c = Some (HeldByCall i)))
     \<and> (sc_restart c = RestartDrain) = (sc_holder c = Some HeldByRestart)"

lemma holder_cong:
  "holder_ok c \<Longrightarrow> sc_calls c' = sc_calls c \<Longrightarrow> sc_holder c' = sc_holder c \<Longrightarrow>
   (sc_restart c' = RestartDrain) = (sc_restart c = RestartDrain) \<Longrightarrow> holder_ok c'"
  by (simp add: holder_ok_def)

lemma phase_update:
  "(j < length (sc_calls (set_phase i ph c)) \<and> cl_phase (sc_calls (set_phase i ph c) ! j) = SendDrain) =
     (if j = i \<and> i < length (sc_calls c) then ph = SendDrain
      else j < length (sc_calls c) \<and> cl_phase (sc_calls c ! j) = SendDrain)"
  by (auto simp: set_phase_def nth_list_update)

lemma set_phase_fields [simp]:
  "sc_holder (set_phase i ph c) = sc_holder c" "sc_restart (set_phase i ph c) = sc_restart c"
  "sc_queue (set_phase i ph c) = sc_queue c" "sc_sent (set_phase i ph c) = sc_sent c"
  "sc_stream (set_phase i ph c) = sc_stream c"
  by (simp_all add: set_phase_def)

lemma holder_phase:
  assumes "holder_ok c" and "i < length (sc_calls c)" and "cl_phase (sc_calls c ! i) \<noteq> SendDrain"
    and "ph \<noteq> SendDrain"
  shows "holder_ok (set_phase i ph c)"
proof -
  have "sc_holder c \<noteq> Some (HeldByCall i)" using assms(1,3) by (simp add: holder_ok_def) metis
  with assms show ?thesis by (auto simp: holder_ok_def phase_update)
qed

lemma holder_take:
  assumes "holder_ok c" and "i < length (sc_calls c)" and "sc_holder c = None"
  shows "holder_ok (set_phase i SendDrain (c\<lparr>sc_holder := Some (HeldByCall i)\<rparr>))"
  using assms by (auto simp: holder_ok_def phase_update)

lemma holder_release:
  assumes "holder_ok c" and "sc_holder c = Some (HeldByCall i)" and "ph \<noteq> SendDrain"
    and "sc_calls c' = sc_calls c" and "sc_holder c' = None" and "sc_restart c' = sc_restart c"
  shows "holder_ok (set_phase i ph c')"
  using assms by (auto simp: holder_ok_def phase_update)

lemma send_step_holder:
  assumes ok: "holder_ok c" and i: "i < length (sc_calls c)"
  shows "holder_ok (send_step i res r c)"
proof (cases "cl_phase (sc_calls c ! i)")
  case SendStart
  with holder_phase [OF ok i] show ?thesis by (simp add: send_step_def Let_def)
next
  case SendQueue
  have "holder_ok (queue_message s c)" "i < length (sc_calls (queue_message s c))"
    "cl_phase (sc_calls (queue_message s c) ! i) \<noteq> SendDrain" for s
    using i SendQueue holder_cong [OF ok, of "queue_message s c"] by (simp_all add: queue_message_def)
  with SendQueue holder_phase ok show ?thesis by (simp add: send_step_def Let_def)
next
  case SendFlush
  with holder_phase [OF ok i] holder_take [OF ok i] ok show ?thesis by (simp add: send_step_def Let_def)
next
  case SendDrain
  then have "sc_holder c = Some (HeldByCall i)" using ok i by (simp add: holder_ok_def) blast
  with SendDrain ok holder_release [OF ok this, of SendWrite "flush_drain res c"] show ?thesis
    by (simp add: send_step_def Let_def)
next
  case SendWrite
  have "holder_ok (set_phase i ph c')"
    if "ph \<noteq> SendDrain" "sc_calls c' = sc_calls c" "sc_holder c' = sc_holder c" "sc_restart c' = sc_restart c" for ph c'
    using holder_phase [of c' i ph] holder_cong [OF ok, of c'] that SendWrite i by simp
  with SendWrite ok show ?thesis
    by (auto simp: send_step_def Let_def split: option.split write_result.split)
next
  case SendDone
  with ok show ?thesis by (simp add: send_step_def)
qed

lemma step_holder:
  assumes ok: "holder_ok c"
  shows "holder_ok (client_step a c)"
proof (cases a)
  case (ActAdvance i res r)
  with ok show ?thesis by (simp add: send_step_holder)
next
  case (ActSend signal)
  moreover have "(j < length (sc_calls c @ [\<lparr>cl_signal = signal, cl_phase = SendStart\<rparr>])
      \<and> cl_phase ((sc_calls c @ [\<lparr>cl_signal = signal, cl_phase = SendStart\<rparr>]) ! j) = SendDrain)
    = (j < length (sc_calls c) \<and> cl_phase (sc_calls c ! j) = SendDrain)" for j
    by (auto simp: nth_append less_Suc_eq)
  ultimately show ?thesis using ok by (simp add: holder_ok_def)
next
  case (ActFlush res)
  show ?thesis
  proof (cases "sc_restart c")
    case RestartDrain
    with ok have "sc_holder c = Some HeldByRestart" by (simp add: holder_ok_def)
    with ok RestartDrain ActFlush show ?thesis by (simp add: holder_ok_def)
  next
    case RestartFlush
    with ok ActFlush show ?thesis by (auto simp: holder_ok_def)
  qed (use ok ActFlush in simp_all)
qed (use ok in \<open>auto intro: holder_cong\<close>)

interpretation client: kept_by client_step "\<lambda>c. accounted c \<and> holder_ok c"
  by unfold_locales (simp add: step_accounted step_holder)

text \<open>
  While a restart connects, calls of \<open>send\<close> begin and go on in any order: each that ends has put its message
  into the queue, or given it up.
\<close>

definition sending :: "client_action \<Rightarrow> bool" where
  "sending a \<longleftrightarrow> (case a of ActSend _ \<Rightarrow> True | ActAdvance _ _ _ \<Rightarrow> True | _ \<Rightarrow> False)"

definition connecting :: "signal_client \<Rightarrow> signal_request list \<Rightarrow> signal_request list \<Rightarrow> signal_client \<Rightarrow> bool" where
  "connecting c0 qs ls c \<longleftrightarrow>
     sc_restart c = RestartConnecting \<and> sc_reconnecting c \<and> sc_holder c = None
     \<and> sc_sent c = sc_sent c0 \<and> sc_next_stream c = sc_next_stream c0
     \<and> sc_queue c = sc_queue c0 @ qs \<and> sc_lost c = sc_lost c0 @ ls
     \<and> list_all is_queuable qs \<and> list_all (\<lambda>m. \<not> is_queuable m) ls
     \<and> finished (sc_calls c) = finished (sc_calls c0) + mset qs + mset ls
     \<and> list_all (\<lambda>call. cl_phase call \<in> {SendStart, SendQueue, SendDone}) (sc_calls c)"

lemma connecting_phase:
  assumes c: "connecting c0 qs ls c" and i: "i < length (sc_calls c)" "cl_phase (sc_calls c ! i) = SendStart"
  shows "connecting c0 qs ls (set_phase i SendQueue c)"
  using c i by (auto simp: connecting_def set_phase_def finished_update list_all_length nth_list_update)

lemma connecting_queued:
  assumes c: "connecting c0 qs ls c" and i: "i < length (sc_calls c)" "cl_phase (sc_calls c ! i) = SendQueue"
  defines "m \<equiv> cl_signal (sc_calls c ! i)"
  shows "connecting c0 (if is_queuable m then qs @ [m] else qs) (if is_queuable m then ls else ls @ [m])
    (set_phase i SendDone (queue_message m c))"
  using c i by (auto simp: connecting_def set_phase_def finished_update list_all_length nth_list_update queue_message_def m_def
      less_Suc_eq nth_append)

lemma connecting_step:
  assumes c: "connecting c0 qs ls c" and a: "sending a"
  shows "\<exists>qs' ls'. connecting c0 qs' ls' (client_step a c)"
proof (cases a)
  case (ActSend m)
  with c have "connecting c0 qs ls (client_step a c)" by (simp add: connecting_def finished_append)
  then show ?thesis by blast
next
  case (ActAdvance i res r)
  show ?thesis
  proof (cases "i < length (sc_calls c)")
    case True
    then have "cl_phase (sc_calls c ! i) \<in> {SendStart, SendQueue, SendDone}" and h: "sc_reconnecting c" "sc_holder c = None"
      using c by (auto simp: connecting_def list_all_length)
    then consider "cl_phase (sc_calls c ! i) = SendStart" | "cl_phase (sc_calls c ! i) = SendQueue"
      | "cl_phase (sc_calls c ! i) = SendDone" by blast
    then show ?thesis
    proof cases
      case 1
      with connecting_phase [OF c True 1] h ActAdvance True show ?thesis
        by (auto simp: send_step_def Let_def)
    next
      case 2
      with connecting_queued [OF c True 2] h ActAdvance True show ?thesis
        by (auto simp: send_step_def Let_def simp del: split_paired_Ex)
    next
      case 3
      with c ActAdvance True show ?thesis by (auto simp: send_step_def Let_def)
    qed
  next
    case False
    with c ActAdvance show ?thesis by auto
  qed
qed (use a in \<open>simp_all add: sending_def\<close>)

lemma connecting_run:
  "connecting c0 qs ls c \<Longrightarrow> list_all sending acts \<Longrightarrow> \<exists>qs ls. connecting c0 qs ls (fold client_step acts c)"
proof (induction acts arbitrary: qs ls c)
  case (Cons a acts)
  then show ?case using connecting_step [OF Cons.prems(1), of a] by auto
qed auto

text \<open>
  A message is lost when a restart fails while it is sent, or when it is sent between the end of the old
  stream and the lock of the restart, which alone sets the flag.
\<close>

lemma closed_stream_loses:
  assumes "sc_restart c = RestartIdle" and "sc_holder c = None" and "sc_queue c = []" and "\<not> sc_reconnecting c"
    and "i = length (sc_calls c)"
  shows "sc_lost (fold client_step [ActRestart, ActSend m, ActAdvance i [] WriteOk, ActAdvance i [] WriteOk,
      ActAdvance i [] WriteOk, ActLock, ActConnected True] c) = sc_lost c @ [m]"
  using assms by (simp add: send_step_def Let_def set_phase_def stream_locked_def)

lemma failed_restart_loses:
  assumes "sc_restart c = RestartIdle" and "sc_holder c = None" and "sc_queue c = []" and "is_queuable m"
    and "i = length (sc_calls c)"
  shows "sc_lost (fold client_step [ActRestart, ActLock, ActConnected False, ActSend m,
      ActAdvance i [] WriteOk, ActAdvance i [] WriteOk, ActAdvance i [] WriteOk] c) = sc_lost c @ [m]"
  using assms by (simp add: send_step_def Let_def set_phase_def stream_locked_def)

lemma failed_write_loses:
  assumes "sc_restart c = RestartIdle" and "sc_holder c = None" and "sc_queue c = []"
    and "sc_stream c = Some n" and "\<not> sc_reconnecting c" and "i = length (sc_calls c)"
  shows "sc_lost (fold client_step [ActSend m, ActAdvance i [] WriteOk, ActAdvance i [] WriteOk,
      ActAdvance i [] WriteWsErr] c) = sc_lost c @ [m]"
  using assms by (simp add: send_step_def Let_def set_phase_def stream_locked_def)

text \<open>What the write task answers.\<close>

fun signals_of :: "internal_message list \<Rightarrow> signal_request list" where
  "signals_of [] = []"
| "signals_of (ImSignal signal # msgs) = signal # signals_of msgs"
| "signals_of (_ # msgs) = signals_of msgs"

fun written :: "ws_frame list \<Rightarrow> signal_request list" where
  "written [] = []"
| "written (WsBinary signal # frames) = signal # written frames"
| "written (WsPong _ # frames) = written frames"

lemma dropped_answers:
  "map fst (dropped_signals msgs) = signals_of msgs"
  "filter (\<lambda>a. stream_send (snd a) = Inr ()) (dropped_signals msgs) = []"
  by (induction msgs rule: dropped_signals.induct) simp_all

lemma write_task_answers:
  "map fst (snd (write_task ws n msgs)) = signals_of msgs
   \<and> written (fst (write_task ws n msgs)) =
      map fst (filter (\<lambda>a. stream_send (snd a) = Inr ()) (snd (write_task ws n msgs)))"
proof (induction msgs arbitrary: n)
  case (Cons msg msgs)
  obtain frames answers where w: "write_task ws (Suc n) msgs = (frames, answers)"
    by (cases "write_task ws (Suc n) msgs")
  show ?case
    using Cons [of "Suc n"] w
    by (cases msg) (auto simp: dropped_answers split: sum.split)
qed simp

text \<open>The signal task says that the connection is closed once, last, and never afterwards anything.\<close>

definition task_ok :: "signal_task \<Rightarrow> bool" where
  "task_ok st \<longleftrightarrow> (\<exists>ms. st_emitted st = map SigMessage ms \<and> \<not> st_ended st)
     \<or> (\<exists>ms reason. st_emitted st = map SigMessage ms @ [SigClose reason] \<and> st_ended st)"

lemma task_step_ok: "task_ok st \<Longrightarrow> task_ok (signal_task_step input st)"
proof -
  have snoc: "\<exists>ms'. map SigMessage ms @ [SigMessage m] = map SigMessage ms'" for ms m
    by (rule exI [of _ "ms @ [m]"]) simp
  assume "task_ok st"
  then show ?thesis
    using snoc by (cases "st_ended st") (auto simp: task_ok_def signal_task_step_def split: task_input.split)
qed

interpretation task: kept_by signal_task_step task_ok
  by unfold_locales (rule task_step_ok)

lemma signal_task_closes_once: "task_ok (fold signal_task_step inputs (signal_task_start timeout token now))"
  by (rule task.run_inv) (simp add: task_ok_def signal_task_start_def)

section \<open>Properties\<close>

text \<open>
  C28. No message of the application is sent twice or kept twice: in every run of sends, restarts and closes,
  however they interleave, each finished call's message is in exactly one of three places, once: sent
  on a stream, in the queue, or given up; the queue holds only messages that may be sent after a
  reconnection, and who drains it is the only one who holds it.
\<close>

theorem signal_messages_accounted:
  "\<exists>c. c = fold client_step acts signal_client_new
    \<and> image_mset cl_signal (filter_mset (\<lambda>call. cl_phase call = SendDone) (mset (sc_calls c)))
        = mset (map snd (sc_sent c)) + mset (sc_queue c) + mset (sc_lost c)
    \<and> list_all is_queuable (sc_queue c)
    \<and> (\<forall>i. (i < length (sc_calls c) \<and> cl_phase (sc_calls c ! i) = SendDrain)
        = (sc_holder c = Some (HeldByCall i)))"
proof -
  have "accounted signal_client_new \<and> holder_ok signal_client_new"
    by (simp add: accounted_def holder_ok_def signal_client_new_def finished_def)
  from client.run_inv [OF this, of acts] show ?thesis
    unfolding accounted_def holder_ok_def finished_def by blast
qed

text \<open>
  C29. A restart that succeeds delivers what was queued: when no call of \<open>send\<close> is under way as it takes the
  lock of the stream, calls begin and go on in any order while it connects, the connection is made, and the
  flush, undisturbed, has its writes succeed, then the messages that were in the queue and after them those
  of the calls that ended meanwhile, in the order in which they were queued, go out on the new stream, and
  the queue is empty. Only messages that a reconnection makes obsolete are given up instead. What is sent
  before the lock is not covered: it may be lost (\<open>closed_stream_loses\<close>).
\<close>

theorem restart_delivers_queue:
  assumes "sc_restart c = RestartIdle" and "sc_holder c = None"
    and "list_all (\<lambda>call. cl_phase call = SendDone) (sc_calls c)" and "list_all sending acts"
    and "c1 = fold client_step ([ActRestart, ActLock] @ acts) c"
    and "list_all id res" and "length (sc_queue c1) \<le> length res"
    and "c' = fold client_step [ActConnected True, ActFlush res, ActFlush res, ActRestarted] c1"
  shows "\<exists>qs ls. list_all is_queuable qs \<and> list_all (\<lambda>m. \<not> is_queuable m) ls
    \<and> finished (sc_calls c') = finished (sc_calls c) + mset qs + mset ls
    \<and> sc_sent c' = sc_sent c @ map (Pair (sc_next_stream c)) (sc_queue c @ qs) \<and> sc_lost c' = sc_lost c @ ls
    \<and> sc_queue c' = [] \<and> \<not> sc_reconnecting c' \<and> sc_stream c' = Some (sc_next_stream c)"
proof -
  have "connecting c [] [] (fold client_step [ActRestart, ActLock] c)"
    using assms(1-3) by (auto simp: connecting_def list_all_length)
  from connecting_run [OF this assms(4)] obtain qs ls where c1: "connecting c qs ls c1"
    unfolding assms(5) by auto
  then have q: "sc_queue c1 = sc_queue c @ qs" and idle: "sc_restart c1 = RestartConnecting" "sc_holder c1 = None"
    by (simp_all add: connecting_def)
  from drain_queue_all [OF assms(7,6)] have c': "sc_sent c' = sc_sent c1 @ map (Pair (sc_next_stream c1)) (sc_queue c1)"
      "sc_lost c' = sc_lost c1" "sc_queue c' = []" "\<not> sc_reconnecting c'" "sc_stream c' = Some (sc_next_stream c1)"
      "sc_calls c' = sc_calls c1"
    unfolding assms(8) using idle by (cases "sc_queue c1 = []"; simp add: flush_drain_def)+
  show ?thesis
    by (rule exI [of _ qs], rule exI [of _ ls]) (use c1 c' q in \<open>simp add: connecting_def\<close>)
qed

text \<open>Two calls overlap while the client connects, the second an offer; a message was queued before.\<close>

definition demo_queued :: signal_client where
  "demo_queued = signal_client_new\<lparr>sc_queue := [RqMute ''TR_1'' True]\<rparr>"

definition demo_sends :: "client_action list" where
  "demo_sends = [ActSend (RqOther ''x''), ActSend (RqOffer ''offer'' ''sdp''), ActAdvance 1 [] WriteOk,
     ActAdvance 0 [] WriteOk, ActAdvance 1 [] WriteOk, ActAdvance 0 [] WriteOk]"

definition demo_connecting :: signal_client where
  "demo_connecting = fold client_step ([ActRestart, ActLock] @ demo_sends) demo_queued"

lemma demo_connecting_state:
  "sc_queue demo_connecting = [RqMute ''TR_1'' True, RqOther ''x'']" "sc_lost demo_connecting = [RqOffer ''offer'' ''sdp'']"
  by (simp_all add: demo_connecting_def demo_queued_def signal_client_new_def demo_sends_def send_step_def Let_def
      set_phase_def queue_message_def)

theorem restart_delivers_queue_witness:
  "\<exists>qs. sc_sent (fold client_step [ActConnected True, ActFlush [True, True], ActFlush [True, True], ActRestarted]
      demo_connecting) = map (Pair 1) (RqMute ''TR_1'' True # qs)
    \<and> sc_queue (fold client_step [ActConnected True, ActFlush [True, True], ActFlush [True, True], ActRestarted]
      demo_connecting) = []"
proof -
  have pre: "sc_restart demo_queued = RestartIdle" "sc_holder demo_queued = None"
      "list_all (\<lambda>call. cl_phase call = SendDone) (sc_calls demo_queued)" "list_all sending demo_sends"
    by (simp_all add: demo_queued_def signal_client_new_def demo_sends_def sending_def)
  have "list_all id [True, True]" "length (sc_queue demo_connecting) \<le> length [True, True]"
    by (simp_all add: demo_connecting_state)
  from restart_delivers_queue [OF pre demo_connecting_def this refl]
  show ?thesis by (auto simp: demo_queued_def signal_client_new_def simp del: fold.simps)
qed

text \<open>
  The answers of the write task are true: every message handed to it is answered once, in order, and
  the messages whose senders are told that they were sent are exactly those written to the web socket,
  in the same order, however its writes fail and wherever the stream is closed.
\<close>

theorem ws_answers_match:
  "map fst (snd (write_task ws n msgs)) = signals_of msgs
   \<and> written (fst (write_task ws n msgs)) =
      map fst (filter (\<lambda>a. stream_send (snd a) = Inr ()) (snd (write_task ws n msgs)))"
  by (rule write_task_answers)

end
