(* ===== verification/Publication.thy ===== *)
theory Publication
  imports Signal
begin

text \<open>
  Tracks and their publications (\<open>livekit/src/room/track/mod.rs\<close>,
  \<open>livekit/src/room/publication/mod.rs\<close>, \<open>remote.rs\<close> and \<open>local.rs\<close>).

  A publication is shared between the participant that owns it and its users; every operation is a
  function from its state to its new state and the list of handler calls it makes, in order. The
  handlers themselves belong to the participant. A flag says whether a handler other than the
  empty one is registered. Operations that may panic return \<open>Ran\<close> or \<open>Panicked\<close>, both with the
  state they leave.
\<close>

section \<open>Results with panics\<close>

datatype (plugins only: code size) 's ran = Ran 's | Panicked 's

fun ran_bind :: "'s ran \<Rightarrow> ('s \<Rightarrow> 's ran) \<Rightarrow> 's ran" where
  "ran_bind (Ran s) f = f s"
| "ran_bind (Panicked s) f = Panicked s"

fun ran_state :: "'s ran \<Rightarrow> 's" where
  "ran_state (Ran s) = s"
| "ran_state (Panicked s) = s"

fun ran_ok :: "'s ran \<Rightarrow> bool" where
  "ran_ok (Ran s) = True"
| "ran_ok (Panicked s) = False"

fun map_ran :: "('s \<Rightarrow> 't) \<Rightarrow> 's ran \<Rightarrow> 't ran" where
  "map_ran f (Ran s) = Ran (f s)"
| "map_ran f (Panicked s) = Panicked (f s)"

text \<open>A loop over a list whose body may panic.\<close>

fun ran_fold :: "('a \<Rightarrow> 's \<Rightarrow> 's ran) \<Rightarrow> 'a list \<Rightarrow> 's \<Rightarrow> 's ran" where
  "ran_fold f [] s = Ran s"
| "ran_fold f (x # xs) s = ran_bind (f x s) (ran_fold f xs)"

lemma ran_state_map [simp]: "ran_state (map_ran f x) = f (ran_state x)"
  by (cases x) simp_all

section \<open>Tracks\<close>

record track =
  tk_sid :: track_sid
  tk_name :: string
  tk_kind :: track_kind
  tk_source :: track_source
  tk_muted :: bool
  tk_audio_features :: "nat list"
  tk_rtc_id :: string
  tk_enabled :: bool
  tk_transceiver :: "nat option"
  tk_on_muted :: bool
  tk_on_unmuted :: bool

definition track_new :: "track_sid \<Rightarrow> string \<Rightarrow> track_kind \<Rightarrow> string \<Rightarrow> bool \<Rightarrow> track" where
  "track_new sid name kind rtc_id enabled =
     \<lparr>tk_sid = sid, tk_name = name, tk_kind = kind, tk_source = UnknownSource, tk_muted = False,
      tk_audio_features = [], tk_rtc_id = rtc_id, tk_enabled = enabled, tk_transceiver = None,
      tk_on_muted = False, tk_on_unmuted = False\<rparr>"

text \<open>
  \<open>set_muted\<close>: the new track and the slots of \<open>TrackEvents\<close> whose handler it calls. Both branches
  read the slot \<open>muted\<close>.
\<close>

datatype (plugins only: code size) track_slot = MutedSlot | UnmutedSlot

definition set_muted :: "bool \<Rightarrow> track \<Rightarrow> track \<times> track_slot list" where
  "set_muted muted t =
     (if tk_muted t = muted then (t, [])
      else
        (t\<lparr>tk_enabled := \<not> muted, tk_muted := muted\<rparr>,
         if muted then (if tk_on_muted t then [MutedSlot] else [])
         else (if tk_on_muted t then [MutedSlot] else [])))"

definition track_update_info :: "proto_track_info \<Rightarrow> track \<Rightarrow> track ran" where
  "track_update_info new_info t =
     (case track_kind_try_from (pti_type new_info) of
        Inl _ \<Rightarrow> Panicked t
      | Inr kind \<Rightarrow>
          let t = t\<lparr>tk_kind := kind, tk_source := pti_source new_info, tk_name := pti_name new_info\<rparr> in
          case track_sid_try_from (pti_sid new_info) of
            Inl _ \<Rightarrow> Panicked t
          | Inr sid \<Rightarrow> Ran (t\<lparr>tk_sid := sid, tk_audio_features := pti_audio_features new_info\<rparr>))"

section \<open>Publications\<close>

record publication =
  pb_track :: "track option"
  pb_name :: string
  pb_sid :: track_sid
  pb_kind :: track_kind
  pb_source :: track_source
  pb_simulcasted :: bool
  pb_dimension :: "u32 \<times> u32"
  pb_mime_type :: string
  pb_muted :: bool
  pb_proto_info :: proto_track_info
  pb_encryption_type :: encryption_type
  pb_audio_features :: "nat list"
  pb_on_muted :: bool
  pb_on_unmuted :: bool

datatype (plugins only: code size) subscription_status = Desired | Subscribed | Unsubscribed

datatype (plugins only: code size) permission_status = Allowed | NotAllowed

text \<open>A remote publication; \<open>rpb_participant_sid\<close> is what its subscription handler captured.\<close>

record remote_publication = publication +
  rpb_subscribed :: bool
  rpb_allowed :: bool
  rpb_on_subscription :: bool
  rpb_on_settings :: bool
  rpb_on_status :: bool
  rpb_on_permission :: bool
  rpb_participant_sid :: participant_sid

text \<open>The calls of the handlers.\<close>

datatype (plugins only: code size) publication_event =
    PeMuted
  | PeUnmuted
  | PeSubscribed track
  | PeUnsubscribed track
  | PeStatusChanged subscription_status subscription_status
  | PePermissionChanged permission_status permission_status
  | PeSubscriptionUpdateNeeded bool
  | PeEnabledStatusChanged bool
  | PeVideoDimensionsChanged u32 u32

text \<open>\<open>new_inner\<close>, with the unwraps of the kind and of the sid.\<close>

definition publication_new :: "proto_track_info \<Rightarrow> track option \<Rightarrow> publication option" where
  "publication_new info track =
     (case track_kind_try_from (pti_type info) of
        Inl _ \<Rightarrow> None
      | Inr kind \<Rightarrow>
          (case track_sid_try_from (pti_sid info) of
             Inl _ \<Rightarrow> None
           | Inr sid \<Rightarrow> Some
               \<lparr>pb_track = track, pb_name = pti_name info, pb_sid = sid, pb_kind = kind,
                pb_source = pti_source info, pb_simulcasted = pti_simulcast info,
                pb_dimension = (pti_width info, pti_height info), pb_mime_type = pti_mime_type info,
                pb_muted = pti_muted info, pb_proto_info = info,
                pb_encryption_type = pti_encryption info,
                pb_audio_features = pti_audio_features info,
                pb_on_muted = False, pb_on_unmuted = False\<rparr>))"

definition publication_update_info ::
    "proto_track_info \<Rightarrow> 'z publication_scheme \<Rightarrow> 'z publication_scheme ran" where
  "publication_update_info new_info p =
     (case track_kind_try_from (pti_type new_info) of
        Inl _ \<Rightarrow> Panicked p
      | Inr kind \<Rightarrow>
          let p = p\<lparr>pb_kind := kind, pb_source := pti_source new_info,
                    pb_encryption_type := pti_encryption new_info, pb_proto_info := new_info,
                    pb_name := pti_name new_info\<rparr>
          in case track_sid_try_from (pti_sid new_info) of
               Inl _ \<Rightarrow> Panicked p
             | Inr sid \<Rightarrow> Ran
                 (p\<lparr>pb_sid := sid, pb_dimension := (pti_width new_info, pti_height new_info),
                    pb_mime_type := pti_mime_type new_info,
                    pb_simulcasted := pti_simulcast new_info,
                    pb_audio_features := pti_audio_features new_info\<rparr>))"

text \<open>\<open>set_track\<close>: the new track's mute handlers become the publication's.\<close>

definition publication_set_track ::
    "track option \<Rightarrow> 'z publication_scheme \<Rightarrow> 'z publication_scheme" where
  "publication_set_track track p =
     (case track of
        None \<Rightarrow> p\<lparr>pb_track := None\<rparr>
      | Some t \<Rightarrow>
          p\<lparr>pb_track := Some (t\<lparr>tk_on_muted := True, tk_on_unmuted := True\<rparr>), pb_sid := tk_sid t\<rparr>)"

section \<open>Local publications\<close>

text \<open>
  A call of a slot of the track is a call of the publication's own handler: \<open>set_track\<close> put the
  publication's \<open>muted\<close> handler into the slot \<open>muted\<close> and \<open>unmuted\<close> into \<open>unmuted\<close>.
\<close>

fun slot_event :: "'z publication_scheme \<Rightarrow> track_slot \<Rightarrow> publication_event list" where
  "slot_event p MutedSlot = (if pb_on_muted p then [PeMuted] else [])"
| "slot_event p UnmutedSlot = (if pb_on_unmuted p then [PeUnmuted] else [])"

definition local_set_muted ::
    "bool \<Rightarrow> 'z publication_scheme \<Rightarrow> 'z publication_scheme \<times> publication_event list" where
  "local_set_muted muted p =
     (case pb_track p of
        None \<Rightarrow> (p, [])
      | Some t \<Rightarrow>
          (case set_muted muted t of
             (t, slots) \<Rightarrow> (p\<lparr>pb_track := Some t\<rparr>, concat (map (slot_event p) slots))))"

definition local_mute ::
    "'z publication_scheme \<Rightarrow> 'z publication_scheme \<times> publication_event list" where
  "local_mute p =
     (case local_set_muted True p of
        (p, evs) \<Rightarrow> (p, evs @ (if pb_on_muted p then [PeMuted] else [])))"

definition local_unmute ::
    "'z publication_scheme \<Rightarrow> 'z publication_scheme \<times> publication_event list" where
  "local_unmute p =
     (case local_set_muted False p of
        (p, evs) \<Rightarrow> (p, evs @ (if pb_on_unmuted p then [PeUnmuted] else [])))"

definition local_is_muted :: "'z publication_scheme \<Rightarrow> bool" where
  "local_is_muted p = (case pb_track p of Some t \<Rightarrow> tk_muted t | None \<Rightarrow> pb_muted p)"

section \<open>Remote publications\<close>

definition subscription_status_of :: "remote_publication \<Rightarrow> subscription_status" where
  "subscription_status_of p =
     (if \<not> rpb_subscribed p then Unsubscribed
      else if pb_track p = None then Desired else Subscribed)"

definition permission_status_of :: "remote_publication \<Rightarrow> permission_status" where
  "permission_status_of p = (if rpb_allowed p then Allowed else NotAllowed)"

definition is_enabled :: "remote_publication \<Rightarrow> bool" where
  "is_enabled p = (case pb_track p of None \<Rightarrow> False | Some t \<Rightarrow> tk_enabled t)"

definition remote_publication_new ::
    "proto_track_info \<Rightarrow> track option \<Rightarrow> bool \<Rightarrow> remote_publication option" where
  "remote_publication_new info track auto_subscribe =
     map_option (\<lambda>p. publication.extend p
         \<lparr>rpb_subscribed = auto_subscribe, rpb_allowed = True, rpb_on_subscription = False,
          rpb_on_settings = False, rpb_on_status = False, rpb_on_permission = False,
          rpb_participant_sid = []\<rparr>)
       (publication_new info track)"

definition emit_subscription_update ::
    "subscription_status \<Rightarrow> remote_publication \<Rightarrow> publication_event list" where
  "emit_subscription_update old p =
     (if old \<noteq> subscription_status_of p \<and> rpb_on_status p
      then [PeStatusChanged old (subscription_status_of p)] else [])"

definition emit_permission_update ::
    "permission_status \<Rightarrow> remote_publication \<Rightarrow> publication_event list" where
  "emit_permission_update old p =
     (if old \<noteq> permission_status_of p \<and> rpb_on_permission p
      then [PePermissionChanged old (permission_status_of p)] else [])"

definition remote_set_track ::
    "track option \<Rightarrow> remote_publication \<Rightarrow> remote_publication \<times> publication_event list" where
  "remote_set_track track p =
     (let unsubscribed = (case pb_track p of
              Some prev_track \<Rightarrow> if rpb_on_subscription p then [PeUnsubscribed prev_track] else []
            | None \<Rightarrow> []);
          p' = publication_set_track track p;
          subscribed = (case track of
              Some t \<Rightarrow> if rpb_on_subscription p then [PeSubscribed t] else []
            | None \<Rightarrow> [])
      in (p', unsubscribed @ subscribed @ emit_subscription_update (subscription_status_of p) p'
              @ emit_permission_update (permission_status_of p) p'))"

definition remote_update_info ::
    "proto_track_info \<Rightarrow> remote_publication \<Rightarrow> (remote_publication \<times> publication_event list) ran" where
  "remote_update_info new_info p =
     (case publication_update_info new_info p of
        Panicked p \<Rightarrow> Panicked (p, [])
      | Ran p \<Rightarrow>
          let p' = p\<lparr>pb_muted := pti_muted new_info\<rparr> in
          Ran (p',
            if pb_muted p = pti_muted new_info then []
            else if pti_muted new_info then (if pb_on_muted p then [PeMuted] else [])
            else (if pb_on_unmuted p then [PeUnmuted] else [])))"

definition set_subscribed ::
    "bool \<Rightarrow> remote_publication \<Rightarrow> remote_publication \<times> publication_event list" where
  "set_subscribed subscribed p =
     (let p1 = p\<lparr>rpb_subscribed := subscribed, rpb_allowed := (if subscribed then True else rpb_allowed p)\<rparr>;
          (p2, unset) = (if subscribed then (p1, []) else remote_set_track None p1)
      in (p2, unset
              @ (if rpb_on_subscription p then [PeSubscriptionUpdateNeeded subscribed] else [])
              @ emit_subscription_update (subscription_status_of p) p2
              @ emit_permission_update (permission_status_of p) p2))"

definition set_enabled ::
    "bool \<Rightarrow> remote_publication \<Rightarrow> remote_publication \<times> publication_event list" where
  "set_enabled enabled p =
     (case pb_track p of
        None \<Rightarrow> (p, [])
      | Some t \<Rightarrow>
          if enabled = is_enabled p then (p, [])
          else (p\<lparr>pb_track := Some (t\<lparr>tk_enabled := \<not> is_enabled p\<rparr>)\<rparr>,
                if rpb_on_settings p then [PeEnabledStatusChanged enabled] else []))"

definition update_video_dimensions ::
    "u32 \<Rightarrow> u32 \<Rightarrow> remote_publication \<Rightarrow> (remote_publication \<times> publication_event list) ran" where
  "update_video_dimensions width height p =
     (case pb_track p of
        None \<Rightarrow> Ran (p, [])
      | Some _ \<Rightarrow>
          ran_bind
            (if (width, height) \<noteq> pb_dimension p
             then remote_update_info ((pb_proto_info p)\<lparr>pti_width := width, pti_height := height\<rparr>) p
             else Ran (p, []))
            (\<lambda>(p, evs). Ran (p, evs @
               (if rpb_on_settings p then [PeVideoDimensionsChanged width height] else []))))"


section \<open>Runs of a remote publication\<close>

datatype (plugins only: code size) publication_op =
    OpSetTrack "track option"
  | OpSetSubscribed bool
  | OpUpdateInfo proto_track_info
  | OpSetEnabled bool
  | OpVideoDimensions u32 u32

fun publication_op_run ::
    "publication_op \<Rightarrow> remote_publication \<Rightarrow> (remote_publication \<times> publication_event list) ran" where
  "publication_op_run (OpSetTrack track) p = Ran (remote_set_track track p)"
| "publication_op_run (OpSetSubscribed subscribed) p = Ran (set_subscribed subscribed p)"
| "publication_op_run (OpUpdateInfo info) p = remote_update_info info p"
| "publication_op_run (OpSetEnabled enabled) p = Ran (set_enabled enabled p)"
| "publication_op_run (OpVideoDimensions width height) p = update_video_dimensions width height p"

text \<open>
  A run collects the handler calls; a call that panics leaves its partial effects, and the run goes on
  (the panic ends the task of its caller only).
\<close>

definition publication_step ::
    "publication_op \<Rightarrow> remote_publication \<times> publication_event list \<Rightarrow>
     remote_publication \<times> publication_event list" where
  "publication_step op s =
     (case ran_state (publication_op_run op (fst s)) of (p, evs) \<Rightarrow> (p, snd s @ evs))"

text \<open>What a listener knows from the calls: the track, and the status.\<close>

fun track_replay :: "string option \<Rightarrow> publication_event list \<Rightarrow> string option option" where
  "track_replay cur [] = Some cur"
| "track_replay cur (PeSubscribed t # evs) =
     (if cur = None then track_replay (Some (tk_rtc_id t)) evs else None)"
| "track_replay cur (PeUnsubscribed t # evs) =
     (if cur = Some (tk_rtc_id t) then track_replay None evs else None)"
| "track_replay cur (_ # evs) = track_replay cur evs"

fun status_replay ::
    "subscription_status \<Rightarrow> publication_event list \<Rightarrow> subscription_status option" where
  "status_replay cur [] = Some cur"
| "status_replay cur (PeStatusChanged old new # evs) =
     (if cur = old \<and> old \<noteq> new then status_replay new evs else None)"
| "status_replay cur (_ # evs) = status_replay cur evs"

section \<open>Lemmas\<close>

lemma track_replay_append:
  "track_replay cur (evs @ evs') =
     (case track_replay cur evs of None \<Rightarrow> None | Some cur' \<Rightarrow> track_replay cur' evs')"
  by (induction cur evs rule: track_replay.induct) simp_all

lemma status_replay_append:
  "status_replay cur (evs @ evs') =
     (case status_replay cur evs of None \<Rightarrow> None | Some cur' \<Rightarrow> status_replay cur' evs')"
  by (induction cur evs rule: status_replay.induct) simp_all

definition current_track :: "remote_publication \<Rightarrow> string option" where
  "current_track p = map_option tk_rtc_id (pb_track p)"

text \<open>An operation tells what it does: from a listener that is right to one that is right again.\<close>

definition tells :: "remote_publication \<Rightarrow> remote_publication \<times> publication_event list \<Rightarrow> bool" where
  "tells p r \<longleftrightarrow>
     track_replay (current_track p) (snd r) = Some (current_track (fst r))
     \<and> status_replay (subscription_status_of p) (snd r) = Some (subscription_status_of (fst r))
     \<and> rpb_on_subscription (fst r) = rpb_on_subscription p \<and> rpb_on_status (fst r) = rpb_on_status p"

lemma permission_silent [simp]:
  "track_replay cur (emit_permission_update old p) = Some cur"
  "status_replay st (emit_permission_update old p) = Some st"
  by (simp_all add: emit_permission_update_def)

lemma subscription_update_replay [simp]:
  "track_replay cur (emit_subscription_update old p) = Some cur"
  "rpb_on_status p \<Longrightarrow> status_replay old (emit_subscription_update old p) = Some (subscription_status_of p)"
  by (simp_all add: emit_subscription_update_def)

lemma set_track_fields [simp]:
  "rpb_subscribed (publication_set_track track p) = rpb_subscribed p"
  "rpb_on_subscription (publication_set_track track p) = rpb_on_subscription p"
  "rpb_on_status (publication_set_track track p) = rpb_on_status p"
  "current_track (publication_set_track track p) = map_option tk_rtc_id track"
  by (auto simp: publication_set_track_def current_track_def split: option.splits)

lemma tells_set_track:
  "rpb_on_subscription p \<Longrightarrow> rpb_on_status p \<Longrightarrow> tells p (remote_set_track track p)"
  by (cases track; cases "pb_track p")
    (simp_all add: tells_def remote_set_track_def Let_def track_replay_append status_replay_append
      current_track_def [of p])

lemma tells_update_info:
  "tells p (ran_state (remote_update_info info p))"
  by (auto simp: tells_def remote_update_info_def publication_update_info_def current_track_def
      subscription_status_of_def Let_def split: sum.splits)

lemma tells_set_enabled: "tells p (set_enabled enabled p)"
  by (auto simp: tells_def set_enabled_def current_track_def subscription_status_of_def split: option.splits)

lemma unsubscribed_status: "\<not> rpb_subscribed p \<Longrightarrow> subscription_status_of p = Unsubscribed"
  by (simp add: subscription_status_of_def)

lemma tells_set_subscribed:
  assumes "rpb_on_subscription p" and "rpb_on_status p"
  shows "tells p (set_subscribed subscribed p)"
proof (cases subscribed)
  case True
  let ?p = "p\<lparr>rpb_subscribed := True, rpb_allowed := True\<rparr>"
  have "current_track ?p = current_track p" by (simp add: current_track_def)
  with True assms show ?thesis
    by (simp add: tells_def set_subscribed_def Let_def track_replay_append status_replay_append)
next
  case False
  let ?p = "p\<lparr>rpb_subscribed := False, rpb_allowed := rpb_allowed p\<rparr>"
  have c: "current_track ?p = current_track p" by (simp add: current_track_def)
  have "emit_subscription_update (subscription_status_of ?p) (publication_set_track None ?p) = []"
    by (simp add: emit_subscription_update_def unsubscribed_status)
  with False assms c show ?thesis
    by (cases "pb_track p")
      (simp_all add: tells_def set_subscribed_def remote_set_track_def Let_def track_replay_append
        status_replay_append current_track_def [of p])
qed

lemma tells_video_dimensions:
  "tells p (ran_state (update_video_dimensions width height p))"
proof (cases "pb_track p")
  case None
  then show ?thesis by (simp add: tells_def update_video_dimensions_def)
next
  case (Some t)
  let ?info = "(pb_proto_info p)\<lparr>pti_width := width, pti_height := height\<rparr>"
  have u: "tells p (ran_state (remote_update_info ?info p))" by (rule tells_update_info)
  have add: "tells p (p', evs @ (if b then [PeVideoDimensionsChanged width height] else []))"
    if "tells p (p', evs)" for p' evs b
    using that by (simp add: tells_def track_replay_append status_replay_append)
  have same: "tells p (p, [])" by (simp add: tells_def)
  show ?thesis
  proof (cases "(width, height) \<noteq> pb_dimension p")
    case True
    with u Some show ?thesis
      by (cases "remote_update_info ?info p") (auto simp: update_video_dimensions_def add)
  next
    case False
    with Some add [OF same] show ?thesis by (simp add: update_video_dimensions_def)
  qed
qed

lemma tells_op:
  "rpb_on_subscription p \<Longrightarrow> rpb_on_status p \<Longrightarrow> tells p (ran_state (publication_op_run op p))"
  by (cases op)
    (simp_all add: tells_set_track tells_set_subscribed tells_update_info tells_set_enabled
      tells_video_dimensions)

text \<open>A run keeps a listener right: the interface of machines whose steps keep an invariant.\<close>

definition listener_right ::
    "remote_publication \<Rightarrow> remote_publication \<times> publication_event list \<Rightarrow> bool" where
  "listener_right p s \<longleftrightarrow> tells p s \<and> rpb_on_subscription p \<and> rpb_on_status p"

interpretation listener: kept_by publication_step "listener_right p"
proof unfold_locales
  fix s op assume s: "listener_right p s"
  obtain p' evs where s': "s = (p', evs)" by (cases s)
  obtain q evs' where q: "ran_state (publication_op_run op p') = (q, evs')"
    by (cases "ran_state (publication_op_run op p')")
  have "tells p' (q, evs')" using tells_op [of p' op] q s s' by (auto simp: listener_right_def tells_def)
  then show "listener_right p (publication_step op s)"
    using s s' q
    by (auto simp: listener_right_def publication_step_def tells_def track_replay_append
        status_replay_append)
qed

section \<open>Properties\<close>

text \<open>
  C35. The calls of a remote publication's handlers tell its state: in every run, with the operations
  in any order and with any track descriptions, the calls for subscribed and unsubscribed tracks
  alternate and name the track that comes or goes, and the changes of the status form a chain;
  replaying them gives the track and the status the publication has.
\<close>

theorem subscription_events_replay:
  assumes "rpb_on_subscription p" and "rpb_on_status p"
    and "fold publication_step ops (p, []) = (p', evs)"
  shows "track_replay (map_option tk_rtc_id (pb_track p)) evs = Some (map_option tk_rtc_id (pb_track p'))
    \<and> status_replay (subscription_status_of p) evs = Some (subscription_status_of p')"
  using listener.run_inv [of p "(p, [])" ops] assms
  by (simp add: listener_right_def tells_def current_track_def)

definition example_track_info :: proto_track_info where
  "example_track_info = \<lparr>pti_sid = ''TR_1'', pti_type = ProtoAudio, pti_name = ''mic'',
     pti_muted = False, pti_width = 0, pti_height = 0, pti_simulcast = False,
     pti_source = Microphone, pti_mime_type = ''audio/opus'', pti_encryption = NoEncryption,
     pti_audio_features = []\<rparr>"

lemma example_sid [simp]: "track_sid_try_from ''TR_1'' = Inr ''TR_1''"
  by (simp add: track_sid_try_from_def try_from_prefix_def starts_with_def TRACK_PREFIX_def)

theorem subscription_events_replay_witness:
  "\<exists>p p' evs. fold publication_step
       [OpSetTrack (Some (track_new ''TR_1'' ''mic'' Audio ''rtc'' True)), OpSetSubscribed False] (p, []) = (p', evs)
     \<and> track_replay None evs = Some None \<and> status_replay Desired evs = Some Unsubscribed
     \<and> length evs = 5"
proof -
  obtain p0 where p0: "remote_publication_new example_track_info None True = Some p0"
    by (simp add: remote_publication_new_def publication_new_def example_track_info_def)
  let ?p = "p0\<lparr>rpb_on_subscription := True, rpb_on_status := True\<rparr>"
  let ?ops = "[OpSetTrack (Some (track_new ''TR_1'' ''mic'' Audio ''rtc'' True)), OpSetSubscribed False]"
  obtain p' evs where run: "fold publication_step ?ops (?p, []) = (p', evs)"
    by (cases "fold publication_step ?ops (?p, [])")
  have start: "pb_track ?p = None" "subscription_status_of ?p = Desired"
    using p0 by (auto simp: remote_publication_new_def publication_new_def subscription_status_of_def
        publication.defs split: sum.splits)
  have final: "pb_track p' = None" "subscription_status_of p' = Unsubscribed" "length evs = 5"
    using run start
    by (auto simp: publication_step_def set_subscribed_def remote_set_track_def Let_def
        publication_set_track_def subscription_status_of_def emit_subscription_update_def
        emit_permission_update_def permission_status_of_def split: if_splits)
  from subscription_events_replay [OF _ _ run] start final run show ?thesis
    by (intro exI [of _ ?p] exI [of _ p'] exI [of _ evs]) simp
qed

end
