(* ===== verification/Participant.thy ===== *)
theory Participant
  imports Publication Rpc
begin

text \<open>
  The participants of a room (\<open>livekit/src/room/participant/mod.rs\<close>, \<open>remote_participant.rs\<close> and
  the track part of \<open>local_participant.rs\<close>), with the events the room dispatches for them
  (\<open>RoomEvent\<close> of \<open>livekit/src/room/mod.rs\<close>).

  A remote participant is an object with a number, its handle; a publication is named by its sid.
  The handlers that \<open>create_participant\<close> and \<open>add_publication\<close> register only dispatch a room
  event or spawn a task that sends a request to the server, so a handler call is an output of the
  operation. The outputs of one operation are in the order of the calls; the requests are sent by
  tasks of their own.
\<close>

section \<open>Room events\<close>

datatype (plugins only: code size) participant_ref = LocalRef | RemoteRef nat

datatype (plugins only: code size) connection_state = Disconnected | Connected | Reconnecting

record room_info =
  ri_sid :: "room_sid option"
  ri_name :: string
  ri_metadata :: string
  ri_state :: connection_state
  ri_lossy_threshold :: u64
  ri_reliable_threshold :: u64
  ri_empty_timeout :: u32
  ri_departure_timeout :: u32
  ri_max_participants :: u32
  ri_creation_time :: int
  ri_num_publishers :: u32
  ri_num_participants :: u32
  ri_active_recording :: bool

datatype (plugins only: code size) room_event =
    ReParticipantConnected nat
  | ReParticipantDisconnected nat
  | ReLocalTrackPublished track_sid
  | ReLocalTrackUnpublished track_sid
  | ReLocalTrackSubscribed string
  | ReTrackSubscribed nat track_sid track
  | ReTrackUnsubscribed nat track_sid track
  | ReTrackSubscriptionFailed nat track_sid
  | ReTrackPublished nat track_sid
  | ReTrackUnpublished nat track_sid
  | ReTrackMuted participant_ref track_sid
  | ReTrackUnmuted participant_ref track_sid
  | ReRoomMetadataChanged string string
  | ReParticipantMetadataChanged participant_ref string string
  | ReParticipantNameChanged participant_ref string string
  | ReParticipantAttributesChanged participant_ref "(string, string) hmap"
  | ReActiveSpeakersChanged "participant_ref list"
  | ReConnectionQualityChanged participant_ref connection_quality
  | ReDataReceived "byte list" "string option" data_packet_kind "nat option"
  | ReTranscriptionReceived "participant_ref option" "track_sid option" "transcription_segment list"
  | ReSipDTMFReceived u32 "string option" "nat option"
  | ReChatMessage chat_message nat
  | ReStreamHeaderReceived proto_header string
  | ReStreamChunkReceived proto_chunk string
  | ReStreamTrailerReceived proto_trailer string
  | ReConnectionStateChanged connection_state
  | ReConnected "(nat \<times> track_sid list) list"
  | ReDisconnected disconnect_reason
  | ReReconnecting
  | ReReconnected
  | ReThresholdChanged data_packet_kind u64
  | ReRoomUpdated room_info
  | ReMoved room_info
  | ReParticipantsUpdated "participant_ref list"

text \<open>What an operation puts out: events, and requests that it spawns a task for.\<close>

datatype (plugins only: code size) room_output =
    Dispatch room_event
  | RequestSubscription participant_sid track_sid bool
  | RequestTrackSetting track_sid bool u32 u32
  | RequestMute track_sid bool
  | RequestSubscriptionPermission bool "track_permission list"

section \<open>The common part\<close>

record participant_info =
  ptc_sid :: participant_sid
  ptc_identity :: participant_identity
  ptc_name :: string
  ptc_metadata :: string
  ptc_attributes :: "(string, string) hmap"
  ptc_speaking :: bool
  ptc_audio_level :: f32
  ptc_connection_quality :: connection_quality
  ptc_kind :: participant_kind
  ptc_disconnect_reason :: disconnect_reason

definition participant_info_new ::
    "participant_sid \<Rightarrow> participant_identity \<Rightarrow> string \<Rightarrow> string \<Rightarrow> (string, string) hmap \<Rightarrow>
     participant_kind \<Rightarrow> participant_info" where
  "participant_info_new sid identity name metadata attributes kind =
     \<lparr>ptc_sid = sid, ptc_identity = identity, ptc_name = name, ptc_metadata = metadata,
      ptc_attributes = attributes, ptc_speaking = False, ptc_audio_level = Num 0,
      ptc_connection_quality = Excellent, ptc_kind = kind, ptc_disconnect_reason = UnknownReason\<rparr>"

definition participant_update_info ::
    "participant_ref \<Rightarrow> proto_participant_info \<Rightarrow> participant_info \<Rightarrow>
     (participant_info \<times> room_output list) ran" where
  "participant_update_info ref new_info info =
     (let info = info\<lparr>ptc_disconnect_reason := ppi_disconnect_reason new_info,
                      ptc_kind := ppi_kind new_info\<rparr> in
      case participant_sid_try_from (ppi_sid new_info) of
        Inl _ \<Rightarrow> Panicked (info, [])
      | Inr sid \<Rightarrow>
          let changed_attributes =
                calculate_changed_attributes (ptc_attributes info) (ppi_attributes new_info)
          in Ran
            (info\<lparr>ptc_sid := sid, ptc_identity := ppi_identity new_info, ptc_name := ppi_name new_info,
                  ptc_metadata := ppi_metadata new_info, ptc_attributes := ppi_attributes new_info\<rparr>,
             (if ptc_name info \<noteq> ppi_name new_info
              then [Dispatch (ReParticipantNameChanged ref (ptc_name info) (ppi_name new_info))] else [])
             @ (if ptc_metadata info \<noteq> ppi_metadata new_info
                then [Dispatch (ReParticipantMetadataChanged ref (ptc_metadata info) (ppi_metadata new_info))]
                else [])
             @ (if changed_attributes \<noteq> []
                then [Dispatch (ReParticipantAttributesChanged ref changed_attributes)] else [])))"

section \<open>Remote participants\<close>

record remote_participant =
  rpt_obj :: nat
  rpt_info :: participant_info
  rpt_publications :: "(track_sid, remote_publication) hmap"
  rpt_auto_subscribe :: bool

text \<open>The handlers that \<open>add_publication\<close> registers, on the calls of a publication.\<close>

fun remote_output :: "nat \<Rightarrow> remote_publication \<Rightarrow> publication_event \<Rightarrow> room_output list" where
  "remote_output obj p PeMuted = [Dispatch (ReTrackMuted (RemoteRef obj) (pb_sid p))]"
| "remote_output obj p PeUnmuted = [Dispatch (ReTrackUnmuted (RemoteRef obj) (pb_sid p))]"
| "remote_output obj p (PeSubscribed t) = [Dispatch (ReTrackSubscribed obj (pb_sid p) t)]"
| "remote_output obj p (PeUnsubscribed t) = [Dispatch (ReTrackUnsubscribed obj (pb_sid p) t)]"
| "remote_output obj p (PeStatusChanged _ _) = []"
| "remote_output obj p (PePermissionChanged _ _) = []"
| "remote_output obj p (PeSubscriptionUpdateNeeded subscribed) =
     [RequestSubscription (rpb_participant_sid p) (pb_sid p) subscribed]"
| "remote_output obj p (PeEnabledStatusChanged enabled) =
     [RequestTrackSetting (pb_sid p) (\<not> enabled) (fst (pb_dimension p)) (snd (pb_dimension p))]"
| "remote_output obj p (PeVideoDimensionsChanged width height) =
     [RequestTrackSetting (pb_sid p) (\<not> is_enabled p) width height]"

definition remote_outputs ::
    "nat \<Rightarrow> remote_publication \<Rightarrow> publication_event list \<Rightarrow> room_output list" where
  "remote_outputs obj p evs = concat (map (remote_output obj p) evs)"

definition put_publication ::
    "track_sid \<Rightarrow> remote_publication \<Rightarrow> remote_participant \<Rightarrow> remote_participant" where
  "put_publication sid pub p = p\<lparr>rpt_publications := AList.update sid pub (rpt_publications p)\<rparr>"

definition registered :: "participant_sid \<Rightarrow> remote_publication \<Rightarrow> remote_publication" where
  "registered participant_sid pub =
     pub\<lparr>pb_on_muted := True, pb_on_unmuted := True, rpb_on_subscription := True,
         rpb_on_settings := True, rpb_participant_sid := participant_sid\<rparr>"

definition remote_add_publication ::
    "remote_publication \<Rightarrow> remote_participant \<Rightarrow> remote_participant" where
  "remote_add_publication pub p =
     put_publication (pb_sid pub) (registered (ptc_sid (rpt_info p)) pub) p"

definition remote_remove_publication :: "track_sid \<Rightarrow> remote_participant \<Rightarrow> remote_participant" where
  "remote_remove_publication sid p = p\<lparr>rpt_publications := AList.delete sid (rpt_publications p)\<rparr>"

definition get_track_publication ::
    "track_sid \<Rightarrow> remote_participant \<Rightarrow> remote_publication option" where
  "get_track_publication sid p = map_of (rpt_publications p) sid"

text \<open>
  \<open>add_subscribed_media_track\<close>: it polls for the publication for at most five seconds; \<open>found\<close> says
  whether a poll found it. A track of the other kind is unreachable code.
\<close>

definition add_subscribed_media_track ::
    "bool \<Rightarrow> track_sid \<Rightarrow> media_track \<Rightarrow> nat \<Rightarrow> remote_participant \<Rightarrow>
     (remote_participant \<times> room_output list) ran" where
  "add_subscribed_media_track found sid mt transceiver p =
     (case (if found then get_track_publication sid p else None) of
        None \<Rightarrow> Ran (p, [Dispatch (ReTrackSubscriptionFailed (rpt_obj p) sid)])
      | Some pub \<Rightarrow>
          if mt_kind mt \<noteq> pb_kind pub then Panicked (p, [])
          else
            let t = (track_new (pb_sid pub) (pb_name pub) (pb_kind pub) (mt_id mt) True)
                  \<lparr>tk_transceiver := Some transceiver, tk_source := pb_source pub\<rparr>;
                p = remote_add_publication pub p;
                (pub', evs) = remote_set_track (Some t) (registered (ptc_sid (rpt_info p)) pub)
            in Ran (put_publication (pb_sid pub) pub' p, remote_outputs (rpt_obj p) pub' evs))"

definition disable_track :: "remote_publication \<Rightarrow> remote_publication" where
  "disable_track pub = pub\<lparr>pb_track := map_option (\<lambda>t. t\<lparr>tk_enabled := False\<rparr>) (pb_track pub)\<rparr>"

definition remote_unpublish_track ::
    "track_sid \<Rightarrow> remote_participant \<Rightarrow> remote_participant \<times> room_output list" where
  "remote_unpublish_track sid p =
     (case get_track_publication sid p of
        None \<Rightarrow> (p, [])
      | Some pub \<Rightarrow>
          let (pub', evs) = (if pb_track pub = None then (pub, [])
                             else remote_set_track None (disable_track pub));
              p = remote_remove_publication sid p
          in (p, remote_outputs (rpt_obj p) pub' evs
                 @ [Dispatch (ReTrackUnpublished (rpt_obj p) (pb_sid pub'))]))"

text \<open>One track of a participant's description: a known publication is updated, a new one added.\<close>

definition remote_update_track ::
    "proto_track_info \<Rightarrow> remote_participant \<times> room_output list \<times> track_sid list \<Rightarrow>
     (remote_participant \<times> room_output list \<times> track_sid list) ran" where
  "remote_update_track track s =
     (case s of (p, outs, valid_tracks) \<Rightarrow>
        case track_sid_try_from (pti_sid track) of
          Inl _ \<Rightarrow> Panicked (p, outs, valid_tracks)
        | Inr track_sid \<Rightarrow>
            (case get_track_publication track_sid p of
               Some pub \<Rightarrow>
                 map_ran
                   (\<lambda>(pub, evs). (put_publication track_sid pub p,
                      outs @ remote_outputs (rpt_obj p) pub evs, track_sid # valid_tracks))
                   (remote_update_info track pub)
             | None \<Rightarrow>
                 (case remote_publication_new track None (rpt_auto_subscribe p) of
                    None \<Rightarrow> Panicked (p, outs, valid_tracks)
                  | Some pub \<Rightarrow>
                      Ran (remote_add_publication pub p,
                           outs @ [Dispatch (ReTrackPublished (rpt_obj p) (pb_sid pub))],
                           track_sid # valid_tracks))))"

definition remove_invalid ::
    "track_sid list \<Rightarrow> track_sid \<Rightarrow> remote_participant \<times> room_output list \<Rightarrow>
     remote_participant \<times> room_output list" where
  "remove_invalid valid_tracks sid s =
     (if sid \<in> set valid_tracks then s
      else case remote_unpublish_track sid (fst s) of (p, outs) \<Rightarrow> (p, snd s @ outs))"

definition remote_participant_update_info ::
    "proto_participant_info \<Rightarrow> remote_participant \<Rightarrow> (remote_participant \<times> room_output list) ran" where
  "remote_participant_update_info info p =
     (case participant_update_info (RemoteRef (rpt_obj p)) info (rpt_info p) of
        Panicked (pinfo, outs) \<Rightarrow> Panicked (p\<lparr>rpt_info := pinfo\<rparr>, outs)
      | Ran (pinfo, outs) \<Rightarrow>
          (case ran_fold remote_update_track (ppi_tracks info) (p\<lparr>rpt_info := pinfo\<rparr>, outs, []) of
             Panicked (p, outs, _) \<Rightarrow> Panicked (p, outs)
           | Ran (p, outs, valid_tracks) \<Rightarrow>
               Ran (fold (remove_invalid valid_tracks) (hm_keys (rpt_publications p)) (p, outs))))"

section \<open>The local participant\<close>

record local_participant =
  lcp_info :: participant_info
  lcp_publications :: "(track_sid, publication) hmap"
  lcp_all_participants_allowed :: bool
  lcp_track_permissions :: "participant_track_permission list"

definition local_participant_new :: "participant_info \<Rightarrow> local_participant" where
  "local_participant_new info =
     \<lparr>lcp_info = info, lcp_publications = [], lcp_all_participants_allowed = True,
      lcp_track_permissions = []\<rparr>"

definition local_update_info ::
    "proto_participant_info \<Rightarrow> local_participant \<Rightarrow> (local_participant \<times> room_output list) ran" where
  "local_update_info info p =
     map_ran (\<lambda>(i, outs). (p\<lparr>lcp_info := i\<rparr>, outs)) (participant_update_info LocalRef info (lcp_info p))"

text \<open>The handlers on the calls of a local publication: they tell the server as well.\<close>

fun local_output :: "'z publication_scheme \<Rightarrow> publication_event \<Rightarrow> room_output list" where
  "local_output p PeMuted = [RequestMute (pb_sid p) True, Dispatch (ReTrackMuted LocalRef (pb_sid p))]"
| "local_output p PeUnmuted = [RequestMute (pb_sid p) False, Dispatch (ReTrackUnmuted LocalRef (pb_sid p))]"
| "local_output p _ = []"

definition local_outputs :: "'z publication_scheme \<Rightarrow> publication_event list \<Rightarrow> room_output list" where
  "local_outputs p evs = concat (map (local_output p) evs)"

definition local_add_publication :: "publication \<Rightarrow> local_participant \<Rightarrow> local_participant" where
  "local_add_publication pub p =
     p\<lparr>lcp_publications := AList.update (pb_sid pub) (pub\<lparr>pb_on_muted := True, pb_on_unmuted := True\<rparr>)
         (lcp_publications p)\<rparr>"

text \<open>
  \<open>publish_track\<close> after the request: the results of the session's \<open>add_track\<close> and \<open>create_sender\<close>
  are given. The track is stored in the publication as it is, without \<open>set_track\<close>.
\<close>

datatype (plugins only: code size) room_error =
    EngineError engine_error
  | RoomInternal string
  | RoomAlreadyClosed

definition publish_track ::
    "track \<Rightarrow> engine_error + proto_track_info \<Rightarrow> engine_error + nat \<Rightarrow> local_participant \<Rightarrow>
     ((room_error + publication) \<times> local_participant \<times> room_output list) ran" where
  "publish_track track added sender p =
     (case added of
        Inl e \<Rightarrow> Ran (Inl (EngineError e), p, [])
      | Inr track_info \<Rightarrow>
          (case publication_new track_info (Some track) of
             None \<Rightarrow> Panicked (Inl (RoomInternal ''panic''), p, [])
           | Some publication \<Rightarrow>
               (case track_update_info track_info track of
                  Panicked _ \<Rightarrow> Panicked (Inl (RoomInternal ''panic''), p, [])
                | Ran track \<Rightarrow>
                    (case sender of
                       Inl e \<Rightarrow> Ran (Inl (EngineError e), p, [])
                     | Inr transceiver \<Rightarrow>
                         let publication = publication
                               \<lparr>pb_track := Some (track\<lparr>tk_transceiver := Some transceiver, tk_enabled := True\<rparr>)\<rparr>
                         in Ran (Inr publication, local_add_publication publication p,
                              [Dispatch (ReLocalTrackPublished (pb_sid publication))])))))"

text \<open>
  \<open>unpublish_track\<close>: it unwraps the track and its transceiver; \<open>removed\<close> is the result of the
  session's \<open>remove_track\<close>.
\<close>

definition unpublish_track ::
    "track_sid \<Rightarrow> engine_error + unit \<Rightarrow> local_participant \<Rightarrow>
     ((room_error + publication) \<times> local_participant \<times> room_output list) ran" where
  "unpublish_track sid removed p =
     (case map_of (lcp_publications p) sid of
        None \<Rightarrow> Ran (Inl (RoomInternal ''track not found''), p, [])
      | Some pub \<Rightarrow>
          let p = p\<lparr>lcp_publications := AList.delete sid (lcp_publications p)\<rparr> in
          (case pb_track pub of
             None \<Rightarrow> Panicked (Inl (RoomInternal ''panic''), p, [])
           | Some track \<Rightarrow>
               (case tk_transceiver track of
                  None \<Rightarrow> Panicked (Inl (RoomInternal ''panic''), p, [])
                | Some _ \<Rightarrow>
                    (case removed of
                       Inl e \<Rightarrow> Ran (Inl (EngineError e), p, [])
                     | Inr _ \<Rightarrow> Ran (Inr (publication_set_track None pub), p,
                         [Dispatch (ReLocalTrackUnpublished (pb_sid pub))])))))"

text \<open>Muting through the track itself, which the bindings do, and through its publication.\<close>

definition local_track_set_muted ::
    "bool \<Rightarrow> track_sid \<Rightarrow> local_participant \<Rightarrow> local_participant \<times> room_output list" where
  "local_track_set_muted muted sid p =
     (case map_of (lcp_publications p) sid of
        None \<Rightarrow> (p, [])
      | Some pub \<Rightarrow>
          (case local_set_muted muted pub of
             (pub, evs) \<Rightarrow> (p\<lparr>lcp_publications := AList.update sid pub (lcp_publications p)\<rparr>,
                            local_outputs pub evs)))"

definition local_publication_set_muted ::
    "bool \<Rightarrow> track_sid \<Rightarrow> local_participant \<Rightarrow> local_participant \<times> room_output list" where
  "local_publication_set_muted muted sid p =
     (case map_of (lcp_publications p) sid of
        None \<Rightarrow> (p, [])
      | Some pub \<Rightarrow>
          (case (if muted then local_mute pub else local_unmute pub) of
             (pub, evs) \<Rightarrow> (p\<lparr>lcp_publications := AList.update sid pub (lcp_publications p)\<rparr>,
                            local_outputs pub evs)))"

definition published_tracks_info :: "local_participant \<Rightarrow> (string \<times> proto_track_info) list" where
  "published_tracks_info p =
     concat (map (\<lambda>pub. case pb_track pub of
         Some track \<Rightarrow> [(tk_rtc_id track, pb_proto_info pub)] | None \<Rightarrow> []) (hm_values (lcp_publications p)))"

definition update_track_subscription_permissions :: "local_participant \<Rightarrow> room_output" where
  "update_track_subscription_permissions p =
     RequestSubscriptionPermission (lcp_all_participants_allowed p)
       (map track_permission_from (lcp_track_permissions p))"

definition set_track_subscription_permissions ::
    "bool \<Rightarrow> participant_track_permission list \<Rightarrow> local_participant \<Rightarrow>
     local_participant \<times> room_output list" where
  "set_track_subscription_permissions all_participants_allowed permissions p =
     (let p = p\<lparr>lcp_track_permissions := permissions,
                lcp_all_participants_allowed := all_participants_allowed\<rparr>
      in (p, [update_track_subscription_permissions p]))"


section \<open>Lemmas\<close>

text \<open>The publications of a participant are filed under their own sid.\<close>

definition publications_wf :: "remote_participant \<Rightarrow> bool" where
  "publications_wf p \<longleftrightarrow> hm_wf (rpt_publications p)
     \<and> (\<forall>sid pub. map_of (rpt_publications p) sid = Some pub \<longrightarrow> pb_sid pub = sid)"

definition publication_sids :: "remote_participant \<Rightarrow> track_sid set" where
  "publication_sids p = dom (map_of (rpt_publications p))"

definition published_in :: "nat \<Rightarrow> room_output list \<Rightarrow> track_sid set" where
  "published_in obj outs = {sid. Dispatch (ReTrackPublished obj sid) \<in> set outs}"

definition unpublished_in :: "nat \<Rightarrow> room_output list \<Rightarrow> track_sid set" where
  "unpublished_in obj outs = {sid. Dispatch (ReTrackUnpublished obj sid) \<in> set outs}"

lemma published_in_simps [simp]:
  "published_in obj (xs @ ys) = published_in obj xs \<union> published_in obj ys"
  "unpublished_in obj (xs @ ys) = unpublished_in obj xs \<union> unpublished_in obj ys"
  "published_in obj [] = {}" "unpublished_in obj [] = {}"
  "published_in obj [Dispatch (ReTrackPublished obj sid)] = {sid}"
  "unpublished_in obj [Dispatch (ReTrackUnpublished obj sid)] = {sid}"
  "published_in obj [Dispatch (ReTrackUnpublished obj sid)] = {}"
  "unpublished_in obj [Dispatch (ReTrackPublished obj sid)] = {}"
  by (auto simp: published_in_def unpublished_in_def)

lemma remote_output_silent:
  "Dispatch (ReTrackPublished obj sid) \<notin> set (remote_output obj' p ev)"
  "Dispatch (ReTrackUnpublished obj sid) \<notin> set (remote_output obj' p ev)"
  by (cases ev; simp)+

lemma remote_outputs_silent [simp]:
  "published_in obj (remote_outputs obj' p evs) = {}"
  "unpublished_in obj (remote_outputs obj' p evs) = {}"
  by (auto simp: published_in_def unpublished_in_def remote_outputs_def remote_output_silent)

definition track_ok :: "proto_track_info \<Rightarrow> bool" where
  "track_ok track \<longleftrightarrow> starts_with TRACK_PREFIX (pti_sid track) \<and> pti_type track \<noteq> ProtoData"

lemma track_okD:
  assumes "track_ok track"
  shows "track_sid_try_from (pti_sid track) = Inr (pti_sid track)"
    and "\<exists>kind. track_kind_try_from (pti_type track) = Inr kind"
  using assms by (auto simp: track_ok_def track_sid_try_from_def try_from_prefix_def)
    (cases "pti_type track"; simp)

lemma remote_update_info_ok:
  assumes "track_ok track"
  obtains pub' evs where "remote_update_info track pub = Ran (pub', evs)" "pb_sid pub' = pti_sid track"
  using track_okD [OF assms]
  by (force simp: remote_update_info_def publication_update_info_def Let_def)

lemma remote_publication_new_ok:
  assumes "track_ok track"
  obtains pub where "remote_publication_new track None auto = Some pub" "pb_sid pub = pti_sid track"
  using track_okD [OF assms]
  by (force simp: remote_publication_new_def publication_new_def publication.defs)

lemma put_publication_wf [simp]:
  "publications_wf p \<Longrightarrow> pb_sid pub = sid \<Longrightarrow> publications_wf (put_publication sid pub p)"
  by (auto simp: publications_wf_def put_publication_def hm_simps hm.wf_insert)

lemma put_publication_fields [simp]:
  "publication_sids (put_publication sid pub p) = insert sid (publication_sids p)"
  "rpt_obj (put_publication sid pub p) = rpt_obj p"
  by (auto simp: publication_sids_def put_publication_def hm.dom_insert)

text \<open>What the loop over the described tracks keeps and does.\<close>

definition tracks_added ::
    "proto_track_info list \<Rightarrow> remote_participant \<times> room_output list \<times> track_sid list \<Rightarrow>
     remote_participant \<times> room_output list \<times> track_sid list \<Rightarrow> bool" where
  "tracks_added tracks s s' =
     (case s of (p, outs, valid) \<Rightarrow> case s' of (p', outs', valid') \<Rightarrow>
        publications_wf p' \<and> rpt_obj p' = rpt_obj p
        \<and> set valid' = set valid \<union> pti_sid ` set tracks
        \<and> publication_sids p' = publication_sids p \<union> pti_sid ` set tracks
        \<and> published_in (rpt_obj p) outs'
            = published_in (rpt_obj p) outs \<union> (pti_sid ` set tracks - publication_sids p)
        \<and> unpublished_in (rpt_obj p) outs' = unpublished_in (rpt_obj p) outs)"

lemma update_track_added:
  assumes "track_ok track" and "publications_wf p"
  shows "\<exists>s'. remote_update_track track (p, outs, valid) = Ran s'
    \<and> tracks_added [track] (p, outs, valid) s'"
proof (cases "get_track_publication (pti_sid track) p")
  case None
  obtain pub where pub: "remote_publication_new track None (rpt_auto_subscribe p) = Some pub"
    "pb_sid pub = pti_sid track" by (rule remote_publication_new_ok [OF assms(1)])
  have "pti_sid track \<notin> publication_sids p"
    using None by (auto simp: get_track_publication_def publication_sids_def)
  with None pub assms(2) track_okD(1) [OF assms(1)] show ?thesis
    by (auto simp: remote_update_track_def tracks_added_def remote_add_publication_def registered_def)
next
  case (Some pub)
  obtain pub' evs where u: "remote_update_info track pub = Ran (pub', evs)" "pb_sid pub' = pti_sid track"
    by (rule remote_update_info_ok [OF assms(1)])
  have "pti_sid track \<in> publication_sids p"
    using Some by (auto simp: get_track_publication_def publication_sids_def)
  with Some u assms(2) track_okD(1) [OF assms(1)] show ?thesis
    by (auto simp: remote_update_track_def tracks_added_def)
qed

lemma update_tracks_added:
  assumes "list_all track_ok tracks" and "publications_wf p"
  shows "\<exists>s'. ran_fold remote_update_track tracks (p, outs, valid) = Ran s'
    \<and> tracks_added tracks (p, outs, valid) s'"
  using assms
proof (induction tracks arbitrary: p outs valid)
  case Nil
  then show ?case by (simp add: tracks_added_def)
next
  case (Cons track tracks)
  from Cons.prems have "track_ok track" by simp
  from update_track_added [OF this Cons.prems(2), of outs valid] obtain p1 outs1 valid1 where
    s1: "remote_update_track track (p, outs, valid) = Ran (p1, outs1, valid1)"
    "tracks_added [track] (p, outs, valid) (p1, outs1, valid1)" by (metis prod_cases3)
  then have wf: "publications_wf p1" by (simp add: tracks_added_def)
  from Cons.IH [OF _ wf, of outs1 valid1] Cons.prems(1) obtain s' where
    s': "ran_fold remote_update_track tracks (p1, outs1, valid1) = Ran s'"
    "tracks_added tracks (p1, outs1, valid1) s'" by auto
  have "tracks_added (track # tracks) (p, outs, valid) s'"
    using s1(2) s'(2) by (cases s') (auto simp: tracks_added_def)
  with s1(1) s'(1) show ?case by auto
qed

lemma unpublish_removes:
  assumes "publications_wf p"
  shows "publications_wf (fst (remote_unpublish_track sid p))"
    and "publication_sids (fst (remote_unpublish_track sid p)) = publication_sids p - {sid}"
    and "rpt_obj (fst (remote_unpublish_track sid p)) = rpt_obj p"
    and "published_in (rpt_obj p) (snd (remote_unpublish_track sid p)) = {}"
    and "unpublished_in (rpt_obj p) (snd (remote_unpublish_track sid p)) = {sid} \<inter> publication_sids p"
proof -
  have del: "publications_wf (remote_remove_publication sid p)"
    "publication_sids (remote_remove_publication sid p) = publication_sids p - {sid}"
    "rpt_obj (remote_remove_publication sid p) = rpt_obj p"
    using assms by (auto simp: publications_wf_def publication_sids_def remote_remove_publication_def
        hm_simps hm.wf_remove split: if_splits)
  have key: "pb_sid pub = sid" if "get_track_publication sid p = Some pub" for pub
    using assms that by (simp add: publications_wf_def get_track_publication_def)
  have set_sid: "pb_sid (fst (remote_set_track None (disable_track pub))) = pb_sid pub" for pub
    by (simp add: remote_set_track_def publication_set_track_def disable_track_def Let_def)
  have sids: "sid \<in> publication_sids p \<longleftrightarrow> get_track_publication sid p \<noteq> None"
    by (auto simp: publication_sids_def get_track_publication_def)
  note defs = remote_unpublish_track_def
  show "publications_wf (fst (remote_unpublish_track sid p))"
    using assms del by (auto simp: defs Let_def split: option.splits prod.splits)
  show "publication_sids (fst (remote_unpublish_track sid p)) = publication_sids p - {sid}"
    using del sids by (auto simp: defs Let_def split: option.splits prod.splits)
  show "rpt_obj (fst (remote_unpublish_track sid p)) = rpt_obj p"
    using del by (auto simp: defs Let_def split: option.splits prod.splits)
  show "published_in (rpt_obj p) (snd (remote_unpublish_track sid p)) = {}"
    using del by (auto simp: defs Let_def split: option.splits prod.splits)
  show "unpublished_in (rpt_obj p) (snd (remote_unpublish_track sid p)) = {sid} \<inter> publication_sids p"
  proof (cases "get_track_publication sid p")
    case None
    with sids show ?thesis by (simp add: defs)
  next
    case (Some pub)
    obtain pub' evs where e: "(if pb_track pub = None then (pub, [])
        else remote_set_track None (disable_track pub)) = (pub', evs)" by (metis prod.collapse)
    then have "pb_sid pub' = sid" using key [OF Some] set_sid [of pub] by (auto split: if_splits)
    with Some e sids del(3) show ?thesis by (auto simp: defs Let_def)
  qed
qed

lemma remove_invalid_fold:
  assumes "publications_wf p"
  shows "\<exists>p' outs'. fold (remove_invalid valid) sids (p, outs) = (p', outs')
    \<and> publications_wf p' \<and> rpt_obj p' = rpt_obj p
    \<and> publication_sids p' = publication_sids p - (set sids - set valid)
    \<and> published_in (rpt_obj p) outs' = published_in (rpt_obj p) outs
    \<and> unpublished_in (rpt_obj p) outs'
        = unpublished_in (rpt_obj p) outs \<union> (set sids \<inter> publication_sids p - set valid)"
  using assms
proof (induction sids arbitrary: p outs)
  case Nil
  then show ?case by simp
next
  case (Cons sid sids)
  show ?case
  proof (cases "sid \<in> set valid")
    case True
    have "remove_invalid valid sid (p, outs) = (p, outs)"
      using True by (simp add: remove_invalid_def)
    with Cons.IH [OF Cons.prems, of outs] True show ?thesis by force
  next
    case False
    obtain p1 outs1 where s1: "remote_unpublish_track sid p = (p1, outs1)"
      by (cases "remote_unpublish_track sid p")
    note u = unpublish_removes [OF Cons.prems, of sid, unfolded s1 fst_conv snd_conv]
    have "remove_invalid valid sid (p, outs) = (p1, outs @ outs1)"
      using False s1 by (simp add: remove_invalid_def)
    moreover obtain p' outs' where ih: "fold (remove_invalid valid) sids (p1, outs @ outs1) = (p', outs')"
      "publications_wf p'" "rpt_obj p' = rpt_obj p"
      "publication_sids p' = publication_sids p1 - (set sids - set valid)"
      "published_in (rpt_obj p) outs' = published_in (rpt_obj p) (outs @ outs1)"
      "unpublished_in (rpt_obj p) outs' = unpublished_in (rpt_obj p) (outs @ outs1)
         \<union> (set sids \<inter> publication_sids p1 - set valid)"
      using Cons.IH [OF u(1), of "outs @ outs1"] unfolding u(3) by blast
    moreover have "publication_sids p' = publication_sids p - (set (sid # sids) - set valid)"
      using ih(4) u(2) False by auto
    moreover have "unpublished_in (rpt_obj p) outs' = unpublished_in (rpt_obj p) outs
        \<union> (set (sid # sids) \<inter> publication_sids p - set valid)"
      using ih(6) u(2,5) False by auto
    ultimately show ?thesis using u(4) by simp
  qed
qed

text \<open>A description as the server sends it: every sid has its prefix, and no data tracks.\<close>

definition description_ok :: "proto_participant_info \<Rightarrow> bool" where
  "description_ok info \<longleftrightarrow> starts_with PARTICIPANT_PREFIX (ppi_sid info) \<and> list_all track_ok (ppi_tracks info)"

lemma participant_update_info_ok:
  assumes "starts_with PARTICIPANT_PREFIX (ppi_sid new_info)"
  obtains info' outs where "participant_update_info ref new_info info = Ran (info', outs)"
    and "ptc_sid info' = ppi_sid new_info" and "ptc_identity info' = ppi_identity new_info"
    and "published_in obj outs = {}" and "unpublished_in obj outs = {}"
proof -
  have "participant_sid_try_from (ppi_sid new_info) = Inr (ppi_sid new_info)"
    using assms by (simp add: participant_sid_try_from_def try_from_prefix_def)
  then show thesis
    by (intro that [of "fst (ran_state (participant_update_info ref new_info info))"
          "snd (ran_state (participant_update_info ref new_info info))"])
      (auto simp: participant_update_info_def Let_def published_in_def unpublished_in_def)
qed

lemma update_track_info_kept:
  "remote_update_track track (p, outs, valid) = Ran (p', outs', valid') \<Longrightarrow> rpt_info p' = rpt_info p"
  by (cases "get_track_publication (pti_sid track) p")
    (auto simp: remote_update_track_def remote_add_publication_def put_publication_def
      track_sid_try_from_def try_from_prefix_def
      split: option.splits if_splits elim!: map_ran.elims)

lemma ran_fold_update_info:
  "ran_fold remote_update_track tracks (p, outs, valid) = Ran (p', outs', valid') \<Longrightarrow>
   rpt_info p' = rpt_info p"
proof (induction tracks arbitrary: p outs valid)
  case (Cons track tracks)
  then show ?case
    by (cases "remote_update_track track (p, outs, valid)") (auto dest!: update_track_info_kept)
qed simp

lemma unpublish_info [simp]: "rpt_info (fst (remote_unpublish_track sid p)) = rpt_info p"
  by (auto simp: remote_unpublish_track_def remote_remove_publication_def Let_def
      split: option.splits prod.splits)

lemma remove_fold_info:
  "fold (remove_invalid valid) sids (p, outs) = (p', outs') \<Longrightarrow> rpt_info p' = rpt_info p"
proof (induction sids arbitrary: p outs)
  case (Cons sid sids)
  have "rpt_info (fst (remove_invalid valid sid (p, outs))) = rpt_info p"
    by (auto simp: remove_invalid_def split: prod.splits) (metis fst_conv unpublish_info)
  with Cons show ?case by (cases "remove_invalid valid sid (p, outs)") auto
qed simp

lemma remote_update_synced:
  assumes "description_ok info" and "publications_wf p"
  shows "\<exists>p' outs. remote_participant_update_info info p = Ran (p', outs)
    \<and> publications_wf p' \<and> rpt_obj p' = rpt_obj p
    \<and> ptc_sid (rpt_info p') = ppi_sid info
    \<and> publication_sids p' = pti_sid ` set (ppi_tracks info)
    \<and> published_in (rpt_obj p) outs = pti_sid ` set (ppi_tracks info) - publication_sids p
    \<and> unpublished_in (rpt_obj p) outs = publication_sids p - pti_sid ` set (ppi_tracks info)"
proof -
  have sid: "starts_with PARTICIPANT_PREFIX (ppi_sid info)" and ok: "list_all track_ok (ppi_tracks info)"
    using assms(1) by (auto simp: description_ok_def)
  obtain i outs0 where i: "participant_update_info (RemoteRef (rpt_obj p)) info (rpt_info p) = Ran (i, outs0)"
    "ptc_sid i = ppi_sid info" "published_in (rpt_obj p) outs0 = {}" "unpublished_in (rpt_obj p) outs0 = {}"
    by (rule participant_update_info_ok [OF sid])
  let ?p = "p\<lparr>rpt_info := i\<rparr>"
  have wf: "publications_wf ?p" and sids: "publication_sids ?p = publication_sids p"
    using assms(2) by (auto simp: publications_wf_def publication_sids_def)
  obtain p1 outs1 valid where s1:
    "ran_fold remote_update_track (ppi_tracks info) (?p, outs0, []) = Ran (p1, outs1, valid)"
    "tracks_added (ppi_tracks info) (?p, outs0, []) (p1, outs1, valid)"
    using update_tracks_added [OF ok wf, of outs0 "[]"] by (metis prod_cases3)
  have keep: "rpt_info p1 = i"
    using ran_fold_update_info [OF s1(1)] by simp
  have t: "publications_wf p1" "rpt_obj p1 = rpt_obj p" "set valid = pti_sid ` set (ppi_tracks info)"
    "publication_sids p1 = publication_sids p \<union> pti_sid ` set (ppi_tracks info)"
    "published_in (rpt_obj p) outs1 = pti_sid ` set (ppi_tracks info) - publication_sids p"
    "unpublished_in (rpt_obj p) outs1 = {}"
    using s1(2) i(3,4) sids by (auto simp: tracks_added_def)
  obtain p2 outs2 where s2:
    "fold (remove_invalid valid) (hm_keys (rpt_publications p1)) (p1, outs1) = (p2, outs2)"
    "publications_wf p2" "rpt_obj p2 = rpt_obj p"
    "publication_sids p2 = publication_sids p1 - (set (hm_keys (rpt_publications p1)) - set valid)"
    "published_in (rpt_obj p) outs2 = published_in (rpt_obj p) outs1"
    "unpublished_in (rpt_obj p) outs2 = unpublished_in (rpt_obj p) outs1
       \<union> (set (hm_keys (rpt_publications p1)) \<inter> publication_sids p1 - set valid)"
    using remove_invalid_fold [OF t(1), of valid "hm_keys (rpt_publications p1)" outs1]
    unfolding t(2) by blast
  have keys: "set (hm_keys (rpt_publications p1)) = publication_sids p1"
    by (simp add: hm_keys_def publication_sids_def dom_map_of_conv_image_fst)
  have info: "rpt_info p2 = i"
    using remove_fold_info [OF s2(1)] keep by simp
  have "remote_participant_update_info info p = Ran (p2, outs2)"
    using i(1) s1(1) s2(1) by (simp add: remote_participant_update_info_def)
  moreover have "publication_sids p2 = pti_sid ` set (ppi_tracks info)"
    using s2(4) keys t(3,4) by auto
  moreover have "unpublished_in (rpt_obj p) outs2 = publication_sids p - pti_sid ` set (ppi_tracks info)"
    using s2(6) keys t(3,4,6) by auto
  ultimately show ?thesis
    using s2(2,3,5) t(5) info i(2) by blast
qed

lemma published_track:
  assumes "publish_track track (Inr info) (Inr transceiver) p = Ran (Inr pub, p', outs)"
  shows "map_of (lcp_publications p') (pb_sid pub) = Some (pub\<lparr>pb_on_muted := True, pb_on_unmuted := True\<rparr>)
    \<and> (\<exists>t. pb_track pub = Some t \<and> tk_on_muted t = tk_on_muted track \<and> tk_muted t = tk_muted track)"
proof -
  have kept: "tk_on_muted t = tk_on_muted track \<and> tk_muted t = tk_muted track"
    if "track_update_info info track = Ran t" for t
    using that by (auto simp: track_update_info_def Let_def split: sum.splits)
  from assms kept show ?thesis
    by (auto simp: publish_track_def local_add_publication_def hm_simps Let_def
        split: option.splits ran.splits)
qed

lemma silent_set_muted:
  assumes "pb_track pub = Some s" and "\<not> tk_on_muted s"
  shows "\<exists>s'. local_set_muted muted pub = (pub\<lparr>pb_track := Some s'\<rparr>, []) \<and> tk_muted s' = muted"
proof (cases "tk_muted s = muted")
  case True
  with assms have "local_set_muted muted pub = (pub\<lparr>pb_track := Some s\<rparr>, [])"
    by (simp add: local_set_muted_def set_muted_def)
  with True show ?thesis by blast
next
  case False
  with assms have "local_set_muted muted pub
      = (pub\<lparr>pb_track := Some (s\<lparr>tk_enabled := \<not> muted, tk_muted := muted\<rparr>)\<rparr>, [])"
    by (simp add: local_set_muted_def set_muted_def)
  then show ?thesis by (intro exI conjI) (assumption, simp)
qed

text \<open>What no operation of a participant puts out: that a participant came or went.\<close>

fun quiet_output :: "room_output \<Rightarrow> bool" where
  "quiet_output (Dispatch (ReParticipantConnected _)) = False"
| "quiet_output (Dispatch (ReParticipantDisconnected _)) = False"
| "quiet_output (Dispatch (ReConnected _)) = False"
| "quiet_output _ = True"

lemma quiet_remote_outputs [simp]: "list_all quiet_output (remote_outputs obj p evs)"
proof -
  have "list_all quiet_output (remote_output obj p ev)" for ev by (cases ev) simp_all
  then show ?thesis by (auto simp: remote_outputs_def list_all_iff)
qed

text \<open>An operation on the tracks of a participant, whether it panics or not.\<close>

definition keeps_participant :: "remote_participant \<Rightarrow> remote_participant \<Rightarrow> room_output list \<Rightarrow> bool" where
  "keeps_participant p p' outs \<longleftrightarrow> rpt_obj p' = rpt_obj p \<and> rpt_info p' = rpt_info p
     \<and> list_all quiet_output outs \<and> (publications_wf p \<longrightarrow> publications_wf p')"

lemma keeps_refl [simp]: "keeps_participant p p []"
  by (simp add: keeps_participant_def)

lemma keeps_trans:
  "keeps_participant p p' outs \<Longrightarrow> keeps_participant p' p'' outs' \<Longrightarrow> keeps_participant p p'' (outs @ outs')"
  by (auto simp: keeps_participant_def)

lemma update_info_sid:
  assumes "remote_update_info track pub = u" and "track_sid_try_from (pti_sid track) = Inr sid"
  shows "pb_sid (fst (ran_state u)) = sid \<or> pb_sid (fst (ran_state u)) = pb_sid pub"
  using assms by (auto simp: remote_update_info_def publication_update_info_def Let_def split: sum.splits)

lemma track_sid_inr: "track_sid_try_from s = Inr sid \<Longrightarrow> sid = s"
  by (auto simp: track_sid_try_from_def try_from_prefix_def split: if_splits)

lemma update_track_keeps:
  assumes "ran_state (remote_update_track track (p, outs, valid)) = (p', outs', valid')"
  shows "\<exists>outs1. outs' = outs @ outs1 \<and> keeps_participant p p' outs1"
proof (cases "track_sid_try_from (pti_sid track)")
  case (Inl e)
  with assms show ?thesis by (simp add: remote_update_track_def)
next
  case (Inr sid)
  show ?thesis
  proof (cases "get_track_publication sid p")
    case None
    show ?thesis
    proof (cases "remote_publication_new track None (rpt_auto_subscribe p)")
      case None
      with assms Inr \<open>get_track_publication sid p = None\<close> show ?thesis
        by (simp add: remote_update_track_def)
    next
      case (Some pub)
      have "keeps_participant p (remote_add_publication pub p) [Dispatch (ReTrackPublished (rpt_obj p) (pb_sid pub))]"
        by (auto simp: keeps_participant_def remote_add_publication_def put_publication_def
            publications_wf_def registered_def hm_simps hm.wf_insert)
      with assms Inr Some \<open>get_track_publication sid p = None\<close> show ?thesis
        by (auto simp: remote_update_track_def)
    qed
  next
    case (Some pub)
    obtain pub' evs where u: "ran_state (remote_update_info track pub) = (pub', evs)"
      by (cases "ran_state (remote_update_info track pub)")
    have sid: "pb_sid pub' = sid \<or> pb_sid pub' = pb_sid pub"
      using update_info_sid [OF refl Inr, of pub] u by simp
    have "publications_wf p \<Longrightarrow> pb_sid pub = sid"
      using Some by (simp add: publications_wf_def get_track_publication_def)
    then have "keeps_participant p (put_publication sid pub' p) (remote_outputs (rpt_obj p) pub' evs)"
      using sid by (auto simp: keeps_participant_def) (auto simp: put_publication_def)
    then show ?thesis
      using assms Inr Some u
      by (cases "remote_update_info track pub") (auto simp: remote_update_track_def)
  qed
qed

lemma update_tracks_keep:
  assumes "ran_state (ran_fold remote_update_track tracks (p, outs, valid)) = (p', outs', valid')"
  shows "\<exists>outs1. outs' = outs @ outs1 \<and> keeps_participant p p' outs1"
  using assms
proof (induction tracks arbitrary: p outs valid)
  case Nil
  then show ?case by simp
next
  case (Cons track tracks)
  obtain p1 outs1 valid1 where s1: "ran_state (remote_update_track track (p, outs, valid)) = (p1, outs1, valid1)"
    by (metis prod_cases3)
  obtain o1 where o1: "outs1 = outs @ o1" "keeps_participant p p1 o1"
    using update_track_keeps [OF s1] by blast
  show ?case
  proof (cases "remote_update_track track (p, outs, valid)")
    case (Ran s)
    with s1 Cons.prems have "ran_state (ran_fold remote_update_track tracks (p1, outs1, valid1)) = (p', outs', valid')"
      by simp
    from Cons.IH [OF this] o1 show ?thesis by (metis append.assoc keeps_trans)
  next
    case (Panicked s)
    with s1 Cons.prems o1 show ?thesis by auto
  qed
qed

lemma unpublish_keeps:
  "keeps_participant p (fst (remote_unpublish_track sid p)) (snd (remote_unpublish_track sid p))"
  by (auto simp: keeps_participant_def remote_unpublish_track_def remote_remove_publication_def Let_def
      publications_wf_def hm_simps hm.wf_remove split: option.splits prod.splits)

lemma remove_fold_keeps:
  "fold (remove_invalid valid) sids (p, outs) = (p', outs') \<Longrightarrow>
   \<exists>outs1. outs' = outs @ outs1 \<and> keeps_participant p p' outs1"
proof (induction sids arbitrary: p outs)
  case (Cons sid sids)
  show ?case
  proof (cases "sid \<in> set valid")
    case True
    then have "remove_invalid valid sid (p, outs) = (p, outs)" by (simp add: remove_invalid_def)
    with Cons show ?thesis by simp
  next
    case False
    obtain p1 o1 where u: "remote_unpublish_track sid p = (p1, o1)" by (cases "remote_unpublish_track sid p")
    then have "remove_invalid valid sid (p, outs) = (p1, outs @ o1)"
      using False by (simp add: remove_invalid_def)
    with Cons.prems have "fold (remove_invalid valid) sids (p1, outs @ o1) = (p', outs')" by simp
    from Cons.IH [OF this] unpublish_keeps [of p sid] u show ?thesis
      by (metis append.assoc fst_conv keeps_trans snd_conv)
  qed
qed (auto intro: exI [of _ "[]"])

lemma add_track_keeps:
  "keeps_participant p (fst (ran_state (add_subscribed_media_track found sid mt transceiver p)))
     (snd (ran_state (add_subscribed_media_track found sid mt transceiver p)))"
proof (cases "if found then get_track_publication sid p else None")
  case None
  then show ?thesis by (simp add: add_subscribed_media_track_def keeps_participant_def)
next
  case (Some pub)
  let ?t = "(track_new (pb_sid pub) (pb_name pub) (pb_kind pub) (mt_id mt) True)
    \<lparr>tk_transceiver := Some transceiver, tk_source := pb_source pub\<rparr>"
  let ?p = "remote_add_publication pub p"
  obtain pub' evs where s: "remote_set_track (Some ?t) (registered (ptc_sid (rpt_info ?p)) pub) = (pub', evs)"
    by (cases "remote_set_track (Some ?t) (registered (ptc_sid (rpt_info ?p)) pub)")
  then have sid: "pb_sid pub' = pb_sid pub"
    by (auto simp: remote_set_track_def publication_set_track_def track_new_def Let_def)
  have "publications_wf p \<Longrightarrow> publications_wf (put_publication (pb_sid pub) pub' ?p)"
    using sid by (simp add: remote_add_publication_def registered_def)
  with Some s show ?thesis
    by (simp add: add_subscribed_media_track_def keeps_participant_def Let_def)
      (simp add: put_publication_def remote_add_publication_def)
qed

lemma remote_update_keeps:
  assumes "ran_state (remote_participant_update_info info p) = (p', outs)"
    and "participant_sid_try_from (ppi_sid info) = Inr sid"
  shows "rpt_obj p' = rpt_obj p \<and> list_all quiet_output outs \<and> (publications_wf p \<longrightarrow> publications_wf p')
    \<and> ptc_sid (rpt_info p') = sid \<and> ptc_identity (rpt_info p') = ppi_identity info"
proof -
  obtain i outs0 where i: "participant_update_info (RemoteRef (rpt_obj p)) info (rpt_info p) = Ran (i, outs0)"
    "ptc_sid i = sid" "ptc_identity i = ppi_identity info" "list_all quiet_output outs0"
    using assms(2) by (simp add: participant_update_info_def Let_def)
  let ?p = "p\<lparr>rpt_info := i\<rparr>"
  have wf: "publications_wf ?p = publications_wf p" by (simp add: publications_wf_def)
  obtain p1 outs1 valid where s1:
    "ran_state (ran_fold remote_update_track (ppi_tracks info) (?p, outs0, [])) = (p1, outs1, valid)"
    by (metis prod_cases3)
  obtain o1 where o1: "outs1 = outs0 @ o1" "keeps_participant ?p p1 o1"
    using update_tracks_keep [OF s1] by blast
  show ?thesis
  proof (cases "ran_fold remote_update_track (ppi_tracks info) (?p, outs0, [])")
    case (Panicked s)
    with s1 assms(1) i(1) have "p' = p1" "outs = outs1"
      by (auto simp: remote_participant_update_info_def)
    with o1 i wf show ?thesis by (auto simp: keeps_participant_def)
  next
    case (Ran s)
    with s1 assms(1) i(1) have
      "fold (remove_invalid valid) (hm_keys (rpt_publications p1)) (p1, outs1) = (p', outs)"
      by (auto simp: remote_participant_update_info_def)
    from remove_fold_keeps [OF this] o1 i wf show ?thesis by (auto simp: keeps_participant_def)
  qed
qed

lemma remote_update_obj:
  assumes "ran_state (remote_participant_update_info info p) = (p', outs)"
  shows "rpt_obj p' = rpt_obj p"
proof (cases "participant_sid_try_from (ppi_sid info)")
  case (Inl e)
  with assms show ?thesis
    by (auto simp: remote_participant_update_info_def participant_update_info_def Let_def)
next
  case (Inr sid)
  from remote_update_keeps [OF assms Inr] show ?thesis by simp
qed

section \<open>Properties\<close>

text \<open>
  C34. A description of a remote participant is applied as a whole: when its sids have their prefixes
  and it has no data track, the update does not panic, the participant's publications are then
  exactly the described ones, each filed under its own sid, and the room is told of exactly the new
  tracks as published and of exactly the missing ones as unpublished.
\<close>

theorem participant_tracks_synced:
  assumes "description_ok info" and "publications_wf p"
  shows "\<exists>p' outs. remote_participant_update_info info p = Ran (p', outs)
    \<and> publications_wf p' \<and> ptc_sid (rpt_info p') = ppi_sid info
    \<and> dom (map_of (rpt_publications p')) = pti_sid ` set (ppi_tracks info)
    \<and> {sid. Dispatch (ReTrackPublished (rpt_obj p) sid) \<in> set outs}
        = pti_sid ` set (ppi_tracks info) - dom (map_of (rpt_publications p))
    \<and> {sid. Dispatch (ReTrackUnpublished (rpt_obj p) sid) \<in> set outs}
        = dom (map_of (rpt_publications p)) - pti_sid ` set (ppi_tracks info)"
  using remote_update_synced [OF assms]
  unfolding publication_sids_def published_in_def unpublished_in_def
  by (elim exE conjE) (intro exI conjI, assumption+)

definition example_description :: "proto_track_info list \<Rightarrow> proto_participant_info" where
  "example_description tracks =
     \<lparr>ppi_sid = ''PA_7'', ppi_identity = ''alice'', ppi_state = 2, ppi_tracks = tracks,
      ppi_metadata = [], ppi_name = [], ppi_kind = Standard, ppi_attributes = [],
      ppi_disconnect_reason = UnknownReason\<rparr>"

definition example_participant :: remote_participant where
  "example_participant =
     \<lparr>rpt_obj = 0, rpt_info = participant_info_new ''PA_7'' ''alice'' [] [] [] Standard,
      rpt_publications = [], rpt_auto_subscribe = True\<rparr>"

lemma example_description_ok: "description_ok (example_description [example_track_info])"
  by (simp add: description_ok_def example_description_def track_ok_def example_track_info_def
      starts_with_def TRACK_PREFIX_def PARTICIPANT_PREFIX_def)

theorem participant_tracks_synced_witness:
  "\<exists>p' outs. remote_participant_update_info (example_description [example_track_info]) example_participant
      = Ran (p', outs)
    \<and> {sid. Dispatch (ReTrackPublished 0 sid) \<in> set outs} = {''TR_1''}"
proof -
  have "publications_wf example_participant" by (simp add: publications_wf_def example_participant_def)
  from participant_tracks_synced [OF example_description_ok this] show ?thesis
    by (auto simp: example_participant_def example_description_def example_track_info_def)
qed

text \<open>
  Muting a published local track through the track itself, as the bindings of other languages
  do, tells nobody: neither is the server asked to mute it nor is the room told, although the
  publication then counts as muted; through the publication it is exactly one request and one
  event. A track whose handlers were registered would report an unmute as a mute: both go
  to the slot of the muted handler.
\<close>

theorem muting_a_track_is_silent:
  assumes "publish_track track (Inr info) (Inr transceiver) p = Ran (Inr pub, p', outs)"
    and "\<not> tk_on_muted track" and "p'' = fst (local_track_set_muted muted (pb_sid pub) p')"
  shows "snd (local_track_set_muted muted (pb_sid pub) p') = []
    \<and> map_option local_is_muted (map_of (lcp_publications p'') (pb_sid pub)) = Some muted
    \<and> snd (local_publication_set_muted muted (pb_sid pub) p')
        = [RequestMute (pb_sid pub) muted,
           Dispatch (if muted then ReTrackMuted LocalRef (pb_sid pub) else ReTrackUnmuted LocalRef (pb_sid pub))]
    \<and> snd (set_muted (\<not> tk_muted t) (t\<lparr>tk_on_muted := True, tk_on_unmuted := True\<rparr>)) = [MutedSlot]"
proof -
  let ?pub = "pub\<lparr>pb_on_muted := True, pb_on_unmuted := True\<rparr>"
  obtain s where s: "map_of (lcp_publications p') (pb_sid pub) = Some ?pub" "pb_track ?pub = Some s"
    "\<not> tk_on_muted s" using published_track [OF assms(1)] assms(2) by auto
  obtain s' where m: "local_set_muted muted ?pub = (?pub\<lparr>pb_track := Some s'\<rparr>, [])" "tk_muted s' = muted"
    using silent_set_muted [OF s(2,3)] by blast
  have p'': "p'' = p'\<lparr>lcp_publications := AList.update (pb_sid pub) (?pub\<lparr>pb_track := Some s'\<rparr>)
      (lcp_publications p')\<rparr>" and silent: "snd (local_track_set_muted muted (pb_sid pub) p') = []"
    using assms(3) s(1) m(1) by (simp_all add: local_track_set_muted_def local_outputs_def)
  have "map_option local_is_muted (map_of (lcp_publications p'') (pb_sid pub)) = Some muted"
    using p'' m(2) by (simp add: hm_simps local_is_muted_def)
  moreover have "snd (local_publication_set_muted muted (pb_sid pub) p')
      = [RequestMute (pb_sid pub) muted,
         Dispatch (if muted then ReTrackMuted LocalRef (pb_sid pub) else ReTrackUnmuted LocalRef (pb_sid pub))]"
    using s(1) m(1)
    by (cases muted) (simp_all add: local_publication_set_muted_def local_mute_def local_unmute_def local_outputs_def)
  moreover have "snd (set_muted (\<not> tk_muted t) (t\<lparr>tk_on_muted := True, tk_on_unmuted := True\<rparr>)) = [MutedSlot]"
    by (simp add: set_muted_def)
  ultimately show ?thesis using silent by blast
qed

theorem muting_a_track_is_silent_witness:
  "\<exists>p' outs pub. publish_track (track_new ''TR_unknown'' ''mic'' Audio ''rtc'' True)
      (Inr example_track_info) (Inr 0)
      (local_participant_new (participant_info_new ''PA_1'' ''me'' [] [] [] Standard)) = Ran (Inr pub, p', outs)
    \<and> snd (local_track_set_muted True (pb_sid pub) p') = []"
proof -
  let ?t = "track_new ''TR_unknown'' ''mic'' Audio ''rtc'' True"
  let ?p = "local_participant_new (participant_info_new ''PA_1'' ''me'' [] [] [] Standard)"
  obtain pub p' outs where r: "publish_track ?t (Inr example_track_info) (Inr 0) ?p = Ran (Inr pub, p', outs)"
    by (simp add: publish_track_def publication_new_def track_update_info_def example_track_info_def Let_def)
  have "\<not> tk_on_muted ?t" by (simp add: track_new_def)
  from muting_a_track_is_silent [OF r this refl, of True] r show ?thesis by blast
qed

end
