(* ===== verification/Room.thy ===== *)
theory Room
  imports Participant IncomingStream
begin

text \<open>
  The room (\<open>RoomSession\<close> of \<open>livekit/src/room/mod.rs\<close>): it keeps the participants, their tracks, the
  active speakers and the description of the room, and turns the events of the engine into room
  events.

  The engine's events are handled one after the other, each in a task of its own: a panic ends that
  task only, and \<open>room_task\<close> goes on with the state it left. Tasks that a handler spawns are
  recorded in \<open>rm_spawned\<close>; the tasks that change the room again are operations of their own
  (\<open>run_media_track\<close>, \<open>restarted_done\<close>, \<open>room_close\<close>). What the room dispatches and requests is
  in \<open>rm_outputs\<close>, in order. The end-to-end encryption manager and the audio filters are told of
  tracks and tokens as well; they are outside this component.
\<close>

section \<open>State\<close>

datatype (plugins only: code size) room_task =
    TaskMediaTrack nat track_sid media_track nat
  | TaskSyncState
  | TaskUpdatePermissions
  | TaskRepublish "track_sid list"
  | TaskClose disconnect_reason
  | TaskRpcRequest participant_identity string string string nat u32

record room =
  rm_info :: room_info
  rm_auto_subscribe :: bool
  rm_local :: local_participant
  rm_participants :: "(participant_identity, remote_participant) hmap"
  rm_active_speakers :: "participant_ref list"
  rm_incoming :: incoming_manager
  rm_rpc :: rpc_state
  rm_sid_promise :: "room_sid option"
  rm_next_obj :: nat
  rm_has_handle :: bool
  rm_spawned :: "room_task list"
  rm_tokens :: "(string \<times> string) list"
  rm_outputs :: "room_output list"

text \<open>The clock and the readers of the streams, and the url of the signalling connection.\<close>

record room_env =
  ren_clock :: clock
  ren_alive :: "nat \<Rightarrow> bool"
  ren_url :: string

definition room_out :: "room_output list \<Rightarrow> room \<Rightarrow> room" where
  "room_out outs r = r\<lparr>rm_outputs := rm_outputs r @ outs\<rparr>"

definition dispatch :: "room_event \<Rightarrow> room \<Rightarrow> room" where
  "dispatch ev = room_out [Dispatch ev]"

definition spawn_task :: "room_task \<Rightarrow> room \<Rightarrow> room" where
  "spawn_task task r = r\<lparr>rm_spawned := rm_spawned r @ [task]\<rparr>"

section \<open>The participants\<close>

definition get_participant_by_sid :: "participant_sid \<Rightarrow> room \<Rightarrow> remote_participant option" where
  "get_participant_by_sid sid r =
     find (\<lambda>p. ptc_sid (rpt_info p) = sid) (hm_values (rm_participants r))"

definition get_participant_by_identity ::
    "participant_identity \<Rightarrow> room \<Rightarrow> remote_participant option" where
  "get_participant_by_identity identity r = map_of (rm_participants r) identity"

definition get_local_or_remote_participant ::
    "participant_identity \<Rightarrow> room \<Rightarrow> participant_ref option" where
  "get_local_or_remote_participant identity r =
     (if identity = ptc_identity (lcp_info (rm_local r)) then Some LocalRef
      else map_option (\<lambda>p. RemoteRef (rpt_obj p)) (get_participant_by_identity identity r))"

text \<open>A participant is shared: its new state is that of the entry that holds it.\<close>

definition put_participant :: "remote_participant \<Rightarrow> room \<Rightarrow> room" where
  "put_participant p r =
     r\<lparr>rm_participants := map (\<lambda>(k, q). (k, if rpt_obj q = rpt_obj p then p else q)) (rm_participants r)\<rparr>"

definition create_participant ::
    "participant_kind \<Rightarrow> participant_sid \<Rightarrow> participant_identity \<Rightarrow> string \<Rightarrow> string \<Rightarrow>
     (string, string) hmap \<Rightarrow> room \<Rightarrow> remote_participant \<times> room" where
  "create_participant kind sid identity name metadata attributes r =
     (let participant =
            \<lparr>rpt_obj = rm_next_obj r,
             rpt_info = participant_info_new sid identity name metadata attributes kind,
             rpt_publications = [], rpt_auto_subscribe = rm_auto_subscribe r\<rparr>
      in (participant,
          r\<lparr>rm_participants := AList.update identity participant (rm_participants r),
            rm_next_obj := Suc (rm_next_obj r)\<rparr>))"

definition unpublish_each ::
    "track_sid \<Rightarrow> remote_participant \<times> room_output list \<Rightarrow> remote_participant \<times> room_output list" where
  "unpublish_each sid s =
     (case remote_unpublish_track sid (fst s) of (p, outs) \<Rightarrow> (p, snd s @ outs))"

definition handle_participant_disconnect :: "remote_participant \<Rightarrow> room \<Rightarrow> room" where
  "handle_participant_disconnect remote_participant r =
     (let (p, outs) = fold unpublish_each (hm_keys (rpt_publications remote_participant))
                        (remote_participant, []);
          r = put_participant p r;
          r = r\<lparr>rm_participants := AList.delete (ptc_identity (rpt_info p)) (rm_participants r)\<rparr>
      in room_out (outs @ [Dispatch (ReParticipantDisconnected (rpt_obj p))]) r)"

text \<open>\<open>update_info\<close> of a participant of the room: the participant afterwards, and the room.\<close>

definition update_participant ::
    "proto_participant_info \<Rightarrow> remote_participant \<Rightarrow> room \<Rightarrow> (remote_participant \<times> room) ran" where
  "update_participant pi p r =
     map_ran (\<lambda>(p, outs). (p, room_out outs (put_participant p r)))
       (remote_participant_update_info pi p)"

definition update_local :: "proto_participant_info \<Rightarrow> room \<Rightarrow> room ran" where
  "update_local pi r =
     map_ran (\<lambda>(l, outs). room_out outs (r\<lparr>rm_local := l\<rparr>)) (local_update_info pi (rm_local r))"

text \<open>One update of \<open>handle_participant_update\<close>; the list collects the refreshed participants.\<close>

definition update_remote ::
    "proto_participant_info \<Rightarrow> participant_sid \<Rightarrow> room \<times> participant_ref list \<Rightarrow>
     (room \<times> participant_ref list) ran" where
  "update_remote pi participant_sid s =
     (case s of (r, participants) \<Rightarrow>
        let r = (case get_participant_by_identity (ppi_identity pi) r of
                   Some remote_participant \<Rightarrow>
                     if ptc_sid (rpt_info remote_participant) \<noteq> participant_sid
                     then handle_participant_disconnect remote_participant r else r
                 | None \<Rightarrow> r)
        in case get_participant_by_sid participant_sid r of
             Some remote_participant \<Rightarrow>
               if ppi_state pi = STATE_DISCONNECTED then
                 (case update_participant pi remote_participant r of
                    Ran (p, r) \<Rightarrow> Ran (handle_participant_disconnect p r, participants)
                  | Panicked (p, r) \<Rightarrow> Panicked (r, participants))
               else
                 map_ran (\<lambda>(p, r). (r, participants @ [RemoteRef (rpt_obj p)]))
                   (update_participant pi remote_participant r)
           | None \<Rightarrow>
               if ppi_state pi = STATE_DISCONNECTED then Ran (r, participants)
               else
                 let (remote_participant, r) = create_participant (ppi_kind pi) participant_sid
                       (ppi_identity pi) (ppi_name pi) (ppi_metadata pi) (ppi_attributes pi) r;
                     r = dispatch (ReParticipantConnected (rpt_obj remote_participant)) r
                 in map_ran (\<lambda>(p, r). (r, participants)) (update_participant pi remote_participant r))"

definition update_one ::
    "proto_participant_info \<Rightarrow> room \<times> participant_ref list \<Rightarrow> (room \<times> participant_ref list) ran" where
  "update_one pi s =
     (case s of (r, participants) \<Rightarrow>
        case participant_sid_try_from (ppi_sid pi) of
          Inl _ \<Rightarrow> Panicked (r, participants)
        | Inr participant_sid \<Rightarrow>
            if participant_sid = ptc_sid (lcp_info (rm_local r))
               \<or> ppi_identity pi = ptc_identity (lcp_info (rm_local r))
            then map_ran (\<lambda>r. (r, participants @ [LocalRef])) (update_local pi r)
            else update_remote pi participant_sid (r, participants))"

definition handle_participant_update :: "proto_participant_info list \<Rightarrow> room \<Rightarrow> room ran" where
  "handle_participant_update updates r =
     (case ran_fold update_one updates (r, []) of
        Panicked (r, participants) \<Rightarrow> Panicked r
      | Ran (r, participants) \<Rightarrow>
          Ran (if participants \<noteq> [] then dispatch (ReParticipantsUpdated participants) r else r))"

section \<open>Media tracks\<close>

fun split_bar :: "string \<Rightarrow> string list" where
  "split_bar [] = [[]]"
| "split_bar (c # cs) =
     (if c = CHR ''|'' then [] # split_bar cs
      else case split_bar cs of (s # ss) \<Rightarrow> (c # s) # ss | [] \<Rightarrow> [[c]])"

definition unpack_stream_id :: "string \<Rightarrow> (string \<times> string) option" where
  "unpack_stream_id stream_id =
     (case split_bar stream_id of
        [participant_sid, track_sid] \<Rightarrow> Some (participant_sid, track_sid)
      | _ \<Rightarrow> None)"

definition handle_media_track :: "media_track \<Rightarrow> media_stream \<Rightarrow> nat \<Rightarrow> room \<Rightarrow> room ran" where
  "handle_media_track track stream transceiver r =
     (case unpack_stream_id (ms_id stream) of
        None \<Rightarrow> Ran r
      | Some (participant_sid, stream_id) \<Rightarrow>
          let track_id = (if starts_with ''TR'' stream_id then stream_id else mt_id track) in
          (case participant_sid_try_from participant_sid of
             Inl _ \<Rightarrow> Panicked r
           | Inr participant_sid \<Rightarrow>
               (case track_sid_try_from track_id of
                  Inl _ \<Rightarrow> Panicked r
                | Inr track_id \<Rightarrow>
                    (case get_participant_by_sid participant_sid r of
                       Some remote_participant \<Rightarrow>
                         Ran (spawn_task (TaskMediaTrack (rpt_obj remote_participant) track_id track
                           transceiver) r)
                     | None \<Rightarrow> Ran r))))"

text \<open>The spawned task, on the participant it was started for if that is still in the room.\<close>

definition run_media_track ::
    "bool \<Rightarrow> nat \<Rightarrow> track_sid \<Rightarrow> media_track \<Rightarrow> nat \<Rightarrow> room \<Rightarrow> room ran" where
  "run_media_track found obj track_id track transceiver r =
     (case find (\<lambda>p. rpt_obj p = obj) (hm_values (rm_participants r)) of
        None \<Rightarrow> Ran (dispatch (ReTrackSubscriptionFailed obj track_id) r)
      | Some p \<Rightarrow>
          map_ran (\<lambda>(p, outs). room_out outs (put_participant p r))
            (add_subscribed_media_track found track_id track transceiver p))"

section \<open>Speakers and connection quality\<close>

definition speaker_ref :: "participant_sid \<Rightarrow> room \<Rightarrow> participant_ref option" where
  "speaker_ref sid r =
     (if sid = ptc_sid (lcp_info (rm_local r)) then Some LocalRef
      else map_option (\<lambda>p. RemoteRef (rpt_obj p)) (get_participant_by_sid sid r))"

text \<open>\<open>set_speaking\<close>, \<open>set_audio_level\<close> and \<open>set_connection_quality\<close> of a participant.\<close>

definition modify_info ::
    "(participant_info \<Rightarrow> participant_info) \<Rightarrow> participant_ref \<Rightarrow> room \<Rightarrow> room" where
  "modify_info f ref r =
     (case ref of
        LocalRef \<Rightarrow> r\<lparr>rm_local := (rm_local r)\<lparr>lcp_info := f (lcp_info (rm_local r))\<rparr>\<rparr>
      | RemoteRef obj \<Rightarrow>
          r\<lparr>rm_participants := map (\<lambda>(k, q). (k, if rpt_obj q = obj then q\<lparr>rpt_info := f (rpt_info q)\<rparr> else q))
              (rm_participants r)\<rparr>)"

definition audio_level :: "room \<Rightarrow> participant_ref \<Rightarrow> f32" where
  "audio_level r ref =
     (case ref of
        LocalRef \<Rightarrow> ptc_audio_level (lcp_info (rm_local r))
      | RemoteRef obj \<Rightarrow>
          (case find (\<lambda>p. rpt_obj p = obj) (hm_values (rm_participants r)) of
             Some p \<Rightarrow> ptc_audio_level (rpt_info p) | None \<Rightarrow> Num 0))"

definition update_speaker ::
    "speaker_info \<Rightarrow> room \<times> participant_ref list \<Rightarrow> (room \<times> participant_ref list) ran" where
  "update_speaker speaker s =
     (case s of (r, speakers) \<Rightarrow>
        case participant_sid_try_from (spk_sid speaker) of
          Inl _ \<Rightarrow> Panicked (r, speakers)
        | Inr sid \<Rightarrow>
            (case speaker_ref sid r of
               None \<Rightarrow> Ran (r, speakers)
             | Some ref \<Rightarrow>
                 let r = modify_info (\<lambda>i. i\<lparr>ptc_speaking := spk_active speaker,
                                            ptc_audio_level := spk_level speaker\<rparr>) ref r
                 in Ran (r, if spk_active speaker then speakers @ [ref] else speakers)))"

text \<open>
  The stable sort by \<open>partial_cmp(..).unwrap()\<close>: sorting two or more elements compares each of
  them, so one that is no number panics.
\<close>

fun level_key :: "f32 \<Rightarrow> int" where
  "level_key (Num n) = n"
| "level_key NaN = 0"

definition sort_speakers :: "room \<Rightarrow> participant_ref list \<Rightarrow> participant_ref list option" where
  "sort_speakers r speakers =
     (if 2 \<le> length speakers \<and> NaN \<in> set (map (audio_level r) speakers) then None
      else Some (sort_key (level_key \<circ> audio_level r) speakers))"

definition handle_speakers_changed :: "speaker_info list \<Rightarrow> room \<Rightarrow> room ran" where
  "handle_speakers_changed speakers_info r =
     (case ran_fold update_speaker speakers_info (r, []) of
        Panicked (r, _) \<Rightarrow> Panicked r
      | Ran (r, speakers) \<Rightarrow>
          (case sort_speakers r speakers of
             None \<Rightarrow> Panicked r
           | Some speakers \<Rightarrow>
               Ran (dispatch (ReActiveSpeakersChanged speakers) (r\<lparr>rm_active_speakers := speakers\<rparr>))))"

definition update_quality :: "connection_quality_info \<Rightarrow> room \<Rightarrow> room ran" where
  "update_quality update r =
     (case participant_sid_try_from (cqi_participant_sid update) of
        Inl _ \<Rightarrow> Panicked r
      | Inr sid \<Rightarrow>
          (case speaker_ref sid r of
             None \<Rightarrow> Ran r
           | Some ref \<Rightarrow>
               Ran (dispatch (ReConnectionQualityChanged ref (cqi_quality update))
                 (modify_info (\<lambda>i. i\<lparr>ptc_connection_quality := cqi_quality update\<rparr>) ref r))))"

definition handle_connection_quality_update :: "connection_quality_info list \<Rightarrow> room \<Rightarrow> room ran" where
  "handle_connection_quality_update updates r = ran_fold update_quality updates r"

definition handle_track_subscribed :: "string \<Rightarrow> room \<Rightarrow> room ran" where
  "handle_track_subscribed track_sid r =
     (case track_sid_try_from track_sid of
        Inl _ \<Rightarrow> Panicked r
      | Inr sid \<Rightarrow>
          (case map_of (lcp_publications (rm_local r)) sid of
             None \<Rightarrow> Ran r
           | Some publication \<Rightarrow>
               (case pb_track publication of
                  None \<Rightarrow> Panicked r
                | Some track \<Rightarrow> Ran (dispatch (ReLocalTrackSubscribed (tk_rtc_id track)) r))))"

section \<open>The room's description and connection state\<close>

definition update_connection_state :: "connection_state \<Rightarrow> room \<Rightarrow> bool \<times> room" where
  "update_connection_state state r =
     (if ri_state (rm_info r) = state then (False, r)
      else (True, dispatch (ReConnectionStateChanged state)
                    (r\<lparr>rm_info := (rm_info r)\<lparr>ri_state := state\<rparr>\<rparr>)))"

definition handle_room_update :: "proto_room \<Rightarrow> room \<Rightarrow> room" where
  "handle_room_update room r =
     (let info = rm_info r;
          sid = ok (room_sid_try_from (prm_sid room));
          new_info = info
            \<lparr>ri_metadata := prm_metadata room,
             ri_sid := (if prm_sid room = [] then ri_sid info else sid),
             ri_name := prm_name room, ri_empty_timeout := prm_empty_timeout room,
             ri_departure_timeout := prm_departure_timeout room,
             ri_max_participants := prm_max_participants room,
             ri_num_participants := prm_num_participants room,
             ri_num_publishers := prm_num_publishers room,
             ri_active_recording := prm_active_recording room,
             ri_creation_time := prm_creation_time_ms room\<rparr>;
          updated = (ri_metadata info \<noteq> prm_metadata room \<or> ri_name info \<noteq> prm_name room
            \<or> ri_empty_timeout info \<noteq> prm_empty_timeout room
            \<or> ri_departure_timeout info \<noteq> prm_departure_timeout room
            \<or> ri_max_participants info \<noteq> prm_max_participants room
            \<or> ri_num_participants info \<noteq> prm_num_participants room
            \<or> ri_num_publishers info \<noteq> prm_num_publishers room
            \<or> ri_active_recording info \<noteq> prm_active_recording room);
          r = r\<lparr>rm_info := new_info,
                rm_sid_promise := (if prm_sid room \<noteq> [] \<and> rm_sid_promise r = None then sid
                  else rm_sid_promise r)\<rparr>
      in room_out
           ((if ri_metadata info \<noteq> prm_metadata room
             then [Dispatch (ReRoomMetadataChanged (ri_metadata info) (prm_metadata room))] else [])
            @ (if updated then [Dispatch (ReRoomUpdated new_info)] else [])) r)"

definition handle_refresh_token :: "string \<Rightarrow> string \<Rightarrow> room \<Rightarrow> room" where
  "handle_refresh_token url token r = r\<lparr>rm_tokens := rm_tokens r @ [(url, token)]\<rparr>"

definition handle_room_moved :: "room_env \<Rightarrow> room_moved_response \<Rightarrow> room \<Rightarrow> room ran" where
  "handle_room_moved env moved r =
     (let r = handle_refresh_token (ren_url env) (rmr_token moved) r in
      ran_bind
        (case rmr_participant moved of
           None \<Rightarrow> Ran r
         | Some local_participant \<Rightarrow>
             ran_bind (update_local local_participant r)
               (\<lambda>r. Ran (dispatch (ReParticipantsUpdated [LocalRef]) r)))
        (\<lambda>r. ran_bind (handle_participant_update (rmr_other_participants moved) r)
          (\<lambda>r. let r = (case rmr_room moved of None \<Rightarrow> r | Some room \<Rightarrow> handle_room_update room r)
               in Ran (dispatch (ReMoved (rm_info r)) r))))"

section \<open>Reconnection\<close>

definition handle_resuming :: "room \<Rightarrow> room" where
  "handle_resuming r =
     (case update_connection_state Reconnecting r of
        (changed, r) \<Rightarrow> if changed then dispatch ReReconnecting r else r)"

definition handle_resumed :: "room \<Rightarrow> room" where
  "handle_resumed r =
     spawn_task TaskUpdatePermissions
       (dispatch ReReconnected (snd (update_connection_state Connected r)))"

definition handle_signal_resumed :: "room \<Rightarrow> room" where
  "handle_signal_resumed r = spawn_task TaskSyncState r"

definition handle_restarting :: "room \<Rightarrow> room" where
  "handle_restarting r =
     (let r = fold handle_participant_disconnect (hm_values (rm_participants r)) r in
      case update_connection_state Reconnecting r of
        (changed, r) \<Rightarrow> if changed then dispatch ReReconnecting r else r)"

definition handle_restarted :: "room \<Rightarrow> room" where
  "handle_restarted r = spawn_task (TaskRepublish (hm_keys (lcp_publications (rm_local r)))) r"

text \<open>The end of the task of \<open>handle_restarted\<close>, when the tracks are published again.\<close>

definition restarted_done :: "room \<Rightarrow> room" where
  "restarted_done r =
     dispatch ReReconnected
       (snd (update_connection_state Connected
         (room_out [update_track_subscription_permissions (rm_local r)] r)))"

definition handle_signal_restarted :: "join_response \<Rightarrow> room \<Rightarrow> room ran" where
  "handle_signal_restarted join_response r =
     (case jr_participant join_response of
        None \<Rightarrow> Panicked r
      | Some participant \<Rightarrow>
          ran_bind (update_local participant r)
            (\<lambda>r. ran_bind (handle_participant_update (jr_other_participants join_response) r)
              (\<lambda>r. case jr_room join_response of
                 None \<Rightarrow> Panicked r
               | Some room \<Rightarrow> Ran (handle_room_update room r))))"

definition handle_disconnected :: "disconnect_reason \<Rightarrow> room \<Rightarrow> room" where
  "handle_disconnected reason r =
     (let r = (case update_connection_state Disconnected r of
                 (changed, r) \<Rightarrow> if changed then dispatch (ReDisconnected reason) r else r)
      in if reason \<noteq> ClientInitiated then spawn_task (TaskClose reason) r else r)"

text \<open>The tracks whose subscription differs from the default, for the sync state of a resume.\<close>

definition sync_state_track_sids :: "room \<Rightarrow> track_sid list" where
  "sync_state_track_sids r =
     concat (map (\<lambda>p. map fst (filter (\<lambda>(sid, pub). rpb_subscribed pub \<noteq> rm_auto_subscribe r)
       (rpt_publications p))) (hm_values (rm_participants r)))"

section \<open>Data\<close>

definition handle_data ::
    "byte list \<Rightarrow> string option \<Rightarrow> data_packet_kind \<Rightarrow> participant_sid option \<Rightarrow>
     participant_identity option \<Rightarrow> room \<Rightarrow> room" where
  "handle_data payload topic kind participant_sid participant_identity r =
     (let by_identity = (case participant_identity of
              None \<Rightarrow> None | Some identity \<Rightarrow> get_participant_by_identity identity r);
          participant = (case by_identity of
              Some p \<Rightarrow> Some p
            | None \<Rightarrow> (case participant_sid of
                 None \<Rightarrow> None | Some sid \<Rightarrow> get_participant_by_sid sid r))
      in if participant = None \<and> (participant_identity \<noteq> None \<or> participant_sid \<noteq> None) then r
         else dispatch (ReDataReceived payload topic kind (map_option rpt_obj participant)) r)"

definition handle_chat_message :: "participant_identity \<Rightarrow> chat_message \<Rightarrow> room \<Rightarrow> room" where
  "handle_chat_message participant_identity chat_message r =
     (case get_participant_by_identity participant_identity r of
        None \<Rightarrow> r
      | Some p \<Rightarrow> dispatch (ReChatMessage chat_message (rpt_obj p)) r)"

definition handle_dtmf ::
    "u32 \<Rightarrow> string option \<Rightarrow> participant_identity option \<Rightarrow> room \<Rightarrow> room" where
  "handle_dtmf code digit participant_identity r =
     (let participant = (case participant_identity of
              None \<Rightarrow> None | Some identity \<Rightarrow> get_participant_by_identity identity r)
      in if participant = None \<and> participant_identity \<noteq> None then r
         else dispatch (ReSipDTMFReceived code digit (map_option rpt_obj participant)) r)"

definition handle_transcription ::
    "participant_identity \<Rightarrow> string \<Rightarrow> transcription_segment list \<Rightarrow> room \<Rightarrow> room ran" where
  "handle_transcription participant_identity track_sid segments r =
     (case track_sid_try_from track_sid of
        Inl _ \<Rightarrow> Panicked r
      | Inr sid \<Rightarrow>
          let participant = get_local_or_remote_participant participant_identity r;
              known = (case participant of
                  None \<Rightarrow> False
                | Some LocalRef \<Rightarrow> map_of (lcp_publications (rm_local r)) sid \<noteq> None
                | Some (RemoteRef _) \<Rightarrow>
                    (case get_participant_by_identity participant_identity r of
                       None \<Rightarrow> False | Some p \<Rightarrow> get_track_publication sid p \<noteq> None))
          in Ran (dispatch (ReTranscriptionReceived participant (if known then Some sid else None)
               segments) r))"

definition handle_data_stream_header :: "room_env \<Rightarrow> proto_header \<Rightarrow> string \<Rightarrow> room \<Rightarrow> room" where
  "handle_data_stream_header env header participant_identity r =
     dispatch (ReStreamHeaderReceived header participant_identity)
       (r\<lparr>rm_incoming := handle_header (ren_clock env) header participant_identity (rm_incoming r)\<rparr>)"

definition handle_data_stream_chunk :: "room_env \<Rightarrow> proto_chunk \<Rightarrow> string \<Rightarrow> room \<Rightarrow> room" where
  "handle_data_stream_chunk env chunk participant_identity r =
     dispatch (ReStreamChunkReceived chunk participant_identity)
       (r\<lparr>rm_incoming := handle_chunk (ren_alive env) chunk (rm_incoming r)\<rparr>)"

definition handle_data_stream_trailer :: "room_env \<Rightarrow> proto_trailer \<Rightarrow> string \<Rightarrow> room \<Rightarrow> room" where
  "handle_data_stream_trailer env trailer participant_identity r =
     dispatch (ReStreamTrailerReceived trailer participant_identity)
       (r\<lparr>rm_incoming := handle_trailer (ren_alive env) trailer (rm_incoming r)\<rparr>)"

definition handle_threshold_change :: "data_packet_kind \<Rightarrow> u64 \<Rightarrow> room \<Rightarrow> room" where
  "handle_threshold_change kind threshold r =
     dispatch (ReThresholdChanged kind threshold)
       (r\<lparr>rm_info := (case kind of
             Lossy \<Rightarrow> (rm_info r)\<lparr>ri_lossy_threshold := threshold\<rparr>
           | Reliable \<Rightarrow> (rm_info r)\<lparr>ri_reliable_threshold := threshold\<rparr>)\<rparr>)"

section \<open>The room task\<close>

definition on_engine_event :: "room_env \<Rightarrow> engine_event \<Rightarrow> room \<Rightarrow> room ran" where
  "on_engine_event env event r =
     (case event of
        EeParticipantUpdate updates \<Rightarrow> handle_participant_update updates r
      | EeMediaTrack track stream transceiver \<Rightarrow> handle_media_track track stream transceiver r
      | EeRoomUpdate room \<Rightarrow> Ran (handle_room_update room r)
      | EeRoomMoved moved \<Rightarrow> handle_room_moved env moved r
      | EeResuming \<Rightarrow> Ran (handle_resuming r)
      | EeResumed \<Rightarrow> Ran (handle_resumed r)
      | EeSignalResumed _ \<Rightarrow> Ran (handle_signal_resumed r)
      | EeRestarting \<Rightarrow> Ran (handle_restarting r)
      | EeRestarted \<Rightarrow> Ran (handle_restarted r)
      | EeSignalRestarted join_response \<Rightarrow> handle_signal_restarted join_response r
      | EeDisconnected reason \<Rightarrow> Ran (handle_disconnected reason r)
      | EeData sid identity payload topic kind \<Rightarrow> Ran (handle_data payload topic kind sid identity r)
      | EeChatMessage identity message \<Rightarrow> Ran (handle_chat_message identity message r)
      | EeTranscription identity track_sid segments \<Rightarrow> handle_transcription identity track_sid segments r
      | EeSipDTMF identity code digit \<Rightarrow> Ran (handle_dtmf code digit identity r)
      | EeRpcRequest caller i method payload timeout version \<Rightarrow>
          Ran (case caller of
                 None \<Rightarrow> r
               | Some caller_identity \<Rightarrow>
                   spawn_task (TaskRpcRequest caller_identity i method payload timeout version) r)
      | EeRpcResponse i payload error \<Rightarrow>
          Ran (r\<lparr>rm_rpc := handle_incoming_rpc_response i payload error (rm_rpc r)\<rparr>)
      | EeRpcAck i \<Rightarrow> Ran (r\<lparr>rm_rpc := handle_incoming_rpc_ack i (rm_rpc r)\<rparr>)
      | EeSpeakersChanged speakers \<Rightarrow> handle_speakers_changed speakers r
      | EeConnectionQuality updates \<Rightarrow> handle_connection_quality_update updates r
      | EeLocalTrackSubscribed sid \<Rightarrow> handle_track_subscribed sid r
      | EeDataStreamHeader header identity \<Rightarrow> Ran (handle_data_stream_header env header identity r)
      | EeDataStreamChunk chunk identity \<Rightarrow> Ran (handle_data_stream_chunk env chunk identity r)
      | EeDataStreamTrailer trailer identity \<Rightarrow> Ran (handle_data_stream_trailer env trailer identity r)
      | EeThresholdChanged kind threshold \<Rightarrow> Ran (handle_threshold_change kind threshold r)
      | EeRefreshToken url token \<Rightarrow> Ran (handle_refresh_token url token r))"

definition room_turn :: "room_env \<Rightarrow> engine_event \<Rightarrow> room \<Rightarrow> room" where
  "room_turn env event r = ran_state (on_engine_event env event r)"

section \<open>Connecting and closing\<close>

text \<open>\<open>Room::connect\<close> from the join response on; \<open>None\<close> is one of its unwraps.\<close>

definition add_initial_participant :: "proto_participant_info \<Rightarrow> room \<Rightarrow> room option" where
  "add_initial_participant pi r =
     (case participant_sid_try_from (ppi_sid pi) of
        Inl _ \<Rightarrow> None
      | Inr sid \<Rightarrow>
          (case create_participant (ppi_kind pi) sid (ppi_identity pi) (ppi_name pi) (ppi_metadata pi)
                  (ppi_attributes pi) r of
             (participant, r) \<Rightarrow>
               (case update_participant pi participant r of
                  Ran (p, r) \<Rightarrow> Some r
                | Panicked _ \<Rightarrow> None)))"

fun add_initial_participants :: "proto_participant_info list \<Rightarrow> room \<Rightarrow> room option" where
  "add_initial_participants [] r = Some r"
| "add_initial_participants (pi # pis) r =
     (case add_initial_participant pi r of
        None \<Rightarrow> None | Some r \<Rightarrow> add_initial_participants pis r)"

definition room_start :: "bool \<Rightarrow> proto_room \<Rightarrow> local_participant \<Rightarrow> room" where
  "room_start auto_subscribe room local_participant =
     \<lparr>rm_info = \<lparr>ri_sid = ok (room_sid_try_from (prm_sid room)), ri_name = prm_name room,
        ri_metadata = prm_metadata room, ri_state = Disconnected,
        ri_lossy_threshold = 2 * 1024 * 1024, ri_reliable_threshold = 2 * 1024 * 1024,
        ri_empty_timeout = prm_empty_timeout room, ri_departure_timeout = prm_departure_timeout room,
        ri_max_participants = prm_max_participants room, ri_creation_time = prm_creation_time room,
        ri_num_publishers = prm_num_publishers room, ri_num_participants = prm_num_participants room,
        ri_active_recording = prm_active_recording room\<rparr>,
      rm_auto_subscribe = auto_subscribe, rm_local = local_participant, rm_participants = [],
      rm_active_speakers = [], rm_incoming = incoming_new, rm_rpc = rpc_new, rm_sid_promise = None,
      rm_next_obj = 0, rm_has_handle = True, rm_spawned = [], rm_tokens = [], rm_outputs = []\<rparr>"

definition room_connect :: "join_response \<Rightarrow> bool \<Rightarrow> room option" where
  "room_connect join_response auto_subscribe =
     (case jr_participant join_response of
        None \<Rightarrow> None
      | Some pi \<Rightarrow>
          (case participant_sid_try_from (ppi_sid pi) of
             Inl _ \<Rightarrow> None
           | Inr sid \<Rightarrow>
               (case jr_room join_response of
                  None \<Rightarrow> None
                | Some room \<Rightarrow>
                    map_option
                      (\<lambda>r. snd (update_connection_state Connected
                         (room_out [Dispatch (ReConnected
                            (map (\<lambda>p. (rpt_obj p, hm_keys (rpt_publications p)))
                              (hm_values (rm_participants r))))] (r\<lparr>rm_outputs := []\<rparr>))))
                      (add_initial_participants (jr_other_participants join_response)
                        (room_start auto_subscribe room
                          (local_participant_new (participant_info_new sid (ppi_identity pi)
                            (ppi_name pi) (ppi_metadata pi) (ppi_attributes pi) (ppi_kind pi))))))))"

text \<open>
  \<open>RoomSession::close\<close>: only the first call does anything. \<open>removed\<close> gives the results of the
  session's \<open>remove_track\<close>; an unpublish that fails is ignored, one that panics ends the close.
\<close>

fun close_tracks :: "(track_sid \<Rightarrow> engine_error + unit) \<Rightarrow> track_sid list \<Rightarrow> room \<Rightarrow> room ran" where
  "close_tracks removed [] r = Ran r"
| "close_tracks removed (sid # sids) r =
     (case unpublish_track sid (removed sid) (rm_local r) of
        Panicked (_, l, outs) \<Rightarrow> Panicked (room_out outs (r\<lparr>rm_local := l\<rparr>))
      | Ran (_, l, outs) \<Rightarrow> close_tracks removed sids (room_out outs (r\<lparr>rm_local := l\<rparr>)))"

definition room_close ::
    "(track_sid \<Rightarrow> engine_error + unit) \<Rightarrow> room \<Rightarrow> ((room_error + unit) \<times> room) ran" where
  "room_close removed r =
     (if \<not> rm_has_handle r then Ran (Inl RoomAlreadyClosed, r)
      else map_ran (\<lambda>r. (Inr (), r))
        (close_tracks removed (hm_keys (lcp_publications (rm_local r))) (r\<lparr>rm_has_handle := False\<rparr>)))"

section \<open>Runs\<close>

text \<open>
  What can happen to a room, one step at a time: a turn of the room task, and the tasks and calls
  that change the room beside it.
\<close>

datatype (plugins only: code size) room_action =
    DoEvent room_env engine_event
  | DoMediaTask bool nat track_sid media_track nat
  | DoRestartedTask
  | DoRoomClose "track_sid \<Rightarrow> engine_error + unit"

fun room_step :: "room_action \<Rightarrow> room \<Rightarrow> room" where
  "room_step (DoEvent env event) r = room_turn env event r"
| "room_step (DoMediaTask found obj sid track transceiver) r =
     ran_state (run_media_track found obj sid track transceiver r)"
| "room_step DoRestartedTask r = restarted_done r"
| "room_step (DoRoomClose removed) r = snd (ran_state (room_close removed r))"

end
