(* ===== verification/Roster.thy ===== *)
theory Roster
  imports Room
begin

text \<open>
  The participants of a room: the invariant of their table, what the events of the room say of who
  comes and goes, and what an update of the server does to the table. A relation between the room
  before and after (\<open>told\<close>) holds for every handler, task and call that \<open>room_step\<close> knows, and by
  the interface \<open>related_by\<close> for every run.
\<close>

section \<open>The table of participants\<close>

definition room_objs :: "room \<Rightarrow> nat set" where
  "room_objs r = rpt_obj ` snd ` set (rm_participants r)"

text \<open>
  The table of participants: \<open>iof\<close> is the identity that the server gave a sid to. Every entry is filed
  under its identity, entries are different objects, and their publications are in order.
\<close>

definition entry_ok :: "(participant_sid \<Rightarrow> participant_identity) \<Rightarrow> nat \<Rightarrow>
    participant_identity \<times> remote_participant \<Rightarrow> bool" where
  "entry_ok iof next e \<longleftrightarrow> ptc_identity (rpt_info (snd e)) = fst e
     \<and> iof (ptc_sid (rpt_info (snd e))) = fst e \<and> rpt_obj (snd e) < next \<and> publications_wf (snd e)"

definition table_ok :: "(participant_sid \<Rightarrow> participant_identity) \<Rightarrow> room \<Rightarrow> bool" where
  "table_ok iof r \<longleftrightarrow> hm_wf (rm_participants r) \<and> distinct (map (rpt_obj \<circ> snd) (rm_participants r))
     \<and> list_all (entry_ok iof (rm_next_obj r)) (rm_participants r)"

text \<open>Who is in the room, told from the events.\<close>

fun roster_replay :: "nat set \<Rightarrow> room_output list \<Rightarrow> nat set option" where
  "roster_replay S [] = Some S"
| "roster_replay S (Dispatch (ReConnected participants) # outs) = roster_replay (fst ` set participants) outs"
| "roster_replay S (Dispatch (ReParticipantConnected n) # outs) =
     (if n \<in> S then None else roster_replay (insert n S) outs)"
| "roster_replay S (Dispatch (ReParticipantDisconnected n) # outs) =
     (if n \<in> S then roster_replay (S - {n}) outs else None)"
| "roster_replay S (_ # outs) = roster_replay S outs"

lemma roster_append:
  "roster_replay S (outs @ outs') =
     (case roster_replay S outs of None \<Rightarrow> None | Some S' \<Rightarrow> roster_replay S' outs')"
  by (induction S outs rule: roster_replay.induct) auto

lemma roster_quiet: "list_all quiet_output outs \<Longrightarrow> roster_replay S outs = Some S"
proof (induction outs)
  case (Cons out outs)
  then show ?case
    by (cases out; simp) (rename_tac ev, case_tac ev; simp)
qed simp

definition told :: "(participant_sid \<Rightarrow> participant_identity) \<Rightarrow> room \<Rightarrow> room \<Rightarrow> bool" where
  "told iof r r' \<longleftrightarrow> table_ok iof r' \<and> (\<exists>outs. rm_outputs r' = rm_outputs r @ outs
     \<and> roster_replay (room_objs r) outs = Some (room_objs r'))"

lemma told_refl: "table_ok iof r \<Longrightarrow> told iof r r"
  by (simp add: told_def)

lemma told_good: "told iof r r' \<Longrightarrow> table_ok iof r'"
  by (simp add: told_def)

lemma told_trans: "told iof r r' \<Longrightarrow> told iof r' r'' \<Longrightarrow> told iof r r''"
  by (auto simp: told_def roster_append)

lemma told_quiet:
  "table_ok iof r' \<Longrightarrow> room_objs r' = room_objs r \<Longrightarrow> rm_outputs r' = rm_outputs r @ outs \<Longrightarrow>
   list_all quiet_output outs \<Longrightarrow> told iof r r'"
  by (auto simp: told_def roster_quiet)

lemma told_same:
  "table_ok iof r \<Longrightarrow> rm_participants r' = rm_participants r \<Longrightarrow> rm_next_obj r' = rm_next_obj r \<Longrightarrow>
   rm_outputs r' = rm_outputs r @ outs \<Longrightarrow> list_all quiet_output outs \<Longrightarrow> told iof r r'"
  by (rule told_quiet) (auto simp: table_ok_def room_objs_def)

lemma room_out_fields [simp]:
  "rm_participants (room_out outs r) = rm_participants r"
  "rm_next_obj (room_out outs r) = rm_next_obj r"
  "rm_outputs (room_out outs r) = rm_outputs r @ outs"
  "rm_local (room_out outs r) = rm_local r"
  by (simp_all add: room_out_def)

lemma put_participant_fields [simp]:
  "rm_next_obj (put_participant p r) = rm_next_obj r"
  "rm_outputs (put_participant p r) = rm_outputs r"
  by (simp_all add: put_participant_def)

lemma room_out_table [simp]: "table_ok iof (room_out outs r) = table_ok iof r"
  "room_objs (room_out outs r) = room_objs r"
  by (simp_all add: table_ok_def room_objs_def)

lemma roster_okD:
  assumes "table_ok iof r" and "(k, p) \<in> set (rm_participants r)"
  shows "ptc_identity (rpt_info p) = k" and "iof (ptc_sid (rpt_info p)) = k"
    and "rpt_obj p < rm_next_obj r" and "publications_wf p"
  using assms by (auto simp: table_ok_def list_all_iff entry_ok_def)

lemma put_keeps_objs: "room_objs (put_participant p r) = room_objs r"
  unfolding room_objs_def put_participant_def by (force simp: image_iff)

lemma same_entry:
  assumes "table_ok iof r" and "(k, p) \<in> set (rm_participants r)" and "(k', q) \<in> set (rm_participants r)"
    and "rpt_obj q = rpt_obj p"
  shows "k' = k \<and> q = p"
proof -
  have "inj_on (rpt_obj \<circ> snd) (set (rm_participants r))"
    using assms(1) by (simp add: table_ok_def distinct_map)
  from inj_onD [OF this, of "(k', q)" "(k, p)"] assms show ?thesis by simp
qed

lemma same_key:
  "table_ok iof r \<Longrightarrow> (k, p) \<in> set (rm_participants r) \<Longrightarrow> (k, q) \<in> set (rm_participants r) \<Longrightarrow> q = p"
  by (metis hm_wf_lookup option.inject table_ok_def)

lemma set_delete [simp]:
  "set (AList.delete k m) = {e \<in> set m. fst e \<noteq> k}"
  by (auto simp: AList.delete_eq)

lemma table_ok_put:
  assumes ok: "table_ok iof r" and e: "(k, q) \<in> set (rm_participants r)"
    and p: "rpt_obj p = rpt_obj q" "ptc_identity (rpt_info p) = k" "iof (ptc_sid (rpt_info p)) = k"
      "publications_wf p"
  shows "table_ok iof (put_participant p r)"
    and "(k, p) \<in> set (rm_participants (put_participant p r))"
proof -
  let ?f = "\<lambda>(k, q). (k, if rpt_obj q = rpt_obj p then p else q)"
  have keys: "map fst (map ?f (rm_participants r)) = map fst (rm_participants r)"
    by (simp add: case_prod_beta')
  have objs: "map (rpt_obj \<circ> snd) (map ?f (rm_participants r)) = map (rpt_obj \<circ> snd) (rm_participants r)"
    by (auto simp: case_prod_beta')
  have inj: "k' = k" if "(k', q') \<in> set (rm_participants r)" "rpt_obj q' = rpt_obj p" for k' q'
    using same_entry [OF ok e that(1)] that(2) p(1) by simp
  have rp: "rm_participants (put_participant p r) = map ?f (rm_participants r)"
    by (simp add: put_participant_def)
  have entries: "entry_ok iof (rm_next_obj r) (?f e')" if "e' \<in> set (rm_participants r)" for e'
  proof -
    obtain k' q' where e': "e' = (k', q')" by (cases e')
    show ?thesis
    proof (cases "rpt_obj q' = rpt_obj p")
      case True
      with inj e' that have "k' = k" by blast
      with True p roster_okD(3) [OF ok e] e' show ?thesis by (simp add: entry_ok_def)
    next
      case False
      with that e' ok show ?thesis by (auto simp: table_ok_def list_all_iff)
    qed
  qed
  show "table_ok iof (put_participant p r)"
    unfolding table_ok_def hm_wf_def rp put_participant_fields keys objs
    using ok entries by (auto simp: table_ok_def hm_wf_def list_all_iff)
  show "(k, p) \<in> set (rm_participants (put_participant p r))"
    using e p(1) by (force simp: put_participant_def)
qed

lemma delete_entry:
  assumes ok: "table_ok iof r" and e: "(k, p) \<in> set (rm_participants r)"
  shows "table_ok iof (r\<lparr>rm_participants := AList.delete k (rm_participants r)\<rparr>)"
    and "room_objs (r\<lparr>rm_participants := AList.delete k (rm_participants r)\<rparr>) = room_objs r - {rpt_obj p}"
proof -
  have "distinct (map (rpt_obj \<circ> snd) (AList.delete k (rm_participants r)))"
    using ok by (simp add: table_ok_def AList.delete_eq distinct_map_filter)
  with ok show "table_ok iof (r\<lparr>rm_participants := AList.delete k (rm_participants r)\<rparr>)"
    by (simp add: table_ok_def hm.wf_remove list_all_iff)
  have other: "k' \<noteq> k \<longleftrightarrow> rpt_obj q \<noteq> rpt_obj p" if "(k', q) \<in> set (rm_participants r)" for k' q
    using same_entry [OF ok e that] same_key [OF ok e, of q] that by blast
  have "n \<in> room_objs (r\<lparr>rm_participants := AList.delete k (rm_participants r)\<rparr>) \<longleftrightarrow>
      n \<in> room_objs r - {rpt_obj p}" for n
  proof
    assume "n \<in> room_objs (r\<lparr>rm_participants := AList.delete k (rm_participants r)\<rparr>)"
    then obtain k' q where "(k', q) \<in> set (rm_participants r)" "k' \<noteq> k" "n = rpt_obj q"
      by (auto simp: room_objs_def)
    with other [of k' q] show "n \<in> room_objs r - {rpt_obj p}" by (force simp: room_objs_def)
  next
    assume "n \<in> room_objs r - {rpt_obj p}"
    then obtain k' q where "(k', q) \<in> set (rm_participants r)" "rpt_obj q \<noteq> rpt_obj p" "n = rpt_obj q"
      by (auto simp: room_objs_def)
    with other [of k' q] show "n \<in> room_objs (r\<lparr>rm_participants := AList.delete k (rm_participants r)\<rparr>)"
      by (force simp: room_objs_def)
  qed
  then show "room_objs (r\<lparr>rm_participants := AList.delete k (rm_participants r)\<rparr>) = room_objs r - {rpt_obj p}"
    by blast
qed

lemma unpublish_each_fold:
  "fold unpublish_each sids (p, outs) = (p', outs') \<Longrightarrow>
   \<exists>outs1. outs' = outs @ outs1 \<and> keeps_participant p p' outs1"
proof (induction sids arbitrary: p outs)
  case (Cons sid sids)
  obtain p1 o1 where u: "remote_unpublish_track sid p = (p1, o1)" by (cases "remote_unpublish_track sid p")
  then have "unpublish_each sid (p, outs) = (p1, outs @ o1)" by (simp add: unpublish_each_def)
  with Cons.prems have "fold unpublish_each sids (p1, outs @ o1) = (p', outs')" by simp
  from Cons.IH [OF this] unpublish_keeps [of p sid] u show ?case
    by (metis append.assoc fst_conv keeps_trans snd_conv)
qed (auto intro: exI [of _ "[]"])

lemma told_disconnect:
  assumes ok: "table_ok iof r" and e: "(k, p) \<in> set (rm_participants r)"
  shows "told iof r (handle_participant_disconnect p r)"
    and "room_objs (handle_participant_disconnect p r) = room_objs r - {rpt_obj p}"
    and "map_of (rm_participants (handle_participant_disconnect p r)) k = None"
    and "\<And>e'. e' \<in> set (rm_participants (handle_participant_disconnect p r)) \<Longrightarrow> e' \<in> set (rm_participants r)"
    and "rm_local (handle_participant_disconnect p r) = rm_local r"
proof -
  obtain p' outs where f: "fold unpublish_each (hm_keys (rpt_publications p)) (p, []) = (p', outs)"
    by (cases "fold unpublish_each (hm_keys (rpt_publications p)) (p, [])")
  then have kp: "keeps_participant p p' outs" using unpublish_each_fold [OF f] by simp
  let ?r = "put_participant p' r"
  note t = roster_okD [OF ok e]
  have p': "rpt_obj p' = rpt_obj p" "ptc_identity (rpt_info p') = k" "iof (ptc_sid (rpt_info p')) = k"
    "publications_wf p'" using kp t by (auto simp: keeps_participant_def)
  note put = table_ok_put [OF ok e p'] and objs = put_keeps_objs [of p' r]
  let ?r' = "?r\<lparr>rm_participants := AList.delete k (rm_participants ?r)\<rparr>"
  let ?out = "outs @ [Dispatch (ReParticipantDisconnected (rpt_obj p))]"
  have d: "handle_participant_disconnect p r = room_out ?out ?r'"
    using f p'(1,2) by (simp add: handle_participant_disconnect_def Let_def)
  note del = delete_entry [OF put]
  have mem: "rpt_obj p \<in> room_objs r" using e by (force simp: room_objs_def)
  have replay: "roster_replay (room_objs r) ?out = Some (room_objs r - {rpt_obj p})"
    using kp mem by (simp add: roster_append roster_quiet keeps_participant_def)
  show "told iof r (handle_participant_disconnect p r)"
    unfolding told_def d using del p'(1) objs replay by (simp del: roster_replay.simps)
  show "room_objs (handle_participant_disconnect p r) = room_objs r - {rpt_obj p}"
    unfolding d using del(2) p'(1) objs by simp
  show "map_of (rm_participants (handle_participant_disconnect p r)) k = None"
    unfolding d by (simp add: hm_simps)
  show "rm_local (handle_participant_disconnect p r) = rm_local r"
    unfolding d by (simp add: put_participant_def)
  fix e' assume "e' \<in> set (rm_participants (handle_participant_disconnect p r))"
  then have "e' \<in> set (rm_participants ?r) \<and> fst e' \<noteq> k"
    unfolding d by simp
  then obtain k' q where e': "e' = (k', q)" "k' \<noteq> k" "(k', q) \<in> set (rm_participants ?r)"
    by (metis prod.collapse)
  then obtain q0 where q0: "(k', q0) \<in> set (rm_participants r)"
    "q = (if rpt_obj q0 = rpt_obj p' then p' else q0)" by (auto simp: put_participant_def)
  have "rpt_obj q0 \<noteq> rpt_obj p"
    using same_entry [OF ok e q0(1)] e'(2) by blast
  with q0 e' p'(1) show "e' \<in> set (rm_participants r)" by simp
qed

text \<open>\<open>update_info\<close> of a participant of the room, whether it panics or not.\<close>

lemma told_update:
  assumes ok: "table_ok iof r" and e: "(k, p) \<in> set (rm_participants r)"
    and sid: "participant_sid_try_from (ppi_sid pi) = Inr sid" and iof: "iof sid = k" "ppi_identity pi = k"
    and u: "ran_state (update_participant pi p r) = (p', r')"
  shows "told iof r r'" and "(k, p') \<in> set (rm_participants r')" and "room_objs r' = room_objs r"
proof -
  obtain q outs where q: "ran_state (remote_participant_update_info pi p) = (q, outs)"
    by (cases "ran_state (remote_participant_update_info pi p)")
  from u q have p': "p' = q" "r' = room_out outs (put_participant q r)"
    by (auto simp: update_participant_def)
  note t = roster_okD [OF ok e]
  from remote_update_keeps [OF q sid] t iof have k: "rpt_obj q = rpt_obj p" "ptc_identity (rpt_info q) = k"
    "iof (ptc_sid (rpt_info q)) = k" "publications_wf q" "list_all quiet_output outs" by auto
  note put = table_ok_put [OF ok e k(1,2,3,4)]
  show "told iof r r'"
    using put(1) k(5) p' by (intro told_quiet [of _ _ _ outs]) (auto simp: put_keeps_objs)
  show "(k, p') \<in> set (rm_participants r')" using put(2) p' by simp
  show "room_objs r' = room_objs r" using p' by (simp add: put_keeps_objs)
qed

lemma get_by_sidD:
  assumes "get_participant_by_sid sid r = Some p" and "table_ok iof r"
  shows "(iof sid, p) \<in> set (rm_participants r)" and "ptc_sid (rpt_info p) = sid"
proof -
  from assms(1) have p: "p \<in> snd ` set (rm_participants r)" "ptc_sid (rpt_info p) = sid"
    by (auto simp: get_participant_by_sid_def find_Some_iff hm_values_def)
  then obtain k where "(k, p) \<in> set (rm_participants r)" by auto
  with roster_okD(2) [OF assms(2) this] p(2) show "(iof sid, p) \<in> set (rm_participants r)"
    and "ptc_sid (rpt_info p) = sid" by auto
qed

lemma get_by_sid_None:
  "get_participant_by_sid sid r = None \<Longrightarrow> (k, p) \<in> set (rm_participants r) \<Longrightarrow> ptc_sid (rpt_info p) \<noteq> sid"
  by (auto simp: get_participant_by_sid_def find_None_iff hm_values_def)

lemma set_alist_update: "set (AList.update k v m) \<subseteq> {(k, v)} \<union> set m"
  by (induction m) auto

lemma set_alist_update_new: "map_of m k = None \<Longrightarrow> set (AList.update k v m) = {(k, v)} \<union> set m"
  by (induction m) (auto split: if_splits)

lemma distinct_alist_update:
  "distinct (map (g \<circ> snd) m) \<Longrightarrow> g v \<notin> g ` snd ` set m \<Longrightarrow>
   distinct (map (g \<circ> snd) (AList.update k v m))"
proof (induction m)
  case (Cons e m)
  have "g ` snd ` set (AList.update k v m) \<subseteq> {g v} \<union> g ` snd ` set m"
    using set_alist_update [of k v m] by force
  moreover have "g (snd e) \<notin> {g v} \<union> g ` snd ` set m"
    using Cons.prems by (auto simp: image_image)
  ultimately have "g (snd e) \<notin> g ` snd ` set (AList.update k v m)" by blast
  with Cons show ?case by (cases e) auto
qed simp

lemma told_create:
  assumes ok: "table_ok iof r" and sid: "iof sid = identity"
    and c: "create_participant kind sid identity name metadata attributes r = (p, r')"
  shows "table_ok iof r'" and "(identity, p) \<in> set (rm_participants r')"
    and "map_of (rm_participants r) identity = None \<Longrightarrow>
      room_objs r' = {rpt_obj p} \<union> room_objs r \<and> rpt_obj p \<notin> room_objs r"
    and "rm_outputs r' = rm_outputs r"
proof -
  let ?m = "AList.update identity p (rm_participants r)"
  have r': "r' = r\<lparr>rm_participants := ?m, rm_next_obj := Suc (rm_next_obj r)\<rparr>"
    and p: "rpt_obj p = rm_next_obj r" "ptc_sid (rpt_info p) = sid" "ptc_identity (rpt_info p) = identity"
      "rpt_publications p = []"
    using c by (auto simp: create_participant_def Let_def participant_info_new_def)
  have new: "rpt_obj p \<notin> room_objs r"
    using roster_okD(3) [OF ok] p(1) by (fastforce simp: room_objs_def)
  have entry: "entry_ok iof (Suc (rm_next_obj r)) (identity, p)"
    using p sid by (simp add: entry_ok_def publications_wf_def)
  have older: "entry_ok iof (Suc (rm_next_obj r)) e" if "e \<in> set (rm_participants r)" for e
    using ok that by (auto simp: table_ok_def list_all_iff entry_ok_def less_Suc_eq)
  have "distinct (map (rpt_obj \<circ> snd) ?m)"
    using ok new by (intro distinct_alist_update) (simp_all add: table_ok_def room_objs_def)
  moreover have "list_all (entry_ok iof (Suc (rm_next_obj r))) ?m"
    using entry older set_alist_update [of identity p "rm_participants r"] by (auto simp: list_all_iff)
  ultimately show "table_ok iof r'"
    using ok r' by (simp add: table_ok_def hm.wf_insert)
  have "map_of ?m identity = Some p" by (simp add: hm_simps)
  then show "(identity, p) \<in> set (rm_participants r')" using r' by (simp add: map_of_SomeD)
  show "rm_outputs r' = rm_outputs r" using r' by simp
  assume "map_of (rm_participants r) identity = None"
  then show "room_objs r' = {rpt_obj p} \<union> room_objs r \<and> rpt_obj p \<notin> room_objs r"
    using new r' by (simp add: room_objs_def set_alist_update_new)
qed

text \<open>The three things \<open>update_remote\<close> can do once a participant that came back under a new sid is gone.\<close>

lemma told_known:
  assumes ok: "table_ok iof r" and p: "get_participant_by_sid sid r = Some p"
    and sid: "participant_sid_try_from (ppi_sid pi) = Inr sid" and iof: "iof sid = ppi_identity pi"
  shows "told iof r (fst (ran_state
     (if ppi_state pi = STATE_DISCONNECTED then
        (case update_participant pi p r of
           Ran (p, r) \<Rightarrow> Ran (handle_participant_disconnect p r, participants)
         | Panicked (p, r) \<Rightarrow> Panicked (r, participants))
      else map_ran (\<lambda>(p, r). (r, participants @ [RemoteRef (rpt_obj p)])) (update_participant pi p r))))"
proof -
  obtain p' r' where u: "ran_state (update_participant pi p r) = (p', r')"
    by (cases "ran_state (update_participant pi p r)")
  note e = get_by_sidD(1) [OF p ok, unfolded iof]
  note t = told_update [OF ok e sid iof refl u]
  have "table_ok iof r'" using t(1) by (simp add: told_def)
  note d = told_disconnect(1) [OF this t(2)]
  show ?thesis
  proof (cases "update_participant pi p r")
    case (Ran s)
    with u t(1) told_trans [OF t(1) d] show ?thesis by simp
  next
    case (Panicked s)
    with u t(1) show ?thesis by simp
  qed
qed

lemma told_new:
  assumes ok: "table_ok iof r" and none: "map_of (rm_participants r) (ppi_identity pi) = None"
    and sid: "participant_sid_try_from (ppi_sid pi) = Inr sid" and iof: "iof sid = ppi_identity pi"
    and c: "create_participant kind sid (ppi_identity pi) name metadata attributes r = (p, r1)"
  shows "told iof r (snd (ran_state (update_participant pi p
     (dispatch (ReParticipantConnected (rpt_obj p)) r1))))"
proof -
  note t = told_create [OF ok iof c]
  let ?r = "dispatch (ReParticipantConnected (rpt_obj p)) r1"
  have "table_ok iof ?r" and e: "(ppi_identity pi, p) \<in> set (rm_participants ?r)"
    using t(1,2) by (simp_all add: dispatch_def)
  moreover have "told iof r ?r"
    unfolding told_def using t(1,4) t(3) [OF none]
    by (intro conjI exI [of _ "[Dispatch (ReParticipantConnected (rpt_obj p))]"]) (simp_all add: dispatch_def)
  moreover obtain p' r' where u: "ran_state (update_participant pi p ?r) = (p', r')"
    by (cases "ran_state (update_participant pi p ?r)")
  ultimately show ?thesis
    using told_trans told_update(1) [of iof ?r "ppi_identity pi" p pi sid p' r'] sid iof u
    by (metis snd_conv)
qed

lemma told_update_remote:
  assumes ok: "table_ok iof r" and sid: "participant_sid_try_from (ppi_sid pi) = Inr sid"
    and iof: "iof sid = ppi_identity pi"
  shows "told iof r (fst (ran_state (update_remote pi sid (r, participants))))"
proof -
  let ?k = "ppi_identity pi"
  define r1 where "r1 = (case get_participant_by_identity ?k r of
      Some q \<Rightarrow> if ptc_sid (rpt_info q) \<noteq> sid then handle_participant_disconnect q r else r
    | None \<Rightarrow> r)"
  have r1: "told iof r r1 \<and> (\<forall>q. map_of (rm_participants r1) ?k = Some q \<longrightarrow> ptc_sid (rpt_info q) = sid)"
  proof (cases "map_of (rm_participants r) ?k")
    case None
    then show ?thesis using ok by (simp add: r1_def get_participant_by_identity_def told_refl)
  next
    case (Some q)
    then have e: "(?k, q) \<in> set (rm_participants r)" by (rule map_of_SomeD)
    show ?thesis
      using Some told_disconnect(1,3) [OF ok e] told_refl [OF ok]
      by (simp add: r1_def get_participant_by_identity_def)
  qed
  then have ok1: "table_ok iof r1" by (simp add: told_def)
  show ?thesis
  proof (cases "get_participant_by_sid sid r1")
    case (Some p)
    with told_trans [OF conjunct1 [OF r1] told_known [OF ok1 Some sid iof, of participants]]
    show ?thesis
      by (cases "ppi_state pi = STATE_DISCONNECTED")
        (simp_all add: update_remote_def r1_def [symmetric] Let_def)
  next
    case None
    have none: "map_of (rm_participants r1) ?k = None"
    proof (rule ccontr)
      assume "map_of (rm_participants r1) ?k \<noteq> None"
      then obtain q where "map_of (rm_participants r1) ?k = Some q" by auto
      with r1 get_by_sid_None [OF None map_of_SomeD] show False by blast
    qed
    obtain p r2 where c: "create_participant (ppi_kind pi) sid ?k (ppi_name pi) (ppi_metadata pi)
        (ppi_attributes pi) r1 = (p, r2)"
      by (cases "create_participant (ppi_kind pi) sid ?k (ppi_name pi) (ppi_metadata pi)
        (ppi_attributes pi) r1")
    from None r1 c told_trans [OF conjunct1 [OF r1] told_new [OF ok1 none sid iof c]] show ?thesis
      by (simp add: update_remote_def r1_def [symmetric] Let_def, simp add: case_prod_beta')
  qed
qed

lemma update_local_frame:
  assumes "ran_state (update_local pi r) = r'"
  shows "\<exists>outs. rm_participants r' = rm_participants r \<and> rm_next_obj r' = rm_next_obj r
    \<and> rm_outputs r' = rm_outputs r @ outs \<and> list_all quiet_output outs"
proof -
  have "list_all quiet_output (snd (ran_state (participant_update_info LocalRef pi (lcp_info (rm_local r)))))"
    by (auto simp: participant_update_info_def Let_def split: sum.splits)
  with assms show ?thesis
    by (auto simp: update_local_def local_update_info_def case_prod_beta')
qed

lemma told_update_local: "table_ok iof r \<Longrightarrow> told iof r (ran_state (update_local pi r))"
  using update_local_frame [OF refl] told_same by metis

text \<open>The updates the server sends name every participant by the identity its sid was given to.\<close>

definition names_ok :: "(participant_sid \<Rightarrow> participant_identity) \<Rightarrow> proto_participant_info \<Rightarrow> bool" where
  "names_ok iof pi \<longleftrightarrow> iof (ppi_sid pi) = ppi_identity pi"

lemma sid_try_from: "participant_sid_try_from s = Inr sid \<Longrightarrow> sid = s"
  by (auto simp: participant_sid_try_from_def try_from_prefix_def split: if_splits)

lemma told_update_one:
  assumes ok: "table_ok iof r" and n: "names_ok iof pi"
  shows "told iof r (fst (ran_state (update_one pi (r, participants))))"
proof (cases "participant_sid_try_from (ppi_sid pi)")
  case (Inl e)
  then show ?thesis by (simp add: update_one_def told_refl [OF ok])
next
  case (Inr sid)
  with n have "iof sid = ppi_identity pi" by (auto simp: names_ok_def dest: sid_try_from)
  with Inr told_update_remote [OF ok] told_update_local [OF ok, of pi] show ?thesis
    by (simp add: update_one_def)
qed

lemma told_updates:
  assumes "table_ok iof r" and "list_all (names_ok iof) pis"
  shows "told iof r (fst (ran_state (ran_fold update_one pis (r, participants))))"
  using assms
proof (induction pis arbitrary: r participants)
  case Nil
  then show ?case by (simp add: told_refl)
next
  case (Cons pi pis)
  from Cons.prems have t: "told iof r (fst (ran_state (update_one pi (r, participants))))"
    by (intro told_update_one) simp_all
  show ?case
  proof (cases "update_one pi (r, participants)")
    case (Ran s)
    obtain r1 ps where s: "s = (r1, ps)" by (cases s)
    with t Ran have t1: "told iof r r1" by simp
    then have "table_ok iof r1" by (simp add: told_def)
    from told_trans [OF t1 Cons.IH [OF this]] Cons.prems(2) Ran s show ?thesis by simp
  next
    case (Panicked s)
    with t show ?thesis by simp
  qed
qed

lemma told_dispatch:
  assumes t: "told iof r r'" and q: "list_all quiet_output outs"
  shows "told iof r (room_out outs r')"
proof -
  have "table_ok iof r'" using t by (simp add: told_def)
  from told_same [OF this, of "room_out outs r'" outs] q have "told iof r' (room_out outs r')" by simp
  with t show ?thesis by (rule told_trans)
qed

lemma told_participant_update:
  assumes "table_ok iof r" and "list_all (names_ok iof) pis"
  shows "told iof r (ran_state (handle_participant_update pis r))"
proof -
  obtain r1 ps where s: "ran_state (ran_fold update_one pis (r, [])) = (r1, ps)"
    by (cases "ran_state (ran_fold update_one pis (r, []))")
  with told_updates [OF assms, of "[]"] have "told iof r r1" by simp
  with s told_dispatch show ?thesis
    by (cases "ran_fold update_one pis (r, [])") (auto simp: handle_participant_update_def dispatch_def)
qed

lemma disconnect_others:
  assumes ok: "table_ok iof r" and e: "(k, p) \<in> set (rm_participants r)"
    and q: "(k', q) \<in> set (rm_participants r)" "rpt_obj q \<noteq> rpt_obj p"
  shows "(k', q) \<in> set (rm_participants (handle_participant_disconnect p r))"
proof -
  have "rpt_obj q \<in> room_objs (handle_participant_disconnect p r)"
    using told_disconnect(2) [OF ok e] q by (force simp: room_objs_def)
  then obtain k'' q' where q': "(k'', q') \<in> set (rm_participants (handle_participant_disconnect p r))"
    "rpt_obj q' = rpt_obj q" by (auto simp: room_objs_def)
  from same_entry [OF ok q(1) told_disconnect(4) [OF ok e q'(1)] q'(2)] q'(1) show ?thesis by simp
qed

lemma told_disconnect_all:
  assumes "table_ok iof r" and "\<forall>p \<in> set ps. \<exists>k. (k, p) \<in> set (rm_participants r)"
    and "distinct (map rpt_obj ps)"
  shows "told iof r (fold handle_participant_disconnect ps r)
    \<and> room_objs (fold handle_participant_disconnect ps r) = room_objs r - rpt_obj ` set ps
    \<and> rm_local (fold handle_participant_disconnect ps r) = rm_local r"
  using assms
proof (induction ps arbitrary: r)
  case Nil
  then show ?case by (simp add: told_refl)
next
  case (Cons p ps)
  from Cons.prems(2) obtain k where e: "(k, p) \<in> set (rm_participants r)" by auto
  let ?r = "handle_participant_disconnect p r"
  note d = told_disconnect [OF Cons.prems(1) e]
  have "\<forall>q \<in> set ps. \<exists>k. (k, q) \<in> set (rm_participants ?r)"
  proof
    fix q assume q: "q \<in> set ps"
    with Cons.prems(2) obtain k' where "(k', q) \<in> set (rm_participants r)" by auto
    moreover have "rpt_obj q \<noteq> rpt_obj p" using Cons.prems(3) q
      by (metis distinct.simps(2) image_eqI list.set_map list.simps(9))
    ultimately show "\<exists>k. (k, q) \<in> set (rm_participants ?r)"
      using disconnect_others [OF Cons.prems(1) e] by blast
  qed
  moreover have "table_ok iof ?r" using d(1) by (simp add: told_def)
  ultimately have "told iof ?r (fold handle_participant_disconnect ps ?r)
     \<and> room_objs (fold handle_participant_disconnect ps ?r) = room_objs ?r - rpt_obj ` set ps
     \<and> rm_local (fold handle_participant_disconnect ps ?r) = rm_local ?r"
    using Cons.IH Cons.prems(3) by simp
  with told_trans [OF d(1)] d(2,5) show ?case by auto
qed

lemma told_modify:
  assumes ok: "table_ok iof r" and f: "\<And>i. ptc_sid (f i) = ptc_sid i \<and> ptc_identity (f i) = ptc_identity i"
  shows "told iof r (modify_info f ref r)"
proof (cases ref)
  case LocalRef
  with ok show ?thesis by (intro told_same [of _ _ _ "[]"]) (simp_all add: modify_info_def)
next
  case (RemoteRef obj)
  let ?g = "\<lambda>q. if rpt_obj q = obj then q\<lparr>rpt_info := f (rpt_info q)\<rparr> else q"
  let ?m = "map (\<lambda>(k, q). (k, ?g q)) (rm_participants r)"
  have m: "rm_participants (modify_info f ref r) = ?m" "rm_next_obj (modify_info f ref r) = rm_next_obj r"
    "rm_outputs (modify_info f ref r) = rm_outputs r"
    using RemoteRef by (simp_all add: modify_info_def)
  have g: "rpt_obj (?g q) = rpt_obj q" "entry_ok iof n (k, ?g q) = entry_ok iof n (k, q)" for q n k
    using f by (auto simp: entry_ok_def publications_wf_def)
  have maps: "map fst ?m = map fst (rm_participants r)"
    "map (rpt_obj \<circ> snd) ?m = map (rpt_obj \<circ> snd) (rm_participants r)"
    using g(1) by (auto simp: case_prod_beta')
  have "list_all (entry_ok iof (rm_next_obj r)) ?m"
    using ok g(2) by (auto simp: table_ok_def list_all_iff)
  then have "table_ok iof (modify_info f ref r)"
    unfolding table_ok_def hm_wf_def m maps using ok by (simp add: table_ok_def hm_wf_def)
  moreover have "room_objs (modify_info f ref r) = room_objs r"
    unfolding room_objs_def m using g(1) by (force simp: image_iff)
  ultimately show ?thesis
    using m(3) by (intro told_quiet [of _ _ _ "[]"]) simp_all
qed

lemma told_speakers_fold:
  "table_ok iof r \<Longrightarrow> told iof r (fst (ran_state (ran_fold update_speaker infos (r, speakers))))"
proof (induction infos arbitrary: r speakers)
  case Nil
  then show ?case by (simp add: told_refl)
next
  case (Cons info infos)
  show ?case
  proof (cases "update_speaker info (r, speakers)")
    case (Panicked s)
    with Cons.prems show ?thesis
      by (auto simp: update_speaker_def Let_def told_refl split: sum.splits option.splits)
  next
    case (Ran s)
    obtain r1 sp where s: "s = (r1, sp)" by (cases s)
    with Ran have "r1 = r \<or> (\<exists>ref. r1 = modify_info (\<lambda>i. i\<lparr>ptc_speaking := spk_active info,
        ptc_audio_level := spk_level info\<rparr>) ref r)"
      by (auto simp: update_speaker_def Let_def split: sum.splits option.splits)
    with Cons.prems have t: "told iof r r1" by (auto intro: told_modify told_refl)
    then have "table_ok iof r1" by (simp add: told_def)
    from told_trans [OF t Cons.IH [OF this, of sp]] Ran s show ?thesis by simp
  qed
qed

lemma told_speakers:
  assumes "table_ok iof r"
  shows "told iof r (ran_state (handle_speakers_changed infos r))"
proof -
  obtain r1 sp where s: "ran_state (ran_fold update_speaker infos (r, [])) = (r1, sp)"
    by (cases "ran_state (ran_fold update_speaker infos (r, []))")
  with told_speakers_fold [OF assms, of infos "[]"] have t: "told iof r r1" by simp
  then have ok: "table_ok iof r1" by (simp add: told_def)
  have "told iof r (r1\<lparr>rm_active_speakers := x\<rparr>)" for x
    by (rule told_trans [OF t told_same [OF ok, of _ "[]"]]) simp_all
  with s t show ?thesis
    by (cases "ran_fold update_speaker infos (r, [])")
      (auto simp: handle_speakers_changed_def dispatch_def intro: told_dispatch split: option.splits)
qed

lemma told_quality:
  "table_ok iof r \<Longrightarrow> told iof r (ran_state (handle_connection_quality_update updates r))"
proof (induction updates arbitrary: r)
  case Nil
  then show ?case by (simp add: handle_connection_quality_update_def told_refl)
next
  case (Cons u us)
  have t: "told iof r (ran_state (update_quality u r))"
    using Cons.prems by (auto simp: update_quality_def dispatch_def told_refl
      intro!: told_dispatch told_modify split: sum.splits option.splits)
  show ?case
  proof (cases "update_quality u r")
    case (Ran r1)
    with t have t1: "told iof r r1" by simp
    then have "table_ok iof r1" by (simp add: told_def)
    from told_trans [OF t1 Cons.IH [OF this]] Ran show ?thesis
      by (simp add: handle_connection_quality_update_def)
  next
    case (Panicked r1)
    with t show ?thesis by (simp add: handle_connection_quality_update_def)
  qed
qed

text \<open>The events of the engine.\<close>

fun event_participants :: "engine_event \<Rightarrow> proto_participant_info list" where
  "event_participants (EeParticipantUpdate updates) = updates"
| "event_participants (EeRoomMoved moved) = rmr_other_participants moved"
| "event_participants (EeSignalRestarted join_response) = jr_other_participants join_response"
| "event_participants _ = []"

lemma told_bind:
  assumes t: "told iof r (ran_state x)" and f: "\<And>r'. table_ok iof r' \<Longrightarrow> told iof r' (ran_state (f r'))"
  shows "told iof r (ran_state (ran_bind x f))"
proof (cases x)
  case (Ran r')
  with t have t': "told iof r r'" by simp
  then have "table_ok iof r'" by (simp add: told_def)
  from told_trans [OF t' f [OF this]] Ran show ?thesis by simp
next
  case (Panicked r')
  with t show ?thesis by simp
qed

lemma room_update_outs:
  "\<exists>outs. rm_outputs (handle_room_update room r) = rm_outputs r @ outs \<and> list_all quiet_output outs"
  by (simp add: handle_room_update_def Let_def)

lemma told_room_update: "table_ok iof r \<Longrightarrow> told iof r (handle_room_update room r)"
  using room_update_outs [of room r]
  by (auto intro!: told_same simp: handle_room_update_def Let_def)

lemma told_connection_state:
  "table_ok iof r \<Longrightarrow> told iof r (snd (update_connection_state state r))"
  by (auto simp: update_connection_state_def dispatch_def told_refl
      intro!: told_same [of _ _ _ "[Dispatch (ReConnectionStateChanged state)]"])

lemma told_reconnecting:
  assumes "told iof r r1"
  shows "told iof r (case update_connection_state state r1 of
    (changed, r2) \<Rightarrow> if changed then dispatch ReReconnecting r2 else r2)"
proof -
  obtain c r2 where u: "update_connection_state state r1 = (c, r2)"
    by (cases "update_connection_state state r1")
  have "table_ok iof r1" using assms by (simp add: told_def)
  from told_trans [OF assms told_connection_state [OF this, of state]] u show ?thesis
    by (auto simp: dispatch_def intro: told_dispatch)
qed

lemma entry_of_value: "p \<in> set (hm_values m) \<Longrightarrow> \<exists>k. (k, p) \<in> set m"
  by (auto simp: hm_values_def)

lemma table_values_distinct: "table_ok iof r \<Longrightarrow> distinct (map rpt_obj (hm_values (rm_participants r)))"
  by (simp add: table_ok_def hm_values_def comp_def)

lemma told_restarting:
  assumes "table_ok iof r"
  shows "told iof r (handle_restarting r)"
    and "rm_participants (handle_restarting r) = []"
proof -
  let ?r = "fold handle_participant_disconnect (hm_values (rm_participants r)) r"
  have "\<forall>p \<in> set (hm_values (rm_participants r)). \<exists>k. (k, p) \<in> set (rm_participants r)"
    by (simp add: entry_of_value)
  from told_disconnect_all [OF assms this table_values_distinct [OF assms]]
  have t: "told iof r ?r" and objs: "room_objs ?r = {}"
    by (simp_all add: room_objs_def [of r] hm_values_def image_image)
  show "told iof r (handle_restarting r)"
    unfolding handle_restarting_def Let_def by (rule told_reconnecting [OF t])
  have "rm_participants ?r = []" using objs by (simp add: room_objs_def)
  then show "rm_participants (handle_restarting r) = []"
    by (auto simp: handle_restarting_def Let_def update_connection_state_def dispatch_def
        split: prod.splits)
qed

lemma told_room_moved:
  assumes ok: "table_ok iof r" and n: "list_all (names_ok iof) (rmr_other_participants moved)"
  shows "told iof r (ran_state (handle_room_moved env moved r))"
proof -
  let ?r = "handle_refresh_token (ren_url env) (rmr_token moved) r"
  have t: "told iof r ?r"
    using ok by (intro told_same [of _ _ _ "[]"]) (simp_all add: handle_refresh_token_def)
  then have ok': "table_ok iof ?r" by (simp add: told_def)
  have rest: "told iof r' (ran_state (ran_bind (handle_participant_update (rmr_other_participants moved) r')
      (\<lambda>r. let r = (case rmr_room moved of None \<Rightarrow> r | Some room \<Rightarrow> handle_room_update room r)
        in Ran (dispatch (ReMoved (rm_info r)) r))))" if "table_ok iof r'" for r'
    by (rule told_bind [OF told_participant_update [OF that n]])
      (auto simp: dispatch_def Let_def told_refl told_room_update intro!: told_dispatch split: option.splits)
  have first: "told iof ?r (ran_state (case rmr_participant moved of None \<Rightarrow> Ran ?r
      | Some local_participant \<Rightarrow> ran_bind (update_local local_participant ?r)
          (\<lambda>r. Ran (dispatch (ReParticipantsUpdated [LocalRef]) r))))"
    using ok' by (auto simp: dispatch_def told_refl
        intro!: told_bind [OF told_update_local] told_dispatch split: option.splits)
  from told_trans [OF t told_bind [OF first rest]] show ?thesis
    by (simp add: handle_room_moved_def Let_def)
qed

lemma told_signal_restarted:
  assumes ok: "table_ok iof r" and n: "list_all (names_ok iof) (jr_other_participants jr)"
  shows "told iof r (ran_state (handle_signal_restarted jr r))"
proof (cases "jr_participant jr")
  case None
  with ok show ?thesis by (simp add: handle_signal_restarted_def told_refl)
next
  case (Some participant)
  let ?f = "\<lambda>r. case jr_room jr of None \<Rightarrow> Panicked r | Some room \<Rightarrow> Ran (handle_room_update room r)"
  have last: "told iof r' (ran_state (?f r'))" if "table_ok iof r'" for r'
    using told_refl [OF that] told_room_update [OF that] by (cases "jr_room jr") auto
  have rest: "told iof r' (ran_state (ran_bind (handle_participant_update (jr_other_participants jr) r') ?f))"
    if "table_ok iof r'" for r'
    by (rule told_bind [OF told_participant_update [OF that n] last])
  have "handle_signal_restarted jr r = ran_bind (update_local participant r)
      (\<lambda>r. ran_bind (handle_participant_update (jr_other_participants jr) r) ?f)"
    using Some by (simp add: handle_signal_restarted_def)
  then show ?thesis using told_bind [OF told_update_local [OF ok] rest] by simp
qed

lemma told_media_track:
  assumes ok: "table_ok iof r"
  shows "told iof r (ran_state (run_media_track found obj sid mt transceiver r))"
proof (cases "find (\<lambda>p. rpt_obj p = obj) (hm_values (rm_participants r))")
  case None
  with ok show ?thesis
    by (auto simp: run_media_track_def dispatch_def intro: told_dispatch told_refl)
next
  case (Some p)
  then have "p \<in> set (hm_values (rm_participants r))" by (auto simp: find_Some_iff)
  from entry_of_value [OF this] obtain k where e: "(k, p) \<in> set (rm_participants r)" ..
  obtain q outs where q: "ran_state (add_subscribed_media_track found sid mt transceiver p) = (q, outs)"
    by (cases "ran_state (add_subscribed_media_track found sid mt transceiver p)")
  then have k: "keeps_participant p q outs" using add_track_keeps [of p found sid mt transceiver] by simp
  note t = roster_okD [OF ok e]
  have q': "rpt_obj q = rpt_obj p" "ptc_identity (rpt_info q) = k" "iof (ptc_sid (rpt_info q)) = k"
    "publications_wf q" "list_all quiet_output outs" using k t by (auto simp: keeps_participant_def)
  have "told iof r (room_out outs (put_participant q r))"
    using table_ok_put(1) [OF ok e q'(1-4)] q'(5)
    by (intro told_quiet [of _ _ _ outs]) (auto simp: put_keeps_objs)
  with Some q show ?thesis by (simp add: run_media_track_def)
qed

text \<open>The handlers that only dispatch, spawn or change other parts of the room.\<close>

definition keeps_roster :: "room \<Rightarrow> room \<Rightarrow> bool" where
  "keeps_roster r r' \<longleftrightarrow> rm_participants r' = rm_participants r \<and> rm_next_obj r' = rm_next_obj r
     \<and> (\<exists>outs. rm_outputs r' = rm_outputs r @ outs \<and> list_all quiet_output outs)"

lemma told_keeps: "table_ok iof r \<Longrightarrow> keeps_roster r r' \<Longrightarrow> told iof r r'"
  by (auto simp: keeps_roster_def intro: told_same)

lemma keeps_roster_refl [simp]: "keeps_roster r r"
  by (simp add: keeps_roster_def)

lemma keeps_roster_quiet:
  "keeps_roster r (spawn_task task r)"
  "quiet_output (Dispatch ev) \<Longrightarrow> keeps_roster r (dispatch ev r)"
  "keeps_roster r (snd (update_connection_state state r))"
  "keeps_roster r (handle_refresh_token url token r)"
  by (auto simp: keeps_roster_def spawn_task_def dispatch_def handle_refresh_token_def
      update_connection_state_def)

lemma keeps_roster_trans: "keeps_roster r r' \<Longrightarrow> keeps_roster r' r'' \<Longrightarrow> keeps_roster r r''"
  by (auto simp: keeps_roster_def)

lemma keeps_roster_handlers:
  "keeps_roster r (handle_data payload topic kind sid identity r)"
  "keeps_roster r (handle_chat_message who message r)"
  "keeps_roster r (handle_dtmf code digit identity r)"
  "keeps_roster r (ran_state (handle_transcription who track_sid segments r))"
  "keeps_roster r (ran_state (handle_track_subscribed track_sid r))"
  "keeps_roster r (ran_state (handle_media_track track stream transceiver r))"
  by (auto simp: handle_data_def handle_chat_message_def handle_dtmf_def handle_transcription_def
      handle_track_subscribed_def handle_media_track_def Let_def
      intro: keeps_roster_quiet split: option.splits sum.splits)

lemma keeps_roster_streams:
  "keeps_roster r (handle_data_stream_header env header who r)"
  "keeps_roster r (handle_data_stream_chunk env chunk who r)"
  "keeps_roster r (handle_data_stream_trailer env trailer who r)"
  "keeps_roster r (handle_threshold_change kind threshold r)"
  by (auto simp: keeps_roster_def handle_data_stream_header_def handle_data_stream_chunk_def
      handle_data_stream_trailer_def handle_threshold_change_def dispatch_def)

lemma keeps_roster_recovery:
  "keeps_roster r (handle_resumed r)" "keeps_roster r (handle_signal_resumed r)"
  "keeps_roster r (handle_restarted r)" "keeps_roster r (restarted_done r)"
  "keeps_roster r (handle_disconnected reason r)"
  by (auto simp: keeps_roster_def handle_resumed_def handle_signal_resumed_def handle_restarted_def
      restarted_done_def handle_disconnected_def update_connection_state_def spawn_task_def dispatch_def
      update_track_subscription_permissions_def Let_def)

lemma keeps_roster_rpc:
  "keeps_roster r (r\<lparr>rm_rpc := s\<rparr>)"
  "keeps_roster r (case caller of None \<Rightarrow> r | Some c \<Rightarrow> spawn_task (task c) r)"
  by (auto simp: keeps_roster_def spawn_task_def split: option.split)

lemmas keeps_roster_all = keeps_roster_quiet keeps_roster_handlers keeps_roster_streams
  keeps_roster_recovery keeps_roster_rpc

lemma told_event:
  assumes ok: "table_ok iof r" and n: "list_all (names_ok iof) (event_participants event)"
  shows "told iof r (room_turn env event r)"
proof (cases event)
  case EeResuming
  with told_reconnecting [OF told_refl [OF ok]] show ?thesis
    by (simp add: room_turn_def on_engine_event_def handle_resuming_def)
next
  case EeRestarting
  with told_restarting(1) [OF ok] show ?thesis by (simp add: room_turn_def on_engine_event_def)
qed (use assms in \<open>simp_all add: room_turn_def on_engine_event_def told_keeps keeps_roster_all
    told_room_update told_participant_update told_room_moved told_signal_restarted told_speakers told_quality\<close>)

lemma unpublish_track_quiet:
  "list_all quiet_output (snd (snd (ran_state (unpublish_track sid removed l))))"
  by (auto simp: unpublish_track_def Let_def split: option.splits sum.splits)

lemma close_tracks_keeps: "keeps_roster r (ran_state (close_tracks removed sids r))"
proof (induction sids arbitrary: r)
  case Nil
  then show ?case by simp
next
  case (Cons sid sids)
  obtain x l outs where u: "ran_state (unpublish_track sid (removed sid) (rm_local r)) = (x, l, outs)"
    by (metis prod_cases3)
  then have "keeps_roster r (room_out outs (r\<lparr>rm_local := l\<rparr>))"
    using unpublish_track_quiet [of sid "removed sid" "rm_local r"] by (simp add: keeps_roster_def)
  with keeps_roster_trans [OF this Cons.IH] u show ?case
    by (cases "unpublish_track sid (removed sid) (rm_local r)") simp_all
qed

lemma room_close_keeps: "keeps_roster r (snd (ran_state (room_close removed r)))"
proof -
  have "keeps_roster r (r\<lparr>rm_has_handle := False\<rparr>)" by (simp add: keeps_roster_def)
  from keeps_roster_trans [OF this close_tracks_keeps] show ?thesis by (simp add: room_close_def)
qed

fun action_participants :: "room_action \<Rightarrow> proto_participant_info list" where
  "action_participants (DoEvent env event) = event_participants event"
| "action_participants _ = []"

lemma told_step:
  "table_ok iof r \<Longrightarrow> list_all (names_ok iof) (action_participants a) \<Longrightarrow> told iof r (room_step a r)"
  by (cases a) (simp_all add: told_event told_media_track told_keeps keeps_roster_recovery room_close_keeps)

interpretation roster: related_by room_step "\<lambda>a. list_all (names_ok iof) (action_participants a)"
    "table_ok iof" "told iof" for iof
  by unfold_locales (blast intro: told_refl told_trans told_good told_step)+

lemma initial_ok:
  assumes ok: "table_ok iof r" and n: "names_ok iof pi" and a: "add_initial_participant pi r = Some r'"
  shows "table_ok iof r'"
proof -
  from a obtain sid where sid: "participant_sid_try_from (ppi_sid pi) = Inr sid"
    by (auto simp: add_initial_participant_def split: sum.splits)
  obtain p r1 where c: "create_participant (ppi_kind pi) sid (ppi_identity pi) (ppi_name pi)
      (ppi_metadata pi) (ppi_attributes pi) r = (p, r1)"
    by (cases "create_participant (ppi_kind pi) sid (ppi_identity pi) (ppi_name pi)
      (ppi_metadata pi) (ppi_attributes pi) r")
  from a sid c obtain q where u: "update_participant pi p r1 = Ran (q, r')"
    by (auto simp: add_initial_participant_def split: ran.splits)
  have iof: "iof sid = ppi_identity pi" using n sid by (auto simp: names_ok_def dest: sid_try_from)
  note t = told_create [OF ok iof c]
  have "ran_state (update_participant pi p r1) = (q, r')" using u by simp
  from told_update(1) [OF t(1,2) sid iof refl this] show ?thesis by (simp add: told_def)
qed

lemma initials_ok:
  "table_ok iof r \<Longrightarrow> list_all (names_ok iof) pis \<Longrightarrow> add_initial_participants pis r = Some r' \<Longrightarrow>
   table_ok iof r'"
  by (induction pis arbitrary: r) (auto split: option.splits intro: initial_ok)

lemma connect_ok:
  assumes c: "room_connect jr auto_subscribe = Some r" and n: "list_all (names_ok iof) (jr_other_participants jr)"
  shows "table_ok iof r \<and> roster_replay {} (rm_outputs r) = Some (room_objs r)"
proof -
  from c obtain room l r0 where
    "add_initial_participants (jr_other_participants jr) (room_start auto_subscribe room l) = Some r0"
    and r: "r = snd (update_connection_state Connected (room_out [Dispatch (ReConnected
      (map (\<lambda>p. (rpt_obj p, hm_keys (rpt_publications p))) (hm_values (rm_participants r0))))]
      (r0\<lparr>rm_outputs := []\<rparr>)))"
    by (auto simp: room_connect_def split: option.splits sum.splits)
  moreover have "table_ok iof (room_start auto_subscribe room l)"
    by (simp add: table_ok_def room_start_def)
  ultimately have ok: "table_ok iof r0" using initials_ok [OF _ n] by blast
  then have "table_ok iof r" and objs: "room_objs r = room_objs r0"
    unfolding r by (auto simp: update_connection_state_def dispatch_def table_ok_def room_objs_def)
  moreover have "roster_replay {} (rm_outputs r) = Some (room_objs r0)"
    unfolding r by (auto simp: update_connection_state_def dispatch_def room_objs_def hm_values_def image_image)
  ultimately show ?thesis by simp
qed

text \<open>The update of one participant leaves the entries of the others alone.\<close>

lemma put_other:
  "(k, p) \<in> set (rm_participants r) \<Longrightarrow> rpt_obj q \<noteq> rpt_obj p \<Longrightarrow>
   (k, p) \<in> set (rm_participants (put_participant q r))"
  by (force simp: put_participant_def)

lemma entry_objs_differ:
  "table_ok iof r \<Longrightarrow> (k, p) \<in> set (rm_participants r) \<Longrightarrow> (k', q) \<in> set (rm_participants r) \<Longrightarrow>
   k' \<noteq> k \<Longrightarrow> rpt_obj q \<noteq> rpt_obj p"
  using same_entry by blast

lemma update_other:
  assumes ok: "table_ok iof r" and p: "(k, p) \<in> set (rm_participants r)"
    and q: "(k', q) \<in> set (rm_participants r)" "k' \<noteq> k"
    and u: "ran_state (update_participant pi q r) = (q', r')"
  shows "(k, p) \<in> set (rm_participants r')"
proof -
  obtain x outs where x: "ran_state (remote_participant_update_info pi q) = (x, outs)"
    by (cases "ran_state (remote_participant_update_info pi q)")
  with u have r': "r' = room_out outs (put_participant x r)" by (auto simp: update_participant_def)
  have "rpt_obj x = rpt_obj q" using remote_update_obj [OF x] .
  with put_other [OF p, of x] entry_objs_differ [OF ok p q] r' show ?thesis by simp
qed

lemma known_other:
  assumes ok: "table_ok iof r" and p: "(k, p) \<in> set (rm_participants r)" "ppi_identity pi \<noteq> k"
    and q: "get_participant_by_sid sid r = Some q"
    and sid: "participant_sid_try_from (ppi_sid pi) = Inr sid" and iof: "iof sid = ppi_identity pi"
  shows "(k, p) \<in> set (rm_participants (fst (ran_state
     (if ppi_state pi = STATE_DISCONNECTED then
        (case update_participant pi q r of
           Ran (p, r) \<Rightarrow> Ran (handle_participant_disconnect p r, participants)
         | Panicked (p, r) \<Rightarrow> Panicked (r, participants))
      else map_ran (\<lambda>(p, r). (r, participants @ [RemoteRef (rpt_obj p)])) (update_participant pi q r)))))"
proof -
  obtain q' r' where u: "ran_state (update_participant pi q r) = (q', r')"
    by (cases "ran_state (update_participant pi q r)")
  note e = get_by_sidD(1) [OF q ok, unfolded iof]
  note t = told_update [OF ok e sid iof refl u]
  have p': "(k, p) \<in> set (rm_participants r')" by (rule update_other [OF ok p(1) e p(2) u])
  have "rpt_obj p \<noteq> rpt_obj q'"
    using entry_objs_differ [OF told_good [OF t(1)] t(2) p'] p(2) by blast
  from disconnect_others [OF told_good [OF t(1)] t(2) p' this] p' u show ?thesis
    by (cases "update_participant pi q r") simp_all
qed

lemma new_other:
  assumes ok: "table_ok iof r" and p: "(k, p) \<in> set (rm_participants r)" "ppi_identity pi \<noteq> k"
    and iof: "iof sid = ppi_identity pi"
    and c: "create_participant kind sid (ppi_identity pi) name metadata attributes r = (q, r1)"
  shows "(k, p) \<in> set (rm_participants (snd (ran_state (update_participant pi q
     (dispatch (ReParticipantConnected (rpt_obj q)) r1)))))"
proof -
  let ?r = "dispatch (ReParticipantConnected (rpt_obj q)) r1"
  note t = told_create [OF ok iof c]
  have "map_of (rm_participants r) k = Some p"
    using p(1) ok by (simp add: hm_wf_lookup table_ok_def)
  then have "map_of (rm_participants r1) k = Some p"
    using c p(2) by (auto simp: create_participant_def Let_def hm_simps)
  then have p1: "(k, p) \<in> set (rm_participants ?r)" by (simp add: dispatch_def map_of_SomeD)
  have ok1: "table_ok iof ?r" and q: "(ppi_identity pi, q) \<in> set (rm_participants ?r)"
    using t(1,2) by (simp_all add: dispatch_def)
  obtain q' r' where u: "ran_state (update_participant pi q ?r) = (q', r')"
    by (cases "ran_state (update_participant pi q ?r)")
  from update_other [OF ok1 p1 q p(2) u] u show ?thesis by simp
qed

lemma remote_other:
  assumes ok: "table_ok iof r" and p: "(k, p) \<in> set (rm_participants r)" "ppi_identity pi \<noteq> k"
    and sid: "participant_sid_try_from (ppi_sid pi) = Inr sid" and iof: "iof sid = ppi_identity pi"
  shows "(k, p) \<in> set (rm_participants (fst (ran_state (update_remote pi sid (r, participants)))))"
proof -
  let ?k = "ppi_identity pi"
  define r1 where "r1 = (case get_participant_by_identity ?k r of
      Some q \<Rightarrow> if ptc_sid (rpt_info q) \<noteq> sid then handle_participant_disconnect q r else r
    | None \<Rightarrow> r)"
  have r1: "table_ok iof r1 \<and> (k, p) \<in> set (rm_participants r1)"
  proof (cases "map_of (rm_participants r) ?k")
    case None
    then show ?thesis using ok p by (simp add: r1_def get_participant_by_identity_def)
  next
    case (Some q)
    then have e: "(?k, q) \<in> set (rm_participants r)" by (rule map_of_SomeD)
    have "rpt_obj p \<noteq> rpt_obj q" using entry_objs_differ [OF ok e p(1)] p(2) by blast
    with Some told_good [OF told_disconnect(1) [OF ok e]] disconnect_others [OF ok e p(1)] ok p(1)
    show ?thesis by (simp add: r1_def get_participant_by_identity_def)
  qed
  show ?thesis
  proof (cases "get_participant_by_sid sid r1")
    case (Some q)
    from known_other [OF conjunct1 [OF r1] conjunct2 [OF r1] p(2) Some sid iof, of participants] Some
    show ?thesis
      by (cases "ppi_state pi = STATE_DISCONNECTED")
        (simp_all add: update_remote_def r1_def [symmetric] Let_def)
  next
    case None
    obtain q r2 where c: "create_participant (ppi_kind pi) sid ?k (ppi_name pi) (ppi_metadata pi)
        (ppi_attributes pi) r1 = (q, r2)"
      by (cases "create_participant (ppi_kind pi) sid ?k (ppi_name pi) (ppi_metadata pi)
        (ppi_attributes pi) r1")
    from None r1 c new_other [OF conjunct1 [OF r1] conjunct2 [OF r1] p(2) iof c] show ?thesis
      by (simp add: update_remote_def r1_def [symmetric] Let_def, simp add: case_prod_beta')
  qed
qed

lemma updates_other:
  assumes "table_ok iof r" and "(k, p) \<in> set (rm_participants r)"
    and "list_all (names_ok iof) pis" and "k \<notin> ppi_identity ` set pis"
  shows "(k, p) \<in> set (rm_participants (fst (ran_state (ran_fold update_one pis (r, participants)))))"
  using assms
proof (induction pis arbitrary: r participants)
  case Nil
  then show ?case by simp
next
  case (Cons pi pis)
  from Cons.prems have n: "names_ok iof pi" and k: "ppi_identity pi \<noteq> k" by auto
  have s: "(k, p) \<in> set (rm_participants (fst (ran_state (update_one pi (r, participants)))))"
  proof (cases "participant_sid_try_from (ppi_sid pi)")
    case (Inl e)
    with Cons.prems(2) show ?thesis by (simp add: update_one_def)
  next
    case (Inr sid)
    with n have "iof sid = ppi_identity pi" by (auto simp: names_ok_def dest: sid_try_from)
    with Inr remote_other [OF Cons.prems(1,2) k Inr] update_local_frame [OF refl, of pi r] Cons.prems(2)
    show ?thesis by (auto simp: update_one_def)
  qed
  show ?case
  proof (cases "update_one pi (r, participants)")
    case (Ran x)
    obtain r1 ps where x: "x = (r1, ps)" by (cases x)
    with told_update_one [OF Cons.prems(1) n, of participants] s Ran
    have "table_ok iof r1" "(k, p) \<in> set (rm_participants r1)" by (simp_all add: told_def)
    with Cons.IH [of r1 ps] Cons.prems(3,4) Ran x show ?thesis by simp
  next
    case (Panicked x)
    with s show ?thesis by simp
  qed
qed

lemma participant_update_other:
  assumes "table_ok iof r" and "(k, p) \<in> set (rm_participants r)"
    and "list_all (names_ok iof) pis" and "k \<notin> ppi_identity ` set pis"
  shows "(k, p) \<in> set (rm_participants (ran_state (handle_participant_update pis r)))"
proof -
  obtain r1 ps where s: "ran_state (ran_fold update_one pis (r, [])) = (r1, ps)"
    by (cases "ran_state (ran_fold update_one pis (r, []))")
  with updates_other [OF assms, of "[]"] have "(k, p) \<in> set (rm_participants r1)" by simp
  with s show ?thesis
    by (cases "ran_fold update_one pis (r, [])") (auto simp: handle_participant_update_def dispatch_def)
qed

lemma signal_restarted_other:
  assumes ok: "table_ok iof r" and p: "(k, p) \<in> set (rm_participants r)"
    and n: "list_all (names_ok iof) (jr_other_participants jr)"
    and k: "k \<notin> ppi_identity ` set (jr_other_participants jr)"
  shows "(k, p) \<in> set (rm_participants (ran_state (handle_signal_restarted jr r)))"
proof (cases "jr_participant jr")
  case None
  with p show ?thesis by (simp add: handle_signal_restarted_def)
next
  case (Some participant)
  let ?r = "ran_state (update_local participant r)"
  have r: "table_ok iof ?r" "(k, p) \<in> set (rm_participants ?r)"
    using told_good [OF told_update_local [OF ok]] update_local_frame [OF refl, of participant r] p by auto
  let ?f = "\<lambda>r. case jr_room jr of None \<Rightarrow> Panicked r | Some room \<Rightarrow> Ran (handle_room_update room r)"
  have f: "rm_participants (ran_state (?f r)) = rm_participants r" for r
    by (simp add: handle_room_update_def Let_def split: option.split)
  from participant_update_other [OF r n k] f have
    "(k, p) \<in> set (rm_participants (ran_state (ran_bind (handle_participant_update
       (jr_other_participants jr) ?r) ?f)))"
    by (cases "handle_participant_update (jr_other_participants jr) ?r") simp_all
  with r(2) Some show ?thesis
    by (cases "update_local participant r") (simp_all add: handle_signal_restarted_def)
qed

text \<open>
  Applying an update: the identities in the room, and what one description makes of them.
\<close>

definition names :: "room \<Rightarrow> participant_identity set" where
  "names r = fst ` set (rm_participants r)"

definition present :: "proto_participant_info \<Rightarrow> participant_identity set \<Rightarrow> participant_identity set" where
  "present pi S = (if ppi_state pi = STATE_DISCONNECTED then S - {ppi_identity pi}
     else {ppi_identity pi} \<union> S)"

definition for_remote :: "room \<Rightarrow> proto_participant_info \<Rightarrow> bool" where
  "for_remote r pi \<longleftrightarrow> description_ok pi \<and> ppi_sid pi \<noteq> ptc_sid (lcp_info (rm_local r))
     \<and> ppi_identity pi \<noteq> ptc_identity (lcp_info (rm_local r))"

lemma names_dom: "names r = dom (map_of (rm_participants r))"
  by (simp add: names_def dom_map_of_conv_image_fst)

lemma names_update: "fst ` set (AList.update k v m) = {k} \<union> fst ` set m"
  by (induction m) auto

lemma names_room_out [simp]: "names (room_out outs r) = names r" "names (dispatch ev r) = names r"
  by (simp_all add: names_def dispatch_def)

lemma names_put [simp]: "names (put_participant p r) = names r"
  by (force simp: names_def put_participant_def)

lemma local_put [simp]: "rm_local (put_participant p r) = rm_local r"
  "rm_local (dispatch ev r) = rm_local r"
  by (simp_all add: put_participant_def dispatch_def)

lemma names_disconnect:
  assumes ok: "table_ok iof r" and e: "(k, p) \<in> set (rm_participants r)"
  shows "names (handle_participant_disconnect p r) = names r - {k}"
proof -
  note d = told_disconnect [OF ok e]
  have "k' \<in> names (handle_participant_disconnect p r) \<longleftrightarrow> k' \<in> names r \<and> k' \<noteq> k" for k'
  proof
    assume "k' \<in> names (handle_participant_disconnect p r)"
    then obtain q where q: "(k', q) \<in> set (rm_participants (handle_participant_disconnect p r))"
      by (auto simp: names_def)
    have "k' \<noteq> k" using d(3) q by (auto simp: map_of_eq_None_iff) force
    with d(4) [OF q] show "k' \<in> names r \<and> k' \<noteq> k" by (force simp: names_def)
  next
    assume "k' \<in> names r \<and> k' \<noteq> k"
    then obtain q where q: "(k', q) \<in> set (rm_participants r)" "k' \<noteq> k" by (auto simp: names_def)
    have "rpt_obj q \<noteq> rpt_obj p" using entry_objs_differ [OF ok e q(1) q(2)] .
    from disconnect_others [OF ok e q(1) this] show "k' \<in> names (handle_participant_disconnect p r)"
      by (force simp: names_def)
  qed
  then show ?thesis by blast
qed

lemma update_applied:
  assumes "description_ok pi" and "publications_wf p"
  obtains p' r' where "update_participant pi p r = Ran (p', r')" and "names r' = names r"
    and "rm_local r' = rm_local r"
proof -
  from remote_update_synced [OF assms] obtain p' outs where
    u: "remote_participant_update_info pi p = Ran (p', outs)" by (elim exE conjE) (rule that)
  show ?thesis
    by (rule that [of p' "room_out outs (put_participant p' r)"]) (simp_all add: update_participant_def u)
qed

lemma remote_applied:
  assumes ok: "table_ok iof r" and d: "description_ok pi"
    and sid: "participant_sid_try_from (ppi_sid pi) = Inr sid" and iof: "iof sid = ppi_identity pi"
  shows "\<exists>r' ps'. update_remote pi sid (r, ps) = Ran (r', ps') \<and> names r' = present pi (names r)
    \<and> rm_local r' = rm_local r"
proof -
  let ?k = "ppi_identity pi"
  define r1 where "r1 = (case get_participant_by_identity ?k r of
      Some q \<Rightarrow> if ptc_sid (rpt_info q) \<noteq> sid then handle_participant_disconnect q r else r
    | None \<Rightarrow> r)"
  have r1: "table_ok iof r1 \<and> rm_local r1 = rm_local r \<and> (names r1 = names r \<or> names r1 = names r - {?k})
    \<and> (\<forall>q. map_of (rm_participants r1) ?k = Some q \<longrightarrow> ptc_sid (rpt_info q) = sid)"
  proof (cases "map_of (rm_participants r) ?k")
    case None
    then show ?thesis using ok by (simp add: r1_def get_participant_by_identity_def)
  next
    case (Some q)
    then have e: "(?k, q) \<in> set (rm_participants r)" by (rule map_of_SomeD)
    show ?thesis
      using Some told_disconnect(3,5) [OF ok e] told_good [OF told_disconnect(1) [OF ok e]]
        names_disconnect [OF ok e] ok
      by (simp add: r1_def get_participant_by_identity_def)
  qed
  then have ok1: "table_ok iof r1" by simp
  show ?thesis
  proof (cases "get_participant_by_sid sid r1")
    case (Some p)
    note e = get_by_sidD(1) [OF Some ok1, unfolded iof]
    obtain p' r' where u: "update_participant pi p r1 = Ran (p', r')" "names r' = names r1"
      "rm_local r' = rm_local r1" by (rule update_applied [OF d roster_okD(4) [OF ok1 e]])
    have "ran_state (update_participant pi p r1) = (p', r')" using u(1) by simp
    note t = told_update [OF ok1 e sid iof refl this]
    have "?k \<in> names r1" using e by (force simp: names_def)
    then have n: "names r1 = {?k} \<union> names r" using r1 by auto
    show ?thesis
      using Some u n r1 names_disconnect [OF told_good [OF t(1)] t(2)]
        told_disconnect(5) [OF told_good [OF t(1)] t(2)]
      by (auto simp: update_remote_def r1_def [symmetric] Let_def present_def)
  next
    case None
    have none: "map_of (rm_participants r1) ?k = None"
    proof (rule ccontr)
      assume "map_of (rm_participants r1) ?k \<noteq> None"
      then obtain q where "map_of (rm_participants r1) ?k = Some q" by auto
      with r1 get_by_sid_None [OF None map_of_SomeD] show False by blast
    qed
    then have "?k \<notin> names r1" by (simp add: names_dom domIff)
    with r1 have n: "names r1 = names r - {?k}" by auto
    obtain p r2 where c: "create_participant (ppi_kind pi) sid ?k (ppi_name pi) (ppi_metadata pi)
        (ppi_attributes pi) r1 = (p, r2)"
      by (cases "create_participant (ppi_kind pi) sid ?k (ppi_name pi) (ppi_metadata pi)
        (ppi_attributes pi) r1")
    then have "r2 = r1\<lparr>rm_participants := AList.update ?k p (rm_participants r1),
        rm_next_obj := Suc (rm_next_obj r1)\<rparr>" and nil: "rpt_publications p = []"
      by (auto simp: create_participant_def Let_def)
    then have r2: "names r2 = {?k} \<union> names r1" "rm_local r2 = rm_local r1"
      by (simp_all add: names_def names_update)
    have "publications_wf p" using nil by (simp add: publications_wf_def)
    then obtain p' r' where u: "update_participant pi p (dispatch (ReParticipantConnected (rpt_obj p)) r2)
        = Ran (p', r')" "names r' = {?k} \<union> names r1" "rm_local r' = rm_local r1"
      using update_applied [OF d, of p "dispatch (ReParticipantConnected (rpt_obj p)) r2"] r2(1,2)
      by (metis local_put(2) names_room_out(2))
    show ?thesis
      using None c u n r1 by (auto simp: update_remote_def r1_def [symmetric] Let_def present_def)
  qed
qed

lemma sid_of_description: "description_ok pi \<Longrightarrow> participant_sid_try_from (ppi_sid pi) = Inr (ppi_sid pi)"
  by (simp add: description_ok_def participant_sid_try_from_def try_from_prefix_def)

lemma updates_applied:
  assumes "table_ok iof r" and "list_all (names_ok iof) pis" and "list_all (for_remote r) pis"
  shows "\<exists>r' ps'. ran_fold update_one pis (r, ps) = Ran (r', ps') \<and> names r' = fold present pis (names r)
    \<and> rm_local r' = rm_local r"
  using assms
proof (induction pis arbitrary: r ps)
  case Nil
  then show ?case by simp
next
  case (Cons pi pis)
  from Cons.prems have pi: "names_ok iof pi" "description_ok pi" "for_remote r pi"
    by (simp_all add: for_remote_def)
  note sid = sid_of_description [OF pi(2)]
  obtain r1 ps1 where r1: "update_remote pi (ppi_sid pi) (r, ps) = Ran (r1, ps1)"
    "names r1 = present pi (names r)" "rm_local r1 = rm_local r"
    using remote_applied [OF Cons.prems(1) pi(2) sid, of ps] pi(1) by (auto simp: names_ok_def)
  then have u: "update_one pi (r, ps) = Ran (r1, ps1)"
    using pi(3) sid by (simp add: update_one_def for_remote_def)
  have "table_ok iof r1" using told_update_one [OF Cons.prems(1) pi(1), of ps] u by (simp add: told_def)
  moreover have "for_remote r1 = for_remote r" using r1(3) by (simp add: for_remote_def fun_eq_iff)
  then have "list_all (for_remote r1) pis" using Cons.prems(3) by simp
  ultimately show ?case using Cons.IH [of r1 ps1] Cons.prems(2) u r1(2,3) by simp
qed

lemma participant_update_applied:
  assumes "table_ok iof r" and "list_all (names_ok iof) pis" and "list_all (for_remote r) pis"
  shows "\<exists>r'. handle_participant_update pis r = Ran r' \<and> names r' = fold present pis (names r)
    \<and> rm_local r' = rm_local r"
  using updates_applied [OF assms, of "[]"] by (auto simp: handle_participant_update_def)

lemma local_applied:
  assumes "description_ok me"
  obtains r' where "update_local me r = Ran r'" and "ptc_sid (lcp_info (rm_local r')) = ppi_sid me"
    and "ptc_identity (lcp_info (rm_local r')) = ppi_identity me"
proof -
  have "starts_with PARTICIPANT_PREFIX (ppi_sid me)" using assms by (simp add: description_ok_def)
  then obtain i outs where i: "participant_update_info LocalRef me (lcp_info (rm_local r)) = Ran (i, outs)"
    "ptc_sid i = ppi_sid me" "ptc_identity i = ppi_identity me"
    by (rule participant_update_info_ok)
  show ?thesis
    by (rule that [of "room_out outs (r\<lparr>rm_local := (rm_local r)\<lparr>lcp_info := i\<rparr>\<rparr>)"])
      (simp_all add: update_local_def local_update_info_def i)
qed

text \<open>A run from the connection on.\<close>

lemma run_table_ok:
  assumes "room_connect jr auto_subscribe = Some r0" and "list_all (names_ok iof) (jr_other_participants jr)"
    and "list_all (\<lambda>a. list_all (names_ok iof) (action_participants a)) acts"
  shows "table_ok iof (fold room_step acts r0)"
  using roster.run_good [OF conjunct1 [OF connect_ok [OF assms(1,2)]] assms(3)] .

section \<open>Properties\<close>

text \<open>
  C5. The events say exactly who is in the room: from \<open>Connected\<close> on, in every run of engine events,
  spawned tasks and closes in which every sid stays with its identity, a participant is announced
  as connected only while it is absent and as disconnected only while it is present, and a listener
  that replays the events knows the participants of the room at every moment; each of them is filed
  under its own identity.
\<close>

theorem participant_events_replay:
  assumes "room_connect jr auto_subscribe = Some r0"
    and "list_all (names_ok iof) (jr_other_participants jr)"
    and "list_all (\<lambda>a. list_all (names_ok iof) (action_participants a)) acts"
    and "r = fold room_step acts r0"
  shows "roster_replay {} (rm_outputs r) = Some (rpt_obj ` set (hm_values (rm_participants r)))
    \<and> (\<forall>k p. map_of (rm_participants r) k = Some p \<longrightarrow> ptc_identity (rpt_info p) = k)"
proof -
  from connect_ok [OF assms(1,2)] have ok: "table_ok iof r0"
    and start: "roster_replay {} (rm_outputs r0) = Some (room_objs r0)" by simp_all
  from roster.run_rel [OF ok assms(3)] assms(4) have t: "told iof r0 r" by simp
  then have "roster_replay {} (rm_outputs r) = Some (room_objs r)"
    using start by (auto simp: told_def roster_append)
  moreover have "ptc_identity (rpt_info p) = k" if "map_of (rm_participants r) k = Some p" for k p
    by (rule roster_okD(1) [OF told_good [OF t] map_of_SomeD [OF that]])
  ultimately show ?thesis by (simp add: room_objs_def hm_values_def)
qed

definition example_room :: proto_room where
  "example_room =
     \<lparr>prm_sid = ''RM_1'', prm_name = ''lobby'', prm_empty_timeout = 0, prm_departure_timeout = 0,
      prm_max_participants = 0, prm_creation_time = 0, prm_creation_time_ms = 0, prm_metadata = [],
      prm_num_participants = 0, prm_num_publishers = 0, prm_active_recording = False\<rparr>"

definition example_member :: "string \<Rightarrow> string \<Rightarrow> proto_participant_info" where
  "example_member sid identity =
     \<lparr>ppi_sid = sid, ppi_identity = identity, ppi_state = 2, ppi_tracks = [], ppi_metadata = [],
      ppi_name = [], ppi_kind = Standard, ppi_attributes = [], ppi_disconnect_reason = UnknownReason\<rparr>"

definition example_welcome :: join_response where
  "example_welcome =
     \<lparr>jr_room = Some example_room, jr_participant = Some (example_member ''PA_0'' ''me''),
      jr_other_participants = [example_member ''PA_1'' ''bob'']\<rparr>"

definition example_env :: room_env where
  "example_env = \<lparr>ren_clock = \<lparr>from_timestamp_millis = (\<lambda>_. None), utc_now = 0\<rparr>, ren_alive = (\<lambda>_. True), ren_url = []\<rparr>"

definition example_names :: "participant_sid \<Rightarrow> participant_identity" where
  "example_names sid = (if sid = ''PA_0'' then ''me'' else ''bob'')"

definition example_actions :: "room_action list" where
  "example_actions =
     [DoEvent example_env (EeParticipantUpdate [example_member ''PA_2'' ''bob'']),
      DoEvent example_env EeRestarting]"

theorem participant_events_replay_witness:
  "\<exists>r0 r. room_connect example_welcome True = Some r0 \<and> r = fold room_step example_actions r0
     \<and> drop (length (rm_outputs r0)) (rm_outputs r) =
         [Dispatch (ReParticipantDisconnected 0), Dispatch (ReParticipantConnected 1),
          Dispatch (ReParticipantDisconnected 1), Dispatch (ReConnectionStateChanged Reconnecting),
          Dispatch ReReconnecting]
     \<and> roster_replay {} (rm_outputs r) = Some (rpt_obj ` set (hm_values (rm_participants r)))"
proof -
  have "room_connect example_welcome True \<noteq> None" by code_simp
  then obtain r0 where r0: "room_connect example_welcome True = Some r0" by auto
  have n: "list_all (names_ok example_names) (jr_other_participants example_welcome)"
    "list_all (\<lambda>a. list_all (names_ok example_names) (action_participants a)) example_actions"
    by (simp_all add: example_welcome_def example_actions_def names_ok_def example_names_def example_member_def)
  have "map_option (\<lambda>r. drop (length (rm_outputs r)) (rm_outputs (fold room_step example_actions r)))
      (room_connect example_welcome True) =
    Some [Dispatch (ReParticipantDisconnected 0), Dispatch (ReParticipantConnected 1),
          Dispatch (ReParticipantDisconnected 1), Dispatch (ReConnectionStateChanged Reconnecting),
          Dispatch ReReconnecting]" by code_simp
  with r0 participant_events_replay [OF r0 n refl] show ?thesis
    by auto
qed

text \<open>
  C8. The participants of the room follow the updates of the server: in every reachable room, a list of
  updates with valid descriptions of remote participants is handled to its end, and the
  identities in the room are then those that the list, read in order, leaves present; a participant who
  comes back under a new sid is one participant.
\<close>

theorem participant_updates_applied:
  assumes "room_connect jr auto_subscribe = Some r0"
    and "list_all (names_ok iof) (jr_other_participants jr)"
    and "list_all (\<lambda>a. list_all (names_ok iof) (action_participants a)) acts"
    and "r = fold room_step acts r0"
    and "list_all (names_ok iof) pis" and "list_all (for_remote r) pis"
  shows "\<exists>r'. handle_participant_update pis r = Ran r'
    \<and> dom (map_of (rm_participants r')) = fold present pis (dom (map_of (rm_participants r)))"
  using participant_update_applied [OF run_table_ok [OF assms(1-3)], of pis] assms(4-6)
  by (auto simp: names_dom)

theorem participant_updates_applied_witness:
  "\<exists>r0 r'. room_connect example_welcome True = Some r0
     \<and> handle_participant_update [example_member ''PA_2'' ''bob'',
          (example_member ''PA_2'' ''bob'')\<lparr>ppi_state := STATE_DISCONNECTED\<rparr>] r0 = Ran r'
     \<and> dom (map_of (rm_participants r')) = dom (map_of (rm_participants r0)) - {''bob''}"
proof -
  let ?pis = "[example_member ''PA_2'' ''bob'', (example_member ''PA_2'' ''bob'')\<lparr>ppi_state := STATE_DISCONNECTED\<rparr>]"
  have "map_option (\<lambda>r. (ptc_sid (lcp_info (rm_local r)), ptc_identity (lcp_info (rm_local r))))
      (room_connect example_welcome True) = Some (''PA_0'', ''me'')" by code_simp
  then obtain r0 where r0: "room_connect example_welcome True = Some r0"
    and me: "ptc_sid (lcp_info (rm_local r0)) = ''PA_0''" "ptc_identity (lcp_info (rm_local r0)) = ''me''"
    by auto
  have n: "list_all (names_ok example_names) (jr_other_participants example_welcome)"
    "list_all (names_ok example_names) ?pis" "list_all (for_remote r0) ?pis"
    using me by (simp_all add: example_welcome_def names_ok_def example_names_def example_member_def
        for_remote_def description_ok_def starts_with_def PARTICIPANT_PREFIX_def)
  have "list_all (\<lambda>a. list_all (names_ok example_names) (action_participants a)) []" by simp
  from participant_updates_applied [OF r0 n(1) this _ n(2,3)] obtain r' where
    "handle_participant_update ?pis r0 = Ran r'"
    "dom (map_of (rm_participants r')) = fold present ?pis (dom (map_of (rm_participants r0)))"
    by (metis fold_simps(1))
  with r0 show ?thesis by (auto simp: present_def STATE_DISCONNECTED_def example_member_def)
qed

end
