(* ===== verification/Speakers.thy ===== *)
theory Speakers
  imports Roster
begin

text \<open>The active speakers of a room and the order of their audio levels.\<close>

section \<open>Lemmas\<close>

text \<open>Setting the level of a participant changes neither who is who nor any other level.\<close>

lemma find_map_snd:
  "(\<And>x. P (g x) = P x) \<Longrightarrow> find P (map g xs) = map_option g (find P xs)"
  by (induction xs) auto

lemma modify_values:
  "hm_values (rm_participants (modify_info f (RemoteRef obj) r)) =
     map (\<lambda>q. if rpt_obj q = obj then q\<lparr>rpt_info := f (rpt_info q)\<rparr> else q) (hm_values (rm_participants r))"
  by (auto simp: modify_info_def hm_values_def)

lemma speaker_ref_modify:
  assumes f: "\<And>i. ptc_sid (f i) = ptc_sid i"
  shows "speaker_ref sid (modify_info f ref r) = speaker_ref sid r"
proof (cases ref)
  case LocalRef
  with f show ?thesis by (simp add: speaker_ref_def modify_info_def get_participant_by_sid_def)
next
  case (RemoteRef obj)
  let ?g = "\<lambda>q. if rpt_obj q = obj then q\<lparr>rpt_info := f (rpt_info q)\<rparr> else q"
  have "find (\<lambda>p. ptc_sid (rpt_info p) = sid) (map ?g (hm_values (rm_participants r)))
      = map_option ?g (find (\<lambda>p. ptc_sid (rpt_info p) = sid) (hm_values (rm_participants r)))"
    using f by (intro find_map_snd) simp
  moreover have "rm_local (modify_info f ref r) = rm_local r" using RemoteRef by (simp add: modify_info_def)
  ultimately show ?thesis
    using RemoteRef by (simp add: speaker_ref_def get_participant_by_sid_def modify_values
        option.map_comp comp_def if_distrib cong: if_cong)
qed

lemma speakers_fold:
  "ran_fold update_speaker infos (r, speakers) = Ran (r', speakers') \<Longrightarrow>
   set speakers' = set speakers
     \<union> {ref. \<exists>info \<in> set infos. spk_active info \<and> speaker_ref (spk_sid info) r = Some ref}"
proof (induction infos arbitrary: r speakers)
  case Nil
  then show ?case by simp
next
  case (Cons info infos)
  from Cons.prems obtain s where s: "update_speaker info (r, speakers) = Ran s"
    "ran_fold update_speaker infos s = Ran (r', speakers')"
    by (cases "update_speaker info (r, speakers)") auto
  obtain r1 sp where s1: "s = (r1, sp)" by (cases s)
  have "(\<forall>sid. speaker_ref sid r1 = speaker_ref sid r) \<and> set sp = set speakers
      \<union> {ref. spk_active info \<and> speaker_ref (spk_sid info) r = Some ref}"
    using s(1) s1 by (auto simp: update_speaker_def Let_def speaker_ref_modify
        dest!: sid_try_from split: sum.splits option.splits if_splits)
  with Cons.IH s(2) s1 show ?case by auto
qed

lemma level_key_less_eq: "a \<noteq> NaN \<Longrightarrow> b \<noteq> NaN \<Longrightarrow> level_key a \<le> level_key b \<longleftrightarrow> a \<le> b"
  by (cases a; cases b) simp_all

lemma sort_speakers_ok:
  assumes "sort_speakers r speakers = Some speakers'"
  shows "set speakers' = set speakers"
    and "sorted_wrt (\<lambda>a b. audio_level r a \<le> audio_level r b) speakers'"
proof -
  show s: "set speakers' = set speakers"
    using assms by (auto simp: sort_speakers_def split: if_splits)
  show "sorted_wrt (\<lambda>a b. audio_level r a \<le> audio_level r b) speakers'"
  proof (cases "2 \<le> length speakers")
    case True
    with assms have "speakers' = sort_key (level_key \<circ> audio_level r) speakers"
      and nan: "NaN \<notin> audio_level r ` set speakers"
      by (auto simp: sort_speakers_def split: if_splits)
    then have "sorted_wrt (\<lambda>a b. level_key (audio_level r a) \<le> level_key (audio_level r b)) speakers'"
      using sorted_sort_key [of "level_key \<circ> audio_level r" speakers] by (simp add: sorted_map)
    moreover have "audio_level r a \<noteq> NaN" if "a \<in> set speakers'" for a
      using that s nan by force
    ultimately show ?thesis
      using level_key_less_eq by (auto elim: sorted_wrt_mono_rel [rotated])
  next
    case False
    with assms have "length speakers' < 2" by (auto simp: sort_speakers_def split: if_splits)
    then show ?thesis by (cases speakers') auto
  qed
qed

section \<open>Properties\<close>

text \<open>
  An update of the speakers replaces the list of active speakers by exactly the participants that
  the update itself names as active (who still speaks but is not in the update is gone), sorted by
  their audio levels, the quietest first; a level that is no number is compared with nothing.
\<close>

theorem active_speakers_replaced:
  assumes "handle_speakers_changed infos r = Ran r'"
  shows "set (rm_active_speakers r')
      = {ref. \<exists>info \<in> set infos. spk_active info \<and> speaker_ref (spk_sid info) r = Some ref}
    \<and> sorted_wrt (\<lambda>a b. audio_level r' a \<le> audio_level r' b) (rm_active_speakers r')"
proof -
  from assms obtain r1 sp sp' where f: "ran_fold update_speaker infos (r, []) = Ran (r1, sp)"
    and s: "sort_speakers r1 sp = Some sp'"
    and r': "r' = dispatch (ReActiveSpeakersChanged sp') (r1\<lparr>rm_active_speakers := sp'\<rparr>)"
    by (auto simp: handle_speakers_changed_def split: ran.splits option.splits)
  have "audio_level r' = audio_level r1" "rm_active_speakers r' = sp'"
    unfolding r' by (simp_all add: dispatch_def room_out_def audio_level_def fun_eq_iff split: participant_ref.split)
  with speakers_fold [OF f] sort_speakers_ok [OF s] show ?thesis by simp
qed

definition example_speaker :: "string \<Rightarrow> int \<Rightarrow> bool \<Rightarrow> speaker_info" where
  "example_speaker sid level active = \<lparr>spk_sid = sid, spk_level = Num level, spk_active = active\<rparr>"

theorem active_speakers_replaced_witness:
  "\<exists>r r'. room_connect example_welcome True = Some r
     \<and> handle_speakers_changed [example_speaker ''PA_0'' 9 True, example_speaker ''PA_1'' 2 True] r = Ran r'
     \<and> rm_active_speakers r' = [RemoteRef 0, LocalRef]
     \<and> sorted_wrt (\<lambda>a b. audio_level r' a \<le> audio_level r' b) (rm_active_speakers r')"
proof -
  let ?infos = "[example_speaker ''PA_0'' 9 True, example_speaker ''PA_1'' 2 True]"
  have "map_option (\<lambda>r. map_ran rm_active_speakers (handle_speakers_changed ?infos r))
      (room_connect example_welcome True) = Some (Ran [RemoteRef 0, LocalRef])" by code_simp
  then obtain r r' where r: "room_connect example_welcome True = Some r"
    "handle_speakers_changed ?infos r = Ran r'" "rm_active_speakers r' = [RemoteRef 0, LocalRef]"
    by (auto elim!: map_ran.elims)
  from active_speakers_replaced [OF r(2)] r show ?thesis by blast
qed

end
