(* ===== verification/FfiServer.thy ===== *)
theory FfiServer
  imports Room
begin

text \<open>
  The handle table of the foreign function interface (\<open>livekit-ffi/src/server/mod.rs\<close>, \<open>lib.rs\<close>): the
  objects a client of the library holds are named by numbers, requests refer to them by these numbers,
  and what happens is told to the client as events that name them.

  An object stands for what the table boxes: the room as the index of its \<open>RoomInner\<close>, a participant as
  its room and the reference within the SDK, a stream reader or writer as its number. Identifiers come
  from one counter, which would wrap after \<open>2 ^ 64\<close> of them; it is a natural number here.
\<close>

section \<open>Errors and handles\<close>

datatype (plugins only: code size) ffi_error =
    NotConfigured
  | AlreadyInitialized
  | FfiRoomError string
  | InvalidRequest string

type_synonym handle_id = nat

definition INVALID_HANDLE :: handle_id where "INVALID_HANDLE = 0"

text \<open>
  The types that may be stored, and the objects. A source is known by its handle; the buffer of a video
  frame is its bytes.
\<close>

type_synonym i16 = "16 word"

record audio_frame =
  af_data :: "i16 list"
  af_sample_rate :: u32
  af_num_channels :: u32
  af_samples_per_channel :: u32

datatype (plugins only: code size) ffi_kind =
    KRoom | KParticipant | KPublication | KTrack | KByteReader | KTextReader | KByteWriter | KTextWriter
  | KDataBuffer | KAudioSource | KVideoSource | KAudioStream | KVideoStream | KAudioFrame | KVideoBuffer
  | KAudioResampler | KSoxResampler | KApm | KUnit

datatype (plugins only: code size) publication_ref = LocalPublication track_sid | RemotePublication nat track_sid

datatype (plugins only: code size) ffi_track_ref = LocalTrack track_kind string | RemoteTrack track_kind track_sid

datatype (plugins only: code size) ffi_object =
    ObRoom nat
  | ObParticipant nat participant_ref
  | ObPublication nat publication_ref
  | ObTrack ffi_track_ref "handle_id option"
  | ObByteReader nat
  | ObTextReader nat
  | ObByteWriter nat
  | ObTextWriter nat
  | ObDataBuffer "byte list"
  | ObAudioSource handle_id
  | ObVideoSource handle_id
  | ObAudioStream
  | ObVideoStream
  | ObAudioFrame audio_frame
  | ObVideoBuffer "byte list"
  | ObAudioResampler
  | ObSoxResampler
  | ObApm
  | ObUnit

fun kind_of :: "ffi_object \<Rightarrow> ffi_kind" where
  "kind_of (ObRoom _) = KRoom"
| "kind_of (ObParticipant _ _) = KParticipant"
| "kind_of (ObPublication _ _) = KPublication"
| "kind_of (ObTrack _ _) = KTrack"
| "kind_of (ObByteReader _) = KByteReader"
| "kind_of (ObTextReader _) = KTextReader"
| "kind_of (ObByteWriter _) = KByteWriter"
| "kind_of (ObTextWriter _) = KTextWriter"
| "kind_of (ObDataBuffer _) = KDataBuffer"
| "kind_of (ObAudioSource _) = KAudioSource"
| "kind_of (ObVideoSource _) = KVideoSource"
| "kind_of ObAudioStream = KAudioStream"
| "kind_of ObVideoStream = KVideoStream"
| "kind_of (ObAudioFrame _) = KAudioFrame"
| "kind_of (ObVideoBuffer _) = KVideoBuffer"
| "kind_of ObSoxResampler = KSoxResampler"
| "kind_of ObAudioResampler = KAudioResampler"
| "kind_of ObApm = KApm"
| "kind_of ObUnit = KUnit"

fun type_name :: "ffi_kind \<Rightarrow> string" where
  "type_name KRoom = ''FfiRoom''"
| "type_name KParticipant = ''FfiParticipant''"
| "type_name KPublication = ''FfiPublication''"
| "type_name KTrack = ''FfiTrack''"
| "type_name KByteReader = ''FfiByteStreamReader''"
| "type_name KTextReader = ''FfiTextStreamReader''"
| "type_name KByteWriter = ''FfiByteStreamWriter''"
| "type_name KTextWriter = ''FfiTextStreamWriter''"
| "type_name KDataBuffer = ''FfiDataBuffer''"
| "type_name KAudioSource = ''FfiAudioSource''"
| "type_name KVideoSource = ''FfiVideoSource''"
| "type_name KAudioStream = ''FfiAudioStream''"
| "type_name KVideoStream = ''FfiVideoStream''"
| "type_name KAudioFrame = ''AudioFrame''"
| "type_name KVideoBuffer = ''BoxVideoBuffer''"
| "type_name KSoxResampler = ''Arc<Mutex<SoxResampler>>''"
| "type_name KAudioResampler = ''Arc<Mutex<AudioResampler>>''"
| "type_name KApm = ''Arc<Mutex<AudioProcessingModule>>''"
| "type_name KUnit = ''()''"

section \<open>Events\<close>

text \<open>
  What the client is told, \<open>proto::room_event::Message\<close> and \<open>proto::ffi_event::Message\<close>. The
  descriptions of objects (their \<open>info\<close>) are left out, the handles are kept; statistics are left out.
\<close>

datatype (plugins only: code size) data_value =
    UserData handle_id "string option"
  | DtmfData u32 "string option"

datatype (plugins only: code size) room_message =
    MsgParticipantConnected handle_id
  | MsgParticipantDisconnected string disconnect_reason
  | MsgLocalTrackPublished track_sid
  | MsgLocalTrackUnpublished track_sid
  | MsgLocalTrackSubscribed string
  | MsgTrackPublished string handle_id
  | MsgTrackUnpublished string track_sid
  | MsgTrackSubscribed string handle_id
  | MsgTrackUnsubscribed string track_sid
  | MsgTrackSubscriptionFailed string track_sid
  | MsgTrackMuted string track_sid
  | MsgTrackUnmuted string track_sid
  | MsgRoomMetadataChanged string
  | MsgParticipantMetadataChanged string string
  | MsgParticipantNameChanged string string
  | MsgParticipantAttributesChanged string "(string, string) hmap" "(string, string) hmap"
  | MsgActiveSpeakersChanged "string list"
  | MsgConnectionQualityChanged string connection_quality
  | MsgDataPacketReceived data_value string data_packet_kind
  | MsgTranscriptionReceived "string option" "transcription_segment list" "track_sid option"
  | MsgChatMessage chat_message string
  | MsgConnectionStateChanged connection_state
  | MsgDisconnected disconnect_reason
  | MsgReconnecting
  | MsgReconnected
  | MsgE2eeStateChanged string nat
  | MsgByteStreamOpened handle_id string
  | MsgTextStreamOpened handle_id string
  | MsgStreamHeaderReceived proto_header string
  | MsgStreamChunkReceived proto_chunk string
  | MsgStreamTrailerReceived proto_trailer string
  | MsgLowThresholdChanged data_packet_kind u64
  | MsgRoomUpdated room_info
  | MsgMoved room_info
  | MsgParticipantsUpdated "participant_ref list"
  | MsgRoomSidChanged string
  | MsgEos

text \<open>What a client is told on connecting: the room, the local participant and the others.\<close>

record connected =
  co_room :: handle_id
  co_local :: handle_id
  co_participants :: "(handle_id \<times> handle_id list) list"

datatype (plugins only: code size) 'a stream_message = FrameReceived handle_id 'a | StreamEos

datatype (plugins only: code size) 'a reader_detail = ChunkReceived 'a | ReaderEos "stream_error option"

datatype (plugins only: code size) ffi_event =
    EvRoom handle_id room_message
  | EvConnect nat "string + connected"
  | EvDisconnect nat
  | EvPublishTrack nat "string + (handle_id \<times> track_sid)"
  | EvUnpublishTrack nat "string option"
  | EvPublishData nat "string option"
  | EvPublishTranscription nat "string option"
  | EvPublishSipDtmf nat "string option"
  | EvSetLocalMetadata nat "string option"
  | EvSetLocalName nat "string option"
  | EvSetLocalAttributes nat "string option"
  | EvChatMessage nat "string + chat_message"
  | EvSendStreamHeader nat "string option"
  | EvSendStreamChunk nat "string option"
  | EvSendStreamTrailer nat "string option"
  | EvGetStats nat "string option"
  | EvGetSessionStats nat "string option"
  | EvPerformRpc nat "rpc_error + string"
  | EvRpcMethodInvocation handle_id nat string rpc_invocation
  | EvByteReader handle_id "byte list reader_detail"
  | EvTextReader handle_id "string reader_detail"
  | EvByteReadAll nat "stream_error + byte list"
  | EvByteWriteToFile nat "stream_error + string"
  | EvTextReadAll nat "stream_error + string"
  | EvSendFile nat "stream_error + byte_stream_info"
  | EvSendText nat "stream_error + text_stream_info"
  | EvSendBytes nat "stream_error + byte_stream_info"
  | EvByteStreamOpen nat "stream_error + handle_id"
  | EvTextStreamOpen nat "stream_error + handle_id"
  | EvByteWrite nat "stream_error option"
  | EvByteClose nat "stream_error option"
  | EvTextWrite nat "stream_error option"
  | EvTextClose nat "stream_error option"
  | EvCaptureAudioFrame nat "string option"
  | EvAudioStream handle_id "audio_frame stream_message"
  | EvVideoStream handle_id "byte list stream_message"
  | EvPanic string

section \<open>The server\<close>

record ffi_config =
  cf_capture_logs :: bool
  cf_sdk :: string
  cf_sdk_version :: string

text \<open>
  \<open>fs_watchers\<close> are the senders of those who wait for the end of a handle; a waiter whose sender is
  dropped wakes up. \<open>fs_events\<close> is what the callback was called with.
\<close>

record ffi_server =
  fs_handles :: "(handle_id, ffi_object) hmap"
  fs_next_id :: nat
  fs_config :: "ffi_config option"
  fs_capture_logs :: bool
  fs_watchers :: "handle_id \<rightharpoonup> nat list"
  fs_woken :: "nat list"
  fs_events :: "ffi_event list"

definition ffi_server_default :: ffi_server where
  "ffi_server_default =
     \<lparr>fs_handles = [], fs_next_id = 1, fs_config = None, fs_capture_logs = False, fs_watchers = Map.empty,
      fs_woken = [], fs_events = []\<rparr>"

definition ffi_setup :: "ffi_config \<Rightarrow> 'z ffi_server_scheme \<Rightarrow> 'z ffi_server_scheme" where
  "ffi_setup config s = s\<lparr>fs_config := Some config, fs_capture_logs := cf_capture_logs config\<rparr>"

definition is_setup :: "'z ffi_server_scheme \<Rightarrow> bool" where
  "is_setup s \<longleftrightarrow> fs_config s \<noteq> None"

definition send_event :: "ffi_event \<Rightarrow> 'z ffi_server_scheme \<Rightarrow> (ffi_error + unit) \<times> 'z ffi_server_scheme" where
  "send_event event s =
     (case fs_config s of
        None \<Rightarrow> (Inl NotConfigured, s)
      | Some _ \<Rightarrow> (Inr (), s\<lparr>fs_events := fs_events s @ [event]\<rparr>))"

text \<open>\<open>let _ = server.send_event(..)\<close>.\<close>

definition emit :: "ffi_event \<Rightarrow> 'z ffi_server_scheme \<Rightarrow> 'z ffi_server_scheme" where
  "emit event s = snd (send_event event s)"

text \<open>
  The counter is an \<open>AtomicU64\<close>, whose \<open>fetch_add\<close> wraps around: its value is \<open>fs_next_id\<close>, the number of
  identifiers drawn so far and one, as a \<open>u64\<close>.
\<close>

definition counter :: "'z ffi_server_scheme \<Rightarrow> handle_id" where
  "counter s = unat (of_nat (fs_next_id s) :: u64)"

definition next_id :: "'z ffi_server_scheme \<Rightarrow> handle_id \<times> 'z ffi_server_scheme" where
  "next_id s = (counter s, s\<lparr>fs_next_id := Suc (fs_next_id s)\<rparr>)"

definition store_handle :: "handle_id \<Rightarrow> ffi_object \<Rightarrow> 'z ffi_server_scheme \<Rightarrow> 'z ffi_server_scheme" where
  "store_handle i obj s = s\<lparr>fs_handles := AList.update i obj (fs_handles s)\<rparr>"

definition retrieve_handle :: "ffi_kind \<Rightarrow> handle_id \<Rightarrow> 'z ffi_server_scheme \<Rightarrow> ffi_error + ffi_object" where
  "retrieve_handle kind i s =
     (if i = INVALID_HANDLE then Inl (InvalidRequest ''handle is invalid'')
      else case map_of (fs_handles s) i of
        None \<Rightarrow> Inl (InvalidRequest ''handle not found'')
      | Some obj \<Rightarrow>
          if kind_of obj \<noteq> kind then Inl (InvalidRequest (''handle is not a '' @ type_name kind))
          else Inr obj)"

definition take_handle ::
    "ffi_kind \<Rightarrow> handle_id \<Rightarrow> 'z ffi_server_scheme \<Rightarrow> (ffi_error + ffi_object) \<times> 'z ffi_server_scheme" where
  "take_handle kind i s =
     (if i = INVALID_HANDLE then (Inl (InvalidRequest ''handle is invalid''), s)
      else case map_of (fs_handles s) i of
        None \<Rightarrow> (Inl (InvalidRequest ''handle not found''), s)
      | Some obj \<Rightarrow>
          let s = s\<lparr>fs_handles := AList.delete i (fs_handles s)\<rparr> in
          if kind_of obj \<noteq> kind then (Inl (InvalidRequest (''handle is not a '' @ type_name kind)), s)
          else (Inr obj, s))"

definition drop_handle :: "handle_id \<Rightarrow> 'z ffi_server_scheme \<Rightarrow> bool \<times> 'z ffi_server_scheme" where
  "drop_handle i s =
     (map_of (fs_handles s) i \<noteq> None,
      s\<lparr>fs_handles := AList.delete i (fs_handles s),
        fs_woken := fs_woken s @ (case fs_watchers s i of None \<Rightarrow> [] | Some ws \<Rightarrow> ws),
        fs_watchers := (fs_watchers s)(i := None)\<rparr>)"

text \<open>
  \<open>watch_handle_dropped\<close> looks whether there is an entry, creates it, and adds its sender: three
  accesses of a concurrent map. Creating drops the senders of an entry that came in between.
\<close>

definition watch_missing :: "handle_id \<Rightarrow> 'z ffi_server_scheme \<Rightarrow> bool" where
  "watch_missing i s \<longleftrightarrow> fs_watchers s i = None"

definition watch_create :: "handle_id \<Rightarrow> 'z ffi_server_scheme \<Rightarrow> 'z ffi_server_scheme" where
  "watch_create i s =
     s\<lparr>fs_woken := fs_woken s @ (case fs_watchers s i of None \<Rightarrow> [] | Some ws \<Rightarrow> ws),
       fs_watchers := (fs_watchers s)(i \<mapsto> [])\<rparr>"

text \<open>\<open>None\<close> is the panic of \<open>get_mut(..).unwrap()\<close>.\<close>

definition watch_push :: "nat \<Rightarrow> handle_id \<Rightarrow> 'z ffi_server_scheme \<Rightarrow> 'z ffi_server_scheme option" where
  "watch_push waiter i s =
     (case fs_watchers s i of
        None \<Rightarrow> None
      | Some ws \<Rightarrow> Some (s\<lparr>fs_watchers := (fs_watchers s)(i \<mapsto> ws @ [waiter])\<rparr>))"

definition watch_handle_dropped :: "nat \<Rightarrow> handle_id \<Rightarrow> 'z ffi_server_scheme \<Rightarrow> 'z ffi_server_scheme option" where
  "watch_handle_dropped waiter i s =
     watch_push waiter i (if watch_missing i s then watch_create i s else s)"

definition send_panic :: "string \<Rightarrow> 'z ffi_server_scheme \<Rightarrow> 'z ffi_server_scheme" where
  "send_panic err s = emit (EvPanic err) s"

section \<open>Lemmas\<close>

lemma emit_fields [simp]:
  "fs_handles (emit e s) = fs_handles s" "fs_next_id (emit e s) = fs_next_id s"
  "fs_config (emit e s) = fs_config s" "fs_watchers (emit e s) = fs_watchers s"
  "fs_events (emit e s) = (if is_setup s then fs_events s @ [e] else fs_events s)"
  by (simp_all add: emit_def send_event_def is_setup_def split: option.split)

lemma store_handle_fields [simp]:
  "map_of (fs_handles (store_handle i obj s)) = (map_of (fs_handles s))(i \<mapsto> obj)"
  "fs_next_id (store_handle i obj s) = fs_next_id s" "fs_events (store_handle i obj s) = fs_events s"
  "fs_config (store_handle i obj s) = fs_config s"
  by (simp_all add: store_handle_def update_conv')

lemma drop_handle_fields [simp]:
  "map_of (fs_handles (snd (drop_handle i s))) = (map_of (fs_handles s))(i := None)"
  "fs_next_id (snd (drop_handle i s)) = fs_next_id s" "fs_events (snd (drop_handle i s)) = fs_events s"
  "fs_config (snd (drop_handle i s)) = fs_config s"
  by (simp_all add: drop_handle_def delete_conv')

lemma next_id_fields [simp]:
  "fst (next_id s) = counter s" "fs_next_id (snd (next_id s)) = Suc (fs_next_id s)"
  "fs_handles (snd (next_id s)) = fs_handles s" "fs_events (snd (next_id s)) = fs_events s"
  "fs_config (snd (next_id s)) = fs_config s"
  by (simp_all add: next_id_def)

lemma counter_cong: "fs_next_id s' = fs_next_id s \<Longrightarrow> counter s' = counter s"
  by (simp add: counter_def)

lemma counter_fields [simp]:
  "counter (emit e s) = counter s" "counter (store_handle i obj s) = counter s"
  "counter (snd (drop_handle i s)) = counter s"
  by (simp_all add: counter_def)

text \<open>Up to the wrap-around the value is the number of draws.\<close>

lemma counter_less: "fs_next_id s < 2 ^ 64 \<Longrightarrow> counter s = fs_next_id s"
  by (simp add: counter_def unat_of_nat take_bit_nat_eq_self)

text \<open>The table of handles is a keyed table.\<close>

interpretation handles: keyed_table "\<lambda>s :: 'z ffi_server_scheme. map_of (fs_handles s)" store_handle
    "\<lambda>i s. snd (drop_handle i s)" "\<lambda>s. hm_wf (fs_handles s)"
  by unfold_locales
    (auto simp: store_handle_def drop_handle_def update_conv' delete_conv' hm.wf_insert hm.wf_remove)

lemma retrieve_stored:
  "i \<noteq> INVALID_HANDLE \<Longrightarrow> retrieve_handle (kind_of obj) i (store_handle i obj s) = Inr obj"
  by (simp add: retrieve_handle_def)

lemma retrieve_Inr:
  "retrieve_handle kind i s = Inr obj \<longleftrightarrow>
     i \<noteq> INVALID_HANDLE \<and> map_of (fs_handles s) i = Some obj \<and> kind_of obj = kind"
  by (auto simp: retrieve_handle_def split: option.splits if_splits)

text \<open>
  A request that takes a handle of another type fails and removes the object: the client, told
  that the request was invalid, has lost what it still has the handle of.
\<close>

lemma take_wrong_kind_destroys:
  assumes "i \<noteq> INVALID_HANDLE" and "map_of (fs_handles s) i = Some obj" and "kind_of obj \<noteq> kind"
  shows "take_handle kind i s
      = (Inl (InvalidRequest (''handle is not a '' @ type_name kind)), snd (take_handle kind i s))
    \<and> retrieve_handle (kind_of obj) i (snd (take_handle kind i s)) = Inl (InvalidRequest ''handle not found'')"
  using assms by (simp add: take_handle_def retrieve_handle_def delete_conv')

text \<open>
  Two tasks that start to watch the same handle at once: both see no entry, and the second to
  create it wakes the first, as if the handle had been dropped.
\<close>

lemma watchers_race:
  assumes "watch_missing i s" and "a \<notin> set (fs_woken s)"
  shows "\<exists>s1 s2. watch_push a i (watch_create i s) = Some s1 \<and> watch_push b i (watch_create i s1) = Some s2
    \<and> a \<in> set (fs_woken s2) \<and> map_of (fs_handles s2) = map_of (fs_handles s)
    \<and> fs_watchers s2 i = Some [b]"
  using assms by (simp add: watch_missing_def watch_create_def watch_push_def)

end
