(* ===== verification/ColorCvt.thy ===== *)
theory ColorCvt
  imports LkPrelude
begin

text \<open>
  The safe wrappers of libyuv (\<open>imgproc/src/colorcvt\<close>). A slice is an address with a number of elements
  of one or two bytes, an image plane is a slice with a stride and the layout it has in its format.
  libyuv itself is the parameter \<open>yuv\<close>, the code a call returns; what the wrappers owe it is that each plane
  of a call lies in its slice (\<open>call_in_bounds\<close>). Sizes are \<open>u32\<close> products, which wrap in a release
  build; strides and sizes reach libyuv as \<open>i32\<close>.
\<close>

section \<open>Slices, planes and calls\<close>

record slice =
  sl_at :: u64
  sl_len :: nat
  sl_unit :: nat

definition bytes_at :: "u64 \<Rightarrow> nat \<Rightarrow> slice" where
  "bytes_at p n = \<lparr>sl_at = p, sl_len = n, sl_unit = 1\<rparr>"

definition words_at :: "u64 \<Rightarrow> nat \<Rightarrow> slice" where
  "words_at p n = \<lparr>sl_at = p, sl_len = n, sl_unit = 2\<rparr>"

definition split_at_mut :: "nat \<Rightarrow> slice \<Rightarrow> (slice \<times> slice) option" where
  "split_at_mut n s =
     (if n \<le> sl_len s
      then Some (s\<lparr>sl_len := n\<rparr>, s\<lparr>sl_at := sl_at s + of_nat (n * sl_unit s), sl_len := sl_len s - n\<rparr>)
      else None)"

text \<open>
  The layouts: a full plane, chroma of 4:2:0 and of 4:2:2, the interleaved chroma of NV12, and packed
  pixels of three or four bytes. A row and the number of rows are in elements of the slice.
\<close>

datatype (plugins only: code size) layout = Full | Chroma420 | Chroma422 | Interleaved | Packed nat

fun row_length :: "layout \<Rightarrow> nat \<Rightarrow> nat" where
  "row_length Full w = w"
| "row_length Chroma420 w = (w + 1) div 2"
| "row_length Chroma422 w = (w + 1) div 2"
| "row_length Interleaved w = w + w mod 2"
| "row_length (Packed n) w = n * w"

fun row_count :: "layout \<Rightarrow> nat \<Rightarrow> nat" where
  "row_count Chroma420 h = (h + 1) div 2"
| "row_count Interleaved h = (h + 1) div 2"
| "row_count _ h = h"

record plane =
  pl_layout :: layout
  pl_slice :: slice
  pl_stride :: u32

definition plane_of :: "layout \<Rightarrow> slice \<Rightarrow> u32 \<Rightarrow> plane" where
  "plane_of l s n = \<lparr>pl_layout = l, pl_slice = s, pl_stride = n\<rparr>"

record yuv_call =
  yc_name :: string
  yc_src :: "plane list"
  yc_dst :: "plane list"
  yc_width :: u32
  yc_height :: u32

text \<open>
  What libyuv may touch: every element of every row, rows being a signed stride apart. A negative height
  asks for a flipped image.
\<close>

definition in_bounds :: "nat \<Rightarrow> nat \<Rightarrow> plane \<Rightarrow> bool" where
  "in_bounds w h p = (\<forall>r < row_count (pl_layout p) h. \<forall>c < row_length (pl_layout p) w.
     0 \<le> int r * sint (pl_stride p) + int c \<and> int r * sint (pl_stride p) + int c < int (sl_len (pl_slice p)))"

definition call_in_bounds :: "yuv_call \<Rightarrow> bool" where
  "call_in_bounds c = list_all (in_bounds (nat (sint (yc_width c))) (nat \<bar>sint (yc_height c)\<bar>)) (yc_src c @ yc_dst c)"

text \<open>A conversion: the calls it makes, and a result unless it panics.\<close>

type_synonym 'a conversion = "yuv_call list \<times> 'a option"

definition panics :: "'a conversion" where
  "panics = ([], None)"

definition gives :: "'a \<Rightarrow> 'a conversion" where
  "gives x = ([], Some x)"

definition checked :: "bool \<Rightarrow> 'a conversion \<Rightarrow> 'a conversion" where
  "checked b m = (if b then m else panics)"

definition and_then :: "'b conversion \<Rightarrow> 'a conversion \<Rightarrow> 'a conversion" where
  "and_then a b = (case snd a of None \<Rightarrow> (fst a, None) | Some _ \<Rightarrow> (fst a @ fst b, snd b))"

definition call_yuv :: "yuv_call \<Rightarrow> unit conversion" where
  "call_yuv c = ([c], Some ())"

definition call_checked :: "(yuv_call \<Rightarrow> int) \<Rightarrow> yuv_call \<Rightarrow> unit conversion" where
  "call_checked yuv c = ([c], if yuv c = 0 then Some () else None)"

definition flipped :: "bool \<Rightarrow> u32 \<Rightarrow> u32" where
  "flipped flip_y height = (if flip_y then - height else height)"

section \<open>Assertions\<close>

definition valid_420 :: "slice \<Rightarrow> u32 \<Rightarrow> slice \<Rightarrow> u32 \<Rightarrow> slice \<Rightarrow> u32 \<Rightarrow> u32 \<Rightarrow> u32 \<Rightarrow> bool" where
  "valid_420 y sy u su v sv w h =
     (0 < w \<and> 0 < h \<and>
      (let cw = (w + 1) div 2; ch = (h + 1) div 2
       in w \<le> sy \<and> cw \<le> su \<and> cw \<le> sv \<and> unat (sy * h) \<le> sl_len y \<and> unat (su * ch) \<le> sl_len u
          \<and> unat (sv * ch) \<le> sl_len v))"

definition valid_420a :: "slice \<Rightarrow> u32 \<Rightarrow> slice \<Rightarrow> u32 \<Rightarrow> slice \<Rightarrow> u32 \<Rightarrow> slice \<Rightarrow> u32 \<Rightarrow> u32 \<Rightarrow> u32 \<Rightarrow> bool" where
  "valid_420a y sy u su v sv a sa w h =
     (0 < w \<and> 0 < h \<and>
      (let cw = (w + 1) div 2; ch = (h + 1) div 2
       in w \<le> sy \<and> cw \<le> su \<and> cw \<le> sv \<and> w \<le> sa \<and> unat (sy * h) \<le> sl_len y \<and> unat (su * ch) \<le> sl_len u
          \<and> unat (sv * ch) \<le> sl_len v \<and> unat (sa * h) \<le> sl_len a))"

definition valid_422 :: "slice \<Rightarrow> u32 \<Rightarrow> slice \<Rightarrow> u32 \<Rightarrow> slice \<Rightarrow> u32 \<Rightarrow> u32 \<Rightarrow> u32 \<Rightarrow> bool" where
  "valid_422 y sy u su v sv w h =
     (0 < w \<and> 0 < h \<and>
      (let cw = (w + 1) div 2
       in w \<le> sy \<and> cw \<le> su \<and> cw \<le> sv \<and> unat (sy * h) \<le> sl_len y \<and> unat (su * h) \<le> sl_len u
          \<and> unat (sv * h) \<le> sl_len v))"

definition valid_444 :: "slice \<Rightarrow> u32 \<Rightarrow> slice \<Rightarrow> u32 \<Rightarrow> slice \<Rightarrow> u32 \<Rightarrow> u32 \<Rightarrow> u32 \<Rightarrow> bool" where
  "valid_444 y sy u su v sv w h =
     (0 < h \<and> 0 < w \<and> w \<le> sy \<and> w \<le> su \<and> w \<le> sv \<and> unat (sy * h) \<le> sl_len y \<and> unat (su * h) \<le> sl_len u
      \<and> unat (sv * h) \<le> sl_len v)"

definition valid_010 :: "slice \<Rightarrow> u32 \<Rightarrow> slice \<Rightarrow> u32 \<Rightarrow> slice \<Rightarrow> u32 \<Rightarrow> u32 \<Rightarrow> u32 \<Rightarrow> bool" where
  "valid_010 y sy u su v sv w h =
     (0 < h \<and> 0 < w \<and>
      (let cw = (w + 1) div 2; ch = (h + 1) div 2
       in w \<le> sy \<and> cw \<le> su \<and> cw \<le> sv \<and> unat (sy * h) \<le> sl_len y \<and> unat (su * ch) \<le> sl_len u
          \<and> unat (sv * ch) \<le> sl_len v))"

definition valid_nv12 :: "slice \<Rightarrow> u32 \<Rightarrow> slice \<Rightarrow> u32 \<Rightarrow> u32 \<Rightarrow> u32 \<Rightarrow> bool" where
  "valid_nv12 y sy uv suv w h =
     (0 < w \<and> 0 < h \<and>
      (let ch = (h + 1) div 2
       in w \<le> sy \<and> w + w mod 2 \<le> suv \<and> unat (sy * h) \<le> sl_len y \<and> unat (suv * ch) \<le> sl_len uv))"

definition valid_rgba :: "slice \<Rightarrow> u32 \<Rightarrow> u32 \<Rightarrow> u32 \<Rightarrow> bool" where
  "valid_rgba s n w h = (0 < w \<and> 0 < h \<and> w * 4 \<le> n \<and> unat (n * h) \<le> sl_len s)"

definition valid_rgb :: "slice \<Rightarrow> u32 \<Rightarrow> u32 \<Rightarrow> u32 \<Rightarrow> bool" where
  "valid_rgb s n w h = (0 < w \<and> 0 < h \<and> w * 3 \<le> n \<and> unat (n * h) \<le> sl_len s)"

section \<open>Conversions\<close>

text \<open>
  The functions of a macro differ in the libyuv function they call, which is their first argument. In
  the order of the source: planar to packed with four and three bytes, packed to packed, packed to
  planar, planar to planar, and copies.
\<close>

definition planes3 :: "layout \<Rightarrow> layout \<Rightarrow> slice \<Rightarrow> u32 \<Rightarrow> slice \<Rightarrow> u32 \<Rightarrow> slice \<Rightarrow> u32 \<Rightarrow> plane list" where
  "planes3 luma chroma y sy u su v sv = [plane_of luma y sy, plane_of chroma u su, plane_of chroma v sv]"

definition planes2 :: "slice \<Rightarrow> u32 \<Rightarrow> slice \<Rightarrow> u32 \<Rightarrow> plane list" where
  "planes2 y sy uv suv = [plane_of Full y sy, plane_of Interleaved uv suv]"

definition packed :: "nat \<Rightarrow> slice \<Rightarrow> u32 \<Rightarrow> plane list" where
  "packed n s stride = [plane_of (Packed n) s stride]"

definition yuv_call_of :: "string \<Rightarrow> plane list \<Rightarrow> plane list \<Rightarrow> u32 \<Rightarrow> u32 \<Rightarrow> bool \<Rightarrow> yuv_call" where
  "yuv_call_of name src dst width height flip_y =
     \<lparr>yc_name = name, yc_src = src, yc_dst = dst, yc_width = width, yc_height = flipped flip_y height\<rparr>"

definition x420_to_rgba where
  "x420_to_rgba name yuv y sy u su v sv dst sd w h flip_y =
     checked (valid_420 y sy u su v sv w h \<and> valid_rgba dst sd w h)
       (call_checked yuv (yuv_call_of name (planes3 Full Chroma420 y sy u su v sv) (packed 4 dst sd) w h flip_y))"

definition x420_to_rgb where
  "x420_to_rgb name yuv y sy u su v sv dst sd w h flip_y =
     checked (valid_420 y sy u su v sv w h \<and> valid_rgb dst sd w h)
       (call_checked yuv (yuv_call_of name (planes3 Full Chroma420 y sy u su v sv) (packed 3 dst sd) w h flip_y))"

definition rgba_to_rgba where
  "rgba_to_rgba name yuv src ss dst sd w h flip_y =
     checked (valid_rgba src ss w h \<and> valid_rgba dst sd w h)
       (call_checked yuv (yuv_call_of name (packed 4 src ss) (packed 4 dst sd) w h flip_y))"

definition rgba_to_420 where
  "rgba_to_420 name yuv src ss y sy u su v sv w h flip_y =
     checked (valid_rgba src ss w h \<and> valid_420 y sy u su v sv w h)
       (call_checked yuv (yuv_call_of name (packed 4 src ss) (planes3 Full Chroma420 y sy u su v sv) w h flip_y))"

text \<open>The one conversion whose result is not looked at.\<close>

definition raw_to_i420 where
  "raw_to_i420 src ss y sy u su v sv w h flip_y =
     checked (valid_rgb src ss w h \<and> valid_420 y sy u su v sv w h)
       (call_yuv (yuv_call_of ''RAWToI420'' (packed 3 src ss) (planes3 Full Chroma420 y sy u su v sv) w h flip_y))"

definition i422_to_i420 where
  "i422_to_i420 yuv y sy u su v sv y' sy' u' su' v' sv' w h flip_y =
     checked (valid_422 y sy u su v sv w h \<and> valid_420 y' sy' u' su' v' sv' w h)
       (call_checked yuv (yuv_call_of ''I422ToI420'' (planes3 Full Chroma422 y sy u su v sv)
         (planes3 Full Chroma420 y' sy' u' su' v' sv') w h flip_y))"

definition i444_to_i420 where
  "i444_to_i420 yuv y sy u su v sv y' sy' u' su' v' sv' w h flip_y =
     checked (valid_444 y sy u su v sv w h \<and> valid_420 y' sy' u' su' v' sv' w h)
       (call_checked yuv (yuv_call_of ''I444ToI420'' (planes3 Full Full y sy u su v sv)
         (planes3 Full Chroma420 y' sy' u' su' v' sv') w h flip_y))"

definition i010_to_i420 where
  "i010_to_i420 yuv y sy u su v sv y' sy' u' su' v' sv' w h flip_y =
     checked (valid_010 y sy u su v sv w h \<and> valid_420 y' sy' u' su' v' sv' w h)
       (call_checked yuv (yuv_call_of ''I010ToI420'' (planes3 Full Chroma420 y sy u su v sv)
         (planes3 Full Chroma420 y' sy' u' su' v' sv') w h flip_y))"

definition nv12_to_i420 where
  "nv12_to_i420 yuv y sy uv suv y' sy' u' su' v' sv' w h flip_y =
     checked (valid_nv12 y sy uv suv w h \<and> valid_420 y' sy' u' su' v' sv' w h)
       (call_checked yuv (yuv_call_of ''NV12ToI420'' (planes2 y sy uv suv)
         (planes3 Full Chroma420 y' sy' u' su' v' sv') w h flip_y))"

definition x422_to_rgb where
  "x422_to_rgb name yuv y sy u su v sv dst sd w h flip_y =
     checked (valid_422 y sy u su v sv w h \<and> valid_rgb dst sd w h)
       (call_checked yuv (yuv_call_of name (planes3 Full Chroma422 y sy u su v sv) (packed 3 dst sd) w h flip_y))"

definition x422_to_rgba where
  "x422_to_rgba name yuv y sy u su v sv dst sd w h flip_y =
     checked (valid_422 y sy u su v sv w h \<and> valid_rgba dst sd w h)
       (call_checked yuv (yuv_call_of name (planes3 Full Chroma422 y sy u su v sv) (packed 4 dst sd) w h flip_y))"

definition x444_to_rgb where
  "x444_to_rgb name yuv y sy u su v sv dst sd w h flip_y =
     checked (valid_444 y sy u su v sv w h \<and> valid_rgb dst sd w h)
       (call_checked yuv (yuv_call_of name (planes3 Full Full y sy u su v sv) (packed 3 dst sd) w h flip_y))"

definition x444_to_rgba where
  "x444_to_rgba name yuv y sy u su v sv dst sd w h flip_y =
     checked (valid_444 y sy u su v sv w h \<and> valid_rgba dst sd w h)
       (call_checked yuv (yuv_call_of name (planes3 Full Full y sy u su v sv) (packed 4 dst sd) w h flip_y))"

definition x010_to_rgba where
  "x010_to_rgba name yuv y sy u su v sv dst sd w h flip_y =
     checked (valid_010 y sy u su v sv w h \<and> valid_rgba dst sd w h)
       (call_checked yuv (yuv_call_of name (planes3 Full Chroma420 y sy u su v sv) (packed 4 dst sd) w h flip_y))"

definition nv12_to_rgb where
  "nv12_to_rgb name yuv y sy uv suv dst sd w h flip_y =
     checked (valid_nv12 y sy uv suv w h \<and> valid_rgb dst sd w h)
       (call_checked yuv (yuv_call_of name (planes2 y sy uv suv) (packed 3 dst sd) w h flip_y))"

definition nv12_to_rgba where
  "nv12_to_rgba name yuv y sy uv suv dst sd w h flip_y =
     checked (valid_nv12 y sy uv suv w h \<and> valid_rgba dst sd w h)
       (call_checked yuv (yuv_call_of name (planes2 y sy uv suv) (packed 4 dst sd) w h flip_y))"

definition i420_copy where
  "i420_copy yuv y sy u su v sv y' sy' u' su' v' sv' w h flip_y =
     checked (valid_420 y sy u su v sv w h \<and> valid_420 y' sy' u' su' v' sv' w h)
       (call_checked yuv (yuv_call_of ''I420Copy'' (planes3 Full Chroma420 y sy u su v sv)
         (planes3 Full Chroma420 y' sy' u' su' v' sv') w h flip_y))"

definition i420a_copy where
  "i420a_copy yuv y sy u su v sv a sa y' sy' u' su' v' sv' a' sa' w h flip_y =
     checked (valid_420a y sy u su v sv a sa w h \<and> valid_420a y' sy' u' su' v' sv' a' sa' w h)
       (and_then (i420_copy yuv y sy u su v sv y' sy' u' su' v' sv' w h flip_y)
         (call_yuv (yuv_call_of ''CopyPlane'' [plane_of Full a sa] [plane_of Full a' sa'] w h flip_y)))"

definition i422_copy where
  "i422_copy yuv y sy u su v sv y' sy' u' su' v' sv' w h flip_y =
     checked (valid_422 y sy u su v sv w h \<and> valid_422 y' sy' u' su' v' sv' w h)
       (call_checked yuv (yuv_call_of ''I422Copy'' (planes3 Full Chroma422 y sy u su v sv)
         (planes3 Full Chroma422 y' sy' u' su' v' sv') w h flip_y))"

definition i444_copy where
  "i444_copy yuv y sy u su v sv y' sy' u' su' v' sv' w h flip_y =
     checked (valid_444 y sy u su v sv w h \<and> valid_444 y' sy' u' su' v' sv' w h)
       (call_checked yuv (yuv_call_of ''I444Copy'' (planes3 Full Full y sy u su v sv)
         (planes3 Full Full y' sy' u' su' v' sv') w h flip_y))"

definition i010_copy where
  "i010_copy yuv y sy u su v sv y' sy' u' su' v' sv' w h flip_y =
     checked (valid_010 y sy u su v sv w h \<and> valid_010 y' sy' u' su' v' sv' w h)
       (call_checked yuv (yuv_call_of ''I010Copy'' (planes3 Full Chroma420 y sy u su v sv)
         (planes3 Full Chroma420 y' sy' u' su' v' sv') w h flip_y))"

definition nv12_copy where
  "nv12_copy yuv y sy uv suv y' sy' uv' suv' w h flip_y =
     checked (valid_nv12 y sy uv suv w h \<and> valid_nv12 y' sy' uv' suv' w h)
       (call_checked yuv (yuv_call_of ''NV12Copy'' (planes2 y sy uv suv) (planes2 y' sy' uv' suv') w h flip_y))"

text \<open>The functions the macros define.\<close>

abbreviation "i420_to_rgba \<equiv> x420_to_rgba ''I420ToRGBA''"
abbreviation "i420_to_abgr \<equiv> x420_to_rgba ''I420ToABGR''"
abbreviation "i420_to_bgra \<equiv> x420_to_rgba ''I420ToBGRA''"
abbreviation "i420_to_argb \<equiv> x420_to_rgba ''I420ToARGB''"
abbreviation "j420_to_argb \<equiv> x420_to_rgba ''J420ToARGB''"
abbreviation "j420_to_abgr \<equiv> x420_to_rgba ''J420ToABGR''"
abbreviation "h420_to_argb \<equiv> x420_to_rgba ''H420ToARGB''"
abbreviation "h420_to_abgr \<equiv> x420_to_rgba ''H420ToABGR''"
abbreviation "u420_to_argb \<equiv> x420_to_rgba ''U420ToARGB''"
abbreviation "u420_to_abgr \<equiv> x420_to_rgba ''U420ToABGR''"
abbreviation "i420_to_rgb24 \<equiv> x420_to_rgb ''I420ToRGB24''"
abbreviation "i420_to_raw \<equiv> x420_to_rgb ''I420ToRAW''"
abbreviation "abgr_to_argb \<equiv> rgba_to_rgba ''ABGRToARGB''"
abbreviation "argb_to_abgr \<equiv> rgba_to_rgba ''ARGBToABGR''"
abbreviation "rgba_to_argb \<equiv> rgba_to_rgba ''RGBAToARGB''"
abbreviation "bgra_to_argb \<equiv> rgba_to_rgba ''BGRAToARGB''"
abbreviation "rgba_to_i420 \<equiv> rgba_to_420 ''RGBAToI420''"
abbreviation "bgra_to_i420 \<equiv> rgba_to_420 ''BGRAToI420''"
abbreviation "argb_to_i420 \<equiv> rgba_to_420 ''ARGBToI420''"
abbreviation "abgr_to_i420 \<equiv> rgba_to_420 ''ABGRToI420''"
abbreviation "i422_to_abgr \<equiv> x422_to_rgba ''I422ToABGR''"
abbreviation "j422_to_argb \<equiv> x422_to_rgba ''J422ToARGB''"
abbreviation "i422_to_bgra \<equiv> x422_to_rgba ''I422ToBGRA''"
abbreviation "i422_to_rgba \<equiv> x422_to_rgba ''I422ToRGBA''"
abbreviation "i444_to_abgr \<equiv> x444_to_rgba ''I444ToABGR''"
abbreviation "i444_to_argb \<equiv> x444_to_rgba ''I444ToARGB''"
abbreviation "i010_to_abgr \<equiv> x010_to_rgba ''I010ToABGR''"
abbreviation "i010_to_argb \<equiv> x010_to_rgba ''I010ToARGB''"
abbreviation "nv12_to_abgr \<equiv> nv12_to_rgba ''NV12ToABGR''"
abbreviation "nv12_to_argb \<equiv> nv12_to_rgba ''NV12ToARGB''"
abbreviation "i422_to_raw \<equiv> x422_to_rgb ''I422ToRAW''"
abbreviation "i422_to_rgb24 \<equiv> x422_to_rgb ''I422ToRGB24''"
abbreviation "i444_to_raw \<equiv> x444_to_rgb ''I444ToRAW''"
abbreviation "i444_to_rgb24 \<equiv> x444_to_rgb ''I444ToRGB24''"
abbreviation "nv12_to_raw \<equiv> nv12_to_rgb ''NV12ToRAW''"
abbreviation "nv12_to_rgb24 \<equiv> nv12_to_rgb ''NV12ToRGB24''"

section \<open>Memory safety\<close>

text \<open>
  The assertions multiply \<open>u32\<close> numbers. An image is small if none of these products wraps, neither the
  sizes of the new image, of at most four bytes a pixel, nor stride times height of the given planes.
\<close>

definition small_image :: "u32 \<Rightarrow> u32 \<Rightarrow> u32 list \<Rightarrow> bool" where
  "small_image w h strides = (4 * (unat w + 1) * (unat h + 1) < 2 ^ 32 \<and> (\<forall>n \<in> set strides. unat n * unat h < 2 ^ 32))"

definition safe :: "'a conversion \<Rightarrow> bool" where
  "safe m = list_all call_in_bounds (fst m)"

lemma signed_32:
  assumes "0 \<le> k" and "k < 2 ^ 31"
  shows "signed_take_bit 31 k = (k :: int)" "signed_take_bit 31 (- k) = - k"
  using assms by (simp_all add: signed_take_bit_int_eq_self_iff)

lemma uint_less: "unat (n :: u32) < 2 ^ 31 \<Longrightarrow> uint n < 2 ^ 31"
  by (metis of_nat_less_iff of_nat_numeral of_nat_power of_nat_unat)

lemma sint_small: "unat (n :: u32) < 2 ^ 31 \<Longrightarrow> sint n = int (unat n)"
  using uint_less [of n] by (simp add: sint_uint signed_32)

lemma sint_flipped:
  assumes "unat h < 2 ^ 31"
  shows "nat \<bar>sint (flipped flip_y h)\<bar> = unat h"
proof -
  have "sint (- h) = - int (unat h)"
    using sint_small [OF assms] uint_less [OF assms] by (simp add: sint_word_ariths signed_32)
  then show ?thesis using sint_small [OF assms] by (simp add: flipped_def)
qed

lemma small_imageD:
  assumes "small_image w h strides"
  shows "unat w < 2 ^ 28 * 4" "unat h < 2 ^ 28 * 4"
proof -
  obtain m where m: "m = (unat w + 1) * (unat h + 1)" by simp
  have "unat w + 1 \<le> m" "unat h + 1 \<le> m" unfolding m by simp_all
  moreover have "4 * m < 2 ^ 32" using assms by (simp only: small_image_def mult.assoc m)
  ultimately show "unat w < 2 ^ 28 * 4" "unat h < 2 ^ 28 * 4" by simp_all
qed

lemma small_image_Cons:
  "small_image w h (n # ns) \<longleftrightarrow> unat n * unat h < 2 ^ 32 \<and> small_image w h ns"
  by (auto simp: small_image_def)

lemma halves:
  assumes "unat (n :: u32) < 2 ^ 31"
  shows "unat ((n + 1) div 2) = (unat n + 1) div 2"
proof -
  have "unat (n + 1) = unat n + 1" using assms by (simp add: unat_word_ariths)
  then show ?thesis by (simp add: unat_div)
qed

lemma u32_mult:
  assumes "unat n * unat h < 2 ^ 32"
  shows "unat (n * h :: u32) = unat n * unat h"
  using assms by (simp add: unat_word_ariths)

lemma bytes_at_fields [simp]: "sl_at (bytes_at p n) = p" "sl_len (bytes_at p n) = n"
  by (simp_all add: bytes_at_def)

lemma u32_add:
  assumes "unat n + unat h < 2 ^ 32"
  shows "unat (n + h :: u32) = unat n + unat h"
  using assms by (simp add: unat_word_ariths)

lemma half_le: "0 < h \<Longrightarrow> (h + 1) div 2 \<le> (h :: nat)"
  by simp

lemma plane_in_bounds:
  assumes "unat n * row_count l h \<le> sl_len s" and "row_length l w \<le> unat n"
    and "unat n * row_count l h < 2 ^ 32"
  shows "in_bounds w h (plane_of l s n)"
proof -
  { fix r c assume r: "r < row_count l h" and c: "c < row_length l w"
    have stride: "int r * sint n = int (r * unat n)"
    proof (cases "r = 0")
      case False
      with r have "unat n * 2 \<le> unat n * row_count l h" by (intro mult_le_mono2) simp
      with assms(3) have "unat n * 2 < 2 ^ 32" by (rule le_less_trans [rotated])
      then have "unat n < 2 ^ 31" by simp
      then show ?thesis by (simp add: sint_small)
    qed simp
    have "Suc r * unat n \<le> row_count l h * unat n" using r by (intro mult_le_mono1) simp
    then have "r * unat n + c < sl_len s" using c assms(1,2) by (simp add: mult.commute)
    then have "0 \<le> int r * sint n + int c \<and> int r * sint n + int c < int (sl_len s)"
      unfolding stride by (simp flip: of_nat_add of_nat_mult) }
  then show ?thesis by (simp add: in_bounds_def plane_of_def)
qed

lemma call_in_bounds_of:
  assumes "small_image w h strides"
  shows "call_in_bounds (yuv_call_of name src dst w h flip_y) \<longleftrightarrow> list_all (in_bounds (unat w) (unat h)) (src @ dst)"
  using small_imageD [OF assms]
  by (simp add: call_in_bounds_def yuv_call_of_def sint_flipped sint_small)

lemma safe_simps [simp]:
  "safe panics" "safe (gives x)" "safe (checked b m) \<longleftrightarrow> (b \<longrightarrow> safe m)" "safe (call_yuv c) \<longleftrightarrow> call_in_bounds c"
  "safe (call_checked yuv c) \<longleftrightarrow> call_in_bounds c"
  by (auto simp: safe_def panics_def gives_def checked_def call_yuv_def call_checked_def)

lemma safe_and_then: "safe a \<Longrightarrow> safe b \<Longrightarrow> safe (and_then a b)"
  by (auto simp: safe_def and_then_def split: option.split)

text \<open>What an assertion checks puts the planes in bounds.\<close>

lemma chroma_rows:
  assumes "unat n * unat h < 2 ^ 32" and "0 < unat h"
  shows "unat n * ((unat h + 1) div 2) < 2 ^ 32"
proof -
  have "unat n * ((unat h + 1) div 2) \<le> unat n * unat h" using assms(2) by (intro mult_le_mono2 half_le)
  then show ?thesis using assms(1) by (rule le_less_trans)
qed

lemma chroma_size:
  assumes "small_image w h ns" and "unat n * unat h < 2 ^ 32" and "0 < unat h"
  shows "unat (n * ((h + 1) div 2)) = unat n * ((unat h + 1) div 2)"
proof -
  have half: "unat ((h + 1) div 2) = (unat h + 1) div 2"
    using small_imageD [OF assms(1)] by (simp add: halves)
  then show ?thesis using chroma_rows [OF assms(2,3)] by (simp add: u32_mult)
qed

lemma full_plane:
  assumes "unat n * unat h < 2 ^ 32" and "w \<le> n" and "unat (n * h) \<le> sl_len s"
  shows "in_bounds (unat w) (unat h) (plane_of Full s n)"
  using assms by (intro plane_in_bounds) (simp_all add: u32_mult word_le_nat_alt)

lemma chroma_plane:
  assumes "small_image w h ns" and "unat n * unat h < 2 ^ 32" and "0 < h" and "(w + 1) div 2 \<le> n"
    and "unat (n * ((h + 1) div 2)) \<le> sl_len s"
  shows "in_bounds (unat w) (unat h) (plane_of Chroma420 s n)"
proof (rule plane_in_bounds)
  have h: "0 < unat h" using assms(3) by (simp add: word_less_nat_alt)
  show "unat n * row_count Chroma420 (unat h) \<le> sl_len s" "unat n * row_count Chroma420 (unat h) < 2 ^ 32"
    using assms(5) chroma_size [OF assms(1,2) h] chroma_rows [OF assms(2) h] by simp_all
  show "row_length Chroma420 (unat w) \<le> unat n"
    using assms(4) small_imageD [OF assms(1)] by (simp add: word_le_nat_alt halves)
qed

lemma chroma422_plane:
  assumes "small_image w h ns" and "unat n * unat h < 2 ^ 32" and "(w + 1) div 2 \<le> n" and "unat (n * h) \<le> sl_len s"
  shows "in_bounds (unat w) (unat h) (plane_of Chroma422 s n)"
  using assms(2-4) small_imageD [OF assms(1)]
  by (intro plane_in_bounds) (simp_all add: u32_mult word_le_nat_alt halves)

lemma interleaved_plane:
  assumes "small_image w h ns" and "unat n * unat h < 2 ^ 32" and "0 < h" and "w + w mod 2 \<le> n"
    and "unat (n * ((h + 1) div 2)) \<le> sl_len s"
  shows "in_bounds (unat w) (unat h) (plane_of Interleaved s n)"
proof (rule plane_in_bounds)
  have h: "0 < unat h" using assms(3) by (simp add: word_less_nat_alt)
  show "unat n * row_count Interleaved (unat h) \<le> sl_len s" "unat n * row_count Interleaved (unat h) < 2 ^ 32"
    using assms(5) chroma_size [OF assms(1,2) h] chroma_rows [OF assms(2) h] by simp_all
  have "unat (w mod 2) < 2" by (simp add: unat_mod)
  then have "unat (w + w mod 2) = unat w + unat w mod 2"
    using small_imageD [OF assms(1)] by (simp add: unat_word_ariths)
  then show "row_length Interleaved (unat w) \<le> unat n"
    using assms(4) by (simp add: word_le_nat_alt)
qed

lemma packed_plane:
  assumes "small_image w h ns" and "unat n * unat h < 2 ^ 32" and "w * of_nat k \<le> n" and "unat (n * h) \<le> sl_len s"
    and "k \<le> 4"
  shows "in_bounds (unat w) (unat h) (plane_of (Packed k) s n)"
proof (rule plane_in_bounds)
  show "unat n * row_count (Packed k) (unat h) \<le> sl_len s" "unat n * row_count (Packed k) (unat h) < 2 ^ 32"
    using assms(2,4) by (simp_all add: u32_mult)
  have k: "unat (of_nat k :: u32) = k" using assms(5) by (simp add: unat_of_nat)
  have "unat w * k \<le> unat w * 4" using assms(5) by (rule mult_le_mono2)
  moreover have "unat w * 4 < 2 ^ 32" using small_imageD [OF assms(1)] by simp
  ultimately have "unat w * k < 2 ^ 32" by (rule le_less_trans)
  then have "unat (w * of_nat k) = unat w * k" using k by (simp add: u32_mult)
  then show "row_length (Packed k) (unat w) \<le> unat n"
    using assms(3) by (simp add: word_le_nat_alt mult.commute)
qed

text \<open>The planes an assertion admits, and with them every function of the file.\<close>

definition planes_ok :: "u32 \<Rightarrow> u32 \<Rightarrow> plane list \<Rightarrow> bool" where
  "planes_ok w h ps = list_all (in_bounds (unat w) (unat h)) ps"

lemma planes_ok_append [simp]: "planes_ok w h (ps @ qs) \<longleftrightarrow> planes_ok w h ps \<and> planes_ok w h qs"
  by (simp add: planes_ok_def)

lemma call_planes_ok:
  "small_image w h strides \<Longrightarrow> call_in_bounds (yuv_call_of name src dst w h flip_y) \<longleftrightarrow> planes_ok w h src \<and> planes_ok w h dst"
  using call_in_bounds_of [of w h strides name src dst flip_y] by (simp add: planes_ok_def)

lemma valid_planes:
  assumes small: "small_image w h ns"
  shows "valid_420 y sy u su v sv w h \<Longrightarrow> set [sy, su, sv] \<subseteq> set ns
      \<Longrightarrow> planes_ok w h (planes3 Full Chroma420 y sy u su v sv)"
    and "valid_010 y sy u su v sv w h \<Longrightarrow> set [sy, su, sv] \<subseteq> set ns
      \<Longrightarrow> planes_ok w h (planes3 Full Chroma420 y sy u su v sv)"
    and "valid_422 y sy u su v sv w h \<Longrightarrow> set [sy, su, sv] \<subseteq> set ns
      \<Longrightarrow> planes_ok w h (planes3 Full Chroma422 y sy u su v sv)"
    and "valid_444 y sy u su v sv w h \<Longrightarrow> set [sy, su, sv] \<subseteq> set ns
      \<Longrightarrow> planes_ok w h (planes3 Full Full y sy u su v sv)"
    and "valid_nv12 y sy u su w h \<Longrightarrow> set [sy, su] \<subseteq> set ns \<Longrightarrow> planes_ok w h (planes2 y sy u su)"
    and "valid_rgba y sy w h \<Longrightarrow> set [sy] \<subseteq> set ns \<Longrightarrow> planes_ok w h (packed 4 y sy)"
    and "valid_rgb y sy w h \<Longrightarrow> set [sy] \<subseteq> set ns \<Longrightarrow> planes_ok w h (packed 3 y sy)"
    and "valid_420a y sy u su v sv a sa w h \<Longrightarrow> set [sa] \<subseteq> set ns \<Longrightarrow> planes_ok w h [plane_of Full a sa]"
  using small by (simp_all add: planes_ok_def planes3_def planes2_def packed_def Let_def small_image_def
    valid_420_def valid_010_def valid_422_def valid_444_def valid_nv12_def valid_rgba_def valid_rgb_def valid_420a_def
    full_plane chroma_plane [OF small] chroma422_plane [OF small] interleaved_plane [OF small]
    packed_plane [OF small])

lemma wrappers_safe:
  assumes small: "small_image w h ns"
  shows "set [sy, su, sv, sd] \<subseteq> set ns \<Longrightarrow> safe (x420_to_rgba name yuv y sy u su v sv d sd w h flip_y)"
    and "set [sy, su, sv, sd] \<subseteq> set ns \<Longrightarrow> safe (x420_to_rgb name yuv y sy u su v sv d sd w h flip_y)"
    and "set [sy, sd] \<subseteq> set ns \<Longrightarrow> safe (rgba_to_rgba name yuv y sy d sd w h flip_y)"
    and "set [sy, su, sv, sd] \<subseteq> set ns \<Longrightarrow> safe (rgba_to_420 name yuv d sd y sy u su v sv w h flip_y)"
    and "set [sy, su, sv, sd] \<subseteq> set ns \<Longrightarrow> safe (raw_to_i420 d sd y sy u su v sv w h flip_y)"
    and "set [sy, su, sv, sd] \<subseteq> set ns \<Longrightarrow> safe (x422_to_rgb name yuv y sy u su v sv d sd w h flip_y)"
    and "set [sy, su, sv, sd] \<subseteq> set ns \<Longrightarrow> safe (x422_to_rgba name yuv y sy u su v sv d sd w h flip_y)"
    and "set [sy, su, sv, sd] \<subseteq> set ns \<Longrightarrow> safe (x444_to_rgb name yuv y sy u su v sv d sd w h flip_y)"
    and "set [sy, su, sv, sd] \<subseteq> set ns \<Longrightarrow> safe (x444_to_rgba name yuv y sy u su v sv d sd w h flip_y)"
    and "set [sy, su, sv, sd] \<subseteq> set ns \<Longrightarrow> safe (x010_to_rgba name yuv y sy u su v sv d sd w h flip_y)"
    and "set [sy, su, sd] \<subseteq> set ns \<Longrightarrow> safe (nv12_to_rgb name yuv y sy u su d sd w h flip_y)"
    and "set [sy, su, sd] \<subseteq> set ns \<Longrightarrow> safe (nv12_to_rgba name yuv y sy u su d sd w h flip_y)"
  by (simp_all add: call_planes_ok [OF small] valid_planes [OF small] x420_to_rgba_def x420_to_rgb_def
    rgba_to_rgba_def rgba_to_420_def raw_to_i420_def x422_to_rgb_def x422_to_rgba_def x444_to_rgb_def
    x444_to_rgba_def x010_to_rgba_def nv12_to_rgb_def nv12_to_rgba_def)

lemma planar_wrappers_safe:
  assumes small: "small_image w h ns" and strides: "set [sy, su, sv, sy', su', sv'] \<subseteq> set ns"
  shows "safe (i422_to_i420 yuv y sy u su v sv y' sy' u' su' v' sv' w h flip_y)"
    and "safe (i444_to_i420 yuv y sy u su v sv y' sy' u' su' v' sv' w h flip_y)"
    and "safe (i010_to_i420 yuv y sy u su v sv y' sy' u' su' v' sv' w h flip_y)"
    and "safe (nv12_to_i420 yuv y sy u su y' sy' u' su' v' sv' w h flip_y)"
    and "safe (i420_copy yuv y sy u su v sv y' sy' u' su' v' sv' w h flip_y)"
    and "safe (i422_copy yuv y sy u su v sv y' sy' u' su' v' sv' w h flip_y)"
    and "safe (i444_copy yuv y sy u su v sv y' sy' u' su' v' sv' w h flip_y)"
    and "safe (i010_copy yuv y sy u su v sv y' sy' u' su' v' sv' w h flip_y)"
    and "safe (nv12_copy yuv y sy u su y' sy' u' su' w h flip_y)"
    and "set [sa, sa'] \<subseteq> set ns
      \<Longrightarrow> safe (i420a_copy yuv y sy u su v sv a sa y' sy' u' su' v' sv' a' sa' w h flip_y)"
proof -
  note planes = call_planes_ok [OF small] valid_planes [OF small]
  show "safe (i422_to_i420 yuv y sy u su v sv y' sy' u' su' v' sv' w h flip_y)"
    "safe (i444_to_i420 yuv y sy u su v sv y' sy' u' su' v' sv' w h flip_y)"
    "safe (i010_to_i420 yuv y sy u su v sv y' sy' u' su' v' sv' w h flip_y)"
    "safe (nv12_to_i420 yuv y sy u su y' sy' u' su' v' sv' w h flip_y)"
    "safe (i422_copy yuv y sy u su v sv y' sy' u' su' v' sv' w h flip_y)"
    "safe (i444_copy yuv y sy u su v sv y' sy' u' su' v' sv' w h flip_y)"
    "safe (i010_copy yuv y sy u su v sv y' sy' u' su' v' sv' w h flip_y)"
    "safe (nv12_copy yuv y sy u su y' sy' u' su' w h flip_y)"
    using strides by (simp_all add: planes i422_to_i420_def i444_to_i420_def i010_to_i420_def nv12_to_i420_def
      i422_copy_def i444_copy_def i010_copy_def nv12_copy_def)
  show copy: "safe (i420_copy yuv y sy u su v sv y' sy' u' su' v' sv' w h flip_y)"
    using strides by (simp add: planes i420_copy_def)
  show "safe (i420a_copy yuv y sy u su v sv a sa y' sy' u' su' v' sv' a' sa' w h flip_y)"
    if alpha: "set [sa, sa'] \<subseteq> set ns"
  proof -
    have "planes_ok w h [plane_of Full a sa]" "planes_ok w h [plane_of Full a' sa']"
      if "valid_420a y sy u su v sv a sa w h" "valid_420a y' sy' u' su' v' sv' a' sa' w h"
      using that alpha by (auto intro: planes(9))
    then show ?thesis using copy by (simp add: i420a_copy_def safe_and_then planes(1))
  qed
qed

end
