(* ===== verification/FfiVideo.thy ===== *)
theory FfiVideo
  imports FfiServer ColorCvt Proto
begin

text \<open>
  Video buffers of the FFI (\<open>livekit-ffi/src/server/colorcvt\<close>): a client describes an image by addresses,
  strides and sizes, \<open>cvt\<close> converts it into a new allocation and describes that one, and frames go to and
  come from WebRTC. The address of the allocation is the argument \<open>at\<close>; a result is an error or the length
  of the allocation with its description.
\<close>

section \<open>Descriptions\<close>

datatype (plugins only: code size) video_buffer_type =
    Rgba | Abgr | Argb | Bgra | Rgb24 | I420 | I420a | I422 | I444 | I010 | Nv12

fun type_debug :: "video_buffer_type \<Rightarrow> string" where
  "type_debug Rgba = ''Rgba''" | "type_debug Abgr = ''Abgr''" | "type_debug Argb = ''Argb''"
| "type_debug Bgra = ''Bgra''" | "type_debug Rgb24 = ''Rgb24''" | "type_debug I420 = ''I420''"
| "type_debug I420a = ''I420a''" | "type_debug I422 = ''I422''" | "type_debug I444 = ''I444''"
| "type_debug I010 = ''I010''" | "type_debug Nv12 = ''Nv12''"

record component_info =
  ci_data_ptr :: u64
  ci_stride :: u32
  ci_size :: u32

record video_buffer_info =
  vb_type :: video_buffer_type
  vb_width :: u32
  vb_height :: u32
  vb_data_ptr :: u64
  vb_stride :: "u32 option"
  vb_components :: "component_info list"

definition component :: "u64 \<Rightarrow> u32 \<Rightarrow> u32 \<Rightarrow> component_info" where
  "component p stride n = \<lparr>ci_data_ptr = p, ci_stride = stride, ci_size = n\<rparr>"

definition planar_info :: "video_buffer_type \<Rightarrow> u64 \<Rightarrow> u32 \<Rightarrow> u32 \<Rightarrow> component_info list \<Rightarrow> video_buffer_info" where
  "planar_info t p w h cs =
     \<lparr>vb_type = t, vb_width = w, vb_height = h, vb_data_ptr = p, vb_stride = None, vb_components = cs\<rparr>"

definition i420_info where
  "i420_info p y u v w h sy su sv =
     (let ch = (h + 1) div 2
      in planar_info I420 p w h [component y sy (sy * h), component u su (su * ch), component v sv (sv * ch)])"

definition i420a_info where
  "i420a_info p y u v a w h sy su sv sa =
     (let ch = (h + 1) div 2
      in planar_info I420a p w h [component y sy (sy * h), component u su (su * ch), component v sv (sv * ch),
           component a sa (sa * h)])"

definition i422_info where
  "i422_info p y u v w h sy su sv =
     planar_info I422 p w h [component y sy (sy * h), component u su (su * h), component v sv (sv * h)]"

definition i444_info where
  "i444_info p y u v w h sy su sv =
     planar_info I444 p w h [component y sy (sy * h), component u su (su * h), component v sv (sv * h)]"

definition i010_info where
  "i010_info p y u v w h sy su sv =
     (let ch = (h + 1) div 2
      in planar_info I010 p w h [component y sy (sy * h), component u su (su * ch), component v sv (sv * ch)])"

text \<open>The size of the interleaved plane is twice what its rows take.\<close>

definition nv12_info where
  "nv12_info p y uv w h sy suv =
     (let ch = (h + 1) div 2
      in planar_info Nv12 p w h [component y sy (sy * h), component uv suv (suv * ch * 2)])"

definition packed_info :: "u32 \<Rightarrow> u64 \<Rightarrow> video_buffer_type \<Rightarrow> u32 \<Rightarrow> u32 \<Rightarrow> video_buffer_info" where
  "packed_info k p t w h =
     \<lparr>vb_type = t, vb_width = w, vb_height = h, vb_data_ptr = p, vb_stride = Some (w * k), vb_components = []\<rparr>"

definition rgba_info :: "u64 \<Rightarrow> video_buffer_type \<Rightarrow> u32 \<Rightarrow> u32 \<Rightarrow> video_buffer_info" where
  "rgba_info = packed_info 4"

definition rgb_info :: "u64 \<Rightarrow> video_buffer_type \<Rightarrow> u32 \<Rightarrow> u32 \<Rightarrow> video_buffer_info" where
  "rgb_info = packed_info 3"

section \<open>Source slices and new planes\<close>

definition bytes_of :: "component_info \<Rightarrow> slice" where
  "bytes_of c = bytes_at (ci_data_ptr c) (unat (ci_size c))"

definition words_of :: "component_info \<Rightarrow> slice" where
  "words_of c = words_at (ci_data_ptr c) (unat (ci_size c) div 2)"

definition packed_data :: "u32 \<Rightarrow> video_buffer_info \<Rightarrow> slice \<times> u32" where
  "packed_data k buf =
     (let stride = unwrap_or (vb_width buf * k) (vb_stride buf)
      in (bytes_at (vb_data_ptr buf) (unat (stride * vb_height buf)), stride))"

definition two :: "video_buffer_info \<Rightarrow> (component_info \<Rightarrow> component_info \<Rightarrow> 'a conversion) \<Rightarrow> 'a conversion" where
  "two buf k = (case vb_components buf of c0 # c1 # _ \<Rightarrow> k c0 c1 | _ \<Rightarrow> panics)"

definition three ::
    "video_buffer_info \<Rightarrow> (component_info \<Rightarrow> component_info \<Rightarrow> component_info \<Rightarrow> 'a conversion) \<Rightarrow> 'a conversion" where
  "three buf k = (case vb_components buf of c0 # c1 # c2 # _ \<Rightarrow> k c0 c1 c2 | _ \<Rightarrow> panics)"

type_synonym video_result = "ffi_error + (nat \<times> video_buffer_info)"

definition new_planes where
  "new_planes at w h cw ch k =
     (case split_at_mut (unat (w * h)) (bytes_at at (unat (w * h + cw * ch * 2))) of
        None \<Rightarrow> panics
      | Some (y, chroma) \<Rightarrow>
          (case split_at_mut (unat (cw * ch)) chroma of None \<Rightarrow> panics | Some (u, v) \<Rightarrow> k y u v))"

text \<open>The three blocks every conversion ends in: a new I420 image, one of packed pixels, an error.\<close>

definition to_new_i420 ::
    "u64 \<Rightarrow> u32 \<Rightarrow> u32 \<Rightarrow> (slice \<Rightarrow> u32 \<Rightarrow> slice \<Rightarrow> u32 \<Rightarrow> slice \<Rightarrow> u32 \<Rightarrow> unit conversion) \<Rightarrow> video_result conversion" where
  "to_new_i420 at w h convert =
     (let cw = (w + 1) div 2; ch = (h + 1) div 2
      in new_planes at w h cw ch (\<lambda>y u v. and_then (convert y w u cw v cw)
           (gives (Inr (unat (w * h + cw * ch * 2),
             i420_info (sl_at y) (sl_at y) (sl_at u) (sl_at v) w h w cw cw)))))"

definition to_new_packed ::
    "u32 \<Rightarrow> u64 \<Rightarrow> video_buffer_type \<Rightarrow> u32 \<Rightarrow> u32 \<Rightarrow> (slice \<Rightarrow> u32 \<Rightarrow> unit conversion) \<Rightarrow> video_result conversion" where
  "to_new_packed k at dst_type w h convert =
     (let dst = bytes_at at (unat (w * h * k))
      in and_then (convert dst (w * k)) (gives (Inr (sl_len dst, packed_info k (sl_at dst) dst_type w h))))"

abbreviation "to_new_rgba \<equiv> to_new_packed 4"

definition unsupported :: "string \<Rightarrow> video_buffer_type \<Rightarrow> video_result conversion" where
  "unsupported from_type dst_type =
     gives (Inl (InvalidRequest (from_type @ '' to '' @ type_debug dst_type @ '' is not supported'')))"

section \<open>Conversions\<close>

definition cvt_rgba where
  "cvt_rgba yuv at buf dst_type flip_y =
     checked (vb_type buf = Rgba)
       (let w = vb_width buf; h = vb_height buf; (data, stride) = packed_data 4 buf
        in case dst_type of
             I420 \<Rightarrow> to_new_i420 at w h
               (\<lambda>y sy u su v sv. abgr_to_i420 yuv data stride y sy u su v sv w h flip_y)
           | Bgra \<Rightarrow> to_new_rgba at dst_type w h (\<lambda>dst stride. abgr_to_argb yuv data stride dst stride w h flip_y)
           | _ \<Rightarrow> unsupported ''rgba'' dst_type)"

definition cvt_abgr where
  "cvt_abgr yuv at buf dst_type flip_y =
     checked (vb_type buf = Rgba)
       (let w = vb_width buf; h = vb_height buf; (data, stride) = packed_data 4 buf
        in case dst_type of
             I420 \<Rightarrow> to_new_i420 at w h
               (\<lambda>y sy u su v sv. rgba_to_i420 yuv data stride y sy u su v sv w h flip_y)
           | _ \<Rightarrow> unsupported ''abgr'' dst_type)"

definition cvt_argb where
  "cvt_argb yuv at buf dst_type flip_y =
     checked (vb_type buf = Argb)
       (let w = vb_width buf; h = vb_height buf; (data, stride) = packed_data 4 buf
        in case dst_type of
             I420 \<Rightarrow> to_new_i420 at w h
               (\<lambda>y sy u su v sv. bgra_to_i420 yuv data stride y sy u su v sv w h flip_y)
           | _ \<Rightarrow> unsupported ''argb'' dst_type)"

definition cvt_bgra where
  "cvt_bgra yuv at buf dst_type flip_y =
     checked (vb_type buf = Bgra)
       (let w = vb_width buf; h = vb_height buf; (data, stride) = packed_data 4 buf
        in case dst_type of
             I420 \<Rightarrow> to_new_i420 at w h
               (\<lambda>y sy u su v sv. argb_to_i420 yuv data stride y sy u su v sv w h flip_y)
           | Rgba \<Rightarrow> to_new_rgba at dst_type w h (\<lambda>dst stride. argb_to_abgr yuv data stride dst stride w h flip_y)
           | _ \<Rightarrow> unsupported ''bgra'' dst_type)"

definition cvt_rgb24 where
  "cvt_rgb24 yuv at buf dst_type flip_y =
     checked (vb_type buf = Rgb24)
       (let w = vb_width buf; h = vb_height buf; (data, stride) = packed_data 3 buf
        in case dst_type of
             I420 \<Rightarrow> to_new_i420 at w h (\<lambda>y sy u su v sv. raw_to_i420 data stride y sy u su v sv w h flip_y)
           | _ \<Rightarrow> unsupported ''rgb24'' dst_type)"

definition cvt_i420 where
  "cvt_i420 yuv at buf dst_type flip_y =
     checked (vb_type buf = I420) (three buf (\<lambda>c0 c1 c2.
       let w = vb_width buf; h = vb_height buf;
           from_420 = (\<lambda>convert. convert yuv (bytes_of c0) (ci_stride c0) (bytes_of c1) (ci_stride c1)
             (bytes_of c2) (ci_stride c2))
       in case dst_type of
            Rgba \<Rightarrow> to_new_rgba at dst_type w h (\<lambda>dst stride. from_420 i420_to_abgr dst stride w h flip_y)
          | Abgr \<Rightarrow> to_new_rgba at dst_type w h (\<lambda>dst stride. from_420 i420_to_rgba dst stride w h flip_y)
          | Argb \<Rightarrow> to_new_rgba at dst_type w h (\<lambda>dst stride. from_420 i420_to_bgra dst stride w h flip_y)
          | Bgra \<Rightarrow> to_new_rgba at dst_type w h (\<lambda>dst stride. from_420 i420_to_argb dst stride w h flip_y)
          | Rgb24 \<Rightarrow> to_new_packed 3 at dst_type w h (\<lambda>dst stride. from_420 i420_to_raw dst stride w h flip_y)
          | I420 \<Rightarrow> to_new_i420 at w h
              (\<lambda>y sy u su v sv. i420_copy yuv (bytes_of c0) (ci_stride c0) (bytes_of c1) (ci_stride c1)
                (bytes_of c2) (ci_stride c2) y sy u su v sv w h flip_y)
          | _ \<Rightarrow> unsupported ''i420'' dst_type))"

definition cvt_i420a where
  "cvt_i420a yuv at buf dst_type flip_y =
     checked (vb_type buf = I420a) (case vb_components buf of
       c0 # c1 # c2 # c3 # _ \<Rightarrow>
         (let w = vb_width buf; h = vb_height buf
          in case dst_type of
               I420 \<Rightarrow> to_new_i420 at w h
                 (\<lambda>y sy u su v sv. i420_copy yuv (bytes_of c0) (ci_stride c0) (bytes_of c1) (ci_stride c1)
                   (bytes_of c2) (ci_stride c2) y sy u su v sv w h flip_y)
             | I420a \<Rightarrow>
                 (let cw = (w + 1) div 2; ch = (h + 1) div 2; len = unat (w * h + cw * ch * 2 + w * h)
                  in case split_at_mut (unat (w * h)) (bytes_at at len) of
                       None \<Rightarrow> panics
                     | Some (y, chroma) \<Rightarrow>
                   (case split_at_mut (unat (cw * ch)) chroma of
                       None \<Rightarrow> panics
                     | Some (u, va) \<Rightarrow>
                   (case split_at_mut (unat (cw * ch)) va of
                       None \<Rightarrow> panics
                     | Some (v, a) \<Rightarrow>
                         and_then (i420a_copy yuv (bytes_of c0) (ci_stride c0) (bytes_of c1) (ci_stride c1)
                             (bytes_of c2) (ci_stride c2) (bytes_of c3) (ci_stride c3)
                             y w u cw v cw a w w h flip_y)
                           (gives (Inr (len, i420a_info (sl_at y) (sl_at y) (sl_at u) (sl_at v) (sl_at a)
                              w h w cw cw w))))))
             | _ \<Rightarrow> unsupported ''i420a'' dst_type)
     | _ \<Rightarrow> panics)"

definition cvt_i422 where
  "cvt_i422 yuv at buf dst_type flip_y =
     checked (vb_type buf = I422) (three buf (\<lambda>c0 c1 c2.
       let w = vb_width buf; h = vb_height buf;
           from_422 = (\<lambda>convert. convert yuv (bytes_of c0) (ci_stride c0) (bytes_of c1) (ci_stride c1)
             (bytes_of c2) (ci_stride c2))
       in case dst_type of
            Rgba \<Rightarrow> to_new_rgba at dst_type w h (\<lambda>dst stride. from_422 i422_to_abgr dst stride w h flip_y)
          | Abgr \<Rightarrow> to_new_rgba at dst_type w h (\<lambda>dst stride. from_422 i422_to_rgba dst stride w h flip_y)
          | Argb \<Rightarrow> to_new_rgba at dst_type w h (\<lambda>dst stride. from_422 i422_to_bgra dst stride w h flip_y)
          | I420 \<Rightarrow> to_new_i420 at w h
              (\<lambda>y sy u su v sv. i422_to_i420 yuv (bytes_of c0) (ci_stride c0) (bytes_of c1) (ci_stride c1)
                (bytes_of c2) (ci_stride c2) y sy u su v sv w h flip_y)
          | I422 \<Rightarrow>
              (let cw = (w + 1) div 2; ch = h
               in new_planes at w h cw ch (\<lambda>y u v.
                    and_then (i422_copy yuv (bytes_of c0) (ci_stride c0) (bytes_of c1) (ci_stride c1)
                        (bytes_of c2) (ci_stride c2) y w u cw v cw w h flip_y)
                      (gives (Inr (unat (w * h + cw * ch * 2),
                         i422_info (sl_at y) (sl_at y) (sl_at u) (sl_at v) w h w cw cw)))))
          | _ \<Rightarrow> unsupported ''i422'' dst_type))"

text \<open>The copy of an I444 image names the third plane of the source.\<close>

definition cvt_i444 where
  "cvt_i444 yuv at buf dst_type flip_y =
     checked (vb_type buf = I444) (three buf (\<lambda>c0 c1 c2.
       let w = vb_width buf; h = vb_height buf;
           from_444 = (\<lambda>convert. convert yuv (bytes_of c0) (ci_stride c0) (bytes_of c1) (ci_stride c1)
             (bytes_of c2) (ci_stride c2))
       in case dst_type of
            Rgba \<Rightarrow> to_new_rgba at dst_type w h (\<lambda>dst stride. from_444 i444_to_abgr dst stride w h flip_y)
          | Bgra \<Rightarrow> to_new_rgba at dst_type w h (\<lambda>dst stride. from_444 i444_to_argb dst stride w h flip_y)
          | I420 \<Rightarrow> to_new_i420 at w h
              (\<lambda>y sy u su v sv. i444_to_i420 yuv (bytes_of c0) (ci_stride c0) (bytes_of c1) (ci_stride c1)
                (bytes_of c2) (ci_stride c2) y sy u su v sv w h flip_y)
          | I444 \<Rightarrow>
              new_planes at w h w h (\<lambda>y u v.
                and_then (i444_copy yuv (bytes_of c0) (ci_stride c0) (bytes_of c1) (ci_stride c1)
                    (bytes_of c2) (ci_stride c2) y w u w v w w h flip_y)
                  (gives (Inr (unat (w * h + w * h * 2),
                     i444_info (sl_at y) (sl_at y) (sl_at u) (sl_at (bytes_of c2)) w h w w w))))
          | _ \<Rightarrow> unsupported ''i444'' dst_type))"

definition cvt_i010 where
  "cvt_i010 yuv at buf dst_type flip_y =
     checked (vb_type buf = I010) (three buf (\<lambda>c0 c1 c2.
       let w = vb_width buf; h = vb_height buf;
           from_010 = (\<lambda>convert. convert yuv (words_of c0) (ci_stride c0) (words_of c1) (ci_stride c1)
             (words_of c2) (ci_stride c2))
       in case dst_type of
            Rgba \<Rightarrow> to_new_rgba at dst_type w h (\<lambda>dst stride. from_010 i010_to_abgr dst stride w h flip_y)
          | Bgra \<Rightarrow> to_new_rgba at dst_type w h (\<lambda>dst stride. from_010 i010_to_argb dst stride w h flip_y)
          | I420 \<Rightarrow> to_new_i420 at w h
              (\<lambda>y sy u su v sv. i010_to_i420 yuv (words_of c0) (ci_stride c0) (words_of c1) (ci_stride c1)
                (words_of c2) (ci_stride c2) y sy u su v sv w h flip_y)
          | _ \<Rightarrow> unsupported ''i010'' dst_type))"

text \<open>The copy of an NV12 image uses the width of a chroma plane as the stride of the interleaved one.\<close>

definition cvt_nv12 where
  "cvt_nv12 yuv at buf dst_type flip_y =
     checked (vb_type buf = Nv12) (two buf (\<lambda>c0 c1.
       let w = vb_width buf; h = vb_height buf;
           from_nv12 = (\<lambda>convert. convert yuv (bytes_of c0) (ci_stride c0) (bytes_of c1) (ci_stride c1))
       in case dst_type of
            Rgba \<Rightarrow> to_new_rgba at dst_type w h (\<lambda>dst stride. from_nv12 nv12_to_abgr dst stride w h flip_y)
          | Bgra \<Rightarrow> to_new_rgba at dst_type w h (\<lambda>dst stride. from_nv12 nv12_to_argb dst stride w h flip_y)
          | I420 \<Rightarrow> to_new_i420 at w h
              (\<lambda>y sy u su v sv. nv12_to_i420 yuv (bytes_of c0) (ci_stride c0) (bytes_of c1) (ci_stride c1)
                y sy u su v sv w h flip_y)
          | Nv12 \<Rightarrow>
              (let cw = (w + 1) div 2; ch = (h + 1) div 2; len = unat (w * h + cw * ch * 2)
               in case split_at_mut (unat (w * h)) (bytes_at at len) of
                    None \<Rightarrow> panics
                  | Some (y, uv) \<Rightarrow>
                      and_then (nv12_copy yuv (bytes_of c0) (ci_stride c0) (bytes_of c1) (ci_stride c1)
                          y w uv cw w h flip_y)
                        (gives (Inr (len, nv12_info (sl_at y) (sl_at y) (sl_at uv) w h w cw))))
          | _ \<Rightarrow> unsupported ''nv12'' dst_type))"

definition cvt where
  "cvt yuv at buf dst_type flip_y =
     (case vb_type buf of
        Rgba \<Rightarrow> cvt_rgba yuv at buf dst_type flip_y
      | Abgr \<Rightarrow> cvt_abgr yuv at buf dst_type flip_y
      | Argb \<Rightarrow> cvt_argb yuv at buf dst_type flip_y
      | Bgra \<Rightarrow> cvt_bgra yuv at buf dst_type flip_y
      | Rgb24 \<Rightarrow> cvt_rgb24 yuv at buf dst_type flip_y
      | I420 \<Rightarrow> cvt_i420 yuv at buf dst_type flip_y
      | I420a \<Rightarrow> cvt_i420a yuv at buf dst_type flip_y
      | I422 \<Rightarrow> cvt_i422 yuv at buf dst_type flip_y
      | I444 \<Rightarrow> cvt_i444 yuv at buf dst_type flip_y
      | I010 \<Rightarrow> cvt_i010 yuv at buf dst_type flip_y
      | Nv12 \<Rightarrow> cvt_nv12 yuv at buf dst_type flip_y)"

section \<open>Memory safety\<close>

text \<open>The strides a conversion takes from a description.\<close>

fun pixel_bytes :: "video_buffer_type \<Rightarrow> nat" where
  "pixel_bytes Rgb24 = 3"
| "pixel_bytes _ = 4"

fun layouts :: "video_buffer_type \<Rightarrow> layout list" where
  "layouts I420 = [Full, Chroma420, Chroma420]"
| "layouts I420a = [Full, Chroma420, Chroma420, Full]"
| "layouts I422 = [Full, Chroma422, Chroma422]"
| "layouts I444 = [Full, Full, Full]"
| "layouts I010 = [Full, Chroma420, Chroma420]"
| "layouts Nv12 = [Full, Interleaved]"
| "layouts _ = []"

definition buffer_strides :: "video_buffer_info \<Rightarrow> u32 list" where
  "buffer_strides buf =
     (if layouts (vb_type buf) = []
      then [unwrap_or (vb_width buf * of_nat (pixel_bytes (vb_type buf))) (vb_stride buf)]
      else map ci_stride (take (length (layouts (vb_type buf))) (vb_components buf)))"

abbreviation small_buffer :: "video_buffer_info \<Rightarrow> bool" where
  "small_buffer buf \<equiv> small_image (vb_width buf) (vb_height buf) (buffer_strides buf)"

lemma small_new:
  assumes "small_image w h ns"
  shows "small_image w h (w # (w + 1) div 2 # w * 4 # w * 3 # ns)"
proof -
  obtain m where m: "m = (unat w + 1) * (unat h + 1)" by simp
  have "4 * m < 2 ^ 32" using assms by (simp only: small_image_def mult.assoc m)
  have w: "unat (w * 4) = 4 * unat w" "unat (w * 3) = 3 * unat w" "unat ((w + 1) div 2) = (unat w + 1) div 2"
    using small_imageD [OF assms] by (simp_all add: unat_word_ariths halves)
  note \<open>4 * m < 2 ^ 32\<close>
  moreover have "unat h * unat w \<le> m" "unat w * unat h \<le> m" unfolding m by simp_all
  moreover have "(unat w + 1) div 2 * unat h \<le> m" unfolding m by (intro mult_le_mono) simp_all
  ultimately show ?thesis
    using assms by (simp add: small_image_Cons w mult.assoc)
qed

lemma safe_new_planes:
  assumes "\<And>y u v. safe (k y u v)"
  shows "safe (new_planes at w h cw ch k)"
  using assms by (simp add: new_planes_def split: option.split)

lemma safe_to_new_i420:
  assumes "\<And>y u v. safe (convert y w u ((w + 1) div 2) v ((w + 1) div 2))"
  shows "safe (to_new_i420 at w h convert)"
  using assms by (simp add: to_new_i420_def Let_def safe_new_planes safe_and_then)

lemma safe_to_new_packed:
  assumes "\<And>d. safe (convert d (w * k))"
  shows "safe (to_new_packed k at t w h convert)"
  using assms by (simp add: to_new_packed_def Let_def safe_and_then)

lemma safe_unsupported [simp]: "safe (unsupported t dst)"
  by (simp add: unsupported_def)

lemmas safe_blocks = safe_to_new_i420 safe_to_new_packed safe_new_planes safe_and_then

lemma cvt_packed_safe:
  assumes small: "small_image (vb_width buf) (vb_height buf)
    [vb_width buf, (vb_width buf + 1) div 2, vb_width buf * 4, vb_width buf * 3, stride]"
  shows "packed_data 4 buf = (data, stride) \<Longrightarrow> safe (cvt_rgba yuv at buf dst flip_y)"
    and "packed_data 4 buf = (data, stride) \<Longrightarrow> safe (cvt_abgr yuv at buf dst flip_y)"
    and "packed_data 4 buf = (data, stride) \<Longrightarrow> safe (cvt_argb yuv at buf dst flip_y)"
    and "packed_data 4 buf = (data, stride) \<Longrightarrow> safe (cvt_bgra yuv at buf dst flip_y)"
    and "packed_data 3 buf = (data, stride) \<Longrightarrow> safe (cvt_rgb24 yuv at buf dst flip_y)"
  by (auto simp: cvt_rgba_def cvt_abgr_def cvt_argb_def cvt_bgra_def cvt_rgb24_def Let_def wrappers_safe [OF small]
      intro!: safe_blocks split: video_buffer_type.split)

lemma cvt_planar_safe:
  assumes cs: "vb_components buf = c0 # c1 # c2 # cs"
    and small: "small_image (vb_width buf) (vb_height buf)
      [vb_width buf, (vb_width buf + 1) div 2, vb_width buf * 4, vb_width buf * 3, ci_stride c0, ci_stride c1, ci_stride c2]"
  shows "safe (cvt_i420 yuv at buf dst flip_y)" and "safe (cvt_i422 yuv at buf dst flip_y)"
    and "safe (cvt_i444 yuv at buf dst flip_y)" and "safe (cvt_i010 yuv at buf dst flip_y)"
  by (auto simp: cvt_i420_def cvt_i422_def cvt_i444_def cvt_i010_def three_def cs Let_def wrappers_safe [OF small]
      planar_wrappers_safe [OF small] intro!: safe_blocks split: video_buffer_type.split)

lemma cvt_nv12_safe:
  assumes cs: "vb_components buf = c0 # c1 # cs"
    and small: "small_image (vb_width buf) (vb_height buf)
      [vb_width buf, (vb_width buf + 1) div 2, vb_width buf * 4, vb_width buf * 3, ci_stride c0, ci_stride c1]"
  shows "safe (cvt_nv12 yuv at buf dst flip_y)"
  by (auto simp: cvt_nv12_def two_def cs Let_def wrappers_safe [OF small]
      planar_wrappers_safe(4) [OF small, where sv = "ci_stride c0"]
      planar_wrappers_safe(9) [OF small, where sv = "ci_stride c0" and sv' = "vb_width buf"]
      intro!: safe_blocks split: video_buffer_type.split option.split)

lemma cvt_i420a_safe:
  assumes cs: "vb_components buf = c0 # c1 # c2 # c3 # cs"
    and small: "small_image (vb_width buf) (vb_height buf) [vb_width buf, (vb_width buf + 1) div 2, vb_width buf * 4,
      vb_width buf * 3, ci_stride c0, ci_stride c1, ci_stride c2, ci_stride c3]"
  shows "safe (cvt_i420a yuv at buf dst flip_y)"
  by (auto simp: cvt_i420a_def cs Let_def planar_wrappers_safe [OF small]
      intro!: safe_blocks split: video_buffer_type.split option.split)

lemma small_perm:
  assumes "small_image w h ms" and "set ns \<subseteq> set ms"
  shows "small_image w h ns"
  using assms by (auto simp: small_image_def)

lemma packed_stride:
  assumes "layouts (vb_type buf) = []" and "small_buffer buf" and "k = of_nat (pixel_bytes (vb_type buf))"
  obtains data stride where "packed_data k buf = (data, stride)"
    and "small_image (vb_width buf) (vb_height buf)
      [vb_width buf, (vb_width buf + 1) div 2, vb_width buf * 4, vb_width buf * 3, stride]"
proof
  show "packed_data k buf = (fst (packed_data k buf), snd (packed_data k buf))" by simp
  show "small_image (vb_width buf) (vb_height buf)
      [vb_width buf, (vb_width buf + 1) div 2, vb_width buf * 4, vb_width buf * 3, snd (packed_data k buf)]"
    using small_new [OF assms(2)] assms(1,3)
    by (auto simp: buffer_strides_def packed_data_def Let_def elim: small_perm)
qed

lemma planar_cases:
  assumes "small_buffer buf" and "length (layouts (vb_type buf)) \<le> length (vb_components buf)"
    and "layouts (vb_type buf) \<noteq> []"
  shows "small_image (vb_width buf) (vb_height buf) (vb_width buf # (vb_width buf + 1) div 2 # vb_width buf * 4 #
    vb_width buf * 3 # map ci_stride (take (length (layouts (vb_type buf))) (vb_components buf)))"
  using small_new [OF assms(1)] assms(3) by (simp add: buffer_strides_def)

lemma three_short: "length (vb_components buf) < 3 \<Longrightarrow> three buf k = panics"
  by (auto simp: three_def split: list.split)

lemma two_short: "length (vb_components buf) < 2 \<Longrightarrow> two buf k = panics"
  by (auto simp: two_def split: list.split)

lemma i420a_short: "length (vb_components buf) < 4 \<Longrightarrow> safe (cvt_i420a yuv at buf dst flip_y)"
  by (auto simp: cvt_i420a_def split: list.split)

lemma cvt_short:
  assumes "length (vb_components buf) < length (layouts (vb_type buf))"
  shows "safe (cvt yuv at buf dst flip_y)"
  using assms
  by (cases "vb_type buf")
    (simp_all add: cvt_def cvt_i420_def cvt_i422_def cvt_i444_def cvt_i010_def cvt_nv12_def three_short two_short
      i420a_short)

lemma long_list:
  assumes "n \<le> length xs"
  obtains ys zs where "xs = ys @ zs" "length ys = n"
  using assms by (metis append_take_drop_id length_take min.absorb2)

lemma cvt_safe:
  assumes small: "small_buffer buf"
  shows "safe (cvt yuv at buf dst flip_y)"
proof (cases "layouts (vb_type buf) = []")
  case True
  obtain data stride where "packed_data (of_nat (pixel_bytes (vb_type buf))) buf = (data, stride)"
    and s: "small_image (vb_width buf) (vb_height buf)
      [vb_width buf, (vb_width buf + 1) div 2, vb_width buf * 4, vb_width buf * 3, stride]"
    using packed_stride [OF True small refl] .
  then show ?thesis
    using True by (cases "vb_type buf") (simp_all add: cvt_def cvt_packed_safe [OF s])
next
  case False
  show ?thesis
  proof (cases "length (layouts (vb_type buf)) \<le> length (vb_components buf)")
    case long: True
    then obtain ys zs where ys: "vb_components buf = ys @ zs" "length ys = length (layouts (vb_type buf))"
      by (rule long_list)
    note s = planar_cases [OF small long False, unfolded ys(1)]
    show ?thesis
      using False ys s
      by (cases "vb_type buf")
        (auto simp: cvt_def length_Suc_conv numeral_eq_Suc intro!: cvt_planar_safe cvt_nv12_safe cvt_i420a_safe)
  qed (simp add: cvt_short)
qed

text \<open>
  C18. Converting a video buffer stays in bounds: on an image whose sizes do not wrap every row of every plane
  that a conversion hands to libyuv lies in its slice, whatever the strides, sizes and components the
  client describes.
\<close>

theorem conversions_in_bounds:
  assumes "small_buffer buf"
  shows "list_all call_in_bounds (fst (cvt yuv at buf dst_type flip_y))"
  using cvt_safe [OF assms] by (simp add: safe_def)

lemma conversions_in_bounds_witness:
  "let buf = \<lparr>vb_type = I420, vb_width = 4, vb_height = 2, vb_data_ptr = 64, vb_stride = None,
       vb_components = [component 64 8 16, component 80 4 4, component 84 4 4]\<rparr>
   in list_all call_in_bounds (fst (cvt (\<lambda>_. 0) 4096 buf Rgba True)) \<and> length (fst (cvt (\<lambda>_. 0) 4096 buf Rgba True)) = 1"
proof -
  let ?buf = "\<lparr>vb_type = I420, vb_width = 4, vb_height = 2, vb_data_ptr = 64, vb_stride = None,
    vb_components = [component 64 8 16, component 80 4 4, component 84 4 4]\<rparr>"
  have "small_buffer ?buf" by (simp add: buffer_strides_def small_image_def component_def)
  then have "list_all call_in_bounds (fst (cvt (\<lambda>_. 0) 4096 ?buf Rgba True))" by (rule conversions_in_bounds)
  moreover have "length (fst (cvt (\<lambda>_. 0) 4096 ?buf Rgba True)) = 1" by code_simp
  ultimately show ?thesis by (simp only: Let_def)
qed

end
