(* ===== verification/FfiConvert.thy ===== *)
theory FfiConvert
  imports FfiVideo
begin

text \<open>
  What the conversions of \<open>FfiVideo\<close> give: which pairs of formats are converted, refused or panic, and that
  the new description describes the new allocation plane by plane, so that a converted image can be
  converted and captured again.
\<close>

section \<open>Well-described images\<close>

definition component_ok :: "nat \<Rightarrow> nat \<Rightarrow> nat \<Rightarrow> layout \<Rightarrow> component_info \<Rightarrow> bool" where
  "component_ok unit w h l c =
     (row_length l w \<le> unat (ci_stride c) \<and> unat (ci_stride c) * row_count l h * unit \<le> unat (ci_size c))"

fun sample_bytes :: "video_buffer_type \<Rightarrow> nat" where
  "sample_bytes I010 = 2"
| "sample_bytes _ = 1"

definition buffer_ok :: "video_buffer_info \<Rightarrow> bool" where
  "buffer_ok buf =
     (let t = vb_type buf; w = unat (vb_width buf); h = unat (vb_height buf)
      in 0 < w \<and> 0 < h \<and> small_buffer buf \<and>
         (if layouts t = [] then list_all (\<lambda>n. pixel_bytes t * w \<le> unat n) (buffer_strides buf)
          else length (layouts t) \<le> length (vb_components buf) \<and>
            list_all2 (component_ok (sample_bytes t) w h) (layouts t)
              (take (length (layouts t)) (vb_components buf))))"

fun tiled :: "u64 \<Rightarrow> nat \<Rightarrow> component_info list \<Rightarrow> bool" where
  "tiled at n [] = (n = 0)"
| "tiled at n (c # cs) =
     (ci_data_ptr c = at \<and> unat (ci_size c) \<le> n
      \<and> tiled (at + of_nat (unat (ci_size c))) (n - unat (ci_size c)) cs)"

text \<open>
  A description that fills an allocation: rows without padding, planes of the size of their rows, one after
  the other.
\<close>

definition exact :: "nat \<Rightarrow> nat \<Rightarrow> layout \<Rightarrow> component_info \<Rightarrow> bool" where
  "exact w h l c =
     (unat (ci_stride c) = row_length l w \<and> unat (ci_size c) = row_length l w * row_count l h)"

definition fills :: "u64 \<Rightarrow> nat \<Rightarrow> video_buffer_info \<Rightarrow> bool" where
  "fills at len info =
     (let t = vb_type info; w = unat (vb_width info); h = unat (vb_height info)
      in vb_data_ptr info = at \<and> buffer_ok info \<and>
         (if layouts t = []
          then list_all (\<lambda>n. unat n = pixel_bytes t * w \<and> unat n * h = len) (buffer_strides info)
          else list_all2 (exact w h) (layouts t) (vb_components info) \<and> tiled at len (vb_components info)))"

section \<open>New planes\<close>

lemma small_products:
  assumes "small_image w h ns" and "unat cw \<le> unat w" and "unat ch \<le> unat h"
  shows "unat (w * h) = unat w * unat h" "unat (cw * ch) = unat cw * unat ch"
    and "unat (w * h + cw * ch * 2) = unat w * unat h + 2 * (unat cw * unat ch)"
    and "unat (w * h + cw * ch * 2 + w * h) = 2 * (unat w * unat h) + 2 * (unat cw * unat ch)"
proof -
  obtain m p q where m: "m = (unat w + 1) * (unat h + 1)" and pq: "p = unat w * unat h" "q = unat cw * unat ch"
    by simp
  have "4 * m < 2 ^ 32" using assms(1) by (simp only: small_image_def mult.assoc m)
  moreover have "p \<le> m" unfolding m pq by simp
  moreover have "q \<le> p" unfolding pq using assms(2,3) by (rule mult_le_mono)
  ultimately have bounds: "p < 2 ^ 32" "q < 2 ^ 32" "q * 2 < 2 ^ 32" "p + q * 2 < 2 ^ 32" "p + q * 2 + p < 2 ^ 32"
    by simp_all
  show wh: "unat (w * h) = unat w * unat h" and c: "unat (cw * ch) = unat cw * unat ch"
    using bounds(1,2) by (simp_all only: pq u32_mult)
  have two: "unat (cw * ch * 2) = q * 2"
    using bounds(3) c u32_mult [of "cw * ch" 2] by (simp flip: pq)
  have sum: "unat (w * h + cw * ch * 2) = p + q * 2"
    using bounds(4) wh two u32_add [of "w * h" "cw * ch * 2"] by (simp flip: pq)
  then show "unat (w * h + cw * ch * 2) = unat w * unat h + 2 * (unat cw * unat ch)" by (simp flip: pq)
  have "unat (w * h + cw * ch * 2 + w * h) = p + q * 2 + p"
    using bounds(5) wh sum u32_add [of "w * h + cw * ch * 2" "w * h"] by (simp flip: pq)
  then show "unat (w * h + cw * ch * 2 + w * h) = 2 * (unat w * unat h) + 2 * (unat cw * unat ch)"
    by (simp flip: pq)
qed

lemma new_planes_split:
  assumes "small_image w h ns" and "unat cw \<le> unat w" and "unat ch \<le> unat h"
  shows "new_planes at w h cw ch k = k (bytes_at at (unat w * unat h))
    (bytes_at (at + of_nat (unat w * unat h)) (unat cw * unat ch))
    (bytes_at (at + of_nat (unat w * unat h) + of_nat (unat cw * unat ch)) (unat cw * unat ch))"
proof -
  obtain p q where pq: "p = unat w * unat h" "q = unat cw * unat ch" by simp
  note sizes = small_products [OF assms, folded pq]
  have "new_planes at w h cw ch k = k (bytes_at at p) (bytes_at (at + of_nat p) q) (bytes_at (at + of_nat p + of_nat q) q)"
    by (simp add: new_planes_def split_at_mut_def bytes_at_def sizes)
  then show ?thesis by (simp only: pq)
qed

lemma chroma_le:
  assumes "small_image w h ns" and "0 < unat w" and "0 < unat h"
  shows "unat ((w + 1) div 2) = (unat w + 1) div 2" "unat ((h + 1) div 2) = (unat h + 1) div 2"
    "unat ((w + 1) div 2) \<le> unat w" "unat ((h + 1) div 2) \<le> unat h"
  using small_imageD [OF assms(1)] assms(2,3) by (simp_all add: halves)

section \<open>Calls that succeed\<close>

text \<open>libyuv accepts an image that is not empty and whose planes are in bounds.\<close>

definition accepting :: "(yuv_call \<Rightarrow> int) \<Rightarrow> bool" where
  "accepting yuv \<longleftrightarrow>
     (\<forall>c. call_in_bounds c \<and> 0 < sint (yc_width c) \<and> yc_height c \<noteq> 0 \<longrightarrow> yuv c = 0)"

lemma accepts:
  assumes "accepting yuv" and "small_image w h ns" and "0 < unat w" and "0 < unat h"
    and "planes_ok w h src" and "planes_ok w h dst"
  shows "yuv (yuv_call_of name src dst w h flip_y) = 0"
proof -
  have "call_in_bounds (yuv_call_of name src dst w h flip_y)"
    using assms(5,6) by (simp add: call_planes_ok [OF assms(2)])
  moreover have "sint w = int (unat w)" using small_imageD [OF assms(2)] by (intro sint_small) simp
  then have "0 < sint w" using assms(3) by (simp only: of_nat_0_less_iff)
  moreover have "h \<noteq> 0" using assms(4) by auto
  ultimately show ?thesis using assms(1) by (simp add: accepting_def yuv_call_of_def flipped_def)
qed

lemma snd_and_then: "snd a = Some x \<Longrightarrow> snd (and_then a b) = snd b"
  by (simp add: and_then_def)

lemma wrappers_succeed:
  assumes yuv: "accepting yuv" and small: "small_image w h ns" and pos: "0 < unat w" "0 < unat h"
  shows "set [sy, su, sv, sd] \<subseteq> set ns \<Longrightarrow> valid_420 y sy u su v sv w h \<Longrightarrow> valid_rgba d sd w h
      \<Longrightarrow> snd (x420_to_rgba name yuv y sy u su v sv d sd w h flip_y) = Some ()"
    and "set [sy, su, sv, sd] \<subseteq> set ns \<Longrightarrow> valid_420 y sy u su v sv w h \<Longrightarrow> valid_rgb d sd w h
      \<Longrightarrow> snd (x420_to_rgb name yuv y sy u su v sv d sd w h flip_y) = Some ()"
    and "set [sy, sd] \<subseteq> set ns \<Longrightarrow> valid_rgba y sy w h \<Longrightarrow> valid_rgba d sd w h
      \<Longrightarrow> snd (rgba_to_rgba name yuv y sy d sd w h flip_y) = Some ()"
    and "set [sy, su, sv, sd] \<subseteq> set ns \<Longrightarrow> valid_rgba d sd w h \<Longrightarrow> valid_420 y sy u su v sv w h
      \<Longrightarrow> snd (rgba_to_420 name yuv d sd y sy u su v sv w h flip_y) = Some ()"
    and "valid_rgb d sd w h \<Longrightarrow> valid_420 y sy u su v sv w h
      \<Longrightarrow> snd (raw_to_i420 d sd y sy u su v sv w h flip_y) = Some ()"
    and "set [sy, su, sv, sd] \<subseteq> set ns \<Longrightarrow> valid_422 y sy u su v sv w h \<Longrightarrow> valid_rgba d sd w h
      \<Longrightarrow> snd (x422_to_rgba name yuv y sy u su v sv d sd w h flip_y) = Some ()"
    and "set [sy, su, sv, sd] \<subseteq> set ns \<Longrightarrow> valid_444 y sy u su v sv w h \<Longrightarrow> valid_rgba d sd w h
      \<Longrightarrow> snd (x444_to_rgba name yuv y sy u su v sv d sd w h flip_y) = Some ()"
    and "set [sy, su, sv, sd] \<subseteq> set ns \<Longrightarrow> valid_010 y sy u su v sv w h \<Longrightarrow> valid_rgba d sd w h
      \<Longrightarrow> snd (x010_to_rgba name yuv y sy u su v sv d sd w h flip_y) = Some ()"
    and "set [sy, su, sd] \<subseteq> set ns \<Longrightarrow> valid_nv12 y sy u su w h \<Longrightarrow> valid_rgba d sd w h
      \<Longrightarrow> snd (nv12_to_rgba name yuv y sy u su d sd w h flip_y) = Some ()"
  by (simp_all add: accepts [OF yuv small pos] valid_planes [OF small] x420_to_rgba_def x420_to_rgb_def
    rgba_to_rgba_def rgba_to_420_def raw_to_i420_def x422_to_rgba_def x444_to_rgba_def
    x010_to_rgba_def nv12_to_rgba_def checked_def call_checked_def call_yuv_def)

lemma planar_wrappers_succeed:
  assumes yuv: "accepting yuv" and small: "small_image w h ns" and pos: "0 < unat w" "0 < unat h"
    and strides: "set [sy, su, sv, sy', su', sv'] \<subseteq> set ns"
  shows "valid_422 y sy u su v sv w h \<Longrightarrow> valid_420 y' sy' u' su' v' sv' w h
      \<Longrightarrow> snd (i422_to_i420 yuv y sy u su v sv y' sy' u' su' v' sv' w h flip_y) = Some ()"
    and "valid_444 y sy u su v sv w h \<Longrightarrow> valid_420 y' sy' u' su' v' sv' w h
      \<Longrightarrow> snd (i444_to_i420 yuv y sy u su v sv y' sy' u' su' v' sv' w h flip_y) = Some ()"
    and "valid_010 y sy u su v sv w h \<Longrightarrow> valid_420 y' sy' u' su' v' sv' w h
      \<Longrightarrow> snd (i010_to_i420 yuv y sy u su v sv y' sy' u' su' v' sv' w h flip_y) = Some ()"
    and "valid_nv12 y sy u su w h \<Longrightarrow> valid_420 y' sy' u' su' v' sv' w h
      \<Longrightarrow> snd (nv12_to_i420 yuv y sy u su y' sy' u' su' v' sv' w h flip_y) = Some ()"
    and "valid_420 y sy u su v sv w h \<Longrightarrow> valid_420 y' sy' u' su' v' sv' w h
      \<Longrightarrow> snd (i420_copy yuv y sy u su v sv y' sy' u' su' v' sv' w h flip_y) = Some ()"
    and "valid_422 y sy u su v sv w h \<Longrightarrow> valid_422 y' sy' u' su' v' sv' w h
      \<Longrightarrow> snd (i422_copy yuv y sy u su v sv y' sy' u' su' v' sv' w h flip_y) = Some ()"
    and "valid_444 y sy u su v sv w h \<Longrightarrow> valid_444 y' sy' u' su' v' sv' w h
      \<Longrightarrow> snd (i444_copy yuv y sy u su v sv y' sy' u' su' v' sv' w h flip_y) = Some ()"
  using strides
  by (simp_all add: accepts [OF yuv small pos] valid_planes [OF small] i422_to_i420_def i444_to_i420_def
    i010_to_i420_def nv12_to_i420_def i420_copy_def i422_copy_def i444_copy_def checked_def
    call_checked_def)

lemma i420a_copy_succeeds:
  assumes "accepting yuv" and "small_image w h ns" and "0 < unat w" and "0 < unat h"
    and "set [sy, su, sv, sy', su', sv'] \<subseteq> set ns"
    and "valid_420a y sy u su v sv a sa w h" and "valid_420a y' sy' u' su' v' sv' a' sa' w h"
  shows "snd (i420a_copy yuv y sy u su v sv a sa y' sy' u' su' v' sv' a' sa' w h flip_y) = Some ()"
proof -
  have "valid_420 y sy u su v sv w h" "valid_420 y' sy' u' su' v' sv' w h"
    using assms(6,7) by (simp_all add: valid_420a_def valid_420_def Let_def)
  then have "snd (i420_copy yuv y sy u su v sv y' sy' u' su' v' sv' w h flip_y) = Some ()"
    by (rule planar_wrappers_succeed(5) [OF assms(1-5)])
  then show ?thesis using assms(6,7) by (simp add: i420a_copy_def checked_def snd_and_then call_yuv_def)
qed

section \<open>Planes that pass the assertions\<close>

lemma source_valid:
  assumes small: "small_image w h ns" and pos: "0 < unat w" "0 < unat h"
    and strides: "unat (ci_stride c0) * unat h < 2 ^ 32" "unat (ci_stride c1) * unat h < 2 ^ 32"
      "unat (ci_stride c2) * unat h < 2 ^ 32"
  shows "list_all2 (component_ok 1 (unat w) (unat h)) [Full, Chroma420, Chroma420] [c0, c1, c2]
      \<Longrightarrow> valid_420 (bytes_of c0) (ci_stride c0) (bytes_of c1) (ci_stride c1) (bytes_of c2) (ci_stride c2) w h"
    and "list_all2 (component_ok 1 (unat w) (unat h)) [Full, Chroma422, Chroma422] [c0, c1, c2]
      \<Longrightarrow> valid_422 (bytes_of c0) (ci_stride c0) (bytes_of c1) (ci_stride c1) (bytes_of c2) (ci_stride c2) w h"
    and "list_all2 (component_ok 1 (unat w) (unat h)) [Full, Full, Full] [c0, c1, c2]
      \<Longrightarrow> valid_444 (bytes_of c0) (ci_stride c0) (bytes_of c1) (ci_stride c1) (bytes_of c2) (ci_stride c2) w h"
    and "list_all2 (component_ok 2 (unat w) (unat h)) [Full, Chroma420, Chroma420] [c0, c1, c2]
      \<Longrightarrow> valid_010 (words_of c0) (ci_stride c0) (words_of c1) (ci_stride c1) (words_of c2) (ci_stride c2) w h"
    and "list_all2 (component_ok 1 (unat w) (unat h)) [Full, Interleaved] [c0, c1]
      \<Longrightarrow> valid_nv12 (bytes_of c0) (ci_stride c0) (bytes_of c1) (ci_stride c1) w h"
proof -
  have mod: "unat (w + w mod 2) = unat w + unat w mod 2"
    using small_imageD [OF small] by (subst u32_add) (simp_all add: unat_mod)
  note half = chroma_le(1) [OF small pos]
  note sizes = strides [THEN u32_mult] strides [THEN chroma_size [OF small _ pos(2)]]
  show "list_all2 (component_ok 1 (unat w) (unat h)) [Full, Chroma420, Chroma420] [c0, c1, c2]
      \<Longrightarrow> valid_420 (bytes_of c0) (ci_stride c0) (bytes_of c1) (ci_stride c1) (bytes_of c2) (ci_stride c2) w h"
    "list_all2 (component_ok 1 (unat w) (unat h)) [Full, Chroma422, Chroma422] [c0, c1, c2]
      \<Longrightarrow> valid_422 (bytes_of c0) (ci_stride c0) (bytes_of c1) (ci_stride c1) (bytes_of c2) (ci_stride c2) w h"
    "list_all2 (component_ok 1 (unat w) (unat h)) [Full, Full, Full] [c0, c1, c2]
      \<Longrightarrow> valid_444 (bytes_of c0) (ci_stride c0) (bytes_of c1) (ci_stride c1) (bytes_of c2) (ci_stride c2) w h"
    "list_all2 (component_ok 2 (unat w) (unat h)) [Full, Chroma420, Chroma420] [c0, c1, c2]
      \<Longrightarrow> valid_010 (words_of c0) (ci_stride c0) (words_of c1) (ci_stride c1) (words_of c2) (ci_stride c2) w h"
    "list_all2 (component_ok 1 (unat w) (unat h)) [Full, Interleaved] [c0, c1]
      \<Longrightarrow> valid_nv12 (bytes_of c0) (ci_stride c0) (bytes_of c1) (ci_stride c1) w h"
    using pos
    by (simp_all add: valid_420_def valid_422_def valid_444_def valid_010_def valid_nv12_def Let_def sizes half mod
      component_ok_def bytes_of_def bytes_at_def words_of_def words_at_def word_le_nat_alt word_less_nat_alt
      less_eq_div_iff_mult_less_eq)
qed

lemma new_valid:
  assumes small: "small_image w h ns" and pos: "0 < unat w" "0 < unat h"
    and cw: "cw = (w + 1) div 2" and ch: "ch = (h + 1) div 2"
  shows "valid_420 (bytes_at a (unat w * unat h)) w (bytes_at b (unat cw * unat ch)) cw (bytes_at c (unat cw * unat ch)) cw w h"
    and "valid_420a (bytes_at a (unat w * unat h)) w (bytes_at b (unat cw * unat ch)) cw (bytes_at c (unat cw * unat ch)) cw
      (bytes_at d (unat w * unat h)) w w h"
    and "valid_422 (bytes_at a (unat w * unat h)) w (bytes_at b (unat cw * unat h)) cw (bytes_at c (unat cw * unat h)) cw w h"
    and "valid_444 (bytes_at a (unat w * unat h)) w (bytes_at b (unat w * unat h)) w (bytes_at c (unat w * unat h)) w w h"
    and "valid_rgba (bytes_at a (unat (w * h * 4))) (w * 4) w h"
    and "valid_rgb (bytes_at a (unat (w * h * 3))) (w * 3) w h"
proof -
  have le: "unat cw \<le> unat w" "unat ch \<le> unat h" using chroma_le [OF small pos] by (simp_all add: cw ch)
  note sizes = small_products(1,2) [OF small le] small_products(2) [OF small le(1) order_refl]
  have swap: "w * 4 * h = w * h * 4" "w * 3 * h = w * h * 3" by simp_all
  show "valid_420 (bytes_at a (unat w * unat h)) w (bytes_at b (unat cw * unat ch)) cw (bytes_at c (unat cw * unat ch)) cw w h"
    "valid_420a (bytes_at a (unat w * unat h)) w (bytes_at b (unat cw * unat ch)) cw (bytes_at c (unat cw * unat ch)) cw
      (bytes_at d (unat w * unat h)) w w h"
    "valid_422 (bytes_at a (unat w * unat h)) w (bytes_at b (unat cw * unat h)) cw (bytes_at c (unat cw * unat h)) cw w h"
    "valid_444 (bytes_at a (unat w * unat h)) w (bytes_at b (unat w * unat h)) w (bytes_at c (unat w * unat h)) w w h"
    using pos by (simp_all add: valid_420_def valid_420a_def valid_422_def valid_444_def
      Let_def bytes_at_def word_less_nat_alt sizes flip: cw ch)
  show "valid_rgba (bytes_at a (unat (w * h * 4))) (w * 4) w h" "valid_rgb (bytes_at a (unat (w * h * 3))) (w * 3) w h"
    using pos by (simp_all add: valid_rgba_def valid_rgb_def bytes_at_def word_less_nat_alt swap)
qed

definition converted :: "u64 \<Rightarrow> video_buffer_type \<Rightarrow> u32 \<Rightarrow> u32 \<Rightarrow> video_result option \<Rightarrow> bool" where
  "converted at dst_type w h r \<longleftrightarrow>
     (case r of
        Some (Inr (len, info)) \<Rightarrow>
          vb_type info = dst_type \<and> vb_width info = w \<and> vb_height info = h \<and> fills at len info
      | _ \<Rightarrow> False)"

lemma fillsI:
  assumes "layouts (vb_type info) \<noteq> []" and "sample_bytes (vb_type info) = 1" and "vb_data_ptr info = at"
    and "0 < unat (vb_width info)" and "0 < unat (vb_height info)" and "small_buffer info"
    and "list_all2 (exact (unat (vb_width info)) (unat (vb_height info))) (layouts (vb_type info)) (vb_components info)"
    and "tiled at len (vb_components info)"
  shows "fills at len info"
proof -
  have len: "length (layouts (vb_type info)) = length (vb_components info)"
    using assms(7) by (rule list_all2_lengthD)
  moreover have "list_all2 (component_ok 1 (unat (vb_width info)) (unat (vb_height info)))
      (layouts (vb_type info)) (vb_components info)"
    using assms(7) by (rule list_all2_mono) (simp add: component_ok_def exact_def)
  ultimately show ?thesis
    using assms(1-8) by (simp add: fills_def buffer_ok_def Let_def)
qed

lemma tiled_three:
  assumes "unat s0 + unat s1 + unat s2 = len"
  shows "tiled at len [component at n0 s0, component (at + of_nat (unat s0)) n1 s1,
    component (at + of_nat (unat s0) + of_nat (unat s1)) n2 s2]"
  using assms [symmetric] by (simp add: component_def del: of_nat_unat)

lemma tiled_four:
  assumes "unat s0 + unat s1 + unat s2 + unat s3 = len"
  shows "tiled at len [component at n0 s0, component (at + of_nat (unat s0)) n1 s1,
    component (at + of_nat (unat s0) + of_nat (unat s1)) n2 s2,
    component (at + of_nat (unat s0) + of_nat (unat s1) + of_nat (unat s2)) n3 s3]"
  using assms [symmetric] by (simp add: component_def del: of_nat_unat)

lemma infos_fill:
  assumes small: "small_image w h ns" and pos: "0 < unat w" "0 < unat h"
    and cw: "cw = (w + 1) div 2" and ch: "ch = (h + 1) div 2"
  defines "p \<equiv> of_nat (unat w * unat h)"
  shows "fills at (unat (w * h + cw * ch * 2)) (i420_info at at (at + p) (at + p + of_nat (unat cw * unat ch)) w h w cw cw)"
    and "fills at (unat (w * h + cw * h * 2)) (i422_info at at (at + p) (at + p + of_nat (unat cw * unat h)) w h w cw cw)"
    and "fills at (unat (w * h + cw * ch * 2 + w * h)) (i420a_info at at (at + p) (at + p + of_nat (unat cw * unat ch))
      (at + p + of_nat (unat cw * unat ch) + of_nat (unat cw * unat ch)) w h w cw cw w)"
proof -
  note le = chroma_le [OF small pos, folded cw ch]
  note sizes = small_products [OF small le(3,4)] small_products [OF small le(3) order_refl]
  have s: "small_image w h [w, cw, cw]" "small_image w h [w, cw, cw, w]"
    by (rule small_perm [OF small_new [OF small]], simp add: cw)+
  note infos = i420_info_def i422_info_def i420a_info_def planar_info_def component_def Let_def exact_def
    buffer_strides_def
  show "fills at (unat (w * h + cw * ch * 2)) (i420_info at at (at + p) (at + p + of_nat (unat cw * unat ch)) w h w cw cw)"
  proof (rule fillsI)
    have "unat (w * h) + unat (cw * ch) + unat (cw * ch) = unat (w * h + cw * ch * 2)" by (simp only: sizes mult_2 add.assoc)
    from tiled_three [OF this, of at w cw cw]
    show "tiled at (unat (w * h + cw * ch * 2))
        (vb_components (i420_info at at (at + p) (at + p + of_nat (unat cw * unat ch)) w h w cw cw))"
      by (simp only: i420_info_def planar_info_def Let_def p_def sizes(1,2) ch [symmetric] video_buffer_info.simps)
  qed (use s pos in \<open>simp_all add: infos sizes(1,2,6) le(1,2) flip: cw ch\<close>)
  show "fills at (unat (w * h + cw * h * 2)) (i422_info at at (at + p) (at + p + of_nat (unat cw * unat h)) w h w cw cw)"
  proof (rule fillsI)
    have "unat (w * h) + unat (cw * h) + unat (cw * h) = unat (w * h + cw * h * 2)" by (simp only: sizes mult_2 add.assoc)
    from tiled_three [OF this, of at w cw cw]
    show "tiled at (unat (w * h + cw * h * 2))
        (vb_components (i422_info at at (at + p) (at + p + of_nat (unat cw * unat h)) w h w cw cw))"
      by (simp only: i422_info_def planar_info_def p_def sizes(1,6) video_buffer_info.simps)
  qed (use s pos in \<open>simp_all add: infos sizes(1,2,6) le(1,2) flip: cw ch\<close>)
  show "fills at (unat (w * h + cw * ch * 2 + w * h)) (i420a_info at at (at + p) (at + p + of_nat (unat cw * unat ch))
      (at + p + of_nat (unat cw * unat ch) + of_nat (unat cw * unat ch)) w h w cw cw w)"
  proof (rule fillsI)
    have "unat (w * h) + unat (cw * ch) + unat (cw * ch) + unat (w * h) = unat (w * h + cw * ch * 2 + w * h)"
      by (simp only: sizes(1,2,4))
    from tiled_four [OF this, of at w cw cw w]
    show "tiled at (unat (w * h + cw * ch * 2 + w * h))
        (vb_components (i420a_info at at (at + p) (at + p + of_nat (unat cw * unat ch))
          (at + p + of_nat (unat cw * unat ch) + of_nat (unat cw * unat ch)) w h w cw cw w))"
      by (simp only: i420a_info_def planar_info_def Let_def p_def sizes(1,2) ch [symmetric] video_buffer_info.simps)
  qed (use s pos in \<open>simp_all add: infos sizes(1,2,6) le(1,2) flip: cw ch\<close>)
qed

lemma packed_info_fills:
  assumes small: "small_image w h ns" and pos: "0 < unat w" "0 < unat h"
  shows "layouts t = [] \<Longrightarrow> pixel_bytes t = 4 \<Longrightarrow> fills at (unat (w * h * 4)) (packed_info 4 at t w h)"
    and "fills at (unat (w * h * 3)) (packed_info 3 at Rgb24 w h)"
proof -
  have w: "unat (w * 4) = 4 * unat w" "unat (w * 3) = 3 * unat w"
    using small_imageD [OF small] u32_mult [of w 4] u32_mult [of w 3] by simp_all
  have s: "small_image w h [w * 4]" "small_image w h [w * 3]"
    by (rule small_perm [OF small_new [OF small]], simp)+
  then have "unat (w * 4) * unat h < 2 ^ 32" "unat (w * 3) * unat h < 2 ^ 32" by (simp_all only: small_image_Cons)
  then have "unat (w * 4 * h) = unat (w * 4) * unat h" "unat (w * 3 * h) = unat (w * 3) * unat h"
    by (simp_all only: u32_mult)
  moreover have "w * 4 * h = w * h * 4" "w * 3 * h = w * h * 3" by simp_all
  ultimately have sizes: "unat (w * h * 4) = unat (w * 4) * unat h" "unat (w * h * 3) = unat (w * 3) * unat h"
    by metis+
  show "fills at (unat (w * h * 4)) (packed_info 4 at t w h)" if "layouts t = []" "pixel_bytes t = 4"
    using that s pos by (simp add: fills_def buffer_ok_def buffer_strides_def packed_info_def Let_def w sizes)
  show "fills at (unat (w * h * 3)) (packed_info 3 at Rgb24 w h)"
    using s pos by (simp add: fills_def buffer_ok_def buffer_strides_def packed_info_def Let_def w sizes)
qed

section \<open>Conversions that succeed\<close>

lemma to_new_i420_converts:
  assumes small: "small_image w h ns" and pos: "0 < unat w" "0 < unat h"
    and "\<And>y u v. valid_420 y w u ((w + 1) div 2) v ((w + 1) div 2) w h
      \<Longrightarrow> snd (convert y w u ((w + 1) div 2) v ((w + 1) div 2)) = Some ()"
  shows "converted at I420 w h (snd (to_new_i420 at w h convert))"
proof -
  note le = chroma_le(3,4) [OF small pos]
  note valid = new_valid(1) [OF small pos refl refl]
  show ?thesis
    using infos_fill(1) [OF small pos refl refl, of at]
    by (simp add: to_new_i420_def Let_def new_planes_split [OF small le] snd_and_then [OF assms(4) [OF valid]]
      gives_def converted_def i420_info_def planar_info_def del: of_nat_mult)
qed

lemma i422_new_converts:
  assumes small: "small_image w h ns" and pos: "0 < unat w" "0 < unat h"
    and "\<And>y u v. valid_422 y w u ((w + 1) div 2) v ((w + 1) div 2) w h \<Longrightarrow> snd (convert y u v) = Some ()"
  shows "converted at I422 w h (snd (new_planes at w h ((w + 1) div 2) h (\<lambda>y u v. and_then (convert y u v)
    (gives (Inr (unat (w * h + (w + 1) div 2 * h * 2),
      i422_info (sl_at y) (sl_at y) (sl_at u) (sl_at v) w h w ((w + 1) div 2) ((w + 1) div 2)))))))"
proof -
  note valid = new_valid(3) [OF small pos refl refl]
  show ?thesis
    using infos_fill(2) [OF small pos refl refl, of at]
    by (simp add: new_planes_split [OF small chroma_le(3) [OF small pos] order_refl] snd_and_then [OF assms(4) [OF valid]]
      gives_def converted_def i422_info_def planar_info_def del: of_nat_mult)
qed

lemma to_new_rgba_converts:
  assumes small: "small_image w h ns" and pos: "0 < unat w" "0 < unat h" and "layouts t = []" "pixel_bytes t = 4"
    and "\<And>d. valid_rgba d (w * 4) w h \<Longrightarrow> snd (convert d (w * 4)) = Some ()"
  shows "converted at t w h (snd (to_new_rgba at t w h convert))"
  using packed_info_fills(1) [OF small pos assms(4,5)] assms(6) [OF new_valid(5) [OF small pos refl refl]]
  by (simp add: to_new_packed_def Let_def snd_and_then gives_def converted_def packed_info_def)

lemma to_new_rgb_converts:
  assumes small: "small_image w h ns" and pos: "0 < unat w" "0 < unat h"
    and "\<And>d. valid_rgb d (w * 3) w h \<Longrightarrow> snd (convert d (w * 3)) = Some ()"
  shows "converted at Rgb24 w h (snd (to_new_packed 3 at Rgb24 w h convert))"
  using packed_info_fills(2) [OF small pos] assms(4) [OF new_valid(6) [OF small pos refl refl]]
  by (simp add: to_new_packed_def Let_def snd_and_then gives_def converted_def packed_info_def)

fun targets :: "video_buffer_type \<Rightarrow> video_buffer_type list" where
  "targets Rgba = [I420, Bgra]"
| "targets Abgr = []"
| "targets Argb = [I420]"
| "targets Bgra = [I420, Rgba]"
| "targets Rgb24 = [I420]"
| "targets I420 = [Rgba, Abgr, Argb, Bgra, Rgb24, I420]"
| "targets I420a = [I420, I420a]"
| "targets I422 = [Rgba, Abgr, Argb, I420, I422]"
| "targets I444 = [Rgba, Bgra, I420]"
| "targets I010 = [Rgba, Bgra, I420]"
| "targets Nv12 = [Rgba, Bgra, I420]"

text \<open>
  The outcome of a conversion: a target is converted, the rest is refused. What the code does beside is
  \<open>flawed\<close>: an ABGR image and a copy of an NV12 image panic, a copy of an I444 image names a plane of the
  source.
\<close>

definition flawed :: "video_buffer_type \<Rightarrow> video_buffer_type \<Rightarrow> bool" where
  "flawed t dst_type \<longleftrightarrow> t = Abgr \<or> t = Nv12 \<and> dst_type = Nv12 \<or> t = I444 \<and> dst_type = I444"

definition refused :: "video_result option \<Rightarrow> bool" where
  "refused r \<longleftrightarrow> (case r of Some (Inl (InvalidRequest _)) \<Rightarrow> True | _ \<Rightarrow> False)"

definition ends_as :: "u64 \<Rightarrow> video_buffer_info \<Rightarrow> video_buffer_type \<Rightarrow> video_result option \<Rightarrow> bool" where
  "ends_as at buf dst_type r =
     (if dst_type \<in> set (targets (vb_type buf)) then converted at dst_type (vb_width buf) (vb_height buf) r
      else flawed (vb_type buf) dst_type \<or> refused r)"

lemma refused_unsupported [simp]: "refused (snd (unsupported t dst_type))"
  by (simp add: refused_def unsupported_def gives_def)

lemma packed_source:
  assumes ok: "buffer_ok buf" and packed: "layouts (vb_type buf) = []"
    and data: "packed_data (of_nat (pixel_bytes (vb_type buf))) buf = (data, stride)"
  shows "pixel_bytes (vb_type buf) = 4 \<Longrightarrow> valid_rgba data stride (vb_width buf) (vb_height buf)"
    and "pixel_bytes (vb_type buf) = 4 \<Longrightarrow> valid_rgba data (vb_width buf * 4) (vb_width buf) (vb_height buf)"
    and "pixel_bytes (vb_type buf) = 3 \<Longrightarrow> valid_rgb data stride (vb_width buf) (vb_height buf)"
proof -
  let ?w = "vb_width buf" and ?h = "vb_height buf"
  have pos: "0 < unat ?w" "0 < unat ?h" and small: "small_buffer buf"
    and rows: "pixel_bytes (vb_type buf) * unat ?w \<le> unat stride"
    and d: "data = bytes_at (vb_data_ptr buf) (unat (stride * ?h))"
    using ok data packed by (auto simp: buffer_ok_def buffer_strides_def packed_data_def Let_def)
  have s: "small_image ?w ?h [stride]"
    using small data packed by (simp add: buffer_strides_def packed_data_def Let_def)
  then have size: "unat (stride * ?h) = unat stride * unat ?h" by (simp only: small_image_Cons u32_mult)
  have w: "unat (?w * 4) = 4 * unat ?w" "unat (?w * 3) = 3 * unat ?w"
    using small_imageD [OF s] u32_mult [of ?w 4] u32_mult [of ?w 3] by simp_all
  have "small_image ?w ?h [?w * 4]" by (rule small_perm [OF small_new [OF s]]) simp
  then have "unat (?w * 4) * unat ?h < 2 ^ 32" by (simp only: small_image_Cons)
  then have w4: "unat (?w * 4 * ?h) = 4 * unat ?w * unat ?h" by (simp only: u32_mult w)
  show "valid_rgba data stride ?w ?h" if "pixel_bytes (vb_type buf) = 4"
    using that pos rows by (simp add: valid_rgba_def d word_le_nat_alt word_less_nat_alt w)
  show "valid_rgb data stride ?w ?h" if "pixel_bytes (vb_type buf) = 3"
    using that pos rows by (simp add: valid_rgb_def d word_le_nat_alt word_less_nat_alt w)
  show "valid_rgba data (?w * 4) ?w ?h" if four: "pixel_bytes (vb_type buf) = 4"
  proof -
    have "4 * unat ?w * unat ?h \<le> unat stride * unat ?h" using rows four by (intro mult_le_mono1) simp
    then show ?thesis using pos by (simp add: valid_rgba_def d word_less_nat_alt w4 size)
  qed
qed

lemma packed_outcome:
  assumes yuv: "accepting yuv" and ok: "buffer_ok buf" and packed: "layouts (vb_type buf) = []"
  shows "ends_as at buf dst_type (snd (cvt yuv at buf dst_type flip_y))"
proof -
  obtain data stride where data: "packed_data (of_nat (pixel_bytes (vb_type buf))) buf = (data, stride)" by fastforce
  have pos: "0 < unat (vb_width buf)" "0 < unat (vb_height buf)" and small: "small_buffer buf"
    using ok by (simp_all add: buffer_ok_def Let_def)
  have s: "small_image (vb_width buf) (vb_height buf)
      [vb_width buf, (vb_width buf + 1) div 2, vb_width buf * 4, vb_width buf * 3, stride]"
    using packed_stride [OF packed small refl] data by auto
  note valid = packed_source [OF ok packed data]
  note rules = to_new_i420_converts [OF s pos] to_new_rgba_converts [OF s pos] wrappers_succeed [OF yuv s pos]
  show ?thesis
    using packed data valid
    by (cases "vb_type buf"; cases dst_type)
      (simp_all add: cvt_def cvt_rgba_def cvt_abgr_def cvt_argb_def cvt_bgra_def cvt_rgb24_def checked_def ends_as_def
        flawed_def rules Let_def)
qed

text \<open>Planar formats: the planes of a good description pass the assertions.\<close>

lemma planar_source:
  assumes ok: "buffer_ok buf" and planar: "layouts (vb_type buf) \<noteq> []"
  obtains cs rest where "vb_components buf = cs @ rest" and "length cs = length (layouts (vb_type buf))"
    and "list_all2 (component_ok (sample_bytes (vb_type buf)) (unat (vb_width buf)) (unat (vb_height buf)))
      (layouts (vb_type buf)) cs"
    and "small_image (vb_width buf) (vb_height buf) (vb_width buf # (vb_width buf + 1) div 2 # vb_width buf * 4 #
      vb_width buf * 3 # map ci_stride cs)"
proof -
  have long: "length (layouts (vb_type buf)) \<le> length (vb_components buf)" and small: "small_buffer buf"
    using ok planar by (simp_all add: buffer_ok_def Let_def)
  from long obtain cs rest where cs: "vb_components buf = cs @ rest" "length cs = length (layouts (vb_type buf))"
    by (rule long_list)
  with ok planar planar_cases [OF small long planar] show thesis
    by (intro that [of cs rest]) (simp_all add: buffer_ok_def Let_def)
qed

lemma three_append: "vb_components buf = [c0, c1, c2] @ rest \<Longrightarrow> three buf k = k c0 c1 c2"
  by (simp add: three_def)

lemma two_append: "vb_components buf = [c0, c1] @ rest \<Longrightarrow> two buf k = k c0 c1"
  by (simp add: two_def)

lemma planes3_outcome:
  assumes yuv: "accepting yuv" and ok: "buffer_ok buf" and type: "length (layouts (vb_type buf)) = 3"
  shows "ends_as at buf dst_type (snd (cvt yuv at buf dst_type flip_y))"
proof -
  have "layouts (vb_type buf) \<noteq> []" using type by auto
  from planar_source [OF ok this] obtain cs rest where
    cs: "vb_components buf = cs @ rest" "length cs = length (layouts (vb_type buf))"
    and rows: "list_all2 (component_ok (sample_bytes (vb_type buf)) (unat (vb_width buf)) (unat (vb_height buf)))
      (layouts (vb_type buf)) cs"
    and s: "small_image (vb_width buf) (vb_height buf) (vb_width buf # (vb_width buf + 1) div 2 # vb_width buf * 4 #
      vb_width buf * 3 # map ci_stride cs)" .
  from cs(2) type obtain c0 c1 c2 where c: "cs = [c0, c1, c2]" by (auto simp: length_Suc_conv numeral_eq_Suc)
  have pos: "0 < unat (vb_width buf)" "0 < unat (vb_height buf)"
    using ok by (simp_all add: buffer_ok_def Let_def)
  have s: "small_image (vb_width buf) (vb_height buf) [vb_width buf, (vb_width buf + 1) div 2, vb_width buf * 4,
      vb_width buf * 3, ci_stride c0, ci_stride c1, ci_stride c2]"
    using s by (simp add: c)
  then have strides: "unat (ci_stride c0) * unat (vb_height buf) < 2 ^ 32"
    "unat (ci_stride c1) * unat (vb_height buf) < 2 ^ 32" "unat (ci_stride c2) * unat (vb_height buf) < 2 ^ 32"
    by (simp_all only: small_image_Cons)
  note valid = source_valid [OF s pos strides]
  note rules = to_new_i420_converts [OF s pos] to_new_rgba_converts [OF s pos] to_new_rgb_converts [OF s pos]
    i422_new_converts [OF s pos] wrappers_succeed [OF yuv s pos] planar_wrappers_succeed [OF yuv s pos]
  show ?thesis
    using type rows
    by (cases "vb_type buf"; cases dst_type)
      (simp_all add: cvt_def cvt_i420_def cvt_i422_def cvt_i444_def cvt_i010_def checked_def ends_as_def
        three_append [OF cs(1) [unfolded c]] c flawed_def rules valid Let_def)
qed

lemma nv12_outcome:
  assumes yuv: "accepting yuv" and ok: "buffer_ok buf" and type: "vb_type buf = Nv12"
  shows "ends_as at buf dst_type (snd (cvt yuv at buf dst_type flip_y))"
proof -
  have "layouts (vb_type buf) \<noteq> []" using type by simp
  from planar_source [OF ok this] obtain cs rest where
    cs: "vb_components buf = cs @ rest" "length cs = length (layouts (vb_type buf))"
    and rows: "list_all2 (component_ok (sample_bytes (vb_type buf)) (unat (vb_width buf)) (unat (vb_height buf)))
      (layouts (vb_type buf)) cs"
    and s: "small_image (vb_width buf) (vb_height buf) (vb_width buf # (vb_width buf + 1) div 2 # vb_width buf * 4 #
      vb_width buf * 3 # map ci_stride cs)" .
  from cs(2) type obtain c0 c1 where c: "cs = [c0, c1]" by (auto simp: length_Suc_conv numeral_eq_Suc)
  have pos: "0 < unat (vb_width buf)" "0 < unat (vb_height buf)"
    using ok by (simp_all add: buffer_ok_def Let_def)
  have s: "small_image (vb_width buf) (vb_height buf) [vb_width buf, (vb_width buf + 1) div 2, vb_width buf * 4,
      vb_width buf * 3, ci_stride c0, ci_stride c1]"
    using s by (simp add: c)
  then have strides: "unat (ci_stride c0) * unat (vb_height buf) < 2 ^ 32"
    "unat (ci_stride c1) * unat (vb_height buf) < 2 ^ 32"
    by (simp_all only: small_image_Cons)
  have "list_all2 (component_ok 1 (unat (vb_width buf)) (unat (vb_height buf))) [Full, Interleaved] [c0, c1]"
    using rows by (simp add: type c)
  note valid = source_valid(5) [OF s pos strides(1,2,1) this]
  note rules = to_new_i420_converts [OF s pos] to_new_rgba_converts [OF s pos] wrappers_succeed [OF yuv s pos]
    planar_wrappers_succeed(4) [OF yuv s pos, where sv = "ci_stride c0"]
  show ?thesis
    by (cases dst_type)
      (simp_all add: cvt_def cvt_nv12_def checked_def ends_as_def two_append [OF cs(1) [unfolded c]] type flawed_def
        rules valid Let_def)
qed

lemma i420a_new_converts:
  assumes small: "small_image w h ns" and pos: "0 < unat w" "0 < unat h"
    and cw: "cw = (w + 1) div 2" and ch: "ch = (h + 1) div 2"
    and copy: "\<And>y u v a. valid_420a y w u cw v cw a w w h \<Longrightarrow> snd (convert y u v a) = Some ()"
  shows "converted at I420a w h (snd
    (case split_at_mut (unat (w * h)) (bytes_at at (unat (w * h + cw * ch * 2 + w * h))) of None \<Rightarrow> panics
     | Some (y, chroma) \<Rightarrow> (case split_at_mut (unat (cw * ch)) chroma of None \<Rightarrow> panics
     | Some (u, va) \<Rightarrow> (case split_at_mut (unat (cw * ch)) va of None \<Rightarrow> panics
     | Some (v, a) \<Rightarrow> and_then (convert y u v a) (gives (Inr (unat (w * h + cw * ch * 2 + w * h),
         i420a_info (sl_at y) (sl_at y) (sl_at u) (sl_at v) (sl_at a) w h w cw cw w)))))))"
proof -
  note le = chroma_le(3,4) [OF small pos, folded cw ch]
  obtain p q where pq: "p = unat w * unat h" "q = unat cw * unat ch" by simp
  note sizes = small_products(1,2,4) [OF small le, folded pq]
  obtain len where len: "len = unat (w * h + cw * ch * 2 + w * h)" by simp
  have split: "n \<le> m \<Longrightarrow> split_at_mut n (bytes_at b m) = Some (bytes_at b n, bytes_at (b + of_nat n) (m - n))"
    for n m b by (simp add: split_at_mut_def bytes_at_def)
  have p: "p \<le> 2 * p + 2 * q" "q \<le> 2 * p + 2 * q - p" "q \<le> 2 * p + 2 * q - p - q"
    and rest: "2 * p + 2 * q - p - q - q = p" by simp_all
  note valid = new_valid(2) [OF small pos cw ch, folded pq]
  have "fills at len (i420a_info at at (at + of_nat p) (at + of_nat p + of_nat q)
      (at + of_nat p + of_nat q + of_nat q) w h w cw cw w)"
    using infos_fill(3) [OF small pos cw ch, of at] unfolding pq len .
  then show ?thesis
    unfolding sizes(1,2) len [symmetric]
    by (simp only: sizes(3) len split [OF p(1)] split [OF p(2)] split [OF p(3)] option.case prod.case rest
        snd_and_then [OF copy [OF valid]] bytes_at_fields gives_def snd_conv converted_def sum.case i420a_info_def
        planar_info_def Let_def video_buffer_info.simps simp_thms)
qed

lemma i420a_outcome:
  assumes yuv: "accepting yuv" and ok: "buffer_ok buf" and type: "vb_type buf = I420a"
  shows "ends_as at buf dst_type (snd (cvt yuv at buf dst_type flip_y))"
proof -
  let ?w = "vb_width buf" and ?h = "vb_height buf"
  have "layouts (vb_type buf) \<noteq> []" using type by simp
  from planar_source [OF ok this] obtain cs rest where
    cs: "vb_components buf = cs @ rest" "length cs = length (layouts (vb_type buf))"
    and rows: "list_all2 (component_ok (sample_bytes (vb_type buf)) (unat ?w) (unat ?h)) (layouts (vb_type buf)) cs"
    and s: "small_image ?w ?h (?w # (?w + 1) div 2 # ?w * 4 # ?w * 3 # map ci_stride cs)" .
  from cs(2) type obtain c0 c1 c2 c3 where c: "cs = [c0, c1, c2, c3]" by (auto simp: length_Suc_conv numeral_eq_Suc)
  have pos: "0 < unat ?w" "0 < unat ?h" using ok by (simp_all add: buffer_ok_def Let_def)
  have s: "small_image ?w ?h [?w, (?w + 1) div 2, ?w * 4, ?w * 3, ci_stride c0, ci_stride c1, ci_stride c2, ci_stride c3]"
    using s by (simp add: c)
  then have strides: "unat (ci_stride c0) * unat ?h < 2 ^ 32" "unat (ci_stride c1) * unat ?h < 2 ^ 32"
    "unat (ci_stride c2) * unat ?h < 2 ^ 32" "unat (ci_stride c3) * unat ?h < 2 ^ 32"
    by (simp_all only: small_image_Cons)
  have rows: "list_all2 (component_ok 1 (unat ?w) (unat ?h)) [Full, Chroma420, Chroma420] [c0, c1, c2]"
    and alpha: "component_ok 1 (unat ?w) (unat ?h) Full c3"
    using rows by (simp_all add: type c)
  note valid = source_valid(1) [OF s pos strides(1-3) rows]
  have "unat (ci_stride c3 * ?h) \<le> sl_len (bytes_of c3)" "?w \<le> ci_stride c3"
    using alpha by (simp_all add: component_ok_def bytes_of_def word_le_nat_alt u32_mult [OF strides(4)])
  then have valid_a: "valid_420a (bytes_of c0) (ci_stride c0) (bytes_of c1) (ci_stride c1) (bytes_of c2) (ci_stride c2)
      (bytes_of c3) (ci_stride c3) ?w ?h"
    using valid by (simp add: valid_420_def valid_420a_def Let_def)
  note rules = to_new_i420_converts [OF s pos] planar_wrappers_succeed(5) [OF yuv s pos]
  have "converted at I420a ?w ?h (snd (cvt_i420a yuv at buf I420a flip_y))"
    unfolding cvt_i420a_def checked_def type cs(1) c append.simps list.case Let_def video_buffer_type.case if_True
      simp_thms
    by (rule i420a_new_converts [OF s pos refl refl]) (rule i420a_copy_succeeds [OF yuv s pos _ valid_a], simp_all)
  then show ?thesis
    by (cases dst_type)
      (simp_all add: cvt_def ends_as_def type flawed_def, simp_all add: cvt_i420a_def checked_def cs(1) c type
        rules valid Let_def)
qed

lemma type_cases:
  obtains "layouts t = []" | "length (layouts t) = 3" | "t = Nv12" | "t = I420a"
  by (cases t) auto

lemma converts:
  assumes "accepting yuv" and "buffer_ok buf"
  shows "ends_as at buf dst_type (snd (cvt yuv at buf dst_type flip_y))"
  by (rule type_cases [of "vb_type buf"])
    (rule packed_outcome planes3_outcome nv12_outcome i420a_outcome; use assms in simp)+

text \<open>An image of four by two pixels.\<close>

definition demo_buffer :: "video_buffer_type \<Rightarrow> component_info list \<Rightarrow> video_buffer_info" where
  "demo_buffer t cs =
     \<lparr>vb_type = t, vb_width = 4, vb_height = 2, vb_data_ptr = 64, vb_stride = None, vb_components = cs\<rparr>"

definition demo_i420 :: video_buffer_info where
  "demo_i420 = demo_buffer I420 [component 64 8 16, component 80 4 4, component 84 4 4]"

lemma demo_i420_ok: "buffer_ok demo_i420"
  by (simp add: demo_i420_def demo_buffer_def component_def buffer_ok_def component_ok_def buffer_strides_def
    small_image_def)

text \<open>
  C19. Which conversions succeed: a well-described image is converted to each target of its format, and the
  result describes the new allocation plane by plane; every other format is refused with an error. The
  exceptions are the three flaws.
\<close>

theorem conversion_outcome:
  assumes "accepting yuv" and "buffer_ok buf" and "\<not> flawed (vb_type buf) dst_type"
  shows "(case snd (cvt yuv at buf dst_type flip_y) of
      None \<Rightarrow> False
    | Some (Inl e) \<Rightarrow> dst_type \<notin> set (targets (vb_type buf)) \<and> (\<exists>text. e = InvalidRequest text)
    | Some (Inr (len, info)) \<Rightarrow> dst_type \<in> set (targets (vb_type buf)) \<and> vb_type info = dst_type
        \<and> vb_width info = vb_width buf \<and> vb_height info = vb_height buf \<and> fills at len info)"
  using converts [OF assms(1,2), of at dst_type flip_y] assms(3)
  by (auto simp: ends_as_def converted_def refused_def split: if_splits option.splits sum.splits ffi_error.splits)

lemma conversion_outcome_witness:
  "case snd (cvt (\<lambda>_. 0) 4096 demo_i420 Rgba True) of
      Some (Inr (len, info)) \<Rightarrow> vb_type info = Rgba \<and> fills 4096 len info
    | _ \<Rightarrow> False"
proof -
  have "snd (cvt (\<lambda>_. 0) 4096 demo_i420 Rgba True) \<noteq> None" "\<not> flawed (vb_type demo_i420) Rgba"
    "Rgba \<in> set (targets (vb_type demo_i420))"
    by code_simp+
  then show ?thesis
    using conversion_outcome [of "\<lambda>_. 0" demo_i420 Rgba 4096 True] demo_i420_ok
    by (auto simp: accepting_def split: option.splits sum.splits)
qed

text \<open>The flaws.\<close>

lemma abgr_always_panics: "vb_type buf = Abgr \<Longrightarrow> snd (cvt yuv at buf dst_type flip_y) = None"
  by (simp add: cvt_def cvt_abgr_def checked_def panics_def)

lemma nv12_copy_panics:
  assumes "buffer_ok buf" and "vb_type buf = Nv12"
  shows "snd (cvt yuv at buf Nv12 flip_y) = None"
proof -
  let ?w = "vb_width buf"
  have pos: "0 < unat ?w" "0 < unat (vb_height buf)" and small: "small_buffer buf"
    using assms(1) by (simp_all add: buffer_ok_def Let_def)
  have "unat (?w + ?w mod 2) = unat ?w + unat ?w mod 2"
    using small_imageD [OF small] by (subst u32_add) (simp_all add: unat_mod)
  moreover have "unat ((?w + 1) div 2) < unat ?w + unat ?w mod 2"
    unfolding chroma_le(1) [OF small pos] using pos by presburger
  ultimately have "\<not> valid_nv12 y ?w uv ((?w + 1) div 2) ?w (vb_height buf)" for y uv
    by (simp add: valid_nv12_def Let_def word_le_nat_alt)
  then show ?thesis
    by (simp add: cvt_def cvt_nv12_def assms(2) two_def nv12_copy_def checked_def panics_def and_then_def Let_def
      split: list.split option.split)
qed

lemma i444_copy_names_source:
  "(case snd (cvt (\<lambda>_. 0) 4096 (demo_buffer I444 [component 64 4 8, component 72 4 8, component 80 4 8]) I444 False) of
      Some (Inr (len, info)) \<Rightarrow> map ci_data_ptr (vb_components info) = [4096, 4104, 80]
    | _ \<Rightarrow> False)"
  by code_simp

text \<open>An image of 65536 by 65536 pixels: every size is 0 and libyuv is called on empty slices.\<close>

lemma wrapping_sizes_out_of_bounds:
  "let buf = \<lparr>vb_type = Rgba, vb_width = 65536, vb_height = 65536, vb_data_ptr = 64, vb_stride = None,
       vb_components = []\<rparr>
   in map (map (sl_len \<circ> pl_slice) \<circ> yc_src) (fst (cvt (\<lambda>_. 0) 4096 buf Bgra False)) = [[0]]
     \<and> snd (cvt (\<lambda>_. 0) 4096 buf Bgra False) \<noteq> None"
  by code_simp

end
