(* ===== verification/FfiFrame.thy ===== *)
theory FfiFrame
  imports FfiConvert
begin

text \<open>
  Video frames between WebRTC and a client (\<open>livekit-ffi/src/server/colorcvt/mod.rs\<close>,
  \<open>libwebrtc/src/video_frame.rs\<close>, \<open>libwebrtc/src/native/video_frame.rs\<close>): a received frame is described
  and converted for the client, an image of the client is copied into a new buffer. WebRTC allocates the
  planes, at the addresses \<open>alloc\<close>, and makes the I420 buffer of a native one (\<open>native\<close>).
\<close>

section \<open>Buffers of WebRTC\<close>

datatype (plugins only: code size) rtc_buffer_type =
    NativeBuffer | I420Buffer | I420ABuffer | I422Buffer | I444Buffer | I010Buffer | NV12Buffer

record rtc_buffer =
  rb_type :: rtc_buffer_type
  rb_width :: u32
  rb_height :: u32
  rb_planes :: "(u64 \<times> u32) list"

text \<open>
  The data of a buffer, whose planes are addresses with strides. The strides of an I010 buffer count
  samples of two bytes; its slices have half as many samples as that.
\<close>

definition rtc_rows :: "rtc_buffer_type \<Rightarrow> u32 \<Rightarrow> u32 list" where
  "rtc_rows t h =
     (let ch = (h + 1) div 2
      in case t of
           NativeBuffer \<Rightarrow> []
         | I420Buffer \<Rightarrow> [h, ch, ch]
         | I420ABuffer \<Rightarrow> [h, ch, ch, h]
         | I422Buffer \<Rightarrow> [h, h, h]
         | I444Buffer \<Rightarrow> [h, h, h]
         | I010Buffer \<Rightarrow> [h, ch, ch]
         | NV12Buffer \<Rightarrow> [h, ch])"

definition rtc_data :: "rtc_buffer \<Rightarrow> slice list" where
  "rtc_data b =
     map2 (\<lambda>(p, stride) rows.
         if rb_type b = I010Buffer then words_at p (unat (stride * rows) div 2)
         else bytes_at p (unat (stride * rows)))
       (rb_planes b) (rtc_rows (rb_type b) (rb_height b))"

text \<open>A new buffer: sizes and strides become \<open>i32\<close>, with a panic when they do not fit.\<close>

definition with_strides ::
    "rtc_buffer_type \<Rightarrow> (nat \<Rightarrow> u64) \<Rightarrow> u32 \<Rightarrow> u32 \<Rightarrow> u32 list \<Rightarrow> rtc_buffer conversion" where
  "with_strides t alloc w h strides =
     checked (list_all (\<lambda>n. unat n < 2 ^ 31) (w # h # strides))
       (gives \<lparr>rb_type = t, rb_width = w, rb_height = h, rb_planes = zip (map alloc [0..<length strides]) strides\<rparr>)"

section \<open>Capturing an image\<close>

text \<open>A step that needs the result of the one before, and \<open>copy_from_slice\<close> for every plane.\<close>

definition with_result :: "'b conversion \<Rightarrow> ('b \<Rightarrow> 'a conversion) \<Rightarrow> 'a conversion" where
  "with_result a k =
     (case snd a of None \<Rightarrow> (fst a, None) | Some x \<Rightarrow> (fst a @ fst (k x), snd (k x)))"

definition copy_planes :: "slice list \<Rightarrow> rtc_buffer \<Rightarrow> (rtc_buffer \<times> slice list) conversion" where
  "copy_planes srcs b =
     checked (list_all2 (\<lambda>dst src. sl_len dst = sl_len src) (rtc_data b) srcs) (gives (b, srcs))"

definition to_planar where
  "to_planar t slice_of alloc info =
     three info (\<lambda>c0 c1 c2.
       with_result
         (with_strides t alloc (vb_width info) (vb_height info) [ci_stride c0, ci_stride c1, ci_stride c2])
         (copy_planes [slice_of c0, slice_of c1, slice_of c2]))"

abbreviation "to_i420 \<equiv> to_planar I420Buffer bytes_of"

definition via_i420 where
  "via_i420 alloc m = with_result m (\<lambda>r. case r of Inl _ \<Rightarrow> panics | Inr (_, info) \<Rightarrow> to_i420 alloc info)"

definition to_libwebrtc_buffer where
  "to_libwebrtc_buffer yuv at alloc info =
     (case vb_type info of
        Rgba \<Rightarrow> via_i420 alloc (cvt_rgba yuv at info I420 False)
      | Abgr \<Rightarrow> via_i420 alloc (cvt_abgr yuv at info I420 False)
      | Argb \<Rightarrow> via_i420 alloc (cvt_argb yuv at info I420 False)
      | Bgra \<Rightarrow> via_i420 alloc (cvt_bgra yuv at info I420 False)
      | Rgb24 \<Rightarrow> via_i420 alloc (cvt_rgb24 yuv at info I420 False)
      | I420 \<Rightarrow> to_i420 alloc info
      | I420a \<Rightarrow> to_i420 alloc info
      | I422 \<Rightarrow> to_planar I422Buffer bytes_of alloc info
      | I444 \<Rightarrow> to_planar I444Buffer bytes_of alloc info
      | I010 \<Rightarrow> to_planar I010Buffer words_of alloc info
      | Nv12 \<Rightarrow>
          two info (\<lambda>c0 c1.
            with_result
              (with_strides NV12Buffer alloc (vb_width info) (vb_height info) [ci_stride c0, ci_stride c1])
              (copy_planes [bytes_of c0, bytes_of c1])))"

section \<open>Describing a received frame\<close>

text \<open>
  The description of a buffer and the format it is converted to by default. A missing alpha plane is a null
  pointer, on which the code panics.
\<close>

definition frame_info :: "rtc_buffer \<Rightarrow> video_buffer_info option" where
  "frame_info b =
     (let w = rb_width b; h = rb_height b
      in case rb_planes b of
           [(y, sy), (uv, suv)] \<Rightarrow> (if rb_type b = NV12Buffer then Some (nv12_info y y uv w h sy suv) else None)
         | [(y, sy), (u, su), (v, sv)] \<Rightarrow>
             (case rb_type b of
                I420Buffer \<Rightarrow> Some (i420_info y y u v w h sy su sv)
              | I422Buffer \<Rightarrow> Some (i422_info y y u v w h sy su sv)
              | I444Buffer \<Rightarrow> Some (i444_info y y u v w h sy su sv)
              | I010Buffer \<Rightarrow> Some (i010_info y y u v w h sy su sv)
              | _ \<Rightarrow> None)
         | [(y, sy), (u, su), (v, sv), (a, sa)] \<Rightarrow>
             (if rb_type b = I420ABuffer \<and> a \<noteq> 0 then Some (i420a_info y y u v a w h sy su sv sa) else None)
         | _ \<Rightarrow> None)"

fun frame_format :: "rtc_buffer_type \<Rightarrow> video_buffer_type" where
  "frame_format NativeBuffer = I420"
| "frame_format I420Buffer = I420"
| "frame_format I420ABuffer = I420a"
| "frame_format I422Buffer = I422"
| "frame_format I444Buffer = I444"
| "frame_format I010Buffer = I010"
| "frame_format NV12Buffer = Nv12"

definition to_video_buffer_info where
  "to_video_buffer_info yuv at native rtcbuffer dst_type =
     (let b = if rb_type rtcbuffer = NativeBuffer then native rtcbuffer else rtcbuffer
      in case frame_info b of
           None \<Rightarrow> panics
         | Some info \<Rightarrow> cvt yuv at info (unwrap_or (frame_format (rb_type rtcbuffer)) dst_type) False)"

section \<open>Received frames\<close>

text \<open>A buffer as WebRTC makes it: rows that fit their stride, sizes that do not wrap, an alpha plane.\<close>

definition stride_fits :: "u32 \<Rightarrow> u32 \<Rightarrow> bool" where
  "stride_fits h n = (unat n * (unat h + 1) < 2 ^ 32)"

definition frame_ok :: "rtc_buffer \<Rightarrow> bool" where
  "frame_ok b =
     (let w = rb_width b; h = rb_height b
      in 0 < unat w \<and> 0 < unat h \<and> small_image w h [] \<and>
         list_all2 (\<lambda>l (p, n). row_length l (unat w) \<le> unat n \<and> stride_fits h n)
           (layouts (frame_format (rb_type b))) (rb_planes b) \<and>
         list_all (\<lambda>(p, n). p \<noteq> 0) (rb_planes b))"

lemma plane_sizes:
  assumes "small_image w h ns" and "stride_fits h n"
  shows "unat (n * h) = unat n * unat h" "unat (n * ((h + 1) div 2)) = unat n * ((unat h + 1) div 2)"
    "unat n * unat h < 2 ^ 32"
    "unat n * ((unat h + 1) div 2) \<le> unat (n * ((h + 1) div 2) * 2)"
proof -
  have half: "unat ((h + 1) div 2) = (unat h + 1) div 2"
    using small_imageD [OF assms(1)] by (simp add: halves)
  have rows: "(unat h + 1) div 2 * 2 \<le> unat h + 1" by simp
  have le: "unat n * unat h \<le> unat n * (unat h + 1)" "unat n * ((unat h + 1) div 2) * 2 \<le> unat n * (unat h + 1)"
    using mult_le_mono2 [OF rows, of "unat n"] by (simp_all only: mult.assoc) simp
  show full: "unat n * unat h < 2 ^ 32"
    using le(1) assms(2) unfolding stride_fits_def by linarith
  then show "unat (n * h) = unat n * unat h" by (rule u32_mult)
  have bounds: "unat n * ((unat h + 1) div 2) < 2 ^ 32" "unat n * ((unat h + 1) div 2) * 2 < 2 ^ 32"
    using le(2) assms(2) unfolding stride_fits_def by linarith+
  then show chroma: "unat (n * ((h + 1) div 2)) = unat n * ((unat h + 1) div 2)"
    by (simp only: u32_mult flip: half)
  have "unat (n * ((h + 1) div 2) * 2) = unat n * ((unat h + 1) div 2) * 2"
    using bounds(2) u32_mult [of "n * ((h + 1) div 2)" 2] by (simp add: chroma)
  then show "unat n * ((unat h + 1) div 2) \<le> unat (n * ((h + 1) div 2) * 2)" by simp
qed

definition described :: "rtc_buffer \<Rightarrow> video_buffer_info option \<Rightarrow> bool" where
  "described b r =
     (case r of None \<Rightarrow> False
      | Some info \<Rightarrow> buffer_ok info \<and> vb_type info = frame_format (rb_type b)
          \<and> vb_width info = rb_width b \<and> vb_height info = rb_height b)"

lemma frame_described:
  assumes ok: "frame_ok b" and type: "rb_type b \<noteq> NativeBuffer" "rb_type b \<noteq> I010Buffer"
  shows "described b (frame_info b)"
proof -
  let ?w = "rb_width b" and ?h = "rb_height b"
  have pos: "0 < unat ?w" "0 < unat ?h" and small: "small_image ?w ?h []"
    and planes: "list_all2 (\<lambda>l (p, n). row_length l (unat ?w) \<le> unat n \<and> stride_fits ?h n)
      (layouts (frame_format (rb_type b))) (rb_planes b)" "list_all (\<lambda>(p, n). p \<noteq> 0) (rb_planes b)"
    using ok by (simp_all add: frame_ok_def Let_def)
  note sizes = plane_sizes [OF small] plane_sizes(3,4) [OF small, simplified]
  show ?thesis
    using planes type pos small
    by (cases "rb_type b")
      (auto simp: list_all2_Cons1 frame_info_def i420_info_def i420a_info_def i422_info_def i444_info_def nv12_info_def
        planar_info_def component_def buffer_ok_def component_ok_def buffer_strides_def small_image_Cons Let_def sizes
        described_def simp del: row_length.simps)
qed

text \<open>
  A received frame is handed to the client as its format asks, or refused; neither panics, except for the
  flaws. A native frame is one through its I420 buffer.
\<close>

definition received :: "(rtc_buffer \<Rightarrow> rtc_buffer) \<Rightarrow> rtc_buffer \<Rightarrow> rtc_buffer" where
  "received native b = (if rb_type b = NativeBuffer then native b else b)"

lemma frame_told:
  assumes "accepting yuv" and "frame_ok (received native b)" and "rb_type (received native b) \<noteq> I010Buffer"
    and "rb_type b = NativeBuffer \<Longrightarrow> rb_type (native b) = I420Buffer"
    and "dst_type \<in> set (targets (frame_format (rb_type b)))"
  shows "converted at dst_type (rb_width (received native b)) (rb_height (received native b))
    (snd (to_video_buffer_info yuv at native b (Some dst_type)))"
proof -
  let ?b = "received native b"
  have type: "rb_type ?b \<noteq> NativeBuffer" "frame_format (rb_type ?b) = frame_format (rb_type b)"
    using assms(4) by (auto simp: received_def)
  have "described ?b (frame_info ?b)" using frame_described [OF assms(2) type(1) assms(3)] .
  then obtain info where info: "frame_info ?b = Some info" "buffer_ok info"
      "vb_type info = frame_format (rb_type b)" "vb_width info = rb_width ?b" "vb_height info = rb_height ?b"
    by (auto simp: described_def type(2) split: option.splits)
  have "ends_as at info dst_type (snd (cvt yuv at info dst_type False))" using converts [OF assms(1) info(2)] .
  with assms(5) info(3-5) have "converted at dst_type (rb_width ?b) (rb_height ?b) (snd (cvt yuv at info dst_type False))"
    by (simp add: ends_as_def)
  then show ?thesis
    using info(1) by (simp add: to_video_buffer_info_def received_def unwrap_or_def split: if_splits)
qed

section \<open>Captured images\<close>

text \<open>An image whose planes have exactly the size of their rows.\<close>

definition sized :: "video_buffer_info \<Rightarrow> bool" where
  "sized info =
     (layouts (vb_type info) \<noteq> [] \<longrightarrow>
        list_all2 (\<lambda>l c. unat (ci_size c) = unat (ci_stride c) * row_count l (unat (vb_height info))
            \<and> unat (ci_stride c) < 2 ^ 31)
          (layouts (vb_type info)) (vb_components info))"

fun captured_type :: "video_buffer_type \<Rightarrow> rtc_buffer_type" where
  "captured_type I422 = I422Buffer"
| "captured_type I444 = I444Buffer"
| "captured_type I010 = I010Buffer"
| "captured_type Nv12 = NV12Buffer"
| "captured_type _ = I420Buffer"

lemma fills_sized:
  assumes "fills at len info"
  shows "sized info"
  unfolding sized_def
proof
  assume planar: "layouts (vb_type info) \<noteq> []"
  with assms have exact: "list_all2 (exact (unat (vb_width info)) (unat (vb_height info))) (layouts (vb_type info))
      (vb_components info)" and "small_buffer info"
    by (simp_all add: fills_def buffer_ok_def Let_def)
  have "unat (vb_width info) < 2 ^ 30" using small_imageD(1) [OF \<open>small_buffer info\<close>] by simp
  then have "row_length l (unat (vb_width info)) < 2 ^ 31" if "l \<in> set (layouts (vb_type info))" for l
    using that planar by (cases "vb_type info") auto
  then show "list_all2 (\<lambda>l c. unat (ci_size c) = unat (ci_stride c) * row_count l (unat (vb_height info))
      \<and> unat (ci_stride c) < 2 ^ 31) (layouts (vb_type info)) (vb_components info)"
    using exact by (auto simp: list_all2_conv_all_nth exact_def)
qed

lemma product_size:
  assumes "unat (c :: u32) = unat (n :: u32) * unat (r :: u32)"
  shows "n * r = c"
proof -
  have "unat c < 2 ^ 32" by (rule less_le_trans [OF unsigned_less]) simp
  then show ?thesis using u32_mult [of n r] by (simp add: word_unat_eq_iff assms)
qed

lemma planar_captured:
  assumes "buffer_ok info" and "sized info" and "layouts (vb_type info) \<noteq> []" and "vb_type info \<noteq> I010"
  defines "cs \<equiv> take (length (layouts (frame_format (captured_type (vb_type info))))) (vb_components info)"
  shows "snd (to_libwebrtc_buffer yuv at alloc info) =
    Some (\<lparr>rb_type = captured_type (vb_type info), rb_width = vb_width info, rb_height = vb_height info,
        rb_planes = zip (map alloc [0..<length cs]) (map ci_stride cs)\<rparr>, map bytes_of cs)"
proof -
  let ?w = "vb_width info" and ?h = "vb_height info"
  have small: "small_buffer info" using assms(1) by (simp add: buffer_ok_def Let_def)
  have dims: "unat ?w < 2147483648" "unat ?h < 2147483648" using small_imageD [OF small] by simp_all
  have half: "(unat ?h + 1) div 2 = unat ((?h + 1) div 2)" using dims by (simp add: halves)
  show ?thesis
    using assms(2-4) unfolding cs_def sized_def
    by (cases "vb_type info")
      (auto simp: list_all2_Cons1 to_libwebrtc_buffer_def to_planar_def three_def two_def with_result_def with_strides_def
        checked_def gives_def copy_planes_def rtc_data_def rtc_rows_def dims half Let_def bytes_of_def bytes_at_def
        upt_rec simp del: One_nat_def dest!: product_size)
qed

lemma packed_captured: "layouts (vb_type info) = [] \<Longrightarrow>
    to_libwebrtc_buffer yuv at alloc info = via_i420 alloc (cvt yuv at info I420 False)"
  by (cases "vb_type info") (simp_all add: to_libwebrtc_buffer_def cvt_def)

lemma via_i420_converted:
  assumes "snd m = Some (Inr (len, info))" and "vb_type info = I420"
  shows "snd (via_i420 alloc m) = snd (to_libwebrtc_buffer yuv at alloc info)"
  using assms by (simp add: via_i420_def with_result_def to_libwebrtc_buffer_def)

text \<open>Slices that lie one after the other, from an address on.\<close>

fun contiguous :: "u64 \<Rightarrow> slice list \<Rightarrow> bool" where
  "contiguous at [] = True"
| "contiguous at (s # ss) = (sl_at s = at \<and> contiguous (at + of_nat (sl_len s)) ss)"

lemma tiled_contiguous: "tiled at n cs \<Longrightarrow> contiguous at (map bytes_of (take k cs))"
proof (induction cs arbitrary: at n k)
  case (Cons c cs)
  then show ?case by (cases k) (auto simp: bytes_of_def bytes_at_def)
qed simp

definition captured :: "u64 \<Rightarrow> video_buffer_info \<Rightarrow> (rtc_buffer \<times> slice list) option \<Rightarrow> bool" where
  "captured at info r \<longleftrightarrow>
     (case r of None \<Rightarrow> False
      | Some (b, srcs) \<Rightarrow> rb_type b = captured_type (vb_type info) \<and> rb_width b = vb_width info
          \<and> rb_height b = vb_height info \<and> frame_ok b \<and> contiguous at srcs
          \<and> list_all2 (\<lambda>dst src. sl_len dst = sl_len src) (rtc_data b) srcs)"

lemma same_lengths:
  "list_all2 (\<lambda>dst src. sl_len dst = sl_len src) dsts srcs \<Longrightarrow> map sl_len srcs = map sl_len dsts"
  by (induction rule: list_all2_induct) simp_all

lemma copied_lengths:
  assumes "snd (to_libwebrtc_buffer yuv at alloc info) = Some (b, srcs)"
  shows "list_all2 (\<lambda>dst src. sl_len dst = sl_len src) (rtc_data b) srcs"
  using assms
  by (auto simp: to_libwebrtc_buffer_def to_planar_def via_i420_def three_def two_def with_result_def copy_planes_def
      checked_def gives_def panics_def split: video_buffer_type.splits option.splits list.splits sum.splits if_splits)

lemma tight_stride:
  assumes "small_image w h ns" and "unat n \<le> unat w + 1"
  shows "stride_fits h n"
proof -
  obtain m where m: "m = (unat w + 1) * (unat h + 1)" by simp
  have "4 * m < 2 ^ 32" using assms(1) by (simp only: small_image_def mult.assoc m)
  moreover have "unat n * (unat h + 1) \<le> m" unfolding m using assms(2) by (rule mult_le_mono1)
  ultimately show ?thesis by (simp add: stride_fits_def)
qed

lemma planar_fills_captured:
  assumes fills: "fills at0 len info" and planar: "layouts (vb_type info) \<noteq> []" "vb_type info \<noteq> I010"
    and alloc: "\<And>i. alloc i \<noteq> 0"
  shows "captured at0 info (snd (to_libwebrtc_buffer yuv at alloc info))"
proof -
  let ?w = "vb_width info" and ?h = "vb_height info"
  have ok: "buffer_ok info" and exact: "list_all2 (exact (unat ?w) (unat ?h)) (layouts (vb_type info)) (vb_components info)"
    and tiled: "tiled at0 len (vb_components info)"
    using fills planar by (simp_all add: fills_def Let_def)
  then have pos: "0 < unat ?w" "0 < unat ?h" and small: "small_image ?w ?h []"
    by (auto simp: buffer_ok_def Let_def elim: small_perm)
  note result = planar_captured [OF ok fills_sized [OF fills] planar, of yuv at alloc]
  have "frame_ok (fst (the (snd (to_libwebrtc_buffer yuv at alloc info))))"
    using exact planar pos small unfolding result
    by (cases "vb_type info")
      (auto simp: list_all2_Cons1 frame_ok_def exact_def alloc upt_rec Let_def intro!: tight_stride [OF small])
  then show ?thesis
    using copied_lengths [OF result] result tiled_contiguous [OF tiled] by (simp add: captured_def)
qed

lemma fills_captured:
  assumes yuv: "accepting yuv" and fills: "fills at0 len info" and type: "vb_type info \<noteq> I010" "vb_type info \<noteq> Abgr"
    and alloc: "\<And>i. alloc i \<noteq> 0"
  shows "captured (if layouts (vb_type info) = [] then at else at0) info (snd (to_libwebrtc_buffer yuv at alloc info))"
proof (cases "layouts (vb_type info) = []")
  case True
  have "ends_as at info I420 (snd (cvt yuv at info I420 False))"
    using converts [OF yuv] fills by (simp add: fills_def Let_def)
  moreover have "I420 \<in> set (targets (vb_type info))" using True type by (cases "vb_type info") simp_all
  ultimately have "converted at I420 (vb_width info) (vb_height info) (snd (cvt yuv at info I420 False))"
    by (simp add: ends_as_def)
  then obtain len' info' where
    r: "snd (cvt yuv at info I420 False) = Some (Inr (len', info'))" "vb_type info' = I420" "fills at len' info'"
      "vb_width info' = vb_width info" "vb_height info' = vb_height info"
    by (auto simp: converted_def split: option.splits sum.splits)
  have "captured_type (vb_type info) = I420Buffer" using True type by (cases "vb_type info") simp_all
  moreover have "captured at info' (snd (to_libwebrtc_buffer yuv at alloc info'))"
    by (rule planar_fills_captured [OF r(3)]) (simp_all add: r alloc)
  ultimately show ?thesis
    using True r unfolding packed_captured [OF True] via_i420_converted [OF r(1,2), of alloc yuv at]
    by (simp add: captured_def split: option.splits prod.splits)
next
  case False
  then show ?thesis using planar_fills_captured [OF fills False type(1) alloc] by simp
qed

text \<open>
  C20. A received frame can be sent on: when libyuv accepts what it is called with, a frame that is not of ten
  bits a sample and was told to a client in a format its kind is converted to, other than ABGR, can be
  captured again (\<open>i010_frame_panics\<close> and \<open>abgr_always_panics\<close> are the exceptions). The captured buffer
  is one as WebRTC makes it and of the same size. Its planes were copied one after the other, for a planar
  format from the allocation that holds the told frame, for a packed one from a second allocation, that of
  its conversion to I420.
\<close>

theorem received_frame_captured:
  assumes "accepting yuv" and "frame_ok (received native b)" and "rb_type (received native b) \<noteq> I010Buffer"
    and "rb_type b = NativeBuffer \<Longrightarrow> rb_type (native b) = I420Buffer"
    and "dst_type \<in> set (targets (frame_format (rb_type b)))" and "dst_type \<noteq> Abgr" and "\<And>i. alloc i \<noteq> 0"
  shows "(case snd (to_video_buffer_info yuv at native b (Some dst_type)) of
      Some (Inr (len, info)) \<Rightarrow>
        (case snd (to_libwebrtc_buffer yuv at' alloc info) of
           Some (b', srcs) \<Rightarrow> rb_type b' = captured_type dst_type \<and> frame_ok b'
             \<and> rb_width b' = rb_width (received native b) \<and> rb_height b' = rb_height (received native b)
             \<and> contiguous (if layouts dst_type = [] then at' else at) srcs
             \<and> map sl_len srcs = map sl_len (rtc_data b')
         | None \<Rightarrow> False)
    | _ \<Rightarrow> False)"
proof -
  have "converted at dst_type (rb_width (received native b)) (rb_height (received native b))
      (snd (to_video_buffer_info yuv at native b (Some dst_type)))"
    using frame_told [OF assms(1-5)] .
  then obtain len info where info: "snd (to_video_buffer_info yuv at native b (Some dst_type)) = Some (Inr (len, info))"
      "vb_type info = dst_type" "vb_width info = rb_width (received native b)"
      "vb_height info = rb_height (received native b)" "fills at len info"
    by (auto simp: converted_def split: option.splits sum.splits)
  have "dst_type \<noteq> I010" using assms(5) by (cases "rb_type b") auto
  then have "captured (if layouts dst_type = [] then at' else at) info (snd (to_libwebrtc_buffer yuv at' alloc info))"
    using fills_captured [OF assms(1) info(5) _ _ assms(7)] info(2) assms(6) by simp
  then show ?thesis
    using info
    by (auto simp: captured_def dest: same_lengths split: option.splits)
qed

definition demo_frame :: rtc_buffer where
  "demo_frame = \<lparr>rb_type = I420Buffer, rb_width = 4, rb_height = 2, rb_planes = [(64, 8), (80, 4), (84, 4)]\<rparr>"

lemma received_frame_captured_witness:
  "case snd (to_video_buffer_info (\<lambda>_. 0) 4096 (\<lambda>b. b) demo_frame (Some Rgba)) of
      Some (Inr (len, info)) \<Rightarrow> (case snd (to_libwebrtc_buffer (\<lambda>_. 0) 8192 (\<lambda>_. 12288) info) of
        Some (b', srcs) \<Rightarrow> rb_type b' = I420Buffer \<and> contiguous 8192 srcs | None \<Rightarrow> False)
    | _ \<Rightarrow> False"
proof -
  have "frame_ok demo_frame" by (simp add: demo_frame_def frame_ok_def stride_fits_def small_image_def Let_def)
  moreover have "received (\<lambda>b. b) demo_frame = demo_frame" "rb_type demo_frame = I420Buffer"
    by (simp_all add: received_def demo_frame_def)
  ultimately show ?thesis
    using received_frame_captured [of "\<lambda>_. 0" "\<lambda>b. b" demo_frame Rgba "\<lambda>_. 12288" 8192 4096]
    by (auto simp: accepting_def split: option.splits sum.splits)
qed

text \<open>
  The flaws: a frame of ten bits a sample panics in every format it can be converted to, a frame in NV12 or I444
  told in its own format panics or names the wrong plane, and a described image of ten bits a sample cannot
  be captured.
\<close>

lemma i010_frame_panics:
  assumes "frame_ok b" and "rb_type b = I010Buffer" and "dst_type \<in> {Rgba, Bgra, I420}"
  shows "snd (to_video_buffer_info yuv at native b (Some dst_type)) = None"
proof -
  let ?w = "rb_width b" and ?h = "rb_height b"
  obtain y sy u su v sv where planes: "rb_planes b = [(y, sy), (u, su), (v, sv)]"
      and sy: "unat ?w \<le> unat sy" "stride_fits ?h sy" and pos: "0 < unat ?w" "0 < unat ?h" and small: "small_image ?w ?h []"
    using assms(1,2) by (auto simp: frame_ok_def list_all2_Cons1 Let_def)
  have "0 < unat sy * unat ?h" using sy(1) pos by simp
  then have "\<not> unat sy * unat ?h \<le> unat sy * unat ?h div 2" by linarith
  then have "\<not> unat (sy * ?h) \<le> unat (sy * ?h) div 2" by (simp only: plane_sizes(1) [OF small sy(2)] not_False_eq_True)
  then have "\<not> valid_010 (words_of (component y sy (sy * ?h))) sy p n q m ?w ?h" for p n q m
    by (simp add: valid_010_def words_of_def words_at_def component_def Let_def)
  moreover have "ci_stride (component p n m) = n" for p n m by (simp add: component_def)
  ultimately show ?thesis
    using assms(2,3)
    by (auto simp: to_video_buffer_info_def frame_info_def planes i010_info_def planar_info_def cvt_def cvt_i010_def three_def
        to_new_packed_def to_new_i420_def new_planes_def x010_to_rgba_def i010_to_i420_def checked_def panics_def and_then_def
        Let_def split: option.split)
qed

lemma nv12_frame_panics:
  assumes "frame_ok b" and "rb_type b = NV12Buffer"
  shows "snd (to_video_buffer_info yuv at native b None) = None"
proof -
  have "described b (frame_info b)" by (rule frame_described [OF assms(1)]) (simp_all add: assms(2))
  then obtain info where "frame_info b = Some info" "buffer_ok info" "vb_type info = Nv12"
    by (auto simp: described_def assms(2) split: option.splits)
  then show ?thesis
    using nv12_copy_panics by (simp add: to_video_buffer_info_def assms(2) unwrap_or_def)
qed

end
