(* ===== verification/FfiWorld.thy ===== *)
theory FfiWorld
  imports FfiFrame OutgoingStream
begin

text \<open>
  The state of the foreign function interface beyond its handles: the rooms, the spawned tasks, and what
  was called and answered (\<open>livekit-ffi/src/server/room.rs\<close>, \<open>participant.rs\<close>, \<open>data_stream.rs\<close>).

  What the SDK answers is the argument of the step of the task that waits for it (\<open>sdk_result\<close>); the
  calls that give no answer are recorded in \<open>fw_calls\<close>. A room is named by its index in \<open>fw_rooms\<close>,
  which stands for the shared \<open>Arc<RoomInner>\<close>.
\<close>

section \<open>The calls of the SDK\<close>

text \<open>Requests to the e2ee manager of a room, and what they are answered with.\<close>

datatype (plugins only: code size) e2ee_request =
    ManagerSetEnabled bool
  | ManagerGetFrameCryptors
  | CryptorSetEnabled string string bool
  | CryptorSetKeyIndex string string int
  | SetSharedKey "byte list" int
  | RatchetSharedKey int
  | GetSharedKey int
  | SetKey string int "byte list"
  | RatchetKey string int
  | GetKey string int

text \<open>The payloads that three tasks of a room publish: data, transcriptions and tones.\<close>

datatype (plugins only: code size) room_job =
    JobData "byte list" bool "string option" "string list"
  | JobTranscription string string "transcription_segment list"
  | JobDtmf u32 string "string list"

datatype (plugins only: code size) e2ee_answer =
    E2eeDone
  | E2eeCryptors "(string \<times> string \<times> bool \<times> int) list"
  | E2eeKey "byte list option"

datatype (plugins only: code size) sdk_call =
    CallSetMetadata nat string
  | CallSetName nat string
  | CallSetAttributes nat "(string \<times> string) list"
  | CallSendChat nat string "string list" "string option"
  | CallEditChat nat string chat_message "string list" "string option"
  | CallSendHeader nat data_packet
  | CallSendChunk nat data_packet
  | CallSendTrailer nat data_packet
  | CallSetPermissions nat bool "participant_track_permission list"
  | CallGetStats ffi_track_ref
  | CallRoomStats nat
  | CallPerformRpc nat perform_rpc_data
  | CallSendFile nat string stream_byte_options
  | CallSendText nat string stream_text_options
  | CallSendBytes nat "byte list" stream_byte_options
  | CallStreamBytes nat stream_byte_options
  | CallStreamText nat stream_text_options
  | CallReadAllBytes nat
  | CallReadAllText nat
  | CallWriteToFile nat "string option" "string option"
  | CallWriteBytes nat "byte list"
  | CallWriteText nat string
  | CallCloseBytes nat "string option"
  | CallCloseText nat "string option"
  | CallSetSubscribed nat track_sid bool
  | CallSetEnabled nat track_sid bool
  | CallSetDimensions nat track_sid u32 u32
  | CallMute ffi_track_ref bool
  | CallEnable ffi_track_ref bool
  | CallSetThreshold nat u64 data_packet_kind
  | CallCaptureAudio handle_id audio_frame
  | CallClearAudio handle_id
  | CallCaptureVideo handle_id rtc_buffer "slice list"
  | CallE2ee nat e2ee_request
  | CallSoxPush handle_id "i16 list"
  | CallSoxFlush handle_id
  | CallApmStream handle_id "i16 list" bool
  | CallApmDelay handle_id int
  | CallRegisterPlugin string string
  | CallPublishData nat "byte list" bool "string option" "string list"
  | CallPublishTranscription nat string string "transcription_segment list"
  | CallPublishDtmf nat u32 string "string list"

text \<open>What the task of a payload calls: \<open>publish_data\<close>, \<open>publish_transcription\<close> or \<open>publish_dtmf\<close>.\<close>

fun job_call :: "nat \<Rightarrow> room_job \<Rightarrow> sdk_call" where
  "job_call k (JobData data reliable topic destinations) = CallPublishData k data reliable topic destinations"
| "job_call k (JobTranscription identity track_id segments) = CallPublishTranscription k identity track_id segments"
| "job_call k (JobDtmf code digit destinations) = CallPublishDtmf k code digit destinations"

text \<open>The events the SDK hands to the FFI: those of the room, of its stream task and of the e2ee manager.\<close>

datatype (plugins only: code size) sdk_event =
    RoomEvent room_event
  | ByteStreamOpened "nat option" participant_identity
  | TextStreamOpened "nat option" participant_identity
  | E2eeStateChanged participant_ref nat

text \<open>
  A video frame as it arrives: its buffer, the I420 buffer of a native one, and for its conversion what libyuv
  answers, the address of the new allocation and what is written to it.
\<close>

record video_arrival =
  va_buffer :: rtc_buffer
  va_i420 :: rtc_buffer
  va_answer :: int
  va_allocated :: u64
  va_pixels :: "byte list"

definition allocated_bytes :: "nat \<Rightarrow> byte list \<Rightarrow> byte list" where
  "allocated_bytes len pixels = take len pixels @ replicate (len - length pixels) 0"

datatype (plugins only: code size) sdk_result =
    ResUnit "string + unit"
  | ResChat "string + chat_message"
  | ResRpc "rpc_error + string"
  | ResByteInfo "stream_error + byte_stream_info"
  | ResTextInfo "stream_error + text_stream_info"
  | ResWriter "stream_error + nat"
  | ResBytes "stream_error + byte list"
  | ResText "stream_error + string"
  | ResStream "stream_error + unit"
  | ResNextBytes "(stream_error + byte list) option"
  | ResNextText "(stream_error + string) option"
  | ResPublished "string + track_sid"
  | ResConnected "string + sdk_event option"
  | ResSid string
  | ResAudioFrame "audio_frame option"
  | ResVideoFrame "video_arrival option"
  | ResTrack "(track_kind \<times> track_sid) option"
  | ResTrackFinished
  | ResStreamDropped
  | ResPanicked

fun error_of :: "'e + 'a \<Rightarrow> 'e option" where
  "error_of (Inl e) = Some e"
| "error_of (Inr _) = None"

text \<open>A result read at one of its types.\<close>

fun unit_result :: "sdk_result \<Rightarrow> (string + unit) option" where
  "unit_result (ResUnit r) = Some r"
| "unit_result _ = None"

fun chat_result :: "sdk_result \<Rightarrow> (string + chat_message) option" where
  "chat_result (ResChat r) = Some r"
| "chat_result _ = None"

fun rpc_result :: "sdk_result \<Rightarrow> (rpc_error + string) option" where
  "rpc_result (ResRpc r) = Some r"
| "rpc_result _ = None"

fun byte_info_result :: "sdk_result \<Rightarrow> (stream_error + byte_stream_info) option" where
  "byte_info_result (ResByteInfo r) = Some r"
| "byte_info_result _ = None"

fun text_info_result :: "sdk_result \<Rightarrow> (stream_error + text_stream_info) option" where
  "text_info_result (ResTextInfo r) = Some r"
| "text_info_result _ = None"

fun bytes_result :: "sdk_result \<Rightarrow> (stream_error + byte list) option" where
  "bytes_result (ResBytes r) = Some r"
| "bytes_result _ = None"

fun text_result :: "sdk_result \<Rightarrow> (stream_error + string) option" where
  "text_result (ResText r) = Some r"
| "text_result _ = None"

fun stream_answer :: "sdk_result \<Rightarrow> (stream_error + unit) option" where
  "stream_answer (ResStream r) = Some r"
| "stream_answer _ = None"

text \<open>The callback of a call, when the result is one that the call gives.\<close>

definition call_event :: "sdk_call \<Rightarrow> nat \<Rightarrow> sdk_result \<Rightarrow> ffi_event option" where
  "call_event call i res =
     (case call of
        CallCaptureAudio _ _ \<Rightarrow> map_option (\<lambda>r. EvCaptureAudioFrame i (error_of r)) (unit_result res)
      | CallSetMetadata _ _ \<Rightarrow> map_option (\<lambda>r. EvSetLocalMetadata i (error_of r)) (unit_result res)
      | CallSetName _ _ \<Rightarrow> map_option (\<lambda>r. EvSetLocalName i (error_of r)) (unit_result res)
      | CallSetAttributes _ _ \<Rightarrow> map_option (\<lambda>r. EvSetLocalAttributes i (error_of r)) (unit_result res)
      | CallSendChat _ _ _ _ \<Rightarrow> map_option (\<lambda>r. EvChatMessage i r) (chat_result res)
      | CallEditChat _ _ _ _ _ \<Rightarrow> map_option (\<lambda>r. EvChatMessage i r) (chat_result res)
      | CallSendHeader _ _ \<Rightarrow> map_option (\<lambda>r. EvSendStreamHeader i (error_of r)) (unit_result res)
      | CallSendChunk _ _ \<Rightarrow> map_option (\<lambda>r. EvSendStreamChunk i (error_of r)) (unit_result res)
      | CallSendTrailer _ _ \<Rightarrow> map_option (\<lambda>r. EvSendStreamTrailer i (error_of r)) (unit_result res)
      | CallGetStats _ \<Rightarrow> map_option (\<lambda>r. EvGetStats i (error_of r)) (unit_result res)
      | CallRoomStats _ \<Rightarrow> map_option (\<lambda>r. EvGetSessionStats i (error_of r)) (unit_result res)
      | CallPerformRpc _ _ \<Rightarrow> map_option (\<lambda>r. EvPerformRpc i r) (rpc_result res)
      | CallSendFile _ _ _ \<Rightarrow> map_option (\<lambda>r. EvSendFile i r) (byte_info_result res)
      | CallSendText _ _ _ \<Rightarrow> map_option (\<lambda>r. EvSendText i r) (text_info_result res)
      | CallSendBytes _ _ _ \<Rightarrow> map_option (\<lambda>r. EvSendBytes i r) (byte_info_result res)
      | CallReadAllBytes _ \<Rightarrow> map_option (\<lambda>r. EvByteReadAll i r) (bytes_result res)
      | CallReadAllText _ \<Rightarrow> map_option (\<lambda>r. EvTextReadAll i r) (text_result res)
      | CallWriteToFile _ _ _ \<Rightarrow> map_option (\<lambda>r. EvByteWriteToFile i r) (text_result res)
      | CallWriteBytes _ _ \<Rightarrow> map_option (\<lambda>r. EvByteWrite i (error_of r)) (stream_answer res)
      | CallWriteText _ _ \<Rightarrow> map_option (\<lambda>r. EvTextWrite i (error_of r)) (stream_answer res)
      | CallCloseBytes _ _ \<Rightarrow> map_option (\<lambda>r. EvByteClose i (error_of r)) (stream_answer res)
      | CallCloseText _ _ \<Rightarrow> map_option (\<lambda>r. EvTextClose i (error_of r)) (stream_answer res)
      | _ \<Rightarrow> None)"

section \<open>State\<close>

text \<open>The tasks of a room, of which three publish payloads.\<close>

datatype (plugins only: code size) room_worker = EventTask | DataTask | TranscriptionTask | DtmfTask

fun job_event :: "room_worker \<Rightarrow> nat \<Rightarrow> string option \<Rightarrow> ffi_event" where
  "job_event TranscriptionTask i err = EvPublishTranscription i err"
| "job_event DtmfTask i err = EvPublishSipDtmf i err"
| "job_event _ i err = EvPublishData i err"

record ffi_room =
  fr_handle_id :: handle_id
  fr_published :: "track_sid set"
  fr_unpublished :: "track_sid set"
  fr_track_lookup :: "(track_sid, handle_id) hmap"
  fr_rpc_waiters :: "nat \<rightharpoonup> unit"
  fr_rpc_methods :: "string \<rightharpoonup> handle_id"
  fr_url :: string
  fr_reconnecting :: bool
  fr_events :: "sdk_event list"
  fr_waiting :: "track_sid option"
  fr_jobs :: "room_worker \<Rightarrow> (nat \<times> room_job) list"
  fr_running :: "room_worker \<Rightarrow> bool"
  fr_has_handle :: bool
  fr_closing :: bool

definition ffi_room_new :: "handle_id \<Rightarrow> string \<Rightarrow> ffi_room" where
  "ffi_room_new i url =
     \<lparr>fr_handle_id = i, fr_published = {}, fr_unpublished = {}, fr_track_lookup = [],
      fr_rpc_waiters = Map.empty, fr_rpc_methods = Map.empty, fr_url = url, fr_reconnecting = False,
      fr_events = [], fr_waiting = None, fr_jobs = (\<lambda>_. []), fr_running = (\<lambda>_. True), fr_has_handle = True,
      fr_closing = False\<rparr>"

text \<open>
  A spawned task, at the point where it waits. Closing a room waits for the SDK, then for the room's
  tasks; what comes after is the callback of a disconnect, or the next room of a dispose. A stream task
  stops with its handles (its own and that of its track), or with the task that follows a participant.
\<close>

datatype (plugins only: code size) close_phase = CloseStart | CloseSdk | CloseStop

datatype (plugins only: code size) stream_owner = OwnedByHandles | OwnedByTask bool

record audio_reader =
  ar_stream :: handle_id
  ar_owner :: stream_owner
  ar_target :: "nat option"
  ar_sample_rate :: u32
  ar_num_channels :: u32
  ar_buf :: "i16 list"
  ar_draining :: bool

record video_reader =
  vr_stream :: handle_id
  vr_format :: "video_buffer_type option"
  vr_owner :: stream_owner

datatype (plugins only: code size) follow_phase = FollowStart | FollowWait | FollowPlay nat

record follower =
  fo_stream :: handle_id
  fo_kind :: track_kind
  fo_format :: "video_buffer_type option"
  fo_participant :: handle_id
  fo_frame_size_ms :: "u32 option"
  fo_sample_rate :: u32
  fo_num_channels :: u32
  fo_phase :: follow_phase

datatype (plugins only: code size) ffi_work =
    WkConnect string "string \<times> string"
  | WkRoomSid nat
  | WkDisconnect handle_id
  | WkClose nat close_phase
  | WkDispose "nat list" close_phase
  | WkPublishTrack nat handle_id
  | WkPublishing nat
  | WkUnpublish nat string
  | WkUnpublishWait nat track_sid
  | WkCall sdk_call
  | WkOpenBytes sdk_call
  | WkOpenText sdk_call
  | WkReadBytes nat handle_id
  | WkReadText nat handle_id
  | WkTell ffi_event
  | WkAudioStream audio_reader
  | WkVideoStream video_reader
  | WkFollow follower
  | WkDone

record ffi_task =
  ta_async :: "nat option"
  ta_work :: ffi_work

text \<open>
  What a client gets for a request: the reply with the handle of its buffer. Most replies name an
  asynchronous operation or a new handle.
\<close>

datatype (plugins only: code size) ffi_response =
    RspDone
  | RspAsync nat
  | RspHandle ffi_kind handle_id
  | RspFlag bool
  | RspError "string option"
  | RspBuffer "string + nat"
  | RspE2ee e2ee_answer

record ffi_world = ffi_server +
  fw_responses :: "(handle_id \<times> ffi_response) list"
  fw_rooms :: "ffi_room list"
  fw_tasks :: "ffi_task list"
  fw_calls :: "sdk_call list"
  fw_rpc_answers :: "(nat \<times> (rpc_error + string)) list"

definition ffi_world_default :: ffi_world where
  "ffi_world_default =
     ffi_server.extend ffi_server_default
       \<lparr>fw_responses = [], fw_rooms = [], fw_tasks = [], fw_calls = [], fw_rpc_answers = []\<rparr>"

definition spawn :: "nat option \<Rightarrow> ffi_work \<Rightarrow> ffi_world \<Rightarrow> ffi_world" where
  "spawn i work w = w\<lparr>fw_tasks := fw_tasks w @ [\<lparr>ta_async = i, ta_work = work\<rparr>]\<rparr>"

definition set_work :: "nat \<Rightarrow> ffi_work \<Rightarrow> ffi_world \<Rightarrow> ffi_world" where
  "set_work n work w = w\<lparr>fw_tasks := (fw_tasks w)[n := (fw_tasks w ! n)\<lparr>ta_work := work\<rparr>]\<rparr>"

definition set_room :: "nat \<Rightarrow> ffi_room \<Rightarrow> ffi_world \<Rightarrow> ffi_world" where
  "set_room k r w = w\<lparr>fw_rooms := (fw_rooms w)[k := r]\<rparr>"

definition call_sdk :: "sdk_call \<Rightarrow> ffi_world \<Rightarrow> ffi_world" where
  "call_sdk call w = w\<lparr>fw_calls := fw_calls w @ [call]\<rparr>"

text \<open>A new handle: the next identifier, under which the object is stored.\<close>

definition issue :: "ffi_object \<Rightarrow> 'z ffi_server_scheme \<Rightarrow> handle_id \<times> 'z ffi_server_scheme" where
  "issue obj s = (case next_id s of (i, s) \<Rightarrow> (i, store_handle i obj s))"

definition async_of :: "ffi_task \<Rightarrow> nat" where
  "async_of t = unwrap_or INVALID_HANDLE (ta_async t)"

definition finish :: "nat \<Rightarrow> ffi_event \<Rightarrow> ffi_world \<Rightarrow> ffi_world" where
  "finish n event w = emit event (set_work n WkDone w)"

definition panicked :: "nat \<Rightarrow> ffi_world \<Rightarrow> ffi_world" where
  "panicked n w = send_panic ''task panicked'' (set_work n WkDone w)"

end
