(* ===== verification/FfiStreams.thy ===== *)
theory FfiStreams
  imports FfiWorld
begin

text \<open>
  The media streams of the foreign function interface (\<open>livekit-ffi/src/server/audio_stream.rs\<close>,
  \<open>video_stream.rs\<close>): a task per stream hands the frames of a track to the client, each under a handle of
  its own, and a task per participant stream follows the tracks of a participant. What libwebrtc delivers
  is the argument of the step; the sessions of audio filters are left out.
\<close>

section \<open>Frames\<close>

text \<open>A frame that could not be told is dropped again.\<close>

definition tell_object :: "(handle_id \<Rightarrow> ffi_event) \<Rightarrow> ffi_object \<Rightarrow> ffi_world \<Rightarrow> ffi_world" where
  "tell_object event obj w =
     (case issue obj w of (i, w) \<Rightarrow>
      case send_event (event i) w of
        (Inl _, w) \<Rightarrow> snd (drop_handle i w)
      | (Inr _, w) \<Rightarrow> w)"

text \<open>
  Frames of a fixed length are cut out of a buffer: \<open>target\<close> counts the samples of all channels, a product of
  \<open>usize\<close> that wraps around; a frame of no channels is a division by zero, \<open>None\<close>.
\<close>

definition target_samples :: "u32 option \<Rightarrow> u32 \<Rightarrow> u32 \<Rightarrow> nat option" where
  "target_samples frame_size_ms sample_rate num_channels =
     map_option (\<lambda>ms. (unat sample_rate * unat ms) mod 2 ^ 64 div 1000 * unat num_channels mod 2 ^ 64) frame_size_ms"

definition cut_frame :: "nat \<Rightarrow> audio_reader \<Rightarrow> (audio_frame \<times> audio_reader) option" where
  "cut_frame target rd =
     (if ar_num_channels rd = 0 then None
      else Some (\<lparr>af_data = take target (ar_buf rd), af_sample_rate = ar_sample_rate rd,
          af_num_channels = ar_num_channels rd,
          af_samples_per_channel = of_nat target div ar_num_channels rd\<rparr>,
        rd\<lparr>ar_buf := drop target (ar_buf rd)\<rparr>))"

section \<open>The stream tasks\<close>

text \<open>
  The two oneshot channels of a stream: its own object is dropped, or the track's handle is. Within a
  participant stream the first is closed by the follower, and the second also when any other track
  of the same source ends, as the task that listens takes one message only and is then gone.
\<close>

definition stream_dropped :: "handle_id \<Rightarrow> stream_owner \<Rightarrow> ffi_world \<Rightarrow> bool" where
  "stream_dropped i owner w \<longleftrightarrow>
     (case owner of
        OwnedByHandles \<Rightarrow> map_of (fs_handles w) i = None \<or> i \<in> set (fs_woken w)
      | OwnedByTask closed \<Rightarrow> closed)"

definition stream_stops :: "sdk_result \<Rightarrow> handle_id \<Rightarrow> stream_owner \<Rightarrow> ffi_world \<Rightarrow> bool" where
  "stream_stops res i owner w \<longleftrightarrow>
     res = ResStreamDropped \<and> stream_dropped i owner w
     \<or> res = ResTrackFinished \<and> owner \<noteq> OwnedByHandles"

text \<open>Only a stream that was made for a track tells its end; one within a participant stream is unwatched.\<close>

definition end_stream :: "nat \<Rightarrow> stream_owner \<Rightarrow> ffi_event \<Rightarrow> ffi_world \<Rightarrow> ffi_world" where
  "end_stream n owner eos w = (if owner = OwnedByHandles then finish n eos w else set_work n WkDone w)"

definition stream_panics :: "nat \<Rightarrow> stream_owner \<Rightarrow> ffi_world \<Rightarrow> ffi_world" where
  "stream_panics n owner w = (if owner = OwnedByHandles then panicked n w else set_work n WkDone w)"

definition native_audio_stream_task :: "nat \<Rightarrow> audio_reader \<Rightarrow> sdk_result \<Rightarrow> ffi_world \<Rightarrow> ffi_world" where
  "native_audio_stream_task n rd res w =
     (let s = ar_stream rd;
          tell = (\<lambda>frame. tell_object (\<lambda>i. EvAudioStream s (FrameReceived i frame)) (ObAudioFrame frame)) in
      case (if ar_draining rd then ar_target rd else None) of
        Some target \<Rightarrow>
          if target \<le> length (ar_buf rd)
          then (case cut_frame target rd of
                  None \<Rightarrow> stream_panics n (ar_owner rd) w
                | Some (frame, rd) \<Rightarrow> set_work n (WkAudioStream rd) (tell frame w))
          else set_work n (WkAudioStream (rd\<lparr>ar_draining := False\<rparr>)) w
      | None \<Rightarrow>
          if stream_stops res s (ar_owner rd) w then end_stream n (ar_owner rd) (EvAudioStream s StreamEos) w
          else (case res of
            ResAudioFrame None \<Rightarrow> end_stream n (ar_owner rd) (EvAudioStream s StreamEos) w
          | ResAudioFrame (Some frame) \<Rightarrow>
              (case ar_target rd of
                 None \<Rightarrow> tell frame w
               | Some _ \<Rightarrow> set_work n (WkAudioStream (rd\<lparr>ar_buf := ar_buf rd @ af_data frame, ar_draining := True\<rparr>)) w)
          | _ \<Rightarrow> w))"

definition native_video_stream_task :: "nat \<Rightarrow> video_reader \<Rightarrow> sdk_result \<Rightarrow> ffi_world \<Rightarrow> ffi_world" where
  "native_video_stream_task n rd res w =
     (let s = vr_stream rd in
      if stream_stops res s (vr_owner rd) w then end_stream n (vr_owner rd) (EvVideoStream s StreamEos) w
      else (case res of
        ResVideoFrame None \<Rightarrow> end_stream n (vr_owner rd) (EvVideoStream s StreamEos) w
      | ResVideoFrame (Some frame) \<Rightarrow>
          (case snd (to_video_buffer_info (\<lambda>_. va_answer frame) (va_allocated frame) (\<lambda>_. va_i420 frame)
              (va_buffer frame) (vr_format rd)) of
             None \<Rightarrow> stream_panics n (vr_owner rd) w
           | Some (Inl _) \<Rightarrow> w
           | Some (Inr (len, info)) \<Rightarrow>
               (let buffer = allocated_bytes len (va_pixels frame)
                in tell_object (\<lambda>i. EvVideoStream s (FrameReceived i buffer)) (ObVideoBuffer buffer) w))
      | _ \<Rightarrow> w))"

section \<open>Following a participant\<close>

text \<open>
  The stream of a track that the follower has received. Rates and channels that do not fit into 31 bits
  make its task panic at once.
\<close>

definition followed_stream :: "follower \<Rightarrow> ffi_work" where
  "followed_stream fo =
     (if fo_kind fo = Video then WkVideoStream
        \<lparr>vr_stream = fo_stream fo, vr_format = fo_format fo, vr_owner = OwnedByTask False\<rparr>
      else if 2 ^ 31 \<le> fo_sample_rate fo \<or> 2 ^ 31 \<le> fo_num_channels fo then WkDone
      else WkAudioStream
        \<lparr>ar_stream = fo_stream fo, ar_owner = OwnedByTask False,
         ar_target = target_samples (fo_frame_size_ms fo) (fo_sample_rate fo) (fo_num_channels fo),
         ar_sample_rate = fo_sample_rate fo, ar_num_channels = fo_num_channels fo, ar_buf = [],
         ar_draining = False\<rparr>)"

fun close_followed :: "ffi_work \<Rightarrow> ffi_work" where
  "close_followed (WkAudioStream rd) = WkAudioStream (rd\<lparr>ar_owner := OwnedByTask True\<rparr>)"
| "close_followed (WkVideoStream rd) = WkVideoStream (rd\<lparr>vr_owner := OwnedByTask True\<rparr>)"
| "close_followed work = work"

definition follow_eos :: "follower \<Rightarrow> ffi_event" where
  "follow_eos fo =
     (if fo_kind fo = Video then EvVideoStream (fo_stream fo) StreamEos else EvAudioStream (fo_stream fo) StreamEos)"

text \<open>
  \<open>participant_audio_stream_task\<close> and \<open>participant_video_stream_task\<close>: the latter looks whether its
  stream was dropped only while a track plays, and then ends without telling.
\<close>

definition participant_stream_task :: "nat \<Rightarrow> follower \<Rightarrow> sdk_result \<Rightarrow> ffi_world \<Rightarrow> ffi_world" where
  "participant_stream_task n fo res w =
     (let dropped = (res = ResStreamDropped \<and> map_of (fs_handles w) (fo_stream fo) = None);
          phase = (\<lambda>ph. set_work n (WkFollow (fo\<lparr>fo_phase := ph\<rparr>))) in
      case fo_phase fo of
        FollowStart \<Rightarrow>
          (case retrieve_handle KParticipant (fo_participant fo) w of
             Inl _ \<Rightarrow> set_work n WkDone w
           | Inr _ \<Rightarrow> phase FollowWait w)
      | FollowWait \<Rightarrow>
          if dropped \<and> fo_kind fo = Audio then finish n (follow_eos fo) w
          else (case res of
            ResTrack None \<Rightarrow> finish n (follow_eos fo) w
          | ResTrack (Some (kind, _)) \<Rightarrow>
              if kind = fo_kind fo
              then phase (FollowPlay (length (fw_tasks w))) (spawn None (followed_stream fo) w)
              else w
          | _ \<Rightarrow> w)
      | FollowPlay m \<Rightarrow>
          if dropped
          then (let w = set_work m (close_followed (ta_work (fw_tasks w ! m))) w in
                if fo_kind fo = Audio then finish n (follow_eos fo) w else set_work n WkDone w)
          else if ta_work (fw_tasks w ! m) = WkDone then phase FollowWait w
          else w)"

end
