(* ===== verification/FfiRoom.thy ===== *)
theory FfiRoom
  imports FfiStreams
begin

text \<open>
  The rooms of the foreign function interface (\<open>livekit-ffi/src/server/room.rs\<close>, \<open>participant.rs\<close>,
  \<open>data_stream.rs\<close>): connecting and closing, the tasks that are spawned for requests, the four tasks of a
  room, and the forwarding of the room's events to the client.
\<close>

section \<open>Connecting and closing\<close>

fun issue_all :: "ffi_object list \<Rightarrow> 'z ffi_server_scheme \<Rightarrow> handle_id list \<times> 'z ffi_server_scheme" where
  "issue_all [] s = ([], s)"
| "issue_all (obj # objs) s =
     (case issue obj s of (i, s) \<Rightarrow> case issue_all objs s of (is, s) \<Rightarrow> (i # is, s))"

fun issue_participants ::
    "nat \<Rightarrow> (nat \<times> track_sid list) list \<Rightarrow> 'z ffi_server_scheme \<Rightarrow>
     (handle_id \<times> handle_id list) list \<times> 'z ffi_server_scheme" where
  "issue_participants k [] s = ([], s)"
| "issue_participants k ((n, sids) # ps) s =
     (case issue (ObParticipant k (RemoteRef n)) s of (i, s) \<Rightarrow>
      case issue_all (map (\<lambda>sid. ObPublication k (RemotePublication n sid)) sids) s of (tracks, s) \<Rightarrow>
      case issue_participants k ps s of (infos, s) \<Rightarrow> ((i, tracks) # infos, s))"

definition build_initial_states ::
    "nat \<Rightarrow> (nat \<times> track_sid list) list \<Rightarrow> ffi_world \<Rightarrow>
     (handle_id \<times> (handle_id \<times> handle_id list) list) \<times> ffi_world" where
  "build_initial_states k participants_with_tracks w =
     (case issue (ObParticipant k LocalRef) w of (local_info, w) \<Rightarrow>
      case issue_participants k participants_with_tracks w of (remote_infos, w) \<Rightarrow>
        ((local_info, remote_infos), w))"

text \<open>
  The task of a connect request after the SDK has connected. \<open>None\<close> is the panic when the first event
  is not the one that tells of the connection.
\<close>

definition ffi_connected :: "nat \<Rightarrow> string \<Rightarrow> sdk_event option \<Rightarrow> ffi_world \<Rightarrow> ffi_world option" where
  "ffi_connected async_id url first w =
     (case first of
        Some (RoomEvent (ReConnected participants_with_tracks)) \<Rightarrow>
          (case next_id w of (room_id, w) \<Rightarrow>
           let k = length (fw_rooms w);
               w = w\<lparr>fw_rooms := fw_rooms w @ [ffi_room_new room_id url]\<rparr> in
           case build_initial_states k participants_with_tracks w of ((local_info, remote_infos), w) \<Rightarrow>
           let w = store_handle room_id (ObRoom k) w;
               w = emit (EvConnect async_id (Inr \<lparr>co_room = room_id, co_local = local_info,
                     co_participants = remote_infos\<rparr>)) w
           in Some (spawn None (WkRoomSid k) w))
      | _ \<Rightarrow> None)"

text \<open>\<open>FfiRoom::close\<close>: the handles of the tracks are emptied but stay valid.\<close>

definition empty_handle :: "handle_id \<Rightarrow> 'z ffi_server_scheme \<Rightarrow> 'z ffi_server_scheme" where
  "empty_handle i s =
     (case drop_handle i s of (existed, s) \<Rightarrow> if existed then store_handle i ObUnit s else s)"

definition drop_tracks :: "nat \<Rightarrow> ffi_world \<Rightarrow> ffi_world" where
  "drop_tracks k w = fold empty_handle (hm_values (fr_track_lookup (fw_rooms w ! k))) w"

definition room_stopped :: "ffi_room \<Rightarrow> bool" where
  "room_stopped r \<longleftrightarrow>
     \<not> fr_running r EventTask \<and> \<not> fr_running r DataTask \<and> \<not> fr_running r TranscriptionTask
     \<and> \<not> fr_running r DtmfTask"

text \<open>A step of the closing: the next phase, \<open>None\<close> at its end. Waiting is the phase unchanged.\<close>

definition close_step :: "nat \<Rightarrow> close_phase \<Rightarrow> ffi_world \<Rightarrow> close_phase option \<times> ffi_world" where
  "close_step k ph w =
     (let r = fw_rooms w ! k in
      case ph of
        CloseStart \<Rightarrow> (Some CloseSdk, drop_tracks k w)
      | CloseSdk \<Rightarrow>
          if fr_has_handle r
          then (Some CloseStop, set_room k (r\<lparr>fr_has_handle := False, fr_closing := True\<rparr>) w)
          else (None, w)
      | CloseStop \<Rightarrow> if room_stopped r then (None, w) else (Some CloseStop, w))"

section \<open>The spawned tasks\<close>

fun ffi_error_text :: "ffi_error \<Rightarrow> string" where
  "ffi_error_text NotConfigured = ''the server is not configured''"
| "ffi_error_text AlreadyInitialized = ''the server is already initialized''"
| "ffi_error_text (FfiRoomError err) = ''room error '' @ err"
| "ffi_error_text (InvalidRequest err) = ''invalid request: '' @ err"

definition connect_task :: "nat \<Rightarrow> nat \<Rightarrow> string \<Rightarrow> sdk_result \<Rightarrow> ffi_world \<Rightarrow> ffi_world" where
  "connect_task n async_id url res w =
     (case res of
        ResConnected (Inl err) \<Rightarrow> finish n (EvConnect async_id (Inl err)) w
      | ResConnected (Inr first) \<Rightarrow>
          (case ffi_connected async_id url first w of
             None \<Rightarrow> panicked n w
           | Some w \<Rightarrow> set_work n WkDone w)
      | _ \<Rightarrow> w)"

definition disconnect_task :: "nat \<Rightarrow> handle_id \<Rightarrow> ffi_world \<Rightarrow> ffi_world" where
  "disconnect_task n room_handle w =
     (case retrieve_handle KRoom room_handle w of
        Inr (ObRoom k) \<Rightarrow> set_work n (WkClose k CloseStart) w
      | _ \<Rightarrow> panicked n w)"

definition close_task :: "nat \<Rightarrow> nat \<Rightarrow> nat \<Rightarrow> close_phase \<Rightarrow> ffi_world \<Rightarrow> ffi_world" where
  "close_task n async_id k ph w =
     (case close_step k ph w of
        (None, w) \<Rightarrow> finish n (EvDisconnect async_id) w
      | (Some ph, w) \<Rightarrow> set_work n (WkClose k ph) w)"

text \<open>\<open>dispose\<close>: the rooms one after the other; at last the configuration is taken away again.\<close>

definition dispose_task :: "nat \<Rightarrow> nat list \<Rightarrow> close_phase \<Rightarrow> ffi_world \<Rightarrow> ffi_world" where
  "dispose_task n rooms ph w =
     (case rooms of
        [] \<Rightarrow> set_work n WkDone (w\<lparr>fs_config := None\<rparr>)
      | k # ks \<Rightarrow>
          (case close_step k ph w of
             (None, w) \<Rightarrow> set_work n (WkDispose ks CloseStart) w
           | (Some ph, w) \<Rightarrow> set_work n (WkDispose rooms ph) w))"

definition publish_track_task :: "nat \<Rightarrow> nat \<Rightarrow> nat \<Rightarrow> handle_id \<Rightarrow> ffi_world \<Rightarrow> ffi_world" where
  "publish_track_task n async_id k track_handle w =
     (case retrieve_handle KTrack track_handle w of
        Inl err \<Rightarrow> finish n (EvPublishTrack async_id (Inl (ffi_error_text err))) w
      | Inr (ObTrack (LocalTrack _ _) _) \<Rightarrow> set_work n (WkPublishing k) w
      | Inr _ \<Rightarrow> finish n (EvPublishTrack async_id
            (Inl (ffi_error_text (InvalidRequest ''track is not a LocalTrack'')))) w)"

definition publishing_task :: "nat \<Rightarrow> nat \<Rightarrow> nat \<Rightarrow> sdk_result \<Rightarrow> ffi_world \<Rightarrow> ffi_world" where
  "publishing_task n async_id k res w =
     (case res of
        ResPublished (Inl err) \<Rightarrow> finish n (EvPublishTrack async_id (Inl err)) w
      | ResPublished (Inr sid) \<Rightarrow>
          (case issue (ObPublication k (LocalPublication sid)) w of (i, w) \<Rightarrow>
           let w = finish n (EvPublishTrack async_id (Inr (i, sid))) w;
               r = fw_rooms w ! k
           in set_room k (r\<lparr>fr_published := insert sid (fr_published r)\<rparr>) w)
      | _ \<Rightarrow> w)"

definition unpublish_task :: "nat \<Rightarrow> nat \<Rightarrow> nat \<Rightarrow> string \<Rightarrow> sdk_result \<Rightarrow> ffi_world \<Rightarrow> ffi_world" where
  "unpublish_task n async_id k track_sid res w =
     (case track_sid_try_from track_sid of
        Inl _ \<Rightarrow> panicked n w
      | Inr sid \<Rightarrow>
          (case unit_result res of
             None \<Rightarrow> w
           | Some (Inl err) \<Rightarrow> finish n (EvUnpublishTrack async_id (Some err)) w
           | Some (Inr _) \<Rightarrow> set_work n (WkUnpublishWait k sid) w))"

definition unpublish_wait_task :: "nat \<Rightarrow> nat \<Rightarrow> nat \<Rightarrow> track_sid \<Rightarrow> ffi_world \<Rightarrow> ffi_world" where
  "unpublish_wait_task n async_id k sid w =
     (let r = fw_rooms w ! k in
      if sid \<in> fr_unpublished r
      then finish n (EvUnpublishTrack async_id None)
             (set_room k (r\<lparr>fr_unpublished := fr_unpublished r - {sid}\<rparr>) w)
      else w)"

definition call_task :: "nat \<Rightarrow> nat option \<Rightarrow> sdk_call \<Rightarrow> sdk_result \<Rightarrow> ffi_world \<Rightarrow> ffi_world" where
  "call_task n async_id call res w =
     (case async_id of
        None \<Rightarrow> set_work n WkDone w
      | Some i \<Rightarrow> (case call_event call i res of None \<Rightarrow> w | Some event \<Rightarrow> finish n event w))"

definition open_task ::
    "nat \<Rightarrow> (nat \<Rightarrow> ffi_object) \<Rightarrow> (stream_error + handle_id \<Rightarrow> ffi_event) \<Rightarrow> sdk_result \<Rightarrow> ffi_world \<Rightarrow> ffi_world" where
  "open_task n writer event res w =
     (case res of
        ResWriter (Inl err) \<Rightarrow> finish n (event (Inl err)) w
      | ResWriter (Inr inner) \<Rightarrow> (case issue (writer inner) w of (i, w) \<Rightarrow> finish n (event (Inr i)) w)
      | _ \<Rightarrow> w)"

definition read_incremental_task ::
    "nat \<Rightarrow> ('a reader_detail \<Rightarrow> ffi_event) \<Rightarrow> (stream_error + 'a) option \<Rightarrow> ffi_world \<Rightarrow> ffi_world" where
  "read_incremental_task n event result w =
     (case result of
        Some (Inr content) \<Rightarrow> emit (event (ChunkReceived content)) w
      | Some (Inl err) \<Rightarrow> finish n (event (ReaderEos (Some err))) w
      | None \<Rightarrow> finish n (event (ReaderEos None)) w)"

definition read_bytes_task :: "nat \<Rightarrow> handle_id \<Rightarrow> sdk_result \<Rightarrow> ffi_world \<Rightarrow> ffi_world" where
  "read_bytes_task n i res w =
     (case res of ResNextBytes r \<Rightarrow> read_incremental_task n (EvByteReader i) r w | _ \<Rightarrow> w)"

definition read_text_task :: "nat \<Rightarrow> handle_id \<Rightarrow> sdk_result \<Rightarrow> ffi_world \<Rightarrow> ffi_world" where
  "read_text_task n i res w =
     (case res of ResNextText r \<Rightarrow> read_incremental_task n (EvTextReader i) r w | _ \<Rightarrow> w)"

definition room_sid_task :: "nat \<Rightarrow> nat \<Rightarrow> sdk_result \<Rightarrow> ffi_world \<Rightarrow> ffi_world" where
  "room_sid_task n k res w =
     (case res of
        ResSid sid \<Rightarrow> finish n (EvRoom (fr_handle_id (fw_rooms w ! k)) (MsgRoomSidChanged sid)) w
      | _ \<Rightarrow> w)"

text \<open>
  A step of a task. Its panic is told to the client, except for the tasks that nobody watches: those of
  \<open>publish_track\<close>, of the room's sid and of the tracks that a participant stream follows.
\<close>

fun unwatched :: "ffi_work \<Rightarrow> bool" where
  "unwatched (WkPublishTrack _ _) = True"
| "unwatched (WkPublishing _) = True"
| "unwatched (WkRoomSid _) = True"
| "unwatched (WkAudioStream rd) = (ar_owner rd \<noteq> OwnedByHandles)"
| "unwatched (WkVideoStream rd) = (vr_owner rd \<noteq> OwnedByHandles)"
| "unwatched _ = False"

definition task_step :: "nat \<Rightarrow> sdk_result \<Rightarrow> ffi_world \<Rightarrow> ffi_world" where
  "task_step n res w =
     (let t = fw_tasks w ! n; i = async_of t in
      if ta_work t = WkDone then w
      else if res = ResPanicked
      then (if unwatched (ta_work t) then set_work n WkDone w else panicked n w)
      else case ta_work t of
        WkConnect url _ \<Rightarrow> connect_task n i url res w
      | WkRoomSid k \<Rightarrow> room_sid_task n k res w
      | WkDisconnect room_handle \<Rightarrow> disconnect_task n room_handle w
      | WkClose k ph \<Rightarrow> close_task n i k ph w
      | WkDispose rooms ph \<Rightarrow> dispose_task n rooms ph w
      | WkPublishTrack k track_handle \<Rightarrow> publish_track_task n i k track_handle w
      | WkPublishing k \<Rightarrow> publishing_task n i k res w
      | WkUnpublish k sid \<Rightarrow> unpublish_task n i k sid res w
      | WkUnpublishWait k sid \<Rightarrow> unpublish_wait_task n i k sid w
      | WkCall call \<Rightarrow> call_task n (ta_async t) call res w
      | WkOpenBytes call \<Rightarrow> open_task n ObByteWriter (EvByteStreamOpen i) res w
      | WkOpenText call \<Rightarrow> open_task n ObTextWriter (EvTextStreamOpen i) res w
      | WkReadBytes reader h \<Rightarrow> read_bytes_task n h res w
      | WkReadText reader h \<Rightarrow> read_text_task n h res w
      | WkTell event \<Rightarrow> finish n event w
      | WkAudioStream rd \<Rightarrow> native_audio_stream_task n rd res w
      | WkVideoStream rd \<Rightarrow> native_video_stream_task n rd res w
      | WkFollow fo \<Rightarrow> participant_stream_task n fo res w
      | WkDone \<Rightarrow> w)"

section \<open>The tasks of a room\<close>

text \<open>What the forwarding reads of the SDK's objects at that moment.\<close>

record room_view =
  rv_identity :: "participant_ref \<Rightarrow> string"
  rv_disconnect_reason :: "nat \<Rightarrow> disconnect_reason"
  rv_attributes :: "participant_ref \<Rightarrow> (string, string) hmap"

text \<open>\<open>send_event\<close> of \<open>forward_event\<close>, and an event that names a new handle.\<close>

definition tell_room :: "nat \<Rightarrow> room_message \<Rightarrow> ffi_world \<Rightarrow> ffi_world" where
  "tell_room k msg w = emit (EvRoom (fr_handle_id (fw_rooms w ! k)) msg) w"

definition tell_new :: "nat \<Rightarrow> ffi_object \<Rightarrow> (handle_id \<Rightarrow> room_message) \<Rightarrow> ffi_world \<Rightarrow> ffi_world" where
  "tell_new k obj msg w = (case issue obj w of (i, w) \<Rightarrow> tell_room k (msg i) w)"

definition remote_identity :: "room_view \<Rightarrow> nat option \<Rightarrow> string" where
  "remote_identity view participant =
     (case participant of None \<Rightarrow> [] | Some n \<Rightarrow> rv_identity view (RemoteRef n))"

text \<open>
  The end of a \<open>LocalTrackPublished\<close>: a new handle that the event does not name. Before, outside a
  reconnection, it waits until the callback of the publish request has been sent.
\<close>

definition local_track_published :: "nat \<Rightarrow> track_sid \<Rightarrow> ffi_world \<Rightarrow> ffi_world" where
  "local_track_published k sid w =
     tell_new k (ObPublication k (LocalPublication sid)) (\<lambda>_. MsgLocalTrackPublished sid) w"

definition await_published :: "nat \<Rightarrow> track_sid \<Rightarrow> ffi_world \<Rightarrow> ffi_world" where
  "await_published k sid w =
     (let r = fw_rooms w ! k in
      if sid \<in> fr_published r
      then local_track_published k sid
             (set_room k (r\<lparr>fr_published := fr_published r - {sid}, fr_waiting := None\<rparr>) w)
      else set_room k (r\<lparr>fr_waiting := Some sid\<rparr>) w)"

definition forward_room_event :: "room_view \<Rightarrow> nat \<Rightarrow> room_event \<Rightarrow> ffi_world \<Rightarrow> ffi_world" where
  "forward_room_event view k event w =
     (let r = fw_rooms w ! k; who = rv_identity view; remote = (\<lambda>n. rv_identity view (RemoteRef n)) in
      case event of
        ReParticipantConnected n \<Rightarrow> tell_new k (ObParticipant k (RemoteRef n)) MsgParticipantConnected w
      | ReParticipantDisconnected n \<Rightarrow>
          tell_room k (MsgParticipantDisconnected (remote n) (rv_disconnect_reason view n)) w
      | ReLocalTrackPublished sid \<Rightarrow>
          if fr_reconnecting r then local_track_published k sid w else await_published k sid w
      | ReLocalTrackUnpublished sid \<Rightarrow>
          set_room k (r\<lparr>fr_unpublished := insert sid (fr_unpublished r)\<rparr>)
            (tell_room k (MsgLocalTrackUnpublished sid) w)
      | ReLocalTrackSubscribed sid \<Rightarrow> tell_room k (MsgLocalTrackSubscribed sid) w
      | ReTrackPublished n sid \<Rightarrow>
          tell_new k (ObPublication k (RemotePublication n sid)) (MsgTrackPublished (remote n)) w
      | ReTrackUnpublished n sid \<Rightarrow> tell_room k (MsgTrackUnpublished (remote n) sid) w
      | ReTrackSubscribed n _ track \<Rightarrow>
          (case issue (ObTrack (RemoteTrack (tk_kind track) (tk_sid track)) (Some (fr_handle_id r))) w of
             (i, w) \<Rightarrow>
               tell_room k (MsgTrackSubscribed (remote n) i)
                 (set_room k (r\<lparr>fr_track_lookup :=
                    AList.update (tk_sid track) i (fr_track_lookup r)\<rparr>) w))
      | ReTrackUnsubscribed n _ track \<Rightarrow> tell_room k (MsgTrackUnsubscribed (remote n) (tk_sid track)) w
      | ReTrackSubscriptionFailed n sid \<Rightarrow> tell_room k (MsgTrackSubscriptionFailed (remote n) sid) w
      | ReTrackMuted p sid \<Rightarrow> tell_room k (MsgTrackMuted (who p) sid) w
      | ReTrackUnmuted p sid \<Rightarrow> tell_room k (MsgTrackUnmuted (who p) sid) w
      | ReRoomMetadataChanged _ metadata \<Rightarrow> tell_room k (MsgRoomMetadataChanged metadata) w
      | ReParticipantMetadataChanged p _ metadata \<Rightarrow>
          tell_room k (MsgParticipantMetadataChanged (who p) metadata) w
      | ReParticipantNameChanged p _ name \<Rightarrow> tell_room k (MsgParticipantNameChanged (who p) name) w
      | ReParticipantAttributesChanged p changed \<Rightarrow>
          tell_room k (MsgParticipantAttributesChanged (who p) changed (rv_attributes view p)) w
      | ReActiveSpeakersChanged speakers \<Rightarrow> tell_room k (MsgActiveSpeakersChanged (map who speakers)) w
      | ReConnectionQualityChanged p quality \<Rightarrow> tell_room k (MsgConnectionQualityChanged (who p) quality) w
      | ReDataReceived payload topic kind participant \<Rightarrow>
          tell_new k (ObDataBuffer payload)
            (\<lambda>i. MsgDataPacketReceived (UserData i topic) (remote_identity view participant) kind) w
      | ReTranscriptionReceived participant track_publication segments \<Rightarrow>
          tell_room k (MsgTranscriptionReceived (map_option who participant) segments track_publication) w
      | ReSipDTMFReceived code digit participant \<Rightarrow>
          tell_room k (MsgDataPacketReceived (DtmfData code digit)
            (remote_identity view participant) Reliable) w
      | ReChatMessage message n \<Rightarrow> tell_room k (MsgChatMessage message (remote n)) w
      | ReStreamHeaderReceived header identity \<Rightarrow> tell_room k (MsgStreamHeaderReceived header identity) w
      | ReStreamChunkReceived chunk identity \<Rightarrow> tell_room k (MsgStreamChunkReceived chunk identity) w
      | ReStreamTrailerReceived trailer identity \<Rightarrow> tell_room k (MsgStreamTrailerReceived trailer identity) w
      | ReConnectionStateChanged state \<Rightarrow> tell_room k (MsgConnectionStateChanged state) w
      | ReConnected _ \<Rightarrow> w
      | ReDisconnected reason \<Rightarrow> tell_room k (MsgDisconnected reason) w
      | ReReconnecting \<Rightarrow> tell_room k MsgReconnecting (set_room k (r\<lparr>fr_reconnecting := True\<rparr>) w)
      | ReReconnected \<Rightarrow> tell_room k MsgReconnected (set_room k (r\<lparr>fr_reconnecting := False\<rparr>) w)
      | ReThresholdChanged kind threshold \<Rightarrow> tell_room k (MsgLowThresholdChanged kind threshold) w
      | ReRoomUpdated info \<Rightarrow> tell_room k (MsgRoomUpdated info) w
      | ReMoved info \<Rightarrow> tell_room k (MsgMoved info) w
      | ReParticipantsUpdated participants \<Rightarrow> tell_room k (MsgParticipantsUpdated participants) w)"

fun forward_event :: "room_view \<Rightarrow> nat \<Rightarrow> sdk_event \<Rightarrow> ffi_world \<Rightarrow> ffi_world" where
  "forward_event view k (RoomEvent event) w = forward_room_event view k event w"
| "forward_event view k (E2eeStateChanged p state) w =
     tell_room k (MsgE2eeStateChanged (rv_identity view p) state) w"
| "forward_event view k (ByteStreamOpened None identity) w = w"
| "forward_event view k (ByteStreamOpened (Some reader) identity) w =
     tell_new k (ObByteReader reader) (\<lambda>i. MsgByteStreamOpened i identity) w"
| "forward_event view k (TextStreamOpened None identity) w = w"
| "forward_event view k (TextStreamOpened (Some reader) identity) w =
     tell_new k (ObTextReader reader) (\<lambda>i. MsgTextStreamOpened i identity) w"

text \<open>
  \<open>room_task\<close>: an event at a time; one that waits for a callback stops all that follow. It ends at the
  close signal, between events.
\<close>

definition room_task_step :: "room_view \<Rightarrow> nat \<Rightarrow> ffi_world \<Rightarrow> ffi_world" where
  "room_task_step view k w =
     (let r = fw_rooms w ! k in
      if \<not> fr_running r EventTask then w
      else case fr_waiting r of
        Some sid \<Rightarrow> await_published k sid w
      | None \<Rightarrow>
          (case fr_events r of
             [] \<Rightarrow> w
           | event # events \<Rightarrow> forward_event view k event (set_room k (r\<lparr>fr_events := events\<rparr>) w)))"

definition room_task_close :: "nat \<Rightarrow> ffi_world \<Rightarrow> ffi_world" where
  "room_task_close k w =
     (let r = fw_rooms w ! k in
      if fr_running r EventTask \<and> fr_waiting r = None \<and> fr_closing r
      then tell_room k MsgEos (set_room k (r\<lparr>fr_running := (fr_running r)(EventTask := False)\<rparr>) w)
      else w)"

text \<open>
  \<open>data_task\<close>, \<open>transcription_task\<close>, \<open>sip_dtmf_task\<close>: the next payload is handed to the SDK, whose
  outcome \<open>err\<close> is told under its identifier; at the close signal the task ends and what is still in its
  channel is dropped. The task looks at its channel only when the SDK is done, so this is one step.
\<close>

definition job_task_step :: "room_worker \<Rightarrow> nat \<Rightarrow> string option \<Rightarrow> ffi_world \<Rightarrow> ffi_world" where
  "job_task_step worker k err w =
     (let r = fw_rooms w ! k in
      if \<not> fr_running r worker then w
      else case fr_jobs r worker of
        [] \<Rightarrow> w
      | (i, job) # jobs \<Rightarrow>
          emit (job_event worker i err)
            (call_sdk (job_call k job) (set_room k (r\<lparr>fr_jobs := (fr_jobs r)(worker := jobs)\<rparr>) w)))"

definition job_task_close :: "room_worker \<Rightarrow> nat \<Rightarrow> ffi_world \<Rightarrow> ffi_world" where
  "job_task_close worker k w =
     (let r = fw_rooms w ! k in
      if worker \<noteq> EventTask \<and> fr_running r worker \<and> fr_closing r
      then set_room k (r\<lparr>fr_running := (fr_running r)(worker := False),
                       fr_jobs := (fr_jobs r)(worker := [])\<rparr>) w
      else w)"

text \<open>
  An RPC that reaches a registered method: the client is told of it under a new identifier, and the
  method's result is what the client answers; if the waiter is dropped, an application error.
\<close>

definition forward_rpc_method_invocation :: "nat \<Rightarrow> handle_id \<Rightarrow> string \<Rightarrow> rpc_invocation \<Rightarrow> ffi_world \<Rightarrow> ffi_world" where
  "forward_rpc_method_invocation k local_participant_handle method data w =
     (case next_id w of (invocation_id, w) \<Rightarrow>
      let r = fw_rooms w ! k;
          w = set_room k (r\<lparr>fr_rpc_waiters := (fr_rpc_waiters r)(invocation_id \<mapsto> ())\<rparr>) w
      in emit (EvRpcMethodInvocation local_participant_handle invocation_id method data) w)"

definition invocation_result :: "(rpc_error + string) option \<Rightarrow> rpc_error + string" where
  "invocation_result answer =
     unwrap_or (Inl \<lparr>re_code = rpc_error_number ApplicationError,
       re_message = ''Error from method handler'', re_data = None\<rparr>) answer"

definition invoke_method :: "nat \<Rightarrow> string \<Rightarrow> rpc_invocation \<Rightarrow> ffi_world \<Rightarrow> ffi_world" where
  "invoke_method k method data w =
     (case fr_rpc_methods (fw_rooms w ! k) method of
        None \<Rightarrow> w
      | Some h \<Rightarrow> forward_rpc_method_invocation k h method data w)"
end
