(* ===== verification/FfiMedia.thy ===== *)
theory FfiMedia
  imports FfiRoom
begin

text \<open>
  The requests of the foreign function interface on audio, video and encryption
  (\<open>livekit-ffi/src/server/requests.rs\<close>, with \<open>audio_source.rs\<close>, \<open>video_source.rs\<close>, \<open>audio_stream.rs\<close>,
  \<open>video_stream.rs\<close>), and what all handlers share: the reply, a panic, the lookup of a handle. What
  libwebrtc, the resamplers and the client's memory answer is read from \<open>sdk_readings\<close>.
\<close>

section \<open>Handlers\<close>

text \<open>The end of a handler: its reply or error, and a panic.\<close>

datatype (plugins only: code size) ffi_reply = Reply "ffi_error + ffi_response" | ReplyPanic

type_synonym handled = "ffi_reply \<times> ffi_world"

abbreviation reply :: "ffi_response \<Rightarrow> ffi_world \<Rightarrow> handled" where
  "reply rsp w \<equiv> (Reply (Inr rsp), w)"

abbreviation invalid :: "string \<Rightarrow> ffi_world \<Rightarrow> handled" where
  "invalid msg w \<equiv> (Reply (Inl (InvalidRequest msg)), w)"

text \<open>\<open>retrieve_handle::<T>(..)?\<close>, and a request that is answered with a new asynchronous identifier.\<close>

definition retrieving ::
    "ffi_kind \<Rightarrow> handle_id \<Rightarrow> (ffi_object \<Rightarrow> ffi_world \<Rightarrow> handled) \<Rightarrow> ffi_world \<Rightarrow> handled" where
  "retrieving kind i k w =
     (case retrieve_handle kind i w of Inl err \<Rightarrow> (Reply (Inl err), w) | Inr obj \<Rightarrow> k obj w)"

definition taking ::
    "ffi_kind \<Rightarrow> handle_id \<Rightarrow> (ffi_object \<Rightarrow> ffi_world \<Rightarrow> handled) \<Rightarrow> ffi_world \<Rightarrow> handled" where
  "taking kind i k w =
     (case take_handle kind i w of (Inl err, w) \<Rightarrow> (Reply (Inl err), w) | (Inr obj, w) \<Rightarrow> k obj w)"

definition spawn_async :: "ffi_work \<Rightarrow> ffi_world \<Rightarrow> handled" where
  "spawn_async work w = (case next_id w of (i, w) \<Rightarrow> reply (RspAsync i) (spawn (Some i) work w))"

text \<open>The object a handler works on: the room of a participant, the SDK's publication, a track.\<close>

fun participant_room :: "ffi_object \<Rightarrow> nat" where
  "participant_room (ObParticipant k _) = k"
| "participant_room _ = 0"

fun object_id :: "ffi_object \<Rightarrow> nat" where
  "object_id (ObRoom k) = k"
| "object_id (ObByteReader n) = n"
| "object_id (ObTextReader n) = n"
| "object_id (ObByteWriter n) = n"
| "object_id (ObTextWriter n) = n"
| "object_id _ = 0"

abbreviation in_room :: "handle_id \<Rightarrow> (nat \<Rightarrow> ffi_world \<Rightarrow> handled) \<Rightarrow> ffi_world \<Rightarrow> handled" where
  "in_room i k \<equiv> retrieving KParticipant i (\<lambda>obj. k (participant_room obj))"

text \<open>What a handler reads outside of the library at that moment.\<close>

record sdk_readings =
  sr_muted :: "ffi_track_ref \<Rightarrow> bool"
  sr_enabled :: "ffi_track_ref \<Rightarrow> bool"
  sr_memory :: "u64 \<Rightarrow> nat \<Rightarrow> i16 list"
  sr_audio_filter :: "string \<Rightarrow> bool"
  sr_resampled :: "i16 list"
  sr_yuv :: "yuv_call \<Rightarrow> int"
  sr_allocated :: u64
  sr_pixels :: "byte list"
  sr_planes :: "nat \<Rightarrow> u64"
  sr_outcome :: "string option"
  sr_output :: "string + nat"
  sr_e2ee :: e2ee_answer

text \<open>Readings of a quiet environment.\<close>

definition no_readings :: sdk_readings where
  "no_readings =
     \<lparr>sr_muted = (\<lambda>_. False), sr_enabled = (\<lambda>_. False), sr_memory = (\<lambda>_ n. replicate n 0),
      sr_audio_filter = (\<lambda>_. False), sr_resampled = [], sr_yuv = (\<lambda>_. 0),
      sr_allocated = 4096, sr_pixels = [], sr_planes = (\<lambda>_. 8192), sr_outcome = None,
      sr_output = Inr 0, sr_e2ee = E2eeDone\<rparr>"

fun track_kind_of :: "ffi_object \<Rightarrow> track_kind" where
  "track_kind_of (ObTrack (LocalTrack kind _) _) = kind"
| "track_kind_of (ObTrack (RemoteTrack kind _) _) = kind"
| "track_kind_of _ = Audio"

fun track_room :: "ffi_object \<Rightarrow> handle_id option" where
  "track_room (ObTrack _ room_handle) = room_handle"
| "track_room _ = None"

fun source_id :: "ffi_object \<Rightarrow> handle_id" where
  "source_id (ObAudioSource i) = i"
| "source_id (ObVideoSource i) = i"
| "source_id _ = INVALID_HANDLE"

section \<open>Requests\<close>

datatype (plugins only: code size) media_request =
    ReqNewVideoSource bool
  | ReqCaptureVideo handle_id video_buffer_info
  | ReqVideoConvert video_buffer_info video_buffer_type "bool option"
  | ReqNewVideoStream handle_id "video_buffer_type option" bool
  | ReqVideoFromParticipant handle_id "video_buffer_type option" bool
  | ReqNewAudioSource bool
  | ReqCaptureAudio handle_id u64 u32 u32 u32
  | ReqClearAudio handle_id
  | ReqNewAudioStream handle_id bool "string option" "u32 option" "u32 option" "u32 option"
  | ReqAudioFromParticipant handle_id bool "u32 option" "u32 option" "u32 option"
  | ReqNewAudioResampler
  | ReqRemixAndResample handle_id u32 u32
  | ReqE2ee handle_id "e2ee_request option"
  | ReqNewSoxResampler
  | ReqPushSoxResampler handle_id u64 u32
  | ReqFlushSoxResampler handle_id
  | ReqNewApm
  | ReqApmProcess handle_id u64 u32 bool
  | ReqApmDelay handle_id int
  | ReqLoadPlugin string string

definition new_handle :: "ffi_kind \<Rightarrow> (handle_id \<Rightarrow> ffi_object) \<Rightarrow> ffi_world \<Rightarrow> handled" where
  "new_handle kind obj w =
     (case issue (obj (counter w)) w of (i, w) \<Rightarrow> reply (RspHandle kind i) w)"

text \<open>Sources: a type that is not the native one is refused before an identifier is drawn.\<close>

definition on_new_video_source :: "bool \<Rightarrow> ffi_world \<Rightarrow> handled" where
  "on_new_video_source native w =
     (if native then new_handle KVideoSource ObVideoSource w
      else invalid ''unsupported video source type'' w)"

definition on_capture_video_frame ::
    "sdk_readings \<Rightarrow> handle_id \<Rightarrow> video_buffer_info \<Rightarrow> ffi_world \<Rightarrow> handled" where
  "on_capture_video_frame sr h buffer =
     retrieving KVideoSource h (\<lambda>obj w.
       case snd (to_libwebrtc_buffer (sr_yuv sr) (sr_allocated sr) (sr_planes sr) buffer) of
         None \<Rightarrow> (ReplyPanic, w)
       | Some (frame, copied) \<Rightarrow> reply RspDone (call_sdk (CallCaptureVideo (source_id obj) frame copied) w))"

text \<open>
  A converted image is a new allocation, at \<open>sr_allocated\<close> with the pixels libyuv wrote, which the client
  owns by a handle; what libyuv returns is \<open>sr_yuv\<close>.
\<close>

definition on_video_convert ::
    "sdk_readings \<Rightarrow> video_buffer_info \<Rightarrow> video_buffer_type \<Rightarrow> bool option \<Rightarrow> ffi_world \<Rightarrow> handled" where
  "on_video_convert sr buffer dst_type flip_y w =
     (case snd (cvt (sr_yuv sr) (sr_allocated sr) buffer dst_type (unwrap_or False flip_y)) of
        None \<Rightarrow> (ReplyPanic, w)
      | Some (Inl err) \<Rightarrow> reply (RspError (Some (ffi_error_text err))) w
      | Some (Inr (len, info)) \<Rightarrow> new_handle KVideoBuffer (\<lambda>_. ObVideoBuffer (allocated_bytes len (sr_pixels sr))) w)"

definition on_new_audio_source :: "bool \<Rightarrow> ffi_world \<Rightarrow> handled" where
  "on_new_audio_source native w =
     (if native then new_handle KAudioSource ObAudioSource w
      else invalid ''unsupported audio source type'' w)"

definition on_capture_audio_frame ::
    "sdk_readings \<Rightarrow> handle_id \<Rightarrow> u64 \<Rightarrow> u32 \<Rightarrow> u32 \<Rightarrow> u32 \<Rightarrow> ffi_world \<Rightarrow> handled" where
  "on_capture_audio_frame sr h data_ptr num_channels sample_rate samples_per_channel =
     retrieving KAudioSource h (\<lambda>obj.
       spawn_async (WkCall (CallCaptureAudio (source_id obj)
         \<lparr>af_data = sr_memory sr data_ptr (unat (num_channels * samples_per_channel)),
          af_sample_rate = sample_rate, af_num_channels = num_channels,
          af_samples_per_channel = samples_per_channel\<rparr>)))"

definition on_clear_audio_buffer :: "handle_id \<Rightarrow> ffi_world \<Rightarrow> handled" where
  "on_clear_audio_buffer h =
     retrieving KAudioSource h (\<lambda>obj w. reply RspDone (call_sdk (CallClearAudio (source_id obj)) w))"

section \<open>Streams\<close>

text \<open>
  A stream of a track draws its handle, watches the handle of the track under this identifier, and has a
  task of its own.
\<close>

definition from_track ::
    "bool \<Rightarrow> string \<Rightarrow> ffi_kind \<Rightarrow> ffi_object \<Rightarrow> handle_id \<Rightarrow> (handle_id \<Rightarrow> ffi_work) \<Rightarrow> ffi_world \<Rightarrow> handled" where
  "from_track native what kind obj track_handle work w =
     (case next_id w of (i, w) \<Rightarrow>
      if \<not> native then invalid (''unsupported '' @ what @ '' stream type'') w
      else (case watch_handle_dropped i track_handle w of
        None \<Rightarrow> (ReplyPanic, w)
      | Some w \<Rightarrow> reply (RspHandle kind i) (store_handle i obj (spawn None (work i) w))))"

definition on_new_video_stream ::
    "handle_id \<Rightarrow> video_buffer_type option \<Rightarrow> bool \<Rightarrow> ffi_world \<Rightarrow> handled" where
  "on_new_video_stream h format native =
     retrieving KTrack h (\<lambda>track w.
       if track_kind_of track \<noteq> Video then invalid ''not a video track'' w
       else from_track native ''video'' KVideoStream ObVideoStream h
         (\<lambda>i. WkVideoStream \<lparr>vr_stream = i, vr_format = format, vr_owner = OwnedByHandles\<rparr>) w)"

text \<open>An audio filter needs the room of the track, and to be registered.\<close>

definition audio_filter_error :: "sdk_readings \<Rightarrow> ffi_object \<Rightarrow> string option \<Rightarrow> ffi_world \<Rightarrow> ffi_error option" where
  "audio_filter_error sr track module_id w =
     (case module_id of
        None \<Rightarrow> None
      | Some m \<Rightarrow>
          (case track_room track of
             None \<Rightarrow> Some (InvalidRequest ''this track has no room information'')
           | Some room_handle \<Rightarrow>
               (case retrieve_handle KRoom room_handle w of
                  Inl err \<Rightarrow> Some err
                | Inr _ \<Rightarrow> if sr_audio_filter sr m then None else Some (InvalidRequest ''the audio filter is not found''))))"

definition on_new_audio_stream ::
    "sdk_readings \<Rightarrow> handle_id \<Rightarrow> bool \<Rightarrow> string option \<Rightarrow> u32 option \<Rightarrow> u32 option \<Rightarrow> u32 option \<Rightarrow>
     ffi_world \<Rightarrow> handled" where
  "on_new_audio_stream sr h native module_id sample_rate num_channels frame_size_ms =
     retrieving KTrack h (\<lambda>track w.
       if track_kind_of track \<noteq> Audio then invalid ''not an audio track'' w
       else (case audio_filter_error sr track module_id w of
         Some err \<Rightarrow> (Reply (Inl err), w)
       | None \<Rightarrow>
           let rate = unwrap_or 48000 sample_rate; channels = unwrap_or 1 num_channels in
           from_track native ''audio'' KAudioStream ObAudioStream h
             (\<lambda>i. WkAudioStream \<lparr>ar_stream = i, ar_owner = OwnedByHandles,
                 ar_target = target_samples frame_size_ms rate channels, ar_sample_rate = rate,
                 ar_num_channels = channels, ar_buf = [], ar_draining = False\<rparr>) w))"

definition from_participant ::
    "bool \<Rightarrow> track_kind \<Rightarrow> video_buffer_type option \<Rightarrow> handle_id \<Rightarrow> u32 option \<Rightarrow> u32 option \<Rightarrow> u32 option
      \<Rightarrow> ffi_world \<Rightarrow> handled" where
  "from_participant native kind format h sample_rate num_channels frame_size_ms w =
     (case next_id w of (i, w) \<Rightarrow>
      if \<not> native
      then invalid (if kind = Video then ''unsupported video stream type'' else ''unsupported audio stream type'') w
      else
        let w = spawn None (WkFollow \<lparr>fo_stream = i, fo_kind = kind, fo_format = format, fo_participant = h,
              fo_frame_size_ms = frame_size_ms, fo_sample_rate = unwrap_or 48000 sample_rate,
              fo_num_channels = unwrap_or 1 num_channels, fo_phase = FollowStart\<rparr>) w
        in reply (RspHandle (if kind = Video then KVideoStream else KAudioStream) i)
             (store_handle i (if kind = Video then ObVideoStream else ObAudioStream) w))"

section \<open>Processing\<close>

text \<open>The length of the result is divided by the number of channels, which panics for none.\<close>

definition remix_and_resample :: "sdk_readings \<Rightarrow> handle_id \<Rightarrow> u32 \<Rightarrow> u32 \<Rightarrow> ffi_world \<Rightarrow> handled" where
  "remix_and_resample sr h num_channels sample_rate =
     retrieving KAudioResampler h (\<lambda>_ w.
       if num_channels = 0 then (ReplyPanic, w)
       else new_handle KAudioFrame (\<lambda>_. ObAudioFrame
         \<lparr>af_data = sr_resampled sr, af_sample_rate = sample_rate, af_num_channels = num_channels,
          af_samples_per_channel = of_nat (length (sr_resampled sr) div unat num_channels)\<rparr>) w)"

definition new_audio_resampler :: "ffi_world \<Rightarrow> handled" where
  "new_audio_resampler = new_handle KAudioResampler (\<lambda>_. ObAudioResampler)"

definition on_new_sox_resampler :: "sdk_readings \<Rightarrow> ffi_world \<Rightarrow> handled" where
  "on_new_sox_resampler sr w =
     (case sr_outcome sr of
        Some err \<Rightarrow> reply (RspError (Some err)) w
      | None \<Rightarrow> new_handle KSoxResampler (\<lambda>_. ObSoxResampler) w)"

definition sox_output :: "sdk_readings \<Rightarrow> ffi_response" where
  "sox_output sr = RspBuffer (map_sum id (\<lambda>n. unat (of_nat (n * 2) :: u32)) (sr_output sr))"

definition on_push_sox_resampler :: "sdk_readings \<Rightarrow> handle_id \<Rightarrow> u64 \<Rightarrow> u32 \<Rightarrow> ffi_world \<Rightarrow> handled" where
  "on_push_sox_resampler sr h data_ptr n_bytes =
     retrieving KSoxResampler h (\<lambda>_ w.
       reply (sox_output sr) (call_sdk (CallSoxPush h (sr_memory sr data_ptr (unat n_bytes div 2))) w))"

definition on_flush_sox_resampler :: "sdk_readings \<Rightarrow> handle_id \<Rightarrow> ffi_world \<Rightarrow> handled" where
  "on_flush_sox_resampler sr h =
     retrieving KSoxResampler h (\<lambda>_ w. reply (sox_output sr) (call_sdk (CallSoxFlush h) w))"

definition on_new_apm :: "ffi_world \<Rightarrow> handled" where
  "on_new_apm = new_handle KApm (\<lambda>_. ObApm)"

definition on_apm_process_stream :: "sdk_readings \<Rightarrow> handle_id \<Rightarrow> u64 \<Rightarrow> u32 \<Rightarrow> bool \<Rightarrow> ffi_world \<Rightarrow> handled" where
  "on_apm_process_stream sr h data_ptr n_bytes reverse =
     retrieving KApm h (\<lambda>_ w.
       if unat data_ptr mod 2 \<noteq> 0 then reply (RspError (Some ''data_ptr must be aligned for i16'')) w
       else reply (RspError (sr_outcome sr))
         (call_sdk (CallApmStream h (sr_memory sr data_ptr (unat n_bytes div 2)) reverse) w))"

definition on_apm_set_stream_delay :: "sdk_readings \<Rightarrow> handle_id \<Rightarrow> int \<Rightarrow> ffi_world \<Rightarrow> handled" where
  "on_apm_set_stream_delay sr h delay_ms =
     retrieving KApm h (\<lambda>_ w. reply (RspError (sr_outcome sr)) (call_sdk (CallApmDelay h delay_ms) w))"

definition on_load_audio_filter_plugin :: "sdk_readings \<Rightarrow> string \<Rightarrow> string \<Rightarrow> ffi_world \<Rightarrow> handled" where
  "on_load_audio_filter_plugin sr plugin_path module_id w =
     (case sr_outcome sr of
        Some err \<Rightarrow> reply (RspError (Some err)) w
      | None \<Rightarrow> reply (RspError None) (call_sdk (CallRegisterPlugin module_id plugin_path) w))"

section \<open>Encryption\<close>

text \<open>A request that names a cryptor panics on a track sid without its prefix.\<close>

fun cryptor_sid :: "e2ee_request \<Rightarrow> string option" where
  "cryptor_sid (CryptorSetEnabled _ track_sid _) = Some track_sid"
| "cryptor_sid (CryptorSetKeyIndex _ track_sid _) = Some track_sid"
| "cryptor_sid _ = None"

definition on_e2ee_request :: "sdk_readings \<Rightarrow> handle_id \<Rightarrow> e2ee_request option \<Rightarrow> ffi_world \<Rightarrow> handled" where
  "on_e2ee_request sr h request =
     retrieving KRoom h (\<lambda>obj w.
       case request of
         None \<Rightarrow> invalid ''message is empty'' w
       | Some message \<Rightarrow>
           if (case cryptor_sid message of None \<Rightarrow> False | Some sid \<Rightarrow> isl (track_sid_try_from sid))
           then (ReplyPanic, w)
           else reply (RspE2ee (sr_e2ee sr)) (call_sdk (CallE2ee (object_id obj) message) w))"

section \<open>Dispatch\<close>

definition on_media :: "sdk_readings \<Rightarrow> media_request \<Rightarrow> ffi_world \<Rightarrow> handled" where
  "on_media sr message w =
     (case message of
        ReqNewVideoSource native \<Rightarrow> on_new_video_source native w
      | ReqCaptureVideo h buffer \<Rightarrow> on_capture_video_frame sr h buffer w
      | ReqVideoConvert buffer dst_type flip_y \<Rightarrow> on_video_convert sr buffer dst_type flip_y w
      | ReqNewVideoStream h format native \<Rightarrow> on_new_video_stream h format native w
      | ReqVideoFromParticipant h format native \<Rightarrow> from_participant native Video format h None None None w
      | ReqNewAudioSource native \<Rightarrow> on_new_audio_source native w
      | ReqCaptureAudio h data_ptr channels rate samples \<Rightarrow>
          on_capture_audio_frame sr h data_ptr channels rate samples w
      | ReqClearAudio h \<Rightarrow> on_clear_audio_buffer h w
      | ReqNewAudioStream h native module_id rate channels frame_ms \<Rightarrow>
          on_new_audio_stream sr h native module_id rate channels frame_ms w
      | ReqAudioFromParticipant h native rate channels frame_ms \<Rightarrow>
          from_participant native Audio None h rate channels frame_ms w
      | ReqNewAudioResampler \<Rightarrow> new_audio_resampler w
      | ReqRemixAndResample h channels rate \<Rightarrow> remix_and_resample sr h channels rate w
      | ReqE2ee h request \<Rightarrow> on_e2ee_request sr h request w
      | ReqNewSoxResampler \<Rightarrow> on_new_sox_resampler sr w
      | ReqPushSoxResampler h data_ptr n_bytes \<Rightarrow> on_push_sox_resampler sr h data_ptr n_bytes w
      | ReqFlushSoxResampler h \<Rightarrow> on_flush_sox_resampler sr h w
      | ReqNewApm \<Rightarrow> on_new_apm w
      | ReqApmProcess h data_ptr n_bytes reverse \<Rightarrow> on_apm_process_stream sr h data_ptr n_bytes reverse w
      | ReqApmDelay h delay_ms \<Rightarrow> on_apm_set_stream_delay sr h delay_ms w
      | ReqLoadPlugin path module_id \<Rightarrow> on_load_audio_filter_plugin sr path module_id w)"

end
