(* ===== verification/FrameCryptors.thy ===== *)
theory FrameCryptors
  imports FfiMedia
begin

text \<open>
  End-to-end encryption (\<open>livekit/src/room/e2ee/\<close>): the manager of a room attaches a frame cryptor to
  the receiver of every encrypted track the room subscribes to and to the sender of every encrypted
  track it publishes, and answers the encryption requests of the FFI.

  A \<open>FrameCryptor\<close> is a shared object: the manager's table holds indices into the objects made so
  far, so a cryptor that leaves the table keeps its state for whoever still holds it. The constructor
  of \<open>webrtc-sys/src/frame_cryptor.cpp\<close> disables a new cryptor; its first key index and the key
  provider, whose state is the type parameter, belong to WebRTC and are given by a record of functions.
\<close>

section \<open>State\<close>

datatype (plugins only: code size) media_end = RtpSender nat | RtpReceiver nat

record frame_cryptor =
  fc_identity :: participant_identity
  fc_end :: media_end
  fc_enabled :: bool
  fc_key_index :: int
  fc_handler :: bool

type_synonym cryptor_key = "participant_identity \<times> track_sid"

record 'k e2ee_manager =
  em_options :: "(encryption_type \<times> 'k) option"
  em_enabled :: bool
  em_table :: "(cryptor_key, nat) hmap"
  em_cryptors :: "frame_cryptor list"

text \<open>What WebRTC supplies: the key index of a new cryptor, and the operations of a key provider.\<close>

record 'k crypto_lib =
  cl_first_index :: int
  cl_set_shared_key :: "int \<Rightarrow> byte list \<Rightarrow> 'k \<Rightarrow> 'k"
  cl_ratchet_shared_key :: "int \<Rightarrow> 'k \<Rightarrow> byte list option \<times> 'k"
  cl_get_shared_key :: "int \<Rightarrow> 'k \<Rightarrow> byte list option"
  cl_set_key :: "string \<Rightarrow> int \<Rightarrow> byte list \<Rightarrow> 'k \<Rightarrow> 'k"
  cl_ratchet_key :: "string \<Rightarrow> int \<Rightarrow> 'k \<Rightarrow> byte list option \<times> 'k"
  cl_get_key :: "string \<Rightarrow> int \<Rightarrow> 'k \<Rightarrow> byte list option"
  cl_set_sif_trailer :: "byte list \<Rightarrow> 'k \<Rightarrow> 'k"

definition e2ee_manager_new :: "(encryption_type \<times> 'k) option \<Rightarrow> 'k e2ee_manager" where
  "e2ee_manager_new options =
     \<lparr>em_options = options, em_enabled = (options \<noteq> None), em_table = [], em_cryptors = []\<rparr>"

definition initialized :: "'k e2ee_manager \<Rightarrow> bool" where
  "initialized m \<longleftrightarrow> em_options m \<noteq> None"

definition manager_enabled :: "'k e2ee_manager \<Rightarrow> bool" where
  "manager_enabled m \<longleftrightarrow> em_enabled m \<and> initialized m"

definition manager_encryption_type :: "'k e2ee_manager \<Rightarrow> encryption_type" where
  "manager_encryption_type m = (case em_options m of None \<Rightarrow> NoEncryption | Some (t, _) \<Rightarrow> t)"

definition key_provider :: "'k e2ee_manager \<Rightarrow> 'k option" where
  "key_provider m = map_option snd (em_options m)"

section \<open>Cryptors\<close>

definition new_frame_cryptor :: "'k crypto_lib \<Rightarrow> participant_identity \<Rightarrow> media_end \<Rightarrow> frame_cryptor" where
  "new_frame_cryptor lib identity media =
     \<lparr>fc_identity = identity, fc_end = media, fc_enabled = False,
      fc_key_index = cl_first_index lib, fc_handler = False\<rparr>"

definition set_cryptor_enabled :: "bool \<Rightarrow> nat \<Rightarrow> frame_cryptor list \<Rightarrow> frame_cryptor list" where
  "set_cryptor_enabled b i cs = cs[i := (cs ! i)\<lparr>fc_enabled := b\<rparr>]"

definition set_cryptor_index :: "int \<Rightarrow> nat \<Rightarrow> frame_cryptor list \<Rightarrow> frame_cryptor list" where
  "set_cryptor_index k i cs = cs[i := (cs ! i)\<lparr>fc_key_index := k\<rparr>]"

text \<open>\<open>setup_rtp_sender\<close> and \<open>setup_rtp_receiver\<close>: a new object, enabled as the manager says.\<close>

definition setup_rtp :: "'k crypto_lib \<Rightarrow> participant_identity \<Rightarrow> media_end \<Rightarrow> 'k e2ee_manager \<Rightarrow> frame_cryptor" where
  "setup_rtp lib identity media m = (new_frame_cryptor lib identity media)\<lparr>fc_enabled := em_enabled m\<rparr>"

definition setup_cryptor :: "frame_cryptor \<Rightarrow> frame_cryptor" where
  "setup_cryptor c = c\<lparr>fc_handler := True\<rparr>"

definition insert_cryptor :: "cryptor_key \<Rightarrow> frame_cryptor \<Rightarrow> 'k e2ee_manager \<Rightarrow> 'k e2ee_manager" where
  "insert_cryptor key c m =
     m\<lparr>em_cryptors := em_cryptors m @ [c],
       em_table := AList.update key (length (em_cryptors m)) (em_table m)\<rparr>"

definition remove_frame_cryptor :: "cryptor_key \<Rightarrow> 'k e2ee_manager \<Rightarrow> 'k e2ee_manager" where
  "remove_frame_cryptor key m = m\<lparr>em_table := AList.delete key (em_table m)\<rparr>"

text \<open>The loop of \<open>set_enabled\<close> and \<open>cleanup\<close> over the table.\<close>

definition set_all_enabled :: "bool \<Rightarrow> 'k e2ee_manager \<Rightarrow> 'k e2ee_manager" where
  "set_all_enabled b m =
     m\<lparr>em_cryptors := fold (set_cryptor_enabled b) (hm_values (em_table m)) (em_cryptors m)\<rparr>"

definition cleanup :: "'k e2ee_manager \<Rightarrow> 'k e2ee_manager" where
  "cleanup m = (set_all_enabled False m)\<lparr>em_table := []\<rparr>"

text \<open>\<open>set_enabled\<close> compares with the manager's flag, which it does not change.\<close>

definition manager_set_enabled :: "bool \<Rightarrow> 'k e2ee_manager \<Rightarrow> 'k e2ee_manager" where
  "manager_set_enabled enabled m =
     (if em_enabled m = enabled then m else set_all_enabled enabled m)"

section \<open>The calls of the room\<close>

definition attach ::
    "'k crypto_lib \<Rightarrow> (nat \<Rightarrow> media_end) \<Rightarrow> participant_identity \<Rightarrow> 'z publication_scheme \<Rightarrow> track \<Rightarrow>
     'k e2ee_manager \<Rightarrow> 'k e2ee_manager ran" where
  "attach lib media identity pub track m =
     (if \<not> initialized m then Ran m
      else if pb_encryption_type pub = NoEncryption then Ran m
      else
        (case tk_transceiver track of
           None \<Rightarrow> Panicked m
         | Some transceiver \<Rightarrow>
             Ran (insert_cryptor (identity, pb_sid pub)
                    (setup_cryptor (setup_rtp lib identity (media transceiver) m)) m)))"

definition on_track_subscribed ::
    "'k crypto_lib \<Rightarrow> participant_identity \<Rightarrow> 'z publication_scheme \<Rightarrow> track \<Rightarrow> 'k e2ee_manager \<Rightarrow> 'k e2ee_manager ran" where
  "on_track_subscribed lib = attach lib RtpReceiver"

definition on_local_track_published ::
    "'k crypto_lib \<Rightarrow> participant_identity \<Rightarrow> 'z publication_scheme \<Rightarrow> track \<Rightarrow> 'k e2ee_manager \<Rightarrow> 'k e2ee_manager ran" where
  "on_local_track_published lib = attach lib RtpSender"

definition on_track_unsubscribed ::
    "participant_identity \<Rightarrow> 'z publication_scheme \<Rightarrow> 'k e2ee_manager \<Rightarrow> 'k e2ee_manager" where
  "on_track_unsubscribed identity pub = remove_frame_cryptor (identity, pb_sid pub)"

definition on_local_track_unpublished ::
    "participant_identity \<Rightarrow> 'z publication_scheme \<Rightarrow> 'k e2ee_manager \<Rightarrow> 'k e2ee_manager" where
  "on_local_track_unpublished identity pub = remove_frame_cryptor (identity, pb_sid pub)"

text \<open>The room gives the trailer of the join response to the key provider.\<close>

definition with_keys :: "('k \<Rightarrow> 'k) \<Rightarrow> 'k e2ee_manager \<Rightarrow> 'k e2ee_manager" where
  "with_keys f m = m\<lparr>em_options := map_option (map_prod id f) (em_options m)\<rparr>"

definition join_sif_trailer :: "'k crypto_lib \<Rightarrow> byte list \<Rightarrow> 'k e2ee_manager \<Rightarrow> 'k e2ee_manager" where
  "join_sif_trailer lib trailer = with_keys (cl_set_sif_trailer lib trailer)"

text \<open>
  A cryptor's change of state reaches the room through the handler that \<open>setup_cryptor\<close> set; the room
  tells its clients when the participant is still there.
\<close>

definition cryptor_state_changed :: "nat \<Rightarrow> nat \<Rightarrow> 'k e2ee_manager \<Rightarrow> room \<Rightarrow> sdk_event option" where
  "cryptor_state_changed i state m r =
     (let c = em_cryptors m ! i in
      if \<not> fc_handler c then None
      else map_option (\<lambda>p. E2eeStateChanged p state) (get_local_or_remote_participant (fc_identity c) r))"

section \<open>The requests of a client\<close>

text \<open>\<open>on_e2ee_request\<close> past the handle: the answer and the new state, or a panic.\<close>

definition on_cryptor ::
    "string \<Rightarrow> string \<Rightarrow> (nat \<Rightarrow> frame_cryptor list \<Rightarrow> frame_cryptor list) \<Rightarrow> 'k e2ee_manager \<Rightarrow>
     (e2ee_answer \<times> 'k e2ee_manager) option" where
  "on_cryptor identity track_sid f m =
     (case track_sid_try_from track_sid of
        Inl _ \<Rightarrow> None
      | Inr sid \<Rightarrow>
          Some (E2eeDone,
            case map_of (em_table m) (identity, sid) of
              None \<Rightarrow> m
            | Some i \<Rightarrow> m\<lparr>em_cryptors := f i (em_cryptors m)\<rparr>))"

definition ratcheted ::
    "('k \<Rightarrow> byte list option \<times> 'k) \<Rightarrow> 'k e2ee_manager \<Rightarrow> e2ee_answer \<times> 'k e2ee_manager" where
  "ratcheted f m =
     (E2eeKey (case key_provider m of None \<Rightarrow> None | Some k \<Rightarrow> fst (f k)), with_keys (\<lambda>k. snd (f k)) m)"

definition got_key :: "('k \<Rightarrow> byte list option) \<Rightarrow> 'k e2ee_manager \<Rightarrow> e2ee_answer" where
  "got_key f m = E2eeKey (case key_provider m of None \<Rightarrow> None | Some k \<Rightarrow> f k)"

definition frame_cryptors :: "'k e2ee_manager \<Rightarrow> (string \<times> string \<times> bool \<times> int) list" where
  "frame_cryptors m =
     map (\<lambda>((identity, sid), i).
            (identity, sid, fc_enabled (em_cryptors m ! i), fc_key_index (em_cryptors m ! i)))
       (em_table m)"

fun client_request ::
    "'k crypto_lib \<Rightarrow> e2ee_request \<Rightarrow> 'k e2ee_manager \<Rightarrow> (e2ee_answer \<times> 'k e2ee_manager) option" where
  "client_request lib (ManagerSetEnabled enabled) m = Some (E2eeDone, manager_set_enabled enabled m)"
| "client_request lib ManagerGetFrameCryptors m = Some (E2eeCryptors (frame_cryptors m), m)"
| "client_request lib (CryptorSetEnabled identity sid enabled) m =
     on_cryptor identity sid (set_cryptor_enabled enabled) m"
| "client_request lib (CryptorSetKeyIndex identity sid index) m =
     on_cryptor identity sid (set_cryptor_index index) m"
| "client_request lib (SetSharedKey key index) m =
     Some (E2eeDone, with_keys (cl_set_shared_key lib index key) m)"
| "client_request lib (RatchetSharedKey index) m = Some (ratcheted (cl_ratchet_shared_key lib index) m)"
| "client_request lib (GetSharedKey index) m = Some (got_key (cl_get_shared_key lib index) m, m)"
| "client_request lib (SetKey identity index key) m =
     Some (E2eeDone, with_keys (cl_set_key lib identity index key) m)"
| "client_request lib (RatchetKey identity index) m = Some (ratcheted (cl_ratchet_key lib identity index) m)"
| "client_request lib (GetKey identity index) m = Some (got_key (cl_get_key lib identity index) m, m)"

section \<open>Runs\<close>

datatype (plugins only: code size) e2ee_op =
    TrackSubscribed participant_identity publication track
  | TrackUnsubscribed participant_identity publication
  | LocalTrackPublished participant_identity publication track
  | LocalTrackUnpublished participant_identity publication
  | ClientRequest e2ee_request
  | JoinSifTrailer "byte list"
  | RoomCleanup

text \<open>A call that panics leaves the manager as it was; its caller's task ends.\<close>

definition e2ee_step :: "'k crypto_lib \<Rightarrow> e2ee_op \<Rightarrow> 'k e2ee_manager \<Rightarrow> 'k e2ee_manager" where
  "e2ee_step lib op m =
     (case op of
        TrackSubscribed identity pub track \<Rightarrow> ran_state (on_track_subscribed lib identity pub track m)
      | TrackUnsubscribed identity pub \<Rightarrow> on_track_unsubscribed identity pub m
      | LocalTrackPublished identity pub track \<Rightarrow> ran_state (on_local_track_published lib identity pub track m)
      | LocalTrackUnpublished identity pub \<Rightarrow> on_local_track_unpublished identity pub m
      | ClientRequest request \<Rightarrow> (case client_request lib request m of None \<Rightarrow> m | Some (_, m) \<Rightarrow> m)
      | JoinSifTrailer trailer \<Rightarrow> join_sif_trailer lib trailer m
      | RoomCleanup \<Rightarrow> cleanup m)"

section \<open>One track's cryptor\<close>

text \<open>The cryptor the manager holds for a track.\<close>

definition cryptor_for :: "'k e2ee_manager \<Rightarrow> cryptor_key \<Rightarrow> frame_cryptor option" where
  "cryptor_for m key = map_option ((!) (em_cryptors m)) (map_of (em_table m) key)"

text \<open>
  The specification: what an operation makes of the cryptor of one track, with no table, no shared
  objects and no flag of the manager.
\<close>

definition attached :: "'k crypto_lib \<Rightarrow> (nat \<Rightarrow> media_end) \<Rightarrow> cryptor_key \<Rightarrow> participant_identity \<Rightarrow>
    publication \<Rightarrow> track \<Rightarrow> frame_cryptor option \<Rightarrow> frame_cryptor option" where
  "attached lib media key identity pub track cur =
     (case tk_transceiver track of
        Some transceiver \<Rightarrow>
          if key = (identity, pb_sid pub) \<and> pb_encryption_type pub \<noteq> NoEncryption
          then Some \<lparr>fc_identity = identity, fc_end = media transceiver, fc_enabled = True,
                     fc_key_index = cl_first_index lib, fc_handler = True\<rparr>
          else cur
      | None \<Rightarrow> cur)"

definition addressed :: "cryptor_key \<Rightarrow> string \<Rightarrow> string \<Rightarrow> bool" where
  "addressed key identity sid \<longleftrightarrow> track_sid_try_from sid = Inr (snd key) \<and> identity = fst key"

fun requested :: "cryptor_key \<Rightarrow> e2ee_request \<Rightarrow> frame_cryptor \<Rightarrow> frame_cryptor" where
  "requested key (ManagerSetEnabled b) c = (if b then c else c\<lparr>fc_enabled := False\<rparr>)"
| "requested key (CryptorSetEnabled identity sid b) c =
     (if addressed key identity sid then c\<lparr>fc_enabled := b\<rparr> else c)"
| "requested key (CryptorSetKeyIndex identity sid k) c =
     (if addressed key identity sid then c\<lparr>fc_key_index := k\<rparr> else c)"
| "requested key _ c = c"

definition track_cryptor ::
    "'k crypto_lib \<Rightarrow> cryptor_key \<Rightarrow> e2ee_op \<Rightarrow> frame_cryptor option \<Rightarrow> frame_cryptor option" where
  "track_cryptor lib key op cur =
     (case op of
        TrackSubscribed identity pub track \<Rightarrow> attached lib RtpReceiver key identity pub track cur
      | LocalTrackPublished identity pub track \<Rightarrow> attached lib RtpSender key identity pub track cur
      | TrackUnsubscribed identity pub \<Rightarrow> if key = (identity, pb_sid pub) then None else cur
      | LocalTrackUnpublished identity pub \<Rightarrow> if key = (identity, pb_sid pub) then None else cur
      | ClientRequest request \<Rightarrow> map_option (requested key request) cur
      | JoinSifTrailer _ \<Rightarrow> cur
      | RoomCleanup \<Rightarrow> None)"

section \<open>Lemmas\<close>

definition manager_wf :: "'k e2ee_manager \<Rightarrow> bool" where
  "manager_wf m \<longleftrightarrow>
     initialized m \<and> em_enabled m \<and> hm_wf (em_table m)
     \<and> (\<forall>key i. map_of (em_table m) key = Some i \<longrightarrow> i < length (em_cryptors m))
     \<and> (\<forall>key key' i. map_of (em_table m) key = Some i \<longrightarrow> map_of (em_table m) key' = Some i \<longrightarrow> key = key')"

lemma manager_wfD:
  assumes "manager_wf m"
  shows "initialized m" and "em_enabled m" and "hm_wf (em_table m)"
    and "map_of (em_table m) key = Some i \<Longrightarrow> i < length (em_cryptors m)"
    and "map_of (em_table m) key = Some i \<Longrightarrow> map_of (em_table m) key' = Some i \<Longrightarrow> key = key'"
  using assms unfolding manager_wf_def by blast+

lemma wf_new [simp]: "manager_wf (e2ee_manager_new (Some opts))"
  by (simp add: manager_wf_def e2ee_manager_new_def initialized_def)

lemma cryptor_for_new [simp]: "cryptor_for (e2ee_manager_new opts) key = None"
  by (simp add: cryptor_for_def e2ee_manager_new_def)

text \<open>A change of single objects: the table stays, and so does the number of objects.\<close>

lemma wf_cryptors:
  assumes "manager_wf m" and "length cs = length (em_cryptors m)"
  shows "manager_wf (m\<lparr>em_cryptors := cs\<rparr>)"
  using assms by (simp add: manager_wf_def initialized_def)

lemma length_setters [simp]:
  "length (set_cryptor_enabled b i cs) = length cs" "length (set_cryptor_index k i cs) = length cs"
  by (simp_all add: set_cryptor_enabled_def set_cryptor_index_def)

lemma length_set_all [simp]: "length (fold (set_cryptor_enabled b) is cs) = length cs"
  by (induction "is" arbitrary: cs) simp_all

lemma nth_set_all:
  "j < length cs \<Longrightarrow> fold (set_cryptor_enabled b) is cs ! j =
     (if j \<in> set is then (cs ! j)\<lparr>fc_enabled := b\<rparr> else cs ! j)"
proof (induction "is" arbitrary: cs)
  case (Cons i "is")
  then show ?case by (cases "i = j") (auto simp: set_cryptor_enabled_def)
qed simp

lemma cryptor_for_set_all:
  assumes "manager_wf m"
  shows "cryptor_for (set_all_enabled b m) key = map_option (fc_enabled_update (\<lambda>_. b)) (cryptor_for m key)"
proof (cases "map_of (em_table m) key")
  case (Some i)
  then have "i \<in> set (hm_values (em_table m))" by (force simp: hm_values_def dest: map_of_SomeD)
  with Some manager_wfD(4) [OF assms Some] show ?thesis
    by (simp add: cryptor_for_def set_all_enabled_def nth_set_all)
qed (simp add: cryptor_for_def set_all_enabled_def)

lemma wf_set_all: "manager_wf m \<Longrightarrow> manager_wf (set_all_enabled b m)"
  by (simp add: set_all_enabled_def wf_cryptors)

lemma wf_insert:
  assumes m: "manager_wf m"
  shows "manager_wf (insert_cryptor key c m)"
proof -
  have fresh: "map_of (em_table m) key' \<noteq> Some (length (em_cryptors m))" for key'
    using manager_wfD(4) [OF m] by fastforce
  show ?thesis
    using m manager_wfD(4) [OF m] fresh
    by (auto simp: manager_wf_def insert_cryptor_def initialized_def hm.lookup_insert hm.wf_insert
        less_Suc_eq split: if_splits)
qed

lemma cryptor_for_insert:
  assumes m: "manager_wf m"
  shows "cryptor_for (insert_cryptor key' c m) key = (if key = key' then Some c else cryptor_for m key)"
  using manager_wfD(4) [OF m, of key]
  by (cases "map_of (em_table m) key")
    (simp_all add: cryptor_for_def insert_cryptor_def hm.lookup_insert nth_append)

lemma wf_remove: "manager_wf m \<Longrightarrow> manager_wf (remove_frame_cryptor key m)"
  by (auto simp: manager_wf_def remove_frame_cryptor_def initialized_def hm.lookup_remove hm.wf_remove
      split: if_splits)

lemma cryptor_for_remove:
  "cryptor_for (remove_frame_cryptor key' m) key = (if key = key' then None else cryptor_for m key)"
  by (simp add: cryptor_for_def remove_frame_cryptor_def hm.lookup_remove)

lemma wf_with_keys: "manager_wf m \<Longrightarrow> manager_wf (with_keys f m)"
  by (simp add: manager_wf_def with_keys_def initialized_def)

lemma cryptor_for_with_keys [simp]: "cryptor_for (with_keys f m) key = cryptor_for m key"
  by (simp add: cryptor_for_def with_keys_def)

text \<open>A request that addresses one cryptor changes that one only: no two tracks share a cryptor.\<close>

lemma cryptor_for_update:
  assumes m: "manager_wf m" and i: "map_of (em_table m) key' = Some i"
  shows "cryptor_for (m\<lparr>em_cryptors := (em_cryptors m)[i := f (em_cryptors m ! i)]\<rparr>) key =
    (if key = key' then map_option f (cryptor_for m key) else cryptor_for m key)"
proof (cases "map_of (em_table m) key")
  case (Some j)
  then have "j = i \<longleftrightarrow> key = key'" using manager_wfD(5) [OF m, of key i key'] i by auto
  with Some i manager_wfD(4) [OF m Some] show ?thesis by (auto simp: cryptor_for_def)
qed (use i in \<open>auto simp: cryptor_for_def\<close>)

lemma on_cryptor_effect:
  assumes m: "manager_wf m" and f: "\<And>i cs. f i cs = cs[i := g (cs ! i)]"
    and r: "on_cryptor identity sid f m = Some (a, m')"
  shows "manager_wf m'
    \<and> cryptor_for m' key = map_option (if addressed key identity sid then g else id) (cryptor_for m key)"
proof -
  obtain s where s: "track_sid_try_from sid = Inr s"
    using r by (cases "track_sid_try_from sid") (auto simp: on_cryptor_def)
  have addr: "addressed key identity sid \<longleftrightarrow> key = (identity, s)"
    using s by (cases key) (auto simp: addressed_def)
  show ?thesis
  proof (cases "map_of (em_table m) (identity, s)")
    case None
    then have "m' = m" using r s by (simp add: on_cryptor_def)
    then show ?thesis using m None addr by (auto simp: cryptor_for_def option.map_id)
  next
    case (Some i)
    then have "m' = m\<lparr>em_cryptors := (em_cryptors m)[i := g (em_cryptors m ! i)]\<rparr>"
      using r s f by (simp add: on_cryptor_def)
    then show ?thesis using cryptor_for_update [OF m Some, of g key] addr
      by (simp add: wf_cryptors [OF m] option.map_id)
  qed
qed

lemma on_cryptor_panics: "on_cryptor identity sid f m = None \<longleftrightarrow> isl (track_sid_try_from sid)"
  by (cases "track_sid_try_from sid") (simp_all add: on_cryptor_def)

lemma requested_other [simp]:
  "map_option (requested key (SetSharedKey shared k)) cur = cur"
  "map_option (requested key (SetKey identity k shared)) cur = cur"
  by (cases cur; simp)+

lemma client_request_effect:
  assumes m: "manager_wf m" and r: "client_request lib request m = Some (a, m')"
  shows "manager_wf m' \<and> cryptor_for m' key = map_option (requested key request) (cryptor_for m key)"
proof (cases request)
  case (ManagerSetEnabled b)
  with r have m': "m' = (if b then m else set_all_enabled False m)"
    using manager_wfD(2) [OF m] by (auto simp: manager_set_enabled_def)
  have "requested key request = (if b then id else fc_enabled_update (\<lambda>_. False))"
    using ManagerSetEnabled by (auto simp: fun_eq_iff)
  then show ?thesis using m m' by (simp add: wf_set_all cryptor_for_set_all option.map_id)
next
  case (CryptorSetEnabled identity sid b)
  have "requested key request = (if addressed key identity sid then fc_enabled_update (\<lambda>_. b) else id)"
    using CryptorSetEnabled by (auto simp: fun_eq_iff)
  then show ?thesis
    using on_cryptor_effect [OF m, of "set_cryptor_enabled b" "fc_enabled_update (\<lambda>_. b)"] r CryptorSetEnabled
    by (simp add: set_cryptor_enabled_def)
next
  case (CryptorSetKeyIndex identity sid k)
  have "requested key request = (if addressed key identity sid then fc_key_index_update (\<lambda>_. k) else id)"
    using CryptorSetKeyIndex by (auto simp: fun_eq_iff)
  then show ?thesis
    using on_cryptor_effect [OF m, of "set_cryptor_index k" "fc_key_index_update (\<lambda>_. k)"] r CryptorSetKeyIndex
    by (simp add: set_cryptor_index_def)
qed (use m r in \<open>auto simp: ratcheted_def wf_with_keys option.map_ident map_option_cong\<close>)

lemma attach_effect:
  assumes m: "manager_wf m"
  shows "manager_wf (ran_state (attach lib media identity pub track m))
    \<and> cryptor_for (ran_state (attach lib media identity pub track m)) key =
        attached lib media key identity pub track (cryptor_for m key)"
  using manager_wfD(1,2) [OF m]
  by (cases "tk_transceiver track")
    (auto simp: attach_def attached_def m wf_insert cryptor_for_insert [OF m] setup_rtp_def
      setup_cryptor_def new_frame_cryptor_def)

lemma e2ee_step_effect:
  assumes m: "manager_wf m"
  shows "manager_wf (e2ee_step lib op m)
    \<and> cryptor_for (e2ee_step lib op m) key = track_cryptor lib key op (cryptor_for m key)"
proof (cases op)
  case (ClientRequest request)
  show ?thesis
  proof (cases "client_request lib request m")
    case None
    then have "\<exists>identity sid. isl (track_sid_try_from sid)
        \<and> requested key request = (\<lambda>c. if addressed key identity sid then requested key request c else c)"
      by (cases request; force simp: on_cryptor_panics)
    then have "requested key request = id"
      by (auto simp: addressed_def fun_eq_iff isl_def)
    with None ClientRequest m show ?thesis
      by (simp add: e2ee_step_def track_cryptor_def option.map_id)
  next
    case (Some r)
    obtain a m' where "r = (a, m')" by (cases r)
    with Some client_request_effect [OF m, of lib request a m' key] ClientRequest show ?thesis
      by (simp add: e2ee_step_def track_cryptor_def)
  qed
next
  case RoomCleanup
  have "manager_wf (cleanup m)" using wf_set_all [OF m]
    by (simp add: manager_wf_def cleanup_def initialized_def)
  with RoomCleanup show ?thesis
    by (simp add: e2ee_step_def track_cryptor_def) (simp add: cleanup_def cryptor_for_def)
qed (use attach_effect [OF m] m in \<open>simp_all add: e2ee_step_def track_cryptor_def
    on_track_subscribed_def on_local_track_published_def on_track_unsubscribed_def
    on_local_track_unpublished_def join_sif_trailer_def wf_with_keys wf_remove cryptor_for_remove\<close>)

text \<open>The manager and the specification run side by side.\<close>

interpretation e2ee: kept_by
  "\<lambda>op (m, cur). (e2ee_step lib op m, track_cryptor lib key op cur)"
  "\<lambda>(m, cur). manager_wf m \<and> cryptor_for m key = cur"
  by unfold_locales (auto simp: e2ee_step_effect)

lemma side_by_side:
  "fold (\<lambda>op (a, b). (f op a, g op b)) ops (a, b) = (fold f ops a, fold g ops b)"
  by (induction ops arbitrary: a b) simp_all

lemma run_effect:
  assumes "manager_wf m"
  shows "manager_wf (fold (e2ee_step lib) ops m)
    \<and> cryptor_for (fold (e2ee_step lib) ops m) key = fold (track_cryptor lib key) ops (cryptor_for m key)"
  using e2ee.run_inv [of key "(m, cryptor_for m key)" lib ops] assms by (simp add: side_by_side)

lemma disabled_all:
  "manager_wf m \<Longrightarrow> cryptor_for (e2ee_step lib (ClientRequest (ManagerSetEnabled False)) m) key = Some c \<Longrightarrow> \<not> fc_enabled c"
  using e2ee_step_effect [of m lib "ClientRequest (ManagerSetEnabled False)" key]
  by (auto simp: track_cryptor_def)

text \<open>
  Disabling does not stick in the manager: it goes on to say that it is enabled, asking it to enable
  the cryptors again does nothing, and the cryptor of a track that comes later is enabled.
\<close>

lemma disable_is_one_way:
  fixes lib :: "'k crypto_lib" and opts :: "encryption_type \<times> 'k" and ops :: "e2ee_op list"
  defines "m \<equiv> fold (e2ee_step lib) ops (e2ee_manager_new (Some opts))"
  defines "off \<equiv> e2ee_step lib (ClientRequest (ManagerSetEnabled False)) m"
  shows "manager_enabled off" and "e2ee_step lib (ClientRequest (ManagerSetEnabled True)) off = off"
    and "cryptor_for off key = Some c \<Longrightarrow> \<not> fc_enabled c"
    and "pb_encryption_type pub \<noteq> NoEncryption \<Longrightarrow> tk_transceiver track = Some transceiver \<Longrightarrow>
      map_option fc_enabled
        (cryptor_for (e2ee_step lib (TrackSubscribed identity pub track) off) (identity, pb_sid pub)) = Some True"
proof -
  have m: "manager_wf m" unfolding m_def using run_effect [OF wf_new] by blast
  have off: "manager_wf off" unfolding off_def using e2ee_step_effect [OF m] by blast
  show "manager_enabled off" using manager_wfD(1,2) [OF off] by (simp add: manager_enabled_def)
  show "e2ee_step lib (ClientRequest (ManagerSetEnabled True)) off = off"
    using manager_wfD(2) [OF off] by (simp add: e2ee_step_def manager_set_enabled_def)
  show "cryptor_for off key = Some c \<Longrightarrow> \<not> fc_enabled c"
    unfolding off_def by (rule disabled_all [OF m])
  show "pb_encryption_type pub \<noteq> NoEncryption \<Longrightarrow> tk_transceiver track = Some transceiver \<Longrightarrow>
      map_option fc_enabled
        (cryptor_for (e2ee_step lib (TrackSubscribed identity pub track) off) (identity, pb_sid pub)) = Some True"
    using e2ee_step_effect [OF off, of lib "TrackSubscribed identity pub track" "(identity, pb_sid pub)"]
    by (simp add: track_cryptor_def attached_def)
qed

text \<open>A room without encryption options never makes a cryptor.\<close>

lemma no_options_step:
  "em_options m = None \<Longrightarrow> em_table m = [] \<Longrightarrow>
     em_options (e2ee_step lib op m) = None \<and> em_table (e2ee_step lib op m) = []"
proof (cases op)
  case (ClientRequest request)
  then show "em_options m = None \<Longrightarrow> em_table m = [] \<Longrightarrow>
     em_options (e2ee_step lib op m) = None \<and> em_table (e2ee_step lib op m) = []"
    by (cases request) (auto simp: e2ee_step_def manager_set_enabled_def set_all_enabled_def with_keys_def
        ratcheted_def on_cryptor_def split: option.splits sum.splits)
qed (auto simp: e2ee_step_def on_track_subscribed_def on_local_track_published_def attach_def
    initialized_def on_track_unsubscribed_def on_local_track_unpublished_def remove_frame_cryptor_def
    join_sif_trailer_def with_keys_def cleanup_def set_all_enabled_def)

interpretation no_options: kept_by "e2ee_step lib" "\<lambda>m. em_options m = None \<and> em_table m = []"
  by unfold_locales (simp add: no_options_step)

lemma no_options_no_cryptors:
  "cryptor_for (fold (e2ee_step lib) ops (e2ee_manager_new None)) key = None"
  using no_options.run_inv [of "e2ee_manager_new None" lib ops]
  by (simp add: cryptor_for_def e2ee_manager_new_def)

text \<open>The request handler of the FFI server, with the manager's answer as its reading.\<close>

lemma e2ee_request_answered:
  assumes "\<And>a m'. client_request lib message m = Some (a, m') \<Longrightarrow> sr_e2ee sr = a"
  shows "on_e2ee_request sr h (Some message) w =
    retrieving KRoom h (\<lambda>obj w.
      case client_request lib message m of
        None \<Rightarrow> (ReplyPanic, w)
      | Some (a, _) \<Rightarrow> reply (RspE2ee a) (call_sdk (CallE2ee (object_id obj) message) w)) w"
proof -
  have "(case cryptor_sid message of None \<Rightarrow> False | Some sid \<Rightarrow> isl (track_sid_try_from sid))
      \<longleftrightarrow> client_request lib message m = None"
    by (cases message) (simp_all add: on_cryptor_panics)
  with assms show ?thesis
    by (cases "client_request lib message m") (auto simp: on_e2ee_request_def)
qed

section \<open>The tracks of a remote publication\<close>

text \<open>
  The handlers that the room registers on a remote participant (\<open>create_participant\<close>): \<open>p\<close> and \<open>q\<close> are
  the publication when its track is taken away and when a new one is set.
\<close>

fun tell_manager ::
    "'k crypto_lib \<Rightarrow> participant_identity \<Rightarrow> remote_publication \<Rightarrow> remote_publication \<Rightarrow>
     publication_event \<Rightarrow> 'k e2ee_manager \<Rightarrow> 'k e2ee_manager ran" where
  "tell_manager lib identity p q (PeSubscribed track) m = on_track_subscribed lib identity q track m"
| "tell_manager lib identity p q (PeUnsubscribed _) m = Ran (on_track_unsubscribed identity p m)"
| "tell_manager lib identity p q _ m = Ran m"

text \<open>A run of a publication of a participant, among other calls of the manager.\<close>

fun hooked_step ::
    "'k crypto_lib \<Rightarrow> participant_identity \<Rightarrow> publication_op + e2ee_op \<Rightarrow>
     remote_publication \<times> 'k e2ee_manager \<Rightarrow> remote_publication \<times> 'k e2ee_manager" where
  "hooked_step lib identity (Inl op) (p, m) =
     (case ran_state (publication_op_run op p) of
        (q, evs) \<Rightarrow> (q, ran_state (ran_fold (tell_manager lib identity p q) evs m)))"
| "hooked_step lib identity (Inr op) (p, m) = (p, e2ee_step lib op m)"

text \<open>
  What the rest of the SDK does: a track is set with the sid of its publication and with its
  transceiver, descriptions keep the sid and the encryption, and the other calls of the manager are
  about other tracks.
\<close>

definition other_track :: "cryptor_key \<Rightarrow> e2ee_op \<Rightarrow> bool" where
  "other_track key op =
     (case op of
        TrackSubscribed identity pub _ \<Rightarrow> (identity, pb_sid pub) \<noteq> key
      | LocalTrackPublished identity pub _ \<Rightarrow> (identity, pb_sid pub) \<noteq> key
      | TrackUnsubscribed identity pub \<Rightarrow> (identity, pb_sid pub) \<noteq> key
      | LocalTrackUnpublished identity pub \<Rightarrow> (identity, pb_sid pub) \<noteq> key
      | RoomCleanup \<Rightarrow> False
      | _ \<Rightarrow> True)"

fun track_op_ok :: "participant_identity \<Rightarrow> track_sid \<Rightarrow> encryption_type \<Rightarrow> publication_op + e2ee_op \<Rightarrow> bool" where
  "track_op_ok identity sid enc (Inl (OpSetTrack (Some t))) \<longleftrightarrow> tk_sid t = sid \<and> tk_transceiver t \<noteq> None"
| "track_op_ok identity sid enc (Inl (OpUpdateInfo info)) \<longleftrightarrow> pti_sid info = sid \<and> pti_encryption info = enc"
| "track_op_ok identity sid enc (Inl _) \<longleftrightarrow> True"
| "track_op_ok identity sid enc (Inr op) \<longleftrightarrow> other_track (identity, sid) op"

text \<open>A request that disables the cryptor of a track: its own, or that for all.\<close>

fun disables :: "cryptor_key \<Rightarrow> publication_op + e2ee_op \<Rightarrow> bool" where
  "disables key (Inr (ClientRequest (ManagerSetEnabled b))) \<longleftrightarrow> \<not> b"
| "disables key (Inr (ClientRequest (CryptorSetEnabled identity sid b))) \<longleftrightarrow> addressed key identity sid \<and> \<not> b"
| "disables key _ \<longleftrightarrow> False"

text \<open>A track has a cryptor on its own receiver, which is enabled if \<open>on\<close> says so; no track has none.\<close>

fun cryptor_matches :: "bool \<Rightarrow> track option \<Rightarrow> frame_cryptor option \<Rightarrow> bool" where
  "cryptor_matches on None None \<longleftrightarrow> True"
| "cryptor_matches on (Some t) (Some c) \<longleftrightarrow>
     map_option RtpReceiver (tk_transceiver t) = Some (fc_end c) \<and> (on \<longrightarrow> fc_enabled c)"
| "cryptor_matches on _ _ \<longleftrightarrow> False"

definition fits :: "track_sid \<Rightarrow> encryption_type \<Rightarrow> remote_publication \<Rightarrow> bool" where
  "fits sid enc p \<longleftrightarrow>
     pb_sid p = sid \<and> pb_encryption_type p = enc \<and> rpb_on_subscription p
     \<and> pti_sid (pb_proto_info p) = sid \<and> pti_encryption (pb_proto_info p) = enc"

fun moves_track :: "publication_event \<Rightarrow> bool" where
  "moves_track (PeSubscribed _) \<longleftrightarrow> True"
| "moves_track (PeUnsubscribed _) \<longleftrightarrow> True"
| "moves_track _ \<longleftrightarrow> False"

lemma tell_quiet: "\<not> moves_track ev \<Longrightarrow> tell_manager lib identity p q ev m = Ran m"
  by (cases ev) simp_all

lemma tell_moves:
  "ran_fold (tell_manager lib identity p q) evs m
   = ran_fold (tell_manager lib identity p q) (filter moves_track evs) m"
proof (induction evs arbitrary: m)
  case (Cons ev evs)
  have "ran_bind r (ran_fold (tell_manager lib identity p q) evs)
      = ran_bind r (ran_fold (tell_manager lib identity p q) (filter moves_track evs))" for r
    by (cases r) (simp_all add: Cons.IH)
  then show ?case by (cases "moves_track ev") (simp_all add: tell_quiet)
qed simp

lemma quiet_updates [simp]:
  "filter moves_track (emit_subscription_update old p) = []"
  "filter moves_track (emit_permission_update allowed p) = []"
  by (simp_all add: emit_subscription_update_def emit_permission_update_def)

lemma ran_bind_end [simp]: "ran_bind r (ran_fold f []) = r"
  by (cases r) simp_all

text \<open>What an operation does to the track, and which of the calls it makes are about it.\<close>

definition came_and_went :: "track option \<Rightarrow> track option \<Rightarrow> publication_event list" where
  "came_and_went old new =
     (case old of None \<Rightarrow> [] | Some t \<Rightarrow> [PeUnsubscribed t]) @ (case new of None \<Rightarrow> [] | Some t \<Rightarrow> [PeSubscribed t])"

definition transceiver_of :: "remote_publication \<Rightarrow> nat option option" where
  "transceiver_of p = map_option tk_transceiver (pb_track p)"

lemma set_track_moves:
  "rpb_on_subscription p \<Longrightarrow>
     filter moves_track (snd (remote_set_track new p)) = came_and_went (pb_track p) new"
  "transceiver_of (fst (remote_set_track new p)) = map_option tk_transceiver new"
  by (simp_all add: remote_set_track_def Let_def came_and_went_def transceiver_of_def
      publication_set_track_def split: option.splits)

lemma set_track_fits:
  "fits sid enc p \<Longrightarrow> (\<And>t. new = Some t \<Longrightarrow> tk_sid t = sid) \<Longrightarrow> fits sid enc (fst (remote_set_track new p))"
  by (simp add: fits_def remote_set_track_def Let_def publication_set_track_def split: option.splits)

lemma update_info_quiet:
  assumes "fits sid enc p" and "pti_sid info = sid" and "pti_encryption info = enc"
    and "ran_state (remote_update_info info p) = (q, evs)"
  shows "fits sid enc q \<and> filter moves_track evs = [] \<and> transceiver_of q = transceiver_of p"
  using assms
  by (auto simp: remote_update_info_def publication_update_info_def fits_def transceiver_of_def Let_def
      track_sid_try_from_def try_from_prefix_def split: sum.splits if_splits)

lemma video_dimensions_quiet:
  assumes p: "fits sid enc p" and r: "ran_state (update_video_dimensions w h p) = (q, evs)"
  shows "fits sid enc q \<and> filter moves_track evs = [] \<and> transceiver_of q = transceiver_of p"
proof (cases "pb_track p = None \<or> (w, h) = pb_dimension p")
  case True
  then show ?thesis using p r by (auto simp: update_video_dimensions_def split: option.splits if_splits)
next
  case False
  let ?info = "(pb_proto_info p)\<lparr>pti_width := w, pti_height := h\<rparr>"
  obtain q' evs' where u: "ran_state (remote_update_info ?info p) = (q', evs')"
    by (cases "ran_state (remote_update_info ?info p)")
  have q': "fits sid enc q' \<and> filter moves_track evs' = [] \<and> transceiver_of q' = transceiver_of p"
    by (rule update_info_quiet [OF p _ _ u]) (use p in \<open>simp_all add: fits_def\<close>)
  show ?thesis using r u q' False
    by (cases "remote_update_info ?info p") (auto simp: update_video_dimensions_def split: option.splits if_splits)
qed

lemma set_subscribed_moves:
  assumes p: "fits sid enc p" and r: "set_subscribed b p = (q, evs)"
  shows "fits sid enc q
    \<and> (if b then filter moves_track evs = [] \<and> transceiver_of q = transceiver_of p
       else filter moves_track evs = came_and_went (pb_track p) None \<and> transceiver_of q = None)"
proof (cases b)
  case True
  then show ?thesis using p r by (auto simp: set_subscribed_def fits_def transceiver_of_def Let_def)
next
  case False
  let ?p = "p\<lparr>rpb_subscribed := False, rpb_allowed := rpb_allowed p\<rparr>"
  have "fits sid enc ?p" and on: "rpb_on_subscription ?p" using p by (simp_all add: fits_def)
  then have "fits sid enc (fst (remote_set_track None ?p))" by (intro set_track_fits) simp_all
  then show ?thesis using False r set_track_moves(1) [OF on, of None] set_track_moves(2) [of None ?p]
    by (auto simp: set_subscribed_def Let_def split: prod.splits)
qed

text \<open>The calls about a track leave the manager with the cryptor of the new track, or with none.\<close>

lemma told_track:
  fixes lib :: "'k crypto_lib"
  assumes m: "manager_wf m" and p: "fits sid enc p" and q: "fits sid enc q" and e: "enc \<noteq> NoEncryption"
    and old: "cryptor_matches on (pb_track p) (cryptor_for m (identity, sid))"
    and new: "\<And>t. new = Some t \<Longrightarrow> tk_transceiver t \<noteq> None"
    and track: "transceiver_of q = map_option tk_transceiver new"
  defines "m' \<equiv> ran_state (ran_fold (tell_manager lib identity p q) (came_and_went (pb_track p) new) m)"
  shows "manager_wf m' \<and> cryptor_matches on (pb_track q) (cryptor_for m' (identity, sid))"
proof -
  let ?key = "(identity, sid)"
  define gone where "gone = (if pb_track p = None then m else remove_frame_cryptor ?key m)"
  have gone: "manager_wf gone" by (simp add: gone_def m wf_remove)
  have none: "cryptor_for gone ?key = None"
    using old by (cases "pb_track p"; cases "cryptor_for m ?key") (simp_all add: gone_def cryptor_for_remove)
  have m': "m' = (case new of None \<Rightarrow> gone | Some t \<Rightarrow> ran_state (on_track_subscribed lib identity q t gone))"
    using p by (auto simp: m'_def came_and_went_def gone_def on_track_unsubscribed_def fits_def split: option.splits)
  show ?thesis
  proof (cases new)
    case None
    then show ?thesis using m' gone none track by (simp add: transceiver_of_def)
  next
    case (Some t)
    obtain c where c: "tk_transceiver t = Some c" using new [OF Some] by auto
    obtain t' where t': "pb_track q = Some t'" "tk_transceiver t' = Some c"
      using track Some c by (auto simp: transceiver_of_def)
    have "m' = insert_cryptor ?key (setup_cryptor (setup_rtp lib identity (RtpReceiver c) gone)) gone"
      using m' Some c q e manager_wfD(1) [OF gone]
      by (simp add: on_track_subscribed_def attach_def fits_def)
    then show ?thesis using t' gone manager_wfD(2) [OF gone]
      by (simp add: wf_insert cryptor_for_insert setup_cryptor_def setup_rtp_def new_frame_cryptor_def)
  qed
qed

text \<open>The cryptor is right, and the operations that are admitted keep it so.\<close>

definition cryptor_right ::
    "bool \<Rightarrow> participant_identity \<Rightarrow> track_sid \<Rightarrow> encryption_type \<Rightarrow> remote_publication \<times> 'k e2ee_manager \<Rightarrow> bool" where
  "cryptor_right on identity sid enc s \<longleftrightarrow>
     enc \<noteq> NoEncryption \<and> fits sid enc (fst s) \<and> manager_wf (snd s)
     \<and> cryptor_matches on (pb_track (fst s)) (cryptor_for (snd s) (identity, sid))"

lemma cryptor_right_quiet:
  assumes s: "cryptor_right on identity sid enc (p, m)"
    and q: "fits sid enc q \<and> filter moves_track evs = [] \<and> transceiver_of q = transceiver_of p"
  shows "cryptor_right on identity sid enc (q, ran_state (ran_fold (tell_manager lib identity p q) evs m))"
proof -
  have "ran_state (ran_fold (tell_manager lib identity p q) evs m) = m"
    using q by (subst tell_moves) simp
  moreover have "cryptor_matches on (pb_track q) c = cryptor_matches on (pb_track p) c" for c
    using q by (cases "pb_track p"; cases "pb_track q"; cases c) (simp_all add: transceiver_of_def)
  ultimately show ?thesis using s q by (simp add: cryptor_right_def)
qed

lemma cryptor_right_moved:
  assumes s: "cryptor_right on identity sid enc (p, m)" and q: "fits sid enc q"
    and evs: "filter moves_track evs = came_and_went (pb_track p) new"
    and track: "transceiver_of q = map_option tk_transceiver new"
    and new: "\<And>t. new = Some t \<Longrightarrow> tk_transceiver t \<noteq> None"
  shows "cryptor_right on identity sid enc (q, ran_state (ran_fold (tell_manager lib identity p q) evs m))"
  using told_track [OF _ _ q _ _ new track, where on = on and m = m and p = p and identity = identity and lib = lib] s q
  by (subst tell_moves) (simp add: evs cryptor_right_def)

lemma cryptor_right_op:
  assumes s: "cryptor_right on identity sid enc (p, m)" and op: "track_op_ok identity sid enc (Inl op)"
  shows "cryptor_right on identity sid enc (hooked_step lib identity (Inl op) (p, m))"
proof -
  have p: "fits sid enc p" using s by (simp add: cryptor_right_def)
  then have on: "rpb_on_subscription p" by (simp add: fits_def)
  obtain q evs where r: "ran_state (publication_op_run op p) = (q, evs)"
    by (cases "ran_state (publication_op_run op p)")
  have "cryptor_right on identity sid enc (q, ran_state (ran_fold (tell_manager lib identity p q) evs m))"
  proof (cases op)
    case (OpSetTrack new)
    with op have t: "tk_sid t = sid \<and> tk_transceiver t \<noteq> None" if "new = Some t" for t using that by simp
    have "remote_set_track new p = (q, evs)" using r OpSetTrack by simp
    with set_track_moves(1) [OF on, of new] set_track_moves(2) [of new p] set_track_fits [OF p, of new] t
    show ?thesis by (intro cryptor_right_moved [OF s]) auto
  next
    case (OpSetSubscribed b)
    then have "set_subscribed b p = (q, evs)" using r by simp
    from set_subscribed_moves [OF p this] show ?thesis
      by (cases b) (auto intro: cryptor_right_quiet [OF s] cryptor_right_moved [OF s, where new = None])
  next
    case (OpUpdateInfo info)
    with update_info_quiet [OF p, of info q evs] r op show ?thesis
      by (intro cryptor_right_quiet [OF s]) simp
  next
    case (OpSetEnabled b)
    with r p have "fits sid enc q \<and> filter moves_track evs = [] \<and> transceiver_of q = transceiver_of p"
      by (auto simp: set_enabled_def fits_def transceiver_of_def split: option.splits if_splits)
    then show ?thesis by (rule cryptor_right_quiet [OF s])
  next
    case (OpVideoDimensions w h)
    with video_dimensions_quiet [OF p, of w h q evs] r show ?thesis
      by (intro cryptor_right_quiet [OF s]) simp
  qed
  then show ?thesis using r by simp
qed

lemma other_track_keeps_end:
  "other_track key op \<Longrightarrow> map_option fc_end (track_cryptor lib key op cur) = map_option fc_end cur"
proof (cases op)
  case (ClientRequest request)
  have "fc_end (requested key request c) = fc_end c" for c by (cases request) simp_all
  then show ?thesis using ClientRequest by (cases cur) (simp_all add: track_cryptor_def)
qed (auto simp: track_cryptor_def attached_def other_track_def split: option.splits)

lemma other_track_keeps_on:
  assumes "other_track key op" and "\<not> disables key (Inr op)" and "pred_option fc_enabled cur"
  shows "pred_option fc_enabled (track_cryptor lib key op cur)"
proof (cases op)
  case (ClientRequest request)
  have "fc_enabled (requested key request c)" if "fc_enabled c" for c
    using assms(2) that ClientRequest by (cases request) auto
  then show ?thesis using assms(3) ClientRequest by (cases cur) (simp_all add: track_cryptor_def)
qed (use assms in \<open>auto simp: track_cryptor_def attached_def other_track_def split: option.splits if_splits\<close>)

lemma matches_keep:
  assumes "cryptor_matches on t c" and "map_option fc_end c' = map_option fc_end c"
    and "on \<Longrightarrow> pred_option fc_enabled c \<Longrightarrow> pred_option fc_enabled c'"
  shows "cryptor_matches on t c'"
proof (cases c)
  case None
  with assms(1,2) show ?thesis by simp
next
  case (Some a)
  then obtain a' where a': "c' = Some a'" "fc_end a' = fc_end a" using assms(2) by (cases c') auto
  obtain t' where t': "t = Some t'" using assms(1) Some by (cases t) auto
  have "map_option RtpReceiver (tk_transceiver t') = Some (fc_end a)" "on \<longrightarrow> fc_enabled a"
    using assms(1) unfolding t' Some cryptor_matches.simps by blast+
  with assms(3) show ?thesis unfolding t' a'(1) Some a'(2) cryptor_matches.simps by (simp only: option.pred_inject) blast
qed

lemma cryptor_right_other:
  assumes s: "cryptor_right on identity sid enc (p, m)" and op: "other_track (identity, sid) op"
    and keeps: "on \<Longrightarrow> \<not> disables (identity, sid) (Inr op)"
  shows "cryptor_right on identity sid enc (p, e2ee_step lib op m)"
proof -
  let ?key = "(identity, sid)"
  have m: "manager_wf m" using s by (simp add: cryptor_right_def)
  note step = conjunct2 [OF e2ee_step_effect [OF m, of lib op ?key]]
  have ends: "map_option fc_end (cryptor_for (e2ee_step lib op m) ?key) = map_option fc_end (cryptor_for m ?key)"
    using step other_track_keeps_end [OF op] by simp
  have "pred_option fc_enabled (cryptor_for (e2ee_step lib op m) ?key)"
    if on and "pred_option fc_enabled (cryptor_for m ?key)"
    unfolding step by (rule other_track_keeps_on [OF op keeps [OF that(1)] that(2)])
  from matches_keep [OF _ ends this] have "cryptor_matches on (pb_track p) (cryptor_for (e2ee_step lib op m) ?key)"
    using s by (simp add: cryptor_right_def)
  then show ?thesis using s e2ee_step_effect [OF m, of lib op ?key] by (simp add: cryptor_right_def)
qed

interpretation hooked: related_by
  "hooked_step (lib :: 'k crypto_lib) identity"
  "\<lambda>op. track_op_ok identity sid enc op \<and> (on \<longrightarrow> \<not> disables (identity, sid) op)" "cryptor_right on identity sid enc"
  "\<lambda>s s'. cryptor_right on identity sid enc s'"
proof unfold_locales
  fix s :: "remote_publication \<times> 'k e2ee_manager" and op
  assume s: "cryptor_right on identity sid enc s" and op: "track_op_ok identity sid enc op \<and> (on \<longrightarrow> \<not> disables (identity, sid) op)"
  obtain p m where pm: "s = (p, m)" by (cases s)
  show "cryptor_right on identity sid enc (hooked_step lib identity op s)"
  proof (cases op)
    case (Inl a)
    with s op pm show ?thesis by (simp only: cryptor_right_op)
  next
    case (Inr b)
    with s op pm show ?thesis by (simp add: cryptor_right_other)
  qed
qed

lemma cryptor_right_new:
  assumes "remote_publication_new info None auto_subscribe = Some p" and "pti_encryption info \<noteq> NoEncryption"
  shows "cryptor_right on identity (pti_sid info) (pti_encryption info)
    (registered participant_sid p, e2ee_manager_new (Some opts))"
  using assms
  by (auto simp: remote_publication_new_def publication_new_def registered_def cryptor_right_def fits_def
      track_sid_try_from_def try_from_prefix_def publication.defs split: sum.splits if_splits)

section \<open>Properties\<close>

text \<open>
  C26. The manager keeps one cryptor per encrypted track: after any calls of the room and any requests of
  its clients, the cryptor of a track is what that track's own calls make of it, whatever happened to
  the others. It is enabled when it is attached, and then as the last request that addressed it says,
  except that the manager's own switch only ever disables it.
\<close>

theorem cryptors_follow_requests:
  "cryptor_for (fold (e2ee_step lib) ops (e2ee_manager_new (Some opts))) key =
     fold (track_cryptor lib key) ops None"
  by (simp add: conjunct2 [OF run_effect [OF wf_new]])

text \<open>
  C25. The cryptor follows the track of a remote publication: whatever the order of the publication's
  operations, and with other calls of the manager between them, an encrypted track that the publication has
  is decrypted by a cryptor on the receiver of that very track, enabled unless a client's request disabled
  it, and without a track there is no cryptor. It is asked of the operations that a track is set with its own
  sid and a transceiver, that descriptions keep the sid and the encryption of the track, that the other calls
  are not about this track, and that the room is not cleaned up.
\<close>

theorem cryptor_follows_track:
  assumes "remote_publication_new info None auto_subscribe = Some p0"
    and "pti_encryption info \<noteq> NoEncryption"
    and "list_all (track_op_ok identity (pti_sid info) (pti_encryption info)) ops"
    and "fold (hooked_step lib identity) ops
      (registered participant_sid p0, e2ee_manager_new (Some opts)) = (p, m)"
  shows "cryptor_matches (\<forall>op \<in> set ops. \<not> disables (identity, pb_sid p) op)
    (pb_track p) (cryptor_for m (identity, pb_sid p))"
proof -
  let ?on = "\<forall>op \<in> set ops. \<not> disables (identity, pti_sid info) op"
  have "list_all (\<lambda>op. track_op_ok identity (pti_sid info) (pti_encryption info) op
      \<and> (?on \<longrightarrow> \<not> disables (identity, pti_sid info) op)) ops"
    using assms(3) by (auto simp: list_all_iff)
  from hooked.run_good [OF cryptor_right_new [OF assms(1,2)] this, of lib] assms(4)
  have "cryptor_right ?on identity (pti_sid info) (pti_encryption info) (p, m)" by metis
  then show ?thesis by (simp add: cryptor_right_def fits_def)
qed

definition demo_lib :: "unit crypto_lib" where
  "demo_lib =
     \<lparr>cl_first_index = 0, cl_set_shared_key = (\<lambda>_ _ k. k), cl_ratchet_shared_key = (\<lambda>_ k. (None, k)),
      cl_get_shared_key = (\<lambda>_ _. None), cl_set_key = (\<lambda>_ _ _ k. k), cl_ratchet_key = (\<lambda>_ _ k. (None, k)),
      cl_get_key = (\<lambda>_ _ _. None), cl_set_sif_trailer = (\<lambda>_ k. k)\<rparr>"

definition demo_ops :: "(publication_op + e2ee_op) list" where
  "demo_ops =
     [Inl (OpSetTrack (Some ((track_new ''TR_1'' ''mic'' Audio ''rtc'' True)\<lparr>tk_transceiver := Some 7\<rparr>))),
      Inr (ClientRequest (CryptorSetEnabled ''alice'' ''TR_2'' False)),
      Inl (OpSetTrack (Some ((track_new ''TR_1'' ''mic'' Audio ''rtc'' True)\<lparr>tk_transceiver := Some 9\<rparr>)))]"

theorem cryptor_follows_track_witness:
  "\<exists>p m c. fold (hooked_step demo_lib ''alice'') demo_ops p
       = m \<and> cryptor_for (snd m) (''alice'', ''TR_1'') = Some c \<and> fc_end c = RtpReceiver 9 \<and> fc_enabled c"
proof -
  let ?info = "example_track_info\<lparr>pti_encryption := Gcm\<rparr>"
  obtain p0 where p0: "remote_publication_new ?info None True = Some p0"
    by (simp add: remote_publication_new_def publication_new_def example_track_info_def)
  let ?s = "(registered ''PA_1'' p0, e2ee_manager_new (Some (Gcm, ())))"
  obtain p m where run: "fold (hooked_step demo_lib ''alice'') demo_ops ?s = (p, m)"
    by (cases "fold (hooked_step demo_lib ''alice'') demo_ops ?s")
  have ok: "list_all (track_op_ok ''alice'' (pti_sid ?info) (pti_encryption ?info)) demo_ops"
    by (simp add: demo_ops_def example_track_info_def other_track_def track_new_def)
  have final: "pb_sid p = ''TR_1''" "map_option tk_transceiver (pb_track p) = Some (Some 9)"
    using run by (auto simp: demo_ops_def remote_set_track_def Let_def publication_set_track_def track_new_def
        split: prod.splits)
  have "cryptor_matches (\<forall>op \<in> set demo_ops. \<not> disables (''alice'', pb_sid p) op) (pb_track p)
      (cryptor_for m (''alice'', pb_sid p))"
    by (rule cryptor_follows_track [OF p0 _ ok run]) simp
  moreover have "\<forall>op \<in> set demo_ops. \<not> disables (''alice'', pb_sid p) op"
    using final(1) by (simp add: demo_ops_def addressed_def track_sid_try_from_def try_from_prefix_def TRACK_PREFIX_def starts_with_def)
  ultimately obtain c where "cryptor_for m (''alice'', ''TR_1'') = Some c" "fc_end c = RtpReceiver 9" "fc_enabled c"
    using final by (cases "pb_track p"; cases "cryptor_for m (''alice'', pb_sid p)") auto
  with run show ?thesis by (intro exI [of _ ?s] exI [of _ "(p, m)"] exI [of _ c]) simp
qed

end
