(* ===== verification/Floats.thy ===== *)
theory Floats
  imports LkPrelude Complex_Main
begin

text \<open>
  The floating-point numbers of the sources. A value is a rational, an infinity or not a number;
  \<open>f32\<close> and \<open>f64\<close> differ in the precision, 24 and 53 bits, that a result is rounded to, to the nearest
  and, half way, to the even one. The code only computes numbers far inside the range of its type, so
  no result overflows or is subnormal, and the sign of zero is not represented: nothing divides by a
  zero that could be negative.
\<close>

section \<open>Rounding\<close>

fun bits :: "nat \<Rightarrow> nat" where
  "bits n = (if n = 0 then 0 else Suc (bits (n div 2)))"

declare bits.simps [simp del]

text \<open>The exponent of a positive number: the power of two just below it.\<close>

definition exponent :: "rat \<Rightarrow> int" where
  "exponent q =
     (case quotient_of q of (n, d) \<Rightarrow>
        let k = int (bits (nat n)) - int (bits (nat d)) in if q < 2 powi k then k - 1 else k)"

definition round_half_even :: "rat \<Rightarrow> int" where
  "round_half_even q =
     (let n = \<lfloor>q\<rfloor>; r = q - of_int n in
      if r < 1 / 2 then n else if 1 / 2 < r then n + 1 else if even n then n else n + 1)"

definition ulp :: "nat \<Rightarrow> rat \<Rightarrow> rat" where
  "ulp p q = 2 powi (exponent q - int p + 1)"

definition round_to :: "nat \<Rightarrow> rat \<Rightarrow> rat" where
  "round_to p q =
     (if q = 0 then 0
      else sgn q * (of_int (round_half_even (\<bar>q\<bar> / ulp p \<bar>q\<bar>)) * ulp p \<bar>q\<bar>))"

section \<open>Values and operations\<close>

datatype (plugins only: code size) flt = Finite rat | PosInf | NegInf | NotANumber

definition of_unsigned :: "nat \<Rightarrow> 'a::len word \<Rightarrow> flt" where
  "of_unsigned p w = Finite (round_to p (of_nat (unat w)))"

fun flt_neg :: "flt \<Rightarrow> flt" where
  "flt_neg (Finite a) = Finite (- a)"
| "flt_neg PosInf = NegInf"
| "flt_neg NegInf = PosInf"
| "flt_neg NotANumber = NotANumber"

fun flt_abs :: "flt \<Rightarrow> flt" where
  "flt_abs (Finite a) = Finite \<bar>a\<bar>"
| "flt_abs NotANumber = NotANumber"
| "flt_abs _ = PosInf"

fun flt_div :: "nat \<Rightarrow> flt \<Rightarrow> flt \<Rightarrow> flt" where
  "flt_div p (Finite a) (Finite b) =
     (if b = 0 then (if a = 0 then NotANumber else if 0 < a then PosInf else NegInf)
      else Finite (round_to p (a / b)))"
| "flt_div p PosInf (Finite b) = (if b < 0 then NegInf else PosInf)"
| "flt_div p NegInf (Finite b) = (if b < 0 then PosInf else NegInf)"
| "flt_div p (Finite _) PosInf = Finite 0"
| "flt_div p (Finite _) NegInf = Finite 0"
| "flt_div p _ _ = NotANumber"

fun flt_sub :: "nat \<Rightarrow> flt \<Rightarrow> flt \<Rightarrow> flt" where
  "flt_sub p (Finite a) (Finite b) = Finite (round_to p (a - b))"
| "flt_sub p PosInf (Finite _) = PosInf"
| "flt_sub p NegInf (Finite _) = NegInf"
| "flt_sub p (Finite _) PosInf = NegInf"
| "flt_sub p (Finite _) NegInf = PosInf"
| "flt_sub p PosInf NegInf = PosInf"
| "flt_sub p NegInf PosInf = NegInf"
| "flt_sub p _ _ = NotANumber"

text \<open>The code multiplies finite numbers only.\<close>

fun flt_mul :: "nat \<Rightarrow> flt \<Rightarrow> flt \<Rightarrow> flt" where
  "flt_mul p (Finite a) (Finite b) = Finite (round_to p (a * b))"
| "flt_mul p _ _ = NotANumber"

fun flt_less :: "flt \<Rightarrow> flt \<Rightarrow> bool" where
  "flt_less (Finite a) (Finite b) \<longleftrightarrow> a < b"
| "flt_less NegInf (Finite _) \<longleftrightarrow> True"
| "flt_less NegInf PosInf \<longleftrightarrow> True"
| "flt_less (Finite _) PosInf \<longleftrightarrow> True"
| "flt_less _ _ \<longleftrightarrow> False"

text \<open>\<open>f64::max\<close> ignores an operand that is not a number.\<close>

definition flt_max :: "flt \<Rightarrow> flt \<Rightarrow> flt" where
  "flt_max a b =
     (if a = NotANumber then b else if b = NotANumber then a else if flt_less a b then b else a)"

text \<open>A cast to an unsigned type saturates.\<close>

definition saturate :: "int \<Rightarrow> 'a::len word" where
  "saturate i = word_of_int (max 0 (min i (2 ^ LENGTH('a) - 1)))"

fun to_unsigned :: "flt \<Rightarrow> 'a::len word" where
  "to_unsigned (Finite q) = saturate \<lfloor>q\<rfloor>"
| "to_unsigned PosInf = - 1"
| "to_unsigned _ = 0"

section \<open>Rounding errors\<close>

lemma bits_bounds: "0 < n \<Longrightarrow> 0 < bits n \<and> 2 ^ (bits n - 1) \<le> n \<and> n < 2 ^ bits n"
proof (induction n rule: bits.induct)
  case (1 n)
  show ?case
  proof (cases "n div 2 = 0")
    case True
    with 1 have "n = 1" by simp
    then show ?thesis by (simp add: bits.simps)
  next
    case False
    with 1 have ih: "0 < bits (n div 2)" "2 ^ (bits (n div 2) - 1) \<le> n div 2" "n div 2 < 2 ^ bits (n div 2)" by auto
    have b: "bits n = Suc (bits (n div 2))" using 1 by (subst bits.simps) simp
    have "(2 :: nat) ^ bits (n div 2) = 2 * 2 ^ (bits (n div 2) - 1)" using ih(1) by (cases "bits (n div 2)") simp_all
    moreover have "2 * x \<le> n" if "x \<le> n div 2" for x using that by linarith
    moreover have "n < 4 * x" if "n div 2 < 2 * x" for x using that by linarith
    ultimately show ?thesis using ih b by simp
  qed
qed

lemma powi_nat: "(2 :: rat) powi int n = 2 ^ n"
  by (simp add: power_int_def)

lemma powi_pos [simp]: "0 < (2 :: rat) powi k"
  by (simp add: power_int_def)

lemma powi_add: "(2 :: rat) powi (a + b) = 2 powi a * 2 powi b"
  by (simp add: power_int_add)

lemma exponent_bounds:
  assumes "0 < q"
  shows "2 powi exponent q \<le> q" and "q < 2 powi (exponent q + 1)"
proof -
  obtain n d where nd: "quotient_of q = (n, d)" by (cases "quotient_of q")
  have d: "0 < d" using nd by (rule quotient_of_denom_pos)
  have q: "q = of_int n / of_int d" using nd by (rule quotient_of_div)
  have n: "0 < n" using assms d by (simp add: q zero_less_divide_iff)
  let ?a = "bits (nat n)" and ?b = "bits (nat d)"
  let ?k = "int ?a - int ?b"
  have a: "0 < ?a" "2 ^ (?a - 1) \<le> nat n" "nat n < 2 ^ ?a" and b: "0 < ?b" "2 ^ (?b - 1) \<le> nat d" "nat d < 2 ^ ?b"
    using bits_bounds [of "nat n"] bits_bounds [of "nat d"] n d by simp_all
  have rn: "of_int n = (of_nat (nat n) :: rat)" and rd: "of_int d = (of_nat (nat d) :: rat)"
    using n d by simp_all
  have n1: "(2 :: rat) ^ (?a - 1) \<le> of_int n" "of_int n < (2 :: rat) ^ ?a"
    unfolding rn using a by (metis of_nat_le_iff of_nat_less_iff of_nat_numeral of_nat_power)+
  have d1: "(2 :: rat) ^ (?b - 1) \<le> of_int d" "of_int d < (2 :: rat) ^ ?b"
    unfolding rd using b by (metis of_nat_le_iff of_nat_less_iff of_nat_numeral of_nat_power)+
  have two: "(2 :: rat) ^ ?a = 2 * 2 ^ (?a - 1)" "(2 :: rat) ^ ?b = 2 * 2 ^ (?b - 1)"
    using a(1) b(1) by (cases ?a; cases ?b; simp)+
  have k: "(2 :: rat) powi ?k = 2 ^ ?a / 2 ^ ?b" by (simp add: power_int_diff)
  have k1: "(2 :: rat) powi (?k - 1) = 2 ^ ?a / 2 ^ ?b / 2" "(2 :: rat) powi (?k + 1) = 2 ^ ?a / 2 ^ ?b * 2"
    by (simp_all add: power_int_diff power_int_add)
  have dpos: "0 < (of_int d :: rat)" using d by simp
  have up: "q < 2 powi (?k + 1)"
  proof -
    have "q < 2 ^ ?a / of_int d" unfolding q using n1(2) dpos by (intro divide_strict_right_mono)
    also have "\<dots> \<le> 2 ^ ?a / 2 ^ (?b - 1)" using d1(1) dpos by (intro divide_left_mono) auto
    finally show ?thesis by (simp add: k1 two mult.commute)
  qed
  have low: "2 powi (?k - 1) \<le> q"
  proof -
    have "(2 :: rat) powi (?k - 1) = 2 ^ (?a - 1) / 2 ^ ?b" by (simp add: k1 two)
    also have "\<dots> \<le> 2 ^ (?a - 1) / of_int d" using d1(2) dpos by (intro divide_left_mono) auto
    also have "\<dots> \<le> q" unfolding q using n1(1) dpos by (intro divide_right_mono) auto
    finally show ?thesis .
  qed
  have "exponent q = (if q < 2 powi ?k then ?k - 1 else ?k)" by (simp add: exponent_def nd)
  then show "2 powi exponent q \<le> q" "q < 2 powi (exponent q + 1)" using up low by auto
qed

lemma round_half_even_error: "\<bar>of_int (round_half_even q) - q\<bar> \<le> 1 / 2"
proof -
  have "of_int \<lfloor>q\<rfloor> \<le> q" "q < of_int \<lfloor>q\<rfloor> + 1" by linarith+
  then show ?thesis by (auto simp: round_half_even_def Let_def abs_le_iff)
qed

lemma round_half_even_int [simp]: "round_half_even (of_int i) = i"
  by (simp add: round_half_even_def)

lemma round_to_0 [simp]: "round_to p 0 = 0"
  by (simp add: round_to_def)

lemma round_error:
  assumes "0 < q"
  shows "\<bar>round_to p q - q\<bar> \<le> q / 2 ^ p"
proof -
  let ?u = "ulp p q"
  have u: "0 < ?u" by (simp add: ulp_def)
  have r: "round_to p q = of_int (round_half_even (q / ?u)) * ?u" using assms by (simp add: round_to_def)
  have "round_to p q - q = (of_int (round_half_even (q / ?u)) - q / ?u) * ?u"
    using u by (simp add: r algebra_simps)
  then have "\<bar>round_to p q - q\<bar> \<le> 1 / 2 * ?u"
    using round_half_even_error [of "q / ?u"] u by (simp add: abs_mult mult_right_mono)
  also have "?u = 2 powi exponent q * 2 / 2 ^ p"
    by (simp add: ulp_def power_int_diff power_int_add powi_nat)
  also have "1 / 2 * \<dots> = 2 powi exponent q / 2 ^ p" by simp
  also have "\<dots> \<le> q / 2 ^ p" using exponent_bounds(1) [OF assms] by (intro divide_right_mono) auto
  finally show ?thesis .
qed

lemma round_to_minus: "round_to p (- q) = - round_to p q"
  by (simp add: round_to_def sgn_if)

lemma round_to_abs: "\<bar>round_to p q\<bar> = round_to p \<bar>q\<bar>"
proof -
  have pos: "0 \<le> round_to p r" if "0 < r" for r
  proof -
    have u: "0 < ulp p r" by (simp add: ulp_def)
    have "0 \<le> round_half_even (r / ulp p r)"
      using that u by (auto simp: round_half_even_def Let_def)
    with that u show ?thesis by (simp add: round_to_def)
  qed
  show ?thesis
    using pos [of q] pos [of "- q"] by (cases q "0 :: rat" rule: linorder_cases) (simp_all add: round_to_minus)
qed

lemma round_abs_error: "\<bar>round_to p \<bar>q\<bar> - \<bar>q\<bar>\<bar> \<le> \<bar>q\<bar> / 2 ^ p"
  by (cases "q = 0") (simp_all add: round_error)

text \<open>Whole numbers that fit are not rounded.\<close>

lemma round_to_nat:
  assumes "n < 2 ^ p"
  shows "round_to p (of_nat n) = of_nat n"
proof (cases "n = 0")
  case False
  then have pos: "0 < (of_nat n :: rat)" by simp
  let ?e = "exponent (of_nat n)"
  have "2 powi ?e \<le> (of_nat n :: rat)" using exponent_bounds(1) [OF pos] .
  also have "\<dots> < 2 ^ p" using assms by (metis of_nat_less_iff of_nat_numeral of_nat_power)
  finally have "(2 :: rat) powi ?e < 2 powi int p" by (simp add: powi_nat)
  then have "\<not> int p \<le> ?e" using power_int_increasing [of "int p" ?e "2 :: rat"] by auto
  then obtain k where k: "int p - 1 - ?e = int k" by (metis zero_le_imp_eq_int diff_ge_0_iff_ge not_le zle_diff1_eq)
  have "ulp p (of_nat n) = 2 powi - int k" using k by (simp add: ulp_def algebra_simps)
  then have u: "ulp p (of_nat n) = 1 / 2 ^ k" by (simp add: power_int_minus powi_nat field_simps)
  have "(of_nat n :: rat) / ulp p (of_nat n) = of_int (int n * 2 ^ k)" by (simp add: u)
  then have "round_half_even (of_nat n / ulp p (of_nat n)) = int n * 2 ^ k"
    using round_half_even_int by metis
  then show ?thesis using pos by (simp add: round_to_def) (simp add: u)
qed simp

end
