(* ===== verification/PublishOptions.thy ===== *)
theory PublishOptions
  imports Floats Participant Session
begin

text \<open>
  How a local track is published (\<open>livekit/src/room/options.rs\<close>, and \<open>publish_track\<close> of
  \<open>livekit/src/room/participant/local_participant.rs\<close> up to its request): the encodings that WebRTC is
  asked for, computed from the size of the video and the presets, and the layers that the server is told.

  The fields of an encoding that the code leaves at the default of libwebrtc are not represented.
\<close>

section \<open>Presets\<close>

record video_encoding =
  ve_max_bitrate :: u64
  ve_max_framerate :: flt

record video_preset =
  vp_width :: u32
  vp_height :: u32
  vp_encoding :: video_encoding

definition preset :: "u32 \<Rightarrow> u32 \<Rightarrow> u64 \<Rightarrow> rat \<Rightarrow> video_preset" where
  "preset width height max_bitrate max_framerate =
     \<lparr>vp_width = width, vp_height = height,
      vp_encoding = \<lparr>ve_max_bitrate = max_bitrate, ve_max_framerate = Finite max_framerate\<rparr>\<rparr>"

definition video_presets :: "video_preset list" where
  "video_presets =
     [preset 160 90 90000 15, preset 320 180 160000 15, preset 384 216 180000 15,
      preset 640 360 450000 20, preset 960 540 800000 25, preset 1280 720 1700000 30,
      preset 1920 1080 3000000 30, preset 2560 1440 5000000 30, preset 3840 2160 8000000 30]"

definition video_simulcast_presets :: "video_preset list" where
  "video_simulcast_presets = [preset 320 180 160000 15, preset 640 360 450000 20]"

definition video43_presets :: "video_preset list" where
  "video43_presets =
     [preset 160 120 80000 15, preset 240 180 100000 15, preset 320 240 150000 15,
      preset 480 360 225000 20, preset 640 480 300000 20, preset 720 540 450000 25,
      preset 960 720 1500000 30, preset 1440 1080 2500000 30, preset 1920 1440 3500000 30]"

definition video43_simulcast_presets :: "video_preset list" where
  "video43_simulcast_presets = [preset 240 180 100000 15, preset 480 360 225000 20]"

definition screenshare_presets :: "video_preset list" where
  "screenshare_presets =
     [preset 640 360 200000 3, preset 1280 720 400000 5, preset 1280 720 1000000 15,
      preset 1920 1080 1500000 15, preset 1920 1080 3000000 30]"

definition MUSIC :: u64 where
  "MUSIC = 48000"

record publish_options =
  po_video_encoding :: "video_encoding option"
  po_audio_encoding :: "u64 option"
  po_video_codec :: video_codec
  po_dtx :: bool
  po_red :: bool
  po_simulcast :: bool
  po_source :: track_source
  po_stream :: string
  po_preconnect_buffer :: bool

definition default_options :: publish_options where
  "default_options =
     \<lparr>po_video_encoding = None, po_audio_encoding = None, po_video_codec = VP8, po_dtx = True,
      po_red = True, po_simulcast = True, po_source = UnknownSource, po_stream = [],
      po_preconnect_buffer = False\<rparr>"

section \<open>The encoding for a size\<close>

definition landscape_aspect_ratio :: "u32 \<Rightarrow> u32 \<Rightarrow> flt" where
  "landscape_aspect_ratio width height =
     (if height < width then flt_div 24 (of_unsigned 24 width) (of_unsigned 24 height)
      else flt_div 24 (of_unsigned 24 height) (of_unsigned 24 width))"

definition wide :: "u32 \<Rightarrow> u32 \<Rightarrow> bool" where
  "wide width height =
     (let ar = landscape_aspect_ratio width height in
      flt_less (flt_abs (flt_sub 24 ar (flt_div 24 (Finite 16) (Finite 9))))
               (flt_abs (flt_sub 24 ar (flt_div 24 (Finite 4) (Finite 3)))))"

definition compute_presets_for_resolution :: "bool \<Rightarrow> u32 \<Rightarrow> u32 \<Rightarrow> video_preset list" where
  "compute_presets_for_resolution is_screenshare width height =
     (if is_screenshare then screenshare_presets
      else if wide width height then video_presets else video43_presets)"

text \<open>The loop leaves the encoding of the first preset wider than the video, or of the last preset.\<close>

fun fitting_encoding :: "u32 \<Rightarrow> video_preset list \<Rightarrow> video_encoding \<Rightarrow> video_encoding" where
  "fitting_encoding width [] encoding = encoding"
| "fitting_encoding width (p # ps) encoding =
     (if width < vp_width p then vp_encoding p else fitting_encoding width ps (vp_encoding p))"

definition codec_bitrate :: "video_codec \<Rightarrow> u64 \<Rightarrow> u64" where
  "codec_bitrate codec bitrate =
     (case codec of
        VP9 \<Rightarrow> to_unsigned (flt_mul 24 (of_unsigned 24 bitrate) (Finite (round_to 24 (85 / 100))))
      | AV1 \<Rightarrow> to_unsigned (flt_mul 24 (of_unsigned 24 bitrate) (Finite (round_to 24 (7 / 10))))
      | _ \<Rightarrow> bitrate)"

definition compute_appropriate_encoding :: "bool \<Rightarrow> u32 \<Rightarrow> u32 \<Rightarrow> video_codec \<Rightarrow> video_encoding" where
  "compute_appropriate_encoding is_screenshare width height codec =
     (let presets = compute_presets_for_resolution is_screenshare width height;
          encoding = fitting_encoding (max width height) presets (vp_encoding (hd presets))
      in encoding\<lparr>ve_max_bitrate := codec_bitrate codec (ve_max_bitrate encoding)\<rparr>)"

section \<open>Simulcast\<close>

text \<open>The layer below a screen share; the division of the bitrate panics on a divisor of zero.\<close>

definition framerate_steps :: "flt \<Rightarrow> u64" where
  "framerate_steps framerate = 4 * to_unsigned (flt_div 53 framerate (Finite 3))"

definition compute_default_simulcast_preset :: "video_preset \<Rightarrow> video_preset option" where
  "compute_default_simulcast_preset initial =
     (let divisor = framerate_steps (ve_max_framerate (vp_encoding initial)) in
      if divisor = 0 then None
      else Some (preset (vp_width initial div 2) (vp_height initial div 2)
             (max 150000 (ve_max_bitrate (vp_encoding initial) div divisor)) 3))"

definition compute_default_simulcast_presets :: "bool \<Rightarrow> video_preset \<Rightarrow> video_preset list option" where
  "compute_default_simulcast_presets is_screenshare initial =
     (if is_screenshare then map_option (\<lambda>p. [p]) (compute_default_simulcast_preset initial)
      else if wide (vp_width initial) (vp_height initial) then Some video_simulcast_presets
      else Some video43_simulcast_presets)"

record rtp_encoding =
  re_rid :: string
  re_scale_down_by :: "flt option"
  re_max_bitrate :: "u64 option"
  re_max_framerate :: "flt option"

definition VIDEO_RIDS :: "string list" where
  "VIDEO_RIDS = [''q'', ''h'', ''f'']"

definition scale_down :: "u32 \<Rightarrow> video_preset \<Rightarrow> flt" where
  "scale_down side p =
     flt_max (Finite 1)
       (flt_div 53 (Finite (of_nat (unat side))) (Finite (of_nat (unat (min (vp_width p) (vp_height p))))))"

definition into_rtp_encodings :: "u32 \<Rightarrow> u32 \<Rightarrow> video_preset list \<Rightarrow> rtp_encoding list" where
  "into_rtp_encodings initial_width initial_height presets =
     rev (map (\<lambda>(i, p).
            \<lparr>re_rid = VIDEO_RIDS ! i,
             re_scale_down_by = Some (scale_down (min initial_width initial_height) p),
             re_max_bitrate = Some (ve_max_bitrate (vp_encoding p)),
             re_max_framerate = Some (ve_max_framerate (vp_encoding p))\<rparr>)
       (List.enumerate 0 presets))"

text \<open>\<open>compute_video_encodings\<close>; the presets are taken from the end of the default ones.\<close>

definition chosen_presets :: "u32 \<Rightarrow> u32 \<Rightarrow> video_preset \<Rightarrow> video_preset list \<Rightarrow> video_preset list" where
  "chosen_presets width height initial simulcast_presets =
     (let mid = last simulcast_presets;
          longest = max width height
      in if 960 \<le> longest \<and> butlast simulcast_presets \<noteq> []
         then [last (butlast simulcast_presets), mid, initial]
         else if 480 \<le> longest then [mid, initial]
         else [initial])"

definition initial_preset :: "u32 \<Rightarrow> u32 \<Rightarrow> publish_options \<Rightarrow> video_preset" where
  "initial_preset width height options =
     \<lparr>vp_width = width, vp_height = height,
      vp_encoding =
        (case po_video_encoding options of
           Some encoding \<Rightarrow> encoding
         | None \<Rightarrow> compute_appropriate_encoding (po_source options = Screenshare) width height
                    (po_video_codec options))\<rparr>"

definition compute_video_encodings :: "u32 \<Rightarrow> u32 \<Rightarrow> publish_options \<Rightarrow> rtp_encoding list option" where
  "compute_video_encodings width height options =
     (let initial = initial_preset width height options in
      if \<not> po_simulcast options then Some (into_rtp_encodings width height [initial])
      else map_option (\<lambda>presets. into_rtp_encodings width height (chosen_presets width height initial presets))
             (compute_default_simulcast_presets (po_source options = Screenshare) initial))"

section \<open>Layers\<close>

datatype (plugins only: code size) video_quality = LowQuality | MediumQuality | HighQuality | OffQuality

record video_layer =
  vl_quality :: video_quality
  vl_width :: u32
  vl_height :: u32
  vl_bitrate :: u32

definition video_quality_for_rid :: "string \<Rightarrow> video_quality option" where
  "video_quality_for_rid rid =
     (if rid = ''f'' then Some HighQuality
      else if rid = ''h'' then Some MediumQuality
      else if rid = ''q'' then Some LowQuality
      else None)"

definition scaled :: "u32 \<Rightarrow> flt \<Rightarrow> u32" where
  "scaled side scale = to_unsigned (flt_div 53 (Finite (of_nat (unat side))) scale)"

definition video_layers_from_encodings :: "u32 \<Rightarrow> u32 \<Rightarrow> rtp_encoding list \<Rightarrow> video_layer list" where
  "video_layers_from_encodings width height encodings =
     (if encodings = [] then
        [\<lparr>vl_quality = HighQuality, vl_width = width, vl_height = height, vl_bitrate = 0\<rparr>]
      else map (\<lambda>encoding.
        let scale = unwrap_or (Finite 1) (re_scale_down_by encoding) in
        \<lparr>vl_quality = unwrap_or HighQuality (video_quality_for_rid (re_rid encoding)),
         vl_width = scaled width scale, vl_height = scaled height scale,
         vl_bitrate = ucast (unwrap_or 0 (re_max_bitrate encoding))\<rparr>) encodings)"

section \<open>The request\<close>

text \<open>The request of \<open>publish_track\<close>, as far as the options determine it; a video comes with its size.\<close>

record publish_request =
  pr_type :: track_kind
  pr_source :: track_source
  pr_disable_dtx :: bool
  pr_disable_red :: bool
  pr_encryption :: encryption_type
  pr_stream :: string
  pr_preconnect_buffer :: bool
  pr_width :: u32
  pr_height :: u32
  pr_layers :: "video_layer list"

definition publish_track_request ::
    "encryption_type \<Rightarrow> (u32 \<times> u32) option \<Rightarrow> publish_options \<Rightarrow> (publish_request \<times> rtp_encoding list) option" where
  "publish_track_request encryption video options =
     (let req = \<lparr>pr_type = (if video = None then Audio else Video), pr_source = po_source options,
                 pr_disable_dtx = (\<not> po_dtx options),
                 pr_disable_red = (encryption \<noteq> NoEncryption \<or> \<not> po_red options),
                 pr_encryption = encryption, pr_stream = po_stream options,
                 pr_preconnect_buffer = po_preconnect_buffer options,
                 pr_width = 0, pr_height = 0, pr_layers = []\<rparr>
      in case video of
           None \<Rightarrow>
             Some (req, [\<lparr>re_rid = [], re_scale_down_by = None,
                         re_max_bitrate = Some (unwrap_or MUSIC (po_audio_encoding options)),
                         re_max_framerate = None\<rparr>])
         | Some (width, height) \<Rightarrow>
             map_option (\<lambda>encodings.
                 (req\<lparr>pr_width := width, pr_height := height,
                      pr_layers := video_layers_from_encodings width height encodings\<rparr>, encodings))
               (compute_video_encodings width height options))"

section \<open>Constants\<close>

lemma ratio_16_9: "flt_div 24 (Finite 16) (Finite 9) = Finite (14913081 / 8388608)"
  by code_simp

lemma ratio_4_3: "flt_div 24 (Finite 4) (Finite 3) = Finite (11184811 / 8388608)"
  by code_simp

lemma third_steps [simp]:
  "framerate_steps (Finite 3) = 4" "framerate_steps (Finite 5) = 4"
  "framerate_steps (Finite 15) = 20" "framerate_steps (Finite 30) = 40"
proof -
  have "round_to 53 1 = 1" "\<lfloor>round_to 53 (5 / 3)\<rfloor> = 1" "round_to 53 5 = 5" "round_to 53 10 = 10"
    by code_simp+
  then show "framerate_steps (Finite 3) = 4" "framerate_steps (Finite 5) = 4"
    "framerate_steps (Finite 15) = 20" "framerate_steps (Finite 30) = 40"
    by (simp_all add: framerate_steps_def saturate_def)
qed

section \<open>Encodings\<close>

lemma fitting_encoding_from:
  "fitting_encoding width ps encoding \<in> insert encoding (vp_encoding ` set ps)"
  by (induction ps arbitrary: encoding) auto

text \<open>The presets of a screen share have framerates whose steps are not zero.\<close>

lemma screenshare_steps:
  assumes "po_source options = Screenshare" and "po_video_encoding options = None"
  shows "framerate_steps (ve_max_framerate (vp_encoding (initial_preset width height options))) \<noteq> 0"
proof -
  let ?e = "fitting_encoding (max width height) screenshare_presets (vp_encoding (hd screenshare_presets))"
  have "?e \<in> vp_encoding ` set screenshare_presets"
    using fitting_encoding_from [of "max width height" screenshare_presets "vp_encoding (hd screenshare_presets)"]
    by (simp add: screenshare_presets_def)
  then have "framerate_steps (ve_max_framerate ?e) \<noteq> 0"
    by (auto simp: screenshare_presets_def preset_def)
  then show ?thesis
    using assms by (simp add: initial_preset_def compute_appropriate_encoding_def
        compute_presets_for_resolution_def Let_def)
qed

text \<open>The encodings that panic: a simulcast screen share whose own framerate leaves a divisor of zero.\<close>

definition no_divisor :: "publish_options \<Rightarrow> bool" where
  "no_divisor options \<longleftrightarrow>
     po_simulcast options \<and> po_source options = Screenshare
     \<and> (case po_video_encoding options of None \<Rightarrow> False
        | Some encoding \<Rightarrow> framerate_steps (ve_max_framerate encoding) = 0)"

definition layer_count :: "u32 \<Rightarrow> u32 \<Rightarrow> publish_options \<Rightarrow> nat" where
  "layer_count width height options =
     (if po_simulcast options \<and> 480 \<le> max width height
      then (if po_source options \<noteq> Screenshare \<and> 960 \<le> max width height then 3 else 2) else 1)"

lemma chosen_length:
  assumes "ps = (if po_source options = Screenshare then [a] else [b, c])" and "po_simulcast options"
  shows "length (chosen_presets width height initial ps) = layer_count width height options"
    and "last (chosen_presets width height initial ps) = initial"
proof -
  have "480 \<le> longest" if "960 \<le> longest" for longest :: u32
    using that by (rule order_trans [rotated]) simp
  then show "length (chosen_presets width height initial ps) = layer_count width height options"
    "last (chosen_presets width height initial ps) = initial"
    using assms by (auto simp: chosen_presets_def layer_count_def Let_def)
qed

lemma default_presets_shape:
  "compute_default_simulcast_presets (po_source options = Screenshare) initial = Some ps \<Longrightarrow>
     \<exists>a b c. ps = (if po_source options = Screenshare then [a] else [b, c])"
  by (auto simp: compute_default_simulcast_presets_def video_simulcast_presets_def
      video43_simulcast_presets_def split: if_splits)

text \<open>
  The result: a panic for a slow screen share, and else the encodings of as many presets as there are
  layers, the last of which is the track's own.
\<close>

lemma encodings_shape:
  "case compute_video_encodings width height options of
     None \<Rightarrow> no_divisor options
   | Some encodings \<Rightarrow> \<not> no_divisor options \<and>
       (\<exists>ps. encodings = into_rtp_encodings width height (ps @ [initial_preset width height options])
          \<and> Suc (length ps) = layer_count width height options)"
proof -
  let ?initial = "initial_preset width height options"
  let ?screen = "po_source options = Screenshare"
  consider (single) "\<not> po_simulcast options"
    | (layers) ps where "po_simulcast options" "compute_default_simulcast_presets ?screen ?initial = Some ps"
    | (panic) "po_simulcast options" "compute_default_simulcast_presets ?screen ?initial = None"
    by fastforce
  then show ?thesis
  proof cases
    case single
    then show ?thesis
      by (auto simp: compute_video_encodings_def Let_def no_divisor_def layer_count_def intro: exI [of _ "[]"])
  next
    case layers
    obtain a b c where ps: "ps = (if ?screen then [a] else [b, c])"
      using default_presets_shape [OF layers(2)] by auto
    let ?chosen = "chosen_presets width height ?initial ps"
    have n: "length ?chosen = layer_count width height options" "last ?chosen = ?initial"
      using chosen_length [OF ps layers(1)] by auto
    then have "?chosen \<noteq> []" by (auto simp: layer_count_def split: if_splits)
    then have "?chosen = butlast ?chosen @ [?initial]" "Suc (length (butlast ?chosen)) = layer_count width height options"
      using n by (metis append_butlast_last_id, metis length_append_singleton append_butlast_last_id)
    moreover have "\<not> no_divisor options"
      using layers by (auto simp: no_divisor_def compute_default_simulcast_presets_def
          compute_default_simulcast_preset_def initial_preset_def Let_def split: option.splits if_splits)
    moreover have "compute_video_encodings width height options = Some (into_rtp_encodings width height ?chosen)"
      using layers by (simp add: compute_video_encodings_def Let_def)
    ultimately show ?thesis by (auto intro!: exI [of _ "butlast ?chosen"])
  next
    case panic
    then have screen: "?screen" by (auto simp: compute_default_simulcast_presets_def split: if_splits)
    then have "framerate_steps (ve_max_framerate (vp_encoding ?initial)) = 0"
      using panic(2) by (auto simp: compute_default_simulcast_presets_def compute_default_simulcast_preset_def
          Let_def split: if_splits)
    then have "no_divisor options"
      using panic(1) screen screenshare_steps [OF screen]
      by (cases "po_video_encoding options") (auto simp: no_divisor_def initial_preset_def)
    then show ?thesis using panic by (simp add: compute_video_encodings_def Let_def)
  qed
qed

section \<open>Layer sizes\<close>

fun scales_down :: "flt \<Rightarrow> bool" where
  "scales_down (Finite q) \<longleftrightarrow> 1 \<le> q"
| "scales_down x \<longleftrightarrow> x = PosInf"

lemma scale_down_ok: "scales_down (scale_down side p)"
  by (auto simp: scale_down_def flt_max_def not_less)

lemma uint_saturate: "0 \<le> i \<Longrightarrow> i < 2 ^ LENGTH('a) \<Longrightarrow> uint (saturate i :: 'a::len word) = i"
  by (simp add: saturate_def uint_word_of_int)

lemma saturate_le: "i \<le> uint w \<Longrightarrow> saturate i \<le> (w :: 'a::len word)"
proof -
  assume i: "i \<le> uint w"
  have w: "uint w < 2 ^ LENGTH('a)" by (rule uint_lt2p)
  let ?j = "max 0 (min i (2 ^ LENGTH('a) - 1))"
  have j: "0 \<le> ?j" "?j \<le> uint w" "?j < 2 ^ LENGTH('a)" using i w by auto
  then have "uint (word_of_int ?j :: 'a word) = ?j" by (simp add: uint_word_of_int)
  then show ?thesis using j by (simp add: saturate_def word_le_def)
qed

lemma small_u32: "of_nat (unat (w :: u32)) \<le> (2 :: rat) ^ 32"
proof -
  have "unat w < 2 ^ 32" using unsigned_less [of w, where ?'a = nat] by simp
  then have "unat w \<le> 2 ^ 32" by (rule less_imp_le)
  then have "(of_nat (unat w) :: rat) \<le> of_nat (2 ^ 32)" by (rule of_nat_mono)
  then show ?thesis by simp
qed

lemma scaled_le:
  assumes "scales_down scale"
  shows "scaled side scale \<le> side"
proof (cases scale)
  case (Finite q)
  with assms have q: "1 \<le> q" by simp
  let ?a = "of_nat (unat side) :: rat"
  have a: "0 \<le> ?a" "?a \<le> 2 ^ 32" by (rule of_nat_0_le_iff, rule small_u32)
  have le: "?a / q \<le> ?a" using q a(1) mult_left_mono [OF q a(1)] by (simp add: divide_le_eq)
  have "round_to 53 (?a / q) < ?a + 1"
  proof (cases "?a / q = 0")
    case False
    then have pos: "0 < ?a / q" using q a(1) by (simp add: less_le)
    have "\<bar>round_to 53 (?a / q) - ?a / q\<bar> \<le> ?a / q / 2 ^ 53" by (rule round_error [OF pos])
    also have "\<dots> \<le> 2 ^ 32 / 2 ^ 53" using le a(2) by (intro divide_right_mono) auto
    also have "\<dots> < (1 :: rat)" by simp
    finally show ?thesis using le by linarith
  next
    case True
    have "0 < ?a + 1" using a(1) by linarith
    then show ?thesis by (simp only: True round_to_0)
  qed
  then have "\<lfloor>round_to 53 (?a / q)\<rfloor> \<le> int (unat side)" by (simp add: floor_le_iff)
  then show ?thesis using Finite q by (auto simp: scaled_def intro!: saturate_le)
qed (use assms in \<open>auto simp: scaled_def saturate_def\<close>)

lemma scaled_1: "scaled side (Finite 1) = side"
proof -
  have "unat side < 2 ^ 32" using unsigned_less [of side, where ?'a = nat] by simp
  also have "\<dots> < (2 :: nat) ^ 53" by simp
  finally have "unat side < 2 ^ 53" .
  then have "round_to 53 (of_nat (unat side)) = (of_nat (unat side) :: rat)" by (rule round_to_nat)
  moreover have "saturate (int (unat side)) = side"
    using uint_saturate [of "uint side", where ?'a = 32] uint_lt2p [of side] by (simp add: word_uint_eq_iff)
  moreover have "\<lfloor>of_nat (unat side) :: rat\<rfloor> = int (unat side)" by (rule floor_of_nat)
  ultimately show ?thesis by (simp add: scaled_def)
qed

lemma scale_down_own:
  assumes "vp_width p = width" and "vp_height p = height"
  shows "scale_down (min width height) p = Finite 1"
proof -
  have "round_to 53 1 = (1 :: rat)" using round_to_nat [of 1 53] by simp
  then show ?thesis using assms by (simp add: scale_down_def flt_max_def)
qed

lemma into_rtp_encodings_layers:
  assumes "length ps \<le> 2" and own: "vp_width p = width" "vp_height p = height"
  defines "layers \<equiv> video_layers_from_encodings width height (into_rtp_encodings width height (ps @ [p]))"
  shows "map vl_quality layers = rev (take (Suc (length ps)) [LowQuality, MediumQuality, HighQuality])"
    and "vl_width (hd layers) = width \<and> vl_height (hd layers) = height"
    and "list_all (\<lambda>l. vl_width l \<le> width \<and> vl_height l \<le> height) layers"
proof -
  consider (one) "ps = []" | (two) a where "ps = [a]" | (three) a b where "ps = [a, b]"
    using assms(1) by (cases ps; cases "tl ps"; cases "tl (tl ps)") auto
  note shapes = this
  have q: "video_quality_for_rid (VIDEO_RIDS ! 0) = Some LowQuality"
    "video_quality_for_rid (VIDEO_RIDS ! Suc 0) = Some MediumQuality"
    "video_quality_for_rid (VIDEO_RIDS ! Suc (Suc 0)) = Some HighQuality"
    by (simp_all add: video_quality_for_rid_def VIDEO_RIDS_def)
  show "map vl_quality layers = rev (take (Suc (length ps)) [LowQuality, MediumQuality, HighQuality])"
    by (cases rule: shapes) (simp_all add: layers_def into_rtp_encodings_def video_layers_from_encodings_def Let_def q)
  have own_scale: "scale_down (min width height) p = Finite 1" using own by (rule scale_down_own)
  show "vl_width (hd layers) = width \<and> vl_height (hd layers) = height"
    by (cases rule: shapes)
      (simp_all add: layers_def into_rtp_encodings_def video_layers_from_encodings_def Let_def own_scale scaled_1)
  show "list_all (\<lambda>l. vl_width l \<le> width \<and> vl_height l \<le> height) layers"
    by (cases rule: shapes)
      (simp_all add: layers_def into_rtp_encodings_def video_layers_from_encodings_def Let_def
        scaled_le scale_down_ok)
qed

lemma layer_count_le: "layer_count width height options \<le> 3"
  by (simp add: layer_count_def)

section \<open>Aspect ratios\<close>

text \<open>
  The choice of the presets for a ratio \<open>r\<close> between 1 and \<open>8192\<close>: away from 14:9 the rounding of the
  ratio and of the two differences does not change it.
\<close>

definition closer_to_wide :: "rat \<Rightarrow> bool" where
  "closer_to_wide r \<longleftrightarrow>
     \<bar>round_to 24 (round_to 24 r - 14913081 / 8388608)\<bar> < \<bar>round_to 24 (round_to 24 r - 11184811 / 8388608)\<bar>"

lemma rounded_difference:
  "\<bar>round_to 24 x\<bar> \<le> \<bar>x\<bar> * (1 + 1 / 2 ^ 24)" "\<bar>x\<bar> * (1 - 1 / 2 ^ 24) \<le> \<bar>round_to 24 x\<bar>"
proof -
  have "round_to 24 \<bar>x\<bar> - \<bar>x\<bar> \<le> \<bar>x\<bar> / 2 ^ 24" "- (round_to 24 \<bar>x\<bar> - \<bar>x\<bar>) \<le> \<bar>x\<bar> / 2 ^ 24"
    using round_abs_error [of 24 x] unfolding abs_le_iff by blast+
  then show "\<bar>round_to 24 x\<bar> \<le> \<bar>x\<bar> * (1 + 1 / 2 ^ 24)" "\<bar>x\<bar> * (1 - 1 / 2 ^ 24) \<le> \<bar>round_to 24 x\<bar>"
    by (simp_all add: round_to_abs algebra_simps)
qed

lemma rounded_ratio:
  assumes "1 \<le> r"
  shows "round_to 24 r \<le> r * (1 + 1 / 2 ^ 24)" "r * (1 - 1 / 2 ^ 24) \<le> round_to 24 r"
proof -
  have "round_to 24 r - r \<le> r / 2 ^ 24" "- (round_to 24 r - r) \<le> r / 2 ^ 24"
    using round_error [of r 24] assms unfolding abs_le_iff by simp_all
  then show "round_to 24 r \<le> r * (1 + 1 / 2 ^ 24)" "r * (1 - 1 / 2 ^ 24) \<le> round_to 24 r"
    by (simp_all add: algebra_simps)
qed

lemma closer_above:
  assumes r: "14 / 9 + 1 / 73728 \<le> r" "r \<le> 8192"
  shows "closer_to_wide r"
proof -
  have one: "1 \<le> r" using r by simp
  let ?x = "round_to 24 r - 14913081 / 8388608" and ?y = "round_to 24 r - 11184811 / 8388608"
  have y: "\<bar>?y\<bar> = ?y" using rounded_ratio(2) [OF one] r by simp
  have "\<bar>?x\<bar> * (1 + 1 / 2 ^ 24) < ?y * (1 - 1 / 2 ^ 24)"
  proof (cases "0 \<le> ?x")
    case True
    then show ?thesis using rounded_ratio [OF one] r by simp
  next
    case False
    then have "\<bar>?x\<bar> = - ?x" by simp
    then show ?thesis using rounded_ratio(2) [OF one] r by simp
  qed
  then show ?thesis
    using rounded_difference(1) [of ?x] rounded_difference(2) [of ?y] y by (simp add: closer_to_wide_def)
qed

lemma closer_below:
  assumes r: "1 \<le> r" "r \<le> 14 / 9 - 1 / 73728"
  shows "\<not> closer_to_wide r"
proof -
  let ?x = "round_to 24 r - 14913081 / 8388608" and ?y = "round_to 24 r - 11184811 / 8388608"
  have x: "\<bar>?x\<bar> = - ?x" using rounded_ratio(1) [OF r(1)] r by simp
  have "\<bar>?y\<bar> * (1 + 1 / 2 ^ 24) \<le> - ?x * (1 - 1 / 2 ^ 24)"
  proof (cases "0 \<le> ?y")
    case True
    then show ?thesis using rounded_ratio(1) [OF r(1)] r by simp
  next
    case False
    then have "\<bar>?y\<bar> = - ?y" by simp
    then show ?thesis using rounded_ratio [OF r(1)] r by simp
  qed
  then show ?thesis
    using rounded_difference(1) [of ?y] rounded_difference(2) [of ?x] x by (simp add: closer_to_wide_def)
qed

lemma closer_between: "\<not> closer_to_wide (14 / 9)"
proof -
  have r: "round_to 24 (14 / 9) = 6524473 / 4194304" by code_simp
  have "\<bar>round_to 24 (- (1864135 / 8388608))\<bar> = \<bar>round_to 24 (1864135 / 8388608)\<bar>"
    unfolding round_to_minus by simp
  then show ?thesis by (simp add: closer_to_wide_def r)
qed

lemma closer_iff:
  assumes "0 < b" and "b \<le> a" and "a \<le> 8192"
  shows "closer_to_wide (of_nat a / of_nat b) \<longleftrightarrow> 14 * b < 9 * a"
proof -
  let ?r = "of_nat a / of_nat b :: rat"
  have b: "0 < (of_nat b :: rat)" "(of_nat b :: rat) \<le> 8192" "(1 :: rat) \<le> of_nat b"
    using assms by (simp_all add: of_nat_le_iff [of _ 8192, simplified] Suc_le_eq)
  have r: "1 \<le> ?r" "?r \<le> 8192"
  proof -
    show "1 \<le> ?r" using assms b by simp
    have "(of_nat a :: rat) \<le> 8192" using assms(3) by (simp add: of_nat_le_iff [of _ 8192, simplified])
    also have "\<dots> \<le> 8192 * of_nat b" using b(3) by simp
    finally show "?r \<le> 8192" using b(1) by (simp add: divide_le_eq)
  qed
  have nine: "9 * of_nat a - 14 * of_nat b = (of_int (9 * int a - 14 * int b) :: rat)" by simp
  have gap: "?r - 14 / 9 = (9 * of_nat a - 14 * of_nat b) / (9 * of_nat b)"
    using b(1) by (simp add: field_simps)
  have small: "1 / 73728 \<le> 1 / (9 * of_nat b :: rat)" using b by (simp add: frac_le)
  consider (above) "1 \<le> 9 * int a - 14 * int b" | (at) "9 * a = 14 * b" | (below) "9 * int a - 14 * int b \<le> - 1"
    by linarith
  then show ?thesis
  proof cases
    case above
    then have "(1 :: rat) \<le> 9 * of_nat a - 14 * of_nat b" unfolding nine by simp
    then have "1 / (9 * of_nat b) \<le> ?r - 14 / 9" unfolding gap using b(1) by (intro divide_right_mono) auto
    then have "closer_to_wide ?r" using small r by (intro closer_above) linarith+
    then show ?thesis using above by simp
  next
    case at
    then have "(9 :: rat) * of_nat a = 14 * of_nat b" by (metis of_nat_mult of_nat_numeral)
    then have r: "?r = 14 / 9" using b(1) by (simp add: field_simps)
    show ?thesis unfolding r using at closer_between by simp
  next
    case below
    then have "(9 :: rat) * of_nat a - 14 * of_nat b \<le> - 1" unfolding nine by (metis of_int_le_iff of_int_minus of_int_1)
    then have "?r - 14 / 9 \<le> - 1 / (9 * of_nat b)" unfolding gap using b(1) by (intro divide_right_mono) auto
    then have "?r - 14 / 9 \<le> - (1 / (9 * of_nat b))" by simp
    then have "\<not> closer_to_wide ?r" using small r by (intro closer_below) linarith+
    then show ?thesis using below by simp
  qed
qed

lemma wide_closer:
  assumes w: "0 < unat w" "unat w \<le> 8192" and h: "0 < unat h" "unat h \<le> 8192"
  shows "wide w h \<longleftrightarrow> closer_to_wide (of_nat (max (unat w) (unat h)) / of_nat (min (unat w) (unat h)))"
proof -
  have exact: "of_unsigned 24 x = Finite (of_nat (unat x))" if "unat x \<le> 8192" for x :: u32
  proof -
    have "unat x < 2 ^ 24" using that by simp
    then show ?thesis by (simp only: of_unsigned_def round_to_nat)
  qed
  have pos: "0 < (of_nat (unat w) :: rat)" "0 < (of_nat (unat h) :: rat)"
    by (rule of_nat_0_less_iff [THEN iffD2], rule w(1), rule of_nat_0_less_iff [THEN iffD2], rule h(1))
  have "landscape_aspect_ratio w h = Finite (round_to 24 (of_nat (max (unat w) (unat h)) / of_nat (min (unat w) (unat h))))"
    using w h pos by (simp add: landscape_aspect_ratio_def exact word_less_nat_alt max_def min_def)
  then show ?thesis
    unfolding wide_def Let_def ratio_16_9 ratio_4_3 closer_to_wide_def by (simp only: flt_sub.simps flt_abs.simps flt_less.simps)
qed

section \<open>Slow screen shares\<close>

text \<open>A framerate as an \<open>f64\<close> holds it, below \<open>2 ^ 62\<close>, and one of less than three frames a second.\<close>

fun framerate_ok :: "flt \<Rightarrow> bool" where
  "framerate_ok (Finite q) \<longleftrightarrow> round_to 53 q = q \<and> q < 2 ^ 62"
| "framerate_ok x \<longleftrightarrow> True"

fun below_three :: "flt \<Rightarrow> bool" where
  "below_three (Finite q) \<longleftrightarrow> q < 3"
| "below_three x \<longleftrightarrow> x \<noteq> PosInf"

definition slow_screenshare :: "publish_options \<Rightarrow> bool" where
  "slow_screenshare options \<longleftrightarrow> po_simulcast options \<and> po_source options = Screenshare
     \<and> (\<exists>encoding. po_video_encoding options = Some encoding \<and> below_three (ve_max_framerate encoding))"

text \<open>The largest \<open>f64\<close> below three is \<open>3 - 1 / 2 ^ 51\<close>, so a third of one below three is not rounded up to one.\<close>

lemma below_three_gap:
  assumes "round_to 53 q = q" and "0 < q" and "q < 3"
  shows "q \<le> 3 - 1 / 2 ^ 51"
proof (cases "q < 2")
  case True
  then show ?thesis by simp
next
  case False
  have e: "exponent q = 1"
  proof -
    have "(2 :: rat) powi exponent q < 2 powi 2" using exponent_bounds(1) [OF assms(2)] assms(3) by simp
    then have "\<not> 2 \<le> exponent q" using power_int_increasing [of 2 "exponent q" "2 :: rat"] by auto
    moreover have "(2 :: rat) powi 1 < 2 powi (exponent q + 1)" using exponent_bounds(2) [OF assms(2)] False by simp
    then have "\<not> exponent q + 1 \<le> 1" using power_int_increasing [of "exponent q + 1" 1 "2 :: rat"] by auto
    ultimately show ?thesis by linarith
  qed
  have u: "ulp 53 q = 1 / 2 ^ 51" by (simp add: ulp_def e power_int_minus power_int_def power_one_over)
  define k where "k = round_half_even (q / ulp 53 q)"
  have q: "q = of_int k / 2 ^ 51" using assms(1,2) by (simp add: round_to_def k_def) (simp add: u)
  have "(of_int k :: rat) < of_int (3 * 2 ^ 51)" using assms(3) unfolding q by (simp add: field_simps)
  then have "k \<le> 3 * 2 ^ 51 - 1" by (simp only: of_int_less_iff)
  then have "(of_int k :: rat) \<le> of_int (3 * 2 ^ 51 - 1)" by (simp only: of_int_le_iff)
  then show ?thesis unfolding q by (simp add: field_simps)
qed

lemma third_below_one:
  assumes "round_to 53 q = q" and "0 < q" and "q < 3"
  shows "round_to 53 (q / 3) < 1"
proof -
  have "\<bar>round_to 53 (q / 3) - q / 3\<bar> \<le> q / 3 / 2 ^ 53" using assms(2) by (intro round_error) simp
  then have "round_to 53 (q / 3) \<le> q / 3 + q / 3 / 2 ^ 53" by (simp only: abs_le_iff) linarith
  also have "\<dots> < 1" using below_three_gap [OF assms] by (simp add: field_simps)
  finally show ?thesis .
qed

lemma round_to_ge_one:
  assumes "1 \<le> x" and "0 < p"
  shows "1 \<le> round_to p x"
proof -
  have x: "0 < x" using assms(1) by simp
  let ?e = "exponent x"
  have e: "0 \<le> ?e"
  proof (rule ccontr)
    assume "\<not> 0 \<le> ?e"
    then have "(2 :: rat) powi (?e + 1) \<le> 2 powi 0" by (intro power_int_increasing) simp_all
    then show False using exponent_bounds(2) [OF x] assms(1) by simp
  qed
  have u: "ulp p x * 2 ^ (p - Suc 0) = 2 powi ?e"
  proof -
    have "ulp p x * 2 powi int (p - 1) = 2 powi (?e - int p + 1 + int (p - 1))" by (simp add: ulp_def powi_add)
    also have "?e - int p + 1 + int (p - 1) = ?e" using assms(2) by (simp add: of_nat_diff)
    finally show ?thesis by (simp add: powi_nat)
  qed
  have pos: "0 < ulp p x" by (simp add: ulp_def)
  have "of_int (2 ^ (p - 1)) \<le> x / ulp p x"
    using exponent_bounds(1) [OF x] by (simp add: pos_le_divide_eq [OF pos] mult.commute u)
  then have "2 ^ (p - 1) \<le> \<lfloor>x / ulp p x\<rfloor>" by (simp only: le_floor_iff)
  then have "2 ^ (p - 1) \<le> round_half_even (x / ulp p x)" by (auto simp: round_half_even_def Let_def)
  then have "(of_int (2 ^ (p - 1)) :: rat) \<le> of_int (round_half_even (x / ulp p x))" by (simp only: of_int_le_iff)
  then have "2 powi ?e \<le> of_int (round_half_even (x / ulp p x)) * ulp p x"
    unfolding u [symmetric] using pos by (simp add: mult.commute mult_right_mono)
  moreover have "(1 :: rat) \<le> 2 powi ?e" using power_int_increasing [OF e, of "2 :: rat"] by simp
  ultimately show ?thesis using x by (simp add: round_to_def)
qed

lemma steps_word:
  assumes "0 \<le> i" and "i < 2 ^ 62"
  shows "(4 * saturate i = (0 :: u64)) \<longleftrightarrow> i = 0"
proof -
  have "uint (4 * saturate i :: u64) = 4 * i"
    using assms by (simp add: uint_word_ariths uint_saturate)
  then show ?thesis by (metis mult_eq_0_iff uint_0_iff zero_neq_numeral)
qed

lemma framerate_steps_zero:
  assumes "framerate_ok f"
  shows "framerate_steps f = 0 \<longleftrightarrow> below_three f"
proof (cases f)
  case (Finite q)
  have q: "round_to 53 q = q" "q < 2 ^ 62" using assms Finite by simp_all
  consider "q \<le> 0" | "0 < q" "q < 3" | "3 \<le> q" by linarith
  then show ?thesis
  proof cases
    case 1
    have "0 \<le> round_to 53 (- q / 3)" using round_to_abs [of 53 "- q / 3"] 1 by (metis abs_ge_zero abs_of_nonneg divide_nonneg_pos neg_0_le_iff_le zero_less_numeral)
    then have "round_to 53 (q / 3) \<le> 0" using round_to_minus [of 53 "q / 3"] by simp
    then have "\<lfloor>round_to 53 (q / 3)\<rfloor> \<le> 0" by (simp add: floor_le_zero)
    then show ?thesis using 1 Finite by (simp add: framerate_steps_def saturate_def)
  next
    case 2
    have "0 \<le> round_to 53 (q / 3)" using round_to_abs [of 53 "q / 3"] 2(1) by (metis abs_ge_zero abs_of_pos divide_pos_pos zero_less_numeral)
    then have "\<lfloor>round_to 53 (q / 3)\<rfloor> = 0" using third_below_one [OF q(1) 2] by (simp add: floor_eq_iff)
    then show ?thesis using 2 Finite by (simp add: framerate_steps_def saturate_def)
  next
    case 3
    let ?r = "round_to 53 (q / 3)"
    have "1 \<le> ?r" using 3 by (intro round_to_ge_one) simp_all
    moreover have "?r < 2 ^ 62"
    proof -
      have "\<bar>?r - q / 3\<bar> \<le> q / 3 / 2 ^ 53" using 3 by (intro round_error) simp
      then have "?r \<le> q / 3 + q / 3 / 2 ^ 53" by (simp only: abs_le_iff) linarith
      also have "\<dots> < 2 ^ 62" using q(2) 3 by (simp add: field_simps)
      finally show ?thesis .
    qed
    ultimately have "1 \<le> \<lfloor>?r\<rfloor>" "\<lfloor>?r\<rfloor> < 2 ^ 62" by (simp_all add: le_floor_iff floor_less_iff)
    then have "4 * saturate \<lfloor>?r\<rfloor> \<noteq> (0 :: u64)" by (subst steps_word) linarith+
    then show ?thesis using 3 Finite by (simp add: framerate_steps_def)
  qed
qed (simp_all add: framerate_steps_def)

lemma no_divisor_slow:
  "\<forall>encoding. po_video_encoding options = Some encoding \<longrightarrow> framerate_ok (ve_max_framerate encoding) \<Longrightarrow>
   no_divisor options = slow_screenshare options"
  by (auto simp: no_divisor_def slow_screenshare_def framerate_steps_zero split: option.splits)

section \<open>Properties\<close>

text \<open>
  C32. What a video track is published with: when an own framerate is an \<open>f64\<close> below \<open>2 ^ 62\<close>, infinite or not a
  number, the encodings are computed, and without a panic unless the track is a simulcast screen share whose
  own framerate is below three a second or no number. There are one to three layers, as the size asks for;
  none is larger than the video and the first has its size. The qualities of three layers are high, medium
  and low; nothing is claimed for a single layer, which the code advertises as low (\<open>single_layer_low\<close>).
\<close>

theorem published_layers:
  assumes "\<forall>encoding. po_video_encoding options = Some encoding \<longrightarrow> framerate_ok (ve_max_framerate encoding)"
  shows "case compute_video_encodings width height options of
     None \<Rightarrow> slow_screenshare options
   | Some encodings \<Rightarrow>
       let layers = video_layers_from_encodings width height encodings in
       \<not> slow_screenshare options
       \<and> length layers = layer_count width height options
       \<and> (length layers = 3 \<longrightarrow> map vl_quality layers = [HighQuality, MediumQuality, LowQuality])
       \<and> vl_width (hd layers) = width \<and> vl_height (hd layers) = height
       \<and> list_all (\<lambda>l. vl_width l \<le> width \<and> vl_height l \<le> height) layers"
proof (cases "compute_video_encodings width height options")
  case (Some encodings)
  obtain ps where ps: "encodings = into_rtp_encodings width height (ps @ [initial_preset width height options])"
      "Suc (length ps) = layer_count width height options"
    using encodings_shape [where width = width and height = height and options = options] Some by auto
  have "length ps \<le> 2" using ps(2) layer_count_le [where width = width and height = height and options = options] by simp
  note layers = into_rtp_encodings_layers [OF this, where p = "initial_preset width height options"
      and width = width and height = height]
  let ?layers = "video_layers_from_encodings width height encodings"
  have qualities: "map vl_quality ?layers = rev (take (layer_count width height options) [LowQuality, MediumQuality, HighQuality])"
    using layers ps by (simp add: initial_preset_def)
  then have n: "length ?layers = layer_count width height options"
  proof -
    have "length (map vl_quality ?layers) = min (layer_count width height options) 3" unfolding qualities by simp
    then show ?thesis using layer_count_le [where width = width and height = height and options = options] by simp
  qed
  have "\<not> slow_screenshare options"
    using encodings_shape [where width = width and height = height and options = options] Some no_divisor_slow [OF assms] by simp
  then show ?thesis
    using layers ps Some n qualities by (simp add: initial_preset_def Let_def)
qed (use encodings_shape [where width = width and height = height and options = options] no_divisor_slow [OF assms] in simp)

text \<open>A screen share of fifteen frames a second, and a camera.\<close>

theorem published_layers_witness:
  "compute_video_encodings 1280 720 (default_options\<lparr>po_source := Screenshare,
      po_video_encoding := Some \<lparr>ve_max_bitrate = 1000000, ve_max_framerate = Finite 15\<rparr>\<rparr>) \<noteq> None
   \<and> map_option (\<lambda>es. map vl_quality (video_layers_from_encodings 1280 720 es))
       (compute_video_encodings 1280 720 default_options) = Some [HighQuality, MediumQuality, LowQuality]"
proof -
  let ?options = "default_options\<lparr>po_source := Screenshare,
      po_video_encoding := Some \<lparr>ve_max_bitrate = 1000000, ve_max_framerate = Finite 15\<rparr>\<rparr>"
  have "round_to 53 15 = 15" using round_to_nat [of 15 53] by simp
  then have "\<forall>encoding. po_video_encoding ?options = Some encoding \<longrightarrow> framerate_ok (ve_max_framerate encoding)" by simp
  from published_layers [OF this, of 1280 720] published_layers [of default_options 1280 720]
  show ?thesis
    by (auto simp: slow_screenshare_def default_options_def layer_count_def Let_def split: option.splits)
qed

text \<open>
  C39. The presets follow the exact aspect ratio: for sizes up to 8192, those of 16:9 are taken if and only
  if the longer side is more than 14/9 of the shorter, although the code compares rounded numbers.
\<close>

theorem presets_by_ratio:
  assumes "0 < width" and "width \<le> 8192" and "0 < height" and "height \<le> 8192"
  shows "compute_presets_for_resolution False width height =
    (if 14 * min (unat width) (unat height) < 9 * max (unat width) (unat height)
     then video_presets else video43_presets)"
proof -
  have n: "0 < unat width" "unat width \<le> 8192" "0 < unat height" "unat height \<le> 8192"
    using assms by (simp_all add: word_le_nat_alt unat_gt_0 word_less_nat_alt)
  then show ?thesis
    by (simp add: compute_presets_for_resolution_def wide_closer closer_iff)
qed

theorem presets_by_ratio_witness:
  "compute_presets_for_resolution False 1280 720 = video_presets
   \<and> compute_presets_for_resolution False 1400 900 = video43_presets"
  using presets_by_ratio [of 1280 720] presets_by_ratio [of 1400 900] by simp

section \<open>Flaws\<close>

text \<open>The only layer of a track without simulcast is advertised as low quality.\<close>

lemma single_layer_low:
  assumes "\<not> po_simulcast options"
  shows "map_option (\<lambda>(req, _). map vl_quality (pr_layers req))
    (publish_track_request encryption (Some (width, height)) options) = Some [LowQuality]"
  using assms into_rtp_encodings_layers(1) [where ps = "[]" and p = "initial_preset width height options"
      and width = width and height = height]
  by (simp add: publish_track_request_def compute_video_encodings_def Let_def initial_preset_def)

text \<open>A screen share of one frame a second cannot be published with simulcast.\<close>

lemma slow_screenshare_panics:
  "compute_video_encodings width height
     (default_options\<lparr>po_source := Screenshare,
        po_video_encoding := Some \<lparr>ve_max_bitrate = bitrate, ve_max_framerate = Finite 1\<rparr>\<rparr>) = None"
proof -
  have "\<lfloor>round_to 53 (1 / 3)\<rfloor> = 0" by code_simp
  then have "framerate_steps (Finite 1) = 0" by (simp add: framerate_steps_def saturate_def)
  then show ?thesis
    by (simp add: compute_video_encodings_def default_options_def compute_default_simulcast_presets_def
        compute_default_simulcast_preset_def initial_preset_def Let_def)
qed

text \<open>The codecs that a video is offered with are those of its own mime type: no retransmissions, no forward error correction.\<close>

lemma matched_own_type:
  "match_codecs codec codecs = (matched, partial_matched, unmatched) \<Longrightarrow>
     list_all (\<lambda>c. map lower_char (cd_mime_type c) = ''video/'' @ video_codec_str codec) (matched @ partial_matched)"
  by (induction codecs arbitrary: matched partial_matched unmatched)
    (auto simp: Let_def split: prod.splits if_splits option.splits)

lemma preferences_own_type:
  "list_all (\<lambda>c. map lower_char (cd_mime_type c) = ''video/'' @ video_codec_str codec)
     (codec_preferences codec codecs)"
  using matched_own_type by (fastforce simp: codec_preferences_def split: prod.splits)

text \<open>A size that a preset has is given the encoding of the next larger preset.\<close>

lemma exact_size_gets_next:
  "po_video_encoding options = None \<Longrightarrow> po_video_codec options = VP8 \<Longrightarrow> po_source options = Camera \<Longrightarrow>
   vp_encoding (initial_preset 1280 720 options) = vp_encoding (preset 1920 1080 3000000 30)"
proof -
  have "closer_to_wide (of_nat 1280 / of_nat 720)" by (subst closer_iff) simp_all
  then have "wide 1280 720" by (subst wide_closer) (simp_all del: of_nat_numeral)
  moreover assume "po_video_encoding options = None" "po_video_codec options = VP8" "po_source options = Camera"
  ultimately show ?thesis
    by (simp add: initial_preset_def compute_appropriate_encoding_def Let_def
        compute_presets_for_resolution_def video_presets_def preset_def codec_bitrate_def)
qed

end
