(* ===== verification/ProtocolHelpers.thy ===== *)
theory ProtocolHelpers
  imports LkPrelude
begin

text \<open>
  The helpers of \<open>livekit-protocol\<close> that wait: the promise (\<open>promise.rs\<close>), the dispatcher
  (\<open>observer.rs\<close>) and the debouncer (\<open>debouncer.rs\<close>), the last with its only use, the debounced
  negotiation of \<open>rtc_session.rs\<close>. A call that awaits something is a process that the scheduler polls; it
  may be cancelled between two polls.
\<close>

section \<open>Promises\<close>

text \<open>A call of \<open>result\<close>: about to read, waiting for the lock of the receiver, or holding it.\<close>

datatype (plugins only: code size) 'v result_call =
    ResultStart
  | ResultWaits
  | ResultHolds
  | ResultDone 'v
  | ResultPanicked
  | ResultCancelled

text \<open>\<open>pm_rx\<close>: the receiver is still in its slot. A call that took it drops it when it is cancelled.\<close>

record 'v promise =
  pm_tx :: bool
  pm_chan :: "'v option"
  pm_rx :: bool
  pm_lock :: "nat option"
  pm_result :: "'v option"
  pm_calls :: "'v result_call list"

definition promise_new :: "'v promise" where
  "promise_new =
     \<lparr>pm_tx = True, pm_chan = None, pm_rx = True, pm_lock = None, pm_result = None, pm_calls = []\<rparr>"

text \<open>A value that is sent when the receiver is gone is lost, and \<open>resolve\<close> does not tell.\<close>

definition resolve :: "'v \<Rightarrow> 'v promise \<Rightarrow> (string + unit) \<times> 'v promise" where
  "resolve v p =
     (if pm_tx p
      then (Inr (), p\<lparr>pm_tx := False, pm_chan := (if pm_rx p \<or> pm_lock p \<noteq> None then Some v else None)\<rparr>)
      else (Inl ''promise already used'', p))"

definition set_call :: "nat \<Rightarrow> 'v result_call \<Rightarrow> 'v promise \<Rightarrow> 'v promise" where
  "set_call i c p = p\<lparr>pm_calls := (pm_calls p)[i := c]\<rparr>"

text \<open>\<open>result\<close>, from one await to the next; the write lock of the result is never held across one.\<close>

definition poll_result :: "nat \<Rightarrow> 'v promise \<Rightarrow> 'v promise" where
  "poll_result i p =
     (if length (pm_calls p) \<le> i then p
      else case pm_calls p ! i of
        ResultStart \<Rightarrow>
          (case pm_result p of Some v \<Rightarrow> set_call i (ResultDone v) p | None \<Rightarrow> set_call i ResultWaits p)
      | ResultWaits \<Rightarrow>
          if pm_lock p \<noteq> None then p
          else if pm_rx p then set_call i ResultHolds (p\<lparr>pm_rx := False, pm_lock := Some i\<rparr>)
          else (case pm_result p of
                  Some v \<Rightarrow> set_call i (ResultDone v) p
                | None \<Rightarrow> set_call i ResultPanicked p)
      | ResultHolds \<Rightarrow>
          (case pm_chan p of
             None \<Rightarrow> p
           | Some v \<Rightarrow> set_call i (ResultDone v) (p\<lparr>pm_result := Some v, pm_lock := None\<rparr>))
      | _ \<Rightarrow> p)"

definition cancel_result :: "nat \<Rightarrow> 'v promise \<Rightarrow> 'v promise" where
  "cancel_result i p =
     (if length (pm_calls p) \<le> i then p
      else case pm_calls p ! i of
        ResultStart \<Rightarrow> set_call i ResultCancelled p
      | ResultWaits \<Rightarrow> set_call i ResultCancelled p
      | ResultHolds \<Rightarrow> set_call i ResultCancelled (p\<lparr>pm_lock := None\<rparr>)
      | _ \<Rightarrow> p)"

definition try_result :: "'v promise \<Rightarrow> 'v option" where
  "try_result p = pm_result p"

datatype (plugins only: code size) 'v promise_action =
    Resolve 'v
  | AskResult
  | PollResult nat
  | CancelResult nat

fun promise_step :: "'v promise_action \<Rightarrow> 'v promise \<Rightarrow> 'v promise" where
  "promise_step (Resolve v) p = snd (resolve v p)"
| "promise_step AskResult p = p\<lparr>pm_calls := pm_calls p @ [ResultStart]\<rparr>"
| "promise_step (PollResult i) p = poll_result i p"
| "promise_step (CancelResult i) p = cancel_result i p"

fun first_resolved :: "'v promise_action list \<Rightarrow> 'v option" where
  "first_resolved [] = None"
| "first_resolved (Resolve v # acts) = Some v"
| "first_resolved (_ # acts) = first_resolved acts"

lemma first_resolved_snoc:
  "first_resolved (acts @ [a]) =
     (case first_resolved acts of Some v \<Rightarrow> Some v | None \<Rightarrow> first_resolved [a])"
  by (induction acts rule: first_resolved.induct) simp_all

text \<open>One call at a time holds the receiver; the result is the value that was resolved first.\<close>

definition promise_inv :: "'v option \<Rightarrow> 'v promise \<Rightarrow> bool" where
  "promise_inv first p \<longleftrightarrow>
     (pm_tx p \<longleftrightarrow> first = None)
     \<and> (\<forall>v. pm_chan p = Some v \<longrightarrow> first = Some v)
     \<and> (\<forall>v. pm_result p = Some v \<longrightarrow> first = Some v \<and> \<not> pm_rx p \<and> pm_lock p = None)
     \<and> (pm_lock p \<noteq> None \<longrightarrow> \<not> pm_rx p)
     \<and> (\<forall>i < length (pm_calls p). pm_calls p ! i = ResultHolds \<longleftrightarrow> pm_lock p = Some i)
     \<and> (\<forall>i. pm_lock p = Some i \<longrightarrow> i < length (pm_calls p))
     \<and> (\<forall>v. ResultDone v \<in> set (pm_calls p) \<longrightarrow> first = Some v)
     \<and> (\<not> pm_rx p \<and> pm_lock p = None \<and> pm_result p = None \<longrightarrow> ResultCancelled \<in> set (pm_calls p))
     \<and> (ResultPanicked \<in> set (pm_calls p) \<longrightarrow> ResultCancelled \<in> set (pm_calls p))"

lemma promise_inv_new: "promise_inv None promise_new"
  by (simp add: promise_inv_def promise_new_def)

lemma still_in: "y \<in> set xs \<Longrightarrow> xs ! i \<noteq> y \<Longrightarrow> y \<in> set (xs[i := x])"
  by (metis in_set_conv_nth length_list_update nth_list_update_neq)

lemma from_update: "y \<in> set (xs[i := x]) \<Longrightarrow> y \<noteq> x \<Longrightarrow> y \<in> set xs"
  using set_update_subset_insert by fastforce

lemma promise_result: "promise_inv first p \<Longrightarrow> pm_result p = Some v \<Longrightarrow> first = Some v"
  by (simp add: promise_inv_def)

lemma promise_dropped:
  "promise_inv first p \<Longrightarrow> \<not> pm_rx p \<Longrightarrow> pm_lock p = None \<Longrightarrow> pm_result p = None \<Longrightarrow>
     ResultCancelled \<in> set (pm_calls p)"
  by (simp add: promise_inv_def)

text \<open>A call that does not hold the receiver moves on without it.\<close>

lemma promise_inv_move:
  assumes p: "promise_inv first p" and i: "i < length (pm_calls p)"
    and old: "pm_calls p ! i \<noteq> ResultHolds" "pm_calls p ! i \<noteq> ResultCancelled" and new: "c \<noteq> ResultHolds"
    and val: "\<And>v. c = ResultDone v \<Longrightarrow> first = Some v"
    and panic: "c = ResultPanicked \<Longrightarrow> ResultCancelled \<in> set (pm_calls p)"
  shows "promise_inv first (set_call i c p)"
  unfolding promise_inv_def set_call_def
  using p i old new val panic still_in [of ResultCancelled "pm_calls p" i c]
    from_update [of _ "pm_calls p" i c]
  by (simp add: promise_inv_def nth_list_update) blast

text \<open>A call takes the receiver, and gives it up with the value or when it is cancelled.\<close>

lemma promise_inv_take:
  assumes p: "promise_inv first p" and i: "i < length (pm_calls p)" and old: "pm_calls p ! i = ResultWaits"
    and free: "pm_lock p = None" "pm_rx p"
  shows "promise_inv first (set_call i ResultHolds (p\<lparr>pm_rx := False, pm_lock := Some i\<rparr>))"
  unfolding promise_inv_def set_call_def
  using p i old free still_in [of ResultCancelled "pm_calls p" i ResultHolds]
    from_update [of _ "pm_calls p" i ResultHolds]
  by (simp add: promise_inv_def nth_list_update)

lemma promise_inv_finish:
  assumes p: "promise_inv first p" and i: "i < length (pm_calls p)" and old: "pm_calls p ! i = ResultHolds"
    and chan: "pm_chan p = Some v"
  shows "promise_inv first (set_call i (ResultDone v) (p\<lparr>pm_result := Some v, pm_lock := None\<rparr>))"
proof -
  have keep: "ResultCancelled \<in> set (pm_calls p) \<Longrightarrow> ResultCancelled \<in> set ((pm_calls p)[i := ResultDone v])"
    using still_in [of ResultCancelled "pm_calls p" i] old by simp
  have ends: "ResultDone w \<in> set ((pm_calls p)[i := ResultDone v]) \<Longrightarrow> w = v \<or> ResultDone w \<in> set (pm_calls p)" for w
    using from_update [of "ResultDone w" "pm_calls p" i "ResultDone v"] by auto
  show ?thesis
    unfolding promise_inv_def set_call_def
    using p i old chan keep ends from_update [of ResultPanicked "pm_calls p" i "ResultDone v"]
    by (auto simp: promise_inv_def nth_list_update)
qed

lemma promise_inv_give_up:
  assumes p: "promise_inv first p" and i: "i < length (pm_calls p)" and old: "pm_calls p ! i = ResultHolds"
  shows "promise_inv first (set_call i ResultCancelled (p\<lparr>pm_lock := None\<rparr>))"
  unfolding promise_inv_def set_call_def
  using p i old from_update [of _ "pm_calls p" i ResultCancelled] set_update_memI [OF i, of ResultCancelled]
  by (simp add: promise_inv_def nth_list_update)

lemma promise_inv_step:
  assumes p: "promise_inv first p"
  shows "promise_inv (case first of Some v \<Rightarrow> Some v | None \<Rightarrow> first_resolved [a]) (promise_step a p)"
proof (cases a)
  case (Resolve v)
  with p show ?thesis by (auto simp: promise_inv_def resolve_def split: option.splits)
next
  case AskResult
  with p show ?thesis by (auto simp: promise_inv_def nth_append less_Suc_eq split: option.splits)
next
  case (PollResult i)
  have "promise_inv first (poll_result i p)"
  proof (cases "i < length (pm_calls p)")
    case i: True
    note move = promise_inv_move [OF p i]
    show ?thesis
    proof (cases "pm_calls p ! i")
      case ResultStart
      then show ?thesis using p i
        by (cases "pm_result p") (auto simp: poll_result_def intro!: move dest: promise_result)
    next
      case ResultWaits
      then show ?thesis using i p promise_inv_take [OF p i]
        by (cases "pm_lock p"; cases "pm_rx p"; cases "pm_result p")
          (auto simp: poll_result_def intro!: move dest: promise_result promise_dropped)
    next
      case ResultHolds
      then show ?thesis using p i promise_inv_finish [OF p i]
        by (auto simp: poll_result_def split: option.splits)
    qed (use p in \<open>simp_all add: poll_result_def\<close>)
  qed (use p in \<open>simp add: poll_result_def\<close>)
  with PollResult show ?thesis by (cases first) simp_all
next
  case (CancelResult i)
  have "promise_inv first (cancel_result i p)"
  proof (cases "i < length (pm_calls p)")
    case i: True
    show ?thesis
      using p i promise_inv_move [OF p i, of ResultCancelled] promise_inv_give_up [OF p i]
      by (cases "pm_calls p ! i") (auto simp: cancel_result_def)
  qed (use p in \<open>simp add: cancel_result_def\<close>)
  with CancelResult show ?thesis by (cases first) simp_all
qed

lemma promise_inv_run: "promise_inv (first_resolved acts) (fold promise_step acts promise_new)"
  by (induction acts rule: rev_induct)
    (auto simp: promise_inv_new first_resolved_snoc intro: promise_inv_step)

text \<open>
  However the calls are scheduled and cancelled, each that returns has the value that was resolved first,
  and a call panics only if another one was cancelled.
\<close>

lemma promise_results:
  defines "p acts \<equiv> fold promise_step acts promise_new"
  shows "ResultDone v \<in> set (pm_calls (p acts)) \<Longrightarrow> first_resolved acts = Some v"
    and "ResultPanicked \<in> set (pm_calls (p acts)) \<Longrightarrow> ResultCancelled \<in> set (pm_calls (p acts))"
  using promise_inv_run [of acts] unfolding p_def promise_inv_def by blast+

text \<open>A call that is cancelled while it waits for the value takes the receiver with it.\<close>

lemma promise_cancelled_panics:
  "pm_calls (fold promise_step
     [AskResult, PollResult 0, PollResult 0, CancelResult 0, Resolve v, AskResult, PollResult 1, PollResult 1]
     promise_new) = [ResultCancelled, ResultPanicked]"
  by (simp add: promise_new_def poll_result_def cancel_result_def set_call_def resolve_def)

text \<open>\<open>try_result\<close> does not see a value that no call of \<open>result\<close> has fetched.\<close>

lemma try_result_unfetched: "try_result (snd (resolve v promise_new)) = None"
  by (simp add: try_result_def resolve_def promise_new_def)

section \<open>Dispatchers\<close>

text \<open>A channel is what was sent into it, and whether its receiver is still there.\<close>

record 'm dispatcher =
  dp_senders :: "nat list"
  dp_channels :: "('m list \<times> bool) list"

definition dispatcher_new :: "'m dispatcher" where
  "dispatcher_new = \<lparr>dp_senders = [], dp_channels = []\<rparr>"

definition register :: "'m dispatcher \<Rightarrow> nat \<times> 'm dispatcher" where
  "register d =
     (length (dp_channels d),
      d\<lparr>dp_senders := dp_senders d @ [length (dp_channels d)], dp_channels := dp_channels d @ [([], True)]\<rparr>)"

definition channel_send :: "'m \<Rightarrow> nat \<Rightarrow> ('m list \<times> bool) list \<Rightarrow> ('m list \<times> bool) list" where
  "channel_send msg i channels =
     (if snd (channels ! i) then channels[i := (fst (channels ! i) @ [msg], True)] else channels)"

definition dispatch_msg :: "'m \<Rightarrow> 'm dispatcher \<Rightarrow> 'm dispatcher" where
  "dispatch_msg msg d =
     d\<lparr>dp_senders := filter (\<lambda>i. snd (dp_channels d ! i)) (dp_senders d),
       dp_channels := fold (channel_send msg) (dp_senders d) (dp_channels d)\<rparr>"

definition dispatcher_clear :: "'m dispatcher \<Rightarrow> 'm dispatcher" where
  "dispatcher_clear d = d\<lparr>dp_senders := []\<rparr>"

definition drop_receiver :: "nat \<Rightarrow> 'm dispatcher \<Rightarrow> 'm dispatcher" where
  "drop_receiver i d = d\<lparr>dp_channels := (dp_channels d)[i := (fst (dp_channels d ! i), False)]\<rparr>"

datatype (plugins only: code size) 'm dispatcher_action =
    Register
  | DispatchMsg 'm
  | DropReceiver nat
  | ClearSenders

fun dispatcher_step :: "'m dispatcher_action \<Rightarrow> 'm dispatcher \<Rightarrow> 'm dispatcher" where
  "dispatcher_step Register d = snd (register d)"
| "dispatcher_step (DispatchMsg msg) d = dispatch_msg msg d"
| "dispatcher_step (DropReceiver i) d = drop_receiver i d"
| "dispatcher_step ClearSenders d = dispatcher_clear d"

definition dispatcher_wf :: "'m dispatcher \<Rightarrow> bool" where
  "dispatcher_wf d \<longleftrightarrow> distinct (dp_senders d) \<and> (\<forall>i \<in> set (dp_senders d). i < length (dp_channels d))"

lemma length_channel_send [simp]: "length (channel_send msg i channels) = length channels"
  by (simp add: channel_send_def)

lemma length_channel_sends [simp]: "length (fold (channel_send msg) is channels) = length channels"
  by (induction "is" arbitrary: channels) simp_all

lemma channel_send_nth:
  "i < length channels \<Longrightarrow> channel_send msg j channels ! i =
     (if i = j \<and> snd (channels ! i) then (fst (channels ! i) @ [msg], True) else channels ! i)"
  by (auto simp: channel_send_def nth_list_update)

lemma channel_sends:
  "distinct is \<Longrightarrow> i < length channels \<Longrightarrow> fold (channel_send msg) is channels ! i =
     (if i \<in> set is \<and> snd (channels ! i) then (fst (channels ! i) @ [msg], True) else channels ! i)"
proof (induction "is" arbitrary: channels)
  case (Cons j "is")
  then show ?case using Cons.IH [of "channel_send msg j channels"]
    by (cases "i = j") (simp_all add: channel_send_nth)
qed simp

interpretation dispatchers: kept_by dispatcher_step dispatcher_wf
proof unfold_locales
  fix d :: "'m dispatcher" and a assume "dispatcher_wf d"
  then show "dispatcher_wf (dispatcher_step a d)"
    by (cases a) (force simp: dispatcher_wf_def register_def dispatch_msg_def drop_receiver_def
        dispatcher_clear_def)+
qed

text \<open>A receiver hears every message that is dispatched while it is registered, in order.\<close>

definition listening :: "nat \<Rightarrow> 'm dispatcher \<Rightarrow> bool" where
  "listening i d \<longleftrightarrow> i \<in> set (dp_senders d) \<and> snd (dp_channels d ! i)"

fun messages :: "'m dispatcher_action list \<Rightarrow> 'm list" where
  "messages [] = []"
| "messages (DispatchMsg msg # acts) = msg # messages acts"
| "messages (_ # acts) = messages acts"

lemma listening_step:
  assumes d: "dispatcher_wf d" and i: "listening i d" and a: "a \<noteq> DropReceiver i" "a \<noteq> ClearSenders"
  shows "listening i (dispatcher_step a d)
    \<and> fst (dp_channels (dispatcher_step a d) ! i) = fst (dp_channels d ! i) @ messages [a]"
proof -
  have l: "i < length (dp_channels d)" using d i by (auto simp: dispatcher_wf_def listening_def)
  show ?thesis
    using assms l
    by (cases a) (auto simp: listening_def dispatcher_wf_def register_def dispatch_msg_def drop_receiver_def
        nth_append nth_list_update channel_sends)
qed

lemma messages_Cons: "messages (a # acts) = messages [a] @ messages acts"
  by (cases a) simp_all

lemma receiver_hears_all:
  assumes "dispatcher_wf d" and "listening i d" and "list_all (\<lambda>a. a \<noteq> DropReceiver i \<and> a \<noteq> ClearSenders) acts"
  shows "fst (dp_channels (fold dispatcher_step acts d) ! i) = fst (dp_channels d ! i) @ messages acts"
  using assms
proof (induction acts arbitrary: d)
  case (Cons a acts)
  then have "dispatcher_wf (dispatcher_step a d)" by (simp add: dispatchers.step_inv)
  moreover have "listening i (dispatcher_step a d)"
      "fst (dp_channels (dispatcher_step a d) ! i) = fst (dp_channels d ! i) @ messages [a]"
    using listening_step [of d i a] Cons.prems by auto
  ultimately show ?case using Cons by (simp add: messages_Cons [of a acts])
qed simp

section \<open>The debounced negotiation\<close>

text \<open>
  The task of a debouncer sleeps until no call has come for its duration, runs its future, and ends; the
  branches of its \<open>select!\<close> that are ready are taken in any order. \<open>dn_unserved\<close> counts the requests since the
  last offer was started, \<open>dn_swallowed\<close> those of them that came while an offer was being made.
\<close>

datatype (plugins only: code size) debounce_phase = NoDebouncer | DbSleeping | DbRunning | DbFinished

record debounced =
  dn_phase :: debounce_phase
  dn_calls :: nat
  dn_offers :: nat
  dn_unserved :: nat
  dn_swallowed :: nat

definition debounced_new :: debounced where
  "debounced_new = \<lparr>dn_phase = NoDebouncer, dn_calls = 0, dn_offers = 0, dn_unserved = 0, dn_swallowed = 0\<rparr>"

text \<open>\<open>Debouncer::call\<close>: it fails when the task is gone with its receiver.\<close>

definition debouncer_call :: "debounced \<Rightarrow> (unit + unit) \<times> debounced" where
  "debouncer_call d =
     (if dn_phase d = DbSleeping \<or> dn_phase d = DbRunning
      then (Inr (), d\<lparr>dn_calls := dn_calls d + 1\<rparr>) else (Inl (), d))"

definition debounce :: "debounced \<Rightarrow> debounced" where
  "debounce d = d\<lparr>dn_phase := DbSleeping, dn_calls := 0\<rparr>"

definition debounce_negotiation :: "debounced \<Rightarrow> debounced" where
  "debounce_negotiation d =
     (let d = d\<lparr>dn_unserved := dn_unserved d + 1,
                dn_swallowed := dn_swallowed d + (if dn_phase d = DbRunning then 1 else 0)\<rparr> in
      if dn_phase d = NoDebouncer then debounce d
      else case debouncer_call d of (Inl _, d) \<Rightarrow> debounce d | (Inr _, d) \<Rightarrow> d)"

datatype (plugins only: code size) debounce_action =
    RequestNegotiation
  | TaskReceives
  | TimerFires
  | OfferDone

definition debounce_step :: "debounce_action \<Rightarrow> debounced \<Rightarrow> debounced" where
  "debounce_step a d =
     (case a of
        RequestNegotiation \<Rightarrow> debounce_negotiation d
      | TaskReceives \<Rightarrow>
          if dn_phase d = DbSleeping \<and> dn_calls d \<noteq> 0 then d\<lparr>dn_calls := dn_calls d - 1\<rparr> else d
      | TimerFires \<Rightarrow>
          if dn_phase d = DbSleeping
          then d\<lparr>dn_phase := DbRunning, dn_offers := dn_offers d + 1, dn_unserved := 0, dn_swallowed := 0\<rparr> else d
      | OfferDone \<Rightarrow> if dn_phase d = DbRunning then d\<lparr>dn_phase := DbFinished\<rparr> else d)"

definition debounced_inv :: "debounced \<Rightarrow> bool" where
  "debounced_inv d \<longleftrightarrow> (dn_phase d = DbSleeping \<or> dn_unserved d = dn_swallowed d)"

interpretation debounces: kept_by debounce_step debounced_inv
proof unfold_locales
  fix d a assume "debounced_inv d"
  then show "debounced_inv (debounce_step a d)"
    by (cases a; cases "dn_phase d")
      (auto simp: debounced_inv_def debounce_step_def debounce_negotiation_def debounce_def debouncer_call_def)
qed

text \<open>
  Unless the task still sleeps, the requests that no offer followed are those that came while an offer was
  being made; the call on the debouncer succeeds for them, and nothing starts another offer.
\<close>

lemma debounced_requests_served:
  "dn_phase (fold debounce_step acts debounced_new) \<noteq> DbSleeping \<Longrightarrow>
   dn_unserved (fold debounce_step acts debounced_new) = dn_swallowed (fold debounce_step acts debounced_new)"
  using debounces.run_inv [of debounced_new acts] by (simp add: debounced_inv_def debounced_new_def)

lemma debounced_request_swallowed:
  "fold debounce_step [RequestNegotiation, TimerFires, RequestNegotiation, OfferDone, TimerFires] debounced_new =
     \<lparr>dn_phase = DbFinished, dn_calls = 1, dn_offers = 1, dn_unserved = 1, dn_swallowed = 1\<rparr>"
  by code_simp

end
