(* ===== verification/LocalRequests.thy ===== *)
theory LocalRequests
  imports Session Participant
begin

text \<open>
  The requests of the local participant that the server answers
  (\<open>livekit/src/room/participant/local_participant.rs\<close>): changing the metadata, the attributes or the name.
  Each call draws an identifier from the counter of the signal client, sends the request, and only then, when
  its future is polled, registers for the response (\<open>get_response\<close> of the session), with a timeout. What
  else the session does in between are actions of its own.
\<close>

section \<open>Requests and their outcome\<close>

record metadata_update =
  mu_metadata :: string
  mu_name :: string
  mu_attributes :: "(string, string) hmap"
  mu_request_id :: u32

datatype (plugins only: code size) request_reason = ReasonOk | NotFound | NotAllowed | LimitExceeded

text \<open>The getter of the reason falls back to the first one.\<close>

definition request_reason_of :: "int \<Rightarrow> request_reason" where
  "request_reason_of n =
     (if n = 1 then NotFound else if n = 2 then NotAllowed else if n = 3 then LimitExceeded else ReasonOk)"

datatype (plugins only: code size) request_error = RequestRefused request_reason string | RequestTimedOut

definition request_result :: "request_response \<Rightarrow> request_error + unit" where
  "request_result response =
     (case request_reason_of (rqr_reason response) of
        ReasonOk \<Rightarrow> Inr ()
      | reason \<Rightarrow> Inl (RequestRefused reason (rqr_message response)))"

text \<open>The three kinds: what is not changed is sent as it is, except for the attributes.\<close>

datatype (plugins only: code size) participant_change =
  ChangeMetadata string | ChangeAttributes "(string, string) hmap" | ChangeName string

definition update_of :: "participant_change \<Rightarrow> participant_info \<Rightarrow> u32 \<Rightarrow> metadata_update" where
  "update_of change info request_id =
     (case change of
        ChangeMetadata metadata \<Rightarrow>
          \<lparr>mu_metadata = metadata, mu_name = ptc_name info, mu_attributes = [], mu_request_id = request_id\<rparr>
      | ChangeAttributes attributes \<Rightarrow>
          \<lparr>mu_metadata = ptc_metadata info, mu_name = ptc_name info, mu_attributes = attributes,
           mu_request_id = request_id\<rparr>
      | ChangeName name \<Rightarrow>
          \<lparr>mu_metadata = ptc_metadata info, mu_name = name, mu_attributes = [], mu_request_id = request_id\<rparr>)"

section \<open>Calls\<close>

text \<open>
  A call has its request, the slot it registered for the response in the session, and its result; it panics
  if the sender of its slot is dropped.
\<close>

record change_call =
  uc_update :: metadata_update
  uc_rx :: "nat option"
  uc_result :: "(request_error + unit) option"
  uc_panicked :: bool

record 'p requests =
  lr_session :: "'p session"
  lr_request_id :: u32
  lr_info :: participant_info
  lr_updates :: "metadata_update list"
  lr_calls :: "change_call list"

datatype (plugins only: code size) request_action =
    AskChange participant_change
  | AwaitResponse nat
  | ResponseReady nat
  | ResponseElapsed nat
  | InfoChanged participant_info
  | SessionDoes session_action

definition next_request_id :: "'p requests \<Rightarrow> u32 \<times> 'p requests" where
  "next_request_id s = (lr_request_id s, s\<lparr>lr_request_id := lr_request_id s + 1\<rparr>)"

definition ask_change :: "participant_change \<Rightarrow> 'p requests \<Rightarrow> 'p requests" where
  "ask_change change s =
     (case next_request_id s of (request_id, s) \<Rightarrow>
      let update = update_of change (lr_info s) request_id
      in s\<lparr>lr_updates := lr_updates s @ [update],
           lr_calls := lr_calls s @ [\<lparr>uc_update = update, uc_rx = None, uc_result = None, uc_panicked = False\<rparr>]\<rparr>)"

definition await_response :: "nat \<Rightarrow> 'p requests \<Rightarrow> 'p requests" where
  "await_response n s =
     (if n < length (lr_calls s) \<and> uc_rx (lr_calls s ! n) = None
      then (case get_response (mu_request_id (uc_update (lr_calls s ! n))) (lr_session s) of (rx, session) \<Rightarrow>
        s\<lparr>lr_session := session, lr_calls := (lr_calls s)[n := (lr_calls s ! n)\<lparr>uc_rx := Some rx\<rparr>]\<rparr>)
      else s)"

text \<open>A poll of a waiting call: its slot, and at the timeout the slot first.\<close>

definition finish_update :: "nat \<Rightarrow> (change_call \<Rightarrow> change_call) \<Rightarrow> 'p requests \<Rightarrow> 'p requests" where
  "finish_update n f s = s\<lparr>lr_calls := (lr_calls s)[n := f (lr_calls s ! n)]\<rparr>"

definition poll_response :: "bool \<Rightarrow> nat \<Rightarrow> 'p requests \<Rightarrow> 'p requests" where
  "poll_response elapsed n s =
     (if n < length (lr_calls s) \<and> uc_result (lr_calls s ! n) = None \<and> \<not> uc_panicked (lr_calls s ! n)
      then (case uc_rx (lr_calls s ! n) of
          None \<Rightarrow> s
        | Some rx \<Rightarrow>
            (case ss_request_calls (lr_session s) ! rx of
               Val response \<Rightarrow> finish_update n (uc_result_update (\<lambda>_. Some (request_result response))) s
             | SenderDropped \<Rightarrow> finish_update n (uc_panicked_update (\<lambda>_. True)) s
             | NoValue \<Rightarrow>
                 if elapsed then finish_update n (uc_result_update (\<lambda>_. Some (Inl RequestTimedOut))) s else s))
      else s)"

fun request_step :: "'p session_env \<Rightarrow> request_action \<Rightarrow> 'p requests \<Rightarrow> 'p requests" where
  "request_step env (AskChange change) s = ask_change change s"
| "request_step env (AwaitResponse n) s = await_response n s"
| "request_step env (ResponseReady n) s = poll_response False n s"
| "request_step env (ResponseElapsed n) s = poll_response True n s"
| "request_step env (InfoChanged info) s = s\<lparr>lr_info := info\<rparr>"
| "request_step env (SessionDoes act) s = s\<lparr>lr_session := session_step env act (lr_session s)\<rparr>"

definition requests_new :: "participant_info \<Rightarrow> 'p session \<Rightarrow> 'p requests" where
  "requests_new info session =
     \<lparr>lr_session = session, lr_request_id = 1, lr_info = info, lr_updates = [], lr_calls = []\<rparr>"

section \<open>The table of the session\<close>

lemma other_messages_keep_requests:
  "(\<forall>r. m \<noteq> SmRequestResponse r) \<Longrightarrow>
   ss_request_calls (snd (on_signal_event env m s)) = ss_request_calls s
   \<and> ss_pending_requests (snd (on_signal_event env m s)) = ss_pending_requests s"
  by (auto simp: on_signal_event_def on_answer_def on_subscriber_offer_def on_trickle_def
      on_session_disconnected_def on_track_published_def track_tx_def session_emit_def session_signal_def Let_def
      split: signal_message.splits option.splits outcome.splits sum.splits prod.splits)

lemma rtc_events_keep_requests:
  "ss_request_calls (snd (on_rtc_event env now ev s)) = ss_request_calls s
   \<and> ss_pending_requests (snd (on_rtc_event env now ev s)) = ss_pending_requests s"
  by (auto simp: on_rtc_event_def on_data_def on_session_disconnected_def dc_send_def Let_def session_emit_def
      session_signal_def emit_incoming_packet_def
      split: rtc_event.splits list.splits sum.splits option.splits)

definition delivers :: "session_action \<Rightarrow> request_response option" where
  "delivers act = (case act of DoSignal (SigMessage (SmRequestResponse r)) \<Rightarrow> Some r | _ \<Rightarrow> None)"

lemma steps_keep_requests:
  assumes "delivers act = None" and "\<forall>k. act \<noteq> DoGetResponse k"
  shows "ss_request_calls (session_step env act s) = ss_request_calls s
    \<and> ss_pending_requests (session_step env act s) = ss_pending_requests s"
proof (cases act)
  case (DoSignal ev)
  show ?thesis
  proof (cases ev)
    case (SigMessage m)
    then have "\<forall>r. m \<noteq> SmRequestResponse r" using assms(1) DoSignal by (auto simp: delivers_def)
    from other_messages_keep_requests [OF this, of env s] show ?thesis
      using DoSignal SigMessage by (auto simp: signal_turn_def split: handler_end.splits prod.splits)
  qed (simp add: DoSignal signal_turn_def on_session_disconnected_def session_emit_def)
next
  case (DoRtc now ev)
  with rtc_events_keep_requests [of env now ev s] show ?thesis by simp
next
  case (DoSimulate scenario)
  then show ?thesis
    by (cases scenario) (simp_all add: session_simulate_scenario_def simulate_leave_def session_signal_def
        other_messages_keep_requests)
qed (use assms in \<open>auto simp: mute_track_def session_publish_data_def ensure_publisher_connected_def dc_send_def
      publisher_negotiation_needed_def session_set_threshold_def session_signal_def session_emit_def
      session_restart_def restart_publisher_def session_close_def session_inner_close_def Let_def
      add_track_def track_call_ready_def track_call_elapsed_def finish_track_call_def track_tx_def
      remove_track_def remove_pending_track_def
      split: oneshot.splits option.splits sum.splits prod.splits data_packet_kind.splits\<close>)

text \<open>A response is a turn of the signal task.\<close>

lemma delivers_turn:
  "delivers act = Some r \<Longrightarrow>
   session_step env act s = (if ss_signal_stuck s then s else snd (on_request_response r s))"
  by (auto simp: delivers_def signal_turn_def on_signal_event_def on_request_response_def
      split: session_action.splits signal_event.splits signal_message.splits option.splits)

section \<open>The invariant\<close>

abbreviation call_id :: "change_call \<Rightarrow> u32" where
  "call_id c \<equiv> mu_request_id (uc_update c)"

definition delivered :: "request_action list \<Rightarrow> request_response set" where
  "delivered acts = {r. \<exists>act. SessionDoes act \<in> set acts \<and> delivers act = Some r}"

text \<open>A slot of the session belongs to the call that registered it, and holds only a response to its request.\<close>

definition slot_ok :: "request_response set \<Rightarrow> 'p session \<Rightarrow> u32 \<Rightarrow> nat \<Rightarrow> bool" where
  "slot_ok R s k rx \<longleftrightarrow> rx < length (ss_request_calls s) \<and>
     (case ss_request_calls s ! rx of
        Val r \<Rightarrow> r \<in> R \<and> rqr_request_id r = k
      | NoValue \<Rightarrow> ss_pending_requests s k = Some rx
      | SenderDropped \<Rightarrow> False)"

definition update_ok :: "request_response set \<Rightarrow> 'p session \<Rightarrow> change_call \<Rightarrow> bool" where
  "update_ok R s c \<longleftrightarrow> \<not> uc_panicked c
     \<and> (\<forall>rx. uc_rx c = Some rx \<longrightarrow> slot_ok R s (call_id c) rx)
     \<and> (\<forall>res. uc_result c = Some res \<longrightarrow> res = Inl RequestTimedOut
          \<or> (\<exists>r \<in> R. rqr_request_id r = call_id c \<and> res = request_result r))"

definition calls_inv :: "request_response set \<Rightarrow> 'p session \<Rightarrow> change_call list \<Rightarrow> bool" where
  "calls_inv R s cs \<longleftrightarrow>
     (\<forall>n < length cs. call_id (cs ! n) = 1 + of_nat n \<and> update_ok R s (cs ! n))
     \<and> (\<forall>k rx. ss_pending_requests s k = Some rx \<longrightarrow>
          (\<exists>n < length cs. call_id (cs ! n) = k \<and> uc_rx (cs ! n) = Some rx))
     \<and> (\<forall>n < length cs. \<forall>m < length cs. \<forall>rx.
          uc_rx (cs ! n) = Some rx \<longrightarrow> uc_rx (cs ! m) = Some rx \<longrightarrow> n = m)"

definition requests_inv :: "request_response set \<Rightarrow> 'p requests \<Rightarrow> bool" where
  "requests_inv R s \<longleftrightarrow>
     lr_request_id s = 1 + of_nat (length (lr_calls s))
     \<and> lr_updates s = map uc_update (lr_calls s)
     \<and> calls_inv R (lr_session s) (lr_calls s)"

lemma calls_inv_entry:
  assumes "calls_inv R s cs" and "ss_pending_requests s k = Some rx"
  obtains n where "n < length cs" and "call_id (cs ! n) = k" and "uc_rx (cs ! n) = Some rx"
  using assms unfolding calls_inv_def by blast

lemma call_ids:
  assumes "calls_inv R s cs" and "length cs \<le> 2 ^ 32" and "n < length cs" and "m < length cs"
    and "call_id (cs ! n) = call_id (cs ! m)"
  shows "n = m"
proof -
  have "(of_nat n :: u32) = of_nat m" using assms by (simp add: calls_inv_def)
  with assms(2-4) show ?thesis by (simp add: word_of_nat_eq_iff take_bit_nat_eq_self)
qed

lemma update_ok_mono:
  assumes "R \<subseteq> R'" and "update_ok R s c"
  shows "update_ok R' s c"
proof -
  have "slot_ok R s k rx \<Longrightarrow> slot_ok R' s k rx" for k rx
    using assms(1) by (auto simp: slot_ok_def split: oneshot.splits)
  with assms show ?thesis unfolding update_ok_def by blast
qed

lemma calls_inv_mono: "R \<subseteq> R' \<Longrightarrow> calls_inv R s cs \<Longrightarrow> calls_inv R' s cs"
  unfolding calls_inv_def using update_ok_mono by blast

lemma map_keeps: "n < length cs \<Longrightarrow> f c = f (cs ! n) \<Longrightarrow> map f (cs[n := c]) = map f cs"
  by (metis list_update_id map_update)

lemma calls_inv_ask:
  assumes "calls_inv R s cs" and "call_id c = 1 + of_nat (length cs)" and "uc_rx c = None" and "update_ok R s c"
  shows "calls_inv R s (cs @ [c])"
proof -
  have "\<exists>n < length (cs @ [c]). call_id ((cs @ [c]) ! n) = k \<and> uc_rx ((cs @ [c]) ! n) = Some rx"
    if p: "ss_pending_requests s k = Some rx" for k rx
  proof -
    obtain n where "n < length cs" "call_id (cs ! n) = k" "uc_rx (cs ! n) = Some rx"
      using assms(1) p unfolding calls_inv_def by blast
    then show ?thesis by (intro exI [of _ n]) (simp add: nth_append)
  qed
  with assms show ?thesis
    by (auto simp: calls_inv_def nth_append less_Suc_eq)
qed

lemma requests_inv_ask:
  assumes "requests_inv R s"
  shows "requests_inv R (ask_change change s)"
proof -
  have id: "mu_request_id (update_of change info k) = k" for info k
    by (simp add: update_of_def split: participant_change.split)
  have new: "update_ok R (lr_session s) \<lparr>uc_update = u, uc_rx = None, uc_result = None, uc_panicked = False\<rparr>" for u
    by (simp add: update_ok_def)
  show ?thesis
    using assms new by (simp add: requests_inv_def ask_change_def next_request_id_def Let_def id calls_inv_ask)
qed

lemma calls_inv_finish:
  assumes "calls_inv R s cs" and "n < length cs" and "uc_update c = uc_update (cs ! n)" and "uc_rx c = uc_rx (cs ! n)"
    and "update_ok R s c"
  shows "calls_inv R s (cs[n := c])"
proof -
  have "call_id (cs[n := c] ! m) = call_id (cs ! m)" "uc_rx (cs[n := c] ! m) = uc_rx (cs ! m)" for m
    using assms(2-4) by (cases "m = n"; simp)+
  with assms(1,2,5) show ?thesis by (simp add: calls_inv_def nth_list_update)
qed

lemma requests_inv_poll:
  assumes "requests_inv R s"
  shows "requests_inv R (poll_response elapsed n s)"
proof (cases "n < length (lr_calls s) \<and> uc_result (lr_calls s ! n) = None \<and> \<not> uc_panicked (lr_calls s ! n)")
  case True
  let ?c = "lr_calls s ! n"
  have ok: "update_ok R (lr_session s) ?c" using assms True by (simp add: requests_inv_def calls_inv_def)
  have keep: "requests_inv R (finish_update n f s)"
    if "uc_update (f ?c) = uc_update ?c" "uc_rx (f ?c) = uc_rx ?c" "update_ok R (lr_session s) (f ?c)" for f
    using assms True that by (simp add: requests_inv_def finish_update_def map_keeps calls_inv_finish)
  show ?thesis
  proof (cases "uc_rx ?c")
    case (Some rx)
    show ?thesis
    proof (cases "ss_request_calls (lr_session s) ! rx")
      case NoValue
      have "requests_inv R (finish_update n (uc_result_update (\<lambda>_. Some (Inl RequestTimedOut))) s)"
        using ok by (intro keep) (auto simp: update_ok_def)
      with True Some NoValue assms show ?thesis by (simp add: poll_response_def)
    next
      case (Val r)
      have "requests_inv R (finish_update n (uc_result_update (\<lambda>_. Some (request_result r))) s)"
        using ok Some Val by (intro keep) (auto simp: update_ok_def slot_ok_def)
      with True Some Val show ?thesis by (simp add: poll_response_def)
    next
      case SenderDropped
      with ok Some show ?thesis by (auto simp: update_ok_def slot_ok_def)
    qed
  qed (use True assms in \<open>simp add: poll_response_def\<close>)
qed (use assms in \<open>auto simp: poll_response_def\<close>)

text \<open>Registering: the call has no entry yet, since no other call has its identifier.\<close>

lemma requests_inv_await:
  assumes inv: "requests_inv R s" and few: "length (lr_calls s) \<le> 2 ^ 32"
  shows "requests_inv R (await_response n s)"
proof (cases "n < length (lr_calls s) \<and> uc_rx (lr_calls s ! n) = None")
  case True
  let ?cs = "lr_calls s" and ?s = "lr_session s"
  let ?rx = "length (ss_request_calls ?s)" and ?k = "call_id (?cs ! n)"
  have calls: "calls_inv R ?s ?cs" using inv by (simp add: requests_inv_def)
  have ok: "update_ok R ?s (?cs ! m)" if "m < length ?cs" for m using calls that by (simp add: calls_inv_def)
  have own: "m = n" if "m < length ?cs" "call_id (?cs ! m) = ?k" for m
    using call_ids [OF calls few] that True by blast
  have pending: "\<exists>m < length ?cs. call_id (?cs ! m) = k \<and> uc_rx (?cs ! m) = Some rx"
    if "ss_pending_requests ?s k = Some rx" for k rx
    using calls that by (simp add: calls_inv_def)
  have free: "ss_pending_requests ?s ?k = None"
    using pending own True by (cases "ss_pending_requests ?s ?k") fastforce+
  let ?s' = "?s\<lparr>ss_pending_requests := (ss_pending_requests ?s)(?k \<mapsto> ?rx),
    ss_request_calls := ss_request_calls ?s @ [NoValue]\<rparr>"
  let ?c = "(?cs ! n)\<lparr>uc_rx := Some ?rx\<rparr>"
  have slot: "slot_ok R ?s' k rx" if "slot_ok R ?s k rx" for k rx
    using that free by (auto simp: slot_ok_def nth_append split: oneshot.splits)
  have old: "update_ok R ?s' (?cs ! m)" if "m < length ?cs" for m
    using ok [OF that] slot by (simp add: update_ok_def)
  have new: "update_ok R ?s' ?c"
    using ok [of n] True by (simp add: update_ok_def slot_ok_def)
  have bound: "rx < ?rx" if "m < length ?cs" "uc_rx (?cs ! m) = Some rx" for m rx
    using ok that by (auto simp: update_ok_def slot_ok_def)
  have inj: "m = m'" if "m < length ?cs" "m' < length ?cs" "uc_rx (?cs ! m) = Some rx" "uc_rx (?cs ! m') = Some rx"
    for m m' rx
    using calls that by (simp add: calls_inv_def)
  have entry: "\<exists>m < length ?cs. call_id (?cs[n := ?c] ! m) = k \<and> uc_rx (?cs[n := ?c] ! m) = Some rx"
    if p: "ss_pending_requests ?s' k = Some rx" for k rx
  proof (cases "k = ?k")
    case True
    with p \<open>n < length ?cs \<and> _\<close> show ?thesis by (intro exI [of _ n]) simp
  next
    case False
    then obtain m where "m < length ?cs" "call_id (?cs ! m) = k" "uc_rx (?cs ! m) = Some rx"
      using p pending by auto
    moreover from this False have "m \<noteq> n" by auto
    ultimately show ?thesis by (intro exI [of _ m]) simp
  qed
  have "calls_inv R ?s' (?cs[n := ?c])"
    unfolding calls_inv_def
  proof (intro conjI allI impI)
    show "call_id (?cs[n := ?c] ! m) = 1 + of_nat m" if "m < length (?cs[n := ?c])" for m
      using calls that True by (auto simp: calls_inv_def nth_list_update)
    show "update_ok R ?s' (?cs[n := ?c] ! m)" if "m < length (?cs[n := ?c])" for m
      using old [of m] new that True by (cases "m = n") simp_all
    show "\<exists>m < length (?cs[n := ?c]). call_id (?cs[n := ?c] ! m) = k \<and> uc_rx (?cs[n := ?c] ! m) = Some rx"
      if "ss_pending_requests ?s' k = Some rx" for k rx
      using entry [OF that] by simp
    show "m = m'" if "m < length (?cs[n := ?c])" "m' < length (?cs[n := ?c])"
        "uc_rx (?cs[n := ?c] ! m) = Some rx" "uc_rx (?cs[n := ?c] ! m') = Some rx" for m m' rx
      using that bound [of m] bound [of m'] inj [of m m'] True by (auto simp: nth_list_update split: if_splits)
  qed
  moreover have "await_response n s = s\<lparr>lr_session := ?s', lr_calls := ?cs[n := ?c]\<rparr>"
    using True free by (simp add: await_response_def get_response_def Let_def)
  ultimately show ?thesis using inv True by (simp add: requests_inv_def map_keeps)
qed (use inv in \<open>auto simp: await_response_def\<close>)

text \<open>A response goes to the slot of the call that has its identifier.\<close>

lemma calls_inv_response:
  assumes calls: "calls_inv R s cs" and few: "length cs \<le> 2 ^ 32" and "r \<in> R"
  shows "calls_inv R (snd (on_request_response r s)) cs"
proof (cases "ss_pending_requests s (rqr_request_id r)")
  case None
  with calls show ?thesis by (simp add: on_request_response_def)
next
  case (Some tx)
  let ?k = "rqr_request_id r"
  let ?s' = "s\<lparr>ss_request_calls := (ss_request_calls s)[tx := Val r], ss_pending_requests := (ss_pending_requests s)(?k := None)\<rparr>"
  obtain n where n: "n < length cs" "call_id (cs ! n) = ?k" "uc_rx (cs ! n) = Some tx"
    using calls_inv_entry [OF calls Some] .
  have "update_ok R ?s' (cs ! m)" if m: "m < length cs" for m
  proof -
    have ok: "update_ok R s (cs ! m)" using calls m by (simp add: calls_inv_def)
    have "slot_ok R ?s' (call_id (cs ! m)) rx" if rx: "uc_rx (cs ! m) = Some rx" for rx
    proof (cases "m = n")
      case True
      with n rx ok assms(3) show ?thesis by (auto simp: update_ok_def slot_ok_def)
    next
      case False
      with calls m n rx have "rx \<noteq> tx" by (auto simp: calls_inv_def)
      moreover have "call_id (cs ! m) \<noteq> ?k" using call_ids [OF calls few m n(1)] n(2) False by auto
      ultimately show ?thesis using ok rx by (auto simp: update_ok_def slot_ok_def split: oneshot.splits)
    qed
    with ok show ?thesis by (simp add: update_ok_def)
  qed
  moreover have "on_request_response r s = (HandlerOk, ?s')"
    using Some by (simp add: on_request_response_def request_tx_def)
  ultimately show ?thesis using calls by (auto simp: calls_inv_def split: if_splits)
qed

lemma calls_inv_frame:
  assumes "ss_request_calls s' = ss_request_calls s" and "ss_pending_requests s' = ss_pending_requests s"
  shows "calls_inv R s' cs = calls_inv R s cs"
proof -
  have "slot_ok R s' k rx = slot_ok R s k rx" for k rx by (simp add: slot_ok_def assms split: oneshot.split)
  then show ?thesis by (simp add: calls_inv_def update_ok_def assms)
qed

lemma requests_inv_session:
  assumes inv: "requests_inv R s" and few: "length (lr_calls s) \<le> 2 ^ 32" and act: "\<forall>k. act \<noteq> DoGetResponse k"
    and R: "\<And>r. delivers act = Some r \<Longrightarrow> r \<in> R"
  shows "requests_inv R (s\<lparr>lr_session := session_step env act (lr_session s)\<rparr>)"
proof (cases "delivers act")
  case None
  from steps_keep_requests [OF this act, of env "lr_session s"] inv show ?thesis
    by (simp add: requests_inv_def calls_inv_frame [of "session_step env act (lr_session s)" "lr_session s"])
next
  case (Some r)
  have "calls_inv R (lr_session s) (lr_calls s)" using inv by (simp add: requests_inv_def)
  from calls_inv_response [OF this few R [OF Some]] inv show ?thesis
    by (simp add: requests_inv_def delivers_turn [OF Some])
qed

lemma delivered_Nil [simp]: "delivered [] = {}"
  by (simp add: delivered_def)

lemma delivered_Cons: "delivered (a # acts) = (case a of SessionDoes act \<Rightarrow> set_option (delivers act) | _ \<Rightarrow> {}) \<union> delivered acts"
  by (auto simp: delivered_def split: request_action.splits)

lemma calls_grow:
  "length (lr_calls (request_step env a s)) \<le> Suc (length (lr_calls s))"
  by (cases a) (simp_all add: ask_change_def next_request_id_def await_response_def poll_response_def finish_update_def Let_def
    split: prod.split option.split oneshot.split)

lemma requests_inv_step:
  assumes "requests_inv R s" and "length (lr_calls s) \<le> 2 ^ 32" and "\<forall>k. a \<noteq> SessionDoes (DoGetResponse k)"
    and "delivered [a] \<subseteq> R"
  shows "requests_inv R (request_step env a s)"
proof (cases a)
  case (SessionDoes act)
  have "requests_inv R (s\<lparr>lr_session := session_step env act (lr_session s)\<rparr>)"
    using assms SessionDoes by (intro requests_inv_session) (auto simp: delivered_Cons)
  with SessionDoes show ?thesis by simp
next
  case (InfoChanged info)
  with assms(1) show ?thesis by (simp add: requests_inv_def)
qed (use assms(1,2) requests_inv_ask requests_inv_poll requests_inv_await in simp_all)

lemma requests_inv_run:
  assumes "requests_inv R s" and "length (lr_calls s) + length acts \<le> 2 ^ 32"
    and "\<forall>k. SessionDoes (DoGetResponse k) \<notin> set acts" and "delivered acts \<subseteq> R"
  shows "requests_inv R (fold (request_step env) acts s)"
  using assms
proof (induction acts arbitrary: s)
  case (Cons a acts)
  have "requests_inv R (request_step env a s)"
    using Cons.prems by (intro requests_inv_step) (auto simp: delivered_Cons)
  moreover have "length (lr_calls (request_step env a s)) + length acts \<le> 2 ^ 32"
    using Cons.prems(2) calls_grow [of env a s] by simp
  ultimately show ?case using Cons by (simp add: delivered_Cons)
qed simp

lemma requests_inv_new:
  assumes "session_new join_response fast_publish url now pub sub = Inr session"
  shows "requests_inv R (requests_new info session)"
  using assms by (auto simp: session_new_def requests_new_def requests_inv_def calls_inv_def split: option.splits)

section \<open>Answers\<close>

text \<open>
  A registered call is answered by the response to its request, if the signal task still runs, and a
  response that arrives before the call has registered is lost: the call then times out.
\<close>

definition response_arrives :: "request_response \<Rightarrow> request_action" where
  "response_arrives r = SessionDoes (DoSignal (SigMessage (SmRequestResponse r)))"

lemma delivers_Some: "delivers act = Some r \<longleftrightarrow> act = DoSignal (SigMessage (SmRequestResponse r))"
  unfolding delivers_def
  by (cases act; simp split: signal_event.split) (simp split: signal_message.split)

lemma delivered_response: "r \<in> delivered acts \<longleftrightarrow> response_arrives r \<in> set acts"
  by (auto simp: delivered_def delivers_Some response_arrives_def)

lemma response_reaches_call:
  assumes inv: "requests_inv R s" and n: "n < length (lr_calls s)"
    and waits: "uc_rx (lr_calls s ! n) = Some rx" "uc_result (lr_calls s ! n) = None"
      "ss_request_calls (lr_session s) ! rx = NoValue"
    and r: "rqr_request_id r = call_id (lr_calls s ! n)" and task: "\<not> ss_signal_stuck (lr_session s)"
  shows "uc_result (lr_calls (fold (request_step env) [response_arrives r, ResponseReady n] s) ! n)
    = Some (request_result r)"
proof -
  have ok: "update_ok R (lr_session s) (lr_calls s ! n)" using inv n by (simp add: requests_inv_def calls_inv_def)
  then have "rx < length (ss_request_calls (lr_session s))" "ss_pending_requests (lr_session s) (rqr_request_id r) = Some rx"
      "\<not> uc_panicked (lr_calls s ! n)"
    using waits r by (auto simp: update_ok_def slot_ok_def)
  with n waits task show ?thesis
    by (simp add: response_arrives_def delivers_turn delivers_Some on_request_response_def request_tx_def poll_response_def
        finish_update_def del: session_step.simps)
qed

text \<open>
  C31. Changing metadata, attributes or name: in every run, however the calls, the server and the session
  interleave, the requests sent have different identifiers, no call panics, and each call that ended either
  timed out or returned what the response to its own request says.
\<close>

theorem metadata_requests_answered:
  assumes "session_new join_response fast_publish url now pub sub = Inr session"
    and "length acts \<le> 2 ^ 32" and "\<forall>k. SessionDoes (DoGetResponse k) \<notin> set acts"
    and s: "s = fold (request_step env) acts (requests_new info session)"
  shows "map mu_request_id (lr_updates s) = map (\<lambda>n. 1 + of_nat n) [0..<length (lr_calls s)]
    \<and> (\<forall>c \<in> set (lr_calls s). uc_update c \<in> set (lr_updates s) \<and> \<not> uc_panicked c
        \<and> (\<forall>res. uc_result c = Some res \<longrightarrow> res = Inl RequestTimedOut
             \<or> (\<exists>r. response_arrives r \<in> set acts \<and> rqr_request_id r = mu_request_id (uc_update c)
                  \<and> res = request_result r)))"
proof -
  have inv: "requests_inv (delivered acts) s"
    unfolding s using assms(2,3)
    by (intro requests_inv_run requests_inv_new [OF assms(1)]) (simp_all add: requests_new_def)
  have "map mu_request_id (lr_updates s) = map (\<lambda>n. 1 + of_nat n) [0..<length (lr_calls s)]"
    using inv by (intro nth_equalityI) (auto simp: requests_inv_def calls_inv_def)
  moreover have "update_ok (delivered acts) (lr_session s) c" if "c \<in> set (lr_calls s)" for c
    using inv that by (auto simp: requests_inv_def calls_inv_def in_set_conv_nth)
  then have "\<not> uc_panicked c \<and> (\<forall>res. uc_result c = Some res \<longrightarrow> res = Inl RequestTimedOut
      \<or> (\<exists>r. response_arrives r \<in> set acts \<and> rqr_request_id r = call_id c \<and> res = request_result r))"
    if "c \<in> set (lr_calls s)" for c
    using that unfolding update_ok_def Bex_def delivered_response by blast
  ultimately show ?thesis using inv by (simp add: requests_inv_def)
qed

definition demo_requests :: "request_action list" where
  "demo_requests =
     [AskChange (ChangeName ''ann''), AskChange (ChangeMetadata ''m''), AwaitResponse 1, AwaitResponse 0,
      response_arrives \<lparr>rqr_request_id = 2, rqr_reason = 2, rqr_message = ''no''\<rparr>,
      response_arrives \<lparr>rqr_request_id = 1, rqr_reason = 0, rqr_message = []\<rparr>, ResponseReady 0, ResponseReady 1]"

definition demo_info :: participant_info where
  "demo_info = participant_info_new ''PA_1'' ''me'' [] [] [] Standard"

lemma metadata_requests_answered_witness:
  "let s = fold (request_step (example_session_env default_packet)) demo_requests
       (requests_new demo_info (example_session Stable))
   in map uc_result (lr_calls s) = [Some (Inr ()), Some (Inl (RequestRefused NotAllowed ''no''))]
     \<and> map mu_request_id (lr_updates s) = [1, 2]"
proof -
  let ?s = "fold (request_step (example_session_env default_packet)) demo_requests
    (requests_new demo_info (example_session Stable))"
  have "map uc_result (lr_calls ?s) = [Some (Inr ()), Some (Inl (RequestRefused NotAllowed ''no''))]"
    by (simp add: demo_requests_def requests_new_def example_session_eval ask_change_def next_request_id_def update_of_def
        await_response_def get_response_def response_arrives_def signal_turn_def on_signal_event_def
        on_request_response_def request_tx_def poll_response_def finish_update_def request_result_def
        request_reason_of_def Let_def)
  moreover from this have "length (lr_calls ?s) = 2" by (auto dest: arg_cong [where f = length])
  moreover have "map mu_request_id (lr_updates ?s) = map (\<lambda>n. 1 + of_nat n) [0..<length (lr_calls ?s)]"
    using metadata_requests_answered [OF example_session_new, of demo_requests ?s "example_session_env default_packet" demo_info]
    by (simp add: demo_requests_def response_arrives_def)
  ultimately show ?thesis by (simp add: upt_rec)
qed

text \<open>The flaw: the response to a call that has not registered yet is dropped.\<close>

lemma early_response_lost:
  "let s = fold (request_step (example_session_env default_packet))
       [AskChange (ChangeName ''ann''), response_arrives \<lparr>rqr_request_id = 1, rqr_reason = 0, rqr_message = []\<rparr>,
        AwaitResponse 0, ResponseReady 0, ResponseElapsed 0] (requests_new demo_info (example_session Stable))
   in map uc_result (lr_calls s) = [Some (Inl RequestTimedOut)]"
  by (simp add: requests_new_def example_session_eval ask_change_def next_request_id_def update_of_def
      await_response_def get_response_def response_arrives_def signal_turn_def on_signal_event_def
      on_request_response_def request_tx_def poll_response_def finish_update_def Let_def)

end
