(* ===== verification/LocalPackets.thy ===== *)
theory LocalPackets
  imports Session Engine Roster
begin

text \<open>
  The packets of the local participant for the application
  (\<open>livekit/src/room/participant/local_participant.rs\<close>): chat messages and their edits, data, transcriptions
  and DTMF tones, from the call to what the application behind another room is told. Identifiers and time
  stamps are read from the environment.
\<close>

section \<open>Composing packets\<close>

record user_data =
  ud_payload :: "byte list"
  ud_topic :: "string option"
  ud_reliable :: bool
  ud_destination_identities :: "participant_identity list"

definition new_chat_message :: "string \<Rightarrow> int \<Rightarrow> string \<Rightarrow> proto_chat_message" where
  "new_chat_message i now text =
     \<lparr>pcm_id = i, pcm_timestamp = now, pcm_edit_timestamp = None, pcm_message = text, pcm_deleted = False,
      pcm_generated = False\<rparr>"

definition edited_chat_message :: "string \<Rightarrow> chat_message \<Rightarrow> int \<Rightarrow> proto_chat_message" where
  "edited_chat_message edit_text original now =
     chat_message_to_proto (original\<lparr>cm_message := edit_text, cm_edit_timestamp := Some now\<rparr>)"

definition chat_packet ::
    "proto_chat_message \<Rightarrow> string list option \<Rightarrow> string option \<Rightarrow> data_packet" where
  "chat_packet message destination_identities sender_identity =
     default_packet\<lparr>dp_value := Some (ChatMessageValue message),
       dp_participant_identity := unwrap_or [] sender_identity,
       dp_destination_identities := unwrap_or [] destination_identities\<rparr>"

definition user_data_kind :: "user_data \<Rightarrow> data_packet_kind" where
  "user_data_kind d = (if ud_reliable d then Reliable else Lossy)"

definition user_data_packet :: "user_data \<Rightarrow> data_packet" where
  "user_data_packet d =
     default_packet\<lparr>dp_kind := data_packet_kind_number (user_data_kind d),
       dp_destination_identities := ud_destination_identities d,
       dp_value := Some (User
         \<lparr>up_participant_sid = [], up_participant_identity = [], up_payload = ud_payload d,
          up_destination_sids = [], up_destination_identities = [], up_topic = ud_topic d, up_id = None,
          up_start_time = None, up_end_time = None, up_nonce = []\<rparr>)\<rparr>"

definition transcription_packet :: "string \<Rightarrow> string \<Rightarrow> transcription_segment list \<Rightarrow> data_packet" where
  "transcription_packet participant_identity track_id segments =
     default_packet\<lparr>dp_value := Some (TranscriptionValue
       \<lparr>ptr_transcribed_participant_identity = participant_identity, ptr_track_id = track_id,
        ptr_segments = segments\<rparr>)\<rparr>"

definition dtmf_packet :: "u32 \<Rightarrow> string \<Rightarrow> participant_identity list \<Rightarrow> data_packet" where
  "dtmf_packet code digit destination_identities =
     default_packet\<lparr>dp_value := Some (SipDtmf \<lparr>sd_code = code, sd_digit = digit\<rparr>),
       dp_destination_identities := destination_identities\<rparr>"

text \<open>The calls, with what they hand to \<open>publish_data\<close>.\<close>

datatype (plugins only: code size) local_packet =
    SendChat string int string "string list option" "string option"
  | EditChat string chat_message int "string list option" "string option"
  | PublishUserData user_data
  | PublishTranscription string string "transcription_segment list"
  | PublishDtmf u32 string "participant_identity list"

fun packet_of :: "local_packet \<Rightarrow> data_packet \<times> data_packet_kind" where
  "packet_of (SendChat i now text destinations sender) =
     (chat_packet (new_chat_message i now text) destinations sender, Reliable)"
| "packet_of (EditChat text original now destinations sender) =
     (chat_packet (edited_chat_message text original now) destinations sender, Reliable)"
| "packet_of (PublishUserData d) = (user_data_packet d, user_data_kind d)"
| "packet_of (PublishTranscription identity track_id segments) =
     (transcription_packet identity track_id segments, Reliable)"
| "packet_of (PublishDtmf code digit destinations) = (dtmf_packet code digit destinations, Reliable)"

text \<open>What a chat call returns: the message as it went out.\<close>

definition chat_returned :: "local_packet \<Rightarrow> chat_message option" where
  "chat_returned p =
     (case dp_value (fst (packet_of p)) of
        Some (ChatMessageValue m) \<Rightarrow> Some (chat_message_from_proto m) | _ \<Rightarrow> None)"

definition publish_local ::
    "bool \<Rightarrow> connection_poll list \<Rightarrow> local_packet \<Rightarrow> nat \<Rightarrow> 'p session \<Rightarrow> (engine_error + unit) \<times> 'p session" where
  "publish_local dc_open polls p completion_tx =
     session_publish_data dc_open polls (fst (packet_of p)) (snd (packet_of p)) False completion_tx"

section \<open>What the other side is told\<close>

text \<open>
  The event of the room for a packet from the participant \<open>sender\<close>; \<open>None\<close> is the panic of the room task
  on a transcription whose track has no valid sid.
\<close>

fun told_of :: "room \<Rightarrow> remote_participant \<Rightarrow> local_packet \<Rightarrow> room_event option" where
  "told_of r sender (PublishUserData d) =
     Some (ReDataReceived (ud_payload d) (ud_topic d) (user_data_kind d) (Some (rpt_obj sender)))"
| "told_of r sender (PublishTranscription identity track_id segments) =
     (if starts_with TRACK_PREFIX track_id
      then Some (ReTranscriptionReceived (get_local_or_remote_participant identity r)
        (if (case get_local_or_remote_participant identity r of
               None \<Rightarrow> False
             | Some LocalRef \<Rightarrow> map_of (lcp_publications (rm_local r)) track_id \<noteq> None
             | Some (RemoteRef _) \<Rightarrow> (case get_participant_by_identity identity r of
                 None \<Rightarrow> False | Some p \<Rightarrow> get_track_publication track_id p \<noteq> None))
         then Some track_id else None) segments)
      else None)"
| "told_of r sender (PublishDtmf code digit _) =
     Some (ReSipDTMFReceived code (if digit = [] then None else Some digit) (Some (rpt_obj sender)))"
| "told_of r sender p = map_option (\<lambda>m. ReChatMessage m (rpt_obj sender)) (chat_returned p)"

section \<open>From call to event\<close>

text \<open>Publishing puts the packet, in the name of the local participant, into the channel of the data channel task.\<close>

definition published_as :: "local_packet \<Rightarrow> session_participant_info \<Rightarrow> data_packet" where
  "published_as p info =
     (fst (packet_of p))\<lparr>dp_participant_identity := spi_identity info, dp_participant_sid := spi_sid info\<rparr>"

lemma published:
  assumes "publish_local dc_open polls p completion_tx s = (Inr (), s')"
  shows "ss_dc_events s' = ss_dc_events s @ [\<lparr>de_kind = snd (packet_of p),
    de_detail = PublishPacket (published_as p (ss_participant_info s)) completion_tx\<rparr>]"
proof -
  have "ss_dc_events (snd (ensure_publisher_connected dc_open polls s)) = ss_dc_events s"
      "ss_participant_info (snd (ensure_publisher_connected dc_open polls s)) = ss_participant_info s"
    by (simp_all add: ensure_publisher_connected_def publisher_negotiation_needed_def Let_def)
  then show ?thesis
    using assms
    by (auto simp: publish_local_def session_publish_data_def dc_send_def publish_data_def published_as_def
        split: prod.splits sum.splits if_splits)
qed

lemma packet_values:
  obtains v where "dp_value (fst (packet_of p)) = Some v"
  by (cases p) (auto simp: chat_packet_def user_data_packet_def transcription_packet_def dtmf_packet_def)

text \<open>The events of the session and the engine that carry the packet.\<close>

definition engine_event_of :: "session_participant_info \<Rightarrow> local_packet \<Rightarrow> engine_event" where
  "engine_event_of info p =
     (case p of
        PublishUserData d \<Rightarrow>
          EeData (ok (participant_sid_try_from (spi_sid info))) (Some (spi_identity info)) (ud_payload d) (ud_topic d)
            (user_data_kind d)
      | PublishTranscription identity track_id segments \<Rightarrow> EeTranscription identity track_id segments
      | PublishDtmf code digit _ \<Rightarrow>
          EeSipDTMF (Some (spi_identity info)) code (if digit = [] then None else Some digit)
      | SendChat i now text _ _ \<Rightarrow>
          EeChatMessage (spi_identity info) (chat_message_from_proto (new_chat_message i now text))
      | EditChat text original now _ _ \<Rightarrow>
          EeChatMessage (spi_identity info) (chat_message_from_proto (edited_chat_message text original now)))"

lemma packet_to_engine:
  assumes "se_decode env data = Inr ((published_as p info)\<lparr>dp_sequence := n\<rparr>)"
    and sid: "ok (participant_sid_try_from (spi_sid info)) = Some (spi_sid info)"
  shows "\<exists>ev. ss_events (snd (on_rtc_event env now (RtcData data True (snd (packet_of p))) s)) = ss_events s @ [ev]
    \<and> eg_out (on_session_event ev e) = eg_out e @ [engine_event_of info p]"
proof -
  obtain v where v: "dp_value (fst (packet_of p)) = Some v" by (rule packet_values)
  let ?packet = "(published_as p info)\<lparr>dp_sequence := n\<rparr>"
  have packet: "dp_value ?packet = Some v" by (simp add: published_as_def v)
  have "\<exists>ev. incoming_packet_event (snd (packet_of p)) (?packet\<lparr>dp_value := None\<rparr>) v = Some ev
      \<and> eg_out (on_session_event ev e) = eg_out e @ [engine_event_of info p]"
    using v sid
    by (cases p) (auto simp: incoming_packet_event_def published_as_def identity_try_from_def engine_event_of_def
        chat_packet_def user_data_packet_def transcription_packet_def dtmf_packet_def on_session_event_def
        engine_send_def Let_def)
  then obtain ev where "incoming_packet_event (snd (packet_of p)) (?packet\<lparr>dp_value := None\<rparr>) v = Some ev"
      "eg_out (on_session_event ev e) = eg_out e @ [engine_event_of info p]" by blast
  with incoming_data_event [OF assms(1) packet] show ?thesis by blast
qed

lemma engine_to_room:
  assumes "get_participant_by_identity (spi_identity info) r = Some sender" and "told_of r sender p = Some event"
  shows "rm_outputs (room_turn renv (engine_event_of info p) r) = rm_outputs r @ [Dispatch event]"
  using assms
  by (cases p)
    (auto simp: engine_event_of_def room_turn_def on_engine_event_def handle_data_def handle_chat_message_def
      handle_dtmf_def handle_transcription_def dispatch_def room_out_def chat_returned_def chat_packet_def track_sid_try_from_def
      try_from_prefix_def Let_def split: if_splits)

text \<open>
  C11. What a local participant with a valid sid publishes for the application - chat, edits, data, tones,
  transcriptions of a track with a valid sid - is told to the application of another room as it was sent and
  as the call returned it, if that room knows the sender: in his name, whatever name the packet itself
  claims, but a transcription in the name of the participant it transcribes. A transcription with an invalid
  track sid has no \<open>told_of\<close>: it panics the task of the receiving room (\<open>bad_transcription_panics\<close>).
\<close>

theorem local_packet_received:
  assumes "publish_local dc_open polls p completion_tx s = (Inr (), s')"
    and "last (ss_dc_events s') = \<lparr>de_kind = kind, de_detail = PublishPacket packet completion_tx\<rparr>"
    and "se_decode env data = Inr (packet\<lparr>dp_sequence := n\<rparr>)"
    and "ok (participant_sid_try_from (spi_sid (ss_participant_info s))) = Some (spi_sid (ss_participant_info s))"
    and "get_participant_by_identity (spi_identity (ss_participant_info s)) r = Some sender"
    and "told_of r sender p = Some event"
  shows "\<exists>ev eev. ss_events (snd (on_rtc_event env now (RtcData data True kind) s2)) = ss_events s2 @ [ev]
    \<and> eg_out (on_session_event ev e) = eg_out e @ [eev]
    \<and> rm_outputs (room_turn renv eev r) = rm_outputs r @ [Dispatch event]"
proof -
  have "kind = snd (packet_of p)" "packet = published_as p (ss_participant_info s)"
    using published [OF assms(1)] assms(2) by auto
  with packet_to_engine [OF _ assms(4)] assms(3) engine_to_room [OF assms(5,6)] show ?thesis by blast
qed

definition demo_sender :: "example_pc session" where
  "demo_sender =
     (example_session Stable)\<lparr>ss_participant_info := \<lparr>spi_sid = ''PA_1'', spi_identity = ''bob''\<rparr>\<rparr>"

lemma local_packet_received_witness:
  "\<exists>r ev eev. room_connect example_welcome True = Some r
     \<and> eg_out (on_session_event ev (engine_start [] [])) = [eev]
     \<and> rm_outputs (room_turn example_env eev r)
         = rm_outputs r @ [Dispatch (ReSipDTMFReceived 5 (Some ''five'') (Some 0))]"
proof -
  let ?p = "PublishDtmf 5 ''five'' []"
  let ?packet = "published_as ?p (ss_participant_info demo_sender)"
  have "map_option (\<lambda>r. map_option rpt_obj (get_participant_by_identity ''bob'' r)) (room_connect example_welcome True)
      = Some (Some 0)"
    by code_simp
  then obtain r sender where r: "room_connect example_welcome True = Some r"
    "get_participant_by_identity ''bob'' r = Some sender" "rpt_obj sender = 0" by auto
  obtain s' where s': "publish_local True [] ?p 0 demo_sender = (Inr (), s')"
    by (auto simp: publish_local_def session_publish_data_def ensure_publisher_connected_def Let_def
        publisher_negotiation_needed_def demo_sender_def example_session_eval)
  have "last (ss_dc_events s') = \<lparr>de_kind = Reliable, de_detail = PublishPacket ?packet 0\<rparr>"
    using published [OF s'] by simp
  from local_packet_received [OF s' this, of "example_session_env (?packet\<lparr>dp_sequence := 1\<rparr>)" "[]" 1 r sender
      "ReSipDTMFReceived 5 (Some ''five'') (Some 0)" 0 "example_session Stable" "engine_start [] []" example_env] r
  show ?thesis
    by (auto simp: example_session_env_def demo_sender_def engine_start_def)
qed

text \<open>The flaw: a transcription whose track has no valid sid stops the room task of everybody who receives it.\<close>

lemma bad_transcription_panics:
  "\<not> starts_with TRACK_PREFIX track_id \<Longrightarrow>
   on_engine_event renv (EeTranscription identity track_id segments) r = Panicked r"
  by (simp add: on_engine_event_def handle_transcription_def track_sid_try_from_def try_from_prefix_def)

end
