(* ===== verification/FfiRequests.thy ===== *)
theory FfiRequests
  imports FfiMedia
begin

text \<open>
  The requests of the foreign function interface (\<open>livekit-ffi/src/server/requests.rs\<close>, with the
  methods they call in \<open>room.rs\<close>, \<open>participant.rs\<close> and \<open>data_stream.rs\<close>, and \<open>cabi.rs\<close>): each handler
  with its lookups and early returns, the dispatch, and the whole interface as a step function. The
  requests of \<open>FfiMedia\<close> are one of its cases.
\<close>

section \<open>Requests\<close>

text \<open>The messages of \<open>ffi_request\<close>, in groups by the object a request is made of.\<close>

type_synonym permission_request = "string \<times> bool option \<times> string list"

datatype (plugins only: code size) room_request =
    ReqPublishTrack handle_id handle_id
  | ReqUnpublishTrack handle_id string
  | ReqPublishData handle_id "byte list" bool "string option" "string list"
  | ReqPublishTranscription handle_id string string "transcription_segment list"
  | ReqPublishSipDtmf handle_id u32 string "string list"
  | ReqSetLocalMetadata handle_id string
  | ReqSetLocalName handle_id string
  | ReqSetLocalAttributes handle_id "(string \<times> string) list"
  | ReqSendChatMessage handle_id string "string list" "string option"
  | ReqEditChatMessage handle_id string chat_message "string list" "string option"
  | ReqSendStreamHeader handle_id proto_header "string list" string
  | ReqSendStreamChunk handle_id proto_chunk "string list" string
  | ReqSendStreamTrailer handle_id proto_trailer "string list" string
  | ReqGetSessionStats handle_id
  | ReqSetThreshold handle_id u64 data_packet_kind
  | ReqSetPermissions handle_id bool "permission_request list"

datatype (plugins only: code size) track_request =
    ReqSetSubscribed handle_id bool
  | ReqEnablePublication handle_id bool
  | ReqUpdateDimension handle_id u32 u32
  | ReqCreateTrack track_kind string handle_id
  | ReqLocalTrackMute handle_id bool
  | ReqEnableRemoteTrack handle_id bool
  | ReqGetStats handle_id

datatype (plugins only: code size) participant_request =
    ReqPerformRpc handle_id string string string "nat option"
  | ReqRegisterRpcMethod handle_id string
  | ReqUnregisterRpcMethod handle_id string
  | ReqRpcResponse handle_id nat "string option" "rpc_error option"
  | ReqSendFile handle_id stream_byte_options string
  | ReqSendText handle_id stream_text_options string
  | ReqSendBytes handle_id stream_byte_options "byte list"
  | ReqByteStreamOpen handle_id stream_byte_options
  | ReqTextStreamOpen handle_id stream_text_options

datatype (plugins only: code size) stream_request =
    ReqByteReadIncremental handle_id
  | ReqByteReadAll handle_id
  | ReqByteWriteToFile handle_id "string option" "string option"
  | ReqTextReadIncremental handle_id
  | ReqTextReadAll handle_id
  | ReqByteStreamWrite handle_id "byte list"
  | ReqByteStreamClose handle_id "string option"
  | ReqTextStreamWrite handle_id string
  | ReqTextStreamClose handle_id "string option"

datatype (plugins only: code size) ffi_request =
    ReqDispose bool
  | ReqConnect string
  | ReqDisconnect handle_id
  | ReqRoom room_request
  | ReqTrack track_request
  | ReqMedia media_request
  | ReqParticipant participant_request
  | ReqStream stream_request

section \<open>Rooms\<close>

text \<open>The sdk named on connecting: that of the configuration, or the default.\<close>

definition connect_sdk :: "string \<times> string \<Rightarrow> ffi_world \<Rightarrow> string \<times> string" where
  "connect_sdk sdk_default w =
     (case fs_config w of None \<Rightarrow> sdk_default | Some c \<Rightarrow> (cf_sdk c, cf_sdk_version c))"

definition on_connect :: "string \<times> string \<Rightarrow> string \<Rightarrow> ffi_world \<Rightarrow> handled" where
  "on_connect sdk_default url w =
     (case next_id w of (i, w) \<Rightarrow>
        reply (RspAsync i) (spawn (Some i) (WkConnect url (connect_sdk sdk_default w)) w))"

definition on_disconnect :: "handle_id \<Rightarrow> ffi_world \<Rightarrow> handled" where
  "on_disconnect room_handle w = spawn_async (WkDisconnect room_handle) w"

fun room_index :: "ffi_object \<Rightarrow> nat option" where
  "room_index (ObRoom k) = Some k"
| "room_index _ = None"

definition on_dispose :: "bool \<Rightarrow> ffi_world \<Rightarrow> handled" where
  "on_dispose async w =
     (let w = w\<lparr>fs_config := None\<rparr> in
      if \<not> async then
        let rooms = List.map_filter room_index (hm_values (fs_handles w));
            w = w\<lparr>fs_capture_logs := False\<rparr>
        in reply RspDone (spawn None (WkDispose rooms CloseStart) w)
      else (ReplyPanic, w))"

section \<open>The local participant\<close>

definition on_publish_track :: "handle_id \<Rightarrow> handle_id \<Rightarrow> ffi_world \<Rightarrow> handled" where
  "on_publish_track h track_handle = in_room h (\<lambda>k. spawn_async (WkPublishTrack k track_handle))"

definition on_unpublish_track :: "handle_id \<Rightarrow> string \<Rightarrow> ffi_world \<Rightarrow> handled" where
  "on_unpublish_track h track_sid = in_room h (\<lambda>k. spawn_async (WkUnpublish k track_sid))"

text \<open>
  Data, transcriptions and tones go to the channel of their task; once the task has ended, the send
  fails and a task of its own tells so.
\<close>

definition push_job :: "room_worker \<Rightarrow> string \<Rightarrow> room_job \<Rightarrow> nat \<Rightarrow> ffi_world \<Rightarrow> handled" where
  "push_job worker what job k w =
     (case next_id w of (i, w) \<Rightarrow>
      let r = fw_rooms w ! k in
      reply (RspAsync i)
        (if fr_running r worker
         then set_room k (r\<lparr>fr_jobs := (fr_jobs r)(worker := fr_jobs r worker @ [(i, job)])\<rparr>) w
         else spawn (Some i) (WkTell (job_event worker i (Some (''failed to send '' @ what @ '', room closed'')))) w))"

definition on_publish_data ::
    "handle_id \<Rightarrow> byte list \<Rightarrow> bool \<Rightarrow> string option \<Rightarrow> string list \<Rightarrow> ffi_world \<Rightarrow> handled" where
  "on_publish_data h data reliable topic destination_identities =
     in_room h (push_job DataTask ''data'' (JobData data reliable topic destination_identities))"

definition on_publish_transcription ::
    "handle_id \<Rightarrow> string \<Rightarrow> string \<Rightarrow> transcription_segment list \<Rightarrow> ffi_world \<Rightarrow> handled" where
  "on_publish_transcription h identity track_id segments =
     in_room h (push_job TranscriptionTask ''transcription'' (JobTranscription identity track_id segments))"

definition on_publish_sip_dtmf ::
    "handle_id \<Rightarrow> u32 \<Rightarrow> string \<Rightarrow> string list \<Rightarrow> ffi_world \<Rightarrow> handled" where
  "on_publish_sip_dtmf h code digit destination_identities =
     in_room h (push_job DtmfTask ''SIP DTMF message'' (JobDtmf code digit destination_identities))"

definition on_set_local_metadata :: "handle_id \<Rightarrow> string \<Rightarrow> ffi_world \<Rightarrow> handled" where
  "on_set_local_metadata h metadata = in_room h (\<lambda>k. spawn_async (WkCall (CallSetMetadata k metadata)))"

definition on_set_local_name :: "handle_id \<Rightarrow> string \<Rightarrow> ffi_world \<Rightarrow> handled" where
  "on_set_local_name h name = in_room h (\<lambda>k. spawn_async (WkCall (CallSetName k name)))"

definition on_set_local_attributes :: "handle_id \<Rightarrow> (string \<times> string) list \<Rightarrow> ffi_world \<Rightarrow> handled" where
  "on_set_local_attributes h attributes =
     in_room h (\<lambda>k. spawn_async (WkCall (CallSetAttributes k attributes)))"

definition on_send_chat_message ::
    "handle_id \<Rightarrow> string \<Rightarrow> string list \<Rightarrow> string option \<Rightarrow> ffi_world \<Rightarrow> handled" where
  "on_send_chat_message h message destination_identities sender_identity =
     in_room h (\<lambda>k. spawn_async (WkCall (CallSendChat k message destination_identities sender_identity)))"

definition on_edit_chat_message ::
    "handle_id \<Rightarrow> string \<Rightarrow> chat_message \<Rightarrow> string list \<Rightarrow> string option \<Rightarrow> ffi_world \<Rightarrow> handled" where
  "on_edit_chat_message h edit_text original destination_identities sender_identity =
     in_room h (\<lambda>k. spawn_async
       (WkCall (CallEditChat k edit_text original destination_identities sender_identity)))"

text \<open>
  The packets of the low level stream requests. Their kind is the number of the reliable kind in the
  enumeration of the FFI protocol.
\<close>

fun ffi_packet_kind_number :: "data_packet_kind \<Rightarrow> int" where
  "ffi_packet_kind_number Lossy = 0"
| "ffi_packet_kind_number Reliable = 1"

definition stream_packet :: "packet_value \<Rightarrow> string list \<Rightarrow> string \<Rightarrow> data_packet" where
  "stream_packet value destination_identities sender_identity =
     default_packet\<lparr>dp_kind := ffi_packet_kind_number Reliable, dp_participant_identity := sender_identity,
       dp_destination_identities := destination_identities, dp_value := Some value\<rparr>"

definition on_send_stream_header ::
    "handle_id \<Rightarrow> proto_header \<Rightarrow> string list \<Rightarrow> string \<Rightarrow> ffi_world \<Rightarrow> handled" where
  "on_send_stream_header h header dests sender =
     in_room h (\<lambda>k. spawn_async (WkCall (CallSendHeader k (stream_packet (StreamHeader header) dests sender))))"

definition on_send_stream_chunk ::
    "handle_id \<Rightarrow> proto_chunk \<Rightarrow> string list \<Rightarrow> string \<Rightarrow> ffi_world \<Rightarrow> handled" where
  "on_send_stream_chunk h chunk dests sender =
     in_room h (\<lambda>k. spawn_async (WkCall (CallSendChunk k (stream_packet (StreamChunk chunk) dests sender))))"

definition on_send_stream_trailer ::
    "handle_id \<Rightarrow> proto_trailer \<Rightarrow> string list \<Rightarrow> string \<Rightarrow> ffi_world \<Rightarrow> handled" where
  "on_send_stream_trailer h trailer dests sender =
     in_room h (\<lambda>k. spawn_async (WkCall (CallSendTrailer k (stream_packet (StreamTrailer trailer) dests sender))))"

definition on_set_threshold :: "handle_id \<Rightarrow> u64 \<Rightarrow> data_packet_kind \<Rightarrow> ffi_world \<Rightarrow> handled" where
  "on_set_threshold h threshold kind =
     in_room h (\<lambda>k w. reply RspDone (call_sdk (CallSetThreshold k threshold kind) w))"

text \<open>The permissions are converted, with a panic on a track sid without its prefix, before the task.\<close>

definition permission_of :: "permission_request \<Rightarrow> participant_track_permission option" where
  "permission_of p =
     (case p of (identity, allow_all, sids) \<Rightarrow>
        map_option (\<lambda>sids. \<lparr>ptp_participant_identity = identity, ptp_allow_all = unwrap_or False allow_all,
            ptp_allowed_track_sids = sids\<rparr>)
          (unwrap_all (map track_sid_try_from sids)))"

fun permissions_of :: "permission_request list \<Rightarrow> participant_track_permission list option" where
  "permissions_of [] = Some []"
| "permissions_of (p # ps) =
     (case permission_of p of
        None \<Rightarrow> None
      | Some perm \<Rightarrow> map_option ((#) perm) (permissions_of ps))"

definition on_set_permissions :: "handle_id \<Rightarrow> bool \<Rightarrow> permission_request list \<Rightarrow> ffi_world \<Rightarrow> handled" where
  "on_set_permissions h all_allowed permissions =
     in_room h (\<lambda>k w.
       case permissions_of permissions of
         None \<Rightarrow> (ReplyPanic, w)
       | Some perms \<Rightarrow> reply RspDone (spawn None (WkCall (CallSetPermissions k all_allowed perms)) w))"

section \<open>Publications and tracks\<close>

definition on_remote_publication ::
    "handle_id \<Rightarrow> (nat \<Rightarrow> track_sid \<Rightarrow> sdk_call) \<Rightarrow> ffi_world \<Rightarrow> handled" where
  "on_remote_publication h call =
     retrieving KPublication h (\<lambda>obj w.
       case obj of
         ObPublication k (RemotePublication n sid) \<Rightarrow> reply RspDone (call_sdk (call n sid) w)
       | _ \<Rightarrow> invalid ''publication is not a RemotePublication'' w)"

definition on_set_subscribed :: "handle_id \<Rightarrow> bool \<Rightarrow> ffi_world \<Rightarrow> handled" where
  "on_set_subscribed h subscribe = on_remote_publication h (\<lambda>n sid. CallSetSubscribed n sid subscribe)"

definition on_enable_remote_track_publication :: "handle_id \<Rightarrow> bool \<Rightarrow> ffi_world \<Rightarrow> handled" where
  "on_enable_remote_track_publication h enabled =
     on_remote_publication h (\<lambda>n sid. CallSetEnabled n sid enabled)"

definition on_update_remote_track_publication_dimension ::
    "handle_id \<Rightarrow> u32 \<Rightarrow> u32 \<Rightarrow> ffi_world \<Rightarrow> handled" where
  "on_update_remote_track_publication_dimension h width height =
     on_remote_publication h (\<lambda>n sid. CallSetDimensions n sid width height)"

text \<open>A local track from a source: its handle.\<close>

definition on_create_track :: "track_kind \<Rightarrow> string \<Rightarrow> handle_id \<Rightarrow> ffi_world \<Rightarrow> handled" where
  "on_create_track kind name source_handle =
     retrieving (if kind = Video then KVideoSource else KAudioSource) source_handle (\<lambda>_ w.
       case issue (ObTrack (LocalTrack kind name) None) w of (i, w) \<Rightarrow> reply (RspHandle KTrack i) w)"

definition on_local_track_mute :: "sdk_readings \<Rightarrow> handle_id \<Rightarrow> bool \<Rightarrow> ffi_world \<Rightarrow> handled" where
  "on_local_track_mute sr h mute =
     retrieving KTrack h (\<lambda>obj w.
       case obj of
         ObTrack (LocalTrack kind name) _ \<Rightarrow>
           reply (RspFlag (sr_muted sr (LocalTrack kind name))) (call_sdk (CallMute (LocalTrack kind name) mute) w)
       | _ \<Rightarrow> invalid ''track is not a local track'' w)"

definition on_enable_remote_track :: "sdk_readings \<Rightarrow> handle_id \<Rightarrow> bool \<Rightarrow> ffi_world \<Rightarrow> handled" where
  "on_enable_remote_track sr h enabled =
     retrieving KTrack h (\<lambda>obj w.
       case obj of
         ObTrack (RemoteTrack kind sid) _ \<Rightarrow>
           reply (RspFlag (sr_enabled sr (RemoteTrack kind sid)))
             (call_sdk (CallEnable (RemoteTrack kind sid) enabled) w)
       | _ \<Rightarrow> invalid ''track is not a remote track'' w)"

fun track_of :: "ffi_object \<Rightarrow> ffi_track_ref" where
  "track_of (ObTrack t _) = t"
| "track_of _ = LocalTrack Audio []"

definition on_get_stats :: "handle_id \<Rightarrow> ffi_world \<Rightarrow> handled" where
  "on_get_stats h = retrieving KTrack h (\<lambda>obj. spawn_async (WkCall (CallGetStats (track_of obj))))"

definition on_get_session_stats :: "handle_id \<Rightarrow> ffi_world \<Rightarrow> handled" where
  "on_get_session_stats h = retrieving KRoom h (\<lambda>obj. spawn_async (WkCall (CallRoomStats (object_id obj))))"

section \<open>Remote procedure calls\<close>

text \<open>What only the local participant does: some take their identifier before they look.\<close>

definition guard_local :: "handle_id \<Rightarrow> (nat \<Rightarrow> ffi_world \<Rightarrow> handled) \<Rightarrow> ffi_world \<Rightarrow> handled" where
  "guard_local h k =
     retrieving KParticipant h (\<lambda>obj w.
       case obj of
         ObParticipant room LocalRef \<Rightarrow> k room w
       | _ \<Rightarrow> invalid ''Expected local participant'' w)"

definition guarded_async :: "handle_id \<Rightarrow> (nat \<Rightarrow> ffi_work) \<Rightarrow> ffi_world \<Rightarrow> handled" where
  "guarded_async h work =
     retrieving KParticipant h (\<lambda>obj w.
       case next_id w of (i, w) \<Rightarrow>
         (case obj of
            ObParticipant room LocalRef \<Rightarrow> reply (RspAsync i) (spawn (Some i) (work room) w)
          | _ \<Rightarrow> invalid ''Expected local participant'' w))"

definition RPC_DEFAULT_TIMEOUT :: nat where "RPC_DEFAULT_TIMEOUT = 10000"

definition on_perform_rpc ::
    "handle_id \<Rightarrow> string \<Rightarrow> string \<Rightarrow> string \<Rightarrow> nat option \<Rightarrow> ffi_world \<Rightarrow> handled" where
  "on_perform_rpc h destination_identity method payload response_timeout_ms =
     guarded_async h (\<lambda>k. WkCall (CallPerformRpc k
       \<lparr>pd_destination_identity = destination_identity, pd_method = method, pd_payload = payload,
        pd_response_timeout = unwrap_or RPC_DEFAULT_TIMEOUT response_timeout_ms\<rparr>))"

definition on_register_rpc_method :: "handle_id \<Rightarrow> string \<Rightarrow> ffi_world \<Rightarrow> handled" where
  "on_register_rpc_method h method =
     guard_local h (\<lambda>k w.
       let r = fw_rooms w ! k in
       reply RspDone (set_room k (r\<lparr>fr_rpc_methods := (fr_rpc_methods r)(method \<mapsto> h)\<rparr>) w))"

definition on_unregister_rpc_method :: "handle_id \<Rightarrow> string \<Rightarrow> ffi_world \<Rightarrow> handled" where
  "on_unregister_rpc_method h method =
     guard_local h (\<lambda>k w.
       let r = fw_rooms w ! k in
       reply RspDone (set_room k (r\<lparr>fr_rpc_methods := (fr_rpc_methods r)(method := None)\<rparr>) w))"

definition on_rpc_method_invocation_response ::
    "handle_id \<Rightarrow> nat \<Rightarrow> string option \<Rightarrow> rpc_error option \<Rightarrow> ffi_world \<Rightarrow> handled" where
  "on_rpc_method_invocation_response h invocation_id payload error =
     in_room h (\<lambda>k w.
       let r = fw_rooms w ! k in
       case fr_rpc_waiters r invocation_id of
         Some _ \<Rightarrow>
           let result = (case error of Some err \<Rightarrow> Inl err | None \<Rightarrow> Inr (unwrap_or [] payload));
               w = set_room k (r\<lparr>fr_rpc_waiters := (fr_rpc_waiters r)(invocation_id := None)\<rparr>) w
           in reply (RspError None)
                (w\<lparr>fw_rpc_answers := fw_rpc_answers w @ [(invocation_id, invocation_result (Some result))]\<rparr>)
       | None \<Rightarrow> reply (RspError (Some ''No caller found'')) w)"

section \<open>Data streams\<close>

text \<open>A reader is taken out of the table, a writer only when it is closed.\<close>

definition on_byte_stream_reader_read_incremental :: "handle_id \<Rightarrow> ffi_world \<Rightarrow> handled" where
  "on_byte_stream_reader_read_incremental h =
     taking KByteReader h (\<lambda>obj w. reply RspDone (spawn None (WkReadBytes (object_id obj) h) w))"

definition on_byte_stream_reader_read_all :: "handle_id \<Rightarrow> ffi_world \<Rightarrow> handled" where
  "on_byte_stream_reader_read_all h =
     taking KByteReader h (\<lambda>obj. spawn_async (WkCall (CallReadAllBytes (object_id obj))))"

definition on_byte_stream_reader_write_to_file ::
    "handle_id \<Rightarrow> string option \<Rightarrow> string option \<Rightarrow> ffi_world \<Rightarrow> handled" where
  "on_byte_stream_reader_write_to_file h directory name_override =
     taking KByteReader h (\<lambda>obj. spawn_async (WkCall (CallWriteToFile (object_id obj) directory name_override)))"

definition on_text_stream_reader_read_incremental :: "handle_id \<Rightarrow> ffi_world \<Rightarrow> handled" where
  "on_text_stream_reader_read_incremental h =
     taking KTextReader h (\<lambda>obj w. reply RspDone (spawn None (WkReadText (object_id obj) h) w))"

definition on_text_stream_reader_read_all :: "handle_id \<Rightarrow> ffi_world \<Rightarrow> handled" where
  "on_text_stream_reader_read_all h =
     taking KTextReader h (\<lambda>obj. spawn_async (WkCall (CallReadAllText (object_id obj))))"

definition on_send_file :: "handle_id \<Rightarrow> stream_byte_options \<Rightarrow> string \<Rightarrow> ffi_world \<Rightarrow> handled" where
  "on_send_file h options file_path = guarded_async h (\<lambda>k. WkCall (CallSendFile k file_path options))"

definition on_send_text :: "handle_id \<Rightarrow> stream_text_options \<Rightarrow> string \<Rightarrow> ffi_world \<Rightarrow> handled" where
  "on_send_text h options txt = guarded_async h (\<lambda>k. WkCall (CallSendText k txt options))"

definition on_send_bytes :: "handle_id \<Rightarrow> stream_byte_options \<Rightarrow> byte list \<Rightarrow> ffi_world \<Rightarrow> handled" where
  "on_send_bytes h options bytes = guarded_async h (\<lambda>k. WkCall (CallSendBytes k bytes options))"

definition on_byte_stream_open :: "handle_id \<Rightarrow> stream_byte_options \<Rightarrow> ffi_world \<Rightarrow> handled" where
  "on_byte_stream_open h options = guarded_async h (\<lambda>k. WkOpenBytes (CallStreamBytes k options))"

definition on_text_stream_open :: "handle_id \<Rightarrow> stream_text_options \<Rightarrow> ffi_world \<Rightarrow> handled" where
  "on_text_stream_open h options = guarded_async h (\<lambda>k. WkOpenText (CallStreamText k options))"

definition on_byte_stream_write :: "handle_id \<Rightarrow> byte list \<Rightarrow> ffi_world \<Rightarrow> handled" where
  "on_byte_stream_write h bytes =
     retrieving KByteWriter h (\<lambda>obj. spawn_async (WkCall (CallWriteBytes (object_id obj) bytes)))"

definition on_byte_stream_close :: "handle_id \<Rightarrow> string option \<Rightarrow> ffi_world \<Rightarrow> handled" where
  "on_byte_stream_close h reason =
     taking KByteWriter h (\<lambda>obj. spawn_async (WkCall (CallCloseBytes (object_id obj) reason)))"

definition on_text_stream_write :: "handle_id \<Rightarrow> string \<Rightarrow> ffi_world \<Rightarrow> handled" where
  "on_text_stream_write h txt =
     retrieving KTextWriter h (\<lambda>obj. spawn_async (WkCall (CallWriteText (object_id obj) txt)))"

definition on_text_stream_close :: "handle_id \<Rightarrow> string option \<Rightarrow> ffi_world \<Rightarrow> handled" where
  "on_text_stream_close h reason =
     taking KTextWriter h (\<lambda>obj. spawn_async (WkCall (CallCloseText (object_id obj) reason)))"

section \<open>The interface\<close>

definition on_room_request :: "room_request \<Rightarrow> ffi_world \<Rightarrow> handled" where
  "on_room_request request w =
     (case request of
        ReqPublishTrack h track \<Rightarrow> on_publish_track h track w
      | ReqUnpublishTrack h sid \<Rightarrow> on_unpublish_track h sid w
      | ReqPublishData h data reliable topic dests \<Rightarrow> on_publish_data h data reliable topic dests w
      | ReqPublishTranscription h identity track segments \<Rightarrow> on_publish_transcription h identity track segments w
      | ReqPublishSipDtmf h code digit dests \<Rightarrow> on_publish_sip_dtmf h code digit dests w
      | ReqSetLocalMetadata h metadata \<Rightarrow> on_set_local_metadata h metadata w
      | ReqSetLocalName h name \<Rightarrow> on_set_local_name h name w
      | ReqSetLocalAttributes h attributes \<Rightarrow> on_set_local_attributes h attributes w
      | ReqSendChatMessage h message dests sender \<Rightarrow> on_send_chat_message h message dests sender w
      | ReqEditChatMessage h edit original dests sender \<Rightarrow> on_edit_chat_message h edit original dests sender w
      | ReqSendStreamHeader h header dests sender \<Rightarrow> on_send_stream_header h header dests sender w
      | ReqSendStreamChunk h chunk dests sender \<Rightarrow> on_send_stream_chunk h chunk dests sender w
      | ReqSendStreamTrailer h trailer dests sender \<Rightarrow> on_send_stream_trailer h trailer dests sender w
      | ReqGetSessionStats h \<Rightarrow> on_get_session_stats h w
      | ReqSetThreshold h threshold kind \<Rightarrow> on_set_threshold h threshold kind w
      | ReqSetPermissions h all_allowed permissions \<Rightarrow> on_set_permissions h all_allowed permissions w)"

definition on_track_request :: "sdk_readings \<Rightarrow> track_request \<Rightarrow> ffi_world \<Rightarrow> handled" where
  "on_track_request sr request w =
     (case request of
        ReqSetSubscribed h subscribe \<Rightarrow> on_set_subscribed h subscribe w
      | ReqEnablePublication h enabled \<Rightarrow> on_enable_remote_track_publication h enabled w
      | ReqUpdateDimension h width height \<Rightarrow> on_update_remote_track_publication_dimension h width height w
      | ReqCreateTrack kind name source_handle \<Rightarrow> on_create_track kind name source_handle w
      | ReqLocalTrackMute h mute \<Rightarrow> on_local_track_mute sr h mute w
      | ReqEnableRemoteTrack h enabled \<Rightarrow> on_enable_remote_track sr h enabled w
      | ReqGetStats h \<Rightarrow> on_get_stats h w)"

definition on_participant_request :: "participant_request \<Rightarrow> ffi_world \<Rightarrow> handled" where
  "on_participant_request request w =
     (case request of
        ReqPerformRpc h dest method payload timeout \<Rightarrow> on_perform_rpc h dest method payload timeout w
      | ReqRegisterRpcMethod h method \<Rightarrow> on_register_rpc_method h method w
      | ReqUnregisterRpcMethod h method \<Rightarrow> on_unregister_rpc_method h method w
      | ReqRpcResponse h invocation_id payload error \<Rightarrow> on_rpc_method_invocation_response h invocation_id payload error w
      | ReqSendFile h options file_path \<Rightarrow> on_send_file h options file_path w
      | ReqSendText h options txt \<Rightarrow> on_send_text h options txt w
      | ReqSendBytes h options bytes \<Rightarrow> on_send_bytes h options bytes w
      | ReqByteStreamOpen h options \<Rightarrow> on_byte_stream_open h options w
      | ReqTextStreamOpen h options \<Rightarrow> on_text_stream_open h options w)"

definition on_stream_request :: "stream_request \<Rightarrow> ffi_world \<Rightarrow> handled" where
  "on_stream_request request w =
     (case request of
        ReqByteReadIncremental h \<Rightarrow> on_byte_stream_reader_read_incremental h w
      | ReqByteReadAll h \<Rightarrow> on_byte_stream_reader_read_all h w
      | ReqByteWriteToFile h directory name \<Rightarrow> on_byte_stream_reader_write_to_file h directory name w
      | ReqTextReadIncremental h \<Rightarrow> on_text_stream_reader_read_incremental h w
      | ReqTextReadAll h \<Rightarrow> on_text_stream_reader_read_all h w
      | ReqByteStreamWrite h bytes \<Rightarrow> on_byte_stream_write h bytes w
      | ReqByteStreamClose h reason \<Rightarrow> on_byte_stream_close h reason w
      | ReqTextStreamWrite h txt \<Rightarrow> on_text_stream_write h txt w
      | ReqTextStreamClose h reason \<Rightarrow> on_text_stream_close h reason w)"

definition handle_request ::
    "string \<times> string \<Rightarrow> sdk_readings \<Rightarrow> ffi_request option \<Rightarrow> ffi_world \<Rightarrow> handled" where
  "handle_request sdk_default sr request w =
     (case request of
        None \<Rightarrow> invalid ''message is empty'' w
      | Some message \<Rightarrow>
          (case message of
             ReqDispose async \<Rightarrow> on_dispose async w
           | ReqConnect url \<Rightarrow> on_connect sdk_default url w
           | ReqDisconnect h \<Rightarrow> on_disconnect h w
           | ReqRoom r \<Rightarrow> on_room_request r w
           | ReqTrack r \<Rightarrow> on_track_request sr r w
           | ReqMedia m \<Rightarrow> on_media sr m w
           | ReqParticipant r \<Rightarrow> on_participant_request r w
           | ReqStream r \<Rightarrow> on_stream_request r w))"

text \<open>
  \<open>livekit_ffi_request\<close>: the reply is stored as a buffer whose handle is returned; an error returns the
  invalid handle, a panic also tells the client. \<open>encode\<close> is \<open>prost\<close>; a request that does not decode is
  \<open>None\<close>.
\<close>

definition livekit_ffi_request ::
    "(ffi_response \<Rightarrow> byte list) \<Rightarrow> string \<times> string \<Rightarrow> sdk_readings \<Rightarrow> ffi_request option option \<Rightarrow> ffi_world \<Rightarrow>
     handle_id \<times> ffi_world" where
  "livekit_ffi_request encode sdk_default sr data w =
     (case data of
        None \<Rightarrow> (INVALID_HANDLE, w)
      | Some request \<Rightarrow>
          (case handle_request sdk_default sr request w of
             (Reply (Inl err), w) \<Rightarrow> (INVALID_HANDLE, w)
           | (Reply (Inr rsp), w) \<Rightarrow>
               (case issue (ObDataBuffer (encode rsp)) w of (i, w) \<Rightarrow>
                  (i, w\<lparr>fw_responses := fw_responses w @ [(i, rsp)]\<rparr>))
           | (ReplyPanic, w) \<Rightarrow>
               (INVALID_HANDLE,
                send_panic (ffi_error_text (InvalidRequest ''panic while handling request'')) w)))"

text \<open>Everything that may happen, one step at a time.\<close>

datatype (plugins only: code size) ffi_action =
    FaInitialize ffi_config
  | FaRequest sdk_readings "ffi_request option option"
  | FaDropHandle handle_id
  | FaTask nat sdk_result
  | FaSdkEvent nat sdk_event
  | FaForward nat room_view
  | FaEventsEnd nat
  | FaJob room_worker nat "string option"
  | FaJobsEnd room_worker nat
  | FaInvoke nat string rpc_invocation

text \<open>An event of the SDK comes into the channel of the room as long as its task is there.\<close>

definition sdk_event_arrives :: "nat \<Rightarrow> sdk_event \<Rightarrow> ffi_world \<Rightarrow> ffi_world" where
  "sdk_event_arrives k event w =
     (let r = fw_rooms w ! k in
      if fr_running r EventTask then set_room k (r\<lparr>fr_events := fr_events r @ [event]\<rparr>) w else w)"

fun ffi_step ::
    "(ffi_response \<Rightarrow> byte list) \<Rightarrow> string \<times> string \<Rightarrow> ffi_action \<Rightarrow> ffi_world \<Rightarrow> ffi_world" where
  "ffi_step encode dflt (FaInitialize config) w = ffi_setup config w"
| "ffi_step encode dflt (FaRequest sr data) w = snd (livekit_ffi_request encode dflt sr data w)"
| "ffi_step encode dflt (FaDropHandle h) w = snd (drop_handle h w)"
| "ffi_step encode dflt (FaTask n res) w = (if n < length (fw_tasks w) then task_step n res w else w)"
| "ffi_step encode dflt (FaSdkEvent k event) w =
     (if k < length (fw_rooms w) then sdk_event_arrives k event w else w)"
| "ffi_step encode dflt (FaForward k view) w =
     (if k < length (fw_rooms w) then room_task_step view k w else w)"
| "ffi_step encode dflt (FaEventsEnd k) w = (if k < length (fw_rooms w) then room_task_close k w else w)"
| "ffi_step encode dflt (FaJob worker k err) w =
     (if k < length (fw_rooms w) \<and> worker \<noteq> EventTask then job_task_step worker k err w else w)"
| "ffi_step encode dflt (FaJobsEnd worker k) w =
     (if k < length (fw_rooms w) then job_task_close worker k w else w)"
| "ffi_step encode dflt (FaInvoke k method data) w =
     (if k < length (fw_rooms w) then invoke_method k method data w else w)"

end
