(* ===== verification/FfiIds.thy ===== *)
theory FfiIds
  imports FfiRequests "HOL-Library.Multiset"
begin

text \<open>
  The identifiers of the foreign function interface: handles, the identifiers of asynchronous requests and
  of invocations come from one counter. \<open>places\<close> counts where an identifier is seen or waits; a step
  may move one and may add those it has just drawn. \<open>holding F w\<close> is the invariant at a point where the
  code has the identifiers \<open>F\<close> in its variables, a handle with the type of its object; the rules for it
  follow the code.
\<close>

section \<open>What an event names\<close>

fun message_handles :: "room_message \<Rightarrow> (handle_id \<times> ffi_kind) list" where
  "message_handles (MsgParticipantConnected i) = [(i, KParticipant)]"
| "message_handles (MsgTrackPublished _ i) = [(i, KPublication)]"
| "message_handles (MsgTrackSubscribed _ i) = [(i, KTrack)]"
| "message_handles (MsgDataPacketReceived (UserData i _) _ _) = [(i, KDataBuffer)]"
| "message_handles (MsgByteStreamOpened i _) = [(i, KByteReader)]"
| "message_handles (MsgTextStreamOpened i _) = [(i, KTextReader)]"
| "message_handles _ = []"

definition participant_handles :: "(handle_id \<times> handle_id list) list \<Rightarrow> (handle_id \<times> ffi_kind) list" where
  "participant_handles ps =
     concat (map (\<lambda>(i, tracks). (i, KParticipant) # map (\<lambda>t. (t, KPublication)) tracks) ps)"

fun told_by :: "ffi_event \<Rightarrow> (handle_id \<times> ffi_kind) list" where
  "told_by (EvRoom _ msg) = message_handles msg"
| "told_by (EvConnect _ (Inr c)) =
     (co_room c, KRoom) # (co_local c, KParticipant) # participant_handles (co_participants c)"
| "told_by (EvPublishTrack _ (Inr (i, _))) = [(i, KPublication)]"
| "told_by (EvByteStreamOpen _ (Inr i)) = [(i, KByteWriter)]"
| "told_by (EvTextStreamOpen _ (Inr i)) = [(i, KTextWriter)]"
| "told_by (EvAudioStream _ (FrameReceived i _)) = [(i, KAudioFrame)]"
| "told_by (EvVideoStream _ (FrameReceived i _)) = [(i, KVideoBuffer)]"
| "told_by _ = []"

fun callback_ids :: "ffi_event \<Rightarrow> nat list" where
  "callback_ids (EvRoom _ _) = []"
| "callback_ids (EvConnect i _) = [i]"
| "callback_ids (EvDisconnect i) = [i]"
| "callback_ids (EvPublishTrack i _) = [i]"
| "callback_ids (EvUnpublishTrack i _) = [i]"
| "callback_ids (EvPublishData i _) = [i]"
| "callback_ids (EvPublishTranscription i _) = [i]"
| "callback_ids (EvPublishSipDtmf i _) = [i]"
| "callback_ids (EvSetLocalMetadata i _) = [i]"
| "callback_ids (EvSetLocalName i _) = [i]"
| "callback_ids (EvSetLocalAttributes i _) = [i]"
| "callback_ids (EvChatMessage i _) = [i]"
| "callback_ids (EvSendStreamHeader i _) = [i]"
| "callback_ids (EvSendStreamChunk i _) = [i]"
| "callback_ids (EvSendStreamTrailer i _) = [i]"
| "callback_ids (EvGetStats i _) = [i]"
| "callback_ids (EvGetSessionStats i _) = [i]"
| "callback_ids (EvPerformRpc i _) = [i]"
| "callback_ids (EvRpcMethodInvocation _ i _ _) = [i]"
| "callback_ids (EvByteReader _ _) = []"
| "callback_ids (EvTextReader _ _) = []"
| "callback_ids (EvByteReadAll i _) = [i]"
| "callback_ids (EvByteWriteToFile i _) = [i]"
| "callback_ids (EvTextReadAll i _) = [i]"
| "callback_ids (EvSendFile i _) = [i]"
| "callback_ids (EvSendText i _) = [i]"
| "callback_ids (EvSendBytes i _) = [i]"
| "callback_ids (EvByteStreamOpen i _) = [i]"
| "callback_ids (EvTextStreamOpen i _) = [i]"
| "callback_ids (EvByteWrite i _) = [i]"
| "callback_ids (EvByteClose i _) = [i]"
| "callback_ids (EvTextWrite i _) = [i]"
| "callback_ids (EvTextClose i _) = [i]"
| "callback_ids (EvCaptureAudioFrame i _) = [i]"
| "callback_ids (EvAudioStream _ _) = []"
| "callback_ids (EvVideoStream _ _) = []"
| "callback_ids (EvPanic _) = []"

text \<open>An identifier with what it names: the type of an object, or no object.\<close>

type_synonym tagged_id = "nat \<times> ffi_kind option"

definition untyped :: "nat list \<Rightarrow> tagged_id list" where
  "untyped is = map (\<lambda>i. (i, None)) is"

definition typed :: "(handle_id \<times> ffi_kind) list \<Rightarrow> tagged_id list" where
  "typed ps = map (\<lambda>(i, k). (i, Some k)) ps"

definition event_tags :: "ffi_event \<Rightarrow> tagged_id list" where
  "event_tags e = untyped (callback_ids e) @ typed (told_by e)"

fun response_handles :: "handle_id \<times> ffi_response \<Rightarrow> (handle_id \<times> ffi_kind) list" where
  "response_handles (h, RspHandle k i) = [(h, KDataBuffer), (i, k)]"
| "response_handles (h, _) = [(h, KDataBuffer)]"

definition task_ids :: "ffi_task \<Rightarrow> nat list" where
  "task_ids t = (if ta_work t = WkDone then [] else case ta_async t of None \<Rightarrow> [] | Some i \<Rightarrow> [i])"

definition room_job_ids :: "ffi_room \<Rightarrow> nat list" where
  "room_job_ids r = map fst (fr_jobs r DataTask @ fr_jobs r TranscriptionTask @ fr_jobs r DtmfTask)"

text \<open>The handles the client has been told, with their types; what it has been called back with.\<close>

definition told_handles :: "ffi_world \<Rightarrow> (handle_id \<times> ffi_kind) list" where
  "told_handles w = concat (map told_by (fs_events w)) @ concat (map response_handles (fw_responses w))"

definition answered_ids :: "ffi_world \<Rightarrow> nat list" where
  "answered_ids w = concat (map callback_ids (fs_events w))"

definition pending_ids :: "ffi_world \<Rightarrow> nat list" where
  "pending_ids w = concat (map task_ids (fw_tasks w)) @ concat (map room_job_ids (fw_rooms w))"

definition places :: "ffi_world \<Rightarrow> nat multiset" where
  "places w = mset (map fst (told_handles w)) + mset (answered_ids w) + mset (pending_ids w)"

text \<open>A task that will call back knows its identifier.\<close>

fun calls_back :: "ffi_work \<Rightarrow> bool" where
  "calls_back (WkRoomSid _) = False"
| "calls_back (WkDispose _ _) = False"
| "calls_back (WkCall _) = False"
| "calls_back (WkReadBytes _ _) = False"
| "calls_back (WkReadText _ _) = False"
| "calls_back (WkAudioStream _) = False"
| "calls_back (WkVideoStream _) = False"
| "calls_back (WkFollow _) = False"
| "calls_back WkDone = False"
| "calls_back _ = True"

definition task_wf :: "ffi_task \<Rightarrow> bool" where
  "task_wf t \<longleftrightarrow> (calls_back (ta_work t) \<longrightarrow> ta_async t \<noteq> None)
     \<and> (\<forall>e. ta_work t = WkTell e \<longrightarrow> (\<exists>i. ta_async t = Some i \<and> event_tags e = [(i, None)]))"

definition tasks_wf :: "ffi_world \<Rightarrow> bool" where
  "tasks_wf w \<longleftrightarrow> list_all task_wf (fw_tasks w)"

text \<open>A handle names an object of its type, or nothing any more.\<close>

definition handle_names :: "ffi_world \<Rightarrow> handle_id \<Rightarrow> ffi_kind \<Rightarrow> bool" where
  "handle_names w i k \<longleftrightarrow> (case map_of (fs_handles w) i of
     None \<Rightarrow> True | Some obj \<Rightarrow> obj = ObUnit \<or> kind_of obj = k)"

definition drawn :: "nat \<Rightarrow> nat multiset" where
  "drawn n = mset [1..<n]"

definition holding :: "tagged_id multiset \<Rightarrow> ffi_world \<Rightarrow> bool" where
  "holding F w \<longleftrightarrow> tasks_wf w \<and> 1 \<le> fs_next_id w
     \<and> (2 ^ 64 < fs_next_id w
        \<or> places w + image_mset fst F \<subseteq># drawn (fs_next_id w)
          \<and> (\<forall>(i, k) \<in> set (told_handles w). handle_names w i k)
          \<and> (\<forall>(i, tag) \<in># F. \<forall>k. tag = Some k \<longrightarrow> handle_names w i k))"

section \<open>Rules\<close>

lemma tags_simps [simp]:
  "untyped [] = []" "untyped (i # is) = (i, None) # untyped is" "untyped (is @ js) = untyped is @ untyped js"
  "typed [] = []" "typed ((i, k) # ps) = (i, Some k) # typed ps" "typed (ps @ qs) = typed ps @ typed qs"
  "map fst (untyped is) = is" "map fst (typed ps) = map fst ps"
  by (simp_all add: untyped_def typed_def o_def case_prod_beta)

lemma tags_ids [simp]:
  "image_mset fst (mset (untyped is)) = mset is" "image_mset fst (mset (typed ps)) = mset (map fst ps)"
  by (simp_all flip: mset_map)

lemma concat_update:
  "i < length xs \<Longrightarrow>
   mset (concat (map f (xs[i := x]))) + mset (f (xs ! i)) = mset (concat (map f xs)) + mset (f x)"
proof (induction xs arbitrary: i)
  case (Cons y ys)
  then show ?case by (cases i) (simp_all add: ac_simps)
qed simp

lemma world_fields [simp]:
  fixes w :: ffi_world
  shows "fw_tasks (emit e w) = fw_tasks w" "fw_rooms (emit e w) = fw_rooms w"
    "fw_responses (emit e w) = fw_responses w"
    "fw_tasks (store_handle i obj w) = fw_tasks w" "fw_rooms (store_handle i obj w) = fw_rooms w"
    "fw_responses (store_handle i obj w) = fw_responses w"
    "fw_tasks (snd (drop_handle i w)) = fw_tasks w" "fw_rooms (snd (drop_handle i w)) = fw_rooms w"
    "fw_responses (snd (drop_handle i w)) = fw_responses w"
    "fw_tasks (snd (next_id w)) = fw_tasks w" "fw_rooms (snd (next_id w)) = fw_rooms w"
    "fw_responses (snd (next_id w)) = fw_responses w"
  by (simp_all add: emit_def send_event_def store_handle_def drop_handle_def next_id_def split: option.split)

lemma set_fields [simp]:
  "fs_next_id (spawn i work w) = fs_next_id w" "fs_next_id (set_work n work w) = fs_next_id w"
  "fs_next_id (set_room k r w) = fs_next_id w" "fs_next_id (call_sdk call w) = fs_next_id w"
  "fw_tasks (set_room k r w) = fw_tasks w" "fw_tasks (call_sdk call w) = fw_tasks w"
  "fw_rooms (set_work n work w) = fw_rooms w" "fw_rooms (spawn i work w) = fw_rooms w"
  "fw_rooms (call_sdk call w) = fw_rooms w"
  "fs_events (spawn i work w) = fs_events w" "fs_events (set_work n work w) = fs_events w"
  "fs_events (set_room k r w) = fs_events w" "fs_events (call_sdk call w) = fs_events w"
  "fs_config (spawn i work w) = fs_config w" "fs_config (set_work n work w) = fs_config w"
  "fs_config (set_room k r w) = fs_config w" "fs_config (call_sdk call w) = fs_config w"
  "fs_handles (spawn i work w) = fs_handles w" "fs_handles (set_work n work w) = fs_handles w"
  "fs_handles (set_room k r w) = fs_handles w" "fs_handles (call_sdk call w) = fs_handles w"
  "fw_responses (spawn i work w) = fw_responses w" "fw_responses (set_work n work w) = fw_responses w"
  "fw_responses (set_room k r w) = fw_responses w" "fw_responses (call_sdk call w) = fw_responses w"
  by (simp_all add: spawn_def set_work_def set_room_def call_sdk_def)

lemma world_lookups:
  "fs_events w' = fs_events w \<Longrightarrow> fw_responses w' = fw_responses w \<Longrightarrow> told_handles w' = told_handles w"
  by (simp add: told_handles_def)

lemma places_cong:
  "fs_events w' = fs_events w \<Longrightarrow> fw_responses w' = fw_responses w \<Longrightarrow> fw_tasks w' = fw_tasks w \<Longrightarrow>
   fw_rooms w' = fw_rooms w \<Longrightarrow> places w' = places w"
  by (simp add: places_def told_handles_def answered_ids_def pending_ids_def)

text \<open>A step that draws nothing: what it adds to the places it takes out of its hands.\<close>

lemma holding_step:
  assumes "holding F' w1" and "places w2 + image_mset fst F \<subseteq># places w1 + image_mset fst F'"
    and "fs_next_id w2 = fs_next_id w1" and "tasks_wf w1 \<Longrightarrow> tasks_wf w2"
    and "\<And>i k. handle_names w1 i k \<Longrightarrow> handle_names w2 i k"
    and "\<And>i k. (i, k) \<in> set (told_handles w2) \<Longrightarrow>
      (i, k) \<in> set (told_handles w1) \<or> (i, Some k) \<in># F'"
    and "\<And>i k. (i, Some k) \<in># F \<Longrightarrow> (i, Some k) \<in># F'"
  shows "holding F w2"
proof (cases "2 ^ 64 < fs_next_id w1")
  case True
  with assms(1,3,4) show ?thesis by (simp add: holding_def)
next
  case False
  then have w1: "places w1 + image_mset fst F' \<subseteq># drawn (fs_next_id w1)"
      "\<And>i k. (i, k) \<in> set (told_handles w1) \<Longrightarrow> handle_names w1 i k"
      "\<And>i k. (i, Some k) \<in># F' \<Longrightarrow> handle_names w1 i k"
    using assms(1) unfolding holding_def by blast+
  have "places w2 + image_mset fst F \<subseteq># drawn (fs_next_id w2)"
    using w1(1) assms(2,3) by (metis subset_mset.order_trans)
  moreover have "handle_names w2 i k" if "(i, k) \<in> set (told_handles w2) \<or> (i, Some k) \<in># F" for i k
    using that w1(2,3) assms(5,6,7) by blast
  ultimately show ?thesis using assms(1,3,4) unfolding holding_def by (auto split: prod.splits)
qed

lemma holding_cong:
  assumes "holding F w1" and "fs_events w2 = fs_events w1" and "fw_responses w2 = fw_responses w1"
    and "fw_tasks w2 = fw_tasks w1" and "fw_rooms w2 = fw_rooms w1" and "fs_next_id w2 = fs_next_id w1"
    and "\<And>i k. handle_names w1 i k \<Longrightarrow> handle_names w2 i k"
  shows "holding F w2"
  by (rule holding_step [OF assms(1)])
    (use assms in \<open>auto simp: tasks_wf_def world_lookups [OF assms(2,3)] places_cong [OF assms(2-5)]\<close>)

lemma holding_less: "holding (F + F') w \<Longrightarrow> holding F w"
  by (erule holding_step) (simp_all add: ac_simps)

lemma holding_next_id: "holding F w \<Longrightarrow> holding (add_mset (counter w, None) F) (snd (next_id w))"
proof (cases "2 ^ 64 \<le> fs_next_id w")
  case True
  assume "holding F w"
  with True show ?thesis by (simp add: holding_def tasks_wf_def)
next
  case False
  let ?w = "snd (next_id w)"
  assume h: "holding F w"
  have "places ?w = places w" "told_handles ?w = told_handles w" "handle_names ?w = handle_names w" "tasks_wf ?w = tasks_wf w"
    by (simp_all add: places_cong [of ?w w] world_lookups [of ?w w] handle_names_def fun_eq_iff tasks_wf_def)
  moreover have "drawn (Suc (fs_next_id w)) = add_mset (counter w) (drawn (fs_next_id w))"
    using h False by (simp add: drawn_def holding_def counter_less)
  ultimately show ?thesis using h False by (auto simp: holding_def)
qed

lemma drawn_once: "A + {#i#} \<subseteq># drawn n \<Longrightarrow> i \<notin># A"
proof
  assume "A + {#i#} \<subseteq># drawn n" and "i \<in># A"
  then have "count (A + {#i#}) i \<le> count (drawn n) i" "1 \<le> count A i"
    by (auto simp: subseteq_mset_def dest: spec [of _ i])
  moreover have "count (drawn n) i \<le> 1" unfolding drawn_def by (simp add: count_mset_set')
  ultimately show False by simp
qed

text \<open>The object is stored under an identifier that nobody has been told yet.\<close>

lemma holding_store:
  assumes "holding (add_mset (i, None) F) w"
  shows "holding (add_mset (i, Some (kind_of obj)) F) (store_handle i obj w)"
proof (cases "2 ^ 64 < fs_next_id w")
  case True
  with assms show ?thesis by (simp add: holding_def tasks_wf_def)
next
  case False
  let ?w = "store_handle i obj w"
  have f: "i \<notin># places w + image_mset fst F"
    using assms False by (intro drawn_once [of _ _ "fs_next_id w"]) (simp add: holding_def)
  have "handle_names ?w j k = handle_names w j k" if "j \<noteq> i" for j k using that by (simp add: handle_names_def)
  moreover have "handle_names ?w i (kind_of obj)" by (simp add: handle_names_def)
  moreover have "j \<noteq> i" if "(j, k) \<in> set (told_handles w)" for j k
    using f imageI [OF that, of fst] by (auto simp: places_def)
  moreover have "j \<noteq> i" if "(j, k) \<in># F" for j k
    using f imageI [OF that, of fst] by auto
  moreover have "places ?w = places w" "told_handles ?w = told_handles w" "tasks_wf ?w = tasks_wf w"
    by (simp_all add: places_cong [of ?w w] world_lookups [of ?w w] tasks_wf_def)
  ultimately show ?thesis using assms False by (auto simp: holding_def)
qed

lemma holding_drop: "holding F w \<Longrightarrow> holding F (snd (drop_handle i w))"
  by (erule holding_cong) (auto simp: handle_names_def)

lemma holding_call: "holding F w \<Longrightarrow> holding F (call_sdk call w)"
  by (erule holding_cong) (simp_all add: handle_names_def)

lemma names_fields [simp]:
  "handle_names (emit e w) = handle_names w" "handle_names (spawn i work w) = handle_names w" "handle_names (set_work n work w) = handle_names w"
  "handle_names (set_room k r w) = handle_names w" "handle_names (call_sdk call w) = handle_names w"
  by (simp_all add: handle_names_def fun_eq_iff)

lemma holding_emit:
  assumes "holding (F + mset (event_tags e)) w"
  shows "holding F (emit e w)"
proof (rule holding_step [OF assms])
  show "places (emit e w) + image_mset fst F \<subseteq># places w + image_mset fst (F + mset (event_tags e))"
    by (simp add: places_def told_handles_def answered_ids_def pending_ids_def event_tags_def ac_simps)
  show "(i, k) \<in> set (told_handles w) \<or> (i, Some k) \<in># F + mset (event_tags e)"
    if "(i, k) \<in> set (told_handles (emit e w))" for i k
    using that by (force simp: told_handles_def event_tags_def typed_def split: if_splits)
qed (simp_all add: tasks_wf_def)

lemma holding_emit_other: "holding F w \<Longrightarrow> event_tags e = [] \<Longrightarrow> holding F (emit e w)"
  by (rule holding_emit) simp

lemma told_fields [simp]:
  "told_handles (spawn i work w) = told_handles w" "told_handles (set_work n work w) = told_handles w"
  "told_handles (set_room k r w) = told_handles w"
  by (simp_all add: told_handles_def)

lemma places_spawn:
  "places (spawn i work w) = places w + mset (task_ids \<lparr>ta_async = i, ta_work = work\<rparr>)"
  by (simp add: places_def answered_ids_def pending_ids_def) (simp add: spawn_def)

lemma holding_spawn:
  assumes "holding (add_mset (i, None) F) w" and "\<forall>e. work = WkTell e \<longrightarrow> event_tags e = [(i, None)]"
  shows "holding F (spawn (Some i) work w)"
proof (rule holding_step [OF assms(1)])
  show "tasks_wf (spawn (Some i) work w)" if "tasks_wf w"
    using that assms(2) by (auto simp: tasks_wf_def spawn_def task_wf_def)
qed (simp_all add: places_spawn task_ids_def)

lemma holding_spawn_None:
  assumes "holding F w" and "\<not> calls_back work"
  shows "holding F (spawn None work w)"
proof (rule holding_step [OF assms(1)])
  show "tasks_wf (spawn None work w)" if "tasks_wf w"
    using that assms(2) by (auto simp: tasks_wf_def spawn_def task_wf_def)
qed (simp_all add: places_spawn task_ids_def)

text \<open>A room whose channels take up the identifiers \<open>N\<close>.\<close>

lemma holding_room:
  assumes "holding (F + mset (untyped N)) w"
    and "mset (room_job_ids r) \<subseteq># mset (room_job_ids (fw_rooms w ! k)) + mset N"
  shows "holding F (set_room k r w)"
proof (rule holding_step [OF assms(1)])
  let ?c = "\<lambda>rs. mset (concat (map room_job_ids rs))"
  have "?c ((fw_rooms w)[k := r]) \<subseteq># ?c (fw_rooms w) + mset N"
  proof (cases "k < length (fw_rooms w)")
    case True
    have "?c ((fw_rooms w)[k := r]) + mset (room_job_ids (fw_rooms w ! k))
        \<subseteq># ?c (fw_rooms w) + mset N + mset (room_job_ids (fw_rooms w ! k))"
      unfolding concat_update [OF True, of room_job_ids r]
      using assms(2) by (simp add: ac_simps)
    then show ?thesis by simp
  qed (simp add: list_update_beyond)
  then show "places (set_room k r w) + image_mset fst F \<subseteq># places w + image_mset fst (F + mset (untyped N))"
    by (simp add: places_def answered_ids_def pending_ids_def set_room_def told_handles_def ac_simps)
qed (simp_all add: tasks_wf_def)

lemma holding_room_other:
  "holding F w \<Longrightarrow> fr_jobs r = fr_jobs (fw_rooms w ! k) \<Longrightarrow> holding F (set_room k r w)"
  by (rule holding_room [of F "[]"]) (simp_all add: room_job_ids_def)

lemma holding_set_work:
  assumes "holding F w" and "n < length (fw_tasks w)" and "ta_work (fw_tasks w ! n) \<noteq> WkDone"
    and "calls_back work \<longrightarrow> calls_back (ta_work (fw_tasks w ! n))" and "\<forall>e. work \<noteq> WkTell e"
  shows "holding F (set_work n work w)"
proof (rule holding_step [OF assms(1)])
  let ?t = "fw_tasks w ! n"
  let ?c = "\<lambda>ts. mset (concat (map task_ids ts))"
  have "?c ((fw_tasks w)[n := ?t\<lparr>ta_work := work\<rparr>]) + mset (task_ids ?t)
      = ?c (fw_tasks w) + mset (task_ids (?t\<lparr>ta_work := work\<rparr>))"
    by (rule concat_update [OF assms(2)])
  moreover have "mset (task_ids (?t\<lparr>ta_work := work\<rparr>)) \<subseteq># mset (task_ids ?t)"
    using assms(3) by (simp add: task_ids_def)
  ultimately have "?c ((fw_tasks w)[n := ?t\<lparr>ta_work := work\<rparr>]) \<subseteq># ?c (fw_tasks w)"
    by (metis mset_subset_eq_mono_add_right_cancel subset_mset.add_left_mono)
  then show "places (set_work n work w) + image_mset fst F \<subseteq># places w + image_mset fst F"
    by (simp add: places_def answered_ids_def pending_ids_def set_work_def told_handles_def)
  show "tasks_wf (set_work n work w)" if "tasks_wf w"
    using that assms by (auto simp: tasks_wf_def set_work_def list_all_length task_wf_def nth_list_update)
qed simp_all

lemma places_done:
  "n < length (fw_tasks w) \<Longrightarrow> places (set_work n WkDone w) + mset (task_ids (fw_tasks w ! n)) = places w"
  using concat_update [of n "fw_tasks w" task_ids "(fw_tasks w ! n)\<lparr>ta_work := WkDone\<rparr>"]
  by (simp add: places_def answered_ids_def pending_ids_def set_work_def task_ids_def told_handles_def ac_simps)

lemma tasks_wf_done: "tasks_wf w \<Longrightarrow> tasks_wf (set_work n WkDone w)"
  by (cases "n < length (fw_tasks w)")
    (auto simp: tasks_wf_def set_work_def list_all_length task_wf_def nth_list_update list_update_beyond)

lemma holding_done: "holding F w \<Longrightarrow> holding F (set_work n WkDone w)"
proof (erule holding_step)
  show "places (set_work n WkDone w) + image_mset fst F \<subseteq># places w + image_mset fst F"
  proof (cases "n < length (fw_tasks w)")
    case True
    from places_done [OF this] show ?thesis by (metis mset_subset_eq_add_left subset_mset.add_right_mono)
  next
    case False
    then have "places (set_work n WkDone w) = places w"
      by (intro places_cong) (simp_all add: set_work_def list_update_beyond)
    then show ?thesis by simp
  qed
qed (simp_all add: tasks_wf_done)

text \<open>A task that ends with an event: its identifier goes into the event.\<close>

lemma holding_finish:
  assumes "holding (F + N) w" and "n < length (fw_tasks w)"
    and "mset (event_tags e) = mset (untyped (task_ids (fw_tasks w ! n))) + N"
  shows "holding F (finish n e w)"
  unfolding finish_def
proof (rule holding_emit, rule holding_step [OF assms(1)])
  show "places (set_work n WkDone w) + image_mset fst (F + mset (event_tags e))
      \<subseteq># places w + image_mset fst (F + N)"
    using places_done [OF assms(2)] unfolding assms(3) by (simp add: ac_simps)
  show "(i, Some k) \<in># F + N" if "(i, Some k) \<in># F + mset (event_tags e)" for i k
    using that unfolding assms(3) by (auto simp: untyped_def)
qed (simp_all add: tasks_wf_done)

lemma finish_fields [simp]:
  "fw_rooms (finish n e w) = fw_rooms w" "fw_responses (finish n e w) = fw_responses w"
  "fs_next_id (finish n e w) = fs_next_id w" "fs_handles (finish n e w) = fs_handles w"
  by (simp_all add: finish_def)

lemma panic_tags [simp]: "event_tags (EvPanic msg) = []"
  by (simp add: event_tags_def)

lemma holding_panicked: "holding F w \<Longrightarrow> holding F (panicked n w)"
  unfolding panicked_def send_panic_def by (intro holding_emit_other holding_done) simp_all

lemma issue_holding:
  assumes "issue obj w = (i, w2)"
  shows "holding F w \<Longrightarrow> holding (add_mset (i, Some (kind_of obj)) F) w2"
    and "fw_tasks w2 = fw_tasks w" and "fw_rooms w2 = fw_rooms w"
proof -
  have e: "i = counter w" "w2 = store_handle i obj (snd (next_id w))"
    using assms by (auto simp: issue_def next_id_def)
  show "holding F w \<Longrightarrow> holding (add_mset (i, Some (kind_of obj)) F) w2"
    unfolding e by (intro holding_store holding_next_id)
qed (use assms in \<open>auto simp: issue_def next_id_def store_handle_def\<close>)

lemma issue_all_holding:
  "issue_all objs w = (is, w2) \<Longrightarrow> list_all (\<lambda>obj. kind_of obj = k) objs \<Longrightarrow>
   (holding F w \<longrightarrow> holding (mset (typed (map (\<lambda>i. (i, k)) is)) + F) w2)
   \<and> fw_tasks w2 = fw_tasks w \<and> fw_rooms w2 = fw_rooms w"
proof (induction objs arbitrary: w w2 "is" F)
  case (Cons obj objs)
  obtain i w3 where 1: "issue obj w = (i, w3)" by (cases "issue obj w")
  obtain js w4 where 2: "issue_all objs w3 = (js, w4)" by (cases "issue_all objs w3")
  with Cons.prems 1 have r: "is = i # js" "w2 = w4" "kind_of obj = k" by simp_all
  from Cons.IH [OF 2, of "add_mset (i, Some k) F"] Cons.prems issue_holding [OF 1] show ?case
    unfolding r by simp
qed simp

lemma issue_participants_holding:
  "issue_participants k ps w = (infos, w2) \<Longrightarrow>
   (holding F w \<longrightarrow> holding (mset (typed (participant_handles infos)) + F) w2)
   \<and> fw_tasks w2 = fw_tasks w \<and> fw_rooms w2 = fw_rooms w"
proof (induction k ps w arbitrary: infos w2 F rule: issue_participants.induct)
  case (1 k s)
  then show ?case by (simp add: participant_handles_def)
next
  case (2 k n sids ps s)
  obtain i w3 where i: "issue (ObParticipant k (RemoteRef n)) s = (i, w3)" by fastforce
  let ?objs = "map (\<lambda>sid. ObPublication k (RemotePublication n sid)) sids"
  obtain ts w4 where ts: "issue_all ?objs w3 = (ts, w4)" by fastforce
  obtain js w5 where js: "issue_participants k ps w4 = (js, w5)" by fastforce
  from "2.prems" i ts js have r: "infos = (i, ts) # js" "w2 = w5" by simp_all
  have k: "list_all (\<lambda>obj. kind_of obj = KPublication) ?objs" by (simp add: list_all_length)
  let ?ts = "typed (map (\<lambda>t. (t, KPublication)) ts)"
  have "mset (typed (participant_handles infos))
      = mset (typed (participant_handles js)) + (mset ?ts + {#(i, Some KParticipant)#})"
    by (simp add: r participant_handles_def)
  then show ?case
    using "2.IH" [OF i [symmetric] ts [symmetric] js, of "mset ?ts + add_mset (i, Some KParticipant) F"]
      issue_all_holding [OF ts k, of "add_mset (i, Some KParticipant) F"] issue_holding(1) [OF i, of F] issue_holding(2,3) [OF i]
    unfolding r by (simp add: ac_simps)
qed

section \<open>The tasks\<close>

text \<open>A task that waits under the identifier \<open>i\<close>.\<close>

definition waiting :: "nat \<Rightarrow> nat \<Rightarrow> ffi_world \<Rightarrow> bool" where
  "waiting n i w \<longleftrightarrow> n < length (fw_tasks w) \<and> task_ids (fw_tasks w ! n) = [i]
     \<and> calls_back (ta_work (fw_tasks w ! n))"

lemma waiting_async:
  "holding F w \<Longrightarrow> n < length (fw_tasks w) \<Longrightarrow> calls_back (ta_work (fw_tasks w ! n)) \<Longrightarrow>
   waiting n (async_of (fw_tasks w ! n)) w"
  by (auto simp: holding_def tasks_wf_def list_all_length task_wf_def waiting_def task_ids_def async_of_def)

lemma waiting_cong: "fw_tasks w' = fw_tasks w \<Longrightarrow> waiting n i w' = waiting n i w"
  by (simp add: waiting_def)

lemma waiting_finish:
  "holding (F + N) w \<Longrightarrow> waiting n i w \<Longrightarrow> mset (event_tags e) = add_mset (i, None) N \<Longrightarrow>
   holding F (finish n e w)"
  by (rule holding_finish) (simp_all add: waiting_def)

lemma waiting_finish_plain:
  "holding F w \<Longrightarrow> waiting n i w \<Longrightarrow> event_tags e = [(i, None)] \<Longrightarrow> holding F (finish n e w)"
  by (rule waiting_finish [of _ "{#}"]) simp_all

lemma waiting_work:
  "holding F w \<Longrightarrow> waiting n i w \<Longrightarrow> \<forall>e. work \<noteq> WkTell e \<Longrightarrow> holding F (set_work n work w)"
  by (rule holding_set_work) (auto simp: waiting_def task_ids_def)

lemma connect_task_holding:
  assumes "waiting n i w" and h: "holding {#} w"
  shows "holding {#} (connect_task n i url res w)"
proof -
  have err: "holding {#} (finish n (EvConnect i (Inl err)) w)" for err
    using assms by (intro waiting_finish_plain) (simp_all add: event_tags_def)
  have "holding {#} (set_work n WkDone w')" if "ffi_connected i url first w = Some w'" for first w'
  proof -
    from that obtain ps where ps: "first = Some (RoomEvent (ReConnected ps))"
      by (auto simp: ffi_connected_def split: option.splits sdk_event.splits room_event.splits)
    define w1 where "w1 = snd (next_id w)"
    let ?room = "counter w" and ?k = "length (fw_rooms w1)"
    define w2 where "w2 = w1\<lparr>fw_rooms := fw_rooms w1 @ [ffi_room_new ?room url]\<rparr>"
    obtain l w3 where l: "issue (ObParticipant ?k LocalRef) w2 = (l, w3)" by fastforce
    obtain infos w4 where p: "issue_participants ?k ps w3 = (infos, w4)" by fastforce
    define e where "e = EvConnect i (Inr \<lparr>co_room = ?room, co_local = l, co_participants = infos\<rparr>)"
    let ?w5 = "store_handle ?room (ObRoom ?k) w4"
    have w': "w' = spawn None (WkRoomSid ?k) (emit e ?w5)"
      using that l p unfolding ps ffi_connected_def w2_def w1_def e_def
      by (simp add: next_id_def build_initial_states_def Let_def)
    have "holding {#(?room, None)#} w1" unfolding w1_def by (rule holding_next_id [OF h])
    then have "holding {#(?room, None)#} w2"
      by (rule holding_step)
        (simp_all add: w2_def places_def told_handles_def answered_ids_def pending_ids_def tasks_wf_def
          room_job_ids_def ffi_room_new_def handle_names_def)
    from issue_holding(1) [OF l this]
    have "holding (mset (typed (participant_handles infos)) + {#(l, Some KParticipant), (?room, None)#}) w4"
      using issue_participants_holding [OF p, of "{#(l, Some KParticipant), (?room, None)#}"] by simp
    then have "holding (add_mset (?room, None)
        (mset (typed (participant_handles infos)) + {#(l, Some KParticipant)#})) w4"
      by (simp add: add_mset_commute)
    from holding_store [OF this, of "ObRoom ?k"]
    have a: "holding ({#} + ({#(?room, Some KRoom), (l, Some KParticipant)#}
        + mset (typed (participant_handles infos)))) ?w5"
      by (simp add: add_mset_commute)
    have "fw_tasks w4 = fw_tasks w"
      using issue_holding(2) [OF l] issue_participants_holding [OF p] by (simp add: w2_def w1_def)
    then have n: "waiting n i ?w5" using assms(1) by (simp add: waiting_def)
    have "set_work n WkDone w' = spawn None (WkRoomSid ?k) (finish n e ?w5)"
      using n unfolding w' waiting_def
      by (simp add: finish_def set_work_def spawn_def emit_def send_event_def list_update_append nth_append
          split: option.split)
    moreover have "holding {#} (finish n e ?w5)"
      by (rule waiting_finish [OF a n]) (simp add: e_def event_tags_def)
    ultimately show ?thesis by (simp add: holding_spawn_None)
  qed
  then show ?thesis
    using err h by (auto simp: connect_task_def holding_panicked split: sdk_result.split sum.split option.split)
qed

lemma fold_keeps:
  assumes "\<And>x s. P s \<Longrightarrow> P (f x s)"
  shows "P s \<Longrightarrow> P (fold f xs s)"
  using assms by (induction xs arbitrary: s) simp_all

lemma empty_handle_holding: "holding F w \<Longrightarrow> holding F (empty_handle i w)"
  by (erule holding_cong) (auto simp: empty_handle_def case_prod_beta handle_names_def)

lemma drop_tracks_holding: "holding F w \<Longrightarrow> holding F (drop_tracks k w)"
  unfolding drop_tracks_def by (rule fold_keeps [of "holding F"]) (rule empty_handle_holding)

lemma empty_handle_fields [simp]:
  fixes w :: ffi_world
  shows "fw_tasks (empty_handle i w) = fw_tasks w" "fw_rooms (empty_handle i w) = fw_rooms w"
    "fs_events (empty_handle i w) = fs_events w" "fs_next_id (empty_handle i w) = fs_next_id w"
    "fs_config (empty_handle i w) = fs_config w" "fw_responses (empty_handle i w) = fw_responses w"
  by (simp_all add: empty_handle_def case_prod_beta)

lemma drop_tracks_fields [simp]:
  "fw_tasks (drop_tracks k w) = fw_tasks w" "fw_rooms (drop_tracks k w) = fw_rooms w"
  "fs_events (drop_tracks k w) = fs_events w" "fs_next_id (drop_tracks k w) = fs_next_id w"
  "fs_config (drop_tracks k w) = fs_config w" "fw_responses (drop_tracks k w) = fw_responses w"
proof -
  let ?P = "\<lambda>s. fw_tasks s = fw_tasks w \<and> fw_rooms s = fw_rooms w \<and> fs_events s = fs_events w
    \<and> fs_next_id s = fs_next_id w \<and> fs_config s = fs_config w \<and> fw_responses s = fw_responses w"
  have "?P (drop_tracks k w)" unfolding drop_tracks_def by (rule fold_keeps [of ?P]) simp_all
  then show "fw_tasks (drop_tracks k w) = fw_tasks w" "fw_rooms (drop_tracks k w) = fw_rooms w"
    "fs_events (drop_tracks k w) = fs_events w" "fs_next_id (drop_tracks k w) = fs_next_id w"
    "fs_config (drop_tracks k w) = fs_config w" "fw_responses (drop_tracks k w) = fw_responses w"
    by simp_all
qed

lemma close_step_tasks: "close_step k ph w = (ph', w2) \<Longrightarrow> fw_tasks w2 = fw_tasks w"
  by (auto simp: close_step_def Let_def split: close_phase.splits if_splits)

lemma close_step_holding: "close_step k ph w = (ph', w2) \<Longrightarrow> holding F w \<Longrightarrow> holding F w2"
  by (auto simp: close_step_def Let_def drop_tracks_holding holding_room_other
      split: close_phase.splits if_splits)

lemma close_task_holding:
  assumes "waiting n i w" and "holding {#} w"
  shows "holding {#} (close_task n i k ph w)"
proof -
  obtain ph' w1 where c: "close_step k ph w = (ph', w1)" by fastforce
  have "holding {#} w1" by (rule close_step_holding [OF c assms(2)])
  moreover have "waiting n i w1" using assms(1) waiting_cong [OF close_step_tasks [OF c]] by simp
  ultimately show ?thesis unfolding close_task_def c
    by (auto split: option.split intro!: waiting_work waiting_finish_plain simp: event_tags_def)
qed

lemma dispose_task_holding:
  assumes "n < length (fw_tasks w)" and "ta_work (fw_tasks w ! n) = WkDispose rooms ph" and h: "holding {#} w"
  shows "holding {#} (dispose_task n rooms ph w)"
proof (cases rooms)
  case Nil
  have "holding {#} (w\<lparr>fs_config := None\<rparr>)" by (rule holding_cong [OF h]) (simp_all add: handle_names_def)
  with Nil show ?thesis by (simp add: dispose_task_def holding_done)
next
  case (Cons k ks)
  obtain ph' w1 where c: "close_step k ph w = (ph', w1)" by fastforce
  have "holding {#} w1" by (rule close_step_holding [OF c h])
  then have "holding {#} (set_work n (WkDispose rs p) w1)" for rs p
    by (rule holding_set_work) (simp_all add: assms close_step_tasks [OF c])
  then show ?thesis unfolding dispose_task_def Cons list.case c by (auto split: option.split)
qed

lemma publish_track_task_holding:
  "waiting n i w \<Longrightarrow> holding {#} w \<Longrightarrow> holding {#} (publish_track_task n i k h w)"
  by (auto simp: publish_track_task_def event_tags_def intro!: waiting_work waiting_finish_plain
      split: sum.split ffi_object.split ffi_track_ref.split)

lemma publishing_task_holding:
  assumes "waiting n i w" and h: "holding {#} w"
  shows "holding {#} (publishing_task n i k res w)"
proof -
  have "holding {#} (finish n (EvPublishTrack i (Inl err)) w)" for err
    using assms by (intro waiting_finish_plain) (simp_all add: event_tags_def)
  moreover have "holding {#} (finish n (EvPublishTrack i (Inr (j, sid))) w1)"
    if "issue obj w = (j, w1)" "kind_of obj = KPublication" for obj j sid w1
    using issue_holding(1) [OF that(1) h] assms waiting_cong [OF issue_holding(2) [OF that(1)]] that(2)
    by (intro waiting_finish [of _ "{#(j, Some KPublication)#}" _ _ i]) (simp_all add: event_tags_def)
  ultimately show ?thesis
    using h by (auto simp: publishing_task_def Let_def intro!: holding_room_other
        split: sdk_result.split sum.split prod.split)
qed

lemma unpublish_task_holding:
  "waiting n i w \<Longrightarrow> holding {#} w \<Longrightarrow> holding {#} (unpublish_task n i k sid res w)"
  by (auto simp: unpublish_task_def event_tags_def intro!: holding_panicked waiting_work waiting_finish_plain
      split: sum.split option.split)

lemma unpublish_wait_task_holding:
  "waiting n i w \<Longrightarrow> holding {#} w \<Longrightarrow> holding {#} (unpublish_wait_task n i k sid w)"
  unfolding unpublish_wait_task_def Let_def
  by (auto simp: event_tags_def waiting_def intro!: waiting_finish_plain [of _ _ _ i] holding_room_other)

lemma call_event_tags: "call_event call i res = Some e \<Longrightarrow> event_tags e = [(i, None)]"
  by (auto simp: call_event_def event_tags_def split: sdk_call.splits)

lemma call_task_holding:
  assumes "n < length (fw_tasks w)" and "ta_work (fw_tasks w ! n) \<noteq> WkDone" and h: "holding {#} w"
  shows "holding {#} (call_task n (ta_async (fw_tasks w ! n)) call res w)"
proof (cases "ta_async (fw_tasks w ! n)")
  case None
  with h show ?thesis by (simp add: call_task_def holding_done)
next
  case (Some i)
  then have ids: "task_ids (fw_tasks w ! n) = [i]" using assms(2) by (simp add: task_ids_def)
  have "holding {#} (finish n e w)" if "call_event call i res = Some e" for e
    using assms(1) ids call_event_tags [OF that] h by (intro holding_finish [of _ "{#}"]) simp_all
  with Some h show ?thesis by (auto simp: call_task_def split: option.split)
qed

lemma open_task_holding:
  assumes "waiting n i w" and h: "holding {#} w"
    and "\<And>r. event_tags (event r) = (i, None) # (case r of Inl _ \<Rightarrow> [] | Inr j \<Rightarrow> [(j, Some kind)])"
    and "\<And>inner. kind_of (writer inner) = kind"
  shows "holding {#} (open_task n writer event res w)"
proof -
  have "holding {#} (finish n (event (Inl err)) w)" for err
    using assms by (intro waiting_finish_plain) simp_all
  moreover have "holding {#} (finish n (event (Inr j)) w1)" if "issue (writer inner) w = (j, w1)" for inner j w1
    using issue_holding(1) [OF that h] assms waiting_cong [OF issue_holding(2) [OF that]]
    by (intro waiting_finish [of _ "{#(j, Some kind)#}" _ _ i]) simp_all
  ultimately show ?thesis
    using h by (auto simp: open_task_def split: sdk_result.split sum.split prod.split)
qed

lemma holding_quiet_finish: "event_tags e = [] \<Longrightarrow> holding {#} w \<Longrightarrow> holding {#} (finish n e w)"
  unfolding finish_def by (intro holding_emit_other holding_done)

lemma read_incremental_holding:
  "(\<And>d. event_tags (event d) = []) \<Longrightarrow> holding {#} w \<Longrightarrow> holding {#} (read_incremental_task n event result w)"
  by (auto simp: read_incremental_task_def holding_emit_other holding_quiet_finish split: option.split sum.split)

lemma room_sid_task_holding: "holding {#} w \<Longrightarrow> holding {#} (room_sid_task n k res w)"
  by (auto simp: room_sid_task_def event_tags_def intro!: holding_quiet_finish split: sdk_result.split)

lemma deliver_holding:
  assumes h: "holding {#} w" and tags: "\<And>i. event_tags (event i) = [(i, Some (kind_of obj))]"
  shows "holding {#} (tell_object event obj w)"
proof -
  obtain i w1 where i: "issue obj w = (i, w1)" by fastforce
  then have a: "holding {#(i, Some (kind_of obj))#} w1" using issue_holding(1) [OF i h] by simp
  then have "holding {#} (emit (event i) w1)" by (intro holding_emit) (simp add: tags)
  moreover have "holding {#} (snd (drop_handle i w1))" using holding_less [of "{#}"] a by (intro holding_drop) simp
  ultimately show ?thesis by (simp add: tell_object_def i emit_def send_event_def split: option.splits)
qed

lemma deliver_tasks [simp]: "fw_tasks (tell_object event obj w) = fw_tasks w"
  by (auto simp: tell_object_def issue_def send_event_def case_prod_beta split: sum.split option.split)

lemma stream_ends_holding:
  "event_tags eos = [] \<Longrightarrow> holding {#} w \<Longrightarrow> holding {#} (end_stream n owner eos w)"
  "holding {#} w \<Longrightarrow> holding {#} (stream_panics n owner w)"
  by (simp_all add: end_stream_def stream_panics_def holding_quiet_finish holding_done holding_panicked)

lemma stream_tags [simp]:
  "event_tags (EvAudioStream s StreamEos) = []" "event_tags (EvVideoStream s StreamEos) = []"
  "event_tags (EvAudioStream s (FrameReceived i frame)) = [(i, Some KAudioFrame)]"
  "event_tags (EvVideoStream s (FrameReceived i buffer)) = [(i, Some KVideoBuffer)]"
  by (simp_all add: event_tags_def)

lemma audio_stream_holding:
  assumes n: "n < length (fw_tasks w)" and "ta_work (fw_tasks w ! n) = WkAudioStream rd" and h: "holding {#} w"
  shows "holding {#} (native_audio_stream_task n rd res w)"
proof -
  have set: "holding {#} (set_work n (WkAudioStream rd') w')" if "holding {#} w'" "fw_tasks w' = fw_tasks w" for rd' w'
    using that assms(1,2) by (intro holding_set_work) simp_all
  have tell: "holding {#} (tell_object (\<lambda>i. EvAudioStream s (FrameReceived i frame)) (ObAudioFrame frame) w)" for s frame
    by (rule deliver_holding [OF h]) simp
  show ?thesis
    unfolding native_audio_stream_task_def Let_def
    by (auto intro!: set tell stream_ends_holding simp: h split: option.split sdk_result.split prod.split)
qed

lemma video_stream_holding: "holding {#} w \<Longrightarrow> holding {#} (native_video_stream_task n rd res w)"
  unfolding native_video_stream_task_def Let_def
  by (auto intro!: deliver_holding stream_ends_holding split: option.split sdk_result.split sum.split prod.split)

lemma close_followed_holding:
  assumes "holding {#} w"
  shows "holding {#} (set_work m (close_followed (ta_work (fw_tasks w ! m))) w)"
proof (cases "m < length (fw_tasks w)")
  case True
  let ?t = "fw_tasks w ! m"
  let ?t' = "?t\<lparr>ta_work := close_followed (ta_work ?t)\<rparr>"
  let ?w = "set_work m (close_followed (ta_work ?t)) w"
  have same: "task_ids ?t' = task_ids ?t" "task_wf ?t' = task_wf ?t"
    by (cases "ta_work ?t"; simp add: task_ids_def task_wf_def)+
  have "map task_ids (fw_tasks ?w) = map task_ids (fw_tasks w)"
    by (simp add: set_work_def map_update same list_update_same_conv True)
  then have p: "pending_ids ?w = pending_ids w" by (simp add: pending_ids_def)
  show ?thesis
  proof (rule holding_step [OF assms])
    show "places ?w + image_mset fst {#} \<subseteq># places w + image_mset fst {#}"
      by (simp add: places_def p answered_ids_def)
    show "tasks_wf ?w" if "tasks_wf w"
      using that True same(2) by (simp add: tasks_wf_def set_work_def list_all_length nth_list_update)
  qed simp_all
next
  case False
  with assms show ?thesis by (simp add: set_work_def list_update_beyond)
qed

lemma follow_holding:
  assumes n: "n < length (fw_tasks w)" and "ta_work (fw_tasks w ! n) = WkFollow fo" and h: "holding {#} w"
  shows "holding {#} (participant_stream_task n fo res w)"
proof -
  have set: "holding {#} (set_work n (WkFollow fo') w)" for fo'
    using assms by (intro holding_set_work) simp_all
  have "holding {#} (spawn None (followed_stream fo) w)"
    by (rule holding_spawn_None [OF h]) (simp add: followed_stream_def)
  then have new: "holding {#} (set_work n (WkFollow fo') (spawn None (followed_stream fo) w))" for fo'
    using n assms(2) by (intro holding_set_work) (simp_all add: spawn_def nth_append)
  have "event_tags (follow_eos fo) = []" by (simp add: follow_eos_def)
  then show ?thesis
    unfolding participant_stream_task_def Let_def
    by (auto intro!: set new holding_done holding_quiet_finish close_followed_holding simp: h
        split: follow_phase.split sum.split option.split sdk_result.split)
qed

lemma task_step_holding:
  assumes h: "holding {#} w" and n: "n < length (fw_tasks w)"
  shows "holding {#} (task_step n res w)"
proof -
  let ?t = "fw_tasks w ! n"
  have wait: "waiting n (async_of ?t) w" if "calls_back (ta_work ?t)" by (rule waiting_async [OF h n that])
  have tell: "event_tags e = [(async_of ?t, None)]" if "ta_work ?t = WkTell e" for e
  proof -
    have "task_wf ?t" using h n by (simp add: holding_def tasks_wf_def list_all_length)
    with that show ?thesis by (auto simp: task_wf_def async_of_def)
  qed
  show ?thesis
  proof (cases "ta_work ?t = WkDone \<or> res = ResPanicked")
    case True
    with h show ?thesis by (auto simp: task_step_def Let_def holding_done holding_panicked)
  next
    case False
    then show ?thesis
      using n tell h
      by (auto simp: task_step_def Let_def read_bytes_task_def read_text_task_def
          disconnect_task_def event_tags_def
          intro!: connect_task_holding close_task_holding dispose_task_holding publish_track_task_holding
            publishing_task_holding unpublish_task_holding unpublish_wait_task_holding call_task_holding
            open_task_holding read_incremental_holding room_sid_task_holding holding_panicked
            waiting_work waiting_finish_plain [of _ _ _ "async_of ?t"] wait audio_stream_holding
            video_stream_holding follow_holding
          split: ffi_work.split sdk_result.split sum.split ffi_object.split)
  qed
qed

section \<open>The rooms\<close>

lemma tell_room_fields [simp]:
  "fw_rooms (tell_room k msg w) = fw_rooms w" "fw_tasks (tell_room k msg w) = fw_tasks w"
  "fs_next_id (tell_room k msg w) = fs_next_id w" "fs_config (tell_room k msg w) = fs_config w"
  "fs_handles (tell_room k msg w) = fs_handles w"
  by (simp_all add: tell_room_def)

lemma tell_room_holding:
  "holding (F + mset (typed (message_handles msg))) w \<Longrightarrow> holding F (tell_room k msg w)"
  unfolding tell_room_def by (rule holding_emit) (simp add: event_tags_def)

lemma tell_other_holding: "holding F w \<Longrightarrow> message_handles msg = [] \<Longrightarrow> holding F (tell_room k msg w)"
  by (rule tell_room_holding) simp

text \<open>An event with a new handle names that handle with the type of its object, or none.\<close>

lemma tell_new_holding:
  assumes "holding {#} w"
    and "\<And>i. message_handles (msg i) = [(i, kind_of obj)] \<or> message_handles (msg i) = []"
  shows "holding {#} (tell_new k obj msg w)"
proof -
  have "holding {#} (tell_room k (msg i) w2)" if "issue obj w = (i, w2)" for i w2
  proof (rule tell_room_holding)
    have a: "holding {#(i, Some (kind_of obj))#} w2" by (rule issue_holding(1) [OF that assms(1)])
    then have "holding {#} w2" using holding_less [of "{#}" "{#(i, Some (kind_of obj))#}"] by simp
    with a assms(2) [of i] show "holding ({#} + mset (typed (message_handles (msg i)))) w2" by auto
  qed
  then show ?thesis by (auto simp: tell_new_def split: prod.split)
qed

lemma await_published_holding: "holding {#} w \<Longrightarrow> holding {#} (await_published k sid w)"
  unfolding await_published_def local_track_published_def Let_def
  by (auto intro!: tell_new_holding holding_room_other)

lemma forward_room_event_holding:
  assumes h: "holding {#} w"
  shows "holding {#} (forward_room_event view k event w)"
proof (cases event)
  case (ReTrackSubscribed n sid track)
  have "holding {#} (tell_room k (MsgTrackSubscribed who i) (set_room k r w2))"
    if "issue (ObTrack t room) w = (i, w2)" "fr_jobs r = fr_jobs (fw_rooms w ! k)" for t room i w2 r who
    using issue_holding(1) [OF that(1) h] issue_holding(3) [OF that(1)] that(2)
    by (intro tell_room_holding holding_room_other) simp_all
  with ReTrackSubscribed show ?thesis by (auto simp: forward_room_event_def Let_def split: prod.split)
qed (use h in \<open>auto simp: forward_room_event_def Let_def local_track_published_def
    intro!: tell_other_holding tell_new_holding holding_room_other await_published_holding\<close>)

lemma forward_event_holding: "holding {#} w \<Longrightarrow> holding {#} (forward_event view k event w)"
  by (induction view k event w rule: forward_event.induct)
    (auto intro!: forward_room_event_holding tell_other_holding tell_new_holding)

lemma room_task_step_holding: "holding {#} w \<Longrightarrow> holding {#} (room_task_step view k w)"
  unfolding room_task_step_def Let_def
  by (auto intro!: await_published_holding forward_event_holding holding_room_other
      split: option.split list.split)

lemma room_task_close_holding: "holding {#} w \<Longrightarrow> holding {#} (room_task_close k w)"
  unfolding room_task_close_def Let_def
  by (auto intro!: tell_other_holding holding_room_other)

lemma job_event_tags: "event_tags (job_event worker i err) = [(i, None)]"
  by (cases worker) (simp_all add: event_tags_def)

lemma job_task_step_holding:
  assumes "worker \<noteq> EventTask" and k: "k < length (fw_rooms w)" and h: "holding {#} w"
  shows "holding {#} (job_task_step worker k err w)"
proof -
  let ?r = "fw_rooms w ! k"
  have "holding {#(i, None)#} (set_room k (?r\<lparr>fr_jobs := (fr_jobs ?r)(worker := jobs)\<rparr>) w)"
    if "fr_jobs ?r worker = (i, job) # jobs" for i job jobs
  proof (rule holding_step [OF h])
    let ?r' = "?r\<lparr>fr_jobs := (fr_jobs ?r)(worker := jobs)\<rparr>"
    let ?c = "\<lambda>rs. mset (concat (map room_job_ids rs))"
    have ids: "mset (room_job_ids ?r) = add_mset i (mset (room_job_ids ?r'))"
      using assms(1) that by (cases worker) (simp_all add: room_job_ids_def)
    have "?c ((fw_rooms w)[k := ?r']) + mset (room_job_ids ?r) = ?c (fw_rooms w) + mset (room_job_ids ?r')"
      by (rule concat_update [OF k])
    then have "add_mset i (?c ((fw_rooms w)[k := ?r'])) = ?c (fw_rooms w)" unfolding ids by simp
    then show "places (set_room k ?r' w) + image_mset fst {#(i, None)#} \<subseteq># places w + image_mset fst {#}"
      by (simp add: places_def answered_ids_def pending_ids_def set_room_def told_handles_def)
  qed (simp_all add: tasks_wf_def)
  with h show ?thesis
    by (auto simp: job_task_step_def Let_def job_event_tags intro!: holding_emit holding_call split: list.split)
qed

lemma job_task_close_holding:
  assumes "holding {#} w"
  shows "holding {#} (job_task_close worker k w)"
proof -
  let ?r = "fw_rooms w ! k"
  have "mset (room_job_ids (?r\<lparr>fr_running := f, fr_jobs := (fr_jobs ?r)(worker := [])\<rparr>))
      \<subseteq># mset (room_job_ids ?r) + mset []" for f
    by (cases worker) (simp_all add: room_job_ids_def)
  with assms show ?thesis
    unfolding job_task_close_def Let_def by (auto intro!: holding_room [of "{#}" "[]"])
qed

lemma invoke_method_holding:
  assumes "holding {#} w"
  shows "holding {#} (invoke_method k method data w)"
proof -
  have "holding {#} (forward_rpc_method_invocation k h method data w)" for h
    using holding_next_id [OF assms]
    unfolding forward_rpc_method_invocation_def Let_def
    by (auto simp: case_prod_beta event_tags_def intro!: holding_emit holding_room_other)
  with assms show ?thesis by (auto simp: invoke_method_def split: option.split)
qed

section \<open>The requests\<close>

fun reply_tags :: "ffi_reply \<Rightarrow> tagged_id multiset" where
  "reply_tags (Reply (Inr (RspHandle k i))) = {#(i, Some k)#}"
| "reply_tags _ = {#}"

definition handled_ok :: "handled \<Rightarrow> bool" where
  "handled_ok h \<longleftrightarrow> holding (reply_tags (fst h)) (snd h)"

lemma handled_reply [simp]:
  "handled_ok (Reply (Inl err), w) = holding {#} w" "handled_ok (ReplyPanic, w) = holding {#} w"
  "handled_ok (Reply (Inr RspDone), w) = holding {#} w" "handled_ok (Reply (Inr (RspAsync i)), w) = holding {#} w"
  "handled_ok (Reply (Inr (RspFlag b)), w) = holding {#} w" "handled_ok (Reply (Inr (RspError e)), w) = holding {#} w"
  "handled_ok (Reply (Inr (RspBuffer b')), w) = holding {#} w" "handled_ok (Reply (Inr (RspE2ee answer)), w) = holding {#} w"
  "handled_ok (Reply (Inr (RspHandle k i)), w) = holding {#(i, Some k)#} w"
  by (simp_all add: handled_ok_def)

lemma retrieving_ok:
  "holding {#} w \<Longrightarrow> (\<And>obj. kind_of obj = kind \<Longrightarrow> handled_ok (k obj w)) \<Longrightarrow> handled_ok (retrieving kind i k w)"
  by (auto simp: retrieving_def retrieve_Inr split: sum.split)

lemma taking_ok:
  assumes "holding {#} w" and "\<And>obj w. holding {#} w \<Longrightarrow> handled_ok (k obj w)"
  shows "handled_ok (taking kind i k w)"
proof -
  have "holding {#} (snd (take_handle kind i w))"
    by (rule holding_cong [OF assms(1)])
      (auto simp: take_handle_def Let_def handle_names_def delete_conv' split: option.splits)
  then show ?thesis using assms(2) by (auto simp: taking_def split: prod.split sum.split)
qed

lemma spawn_async_ok: "holding {#} w \<Longrightarrow> \<forall>e. work \<noteq> WkTell e \<Longrightarrow> handled_ok (spawn_async work w)"
  using holding_next_id [of "{#}" w] by (auto simp: spawn_async_def case_prod_beta intro: holding_spawn)

lemma push_job_ok:
  assumes "worker \<noteq> EventTask" and "holding {#} w"
  shows "handled_ok (push_job worker what job k w)"
proof -
  let ?w = "snd (next_id w)" and ?i = "counter w"
  let ?r = "fw_rooms ?w ! k"
  have a: "holding ({#} + mset (untyped [?i])) ?w" using holding_next_id [OF assms(2)] by simp
  have "mset (room_job_ids (?r\<lparr>fr_jobs := (fr_jobs ?r)(worker := fr_jobs ?r worker @ [(?i, job)])\<rparr>))
      \<subseteq># mset (room_job_ids ?r) + mset [?i]"
    using assms by (cases worker) (simp_all add: room_job_ids_def)
  then have "holding {#} (set_room k (?r\<lparr>fr_jobs := (fr_jobs ?r)(worker := fr_jobs ?r worker @ [(?i, job)])\<rparr>) ?w)"
    by (rule holding_room [OF a])
  moreover have "holding {#} (spawn (Some ?i) (WkTell (job_event worker ?i err)) ?w)" for err
    using a by (intro holding_spawn) (simp_all add: job_event_tags)
  ultimately show ?thesis by (simp add: push_job_def Let_def case_prod_beta)
qed

lemma new_handle_ok:
  "holding {#} w \<Longrightarrow> kind_of obj = kind \<Longrightarrow>
   handled_ok (case issue obj w of (i, w) \<Rightarrow> (Reply (Inr (RspHandle kind i)), w))"
  using issue_holding(1) by (fastforce split: prod.split)

lemma guarded_async_ok:
  assumes "\<And>k e. work k \<noteq> WkTell e" and h: "holding {#} w"
  shows "handled_ok (guarded_async h' work w)"
proof -
  have a: "holding {#(counter w, None)#} (snd (next_id w))" by (rule holding_next_id [OF h])
  have "holding {#} (spawn (Some (counter w)) (work k) (snd (next_id w)))" for k
    using a assms(1) by (intro holding_spawn) simp_all
  moreover have "holding {#} (snd (next_id w))" using holding_less [of "{#}"] a by simp
  ultimately show ?thesis
    unfolding guarded_async_def
    by (auto simp: case_prod_beta intro!: retrieving_ok h split: ffi_object.split participant_ref.split)
qed

lemma guard_local_ok:
  "holding {#} w \<Longrightarrow> (\<And>k. handled_ok (f k w)) \<Longrightarrow> handled_ok (guard_local h f w)"
  unfolding guard_local_def
  by (auto intro!: retrieving_ok split: ffi_object.split participant_ref.split)

lemma remote_publication_ok: "holding {#} w \<Longrightarrow> handled_ok (on_remote_publication h call w)"
  unfolding on_remote_publication_def
  by (auto intro!: retrieving_ok holding_call split: ffi_object.split publication_ref.split)

lemma dispose_ok: "holding {#} w \<Longrightarrow> handled_ok (on_dispose async w)"
proof -
  assume h: "holding {#} w"
  have "holding {#} (w\<lparr>fs_config := None, fs_capture_logs := False\<rparr>)" "holding {#} (w\<lparr>fs_config := None\<rparr>)"
    by (rule holding_cong [OF h]; simp add: handle_names_def)+
  then show ?thesis by (auto simp: on_dispose_def Let_def intro!: holding_spawn_None)
qed

lemma new_handle_at_ok:
  "holding {#} w \<Longrightarrow> (\<And>i. kind_of (obj i) = kind) \<Longrightarrow> handled_ok (new_handle kind obj w)"
  unfolding new_handle_def by (rule new_handle_ok) simp_all

lemma watch_holding: "holding F w \<Longrightarrow> watch_handle_dropped a i w = Some w' \<Longrightarrow> holding F w'"
  by (erule holding_cong) (auto simp: watch_handle_dropped_def watch_push_def watch_create_def handle_names_def
      split: option.splits if_splits)

lemma from_track_ok:
  assumes h: "holding {#} w" and "kind_of obj = kind" and "\<And>i. \<not> calls_back (work i)"
  shows "handled_ok (from_track native what kind obj th work w)"
proof -
  let ?w = "snd (next_id w)" and ?i = "counter w"
  have a: "holding {#(?i, None)#} ?w" by (rule holding_next_id [OF h])
  have e: "holding {#} ?w" using holding_less [of "{#}"] a by simp
  have "holding {#(?i, Some kind)#} (store_handle ?i obj (spawn None (work ?i) w'))"
    if "watch_handle_dropped ?i th ?w = Some w'" for w'
    using holding_store [OF holding_spawn_None [OF watch_holding [OF a that]], of "work ?i" obj] assms by simp
  with e show ?thesis by (simp add: from_track_def case_prod_beta split: option.split)
qed

lemma from_participant_ok: "holding {#} w \<Longrightarrow> handled_ok (from_participant native kind format h rate channels ms w)"
proof -
  let ?w = "snd (next_id w)" and ?i = "counter w"
  assume "holding {#} w"
  then have a: "holding {#(?i, None)#} ?w" by (rule holding_next_id)
  have e: "holding {#} ?w" using holding_less [of "{#}"] a by simp
  have "holding {#(?i, Some (kind_of obj))#} (store_handle ?i obj (spawn None (WkFollow fo) ?w))" for obj fo
    by (rule holding_store [OF holding_spawn_None [OF a]]) simp
  from this [of ObVideoStream] this [of ObAudioStream] e
  show ?thesis by (simp add: from_participant_def case_prod_beta Let_def)
qed

lemma on_media_ok:
  assumes h: "holding {#} w"
  shows "handled_ok (on_media sr message w)"
  unfolding on_media_def
  by (cases message)
    (auto simp: on_new_video_source_def on_capture_video_frame_def on_video_convert_def on_new_video_stream_def
      on_new_audio_source_def on_capture_audio_frame_def on_clear_audio_buffer_def on_new_audio_stream_def
      new_audio_resampler_def remix_and_resample_def on_e2ee_request_def on_new_sox_resampler_def
      on_push_sox_resampler_def on_flush_sox_resampler_def on_new_apm_def on_apm_process_stream_def
      on_apm_set_stream_delay_def on_load_audio_filter_plugin_def sox_output_def Let_def h
      intro!: retrieving_ok spawn_async_ok new_handle_at_ok from_track_ok from_participant_ok holding_call
      split: sum.split option.split prod.split)

lemma rpc_response_ok:
  assumes h: "holding {#} w"
  shows "handled_ok (on_rpc_method_invocation_response h' i payload error w)"
proof -
  have "holding {#} ((set_room k r w)\<lparr>fw_rpc_answers := a\<rparr>)" if "fr_jobs r = fr_jobs (fw_rooms w ! k)" for k r a
    by (rule holding_cong [OF holding_room_other [OF h that]]) (simp_all add: handle_names_def)
  with h show ?thesis
    unfolding on_rpc_method_invocation_response_def Let_def
    by (auto intro!: retrieving_ok split: option.split)
qed

lemma room_request_ok: "holding {#} w \<Longrightarrow> handled_ok (on_room_request request w)"
  unfolding on_room_request_def
  by (cases request; simp;
      auto simp: on_publish_track_def on_unpublish_track_def on_publish_data_def 
        on_publish_transcription_def on_publish_sip_dtmf_def on_set_local_metadata_def 
        on_set_local_name_def on_set_local_attributes_def on_send_chat_message_def 
        on_edit_chat_message_def on_send_stream_header_def on_send_stream_chunk_def 
        on_send_stream_trailer_def on_get_session_stats_def on_set_threshold_def 
        on_set_permissions_def Let_def
       intro!: retrieving_ok taking_ok spawn_async_ok push_job_ok new_handle_ok guarded_async_ok guard_local_ok
         remote_publication_ok holding_call holding_spawn_None holding_room_other
       split: ffi_object.split ffi_track_ref.split option.split)

lemma track_request_ok: "holding {#} w \<Longrightarrow> handled_ok (on_track_request sr request w)"
  unfolding on_track_request_def
  by (cases request; simp;
      auto simp: on_set_subscribed_def on_enable_remote_track_def on_enable_remote_track_publication_def 
        on_update_remote_track_publication_dimension_def on_create_track_def on_local_track_mute_def 
        on_get_stats_def Let_def
       intro!: retrieving_ok taking_ok spawn_async_ok push_job_ok new_handle_ok guarded_async_ok guard_local_ok
         remote_publication_ok holding_call holding_spawn_None holding_room_other
       split: ffi_object.split ffi_track_ref.split option.split)

lemma participant_request_ok: "holding {#} w \<Longrightarrow> handled_ok (on_participant_request request w)"
  unfolding on_participant_request_def
  by (cases request; simp add: rpc_response_ok;
      auto simp: on_perform_rpc_def on_register_rpc_method_def on_unregister_rpc_method_def 
        on_send_file_def on_send_text_def on_send_bytes_def on_byte_stream_open_def 
        on_text_stream_open_def Let_def
       intro!: retrieving_ok taking_ok spawn_async_ok push_job_ok new_handle_ok guarded_async_ok guard_local_ok
         remote_publication_ok holding_call holding_spawn_None holding_room_other
       split: ffi_object.split ffi_track_ref.split option.split)

lemma stream_request_ok: "holding {#} w \<Longrightarrow> handled_ok (on_stream_request request w)"
  unfolding on_stream_request_def
  by (cases request; simp;
      auto simp: on_byte_stream_reader_read_incremental_def on_byte_stream_reader_read_all_def 
        on_byte_stream_reader_write_to_file_def on_text_stream_reader_read_incremental_def 
        on_text_stream_reader_read_all_def on_byte_stream_write_def on_byte_stream_close_def 
        on_text_stream_write_def on_text_stream_close_def Let_def
       intro!: retrieving_ok taking_ok spawn_async_ok push_job_ok new_handle_ok guarded_async_ok guard_local_ok
         remote_publication_ok holding_call holding_spawn_None holding_room_other
       split: ffi_object.split ffi_track_ref.split option.split)

lemma handle_request_ok:
  assumes h: "holding {#} w"
  shows "handled_ok (handle_request dflt sr request w)"
proof (cases request)
  case None
  with h show ?thesis by (simp add: handle_request_def)
next
  case (Some message)
  have connect: "handled_ok (on_connect dflt url w)" for url
    using holding_next_id [OF h] by (auto simp: on_connect_def case_prod_beta intro: holding_spawn)
  have disconnect: "handled_ok (on_disconnect room w)" for room
    using h by (auto simp: on_disconnect_def intro!: spawn_async_ok)
  show ?thesis
    unfolding Some handle_request_def option.case
    by (cases message) (simp_all add: dispose_ok connect disconnect on_media_ok room_request_ok track_request_ok
      participant_request_ok stream_request_ok h)
qed

lemma ffi_request_holding:
  assumes h: "holding {#} w"
  shows "holding {#} (snd (livekit_ffi_request encode dflt sr data w))"
proof (cases data)
  case None
  with h show ?thesis by (simp add: livekit_ffi_request_def)
next
  case (Some request)
  obtain r w1 where r: "handle_request dflt sr request w = (r, w1)" by fastforce
  note ok = handle_request_ok [OF h, of dflt sr request, unfolded r]
  show ?thesis
  proof (cases r)
    case ReplyPanic
    with ok Some r show ?thesis
      by (auto simp: livekit_ffi_request_def send_panic_def intro!: holding_emit_other)
  next
    case (Reply res)
    show ?thesis
    proof (cases res)
      case (Inl err)
      with ok Reply Some r show ?thesis by (simp add: livekit_ffi_request_def)
    next
      case (Inr rsp)
      obtain i w2 where i: "issue (ObDataBuffer (encode rsp)) w1 = (i, w2)" by fastforce
      let ?F = "reply_tags (Reply (Inr rsp))"
      let ?w3 = "w2\<lparr>fw_responses := fw_responses w2 @ [(i, rsp)]\<rparr>"
      have "holding ?F w1" using ok Reply Inr by (simp add: handled_ok_def)
      then have "holding (add_mset (i, Some KDataBuffer) ?F) w2" using issue_holding(1) [OF i] by simp
      then have "holding {#} ?w3"
      proof (rule holding_step)
        have tags: "mset (typed (response_handles (i, rsp))) = add_mset (i, Some KDataBuffer) ?F"
          by (cases rsp) simp_all
        from arg_cong [OF this, of "image_mset fst"]
        show "places ?w3 + image_mset fst {#} \<subseteq># places w2 + image_mset fst (add_mset (i, Some KDataBuffer) ?F)"
          by (simp add: places_def answered_ids_def pending_ids_def told_handles_def ac_simps)
        show "(j, k) \<in> set (told_handles w2) \<or> (j, Some k) \<in># add_mset (i, Some KDataBuffer) ?F"
          if "(j, k) \<in> set (told_handles ?w3)" for j k
          unfolding tags [symmetric] using that by (force simp: told_handles_def typed_def)
      qed (simp_all add: tasks_wf_def handle_names_def)
      with Some r Reply Inr i show ?thesis by (simp add: livekit_ffi_request_def)
    qed
  qed
qed

section \<open>Runs\<close>

lemma ffi_step_holding:
  assumes h: "holding {#} w"
  shows "holding {#} (ffi_step encode dflt action w)"
proof (cases action)
  case (FaInitialize config)
  have "holding {#} (ffi_setup config w)" by (rule holding_cong [OF h]) (simp_all add: ffi_setup_def handle_names_def)
  with FaInitialize show ?thesis by simp
next
  case (FaSdkEvent k event)
  with h show ?thesis by (auto simp: sdk_event_arrives_def Let_def intro!: holding_room_other)
qed (use h in \<open>auto intro: ffi_request_holding task_step_holding room_task_step_holding room_task_close_holding
    job_task_step_holding job_task_close_holding invoke_method_holding holding_drop\<close>)

interpretation ffi: kept_by "ffi_step encode dflt" "holding {#}"
  by unfold_locales (rule ffi_step_holding)

lemma holding_default: "holding {#} ffi_world_default"
  by (simp add: holding_def ffi_world_default_def ffi_server_default_def ffi_server.defs tasks_wf_def places_def
      told_handles_def answered_ids_def pending_ids_def drawn_def)

lemma holding_distinct:
  assumes "holding {#} w" and "fs_next_id w \<le> 2 ^ 64"
  shows "distinct (map fst (told_handles w) @ answered_ids w @ pending_ids w)"
    and "set (map fst (told_handles w) @ answered_ids w @ pending_ids w) \<subseteq> {1..<fs_next_id w}"
proof -
  let ?ids = "map fst (told_handles w) @ answered_ids w @ pending_ids w"
  have s: "mset ?ids \<subseteq># mset [1..<fs_next_id w]"
    using assms unfolding holding_def by (simp add: places_def drawn_def ac_simps)
  then obtain rest where "mset [1..<fs_next_id w] = mset ?ids + rest" by (auto simp: subset_mset.le_iff_add)
  moreover obtain js where "rest = mset js" using ex_mset [of rest] by blast
  ultimately have "mset [1..<fs_next_id w] = mset (?ids @ js)" by simp
  from mset_eq_imp_distinct_iff [OF this] have "distinct (?ids @ js)" by (simp only: distinct_upt)
  then show "distinct ?ids" by (simp only: distinct_append)
  show "set ?ids \<subseteq> {1..<fs_next_id w}" using set_mset_mono [OF s] by (simp only: set_mset_mset set_upt)
qed

section \<open>Properties\<close>

text \<open>
  C13. No identifier is used twice: in every run of requests, tasks, room events and closes, in any order, that
  has drawn fewer than \<open>2 ^ 64\<close> identifiers, so that the counter has not wrapped around, the handles the client
  was told, the identifiers it was called back with and those whose callback is still to come are all
  different and were drawn from the counter. So a request is answered at most once, and never while it is
  still pending.
\<close>

theorem ffi_ids_used_once:
  assumes "w = fold (ffi_step encode dflt) acts ffi_world_default" and "fs_next_id w \<le> 2 ^ 64"
  shows "distinct (map fst (told_handles w) @ answered_ids w @ pending_ids w)
    \<and> set (map fst (told_handles w) @ answered_ids w @ pending_ids w) \<subseteq> {1..<fs_next_id w}"
proof -
  have "holding {#} w" unfolding assms(1) by (rule ffi.run_inv) (rule holding_default)
  from holding_distinct [OF this assms(2)] show ?thesis by (rule conjI)
qed

text \<open>A client that asks for a connection and an audio processing module, and frees a buffer.\<close>

definition demo_ids :: ffi_world where
  "demo_ids = fold (ffi_step (\<lambda>_. []) ([], []))
     [FaInitialize \<lparr>cf_capture_logs = False, cf_sdk = [], cf_sdk_version = []\<rparr>,
      FaRequest no_readings (Some (Some (ReqConnect ''wss://host''))),
      FaRequest no_readings (Some (Some (ReqMedia ReqNewApm))), FaDropHandle 2] ffi_world_default"

lemma demo_ids_state:
  "told_handles demo_ids = [(2, KDataBuffer), (4, KDataBuffer), (3, KApm)]" "pending_ids demo_ids = [1]"
  "answered_ids demo_ids = []" "fs_next_id demo_ids = 5"
proof -
  have "(told_handles demo_ids, pending_ids demo_ids, answered_ids demo_ids, fs_next_id demo_ids)
      = ([(2, KDataBuffer), (4, KDataBuffer), (3, KApm)], [1], [], 5)"
    by code_simp
  then show "told_handles demo_ids = [(2, KDataBuffer), (4, KDataBuffer), (3, KApm)]" "pending_ids demo_ids = [1]"
    "answered_ids demo_ids = []" "fs_next_id demo_ids = 5" by simp_all
qed

lemma ffi_ids_used_once_witness:
  "distinct (map fst (told_handles demo_ids) @ answered_ids demo_ids @ pending_ids demo_ids)
    \<and> map fst (told_handles demo_ids) @ answered_ids demo_ids @ pending_ids demo_ids = [2, 4, 3, 1]"
  using ffi_ids_used_once [OF demo_ids_def] by (simp add: demo_ids_state)

text \<open>
  C14. Handles are typed: in every run that has drawn fewer than \<open>2 ^ 64\<close> identifiers a handle that the client
  was told as one of a type either retrieves an object of this type, or is gone, or was emptied by the close
  of its room. It never names an object of another type.
\<close>

theorem ffi_handles_typed:
  assumes "w = fold (ffi_step encode dflt) acts ffi_world_default" and "fs_next_id w \<le> 2 ^ 64"
    and "(h, kind) \<in> set (told_handles w)"
  shows "(\<exists>obj. retrieve_handle kind h w = Inr obj \<and> kind_of obj = kind)
    \<or> retrieve_handle kind h w = Inl (InvalidRequest ''handle not found'')
    \<or> map_of (fs_handles w) h = Some ObUnit"
proof -
  have inv: "holding {#} w" unfolding assms(1) by (rule ffi.run_inv [OF holding_default])
  then have "handle_names w h kind" using assms(2,3) by (auto simp: holding_def)
  moreover have "h \<noteq> INVALID_HANDLE"
    using holding_distinct(2) [OF inv assms(2)] imageI [OF assms(3), of fst] by (auto simp: INVALID_HANDLE_def)
  ultimately show ?thesis
    by (auto simp: handle_names_def retrieve_handle_def split: option.splits)
qed

lemma ffi_handles_typed_witness:
  "told_handles demo_ids = [(2, KDataBuffer), (4, KDataBuffer), (3, KApm)]
    \<and> ((\<exists>obj. retrieve_handle KApm 3 demo_ids = Inr obj \<and> kind_of obj = KApm)
      \<or> retrieve_handle KApm 3 demo_ids = Inl (InvalidRequest ''handle not found'')
      \<or> map_of (fs_handles demo_ids) 3 = Some ObUnit)"
  using ffi_handles_typed [OF demo_ids_def, of 3 KApm] by (simp add: demo_ids_state)

end
