(* ===== verification/FfiFlow.thy ===== *)
theory FfiFlow
  imports FfiIds "HOL-Library.Sublist"
begin

text \<open>
  The order of what a client of the foreign function interface is told: a machine that only has the events
  so far and, of each room, what decides which event may come next (\<open>flow_step\<close>). It is the contract that
  the comments of \<open>livekit-ffi/src/server/room.rs\<close> state. Its runs keep the order by rule induction; the
  interface is shown to simulate it, whatever the requests and however the tasks interleave.
\<close>

section \<open>The contract\<close>

record room_flow =
  fl_handle :: handle_id
  fl_published :: "track_sid set"
  fl_unpublished :: "track_sid set"
  fl_reconnecting :: bool
  fl_running :: bool

definition room_flow_new :: "handle_id \<Rightarrow> room_flow" where
  "room_flow_new h =
     \<lparr>fl_handle = h, fl_published = {}, fl_unpublished = {}, fl_reconnecting = False, fl_running = True\<rparr>"

lemma room_flow_new_fields [simp]:
  "fl_handle (room_flow_new h) = h" "fl_published (room_flow_new h) = {}" "fl_unpublished (room_flow_new h) = {}"
  "\<not> fl_reconnecting (room_flow_new h)" "fl_running (room_flow_new h)"
  by (simp_all add: room_flow_new_def)

type_synonym flow = "ffi_event list \<times> room_flow list \<times> nat"

text \<open>Events that may come at any time, and messages that a running room may send at any time.\<close>

fun neutral :: "ffi_event \<Rightarrow> bool" where
  "neutral (EvRoom _ _) = False"
| "neutral (EvConnect _ (Inr _)) = False"
| "neutral (EvPublishTrack _ (Inr _)) = False"
| "neutral (EvUnpublishTrack _ None) = False"
| "neutral _ = True"

fun plain :: "room_message \<Rightarrow> bool" where
  "plain (MsgLocalTrackPublished _) = False"
| "plain (MsgLocalTrackUnpublished _) = False"
| "plain MsgReconnecting = False"
| "plain MsgReconnected = False"
| "plain (MsgRoomSidChanged _) = False"
| "plain MsgEos = False"
| "plain _ = True"

inductive flow_step :: "flow \<Rightarrow> flow \<Rightarrow> bool" where
  fl_draw: "flow_step (es, rs, n) (es, rs, Suc n)"
| fl_tell: "neutral e \<Longrightarrow> flow_step (es, rs, n) (es @ [e], rs, n)"
| fl_connect: "n < m \<Longrightarrow> co_room c = unat (of_nat n :: u64) \<Longrightarrow>
    flow_step (es, rs, n) (es @ [EvConnect i (Inr c)], rs @ [room_flow_new (co_room c)], m)"
| fl_sid: "r \<in> set rs \<Longrightarrow>
    flow_step (es, rs, n) (es @ [EvRoom (fl_handle r) (MsgRoomSidChanged sid)], rs, n)"
| fl_room: "r \<in> set rs \<Longrightarrow> fl_running r \<Longrightarrow> plain msg \<Longrightarrow>
    flow_step (es, rs, n) (es @ [EvRoom (fl_handle r) msg], rs, n)"
| fl_callback: "k < length rs \<Longrightarrow> r = rs ! k \<Longrightarrow>
    flow_step (es, rs, n) (es @ [EvPublishTrack i (Inr (h, sid))],
      rs[k := r\<lparr>fl_published := insert sid (fl_published r)\<rparr>], n)"
| fl_local_published: "k < length rs \<Longrightarrow> r = rs ! k \<Longrightarrow> fl_running r \<Longrightarrow> sid \<in> fl_published r \<Longrightarrow>
    flow_step (es, rs, n) (es @ [EvRoom (fl_handle r) (MsgLocalTrackPublished sid)],
      rs[k := r\<lparr>fl_published := fl_published r - {sid}\<rparr>], n)"
| fl_republished: "r \<in> set rs \<Longrightarrow> fl_running r \<Longrightarrow> fl_reconnecting r \<Longrightarrow>
    flow_step (es, rs, n) (es @ [EvRoom (fl_handle r) (MsgLocalTrackPublished sid)], rs, n)"
| fl_local_unpublished: "k < length rs \<Longrightarrow> r = rs ! k \<Longrightarrow> fl_running r \<Longrightarrow>
    flow_step (es, rs, n) (es @ [EvRoom (fl_handle r) (MsgLocalTrackUnpublished sid)],
      rs[k := r\<lparr>fl_unpublished := insert sid (fl_unpublished r)\<rparr>], n)"
| fl_unpublish_callback: "k < length rs \<Longrightarrow> r = rs ! k \<Longrightarrow> sid \<in> fl_unpublished r \<Longrightarrow>
    flow_step (es, rs, n) (es @ [EvUnpublishTrack i None],
      rs[k := r\<lparr>fl_unpublished := fl_unpublished r - {sid}\<rparr>], n)"
| fl_reconnection: "k < length rs \<Longrightarrow> r = rs ! k \<Longrightarrow> fl_running r \<Longrightarrow>
    flow_step (es, rs, n) (es @ [EvRoom (fl_handle r) (if b then MsgReconnecting else MsgReconnected)],
      rs[k := r\<lparr>fl_reconnecting := b\<rparr>], n)"
| fl_eos: "k < length rs \<Longrightarrow> r = rs ! k \<Longrightarrow> fl_running r \<Longrightarrow>
    flow_step (es, rs, n) (es @ [EvRoom (fl_handle r) MsgEos], rs[k := r\<lparr>fl_running := False\<rparr>], n)"

section \<open>What its runs keep\<close>

definition times_in :: "('e \<Rightarrow> bool) \<Rightarrow> 'e list \<Rightarrow> nat" where
  "times_in P es = length (filter P es)"

lemma times_in_simps [simp]:
  "times_in P [] = 0" "times_in P (es @ [e]) = times_in P es + (if P e then 1 else 0)"
  by (simp_all add: times_in_def)

definition track_published :: "track_sid \<Rightarrow> ffi_event \<Rightarrow> bool" where
  "track_published sid e =
     (case e of EvRoom _ msg \<Rightarrow> (case msg of MsgLocalTrackPublished sid' \<Rightarrow> sid' = sid | _ \<Rightarrow> False) | _ \<Rightarrow> False)"

definition publish_callback :: "track_sid \<Rightarrow> ffi_event \<Rightarrow> bool" where
  "publish_callback sid e =
     (case e of EvPublishTrack _ result \<Rightarrow> (case result of Inr (_, sid') \<Rightarrow> sid' = sid | _ \<Rightarrow> False) | _ \<Rightarrow> False)"

definition told_reconnecting :: "ffi_event \<Rightarrow> bool" where
  "told_reconnecting e =
     (case e of EvRoom _ msg \<Rightarrow> (case msg of MsgReconnecting \<Rightarrow> True | _ \<Rightarrow> False) | _ \<Rightarrow> False)"

definition track_unpublished :: "ffi_event \<Rightarrow> bool" where
  "track_unpublished e =
     (case e of EvRoom _ msg \<Rightarrow> (case msg of MsgLocalTrackUnpublished _ \<Rightarrow> True | _ \<Rightarrow> False) | _ \<Rightarrow> False)"

definition unpublish_callback :: "ffi_event \<Rightarrow> bool" where
  "unpublish_callback e = (case e of EvUnpublishTrack _ err \<Rightarrow> err = None | _ \<Rightarrow> False)"

lemmas event_sorts = track_published_def publish_callback_def told_reconnecting_def track_unpublished_def
  unpublish_callback_def

lemma event_sorts_simps [simp]:
  "track_published sid (EvRoom h (MsgLocalTrackPublished sid')) = (sid' = sid)"
  "(\<And>sid. msg \<noteq> MsgLocalTrackPublished sid) \<Longrightarrow> \<not> track_published sid (EvRoom h msg)"
  "told_reconnecting (EvRoom h MsgReconnecting)"
  "msg \<noteq> MsgReconnecting \<Longrightarrow> \<not> told_reconnecting (EvRoom h msg)"
  "track_unpublished (EvRoom h (MsgLocalTrackUnpublished sid))"
  "(\<And>sid. msg \<noteq> MsgLocalTrackUnpublished sid) \<Longrightarrow> \<not> track_unpublished (EvRoom h msg)"
  "\<not> publish_callback sid (EvRoom h msg)" "\<not> unpublish_callback (EvRoom h msg)"
  "publish_callback sid (EvPublishTrack i (Inr (p, sid'))) = (sid' = sid)"
  "\<not> publish_callback sid (EvPublishTrack i (Inl e))"
  "\<not> track_published sid (EvPublishTrack i r)" "\<not> told_reconnecting (EvPublishTrack i r)"
  "\<not> track_unpublished (EvPublishTrack i r)" "\<not> unpublish_callback (EvPublishTrack i r)"
  "unpublish_callback (EvUnpublishTrack i err) = (err = None)"
  "\<not> track_published sid (EvUnpublishTrack i err)" "\<not> told_reconnecting (EvUnpublishTrack i err)"
  "\<not> track_unpublished (EvUnpublishTrack i err)" "\<not> publish_callback sid (EvUnpublishTrack i err)"
  "\<not> track_published sid (EvConnect i c)" "\<not> told_reconnecting (EvConnect i c)"
  "\<not> track_unpublished (EvConnect i c)" "\<not> publish_callback sid (EvConnect i c)" "\<not> unpublish_callback (EvConnect i c)"
  by (simp_all add: event_sorts split: room_message.split)

lemma neutral_events [simp]:
  assumes "neutral e"
  shows "\<not> track_published sid e" "\<not> publish_callback sid e" "\<not> told_reconnecting e" "\<not> track_unpublished e"
    "\<not> unpublish_callback e"
  using assms by (cases e rule: neutral.cases; simp add: event_sorts)+

lemma plain_messages [simp]:
  assumes "plain msg"
  shows "\<not> track_published sid (EvRoom h msg)" "\<not> told_reconnecting (EvRoom h msg)"
    "\<not> track_unpublished (EvRoom h msg)" "\<not> publish_callback sid (EvRoom h msg)" "msg \<noteq> MsgEos"
  using assms by (cases msg; simp)+

text \<open>How often an event may still come.\<close>

definition published_credit :: "track_sid \<Rightarrow> room_flow list \<Rightarrow> nat" where
  "published_credit sid rs = sum_list (map (\<lambda>r. of_bool (sid \<in> fl_published r)) rs)"

definition unpublished_credit :: "room_flow list \<Rightarrow> nat" where
  "unpublished_credit rs = sum_list (map (\<lambda>r. card (fl_unpublished r)) rs)"

lemma sum_list_update':
  "k < length xs \<Longrightarrow> sum_list (map f (xs[k := x])) + f (xs ! k) = sum_list (map f xs) + (f x :: nat)"
proof (induction xs arbitrary: k)
  case (Cons y ys)
  then show ?case by (cases k) auto
qed simp

lemma in_update: "x \<in> set (xs[k := y]) \<Longrightarrow> x = y \<or> x \<in> set xs"
  using set_update_subset_insert by fastforce

text \<open>
  As long as only \<open>G\<close> happens, each event of one sort is preceded by one of another: the order, with what
  is still allowed.
\<close>

definition follows ::
    "('e \<Rightarrow> bool) \<Rightarrow> ('e \<Rightarrow> bool) \<Rightarrow> ('e \<Rightarrow> bool) \<Rightarrow> nat \<Rightarrow> 'e list \<Rightarrow> bool" where
  "follows G later earlier credit es \<longleftrightarrow>
     (\<forall>p. prefix p es \<longrightarrow> (\<forall>e \<in> set p. G e) \<longrightarrow> times_in later p \<le> times_in earlier p)
     \<and> ((\<forall>e \<in> set es. G e) \<longrightarrow> times_in later es + credit \<le> times_in earlier es)"

lemma follows_snoc:
  "follows G later earlier c es \<Longrightarrow>
   (G e \<Longrightarrow> \<forall>e \<in> set es. G e \<Longrightarrow> of_bool (later e) + c' \<le> c + of_bool (earlier e)) \<Longrightarrow>
   follows G later earlier c' (es @ [e])"
  by (auto simp: follows_def prefix_snoc)

lemma follows_prefix:
  "follows G later earlier c es \<Longrightarrow> prefix p es \<Longrightarrow> \<forall>e \<in> set p. G e \<Longrightarrow> times_in later p \<le> times_in earlier p"
  by (simp add: follows_def)

fun published_kept :: "track_sid \<Rightarrow> flow \<Rightarrow> bool" where
  "published_kept sid (es, rs, n) \<longleftrightarrow>
     follows (\<lambda>e. \<not> told_reconnecting e) (track_published sid) (publish_callback sid) (published_credit sid rs) es
     \<and> ((\<forall>e \<in> set es. \<not> told_reconnecting e) \<longrightarrow> (\<forall>r \<in> set rs. \<not> fl_reconnecting r))"

fun unpublished_kept :: "flow \<Rightarrow> bool" where
  "unpublished_kept (es, rs, n) \<longleftrightarrow>
     follows (\<lambda>_. True) unpublish_callback track_unpublished (unpublished_credit rs) es
     \<and> (\<forall>r \<in> set rs. finite (fl_unpublished r))"

lemma credit_new [simp]:
  "published_credit sid (rs @ [room_flow_new h]) = published_credit sid rs"
  "unpublished_credit (rs @ [room_flow_new h]) = unpublished_credit rs"
  by (simp_all add: published_credit_def unpublished_credit_def)

lemma credit_same:
  assumes "k < length rs"
  shows "fl_published r = fl_published (rs ! k) \<Longrightarrow> published_credit sid (rs[k := r]) = published_credit sid rs"
    and "fl_unpublished r = fl_unpublished (rs ! k) \<Longrightarrow> unpublished_credit (rs[k := r]) = unpublished_credit rs"
  using sum_list_update' [OF assms, of "\<lambda>r. of_bool (sid \<in> fl_published r)" r]
    sum_list_update' [OF assms, of "\<lambda>r. card (fl_unpublished r)" r]
  by (auto simp: published_credit_def unpublished_credit_def)

lemma published_step: "flow_step s s' \<Longrightarrow> published_kept sid s \<Longrightarrow> published_kept sid s'"
proof (induction rule: flow_step.induct)
  case (fl_callback k rs r es n i h sid')
  have "published_credit sid (rs[k := r\<lparr>fl_published := insert sid' (fl_published r)\<rparr>])
      \<le> published_credit sid rs + of_bool (sid' = sid)"
    using sum_list_update' [OF fl_callback(1), of "\<lambda>r. of_bool (sid \<in> fl_published r)"
        "r\<lparr>fl_published := insert sid' (fl_published r)\<rparr>"] fl_callback(2)
    by (auto simp: published_credit_def split: if_splits)
  with fl_callback show ?case
    by (auto dest!: in_update intro!: follows_snoc)
next
  case (fl_local_published k rs r sid' es n)
  have "published_credit sid (rs[k := r\<lparr>fl_published := fl_published r - {sid'}\<rparr>]) + of_bool (sid' = sid)
      = published_credit sid rs"
    using sum_list_update' [OF fl_local_published(1), of "\<lambda>r. of_bool (sid \<in> fl_published r)"
        "r\<lparr>fl_published := fl_published r - {sid'}\<rparr>"] fl_local_published(2,4)
    by (auto simp: published_credit_def split: if_splits)
  with fl_local_published show ?case
    by (auto dest!: in_update intro!: follows_snoc)
qed (auto simp: credit_same dest!: in_update
    intro!: follows_snoc split: if_splits)

lemma unpublished_step: "flow_step s s' \<Longrightarrow> unpublished_kept s \<Longrightarrow> unpublished_kept s'"
proof (induction rule: flow_step.induct)
  case (fl_local_unpublished k rs r es n sid)
  then have "finite (fl_unpublished r)" by auto
  then have "card (insert sid (fl_unpublished r)) \<le> Suc (card (fl_unpublished r))" by (simp add: card_insert_if)
  then have "unpublished_credit (rs[k := r\<lparr>fl_unpublished := insert sid (fl_unpublished r)\<rparr>])
      \<le> unpublished_credit rs + 1"
    using sum_list_update' [OF fl_local_unpublished(1), of "\<lambda>r. card (fl_unpublished r)"
        "r\<lparr>fl_unpublished := insert sid (fl_unpublished r)\<rparr>"] fl_local_unpublished(2)
    by (simp add: unpublished_credit_def)
  with fl_local_unpublished show ?case
    by (auto dest!: in_update intro!: follows_snoc)
next
  case (fl_unpublish_callback k rs r sid es n i)
  then have "finite (fl_unpublished r)" by auto
  then have "card (fl_unpublished r) = Suc (card (fl_unpublished r - {sid}))"
    using fl_unpublish_callback(3) by (metis card.remove)
  then have "Suc (unpublished_credit (rs[k := r\<lparr>fl_unpublished := fl_unpublished r - {sid}\<rparr>]))
      = unpublished_credit rs"
    using sum_list_update' [OF fl_unpublish_callback(1), of "\<lambda>r. card (fl_unpublished r)"
        "r\<lparr>fl_unpublished := fl_unpublished r - {sid}\<rparr>"] fl_unpublish_callback(2)
    by (simp add: unpublished_credit_def)
  with fl_unpublish_callback show ?case
    by (auto dest!: in_update intro!: follows_snoc)
qed (auto simp: credit_same dest!: in_update
    intro!: follows_snoc split: if_splits)

text \<open>
  The events of a room lie between the callback of its connection and its end; only the sid, which a task
  of its own waits for, may come later.
\<close>

definition opened :: "handle_id \<Rightarrow> ffi_event list \<Rightarrow> bool" where
  "opened h es \<longleftrightarrow> (\<exists>i c. EvConnect i (Inr c) \<in> set es \<and> co_room c = h)"

definition ended :: "handle_id \<Rightarrow> ffi_event list \<Rightarrow> bool" where
  "ended h es \<longleftrightarrow> EvRoom h MsgEos \<in> set es"

fun in_turn :: "ffi_event list \<Rightarrow> ffi_event \<Rightarrow> bool" where
  "in_turn es (EvRoom h msg) \<longleftrightarrow> opened h es \<and> (ended h es \<longrightarrow> (\<exists>sid. msg = MsgRoomSidChanged sid))"
| "in_turn es _ \<longleftrightarrow> True"

definition all_in_turn :: "ffi_event list \<Rightarrow> bool" where
  "all_in_turn es \<longleftrightarrow> (\<forall>p e. prefix (p @ [e]) es \<longrightarrow> in_turn p e)"

lemma all_in_turn_snoc: "all_in_turn es \<Longrightarrow> in_turn es e \<Longrightarrow> all_in_turn (es @ [e])"
  by (auto simp: all_in_turn_def)

lemma opened_snoc [simp]:
  "opened h (es @ [e]) \<longleftrightarrow> opened h es \<or> (\<exists>i c. e = EvConnect i (Inr c) \<and> co_room c = h)"
  "ended h (es @ [e]) \<longleftrightarrow> ended h es \<or> e = EvRoom h MsgEos"
  by (auto simp: opened_def ended_def)

lemma neutral_turn [simp]:
  assumes "neutral e"
  shows "in_turn es e" "e \<noteq> EvConnect i (Inr c)" "e \<noteq> EvRoom h msg"
  using assms by (cases e rule: neutral.cases; simp)+

fun spans_kept :: "flow \<Rightarrow> bool" where
  "spans_kept (es, rs, n) \<longleftrightarrow>
     distinct (map fl_handle rs) \<and> all_in_turn es
     \<and> (\<forall>r \<in> set rs. opened (fl_handle r) es \<and> (fl_running r \<longrightarrow> \<not> ended (fl_handle r) es))
     \<and> (\<forall>h. opened h es \<longrightarrow> h < n) \<and> (\<forall>h. ended h es \<longrightarrow> opened h es)"

lemma map_update_same: "f x = f (xs ! k) \<Longrightarrow> map f (xs[k := x]) = map f xs"
  by (metis list_update_beyond list_update_id map_update not_le)

lemma same_room:
  assumes "distinct (map fl_handle rs)" and "k < length rs" and "r \<in> set rs" and "fl_handle r = fl_handle (rs ! k)"
  shows "r = rs ! k"
  using assms by (auto simp: in_set_conv_nth distinct_conv_nth)

text \<open>The handles of rooms are different as long as the counter has not wrapped around.\<close>

lemma spans_step: "flow_step s s' \<Longrightarrow> snd (snd s') \<le> 2 ^ 64 \<Longrightarrow> spans_kept s \<Longrightarrow> spans_kept s'"
proof (induction rule: flow_step.induct)
  case (fl_connect n m c es rs i)
  then have n: "co_room c = n" by (simp add: unat_of_nat take_bit_nat_eq_self)
  have h: "fl_handle r < n" if "r \<in> set rs" for r using fl_connect.prems(2) that by auto
  have no: "\<not> opened n es" "\<not> ended n es" using fl_connect.prems(2) by auto
  have "distinct (map fl_handle (rs @ [room_flow_new n]))" using fl_connect.prems(2) h by auto
  moreover have "all_in_turn (es @ [EvConnect i (Inr c)])" using fl_connect.prems(2) by (intro all_in_turn_snoc) simp_all
  ultimately show ?case using fl_connect n no by auto
next
  case (fl_eos k rs r es n)
  let ?r = "r\<lparr>fl_running := False\<rparr>"
  have handles: "map fl_handle (rs[k := ?r]) = map fl_handle rs" by (rule map_update_same) (simp add: fl_eos)
  then have alone: "r' = ?r" if "r' \<in> set (rs[k := ?r])" and "fl_handle r' = fl_handle r" for r'
    using same_room [of "rs[k := ?r]" k r'] that fl_eos by simp
  have old: "opened (fl_handle r') es" "fl_running r' \<Longrightarrow> \<not> ended (fl_handle r') es" if "r' \<in> set rs" for r'
    using fl_eos.prems that by auto
  have mem: "r \<in> set rs" using fl_eos by simp
  have turn: "all_in_turn (es @ [EvRoom (fl_handle r) MsgEos])"
    using fl_eos.prems fl_eos.hyps old mem by (intro all_in_turn_snoc) auto
  have "opened (fl_handle r') es \<and> (fl_running r' \<longrightarrow> \<not> ended (fl_handle r') (es @ [EvRoom (fl_handle r) MsgEos]))"
    if r': "r' \<in> set (rs[k := ?r])" for r'
  proof (cases "r' = ?r")
    case True
    with old [OF mem] show ?thesis by simp
  next
    case False
    with in_update [OF r'] alone [OF r'] have "r' \<in> set rs" "fl_handle r' \<noteq> fl_handle r" by blast+
    with old show ?thesis by simp
  qed
  with fl_eos.prems handles turn old(1) [OF mem] show ?case by auto
qed (auto simp: map_update_same dest!: in_update intro!: all_in_turn_snoc)

lemma spans_step': "flow_step s s' \<Longrightarrow> (snd (snd s) \<le> 2 ^ 64 \<longrightarrow> spans_kept s) \<Longrightarrow> snd (snd s') \<le> 2 ^ 64 \<longrightarrow> spans_kept s'"
proof -
  assume s: "flow_step s s'"
  then have "snd (snd s) \<le> snd (snd s')" by (cases rule: flow_step.cases) auto
  with spans_step [OF s] show "(snd (snd s) \<le> 2 ^ 64 \<longrightarrow> spans_kept s) \<Longrightarrow> ?thesis" by auto
qed

section \<open>The interface follows the contract\<close>

definition room_flow_of :: "ffi_room \<Rightarrow> room_flow" where
  "room_flow_of r =
     \<lparr>fl_handle = fr_handle_id r, fl_published = fr_published r, fl_unpublished = fr_unpublished r,
      fl_reconnecting = fr_reconnecting r, fl_running = fr_running r EventTask\<rparr>"

definition flow_of :: "ffi_world \<Rightarrow> flow" where
  "flow_of w = (fs_events w, map room_flow_of (fw_rooms w), fs_next_id w)"

text \<open>Objects and tasks name rooms that exist; the configuration is there and no task takes it away.\<close>

fun object_in :: "nat \<Rightarrow> ffi_object \<Rightarrow> bool" where
  "object_in n (ObRoom k) = (k < n)"
| "object_in n (ObParticipant k _) = (k < n)"
| "object_in n _ = True"

fun work_in :: "nat \<Rightarrow> ffi_work \<Rightarrow> bool" where
  "work_in n (WkRoomSid k) = (k < n)"
| "work_in n (WkClose k _) = (k < n)"
| "work_in n (WkDispose _ _) = False"
| "work_in n (WkPublishTrack k _) = (k < n)"
| "work_in n (WkPublishing k) = (k < n)"
| "work_in n (WkUnpublish k _) = (k < n)"
| "work_in n (WkUnpublishWait k _) = (k < n)"
| "work_in n (WkTell e) = neutral e"
| "work_in n _ = True"

definition framed :: "ffi_world \<Rightarrow> bool" where
  "framed w \<longleftrightarrow> is_setup w
     \<and> (\<forall>i obj. map_of (fs_handles w) i = Some obj \<longrightarrow> object_in (length (fw_rooms w)) obj)
     \<and> (\<forall>t \<in> set (fw_tasks w). work_in (length (fw_rooms w)) (ta_work t))"

definition leads :: "ffi_world \<Rightarrow> ffi_world \<Rightarrow> bool" where
  "leads w0 w \<longleftrightarrow> framed w \<and> flow_step\<^sup>*\<^sup>* (flow_of w0) (flow_of w)"

lemma object_in_mono: "object_in n obj \<Longrightarrow> n \<le> m \<Longrightarrow> object_in m obj"
  by (cases obj) auto

lemma work_in_mono: "work_in n work \<Longrightarrow> n \<le> m \<Longrightarrow> work_in m work"
  by (cases work) auto

lemma leads_refl: "framed w \<Longrightarrow> leads w w"
  by (simp add: leads_def)

lemma leads_framed: "leads w0 w \<Longrightarrow> framed w"
  by (simp add: leads_def)

lemma leads_step:
  "leads w0 w1 \<Longrightarrow> flow_step (flow_of w1) (flow_of w2) \<or> flow_of w2 = flow_of w1 \<Longrightarrow> framed w2 \<Longrightarrow> leads w0 w2"
  by (auto simp: leads_def intro: rtranclp.rtrancl_into_rtrancl)

text \<open>A step of the code that changes nothing the contract sees.\<close>

lemma leads_same:
  assumes "leads w0 w" and "flow_of w' = flow_of w" and "fs_config w' = fs_config w"
    and "\<And>i obj. map_of (fs_handles w') i = Some obj \<Longrightarrow>
      map_of (fs_handles w) i = Some obj \<or> object_in (length (fw_rooms w)) obj"
    and "\<And>t. t \<in> set (fw_tasks w') \<Longrightarrow> t \<in> set (fw_tasks w) \<or> work_in (length (fw_rooms w)) (ta_work t)"
  shows "leads w0 w'"
proof (rule leads_step [OF assms(1)])
  have "length (fw_rooms w') = length (fw_rooms w)"
    using assms(2) by (simp add: flow_of_def) (metis length_map)
  with assms(3-5) leads_framed [OF assms(1)] show "framed w'"
    by (auto simp: framed_def is_setup_def) blast+
qed (simp add: assms(2))

lemma flow_of_fields [simp]:
  "flow_of (store_handle i obj w) = flow_of w" "flow_of (snd (drop_handle i w)) = flow_of w"
  "flow_of (call_sdk call w) = flow_of w" "flow_of (spawn a work w) = flow_of w"
  "flow_of (set_work n work w) = flow_of w" "flow_of (w\<lparr>fs_handles := hs\<rparr>) = flow_of w"
  "flow_of (w\<lparr>fw_rpc_answers := as\<rparr>) = flow_of w" "flow_of (w\<lparr>fw_responses := rsps\<rparr>) = flow_of w"
  "flow_of (w\<lparr>fw_tasks := ts\<rparr>) = flow_of w"
  by (simp_all add: flow_of_def)

lemma leads_call: "leads w0 w \<Longrightarrow> leads w0 (call_sdk call w)"
  and leads_answers: "leads w0 w \<Longrightarrow> leads w0 (w\<lparr>fw_rpc_answers := as\<rparr>)"
  and leads_responses: "leads w0 w \<Longrightarrow> leads w0 (w\<lparr>fw_responses := rsps\<rparr>)"
  and leads_drop: "leads w0 w \<Longrightarrow> leads w0 (snd (drop_handle i w))"
  and leads_store: "leads w0 w \<Longrightarrow> object_in (length (fw_rooms w)) obj \<Longrightarrow> leads w0 (store_handle i obj w)"
  by (erule leads_same; auto split: if_splits)+

lemma leads_spawn: "leads w0 w \<Longrightarrow> work_in (length (fw_rooms w)) work \<Longrightarrow> leads w0 (spawn i work w)"
  by (erule leads_same) (auto simp: spawn_def)

lemma leads_set_work: "leads w0 w \<Longrightarrow> work_in (length (fw_rooms w)) work \<Longrightarrow> leads w0 (set_work n work w)"
  by (erule leads_same) (auto simp: set_work_def dest!: in_update)

lemma length_set_room [simp]: "length (fw_rooms (set_room k r w)) = length (fw_rooms w)"
  by (simp add: set_room_def)

lemma leads_room: "leads w0 w \<Longrightarrow> room_flow_of r = room_flow_of (fw_rooms w ! k) \<Longrightarrow> leads w0 (set_room k r w)"
  by (erule leads_same) (auto simp: flow_of_def set_room_def map_update_same)

lemma leads_next_id: "leads w0 w \<Longrightarrow> leads w0 (snd (next_id w))"
proof -
  assume w: "leads w0 w"
  have "framed (snd (next_id w))" using leads_framed [OF w] by (auto simp: framed_def is_setup_def)
  moreover have "flow_step (flow_of w) (flow_of (snd (next_id w)))" by (auto simp: flow_of_def intro: fl_draw)
  ultimately show ?thesis using leads_step [OF w] by blast
qed

lemma leads_issue: "leads w0 w \<Longrightarrow> object_in (length (fw_rooms w)) obj \<Longrightarrow> leads w0 (snd (issue obj w))"
  using leads_store [OF leads_next_id] by (simp add: issue_def case_prod_beta)

text \<open>An event by one of the rules of the contract, with a change of the rooms.\<close>

lemma leads_event:
  assumes w: "leads w0 w" and rooms: "length (fw_rooms w') = length (fw_rooms w)"
    and same: "fs_config w' = fs_config w" "fs_handles w' = fs_handles w" "fs_next_id w' = fs_next_id w"
      "set (fw_tasks w') \<subseteq> set (fw_tasks w)" "fs_events w' = fs_events w @ [e]"
    and step: "flow_step (fs_events w, map room_flow_of (fw_rooms w), fs_next_id w)
      (fs_events w @ [e], map room_flow_of (fw_rooms w'), fs_next_id w)"
  shows "leads w0 w'"
proof (rule leads_step [OF w])
  show "framed w'" using leads_framed [OF w] rooms same by (auto simp: framed_def is_setup_def)
  show "flow_step (flow_of w) (flow_of w') \<or> flow_of w' = flow_of w"
    using step same by (simp add: flow_of_def)
qed

lemma leads_setup: "leads w0 w \<Longrightarrow> is_setup w"
  by (simp add: leads_def framed_def)

lemma leads_emit: "leads w0 w \<Longrightarrow> neutral e \<Longrightarrow> leads w0 (emit e w)"
  by (rule leads_event [of w0 w _ e]) (auto simp: leads_setup intro: fl_tell)

lemma leads_panic: "leads w0 w \<Longrightarrow> leads w0 (send_panic err w)"
  by (auto simp: send_panic_def intro: leads_emit)

lemma leads_finish: "leads w0 w \<Longrightarrow> neutral e \<Longrightarrow> leads w0 (finish n e w)"
  by (auto simp: finish_def intro!: leads_emit leads_set_work)

lemma leads_panicked: "leads w0 w \<Longrightarrow> leads w0 (panicked n w)"
  by (auto simp: panicked_def intro!: leads_panic leads_set_work)

subsection \<open>Requests\<close>

lemma leads_object:
  "leads w0 w \<Longrightarrow> map_of (fs_handles w) i = Some obj \<Longrightarrow> object_in (length (fw_rooms w)) obj"
  by (auto simp: leads_def framed_def)

lemma leads_retrieving:
  "leads w0 w \<Longrightarrow>
   (\<And>obj. kind_of obj = kind \<Longrightarrow> object_in (length (fw_rooms w)) obj \<Longrightarrow> leads w0 (snd (k obj w))) \<Longrightarrow>
   leads w0 (snd (retrieving kind i k w))"
  by (auto simp: retrieving_def retrieve_Inr leads_object split: sum.split)

lemma participant_in: "kind_of obj = KParticipant \<Longrightarrow> object_in n obj \<Longrightarrow> participant_room obj < n"
  by (cases obj) simp_all

lemma leads_taking:
  assumes "leads w0 w" and "\<And>obj w. leads w0 w \<Longrightarrow> leads w0 (snd (k obj w))"
  shows "leads w0 (snd (taking kind i k w))"
proof -
  have "leads w0 (snd (take_handle kind i w))"
    by (rule leads_same [OF assms(1)])
      (auto simp: take_handle_def Let_def delete_conv' split: option.splits if_splits)
  then show ?thesis using assms(2) by (auto simp: taking_def split: prod.split sum.split)
qed

lemma leads_spawn_async:
  "leads w0 w \<Longrightarrow> work_in (length (fw_rooms w)) work \<Longrightarrow> leads w0 (snd (spawn_async work w))"
  by (simp add: spawn_async_def case_prod_beta leads_spawn leads_next_id)

lemma job_event_neutral [simp]: "neutral (job_event worker i err)"
  by (cases worker) simp_all

lemma leads_push_job: "leads w0 w \<Longrightarrow> leads w0 (snd (push_job worker what job k w))"
  by (auto simp: push_job_def Let_def case_prod_beta room_flow_of_def
      intro!: leads_room leads_spawn leads_next_id)

lemma leads_new_handle:
  "leads w0 w \<Longrightarrow> object_in (length (fw_rooms w)) obj \<Longrightarrow>
   leads w0 (snd (case issue obj w of (i, w) \<Rightarrow> (Reply (Inr (RspHandle kind i)), w)))"
  by (simp add: case_prod_beta leads_issue)

lemma leads_guarded_async:
  assumes "leads w0 w" and "\<And>k. k < length (fw_rooms w) \<Longrightarrow> work_in (length (fw_rooms w)) (work k)"
  shows "leads w0 (snd (guarded_async h work w))"
  unfolding guarded_async_def
  using assms by (auto simp: case_prod_beta intro!: leads_retrieving leads_next_id leads_spawn
      split: ffi_object.split participant_ref.split)

lemma leads_guard_local:
  "leads w0 w \<Longrightarrow> (\<And>k. leads w0 (snd (f k w))) \<Longrightarrow> leads w0 (snd (guard_local h f w))"
  unfolding guard_local_def
  by (auto intro!: leads_retrieving split: ffi_object.split participant_ref.split)

lemma leads_remote_publication: "leads w0 w \<Longrightarrow> leads w0 (snd (on_remote_publication h call w))"
  unfolding on_remote_publication_def
  by (auto intro!: leads_retrieving leads_call split: ffi_object.split publication_ref.split)

lemma leads_rpc_response:
  "leads w0 w \<Longrightarrow> leads w0 (snd (on_rpc_method_invocation_response h' i payload error w))"
  unfolding on_rpc_method_invocation_response_def Let_def
  by (auto intro!: leads_retrieving leads_answers leads_room simp: room_flow_of_def split: option.split)

lemma leads_new_handle_at:
  "leads w0 w \<Longrightarrow> (\<And>i. object_in (length (fw_rooms w)) (obj i)) \<Longrightarrow> leads w0 (snd (new_handle kind obj w))"
  unfolding new_handle_def by (rule leads_new_handle)

lemma leads_watch:
  "leads w0 w \<Longrightarrow> watch_handle_dropped a i w = Some w' \<Longrightarrow> leads w0 w' \<and> fw_rooms w' = fw_rooms w"
proof -
  assume w: "leads w0 w" and w': "watch_handle_dropped a i w = Some w'"
  have "fw_rooms w' = fw_rooms w"
    using w' by (auto simp: watch_handle_dropped_def watch_push_def watch_create_def split: option.splits if_splits)
  moreover have "leads w0 w'"
    by (rule leads_same [OF w])
      (use w' in \<open>auto simp: watch_handle_dropped_def watch_push_def watch_create_def flow_of_def
        split: option.splits if_splits\<close>)
  ultimately show ?thesis by simp
qed

lemma leads_from_track:
  assumes w: "leads w0 w" and "object_in (length (fw_rooms w)) obj" and "\<And>i. work_in (length (fw_rooms w)) (work i)"
  shows "leads w0 (snd (from_track native what kind obj th work w))"
proof -
  have "leads w0 (store_handle (counter w) obj (spawn None (work (counter w)) w'))"
    if "watch_handle_dropped (counter w) th (snd (next_id w)) = Some w'" for w'
    using leads_watch [OF leads_next_id [OF w] that] assms by (simp add: leads_store leads_spawn)
  then show ?thesis by (simp add: from_track_def case_prod_beta leads_next_id w split: option.split)
qed

lemma leads_media:
  assumes w: "leads w0 w"
  shows "leads w0 (snd (on_media sr message w))"
  unfolding on_media_def
  by (cases message)
    (auto simp: on_new_video_source_def on_capture_video_frame_def on_video_convert_def on_new_video_stream_def
      on_new_audio_source_def on_capture_audio_frame_def on_clear_audio_buffer_def on_new_audio_stream_def
      new_audio_resampler_def remix_and_resample_def on_e2ee_request_def on_new_sox_resampler_def
      on_push_sox_resampler_def on_flush_sox_resampler_def on_new_apm_def on_apm_process_stream_def
      on_apm_set_stream_delay_def on_load_audio_filter_plugin_def from_participant_def case_prod_beta Let_def w
      intro!: leads_retrieving leads_spawn_async leads_new_handle_at leads_from_track leads_call leads_store
        leads_spawn leads_next_id
      split: sum.split option.split prod.split)

lemma leads_room_request: "leads w0 w \<Longrightarrow> leads w0 (snd (on_room_request request w))"
  unfolding on_room_request_def
  by (cases request; simp;
      auto simp: on_publish_track_def on_unpublish_track_def on_publish_data_def on_publish_transcription_def
        on_publish_sip_dtmf_def on_set_local_metadata_def on_set_local_name_def on_set_local_attributes_def
        on_send_chat_message_def on_edit_chat_message_def on_send_stream_header_def on_send_stream_chunk_def
        on_send_stream_trailer_def on_get_session_stats_def on_set_threshold_def on_set_permissions_def Let_def
        room_flow_of_def
       intro!: participant_in leads_taking leads_spawn_async leads_push_job leads_new_handle
         leads_guarded_async leads_guard_local leads_remote_publication leads_call leads_spawn leads_room
         leads_retrieving
       split: ffi_object.split ffi_track_ref.split option.split)

lemma leads_track_request: "leads w0 w \<Longrightarrow> leads w0 (snd (on_track_request sr request w))"
  unfolding on_track_request_def
  by (cases request; simp;
      auto simp: on_set_subscribed_def on_enable_remote_track_publication_def
        on_update_remote_track_publication_dimension_def on_create_track_def on_local_track_mute_def
        on_enable_remote_track_def on_get_stats_def Let_def room_flow_of_def
       intro!: participant_in leads_taking leads_spawn_async leads_push_job leads_new_handle
         leads_guarded_async leads_guard_local leads_remote_publication leads_call leads_spawn leads_room
         leads_retrieving
       split: ffi_object.split ffi_track_ref.split option.split)

lemma leads_participant_request: "leads w0 w \<Longrightarrow> leads w0 (snd (on_participant_request request w))"
  unfolding on_participant_request_def
  by (cases request; simp add: leads_rpc_response;
      auto simp: on_perform_rpc_def on_register_rpc_method_def on_unregister_rpc_method_def on_send_file_def
        on_send_text_def on_send_bytes_def on_byte_stream_open_def on_text_stream_open_def Let_def
        room_flow_of_def
       intro!: participant_in leads_taking leads_spawn_async leads_push_job leads_new_handle
         leads_guarded_async leads_guard_local leads_remote_publication leads_call leads_spawn leads_room
         leads_retrieving
       split: ffi_object.split ffi_track_ref.split option.split)

lemma leads_stream_request: "leads w0 w \<Longrightarrow> leads w0 (snd (on_stream_request request w))"
  unfolding on_stream_request_def
  by (cases request; simp;
      auto simp: on_byte_stream_reader_read_incremental_def on_byte_stream_reader_read_all_def
        on_byte_stream_reader_write_to_file_def on_text_stream_reader_read_incremental_def
        on_text_stream_reader_read_all_def on_byte_stream_write_def on_byte_stream_close_def
        on_text_stream_write_def on_text_stream_close_def Let_def room_flow_of_def
       intro!: participant_in leads_taking leads_spawn_async leads_push_job leads_new_handle
         leads_guarded_async leads_guard_local leads_remote_publication leads_call leads_spawn leads_room
         leads_retrieving
       split: ffi_object.split ffi_track_ref.split option.split)

lemma leads_request:
  assumes w: "leads w0 w" and "\<forall>async. request \<noteq> Some (ReqDispose async)"
  shows "leads w0 (snd (handle_request dflt sr request w))"
proof (cases request)
  case None
  with w show ?thesis by (simp add: handle_request_def)
next
  case (Some message)
  have connect: "leads w0 (snd (on_connect dflt url w))" for url
    by (simp add: on_connect_def case_prod_beta leads_spawn leads_next_id w)
  have disconnect: "leads w0 (snd (on_disconnect room w))" for room
    by (simp add: on_disconnect_def leads_spawn_async w)
  have no_dispose: "message \<noteq> ReqDispose async" for async using assms(2) Some by simp
  show ?thesis
    unfolding Some handle_request_def option.case
    by (cases message) (simp_all add: no_dispose connect disconnect leads_media leads_room_request leads_track_request
      leads_participant_request leads_stream_request w)
qed

lemma leads_ffi_request:
  assumes w: "leads w0 w" and "\<forall>async. data \<noteq> Some (Some (ReqDispose async))"
  shows "leads w0 (snd (livekit_ffi_request encode dflt sr data w))"
proof (cases data)
  case None
  with w show ?thesis by (simp add: livekit_ffi_request_def)
next
  case (Some request)
  obtain r w1 where r: "handle_request dflt sr request w = (r, w1)" by fastforce
  have "leads w0 (snd (handle_request dflt sr request w))"
    using assms Some by (intro leads_request) auto
  then have w1: "leads w0 w1" by (simp add: r)
  with Some r show ?thesis
    by (auto simp: livekit_ffi_request_def case_prod_beta intro!: leads_panic leads_responses leads_issue
        split: ffi_reply.split sum.split)
qed

subsection \<open>Tasks\<close>

text \<open>Issuing handles only adds to the table and draws identifiers.\<close>

definition issues :: "nat \<Rightarrow> ffi_world \<Rightarrow> ffi_world \<Rightarrow> bool" where
  "issues n w w' \<longleftrightarrow> fs_events w' = fs_events w \<and> fs_config w' = fs_config w \<and> fw_tasks w' = fw_tasks w
     \<and> fw_rooms w' = fw_rooms w \<and> fs_next_id w \<le> fs_next_id w'
     \<and> (\<forall>i obj. map_of (fs_handles w') i = Some obj \<longrightarrow>
          map_of (fs_handles w) i = Some obj \<or> object_in n obj)"

lemma issues_trans: "issues n w w' \<Longrightarrow> issues n w' w'' \<Longrightarrow> issues n w w''"
  unfolding issues_def by (metis order_trans)

lemma issues_issue: "object_in n obj \<Longrightarrow> issues n w (snd (issue obj w))"
  by (auto simp: issues_def issue_def case_prod_beta split: if_splits)

lemma issues_all: "\<forall>obj \<in> set objs. object_in n obj \<Longrightarrow> issues n w (snd (issue_all objs w))"
proof (induction objs arbitrary: w)
  case (Cons obj objs)
  then show ?case
    using issues_trans [OF issues_issue Cons.IH] by (simp add: case_prod_beta)
qed (simp add: issues_def)

lemma issues_participants: "k < n \<Longrightarrow> issues n w (snd (issue_participants k ps w))"
proof (induction ps arbitrary: w)
  case (Cons p ps)
  then show ?case
    using issues_trans [OF issues_trans [OF issues_issue issues_all] Cons.IH]
    by (cases p) (simp add: case_prod_beta)
qed (simp add: issues_def)

lemma issues_states: "k < n \<Longrightarrow> issues n w (snd (build_initial_states k ps w))"
  using issues_trans [OF issues_issue issues_participants]
  by (simp add: build_initial_states_def case_prod_beta)

lemma leads_connected:
  assumes w: "leads w0 w" and c: "ffi_connected i url first w = Some w'"
  shows "leads w0 w'"
proof -
  from c obtain ps where first: "first = Some (RoomEvent (ReConnected ps))"
    by (auto simp: ffi_connected_def split: option.splits sdk_event.splits room_event.splits)
  let ?k = "length (fw_rooms w)" and ?n = "counter w"
  define w1 where "w1 = (snd (next_id w))\<lparr>fw_rooms := fw_rooms w @ [ffi_room_new ?n url]\<rparr>"
  define w2 where "w2 = snd (build_initial_states ?k ps w1)"
  define c where "c = \<lparr>co_room = ?n, co_local = fst (fst (build_initial_states ?k ps w1)),
    co_participants = snd (fst (build_initial_states ?k ps w1))\<rparr>"
  have w': "w' = spawn None (WkRoomSid ?k) (emit (EvConnect i (Inr c)) (store_handle ?n (ObRoom ?k) w2))"
    using assms(2) unfolding first ffi_connected_def w2_def w1_def c_def
    by (simp add: next_id_def case_prod_beta Let_def)
  have "issues (Suc ?k) w1 w2" unfolding w2_def by (rule issues_states) simp
  then have i: "fs_events w2 = fs_events w" "fs_config w2 = fs_config w" "fw_tasks w2 = fw_tasks w"
      "fw_rooms w2 = fw_rooms w @ [ffi_room_new ?n url]" "Suc (fs_next_id w) \<le> fs_next_id w2"
      "\<And>j obj. map_of (fs_handles w2) j = Some obj \<Longrightarrow>
        map_of (fs_handles w) j = Some obj \<or> object_in (Suc ?k) obj"
    by (auto simp: issues_def w1_def next_id_def)
  show ?thesis
  proof (rule leads_step [OF w])
    have "flow_step (flow_of w) (fs_events w @ [EvConnect i (Inr c)],
        map room_flow_of (fw_rooms w) @ [room_flow_new (co_room c)], fs_next_id w2)"
      unfolding flow_of_def using i(5) by (intro fl_connect) (simp_all add: c_def counter_def)
    then show "flow_step (flow_of w) (flow_of w') \<or> flow_of w' = flow_of w"
      using leads_setup [OF w] i(1-4)
      by (simp add: w' flow_of_def is_setup_def room_flow_of_def ffi_room_new_def room_flow_new_def c_def)
    show "framed w'"
      using leads_framed [OF w] i
      by (auto simp: w' framed_def is_setup_def spawn_def object_in_mono work_in_mono split: if_splits)
        (metis object_in_mono le_SucI order_refl)
  qed
qed

lemma leads_done: "leads w0 w \<Longrightarrow> leads w0 (set_work n WkDone w)"
  by (simp add: leads_set_work)

lemma leads_drop_tracks: "leads w0 w \<Longrightarrow> leads w0 (drop_tracks k w) \<and> fw_rooms (drop_tracks k w) = fw_rooms w"
proof -
  have "leads w0 (fold empty_handle hs w) \<and> fw_rooms (fold empty_handle hs w) = fw_rooms w" if "leads w0 w" for hs w
    using that
  proof (induction hs arbitrary: w)
    case (Cons h hs)
    have "leads w0 (empty_handle h w)" "fw_rooms (empty_handle h w) = fw_rooms w"
      using leads_drop [OF Cons.prems, of h]
      by (auto simp: empty_handle_def case_prod_beta intro: leads_store)
    with Cons.IH [of "empty_handle h w"] show ?case by simp
  qed simp
  then show "leads w0 w \<Longrightarrow> ?thesis" by (simp add: drop_tracks_def)
qed

lemma leads_close_step:
  assumes "leads w0 w"
  shows "leads w0 (snd (close_step k ph w)) \<and> length (fw_rooms (snd (close_step k ph w))) = length (fw_rooms w)"
  using leads_drop_tracks [OF assms] assms
  by (auto simp: close_step_def Let_def room_flow_of_def intro: leads_room split: close_phase.split)

lemma room_flow_of_fields [simp]:
  "fl_handle (room_flow_of r) = fr_handle_id r" "fl_published (room_flow_of r) = fr_published r"
  "fl_unpublished (room_flow_of r) = fr_unpublished r" "fl_reconnecting (room_flow_of r) = fr_reconnecting r"
  "fl_running (room_flow_of r) = fr_running r EventTask"
  "room_flow_of (r\<lparr>fr_published := S\<rparr>) = (room_flow_of r)\<lparr>fl_published := S\<rparr>"
  "room_flow_of (r\<lparr>fr_unpublished := S\<rparr>) = (room_flow_of r)\<lparr>fl_unpublished := S\<rparr>"
  "room_flow_of (r\<lparr>fr_reconnecting := b\<rparr>) = (room_flow_of r)\<lparr>fl_reconnecting := b\<rparr>"
  "room_flow_of (r\<lparr>fr_running := (fr_running r)(EventTask := b)\<rparr>) = (room_flow_of r)\<lparr>fl_running := b\<rparr>"
  "room_flow_of (r\<lparr>fr_waiting := sids\<rparr>) = room_flow_of r" "room_flow_of (r\<lparr>fr_events := events\<rparr>) = room_flow_of r"
  "room_flow_of (r\<lparr>fr_track_lookup := lookup\<rparr>) = room_flow_of r"
  by (simp_all add: room_flow_of_def)

lemma set_room_emit: "set_room k r (emit e w) = emit e (set_room k r w)"
  by (simp add: set_room_def emit_def send_event_def split: option.split)

text \<open>An event with the new state of a room.\<close>

lemma leads_room_event:
  assumes w: "leads w0 w" and k: "k < length (fw_rooms w)"
    and step: "flow_step (fs_events w, map room_flow_of (fw_rooms w), fs_next_id w)
      (fs_events w @ [e], (map room_flow_of (fw_rooms w))[k := room_flow_of r], fs_next_id w)"
  shows "leads w0 (emit e (set_room k r w))"
  by (rule leads_event [OF w, of _ e])
    (use leads_setup [OF w] step in \<open>simp_all add: is_setup_def set_room_def map_update\<close>)

lemma leads_callback:
  "leads w0 w \<Longrightarrow> k < length (fw_rooms w) \<Longrightarrow> r = fw_rooms w ! k \<Longrightarrow>
   leads w0 (emit (EvPublishTrack i (Inr (h, sid))) (set_room k (r\<lparr>fr_published := insert sid (fr_published r)\<rparr>) w))"
  using fl_callback [of k "map room_flow_of (fw_rooms w)" "room_flow_of r"]
  by (auto intro!: leads_room_event)

lemma leads_unpublish_callback:
  "leads w0 w \<Longrightarrow> k < length (fw_rooms w) \<Longrightarrow> r = fw_rooms w ! k \<Longrightarrow> sid \<in> fr_unpublished r \<Longrightarrow>
   leads w0 (emit (EvUnpublishTrack i None) (set_room k (r\<lparr>fr_unpublished := fr_unpublished r - {sid}\<rparr>) w))"
  using fl_unpublish_callback [of k "map room_flow_of (fw_rooms w)" "room_flow_of r"]
  by (auto intro!: leads_room_event)

lemma leads_sid:
  assumes "leads w0 w" and k: "k < length (fw_rooms w)"
  shows "leads w0 (emit (EvRoom (fr_handle_id (fw_rooms w ! k)) (MsgRoomSidChanged sid)) w)"
  using fl_sid [of "room_flow_of (fw_rooms w ! k)" "map room_flow_of (fw_rooms w)"] k
  by (intro leads_event [OF assms(1), of _ "EvRoom (fr_handle_id (fw_rooms w ! k)) (MsgRoomSidChanged sid)"])
    (auto simp: leads_setup [OF assms(1)])

lemma leads_publishing:
  assumes w: "leads w0 w" and k: "k < length (fw_rooms w)"
  shows "leads w0 (publishing_task n i k res w)"
proof -
  have "leads w0 (let r = fw_rooms w3 ! k in set_room k (r\<lparr>fr_published := insert sid (fr_published r)\<rparr>)
      (finish n (EvPublishTrack i (Inr (h, sid))) w3))"
    if "leads w0 w3" and "k < length (fw_rooms w3)" for w3 h sid
    using leads_callback [OF leads_done [OF that(1)], of k] that(2)
    by (simp add: Let_def finish_def set_room_emit)
  from this [of "store_handle (counter w) (ObPublication k (LocalPublication sid)) (snd (next_id w))"
      sid "counter w" for sid]
  show ?thesis
    using leads_issue [OF w] leads_finish [OF w] k w
    unfolding publishing_task_def
    by (auto simp: Let_def issue_def case_prod_beta split: sdk_result.split sum.split)
qed

lemma leads_unpublish:
  assumes w: "leads w0 w" and k: "k < length (fw_rooms w)"
  shows "leads w0 (unpublish_task n i k s res w)" and "leads w0 (unpublish_wait_task n i k sid w)"
proof -
  show "leads w0 (unpublish_task n i k s res w)"
    using w k by (auto simp: unpublish_task_def intro!: leads_panicked leads_finish leads_set_work
        split: sum.split option.split)
  have "finish n e (set_room k r w) = emit e (set_room k r (set_work n WkDone w))" for e r
    by (cases w) (simp add: finish_def set_room_def set_work_def)
  then show "leads w0 (unpublish_wait_task n i k sid w)"
    using leads_unpublish_callback [OF leads_done [OF w], of k] w k
    by (simp add: unpublish_wait_task_def Let_def)
qed

lemma call_event_neutral: "call_event call i res = Some e \<Longrightarrow> neutral e"
  by (auto simp: call_event_def split: sdk_call.splits)

lemma leads_deliver:
  assumes w: "leads w0 w" and "\<And>i. neutral (event i)" and "object_in (length (fw_rooms w)) obj"
  shows "leads w0 (tell_object event obj w) \<and> fw_rooms (tell_object event obj w) = fw_rooms w"
proof -
  let ?w = "snd (issue obj w)" and ?i = "fst (issue obj w)"
  have i: "leads w0 ?w" by (rule leads_issue [OF w assms(3)])
  then have "fst (send_event (event ?i) ?w) = Inr ()"
    using leads_setup [OF i] by (auto simp: send_event_def is_setup_def)
  then have "tell_object event obj w = emit (event ?i) ?w"
    by (simp add: tell_object_def case_prod_beta emit_def)
  then show ?thesis using leads_emit [OF i assms(2)] by (simp add: issue_def case_prod_beta)
qed

lemma leads_stream_ends:
  "leads w0 w \<Longrightarrow> neutral eos \<Longrightarrow> leads w0 (end_stream n owner eos w)"
  "leads w0 w \<Longrightarrow> leads w0 (stream_panics n owner w)"
  by (simp_all add: end_stream_def stream_panics_def leads_finish leads_done leads_panicked)

lemma leads_streams:
  assumes w: "leads w0 w"
  shows "leads w0 (native_audio_stream_task n rd res w)" and "leads w0 (native_video_stream_task n vd res w)"
proof -
  have tell: "leads w0 (tell_object (\<lambda>i. EvAudioStream s (FrameReceived i frame)) (ObAudioFrame frame) w)"
      "leads w0 (tell_object (\<lambda>i. EvVideoStream s (FrameReceived i buffer)) (ObVideoBuffer buffer) w)" for s frame buffer
    using leads_deliver [OF w] by simp_all
  show "leads w0 (native_audio_stream_task n rd res w)"
    unfolding native_audio_stream_task_def Let_def
    by (auto intro!: tell leads_stream_ends leads_set_work simp: w split: option.split sdk_result.split prod.split)
  show "leads w0 (native_video_stream_task n vd res w)"
    unfolding native_video_stream_task_def Let_def
    by (auto intro!: tell leads_stream_ends simp: w split: option.split sdk_result.split sum.split prod.split)
qed

lemma leads_follow:
  assumes w: "leads w0 w"
  shows "leads w0 (participant_stream_task n fo res w)"
proof -
  have closed: "leads w0 (set_work m (close_followed (ta_work (fw_tasks w ! m))) w)" for m
  proof (cases "m < length (fw_tasks w)")
    case True
    have "work_in k (close_followed work) = work_in k work" for k work by (cases work) simp_all
    with True leads_framed [OF w] show ?thesis by (intro leads_set_work [OF w]) (auto simp: framed_def)
  qed (simp add: set_work_def list_update_beyond w)
  have eos: "neutral (follow_eos fo)" by (simp add: follow_eos_def)
  have follows: "leads w0 (set_work n (WkFollow fo') w')" if "leads w0 w'" for fo' w'
    by (rule leads_set_work [OF that]) simp
  have spawned: "leads w0 (spawn None (followed_stream fo) w)"
    by (rule leads_spawn [OF w]) (simp add: followed_stream_def)
  show ?thesis
    unfolding participant_stream_task_def Let_def
    by (simp add: w closed follows spawned leads_done [OF w] leads_done [OF closed] leads_finish [OF w eos]
        leads_finish [OF closed eos] split: follow_phase.split sum.split option.split sdk_result.split)
qed

lemma leads_task_step:
  assumes w: "leads w0 w" and n: "n < length (fw_tasks w)"
  shows "leads w0 (task_step n res w)"
proof -
  let ?t = "fw_tasks w ! n"
  have work: "work_in (length (fw_rooms w)) (ta_work ?t)"
    using leads_framed [OF w] n by (auto simp: framed_def)
  have connect: "leads w0 (connect_task n i url res w)" for i url
    unfolding connect_task_def
    by (auto intro!: leads_finish leads_panicked leads_done w dest: leads_connected [OF w]
        split: sdk_result.split sum.split option.split)
  have disconnect: "leads w0 (disconnect_task n h w)" for h
    unfolding disconnect_task_def
    by (auto intro!: leads_panicked leads_set_work w simp: retrieve_Inr leads_object [OF w]
        dest: leads_object [OF w] split: sum.split ffi_object.split)
  have close: "leads w0 (close_task n i k ph w)" if "k < length (fw_rooms w)" for i k ph
    using leads_close_step [OF w, of k ph] that
    by (auto simp: close_task_def case_prod_beta intro!: leads_finish leads_set_work split: option.split)
  have publish: "leads w0 (publish_track_task n i k h w)" if "k < length (fw_rooms w)" for i k h
    using that unfolding publish_track_task_def
    by (auto intro!: leads_finish leads_set_work w split: sum.split ffi_object.split ffi_track_ref.split)
  have call: "leads w0 (call_task n i call res w)" for i call
    unfolding call_task_def
    by (auto intro!: leads_finish leads_done w dest: call_event_neutral split: option.split)
  have opens: "leads w0 (open_task n writer event res w)"
    if "\<And>j. object_in (length (fw_rooms w)) (writer j)" "\<And>r. neutral (event r)" for writer event
    using that unfolding open_task_def
    by (auto simp: case_prod_beta intro!: leads_finish leads_issue w split: sdk_result.split sum.split)
  have reads: "leads w0 (read_bytes_task n h res w)" "leads w0 (read_text_task n h res w)" for h
    unfolding read_bytes_task_def read_text_task_def read_incremental_task_def
    by (auto intro!: leads_finish leads_emit w split: sdk_result.split sum.split option.split)
  have sid: "leads w0 (room_sid_task n k res w)" if "k < length (fw_rooms w)" for k
    using that leads_sid [OF leads_done [OF w], of k] w
    unfolding room_sid_task_def by (auto simp: finish_def split: sdk_result.split)
  show ?thesis
    using work connect disconnect close publish call opens reads sid leads_streams [OF w] leads_follow [OF w] leads_publishing [OF w] leads_unpublish [OF w]
      leads_finish [OF w] leads_done [OF w] leads_panicked [OF w] w
    unfolding task_step_def Let_def by (cases "ta_work ?t") auto
qed

subsection \<open>The events of a room\<close>

text \<open>A room that runs its event task.\<close>

definition runs :: "ffi_world \<Rightarrow> nat \<Rightarrow> bool" where
  "runs w k \<longleftrightarrow> k < length (fw_rooms w) \<and> fr_running (fw_rooms w ! k) EventTask"

lemma runs_set_room:
  "runs w k \<Longrightarrow> fr_running r EventTask \<Longrightarrow> runs (set_room k r w) k"
  by (simp add: runs_def set_room_def)

lemma room_set_room [simp]: "k < length (fw_rooms w) \<Longrightarrow> fw_rooms (set_room k r w) ! k = r"
  by (simp add: set_room_def)

lemma leads_tell:
  assumes w: "leads w0 w" and "runs w k" and "plain msg"
  shows "leads w0 (tell_room k msg w)"
  using fl_room [of "room_flow_of (fw_rooms w ! k)" "map room_flow_of (fw_rooms w)"] assms(2,3)
  by (auto simp: tell_room_def runs_def leads_setup [OF w]
      intro!: leads_event [OF w, of _ "EvRoom (fr_handle_id (fw_rooms w ! k)) msg"])

lemma leads_tell_new:
  assumes "leads w0 w" and "runs w k" and "object_in (length (fw_rooms w)) obj" and "\<And>i. plain (msg i)"
  shows "leads w0 (tell_new k obj msg w)"
proof -
  have "runs (snd (issue obj w)) k" using assms(2) by (simp add: runs_def issue_def case_prod_beta)
  with leads_tell [OF leads_issue [OF assms(1,3)]] assms(4) show ?thesis
    by (simp add: tell_new_def case_prod_beta)
qed

lemma issue_set_room:
  "issue obj (set_room k r w) = (fst (issue obj w), set_room k r (snd (issue obj w)))"
  "fw_rooms (snd (issue obj w)) = fw_rooms w"
  by (cases w, simp add: issue_def set_room_def next_id_def store_handle_def counter_def)
    (simp add: issue_def case_prod_beta)

lemma leads_republished:
  assumes w: "leads w0 w" and k: "runs w k" and "fr_reconnecting (fw_rooms w ! k)"
  shows "leads w0 (local_track_published k sid w)"
proof -
  let ?w = "snd (issue (ObPublication k (LocalPublication sid)) w)"
  have i: "leads w0 ?w" by (simp add: leads_issue w)
  have "leads w0 (emit (EvRoom (fr_handle_id (fw_rooms ?w ! k)) (MsgLocalTrackPublished sid)) ?w)"
    using fl_republished [of "room_flow_of (fw_rooms w ! k)" "map room_flow_of (fw_rooms w)"] assms(2,3)
    by (intro leads_event [OF i, of _ "EvRoom (fr_handle_id (fw_rooms w ! k)) (MsgLocalTrackPublished sid)"])
      (auto simp: issue_set_room(2) runs_def leads_setup [OF i])
  then show ?thesis by (simp add: local_track_published_def tell_new_def tell_room_def case_prod_beta)
qed

lemma leads_await:
  assumes w: "leads w0 w" and k: "runs w k"
  shows "leads w0 (await_published k sid w)"
proof (cases "sid \<in> fr_published (fw_rooms w ! k)")
  case True
  let ?r = "fw_rooms w ! k"
  let ?r' = "?r\<lparr>fr_published := fr_published ?r - {sid}, fr_waiting := None\<rparr>"
  let ?w = "snd (issue (ObPublication k (LocalPublication sid)) w)"
  have i: "leads w0 ?w" by (simp add: leads_issue w)
  have "leads w0 (emit (EvRoom (fr_handle_id ?r) (MsgLocalTrackPublished sid)) (set_room k ?r' ?w))"
    using fl_local_published [of k "map room_flow_of (fw_rooms w)" "room_flow_of ?r" sid] k True
    by (intro leads_room_event [OF i]) (auto simp: issue_set_room(2) runs_def)
  with True k show ?thesis
    by (simp add: await_published_def Let_def local_track_published_def tell_new_def tell_room_def
        issue_set_room runs_def)
next
  case False
  with w show ?thesis by (simp add: await_published_def Let_def leads_room)
qed

lemma leads_local_unpublished:
  assumes "leads w0 w" and "runs w k" and r: "r = fw_rooms w ! k"
  shows "leads w0 (set_room k (r\<lparr>fr_unpublished := insert sid (fr_unpublished r)\<rparr>)
    (tell_room k (MsgLocalTrackUnpublished sid) w))"
  using fl_local_unpublished [of k "map room_flow_of (fw_rooms w)" "room_flow_of r"] assms(2) r
  unfolding tell_room_def set_room_emit
  by (intro leads_room_event [OF assms(1)]) (auto simp: runs_def)

lemma leads_reconnection:
  assumes "leads w0 w" and "runs w k" and r: "r = fw_rooms w ! k"
  shows "leads w0 (tell_room k MsgReconnecting (set_room k (r\<lparr>fr_reconnecting := True\<rparr>) w))"
    and "leads w0 (tell_room k MsgReconnected (set_room k (r\<lparr>fr_reconnecting := False\<rparr>) w))"
  using fl_reconnection [of k "map room_flow_of (fw_rooms w)" "room_flow_of r" "fs_events w" "fs_next_id w" True]
    fl_reconnection [of k "map room_flow_of (fw_rooms w)" "room_flow_of r" "fs_events w" "fs_next_id w" False]
    assms(2) r
  by (auto simp: tell_room_def runs_def intro!: leads_room_event [OF assms(1)])

lemma leads_close_events:
  assumes w: "leads w0 w" and k: "k < length (fw_rooms w)"
  shows "leads w0 (room_task_close k w)"
  using fl_eos [of k "map room_flow_of (fw_rooms w)" "room_flow_of (fw_rooms w ! k)"] k w
  by (auto simp: room_task_close_def Let_def tell_room_def intro!: leads_room_event [OF w])

lemma leads_forward_room:
  assumes w: "leads w0 w" and k: "runs w k"
  shows "leads w0 (forward_room_event view k event w)"
proof -
  let ?r = "fw_rooms w ! k"
  have subscribed: "leads w0 (case issue (ObTrack t h) w of (i, w) \<Rightarrow>
      tell_room k (MsgTrackSubscribed who i) (set_room k (?r\<lparr>fr_track_lookup := f i\<rparr>) w))" for t h who f
  proof -
    have "leads w0 (snd (issue (ObTrack t h) w))" by (simp add: leads_issue w)
    then show ?thesis
      using k by (auto simp: case_prod_beta issue_set_room(2) runs_def intro!: leads_tell leads_room)
  qed
  have "k < length (fw_rooms w)" using k by (simp add: runs_def)
  then show ?thesis
    unfolding forward_room_event_def Let_def
    by (cases event)
      (simp_all add: leads_tell [OF w k] leads_tell_new [OF w k] leads_republished [OF w k] leads_await [OF w k]
        leads_local_unpublished [OF w k] leads_reconnection [OF w k] subscribed w)
qed

lemma leads_forward:
  assumes "leads w0 w" and "runs w k"
  shows "leads w0 (forward_event view k event w)"
  using assms
  by (cases "(view, k, event, w)" rule: forward_event.cases)
    (simp_all add: leads_forward_room leads_tell leads_tell_new)

lemma leads_room_task:
  assumes w: "leads w0 w" and k: "k < length (fw_rooms w)"
  shows "leads w0 (room_task_step view k w)"
proof (cases "fr_running (fw_rooms w ! k) EventTask")
  case True
  then have runs: "runs w k" using k by (simp add: runs_def)
  then have "leads w0 (forward_event view k event (set_room k ((fw_rooms w ! k)\<lparr>fr_events := events\<rparr>) w))"
    for event events
    by (intro leads_forward leads_room [OF w] runs_set_room) (simp_all add: True)
  with w leads_await [OF w runs] show ?thesis
    by (simp add: room_task_step_def Let_def split: option.split list.split)
qed (simp add: room_task_step_def w)

text \<open>What is asked of a run: that the client neither starts anew nor disposes of the library.\<close>

definition undisposed :: "ffi_action \<Rightarrow> bool" where
  "undisposed action =
     (case action of
        FaInitialize _ \<Rightarrow> False
      | FaRequest _ (Some (Some request)) \<Rightarrow> (case request of ReqDispose _ \<Rightarrow> False | _ \<Rightarrow> True)
      | _ \<Rightarrow> True)"

lemma undisposed_simps [simp]:
  "\<not> undisposed (FaInitialize config)"
  "undisposed (FaRequest sr data) \<longleftrightarrow> (\<forall>async. data \<noteq> Some (Some (ReqDispose async)))"
  by (auto simp: undisposed_def split: option.split ffi_request.split)

lemma leads_ffi_step:
  assumes w: "leads w0 w" and "undisposed action"
  shows "leads w0 (ffi_step encode dflt action w)"
proof (cases action)
  case (FaInitialize config)
  with assms show ?thesis by simp
next
  case (FaRequest sr data)
  then have "\<forall>async. data \<noteq> Some (Some (ReqDispose async))" using assms(2) by auto
  with FaRequest w show ?thesis by (simp add: leads_ffi_request)
next
  case (FaSdkEvent k event)
  with w show ?thesis by (auto simp: sdk_event_arrives_def Let_def intro!: leads_room)
next
  case (FaJob worker k err)
  with w show ?thesis
    by (auto simp: job_task_step_def Let_def room_flow_of_def intro!: leads_emit leads_call leads_room split: list.split)
next
  case (FaJobsEnd worker k)
  with w show ?thesis by (auto simp: job_task_close_def Let_def room_flow_of_def intro!: leads_room)
next
  case (FaInvoke k name input)
  with w show ?thesis
    by (auto simp: invoke_method_def forward_rpc_method_invocation_def case_prod_beta Let_def room_flow_of_def
        intro!: leads_emit leads_room leads_next_id split: option.split)
qed (simp_all add: w leads_drop leads_task_step leads_room_task leads_close_events)

lemma leads_run:
  "framed w \<Longrightarrow> list_all undisposed acts \<Longrightarrow> leads w (fold (ffi_step encode dflt) acts w)"
proof (induction acts rule: rev_induct)
  case (snoc action acts)
  then show ?case using leads_ffi_step by simp
qed (simp add: leads_refl)

text \<open>A run of a client that initializes the library once.\<close>

definition client_run ::
    "(ffi_response \<Rightarrow> byte list) \<Rightarrow> string \<times> string \<Rightarrow> ffi_config \<Rightarrow> ffi_action list \<Rightarrow> ffi_world" where
  "client_run encode dflt config acts = fold (ffi_step encode dflt) acts (ffi_setup config ffi_world_default)"

lemma framed_setup: "framed (ffi_setup config ffi_world_default)"
  by (simp add: framed_def is_setup_def ffi_setup_def ffi_world_default_def ffi_server_default_def ffi_server.defs)

lemma flow_setup: "flow_of (ffi_setup config ffi_world_default) = ([], [], 1)"
  by (simp add: flow_of_def ffi_setup_def ffi_world_default_def ffi_server_default_def ffi_server.defs)

lemma flow_invariant:
  assumes "flow_step\<^sup>*\<^sup>* s s'" and "I s" and "\<And>s s'. flow_step s s' \<Longrightarrow> I s \<Longrightarrow> I s'"
  shows "I s'"
  using assms(1,2) by (induction rule: rtranclp_induct) (auto intro: assms(3))

lemma client_run_keeps:
  assumes "list_all undisposed acts" and "I ([], [], 1)" and "\<And>s s'. flow_step s s' \<Longrightarrow> I s \<Longrightarrow> I s'"
  shows "I (flow_of (client_run encode dflt config acts))"
proof -
  have "leads (ffi_setup config ffi_world_default) (client_run encode dflt config acts)"
    using leads_run [OF framed_setup assms(1)] by (simp add: client_run_def)
  then have "flow_step\<^sup>*\<^sup>* (flow_of (ffi_setup config ffi_world_default)) (flow_of (client_run encode dflt config acts))"
    by (simp add: leads_def)
  from flow_invariant [of _ _ I, OF this _ assms(3)] assms(2) show ?thesis by (simp add: flow_setup)
qed

text \<open>A client that connects, publishes a track and unpublishes it again; the room then ends.\<close>

definition demo_view :: room_view where
  "demo_view = \<lparr>rv_identity = (\<lambda>_. []), rv_disconnect_reason = (\<lambda>_. UnknownReason), rv_attributes = (\<lambda>_. [])\<rparr>"

definition demo_actions :: "ffi_action list" where
  "demo_actions =
     (let ask = (\<lambda>r. FaRequest no_readings (Some (Some r))) in
     [ask (ReqConnect ''wss://host''), FaTask 0 (ResConnected (Inr (Some (RoomEvent (ReConnected []))))),
      ask (ReqMedia (ReqNewAudioSource True)), ask (ReqTrack (ReqCreateTrack Audio ''mic'' 5)), ask (ReqRoom (ReqPublishTrack 4 7)),
      FaSdkEvent 0 (RoomEvent (ReLocalTrackPublished ''TR_a'')), FaForward 0 demo_view,
      FaTask 2 (ResUnit (Inr ())), FaTask 2 (ResPublished (Inr ''TR_a'')), FaForward 0 demo_view,
      ask (ReqRoom (ReqUnpublishTrack 4 ''TR_a'')), FaTask 3 (ResUnit (Inr ())), FaTask 3 (ResUnit (Inr ())),
      FaSdkEvent 0 (RoomEvent (ReLocalTrackUnpublished ''TR_a'')), FaForward 0 demo_view, FaTask 3 (ResUnit (Inr ())),
      ask (ReqDisconnect 3), FaTask 4 (ResUnit (Inr ())), FaTask 4 (ResUnit (Inr ())), FaTask 4 (ResUnit (Inr ())),
      FaEventsEnd 0, FaTask 1 (ResSid ''RM_1'')])"

definition demo_run :: ffi_world where
  "demo_run = client_run (\<lambda>_. []) ([], [])
     \<lparr>cf_capture_logs = False, cf_sdk = [], cf_sdk_version = []\<rparr> demo_actions"

lemma demo_undisposed: "list_all undisposed demo_actions"
  by code_simp

lemma demo_events:
  "fs_events demo_run =
     [EvConnect 1 (Inr \<lparr>co_room = 3, co_local = 4, co_participants = []\<rparr>),
      EvPublishTrack 9 (Inr (11, ''TR_a'')), EvRoom 3 (MsgLocalTrackPublished ''TR_a''),
      EvRoom 3 (MsgLocalTrackUnpublished ''TR_a''), EvUnpublishTrack 13 None, EvRoom 3 MsgEos,
      EvRoom 3 (MsgRoomSidChanged ''RM_1'')]"
  by code_simp

section \<open>Properties\<close>

text \<open>
  C12. The interface implements the contract: whatever a client requests, other than to dispose of the library
  or to initialize it anew, and however the tasks of the library and of its rooms interleave, each further
  part of a run is, seen as events, published tracks and states of rooms, a run of the contract. A dispose
  is excluded: an event that a task sends while there is no configuration is dropped, and what should
  follow it comes without it when the library is initialized again.
\<close>

theorem ffi_follows_contract:
  assumes "list_all undisposed (acts @ rest)"
  shows "flow_step\<^sup>*\<^sup>* (flow_of (client_run encode dflt config acts))
    (flow_of (client_run encode dflt config (acts @ rest)))"
proof -
  have "leads (ffi_setup config ffi_world_default) (client_run encode dflt config acts)"
    using assms leads_run [OF framed_setup] by (simp add: client_run_def)
  then have "framed (client_run encode dflt config acts)" by (rule leads_framed)
  then have "leads (client_run encode dflt config acts) (client_run encode dflt config (acts @ rest))"
    using assms leads_run by (simp add: client_run_def)
  then show ?thesis by (simp add: leads_def)
qed

lemma ffi_follows_contract_witness:
  "flow_step\<^sup>*\<^sup>* ([], [], 1) (flow_of demo_run) \<and> length (fs_events demo_run) = 7"
  using ffi_follows_contract [of "[]" demo_actions] demo_undisposed demo_events
  by (auto simp: demo_run_def client_run_def flow_setup)

text \<open>
  C15. The client knows of a publication before it is told of the published track: in every run without a
  dispose and without a second initialization, as long as no reconnection was announced, each
  \<open>LocalTrackPublished\<close> of a track has its own successful callback of a publish request before it, also
  when the room's task sees the event first.
\<close>

theorem publish_callback_first:
  assumes "list_all undisposed acts"
    and "prefix es (fs_events (client_run encode dflt config acts))"
    and "\<forall>e \<in> set es. \<not> told_reconnecting e"
  shows "times_in (track_published sid) es \<le> times_in (publish_callback sid) es"
proof -
  have "published_kept sid (flow_of (client_run encode dflt config acts))"
    by (rule client_run_keeps [OF assms(1) _ published_step]) (simp add: follows_def published_credit_def)
  then show ?thesis
    using assms(2,3) by (auto simp: flow_of_def intro: follows_prefix)
qed

lemma publish_callback_first_witness:
  "times_in (track_published ''TR_a'') (fs_events demo_run) = 1
    \<and> 1 \<le> times_in (publish_callback ''TR_a'') (fs_events demo_run)"
proof -
  have "\<forall>e \<in> set (fs_events demo_run). \<not> told_reconnecting e" by (simp add: demo_events)
  then have "times_in (track_published ''TR_a'') (fs_events demo_run)
      \<le> times_in (publish_callback ''TR_a'') (fs_events demo_run)"
    unfolding demo_run_def by (rule publish_callback_first [OF demo_undisposed prefix_order.refl])
  moreover have "times_in (track_published ''TR_a'') (fs_events demo_run) = 1" by (simp add: demo_events times_in_def)
  ultimately show ?thesis by simp
qed

text \<open>
  C23. The callback of an unpublish request comes last: in every run without a dispose and without a second
  initialization, up to each moment the client was called back of at most as many unpublished tracks as it
  had been told were unpublished.
\<close>

theorem unpublish_callback_last:
  assumes "list_all undisposed acts"
    and "prefix es (fs_events (client_run encode dflt config acts))"
  shows "times_in unpublish_callback es \<le> times_in track_unpublished es"
proof -
  have "unpublished_kept (flow_of (client_run encode dflt config acts))"
    by (rule client_run_keeps [OF assms(1) _ unpublished_step]) (simp add: follows_def unpublished_credit_def)
  then show ?thesis
    using assms(2) by (auto simp: flow_of_def intro: follows_prefix)
qed

lemma unpublish_callback_last_witness:
  "times_in unpublish_callback (fs_events demo_run) = 1 \<and> 1 \<le> times_in track_unpublished (fs_events demo_run)"
proof -
  have "times_in unpublish_callback (fs_events demo_run) \<le> times_in track_unpublished (fs_events demo_run)"
    unfolding demo_run_def by (rule unpublish_callback_last [OF demo_undisposed prefix_order.refl])
  moreover have "times_in unpublish_callback (fs_events demo_run) = 1" by (simp add: demo_events times_in_def)
  ultimately show ?thesis by simp
qed

text \<open>
  C16. The stream of a room's events lies between its callback and its end: in every run without a dispose and
  without a second initialization, and before the counter wraps around, each event of a room was preceded
  by the callback of the connect request that names the room and not by the end of the room's stream. The
  sid of the room is not among them: a task of its own sends it, and it may follow the end
  (\<open>sid_after_end\<close>).
\<close>

theorem room_events_in_turn:
  assumes "list_all undisposed acts" and "w = client_run encode dflt config acts" and "fs_next_id w \<le> 2 ^ 64"
    and "fs_events w = before @ EvRoom h msg # after" and "\<forall>sid. msg \<noteq> MsgRoomSidChanged sid"
  shows "opened h before \<and> \<not> ended h before"
proof -
  have "snd (snd (flow_of w)) \<le> 2 ^ 64 \<longrightarrow> spans_kept (flow_of w)"
    unfolding assms(2)
    by (rule client_run_keeps [OF assms(1) _ spans_step']) (simp_all add: all_in_turn_def opened_def ended_def)
  with assms(3) have "all_in_turn (before @ EvRoom h msg # after)" by (simp add: flow_of_def assms(4))
  moreover have "prefix (before @ [EvRoom h msg]) (before @ EvRoom h msg # after)" by simp
  ultimately have "in_turn before (EvRoom h msg)" unfolding all_in_turn_def by blast
  with assms(5) show ?thesis by simp
qed

lemma demo_next_id: "fs_next_id demo_run \<le> 100"
  by code_simp

lemma room_events_in_turn_witness:
  "opened 3 (take 5 (fs_events demo_run)) \<and> \<not> ended 3 (take 5 (fs_events demo_run))
    \<and> fs_events demo_run ! 5 = EvRoom 3 MsgEos"
proof -
  have e: "fs_events demo_run = take 5 (fs_events demo_run) @ EvRoom 3 MsgEos # [EvRoom 3 (MsgRoomSidChanged ''RM_1'')]"
    by (simp add: demo_events)
  have n: "fs_next_id demo_run \<le> 2 ^ 64" using demo_next_id by simp
  have "opened 3 (take 5 (fs_events demo_run)) \<and> \<not> ended 3 (take 5 (fs_events demo_run))"
    by (rule room_events_in_turn [OF demo_undisposed demo_run_def n e]) simp
  then show ?thesis by (simp add: demo_events)
qed

text \<open>
  The flaw: the protocol says of the end that no event follows it, but the task that waits for the sid of a
  room is not stopped by the close, and tells it later.
\<close>

lemma sid_after_end:
  "\<exists>before. fs_events demo_run = before @ [EvRoom 3 (MsgRoomSidChanged ''RM_1'')] \<and> ended 3 before"
  by (rule exI [of _ "butlast (fs_events demo_run)"]) (simp add: demo_events ended_def)

end
