(* ===== verification/FfiAudio.thy ===== *)
theory FfiAudio
  imports FfiIds
begin

text \<open>
  What a client hears of an audio stream that asked for frames of a fixed length
  (\<open>native_audio_stream_task\<close> of \<open>livekit-ffi/src/server/audio_stream.rs\<close>): the samples of the track regrouped,
  none lost, none twice, and when the loop that cuts the frames ends.
\<close>

section \<open>The regrouping\<close>

text \<open>The samples in groups of \<open>t\<close>, without the last ones that do not fill a group.\<close>

definition groups :: "nat \<Rightarrow> 'a list \<Rightarrow> 'a list list" where
  "groups t xs = map (\<lambda>k. take t (drop (k * t) xs)) [0..<length xs div t]"

definition remainder :: "nat \<Rightarrow> 'a list \<Rightarrow> 'a list" where
  "remainder t xs = drop (length xs div t * t) xs"

lemma groups_short: "length xs < t \<Longrightarrow> groups t xs = [] \<and> remainder t xs = xs"
  by (simp add: groups_def remainder_def)

lemma groups_long:
  assumes "0 < t" and "t \<le> length xs"
  shows "groups t xs = take t xs # groups t (drop t xs)" and "remainder t xs = remainder t (drop t xs)"
proof -
  have len: "length xs div t = Suc (length (drop t xs) div t)"
    using assms by (simp add: le_div_geq)
  show "groups t xs = take t xs # groups t (drop t xs)"
    unfolding groups_def len by (simp add: upt_conv_Cons map_Suc_upt [symmetric] del: upt_Suc map_Suc_upt)
      (simp add: add.commute)
  show "remainder t xs = remainder t (drop t xs)"
    unfolding remainder_def len by (simp add: add.commute)
qed

lemma length_remainder: "0 < t \<Longrightarrow> length (remainder t xs) < t"
proof (induction xs rule: length_induct)
  case (1 xs)
  then show ?case
    by (cases "t \<le> length xs") (simp_all add: groups_long groups_short)
qed

lemma groups_append:
  assumes "0 < t"
  shows "groups t (xs @ ys) = groups t xs @ groups t (remainder t xs @ ys)"
    and "remainder t (xs @ ys) = remainder t (remainder t xs @ ys)"
proof -
  have "groups t (xs @ ys) = groups t xs @ groups t (remainder t xs @ ys)
      \<and> remainder t (xs @ ys) = remainder t (remainder t xs @ ys)"
  proof (induction xs rule: length_induct)
    case (1 xs)
    then show ?case
      using assms by (cases "t \<le> length xs") (simp_all add: groups_long groups_short)
  qed
  then show "groups t (xs @ ys) = groups t xs @ groups t (remainder t xs @ ys)"
    and "remainder t (xs @ ys) = remainder t (remainder t xs @ ys)" by simp_all
qed

section \<open>The task\<close>

text \<open>The data of the frames that were told for a stream.\<close>

fun heard :: "handle_id \<Rightarrow> ffi_event \<Rightarrow> i16 list list" where
  "heard s (EvAudioStream s' (FrameReceived _ frame)) = (if s' = s then [af_data frame] else [])"
| "heard s _ = []"

definition heard_frames :: "handle_id \<Rightarrow> ffi_world \<Rightarrow> i16 list list" where
  "heard_frames s w = concat (map (heard s) (fs_events w))"

text \<open>The task \<open>n\<close> has the reader \<open>rd\<close>, in a library that is set up.\<close>

definition reading :: "nat \<Rightarrow> audio_reader \<Rightarrow> ffi_world \<Rightarrow> bool" where
  "reading n rd w \<longleftrightarrow> n < length (fw_tasks w) \<and> ta_work (fw_tasks w ! n) = WkAudioStream rd \<and> is_setup w"

lemma reading_set_work: "reading n rd w \<Longrightarrow> reading n rd' (set_work n (WkAudioStream rd') w)"
  by (simp add: reading_def set_work_def is_setup_def)

lemma task_step_reading:
  "reading n rd w \<Longrightarrow> res \<noteq> ResPanicked \<Longrightarrow> task_step n res w = native_audio_stream_task n rd res w"
  by (simp add: reading_def task_step_def Let_def)

lemma deliver_setup:
  assumes "is_setup w"
  shows "tell_object event obj w = emit (event (counter w)) (store_handle (counter w) obj (snd (next_id w)))"
  using assms
  by (cases "fs_config w")
    (simp_all add: tell_object_def issue_def next_id_def store_handle_def send_event_def emit_def is_setup_def)

text \<open>One turn of the loop that cuts frames, and the turn that leaves it.\<close>

lemma cut_turn:
  assumes r: "reading n rd w" and "ar_draining rd" and "ar_target rd = Some t" and "t \<le> length (ar_buf rd)"
    and "ar_num_channels rd \<noteq> 0" and "res \<noteq> ResPanicked"
  shows "reading n (rd\<lparr>ar_buf := drop t (ar_buf rd)\<rparr>) (task_step n res w)"
    and "heard_frames (ar_stream rd) (task_step n res w) = heard_frames (ar_stream rd) w @ [take t (ar_buf rd)]"
proof -
  have s: "is_setup w" using r by (simp add: reading_def)
  have "task_step n res w = set_work n (WkAudioStream (rd\<lparr>ar_buf := drop t (ar_buf rd)\<rparr>))
      (tell_object (\<lambda>i. EvAudioStream (ar_stream rd) (FrameReceived i (fst (the (cut_frame t rd)))))
        (ObAudioFrame (fst (the (cut_frame t rd)))) w)"
    using assms by (simp add: task_step_reading [OF r] native_audio_stream_task_def cut_frame_def)
  then show "reading n (rd\<lparr>ar_buf := drop t (ar_buf rd)\<rparr>) (task_step n res w)"
      "heard_frames (ar_stream rd) (task_step n res w) = heard_frames (ar_stream rd) w @ [take t (ar_buf rd)]"
    using r assms(5)
    by (simp_all add: reading_def set_work_def deliver_setup [OF s] is_setup_def heard_frames_def cut_frame_def)
qed

lemma leave_turn:
  assumes "reading n rd w" and "ar_draining rd" and "ar_target rd = Some t" and "length (ar_buf rd) < t"
    and "res \<noteq> ResPanicked"
  shows "reading n (rd\<lparr>ar_draining := False\<rparr>) (task_step n res w)"
    and "heard_frames s (task_step n res w) = heard_frames s w"
  using assms reading_set_work [OF assms(1)]
  by (simp_all add: task_step_reading native_audio_stream_task_def heard_frames_def)

text \<open>The loop ends after one turn for each frame and one more.\<close>

lemma loop_ends:
  assumes "reading n rd w" and "ar_draining rd" and "ar_target rd = Some t" and "0 < t"
    and "ar_num_channels rd \<noteq> 0" and "ResPanicked \<notin> set ress" and "length ress = Suc (length (ar_buf rd) div t)"
  shows "reading n (rd\<lparr>ar_buf := remainder t (ar_buf rd), ar_draining := False\<rparr>) (fold (task_step n) ress w)
    \<and> heard_frames (ar_stream rd) (fold (task_step n) ress w)
        = heard_frames (ar_stream rd) w @ groups t (ar_buf rd)"
  using assms
proof (induction ress arbitrary: rd w)
  case (Cons res ress)
  have res: "res \<noteq> ResPanicked" using Cons.prems(6) by auto
  show ?case
  proof (cases "t \<le> length (ar_buf rd)")
    case True
    note turn = cut_turn [OF Cons.prems(1-3) True Cons.prems(5) res]
    have len: "length ress = Suc (length (drop t (ar_buf rd)) div t)"
      using Cons.prems(4,7) True by (simp add: le_div_geq)
    show ?thesis
      using Cons.IH [OF turn(1)] turn(2) Cons.prems True len by (simp add: groups_long)
  next
    case False
    then have "ress = []" using Cons.prems(7) by simp
    with False leave_turn [OF Cons.prems(1-3) _ res] show ?thesis
      by (simp add: groups_short)
  qed
qed simp

lemma loop_goes_on:
  assumes "reading n rd w" and "ar_draining rd" and "ar_target rd = Some 0"
    and "ar_num_channels rd \<noteq> 0" and "ResPanicked \<notin> set ress"
  shows "reading n rd (fold (task_step n) ress w)
    \<and> heard_frames (ar_stream rd) (fold (task_step n) ress w)
        = heard_frames (ar_stream rd) w @ replicate (length ress) []"
  using assms
proof (induction ress arbitrary: w)
  case (Cons res ress)
  have res: "res \<noteq> ResPanicked" using Cons.prems(5) by auto
  from cut_turn [OF Cons.prems(1-3) _ Cons.prems(4) res] Cons show ?case by simp
qed simp

text \<open>A frame that the waiting task takes.\<close>

lemma take_turn:
  assumes "reading n rd w" and "\<not> ar_draining rd" and "ar_target rd = Some t"
  shows "reading n (rd\<lparr>ar_buf := ar_buf rd @ af_data frame, ar_draining := True\<rparr>)
      (task_step n (ResAudioFrame (Some frame)) w)"
    and "heard_frames s (task_step n (ResAudioFrame (Some frame)) w) = heard_frames s w"
  using assms reading_set_work [OF assms(1)]
  by (simp_all add: task_step_reading native_audio_stream_task_def heard_frames_def stream_stops_def)

fun reader_of :: "ffi_work \<Rightarrow> audio_reader option" where
  "reader_of (WkAudioStream rd) = Some rd"
| "reader_of _ = None"

text \<open>The samples that a run of the task takes: those of the frames that come while it waits.\<close>

fun taken :: "nat \<Rightarrow> audio_frame list \<Rightarrow> ffi_world \<Rightarrow> i16 list" where
  "taken n [] w = []"
| "taken n (frame # frames) w =
     (case reader_of (ta_work (fw_tasks w ! n)) of
        Some rd \<Rightarrow> if ar_draining rd then [] else af_data frame
      | None \<Rightarrow> [])
     @ taken n frames (task_step n (ResAudioFrame (Some frame)) w)"

definition hear :: "nat \<Rightarrow> audio_frame list \<Rightarrow> ffi_world \<Rightarrow> ffi_world" where
  "hear n frames w = fold (\<lambda>frame. task_step n (ResAudioFrame (Some frame))) frames w"

lemma hear_groups:
  assumes "reading n rd w" and "ar_target rd = Some t" and "0 < t" and "ar_num_channels rd \<noteq> 0"
    and "ar_draining rd \<or> length (ar_buf rd) < t"
  shows "\<exists>rd' gs. reading n rd' (hear n frames w) \<and> (ar_draining rd' \<or> length (ar_buf rd') < t)
    \<and> heard_frames (ar_stream rd) (hear n frames w) = heard_frames (ar_stream rd) w @ gs
    \<and> groups t (ar_buf rd @ taken n frames w) = gs @ groups t (ar_buf rd')
    \<and> remainder t (ar_buf rd @ taken n frames w) = remainder t (ar_buf rd')"
  using assms
proof (induction frames arbitrary: rd w)
  case Nil
  then show ?case by (auto simp: hear_def)
next
  case (Cons frame frames)
  let ?w = "task_step n (ResAudioFrame (Some frame)) w"
  have rd: "reader_of (ta_work (fw_tasks w ! n)) = Some rd" using Cons.prems(1) by (simp add: reading_def)
  have hear: "hear n (frame # frames) w = hear n frames ?w" by (simp add: hear_def)
  show ?case
  proof (cases "ar_draining rd")
    case False
    note turn = take_turn [OF Cons.prems(1) False Cons.prems(2), where frame = frame]
    from Cons.IH [OF turn(1)] Cons.prems(2-4) False rd turn(2) show ?thesis
      unfolding hear by simp
  next
    case draining: True
    show ?thesis
    proof (cases "t \<le> length (ar_buf rd)")
      case True
      note turn = cut_turn [OF Cons.prems(1) draining Cons.prems(2) True Cons.prems(4), of "ResAudioFrame (Some frame)"]
      have "groups t (ar_buf rd @ taken n frames ?w) = take t (ar_buf rd) # groups t (drop t (ar_buf rd) @ taken n frames ?w)"
          "remainder t (ar_buf rd @ taken n frames ?w) = remainder t (drop t (ar_buf rd) @ taken n frames ?w)"
        using groups_long [OF Cons.prems(3), of "ar_buf rd @ taken n frames ?w"] True by simp_all
      with Cons.IH [OF turn(1)] Cons.prems(2-4) draining rd turn(2) show ?thesis
        unfolding hear by fastforce
    next
      case False
      note turn = leave_turn [OF Cons.prems(1) draining Cons.prems(2), of "ResAudioFrame (Some frame)"]
      from Cons.IH [OF turn(1)] Cons.prems(2-4) draining False rd turn(2) show ?thesis
        unfolding hear by simp
    qed
  qed
qed

section \<open>Properties\<close>

text \<open>
  C24. The loop that cuts frames ends if and only if the frames are not empty: with a positive target it is
  done after a fixed number of turns whatever happens around it, but a frame size that makes no whole
  sample, such as 0 ms, keeps it cutting empty frames for ever.
\<close>

theorem audio_loop_ends:
  assumes "reading n rd w" and "ar_draining rd" and "ar_target rd = Some t" and "ar_num_channels rd \<noteq> 0"
  shows "(\<exists>k. \<forall>ress. length ress = k \<longrightarrow> ResPanicked \<notin> set ress \<longrightarrow>
      (\<exists>rd'. reading n rd' (fold (task_step n) ress w) \<and> \<not> ar_draining rd')) \<longleftrightarrow> 0 < t"
    (is "?ends \<longleftrightarrow> _")
proof
  assume ?ends
  then obtain k where k: "\<forall>ress. length ress = k \<longrightarrow> ResPanicked \<notin> set ress \<longrightarrow>
      (\<exists>rd'. reading n rd' (fold (task_step n) ress w) \<and> \<not> ar_draining rd')" by blast
  from k [rule_format, of "replicate k (ResAudioFrame None)"] obtain rd'
    where "reading n rd' (fold (task_step n) (replicate k (ResAudioFrame None)) w)" "\<not> ar_draining rd'" by auto
  then show "0 < t"
    using loop_goes_on [OF assms(1,2) _ assms(4), of "replicate k (ResAudioFrame None)"] assms(2,3)
    by (cases t) (auto simp: reading_def)
next
  assume t: "0 < t"
  show ?ends
    by (intro exI [of _ "Suc (length (ar_buf rd) div t)"] allI impI exI)
      (use loop_ends [OF assms(1,2,3) t assms(4)] in auto)
qed

text \<open>
  C17. Regrouping does not depend on how the samples arrive: whenever the task of a stream waits again, the
  client has heard the frames that cutting all the samples taken so far at once gives, none lost and
  none twice, and the rest is in the buffer.
\<close>

theorem audio_frames_regrouped:
  assumes "reading n rd w" and "ar_target rd = Some t" and "0 < t" and "ar_num_channels rd \<noteq> 0"
    and "ar_draining rd \<or> length (ar_buf rd) < t"
    and "reading n rd' (hear n frames w)" and "\<not> ar_draining rd'"
  shows "heard_frames (ar_stream rd) (hear n frames w)
      = heard_frames (ar_stream rd) w @ groups t (ar_buf rd @ taken n frames w)
    \<and> ar_buf rd' = remainder t (ar_buf rd @ taken n frames w)"
proof -
  from hear_groups [OF assms(1-5), of frames] obtain rd2 gs where
    "reading n rd2 (hear n frames w)" "ar_draining rd2 \<or> length (ar_buf rd2) < t"
    "heard_frames (ar_stream rd) (hear n frames w) = heard_frames (ar_stream rd) w @ gs"
    "groups t (ar_buf rd @ taken n frames w) = gs @ groups t (ar_buf rd2)"
    "remainder t (ar_buf rd @ taken n frames w) = remainder t (ar_buf rd2)" by blast
  moreover from this(1) assms(6) have "rd2 = rd'" by (simp add: reading_def)
  ultimately show ?thesis using assms(7) groups_short [of "ar_buf rd'" t] by simp
qed

text \<open>A stream of two channels at 8 kHz that cuts frames of a given number of samples.\<close>

definition demo_reader :: "nat \<Rightarrow> i16 list \<Rightarrow> audio_reader" where
  "demo_reader target buf =
     \<lparr>ar_stream = 7, ar_owner = OwnedByHandles, ar_target = Some target,
      ar_sample_rate = 8000, ar_num_channels = 2, ar_buf = buf, ar_draining = (buf \<noteq> [])\<rparr>"

definition demo_stream :: "audio_reader \<Rightarrow> ffi_world" where
  "demo_stream rd =
     (ffi_setup \<lparr>cf_capture_logs = False, cf_sdk = [], cf_sdk_version = []\<rparr> ffi_world_default)
       \<lparr>fw_tasks := [\<lparr>ta_async = None, ta_work = WkAudioStream rd\<rparr>]\<rparr>"

lemma demo_reading: "reading 0 rd (demo_stream rd)"
  by (simp add: reading_def demo_stream_def is_setup_def ffi_setup_def)

lemma audio_loop_ends_witness:
  "\<not> (\<exists>k. \<forall>ress. length ress = k \<longrightarrow> ResPanicked \<notin> set ress \<longrightarrow>
      (\<exists>rd'. reading 0 rd' (fold (task_step 0) ress (demo_stream (demo_reader 0 [1, 2])))
        \<and> \<not> ar_draining rd'))"
  using audio_loop_ends [OF demo_reading, of "demo_reader 0 [1, 2]" 0]
  by (simp add: demo_reader_def)

definition demo_frames :: "audio_frame list" where
  "demo_frames = replicate 5
     \<lparr>af_data = [1, 2], af_sample_rate = 8000, af_num_channels = 2, af_samples_per_channel = 1\<rparr>"

lemma demo_taken: "taken 0 demo_frames (demo_stream (demo_reader 4 [])) = [1, 2, 1, 2]"
  by code_simp

lemma demo_waits:
  "reading 0 (demo_reader 4 []) (hear 0 demo_frames (demo_stream (demo_reader 4 [])))"
  by code_simp

lemma demo_fields:
  "ar_target (demo_reader 4 []) = Some 4" "ar_num_channels (demo_reader 4 []) = 2"
  "ar_buf (demo_reader 4 []) = []" "ar_stream (demo_reader 4 []) = 7" "ar_draining (demo_reader 4 []) = False"
  by (simp_all add: demo_reader_def)

lemma audio_frames_regrouped_witness:
  "heard_frames 7 (hear 0 demo_frames (demo_stream (demo_reader 4 []))) = [[1, 2, 1, 2]]"
proof -
  have "heard_frames 7 (demo_stream (demo_reader 4 [])) = []" by code_simp
  moreover have "groups 4 [1, 2, 1, 2] = [[1, 2, 1, 2 :: i16]]" by code_simp
  ultimately show ?thesis
    using audio_frames_regrouped [OF demo_reading demo_fields(1) _ _ _ demo_waits]
    by (simp add: demo_fields demo_taken)
qed

end
