(* ===== verification/FfiAnswers.thy ===== *)
theory FfiAnswers
  imports FfiIds
begin

text \<open>
  What a client gets for what it asked: the callbacks of the payloads it published in a room
  (\<open>data_task\<close>, \<open>transcription_task\<close>, \<open>sip_dtmf_task\<close> of \<open>livekit-ffi/src/server/room.rs\<close>), and the way of an
  RPC invocation to the client and of its answer back (\<open>participant.rs\<close>, \<open>requests.rs\<close>).
\<close>

section \<open>Payloads\<close>

text \<open>The request that asks for a payload to be published, and the task that does it.\<close>

fun worker_of :: "room_job \<Rightarrow> room_worker" where
  "worker_of (JobData _ _ _ _) = DataTask"
| "worker_of (JobTranscription _ _ _) = TranscriptionTask"
| "worker_of (JobDtmf _ _ _) = DtmfTask"

fun job_request :: "handle_id \<Rightarrow> room_job \<Rightarrow> room_request" where
  "job_request h (JobData data reliable topic destinations) = ReqPublishData h data reliable topic destinations"
| "job_request h (JobTranscription identity track_id segments) = ReqPublishTranscription h identity track_id segments"
| "job_request h (JobDtmf code digit destinations) = ReqPublishSipDtmf h code digit destinations"

text \<open>Requests of a client and turns of the task of a room, in any order; \<open>TurnDone\<close> has the outcome of the SDK.\<close>

datatype (plugins only: code size) payload_action = AskFor room_job | TurnDone "string option"

fun payload_step ::
    "(ffi_response \<Rightarrow> byte list) \<Rightarrow> string \<times> string \<Rightarrow> handle_id \<Rightarrow> nat \<Rightarrow> room_worker \<Rightarrow> payload_action \<Rightarrow>
     ffi_world \<Rightarrow> ffi_world" where
  "payload_step encode dflt h k worker (AskFor job) =
     ffi_step encode dflt (FaRequest no_readings (Some (Some (ReqRoom (job_request h job)))))"
| "payload_step encode dflt h k worker (TurnDone err) = ffi_step encode dflt (FaJob worker k err)"

fun asked :: "payload_action list \<Rightarrow> room_job list" where
  "asked [] = []"
| "asked (AskFor job # acts) = job # asked acts"
| "asked (TurnDone err # acts) = asked acts"

text \<open>The outcomes of the turns that find a payload, when \<open>n\<close> are waiting.\<close>

fun outcomes :: "nat \<Rightarrow> payload_action list \<Rightarrow> string option list" where
  "outcomes n [] = []"
| "outcomes n (AskFor job # acts) = outcomes (Suc n) acts"
| "outcomes n (TurnDone err # acts) = (case n of 0 \<Rightarrow> outcomes 0 acts | Suc n \<Rightarrow> err # outcomes n acts)"

text \<open>A room whose task runs, and the participant that the client publishes as.\<close>

definition publishing :: "handle_id \<Rightarrow> nat \<Rightarrow> room_worker \<Rightarrow> ffi_world \<Rightarrow> bool" where
  "publishing h k worker w \<longleftrightarrow> k < length (fw_rooms w) \<and> worker \<noteq> EventTask \<and> fr_running (fw_rooms w ! k) worker
     \<and> is_setup w \<and> (\<exists>r. retrieve_handle KParticipant h w = Inr (ObParticipant k r)) \<and> h < fs_next_id w"

lemma ask_effect:
  fixes encode :: "ffi_response \<Rightarrow> byte list" and dflt :: "string \<times> string" and worker :: room_worker
  assumes "publishing h k (worker_of job) w" and "fs_next_id w + 2 \<le> 2 ^ 64"
  defines "w' \<equiv> payload_step encode dflt h k worker (AskFor job) w"
  shows "publishing h k (worker_of job) w'" and "fs_events w' = fs_events w" and "fw_calls w' = fw_calls w"
    and "map snd (fw_responses w') = map snd (fw_responses w) @ [RspAsync (counter w)]"
    and "fr_jobs (fw_rooms w' ! k) (worker_of job) = fr_jobs (fw_rooms w ! k) (worker_of job) @ [(counter w, job)]"
    and "fs_next_id w' = fs_next_id w + 2"
proof -
  obtain what where push: "on_room_request (job_request h job) w = push_job (worker_of job) what job k w"
    using assms(1)
    by (cases job) (auto simp: publishing_def on_room_request_def on_publish_data_def on_publish_transcription_def
        on_publish_sip_dtmf_def retrieving_def)
  let ?r = "fw_rooms w ! k"
  define w1 where "w1 = set_room k (?r\<lparr>fr_jobs := (fr_jobs ?r)(worker_of job := fr_jobs ?r (worker_of job) @ [(counter w, job)])\<rparr>)
      (snd (next_id w))"
  have "handle_request dflt no_readings (Some (ReqRoom (job_request h job))) w = (Reply (Inr (RspAsync (counter w))), w1)"
    using assms(1) by (simp add: handle_request_def push push_job_def w1_def publishing_def case_prod_beta Let_def)
  then have w': "w' = (let (i, w2) = issue (ObDataBuffer (encode (RspAsync (counter w)))) w1
      in w2\<lparr>fw_responses := fw_responses w2 @ [(i, RspAsync (counter w))]\<rparr>)"
    by (simp add: w'_def livekit_ffi_request_def case_prod_beta)
  have w1: "fs_handles w1 = fs_handles w" "fs_next_id w1 = Suc (fs_next_id w)" "fs_config w1 = fs_config w"
      "fs_events w1 = fs_events w" "fw_calls w1 = fw_calls w" "fw_responses w1 = fw_responses w"
      "fw_rooms w1 = (fw_rooms w)[k := ?r\<lparr>fr_jobs :=
        (fr_jobs ?r)(worker_of job := fr_jobs ?r (worker_of job) @ [(counter w, job)])\<rparr>]"
    by (simp_all add: w1_def set_room_def next_id_def)
  have "counter w1 = Suc (fs_next_id w)" using assms(2) w1(2) by (simp add: counter_less)
  then have eq: "fs_handles w' = AList.update (Suc (fs_next_id w)) (ObDataBuffer (encode (RspAsync (counter w)))) (fs_handles w)"
      "fs_next_id w' = fs_next_id w + 2" "fs_config w' = fs_config w"
      "fs_events w' = fs_events w" "fw_calls w' = fw_calls w" "fw_rooms w' = fw_rooms w1"
      "map snd (fw_responses w') = map snd (fw_responses w) @ [RspAsync (counter w)]"
    by (simp_all add: w' issue_def next_id_def store_handle_def w1(1-6) Let_def)
  then show "fs_events w' = fs_events w" "fw_calls w' = fw_calls w" "fs_next_id w' = fs_next_id w + 2"
    "map snd (fw_responses w') = map snd (fw_responses w) @ [RspAsync (counter w)]" by simp_all
  show "fr_jobs (fw_rooms w' ! k) (worker_of job) = fr_jobs (fw_rooms w ! k) (worker_of job) @ [(counter w, job)]"
    using assms(1) by (simp add: eq(6) w1(7) publishing_def)
  show "publishing h k (worker_of job) w'"
    using assms(1) by (auto simp: publishing_def eq w1(7) is_setup_def retrieve_Inr update_conv')
qed

lemma turn_effect:
  fixes encode :: "ffi_response \<Rightarrow> byte list" and dflt :: "string \<times> string" and err :: "string option"
  assumes "publishing h k worker w"
  defines "w' \<equiv> payload_step encode dflt h k worker (TurnDone err) w"
  shows "publishing h k worker w'" and "fw_responses w' = fw_responses w" and "fs_next_id w' = fs_next_id w"
    and "fr_jobs (fw_rooms w ! k) worker = [] \<Longrightarrow> w' = w"
    and "fr_jobs (fw_rooms w ! k) worker = (i, job) # jobs \<Longrightarrow>
      fs_events w' = fs_events w @ [job_event worker i err] \<and> fw_calls w' = fw_calls w @ [job_call k job]
      \<and> fr_jobs (fw_rooms w' ! k) worker = jobs"
  using assms(1)
  by (auto simp: w'_def publishing_def job_task_step_def Let_def set_room_def call_sdk_def emit_def send_event_def
      is_setup_def retrieve_Inr split: list.split option.split)

lemma payload_run:
  fixes encode :: "ffi_response \<Rightarrow> byte list" and dflt :: "string \<times> string"
  assumes "publishing h k worker w" and "fs_next_id w + 2 * length acts \<le> 2 ^ 64"
    and "\<forall>job \<in> set (asked acts). worker_of job = worker"
  defines "w' \<equiv> fold (payload_step encode dflt h k worker) acts w" and "queue \<equiv> fr_jobs (fw_rooms w ! k) worker"
  shows "\<exists>ids. length ids = length (asked acts)
    \<and> map snd (fw_responses w') = map snd (fw_responses w) @ map RspAsync ids
    \<and> fs_events w' = fs_events w
        @ map2 (\<lambda>(i, job) err. job_event worker i err) (queue @ zip ids (asked acts)) (outcomes (length queue) acts)
    \<and> fw_calls w' = fw_calls w
        @ map (job_call k \<circ> snd) (take (length (outcomes (length queue) acts)) (queue @ zip ids (asked acts)))
    \<and> fr_jobs (fw_rooms w' ! k) worker = drop (length (outcomes (length queue) acts)) (queue @ zip ids (asked acts))"
  using assms(1-3) unfolding w'_def queue_def
proof (induction acts arbitrary: w)
  case Nil
  then show ?case by simp
next
  case (Cons act acts)
  let ?w = "payload_step encode dflt h k worker act w"
  show ?case
  proof (cases act)
    case (AskFor job)
    then have job: "worker_of job = worker" using Cons.prems(3) by simp
    have pre: "publishing h k (worker_of job) w" "fs_next_id w + 2 \<le> 2 ^ 64" using Cons.prems job by simp_all
    note ask = ask_effect [OF pre, where encode = encode and dflt = dflt and worker = worker, folded AskFor, unfolded job]
    have "fs_next_id ?w + 2 * length acts \<le> 2 ^ 64" using Cons.prems(2) ask(6) by simp
    from Cons.IH [OF ask(1) this] Cons.prems(3) AskFor obtain ids where ids: "length ids = length (asked acts)"
      "map snd (fw_responses (fold (payload_step encode dflt h k worker) acts ?w)) = map snd (fw_responses ?w) @ map RspAsync ids"
      "fs_events (fold (payload_step encode dflt h k worker) acts ?w) = fs_events ?w
        @ map2 (\<lambda>(i, job) err. job_event worker i err) (fr_jobs (fw_rooms ?w ! k) worker @ zip ids (asked acts))
            (outcomes (length (fr_jobs (fw_rooms ?w ! k) worker)) acts)"
      "fw_calls (fold (payload_step encode dflt h k worker) acts ?w) = fw_calls ?w
        @ map (job_call k \<circ> snd) (take (length (outcomes (length (fr_jobs (fw_rooms ?w ! k) worker)) acts))
            (fr_jobs (fw_rooms ?w ! k) worker @ zip ids (asked acts)))"
      "fr_jobs (fw_rooms (fold (payload_step encode dflt h k worker) acts ?w) ! k) worker
        = drop (length (outcomes (length (fr_jobs (fw_rooms ?w ! k) worker)) acts))
            (fr_jobs (fw_rooms ?w ! k) worker @ zip ids (asked acts))"
      by auto
    with ask(2-5) AskFor show ?thesis by (intro exI [of _ "counter w # ids"]) simp
  next
    case (TurnDone err)
    note turn = turn_effect [OF Cons.prems(1), where encode = encode and dflt = dflt and err = err, folded TurnDone]
    have "fs_next_id ?w + 2 * length acts \<le> 2 ^ 64" using Cons.prems(2) turn(3) by simp
    note IH = Cons.IH [OF turn(1) this]
    show ?thesis
    proof (cases "fr_jobs (fw_rooms w ! k) worker")
      case Nil
      with IH turn(4) Cons.prems(3) TurnDone show ?thesis by simp
    next
      case (Cons j jobs)
      obtain i job where j: "j = (i, job)" by fastforce
      from IH turn(2) turn(5) [OF Cons [unfolded j]] Cons j Cons.prems(3) TurnDone show ?thesis by simp
    qed
  qed
qed

section \<open>Invocations\<close>

definition respond ::
    "(ffi_response \<Rightarrow> byte list) \<Rightarrow> string \<times> string \<Rightarrow> handle_id \<Rightarrow> nat \<Rightarrow> string option \<Rightarrow> rpc_error option \<Rightarrow>
     ffi_world \<Rightarrow> ffi_world" where
  "respond encode dflt p i payload error =
     ffi_step encode dflt (FaRequest no_readings (Some (Some (ReqParticipant (ReqRpcResponse p i payload error)))))"

lemma respond_effect:
  assumes "retrieve_handle KParticipant p w = Inr (ObParticipant k r)" and k: "k < length (fw_rooms w)"
  shows "fr_rpc_waiters (fw_rooms w ! k) i = Some () \<Longrightarrow>
      fw_rpc_answers (respond encode dflt p i payload error w) = fw_rpc_answers w
        @ [(i, case error of Some err \<Rightarrow> Inl err | None \<Rightarrow> Inr (unwrap_or [] payload))]
      \<and> fr_rpc_waiters (fw_rooms (respond encode dflt p i payload error w) ! k) i = None"
    and "fr_rpc_waiters (fw_rooms w ! k) i = None \<Longrightarrow>
      fw_rpc_answers (respond encode dflt p i payload error w) = fw_rpc_answers w
      \<and> map snd (fw_responses (respond encode dflt p i payload error w))
          = map snd (fw_responses w) @ [RspError (Some ''No caller found'')]"
  using assms
  by (auto simp: respond_def livekit_ffi_request_def handle_request_def on_participant_request_def on_rpc_method_invocation_response_def
      retrieving_def Let_def issue_def next_id_def store_handle_def set_room_def invocation_result_def
      split: option.split)

lemma respond_keeps:
  assumes "retrieve_handle KParticipant p w = Inr (ObParticipant k r)" and k: "k < length (fw_rooms w)"
    and "fr_rpc_waiters (fw_rooms w ! k) i = Some ()" and "p \<noteq> counter w"
  shows "retrieve_handle KParticipant p (respond encode dflt p i payload error w) = Inr (ObParticipant k r)"
    and "k < length (fw_rooms (respond encode dflt p i payload error w))"
  using assms
  by (auto simp: respond_def livekit_ffi_request_def handle_request_def on_participant_request_def on_rpc_method_invocation_response_def
      retrieving_def Let_def issue_def next_id_def store_handle_def set_room_def retrieve_handle_def update_conv' counter_def
      split: option.splits if_splits)

lemma invoke_effect:
  fixes encode :: "ffi_response \<Rightarrow> byte list" and dflt :: "string \<times> string" and data :: rpc_invocation
  assumes k: "k < length (fw_rooms w)" and "fr_rpc_methods (fw_rooms w ! k) method = Some h" and "is_setup w"
  defines "w1 \<equiv> ffi_step encode dflt (FaInvoke k method data) w"
  shows "fs_events w1 = fs_events w @ [EvRpcMethodInvocation h (counter w) method data]"
    and "fr_rpc_waiters (fw_rooms w1 ! k) (counter w) = Some ()" and "k < length (fw_rooms w1)"
    and "fs_handles w1 = fs_handles w" and "counter w1 = counter (snd (next_id w))" and "fw_rpc_answers w1 = fw_rpc_answers w"
  using assms(1-3)
  by (auto simp: w1_def invoke_method_def forward_rpc_method_invocation_def next_id_def Let_def set_room_def
      is_setup_def emit_def send_event_def counter_def)

text \<open>A client that has connected, registered a method and asked for two payloads to be published.\<close>

definition demo_ffi :: ffi_world where
  "demo_ffi =
     (let ask = (\<lambda>r. FaRequest no_readings (Some (Some r))) in
      fold (ffi_step (\<lambda>_. []) ([], []))
        [ask (ReqConnect ''wss://host''), FaTask 0 (ResConnected (Inr (Some (RoomEvent (ReConnected []))))),
         ask (ReqParticipant (ReqRegisterRpcMethod 4 ''greet'')), ask (ReqRoom (ReqPublishData 4 [1] True None [])),
         ask (ReqRoom (ReqPublishData 4 [2] False None []))]
        (ffi_setup \<lparr>cf_capture_logs = False, cf_sdk = [], cf_sdk_version = []\<rparr> ffi_world_default))"

definition demo_invocation :: rpc_invocation where
  "demo_invocation =
     \<lparr>ri_request_id = ''1'', ri_caller_identity = ''bob'', ri_payload = ''hi'', ri_response_timeout = 1000\<rparr>"

lemma demo_ffi_state:
  "length (fw_rooms demo_ffi) = 1" "fr_running (fw_rooms demo_ffi ! 0) DataTask" "is_setup demo_ffi"
  "fr_jobs (fw_rooms demo_ffi ! 0) DataTask = [(6, JobData [1] True None []), (8, JobData [2] False None [])]"
  "fr_rpc_methods (fw_rooms demo_ffi ! 0) ''greet'' = Some 4" "fs_next_id demo_ffi = 10" "counter demo_ffi = 10"
  "counter (snd (next_id demo_ffi)) = 11" "retrieve_handle KParticipant 4 demo_ffi = Inr (ObParticipant 0 LocalRef)"
proof -
  have "(length (fw_rooms demo_ffi), fr_running (fw_rooms demo_ffi ! 0) DataTask, is_setup demo_ffi,
      fr_jobs (fw_rooms demo_ffi ! 0) DataTask, fr_rpc_methods (fw_rooms demo_ffi ! 0) ''greet'', fs_next_id demo_ffi,
      retrieve_handle KParticipant 4 demo_ffi)
    = (1, True, True, [(6, JobData [1] True None []), (8, JobData [2] False None [])], Some 4, 10,
        Inr (ObParticipant 0 LocalRef))"
    by code_simp
  then show "counter demo_ffi = 10" "counter (snd (next_id demo_ffi)) = 11" by (simp_all add: counter_less)
  from \<open>(length (fw_rooms demo_ffi), _) = _\<close> show "length (fw_rooms demo_ffi) = 1" "fr_running (fw_rooms demo_ffi ! 0) DataTask" "is_setup demo_ffi"
    "fr_jobs (fw_rooms demo_ffi ! 0) DataTask = [(6, JobData [1] True None []), (8, JobData [2] False None [])]"
    "fr_rpc_methods (fw_rooms demo_ffi ! 0) ''greet'' = Some 4" "fs_next_id demo_ffi = 10"
    "retrieve_handle KParticipant 4 demo_ffi = Inr (ObParticipant 0 LocalRef)"
    by simp_all
qed

section \<open>Properties\<close>

text \<open>
  C22. Payloads are published and answered in the order of the requests: while the task of a room for data,
  transcriptions or tones runs, whatever requests for it and turns of it come in whatever order, the request
  for a payload is replied to with an identifier; the payloads are handed to the SDK once each in the order of
  the requests, the outcome of each is told under its own identifier, and those that had no turn yet wait in
  the channel.
\<close>

theorem payloads_answered_in_order:
  assumes "publishing h k worker w" and "fs_next_id w + 2 * length acts \<le> 2 ^ 64"
    and "\<forall>job \<in> set (asked acts). worker_of job = worker"
    and "w' = fold (payload_step encode dflt h k worker) acts w" and "queue = fr_jobs (fw_rooms w ! k) worker"
    and "outs = outcomes (length queue) acts"
  shows "\<exists>ids. length ids = length (asked acts)
    \<and> map snd (fw_responses w') = map snd (fw_responses w) @ map RspAsync ids
    \<and> fs_events w' = fs_events w
        @ map2 (\<lambda>(i, job) err. job_event worker i err) (queue @ zip ids (asked acts)) outs
    \<and> fw_calls w' = fw_calls w @ map (job_call k \<circ> snd) (take (length outs) (queue @ zip ids (asked acts)))
    \<and> fr_jobs (fw_rooms w' ! k) worker = drop (length outs) (queue @ zip ids (asked acts))"
  using payload_run [OF assms(1-3)] unfolding assms(4-6) .

text \<open>The task publishes the first of the two payloads, then a third is asked for, and it publishes another.\<close>

lemma payloads_answered_in_order_witness:
  "\<exists>i. fs_events (fold (payload_step (\<lambda>_. []) ([], []) 4 0 DataTask)
       [TurnDone None, AskFor (JobData [3] True None []), TurnDone (Some ''full'')] demo_ffi)
     = fs_events demo_ffi @ [EvPublishData 6 None, EvPublishData 8 (Some ''full'')]
   \<and> fr_jobs (fw_rooms (fold (payload_step (\<lambda>_. []) ([], []) 4 0 DataTask)
       [TurnDone None, AskFor (JobData [3] True None []), TurnDone (Some ''full'')] demo_ffi) ! 0) DataTask
     = [(i, JobData [3] True None [])]"
proof -
  let ?acts = "[TurnDone None, AskFor (JobData [3] True None []), TurnDone (Some ''full'')]"
  have "publishing 4 0 DataTask demo_ffi" "fs_next_id demo_ffi + 2 * length ?acts \<le> 2 ^ 64"
      "\<forall>job \<in> set (asked ?acts). worker_of job = DataTask"
    by (simp_all add: publishing_def demo_ffi_state)
  from payloads_answered_in_order [OF this refl refl refl, of "\<lambda>_. []" "([], [])"]
  show ?thesis by (auto simp: demo_ffi_state length_Suc_conv)
qed

text \<open>
  C21. An RPC invocation gets the client's answer: the client is told of it under a new identifier, the first
  answer under this identifier is what the caller gets, unchanged, an error before a payload, and a
  second answer changes nothing and is refused.
\<close>

theorem rpc_invocation_answered:
  assumes k: "k < length (fw_rooms w)" and "fr_rpc_methods (fw_rooms w ! k) method = Some h" and "is_setup w"
    and p: "retrieve_handle KParticipant p w = Inr (ObParticipant k r)" "p \<noteq> counter (snd (next_id w))"
  shows "let i = counter w; w1 = ffi_step encode dflt (FaInvoke k method data) w;
        w2 = respond encode dflt p i payload error w1; w3 = respond encode dflt p i payload' error' w2
      in fs_events w1 = fs_events w @ [EvRpcMethodInvocation h i method data]
        \<and> fw_rpc_answers w2 = fw_rpc_answers w
            @ [(i, case error of Some err \<Rightarrow> Inl err | None \<Rightarrow> Inr (unwrap_or [] payload))]
        \<and> fw_rpc_answers w3 = fw_rpc_answers w2
        \<and> map snd (fw_responses w3) = map snd (fw_responses w2) @ [RspError (Some ''No caller found'')]"
proof -
  let ?i = "counter w"
  define w1 where "w1 = ffi_step encode dflt (FaInvoke k method data) w"
  define w2 where "w2 = respond encode dflt p ?i payload error w1"
  note invoked = invoke_effect [OF assms(1-3), of encode dflt data, folded w1_def]
  have p1: "retrieve_handle KParticipant p w1 = Inr (ObParticipant k r)"
    using p(1) invoked(4) by (simp add: retrieve_Inr)
  note answered = respond_effect(1) [OF p1 invoked(3,2), of encode dflt payload error, folded w2_def]
  have p2: "retrieve_handle KParticipant p w2 = Inr (ObParticipant k r)" "k < length (fw_rooms w2)"
    using respond_keeps [OF p1 invoked(3,2)] invoked(5) p(2) by (simp_all add: w2_def)
  note refused = respond_effect(2) [OF p2 conjunct2 [OF answered], of encode dflt payload' error']
  show ?thesis
    unfolding Let_def w1_def [symmetric] w2_def [symmetric] using invoked(1,6) answered refused by simp
qed

lemma rpc_invocation_answered_witness:
  "let w1 = ffi_step (\<lambda>_. []) ([], []) (FaInvoke 0 ''greet'' demo_invocation) demo_ffi
   in fs_events w1 = fs_events demo_ffi @ [EvRpcMethodInvocation 4 10 ''greet'' demo_invocation]
     \<and> fw_rpc_answers (respond (\<lambda>_. []) ([], []) 4 10 (Some ''hello'') None w1)
         = fw_rpc_answers demo_ffi @ [(10, Inr ''hello'')]"
  using rpc_invocation_answered [of 0 demo_ffi "''greet''" 4 4 LocalRef "\<lambda>_. []" "([], [])" demo_invocation
      "Some ''hello''" None None None]
  by (simp add: demo_ffi_state Let_def unwrap_or_def)

end
