(* ===== verification/Spec2Isabelle.thy ===== *)
theory Spec2Isabelle
  imports Utf8Chunk TxQueue TtlMap RoomUtils Proto DataStream IncomingStream OutgoingStream
    StreamRoundtrip Rpc DataChannel PeerTransport Negotiation Signal Engine Session SignalClient Publication
    Participant Room Roster Speakers FrameCryptors PublishOptions ProtocolHelpers LocalRequests LocalPackets FfiFlow FfiAudio FfiAnswers
begin

text \<open>
  A verification of the LiveKit client SDK for Rust (\<open>livekit/src\<close> of this repository), of the signalling
  client below it (\<open>livekit-api/src/signal_client\<close>) and of the foreign function interface above it
  (\<open>livekit-ffi/src\<close>), with the pixel conversions it uses (\<open>imgproc/src/colorcvt\<close>).

  \<^bold>\<open>The program.\<close> The SDK joins a room of a LiveKit server. Three layers stand on each other, each a
  task that handles events one after the other:
    \<^item> a session (\<open>rtc_engine/rtc_session.rs\<close>) holds one signalling connection and two WebRTC peer
      connections, answers the messages of the server, and sends and receives packets over data
      channels; it emits session events;
    \<^item> the engine (\<open>rtc_engine/mod.rs\<close>) holds the current session, replaces it when the connection
      is lost, and passes its events on as engine events;
    \<^item> the room (\<open>room/mod.rs\<close>) holds the participants with their publications and tracks, turns
      engine events into room events for the application, and carries the services on top: RPC,
      byte and text streams.
  Below a session the signal client keeps the web socket and queues what cannot be sent. Above the room a
  server (\<open>livekit-ffi/src/server\<close>) lets a client in another language use it: requests name objects by
  handles, are answered at once or by a callback, and what happens is told as events.
  The web socket, WebRTC itself, libyuv, the \<open>prost\<close> codecs and the clock are outside.

  \<^bold>\<open>The theories.\<close>
    \<^item> \<open>LkPrelude\<close>: machine words, hash maps as association lists with distinct keys, the interfaces
      \<open>keyed_table\<close> (a table of pending things), \<open>kept_by\<close> (steps that keep an invariant) and
      \<open>related_by\<close> (steps that stay in a relation between before and after).
    \<^item> \<open>Utf8\<close>, \<open>Utf8Chunk\<close>, \<open>TxQueue\<close>, \<open>TtlMap\<close>, \<open>RoomUtils\<close>: the helpers of \<open>room/utils\<close> and
      \<open>room/id.rs\<close>: chunks of text at character boundaries, the retry queue, the map with expiring
      entries, changed attributes, the take cell under interleaving, prefixed identifiers.
    \<^item> \<open>Proto\<close>, \<open>Signal\<close>: the messages of \<open>livekit-protocol\<close> the layers exchange and the conversions
      of \<open>proto.rs\<close>; session and engine events.
    \<^item> \<open>DataStream\<close>, \<open>OutgoingStream\<close>, \<open>IncomingStream\<close>, \<open>StreamRoundtrip\<close>: \<open>room/data_stream\<close>.
      A writer is the record \<open>raw_stream\<close> whose packets are appended to what the channel accepts; the
      manager of the receiver is \<open>incoming_manager\<close> with its table of open streams. The round trip
      runs one against the other among packets of any other streams.
    \<^item> \<open>Rpc\<close>: \<open>participant/rpc.rs\<close> and the RPC part of \<open>local_participant.rs\<close>; a call is a process that
      acknowledgements, responses and timers advance in any order.
    \<^item> \<open>DataChannel\<close>: \<open>data_channel_task\<close>, its queues, numbering, retries, and the receive state.
    \<^item> \<open>PeerTransport\<close>, \<open>Negotiation\<close>: \<open>peer_transport.rs\<close> over abstract peer connection operations,
      with its mutex explicit (waiting for a mutex one holds is the outcome \<open>Blocked\<close>); the queue of
      negotiations as a step relation over its atomic accesses, with all tasks ever spawned in a list.
    \<^item> \<open>SignalClient\<close>: the signal client; a call of \<open>send\<close> and a restart are processes that a scheduler
      advances from lock to lock.
    \<^item> \<open>Session\<close>: the rest of \<open>rtc_session.rs\<close>; \<open>session_step\<close> is one handler or operation.
    \<^item> \<open>Engine\<close>: \<open>rtc_engine/mod.rs\<close>. What other tasks do at each await is a list in the state, and so
      are the results of the fallible operations: the theorems hold for all of them. Spawned tasks wait
      in a list until \<open>engine_turn\<close> runs one.
    \<^item> \<open>Publication\<close>, \<open>Participant\<close>: \<open>room/track/mod.rs\<close>, \<open>room/publication\<close>, \<open>room/participant\<close>. An
      operation that may panic returns \<open>Ran\<close> or \<open>Panicked\<close>, both with the state it leaves.
    \<^item> \<open>Room\<close>: \<open>RoomSession\<close>, a definition per handler, \<open>on_engine_event\<close> and \<open>room_step\<close> as the whole;
      \<open>Roster\<close> and \<open>Speakers\<close>: its table of participants and its active speakers.
    \<^item> \<open>FrameCryptors\<close>: the manager of end-to-end encryption (\<open>room/e2ee\<close>). Cryptors are objects in a
      list, its table holds their indices; \<open>track_cryptor\<close> is the specification for a single track.
    \<^item> \<open>Floats\<close>, \<open>PublishOptions\<close>: IEEE rounding of rationals to a precision, and \<open>room/options.rs\<close> on it:
      presets, encodings, simulcast layers, the request to publish a track.
    \<^item> \<open>ProtocolHelpers\<close>: promises with cancelled calls, dispatchers, debouncers of \<open>livekit-protocol\<close>.
    \<^item> \<open>LocalRequests\<close>, \<open>LocalPackets\<close>: the local participant's requests for new metadata, attributes or
      a new name, among everything else a session does, and its chat messages, data, transcriptions and
      tones on their way to the application of another room.
    \<^item> \<open>FfiServer\<close>, \<open>FfiWorld\<close>, \<open>FfiStreams\<close>, \<open>FfiRoom\<close>, \<open>FfiMedia\<close>, \<open>FfiRequests\<close>: the server of the foreign
      function interface, bottom up: the table of handles, the rooms and spawned tasks, media streams,
      the tasks of a room, the requests; \<open>ffi_step\<close> is the whole, one request, turn of a task, event of
      the SDK or close at a time.
    \<^item> \<open>FfiIds\<close>, \<open>FfiFlow\<close>, \<open>FfiAudio\<close>, \<open>FfiAnswers\<close>: what holds of it: identifiers, the order of events as a
      refinement of the contract \<open>flow_step\<close>, audio frames, callbacks.
    \<^item> \<open>ColorCvt\<close>, \<open>FfiVideo\<close>, \<open>FfiConvert\<close>, \<open>FfiFrame\<close>: the wrappers of libyuv with their assertions, the
      server's conversions between eleven formats, what they give, and frames from and to WebRTC.
    \<^item> this theory: what holds of session, engine and room together.

  \<^bold>\<open>What is shown.\<close> Streams: what is sent is what is read, for bytes and text, among other streams; the
  receiver's table is well formed and streams do not disturb each other. RPC: a call gets its own
  answer, and the round trip. Data channel: packets leave numbered and in order, each publisher is
  answered once, a retry resends what is newer. Negotiation: one task at a time. Session: a
  publication gets its own answer. Participants: a description is applied as a whole, subscription
  events replay to the state. Room: the events replay to the participants, updates refine a fold
  over the set of identities, a restart ends with the participants of the new session, a resume is
  invisible. Encryption: the cryptor of a track is what its own calls make of it and sits on the track's
  own receiver. Publishing: the presets follow the exact aspect ratio, the layers fit the video. Signal
  client: every message is sent, queued or given up, once. Foreign function interface: identifiers are
  used once, handles keep their types, events come in the order its comments promise, callbacks answer
  each request once, audio frames are regrouped without loss, a conversion stays inside its buffers and
  describes its result. Some theorems and lemmas state behaviour that is hardly meant: deadlocks of a
  deferred renegotiation, a negotiation that is abandoned, a recovery that fails silently or leaves
  ghosts, encryption that cannot be enabled again, conversions that always panic, data of the server that
  is dropped, messages lost while a connection is replaced, an event of a room after its end. They are
  listed as findings of the manifest, and the properties exclude them by name.

  \<^bold>\<open>Bounds.\<close> No definition runs on fuel. Loops are structural recursions or have a measure; the
  recovery loop has the code's ten attempts, and runs of a component are folds over arbitrary lists
  of actions. The presets are compared for sizes up to 8192, where a rounding cannot cross the nearest
  ratio of whole numbers. \<open>u32\<close> and \<open>u64\<close> are words, with the wrap-around of a release build. The counters
  of identifiers wrap with them: that identifiers differ is shown for runs that draw fewer than their range.

  \<^bold>\<open>Not modelled.\<close> The HTTP clients and the access tokens of \<open>livekit-api\<close> (requests and JSON around
  external crates), the bindings \<open>libwebrtc\<close>, \<open>webrtc-sys\<close>, \<open>yuv-sys\<close>, \<open>soxr-sys\<close> but for the few
  functions named above, the resamplers and audio processing behind the FFI server (readings of its
  environment), the conversion of a libwebrtc buffer to ARGB, statistics, writing a stream to a file, the
  runtime adapters, and of the sync state all but the choice of tracks. Logging is left out everywhere.
\<close>

section \<open>Data from the session to the room\<close>

text \<open>The participant the room takes as the sender of a user packet.\<close>

definition packet_sid :: "data_packet \<Rightarrow> user_packet \<Rightarrow> participant_sid option" where
  "packet_sid packet user =
     (case ok (participant_sid_try_from (dp_participant_sid packet)) of
        Some sid \<Rightarrow> Some sid
      | None \<Rightarrow> ok (participant_sid_try_from (up_participant_sid user)))"

definition data_sender :: "data_packet \<Rightarrow> user_packet \<Rightarrow> room \<Rightarrow> remote_participant option" where
  "data_sender packet user r =
     (case get_participant_by_identity (dp_participant_identity packet) r of
        Some p \<Rightarrow> Some p
      | None \<Rightarrow> (case packet_sid packet user of
          None \<Rightarrow> None | Some sid \<Rightarrow> get_participant_by_sid sid r))"

lemma user_data_path:
  assumes "se_decode env data = Inr packet" and "dp_value packet = Some (User user)"
  shows "\<exists>ev eev. ss_events (snd (on_rtc_event env now (RtcData data True kind) s)) = ss_events s @ [ev]
    \<and> eg_out (on_session_event ev e) = eg_out e @ [eev]
    \<and> rm_outputs (room_turn renv eev r) = rm_outputs r @
        (case data_sender packet user r of
           None \<Rightarrow> []
         | Some p \<Rightarrow> [Dispatch (ReDataReceived (up_payload user) (up_topic user) kind (Some (rpt_obj p)))])"
proof -
  let ?sid = "packet_sid packet user" and ?identity = "Some (dp_participant_identity packet)"
  let ?ev = "SeData ?sid ?identity (up_payload user) (up_topic user) kind"
  let ?eev = "EeData ?sid ?identity (up_payload user) (up_topic user) kind"
  have "incoming_packet_event kind (packet\<lparr>dp_value := None\<rparr>) (User user) = Some ?ev"
    by (simp add: incoming_packet_event_def identity_try_from_def packet_sid_def Let_def
        split: option.split)
  from incoming_data_event [OF assms this] have
    "ss_events (snd (on_rtc_event env now (RtcData data True kind) s)) = ss_events s @ [?ev]" by simp
  moreover have "eg_out (on_session_event ?ev e) = eg_out e @ [?eev]"
    by (simp add: on_session_event_def engine_send_def)
  moreover have "rm_outputs (room_turn renv ?eev r) = rm_outputs r @
      (case data_sender packet user r of
         None \<Rightarrow> []
       | Some p \<Rightarrow> [Dispatch (ReDataReceived (up_payload user) (up_topic user) kind (Some (rpt_obj p)))])"
    by (auto simp: room_turn_def on_engine_event_def handle_data_def data_sender_def dispatch_def
        Let_def split: option.splits)
  ultimately show ?thesis by blast
qed

text \<open>
  C10. The user packet of a participant goes through the session, the engine and the room: when the packet
  names its sender in its own identity field, the application receives the payload, with the topic and the
  kind of the channel and in the name of the sender, exactly once if the room knows the sender, by this
  identity or else by a valid sid, and never otherwise. Packets without an identity are not covered: see
  \<open>nameless_data_dropped\<close>.
\<close>

theorem user_data_routed:
  assumes "se_decode env data = Inr packet" and "dp_value packet = Some (User user)"
    and "dp_participant_identity packet \<noteq> []"
  shows "\<exists>ev eev. ss_events (snd (on_rtc_event env now (RtcData data True kind) s)) = ss_events s @ [ev]
    \<and> eg_out (on_session_event ev e) = eg_out e @ [eev]
    \<and> rm_outputs (room_turn renv eev r) = rm_outputs r @
        (case data_sender packet user r of
           None \<Rightarrow> []
         | Some p \<Rightarrow> [Dispatch (ReDataReceived (up_payload user) (up_topic user) kind (Some (rpt_obj p)))])"
  by (rule user_data_path [OF assms(1,2)])

definition example_user :: user_packet where
  "example_user = \<lparr>up_participant_sid = [], up_participant_identity = [], up_payload = [1, 2],
     up_destination_sids = [], up_destination_identities = [], up_topic = None, up_id = None,
     up_start_time = None, up_end_time = None, up_nonce = []\<rparr>"

definition example_packet :: "string \<Rightarrow> data_packet" where
  "example_packet identity =
     default_packet\<lparr>dp_participant_identity := identity, dp_value := Some (User example_user)\<rparr>"

theorem user_data_routed_witness:
  "\<exists>r ev eev. room_connect example_welcome True = Some r
     \<and> ss_events (snd (on_rtc_event (example_session_env (example_packet ''bob'')) 0 (RtcData [] True Reliable)
          (example_session Stable))) = ss_events (example_session Stable) @ [ev]
     \<and> eg_out (on_session_event ev (engine_start [] [])) = [eev]
     \<and> rm_outputs (room_turn example_env eev r)
         = rm_outputs r @ [Dispatch (ReDataReceived [1, 2] None Reliable (Some 0))]"
proof -
  let ?packet = "example_packet ''bob''"
  have "map_option (\<lambda>r. map_option rpt_obj (data_sender ?packet example_user r)) (room_connect example_welcome True)
      = Some (Some 0)"
    by code_simp
  then obtain r p where r: "room_connect example_welcome True = Some r"
    "data_sender ?packet example_user r = Some p" "rpt_obj p = 0" by auto
  have "se_decode (example_session_env ?packet) [] = Inr ?packet"
    "dp_value ?packet = Some (User example_user)" "dp_participant_identity ?packet \<noteq> []"
    by (simp_all add: example_session_env_def example_packet_def)
  from user_data_routed [OF this, of 0 Reliable "example_session Stable" "engine_start [] []" example_env r] r
  show ?thesis by (simp add: engine_start_def example_user_def)
qed

text \<open>
  The flaw: the conversion of the packet's identity cannot fail, so the one in the user packet, which the code
  means to fall back to, is never used, and data of a server SDK, which has no sender and which the comment and
  the protocol mean to be delivered without one, is taken for that of a participant with the empty identity
  and dropped.
\<close>

lemma nameless_data_dropped:
  assumes "se_decode env data = Inr packet" and "dp_value packet = Some (User user)"
    and "dp_participant_identity packet = []" and "get_participant_by_identity [] r = None"
    and "packet_sid packet user = None"
  shows "\<exists>ev eev. ss_events (snd (on_rtc_event env now (RtcData data True kind) s)) = ss_events s @ [ev]
    \<and> eg_out (on_session_event ev e) = eg_out e @ [eev] \<and> rm_outputs (room_turn renv eev r) = rm_outputs r"
proof -
  have "data_sender packet user r = None" using assms(3-5) by (simp add: data_sender_def)
  with user_data_path [OF assms(1,2), of now kind s e renv r] show ?thesis by simp
qed

section \<open>Recovery seen from the room\<close>

text \<open>
  A recovery that falls back from a resume to a new session leaves ghosts: whoever left while the
  connection was down, and so is not in the new join response, is still a participant of the room
  when the room has handled everything the engine told it; a recovery that starts as a full
  reconnect removes him first.
\<close>

theorem fallback_keeps_ghosts:
  assumes "room_connect jr0 auto_subscribe = Some r" and "list_all (names_ok iof) (jr_other_participants jr0)"
    and "list_all (names_ok iof) (jr_other_participants jr)"
    and "map_of (rm_participants r) k = Some p" and "k \<notin> ppi_identity ` set (jr_other_participants jr)"
    and "e = engine_start [] [RestartResult (Inl err), ConnectResult (Inr jr), WaitResult (Inr ())]"
    and "\<not> is_signal_err err"
  shows "map_of (rm_participants (fold (room_turn renv) (eg_out (snd (reconnect_task e))) r)) k = Some p
    \<and> rm_participants (room_turn renv EeRestarting r) = []"
proof -
  have events: "eg_out (snd (reconnect_task e)) = [EeResuming, EeSignalRestarted jr, EeRestarted]"
    using fallback_run [of e err jr] assms(6,7) by (simp add: engine_start_def)
  from connect_ok [OF assms(1,2)] have ok: "table_ok iof r" by simp
  let ?r1 = "room_turn renv EeResuming r"
  let ?r2 = "room_turn renv (EeSignalRestarted jr) ?r1"
  let ?r3 = "room_turn renv EeRestarted ?r2"
  have p: "(k, p) \<in> set (rm_participants r)" using assms(4) by (rule map_of_SomeD)
  have p1: "(k, p) \<in> set (rm_participants ?r1)"
    using p by (auto simp: room_turn_def on_engine_event_def handle_resuming_def dispatch_def
        update_connection_state_def split: prod.splits)
  have ok1: "table_ok iof ?r1" using told_good [OF told_event [OF ok]] by simp
  have p2: "(k, p) \<in> set (rm_participants ?r2)"
    using signal_restarted_other [OF ok1 p1 assms(3,5)] by (simp add: room_turn_def on_engine_event_def)
  have p3: "(k, p) \<in> set (rm_participants ?r3)"
    using p2 by (simp add: room_turn_def [of _ EeRestarted] on_engine_event_def handle_restarted_def
        spawn_task_def)
  have "table_ok iof ?r2" using told_good [OF told_event [OF ok1]] assms(3) by simp
  then have "table_ok iof ?r3" using told_good [OF told_event] by simp
  with p3 have "map_of (rm_participants ?r3) k = Some p" by (simp add: table_ok_def hm_wf_lookup)
  moreover have "rm_participants (room_turn renv EeRestarting r) = []"
    using told_restarting(2) [OF ok] by (simp add: room_turn_def on_engine_event_def)
  ultimately show ?thesis using events by simp
qed

definition example_rejoin :: "proto_participant_info list \<Rightarrow> join_response" where
  "example_rejoin others = \<lparr>jr_room = Some example_room, jr_participant = Some (example_member ''PA_0'' ''me''),
     jr_other_participants = others\<rparr>"

theorem fallback_keeps_ghosts_witness:
  "\<exists>r. room_connect example_welcome True = Some r
     \<and> map_of (rm_participants (fold (room_turn example_env) (eg_out (snd (reconnect_task (engine_start []
          [RestartResult (Inl (RtcErr ''x'')), ConnectResult (Inr (example_rejoin [])), WaitResult (Inr ())])))) r))
          ''bob'' \<noteq> None"
proof -
  have "map_option (\<lambda>r. map_of (rm_participants r) ''bob'' = None) (room_connect example_welcome True)
    = Some False" by code_simp
  then obtain r p where r: "room_connect example_welcome True = Some r" "map_of (rm_participants r) ''bob'' = Some p"
    by auto
  have n: "list_all (names_ok example_names) (jr_other_participants example_welcome)"
    "list_all (names_ok example_names) (jr_other_participants (example_rejoin []))"
    "''bob'' \<notin> ppi_identity ` set (jr_other_participants (example_rejoin []))"
    by (simp_all add: example_welcome_def example_rejoin_def names_ok_def example_names_def example_member_def)
  have "\<not> is_signal_err (RtcErr ''x'')" by simp
  from fallback_keeps_ghosts [OF r(1) n(1,2) r(2) n(3) refl this] r(1) show ?thesis by blast
qed

text \<open>
  C36. A successful resume is invisible but for its four events: when the engine resumes the session of a
  connected room undisturbed, the room keeps every participant with all its state, says
  \<open>Reconnecting\<close> and \<open>Reconnected\<close> with the two changes of its state, and starts the sync state
  before the permissions.
\<close>

theorem resume_transparent:
  assumes "e = engine_start [] [RestartResult (Inr rr), PublisherResult (Inr ()), WaitResult (Inr ())]"
    and "ri_state (rm_info r) = Connected"
    and "r' = fold (room_turn renv) (eg_out (snd (reconnect_task e))) r"
  shows "rm_participants r' = rm_participants r \<and> rm_local r' = rm_local r
    \<and> ri_state (rm_info r') = Connected
    \<and> rm_outputs r' = rm_outputs r @ [Dispatch (ReConnectionStateChanged Reconnecting),
        Dispatch ReReconnecting, Dispatch (ReConnectionStateChanged Connected), Dispatch ReReconnected]
    \<and> rm_spawned r' = rm_spawned r @ [TaskSyncState, TaskUpdatePermissions]"
proof -
  have "eg_out (snd (reconnect_task e)) = [EeResuming, EeSignalResumed rr, EeResumed]"
    using resume_run [of e rr] assms(1) by (simp add: engine_start_def)
  with assms(2,3) show ?thesis
    by (simp add: room_turn_def on_engine_event_def handle_resuming_def handle_signal_resumed_def
        handle_resumed_def update_connection_state_def dispatch_def room_out_def spawn_task_def)
qed

theorem resume_transparent_witness:
  "\<exists>r. room_connect example_welcome True = Some r
     \<and> rm_participants (fold (room_turn example_env) (eg_out (snd (reconnect_task (engine_start []
          [RestartResult (Inr \<lparr>rr_last_message_seq = 3\<rparr>), PublisherResult (Inr ()), WaitResult (Inr ())])))) r)
       = rm_participants r"
proof -
  have "map_option (\<lambda>r. ri_state (rm_info r)) (room_connect example_welcome True) = Some Connected"
    by code_simp
  then obtain r where "room_connect example_welcome True = Some r" "ri_state (rm_info r) = Connected" by auto
  with resume_transparent [OF refl this(2) refl] show ?thesis by blast
qed

text \<open>
  C6. After a full reconnect the room is that of the new session: from any reachable room, when the
  engine restarts undisturbed and the join response has a room, a valid local participant and valid
  descriptions of others, none of them left, the participants are exactly the described ones.
\<close>

theorem restart_resyncs:
  assumes "room_connect jr0 auto_subscribe = Some r0"
    and "list_all (names_ok iof) (jr_other_participants jr0)"
    and "list_all (\<lambda>a. list_all (names_ok iof) (action_participants a)) acts"
    and "r = fold room_step acts r0"
    and "list_all (names_ok iof) (jr_other_participants jr)"
    and "e = (engine_start [] [ConnectResult (Inr jr), WaitResult (Inr ())])\<lparr>eg_full_reconnect := True\<rparr>"
    and "jr_participant jr = Some me" and "description_ok me" and "jr_room jr = Some room"
    and "\<forall>pi \<in> set (jr_other_participants jr). description_ok pi \<and> ppi_state pi \<noteq> STATE_DISCONNECTED
      \<and> ppi_sid pi \<noteq> ppi_sid me \<and> ppi_identity pi \<noteq> ppi_identity me"
  shows "dom (map_of (rm_participants (fold (room_turn renv) (eg_out (snd (reconnect_task e))) r)))
    = ppi_identity ` set (jr_other_participants jr)"
proof -
  let ?pis = "jr_other_participants jr"
  have events: "eg_out (snd (reconnect_task e)) = [EeRestarting, EeSignalRestarted jr, EeRestarted]"
    using restart_run [of e 0 jr] assms(6) by (simp add: engine_start_def)
  have ok: "table_ok iof r" using run_table_ok [OF assms(1-3)] assms(4) by simp
  let ?r1 = "handle_restarting r"
  have r1: "table_ok iof ?r1" "names ?r1 = {}"
    using told_good [OF told_restarting(1) [OF ok]] told_restarting(2) [OF ok] by (simp_all add: names_def)
  obtain r2 where r2: "update_local me ?r1 = Ran r2" "ptc_sid (lcp_info (rm_local r2)) = ppi_sid me"
    "ptc_identity (lcp_info (rm_local r2)) = ppi_identity me"
    by (rule local_applied [OF assms(8)])
  have ok2: "table_ok iof r2" "names r2 = {}"
    using told_good [OF told_update_local [OF r1(1), of me]] update_local_frame [OF refl, of me ?r1] r1(2) r2(1)
    by (auto simp: names_def)
  have "list_all (for_remote r2) ?pis"
    using assms(10) r2(2,3) by (simp add: list_all_iff for_remote_def)
  from participant_update_applied [OF ok2(1) assms(5) this] ok2(2) obtain r3 where
    r3: "handle_participant_update ?pis r2 = Ran r3" "names r3 = fold present ?pis {}" by auto
  have "fold present pis S = ppi_identity ` set pis \<union> S"
    if "\<forall>pi \<in> set pis. ppi_state pi \<noteq> STATE_DISCONNECTED" for pis S
    using that by (induction pis arbitrary: S) (auto simp: present_def)
  with assms(10) r3(2) have n3: "names r3 = ppi_identity ` set ?pis" by auto
  have "handle_signal_restarted jr ?r1 = Ran (handle_room_update room r3)"
    using assms(7,9) r2(1) r3(1) by (simp add: handle_signal_restarted_def)
  then have "rm_participants (fold (room_turn renv) (eg_out (snd (reconnect_task e))) r) = rm_participants r3"
    using events by (simp add: room_turn_def on_engine_event_def handle_restarted_def spawn_task_def
        handle_room_update_def Let_def)
  with n3 show ?thesis by (simp add: names_dom)
qed

theorem restart_resyncs_witness:
  "\<exists>r. room_connect example_welcome True = Some r
     \<and> dom (map_of (rm_participants (fold (room_turn example_env) (eg_out (snd (reconnect_task
         ((engine_start [] [ConnectResult (Inr (example_rejoin [example_member ''PA_2'' ''bob''])),
            WaitResult (Inr ())])\<lparr>eg_full_reconnect := True\<rparr>)))) r))) = {''bob''}"
proof -
  let ?jr = "example_rejoin [example_member ''PA_2'' ''bob'']"
  have "room_connect example_welcome True \<noteq> None" by code_simp
  then obtain r where r: "room_connect example_welcome True = Some r" by auto
  have n: "list_all (names_ok example_names) (jr_other_participants example_welcome)"
    "list_all (names_ok example_names) (jr_other_participants ?jr)"
    "jr_participant ?jr = Some (example_member ''PA_0'' ''me'')" "description_ok (example_member ''PA_0'' ''me'')"
    "jr_room ?jr = Some example_room"
    "\<forall>pi \<in> set (jr_other_participants ?jr). description_ok pi \<and> ppi_state pi \<noteq> STATE_DISCONNECTED
      \<and> ppi_sid pi \<noteq> ppi_sid (example_member ''PA_0'' ''me'')
      \<and> ppi_identity pi \<noteq> ppi_identity (example_member ''PA_0'' ''me'')"
    by (simp_all add: example_welcome_def example_rejoin_def names_ok_def example_names_def example_member_def
        description_ok_def starts_with_def PARTICIPANT_PREFIX_def STATE_DISCONNECTED_def)
  have "list_all (\<lambda>a. list_all (names_ok example_names) (action_participants a)) []" by simp
  from restart_resyncs [OF r n(1) this refl n(2) refl n(3-6), of example_env] r show ?thesis
    by (simp add: example_rejoin_def example_member_def)
qed

end
